(* ===== verification/Py_Prelude.thy ===== *)
theory Py_Prelude
  imports
    Complex_Main
    "HOL-Library.Char_ord"
    "HOL-Library.List_Lexorder"
    "HOL-Library.Product_Lexorder"
begin

text \<open>
  The Python vocabulary the components share: the values a parsed YAML or JSON
  document is made of, errors as values, the string and list operations the
  sources use, regular-expression pieces, and the iterations that stop at the
  first error.  A Python \<open>str\<close> is a HOL \<open>string\<close> read as the code points
  U+0000 to U+00FF; the case mapping and the white space below are Python's on
  that range.
\<close>

section \<open>Collections of simplification rules\<close>

named_theorems py_simps \<open>unfolding rules of the Python operations\<close>
named_theorems res_simps \<open>rules of the error results\<close>

section \<open>Errors as values\<close>

text \<open>
  The built-in exceptions a model can end in where the source does not catch
  them; \<open>Unmodelled\<close> marks a value of a type the source's annotations rule out
  and whose further course through the source is not followed.  A function that raises its own exception class as well returns
  \<open>Raised e\<close> for that one and \<open>Crash x\<close> for a built-in one.
\<close>

datatype py_exc = TypeError | AttributeError | KeyError | IndexError | ValueError | OSError | OverflowError
  | Unmodelled

datatype 'e raised = Raised 'e | Crash py_exc

definition rbind :: "'e + 'a \<Rightarrow> ('a \<Rightarrow> 'e + 'b) \<Rightarrow> 'e + 'b" where
  "rbind m f = (case m of Inl e \<Rightarrow> Inl e | Inr x \<Rightarrow> f x)"

lemma rbind_Inl [simp, res_simps]: "rbind (Inl e) f = Inl e"
  by (simp add: rbind_def)

lemma rbind_Inr [simp, res_simps]: "rbind (Inr x) f = f x"
  by (simp add: rbind_def)

lemma rbind_eq_Inr [res_simps]: "rbind m f = Inr y \<longleftrightarrow> (\<exists>x. m = Inr x \<and> f x = Inr y)"
  by (cases m) auto

lemma rbind_eq_Inl [res_simps]:
  "rbind m f = Inl e \<longleftrightarrow> m = Inl e \<or> (\<exists>x. m = Inr x \<and> f x = Inl e)"
  by (cases m) auto

lemma rbind_cong [fundef_cong]:
  "m = m' \<Longrightarrow> (\<And>x. m' = Inr x \<Longrightarrow> f x = g x) \<Longrightarrow> rbind m f = rbind m' g"
  by (cases m') auto

text \<open>A comprehension whose element expression may raise.\<close>

fun rmap :: "('a \<Rightarrow> 'e + 'b) \<Rightarrow> 'a list \<Rightarrow> 'e + 'b list" where
  "rmap f [] = Inr []"
| "rmap f (x # xs) = rbind (f x) (\<lambda>y. rbind (rmap f xs) (\<lambda>ys. Inr (y # ys)))"

lemma rmap_eq_Inr_iff: "rmap f xs = Inr ys \<longleftrightarrow> list_all2 (\<lambda>x y. f x = Inr y) xs ys"
  by (induction xs arbitrary: ys) (auto simp: list_all2_Cons1 rbind_eq_Inr)

lemma rmap_Inr_length: "rmap f xs = Inr ys \<Longrightarrow> length ys = length xs"
  by (auto simp: rmap_eq_Inr_iff dest: list_all2_lengthD)

lemma rmap_Inr_set: "rmap f xs = Inr ys \<Longrightarrow> y \<in> set ys \<Longrightarrow> \<exists>x\<in>set xs. f x = Inr y"
  by (induction xs arbitrary: ys) (auto simp: rbind_eq_Inr)

lemma rmap_all_Inr: "(\<And>x. x \<in> set xs \<Longrightarrow> f x = Inr (g x)) \<Longrightarrow> rmap f xs = Inr (map g xs)"
  by (induction xs) auto

text \<open>A loop body that may raise, run over a list with an accumulator.\<close>

fun rfold :: "('s \<Rightarrow> 'a \<Rightarrow> 'e + 's) \<Rightarrow> 's \<Rightarrow> 'a list \<Rightarrow> 'e + 's" where
  "rfold f s [] = Inr s"
| "rfold f s (x # xs) = rbind (f s x) (\<lambda>s'. rfold f s' xs)"

lemma rfold_append: "rfold f s (xs @ ys) = rbind (rfold f s xs) (\<lambda>s'. rfold f s' ys)"
  by (induction xs arbitrary: s) (auto simp: rbind_def split: sum.splits)

lemma rfold_invariant:
  assumes "rfold f s xs = Inr t" and "P s"
    and "\<And>s x s'. x \<in> set xs \<Longrightarrow> P s \<Longrightarrow> f s x = Inr s' \<Longrightarrow> P s'"
  shows "P t"
  using assms
proof (induction xs arbitrary: s)
  case Nil
  then show ?case by simp
next
  case (Cons x xs)
  from Cons.prems(1) obtain s' where s': "f s x = Inr s'" and rest: "rfold f s' xs = Inr t"
    by (auto simp: rbind_eq_Inr)
  have "P s'" using Cons.prems(2,3) s' by (meson list.set_intros(1))
  with rest show ?case using Cons.IH Cons.prems(3) by (meson list.set_intros(2))
qed

section \<open>Dates\<close>

text \<open>
  \<open>datetime.date\<close>: a year from 1 to 9999, a month and a day of the proleptic
  Gregorian calendar, ordered by year, month and day.
\<close>

datatype date = Date (yr: nat) (mo: nat) (dy: nat)

instantiation date :: linorder
begin

definition less_eq_date :: "date \<Rightarrow> date \<Rightarrow> bool" where
  "d \<le> e \<longleftrightarrow> (yr d, mo d, dy d) \<le> (yr e, mo e, dy e)"

definition less_date :: "date \<Rightarrow> date \<Rightarrow> bool" where
  "d < e \<longleftrightarrow> (yr d, mo d, dy d) < (yr e, mo e, dy e)"

instance
proof
  fix d e f :: date
  show "d < e \<longleftrightarrow> d \<le> e \<and> \<not> e \<le> d"
    by (auto simp: less_eq_date_def less_date_def)
  show "d \<le> d" by (simp add: less_eq_date_def)
  show "d \<le> e \<Longrightarrow> e \<le> f \<Longrightarrow> d \<le> f"
    unfolding less_eq_date_def by (rule order_trans)
  show "d \<le> e \<Longrightarrow> e \<le> d \<Longrightarrow> d = e"
    by (cases d; cases e) (auto simp: less_eq_date_def)
  show "d \<le> e \<or> e \<le> d"
    unfolding less_eq_date_def by (rule linear)
qed

end

definition leap_year :: "nat \<Rightarrow> bool" where
  "leap_year y \<longleftrightarrow> y mod 4 = 0 \<and> (y mod 100 \<noteq> 0 \<or> y mod 400 = 0)"

definition days_in_month :: "nat \<Rightarrow> nat \<Rightarrow> nat" where
  "days_in_month y m =
     (if m = 2 then (if leap_year y then 29 else 28)
      else if m \<in> {4, 6, 9, 11} then 30 else 31)"

definition valid_date :: "date \<Rightarrow> bool" where
  "valid_date d \<longleftrightarrow> 1 \<le> yr d \<and> yr d \<le> 9999 \<and> 1 \<le> mo d \<and> mo d \<le> 12
     \<and> 1 \<le> dy d \<and> dy d \<le> days_in_month (yr d) (mo d)"

text \<open>\<open>date.toordinal\<close>: days since the first of January of year 1 (which is day 1).\<close>

definition days_before_month :: "nat \<Rightarrow> nat \<Rightarrow> nat" where
  "days_before_month y m = sum_list (map (days_in_month y) [1..<m])"

definition toordinal :: "date \<Rightarrow> int" where
  "toordinal d = (let y = yr d - 1 in
     int (y * 365 + y div 4 - y div 100 + y div 400
          + days_before_month (yr d) (mo d) + dy d))"

section \<open>Values of parsed documents\<close>

text \<open>
  What \<open>yaml.safe_load\<close> and \<open>json.loads\<close> return.  A mapping is an association
  list in insertion order; a key occurs once.  Finite floats stand as the
  rational number they denote; a datetime is an opaque number.
\<close>

datatype pyval =
    PNone
  | PBool bool
  | PInt int
  | PFloat rat
  | PStr string
  | PDate date
  | PDatetime int
  | PList "pyval list"
  | PDict "(pyval \<times> pyval) list"

type_synonym pydict = "(pyval \<times> pyval) list"

fun py_truthy :: "pyval \<Rightarrow> bool" where
  "py_truthy PNone = False"
| "py_truthy (PBool b) = b"
| "py_truthy (PInt n) = (n \<noteq> 0)"
| "py_truthy (PFloat q) = (q \<noteq> 0)"
| "py_truthy (PStr s) = (s \<noteq> [])"
| "py_truthy (PDate _) = True"
| "py_truthy (PDatetime _) = True"
| "py_truthy (PList xs) = (xs \<noteq> [])"
| "py_truthy (PDict d) = (d \<noteq> [])"

text \<open>\<open>isinstance\<close> tests; \<open>bool\<close> is a subclass of \<open>int\<close>.\<close>

fun is_pdict :: "pyval \<Rightarrow> bool" where "is_pdict (PDict _) = True" | "is_pdict _ = False"
fun is_plist :: "pyval \<Rightarrow> bool" where "is_plist (PList _) = True" | "is_plist _ = False"
fun is_pstr :: "pyval \<Rightarrow> bool" where "is_pstr (PStr _) = True" | "is_pstr _ = False"
fun is_pbool :: "pyval \<Rightarrow> bool" where "is_pbool (PBool _) = True" | "is_pbool _ = False"
fun is_pint :: "pyval \<Rightarrow> bool" where
  "is_pint (PInt _) = True" | "is_pint (PBool _) = True" | "is_pint _ = False"

text \<open>\<open>d.get(key)\<close> and \<open>key in d\<close> for a string key.\<close>

definition dget :: "pydict \<Rightarrow> string \<Rightarrow> pyval option" where
  "dget d k = map_of d (PStr k)"

definition dget_or :: "pydict \<Rightarrow> string \<Rightarrow> pyval \<Rightarrow> pyval" where
  "dget_or d k v = (case dget d k of None \<Rightarrow> v | Some x \<Rightarrow> x)"

definition dhas :: "pydict \<Rightarrow> string \<Rightarrow> bool" where
  "dhas d k \<longleftrightarrow> dget d k \<noteq> None"

text \<open>\<open>d[key] = v\<close>: replaces in place, or appends a new key at the end.\<close>

fun dset :: "('k \<times> 'v) list \<Rightarrow> 'k \<Rightarrow> 'v \<Rightarrow> ('k \<times> 'v) list" where
  "dset [] k v = [(k, v)]"
| "dset ((k', v') # d) k v = (if k' = k then (k, v) # d else (k', v') # dset d k v)"

lemma map_of_dset [simp]: "map_of (dset d k v) = (map_of d)(k \<mapsto> v)"
  by (induction d) auto

lemma dset_new: "k \<notin> fst ` set d \<Longrightarrow> dset d k v = d @ [(k, v)]"
  by (induction d k v rule: dset.induct) auto

lemma dget_dset: "dget (dset d (PStr k) v) k' = (if k = k' then Some v else dget d k')"
  by (simp add: dget_def)

lemma dget_or_dset: "dget_or (dset d (PStr k) v) k' w = (if k = k' then v else dget_or d k' w)"
  by (simp add: dget_or_def dget_dset)

lemma set_map_fst_dset [simp]: "fst ` set (dset d k v) = insert k (fst ` set d)"
proof (induction d)
  case Nil
  then show ?case by simp
next
  case (Cons p d)
  then show ?case by (cases p) (simp add: insert_commute)
qed

lemma distinct_dset [simp]: "distinct (map fst d) \<Longrightarrow> distinct (map fst (dset d k v))"
  by (induction d) auto

text \<open>Keys of a mapping outside a set of allowed names, in insertion order.\<close>

definition unknown_keys :: "pydict \<Rightarrow> string list \<Rightarrow> pyval list" where
  "unknown_keys d allowed = filter (\<lambda>k. k \<notin> PStr ` set allowed) (map fst d)"

text \<open>
  \<open>sorted\<close> needs values that compare with each other: a list of fewer than two
  values, all strings, all numbers, all dates or all datetimes.
\<close>

fun is_pnum :: "pyval \<Rightarrow> bool" where
  "is_pnum (PInt _) = True" | "is_pnum (PBool _) = True" | "is_pnum (PFloat _) = True"
| "is_pnum _ = False"
fun is_pdate :: "pyval \<Rightarrow> bool" where "is_pdate (PDate _) = True" | "is_pdate _ = False"
fun is_pdatetime :: "pyval \<Rightarrow> bool" where
  "is_pdatetime (PDatetime _) = True" | "is_pdatetime _ = False"

definition py_sortable :: "pyval list \<Rightarrow> bool" where
  "py_sortable ks \<longleftrightarrow> length ks < 2 \<or> list_all is_pstr ks \<or> list_all is_pnum ks
     \<or> list_all is_pdate ks \<or> list_all is_pdatetime ks"

text \<open>Lists and mappings have no hash: \<open>x in a_set\<close> raises TypeError for them.\<close>

fun py_hashable :: "pyval \<Rightarrow> bool" where
  "py_hashable (PList _) = False"
| "py_hashable (PDict _) = False"
| "py_hashable _ = True"

text \<open>
  \<open>v.get(key)\<close> and \<open>v.get(key, default)\<close> on a value that ought to be a mapping,
  and the values a \<open>for\<close> loop takes from one that ought to be a list: the keys
  of a mapping, the characters of a string, or a TypeError.
\<close>

fun py_get_or :: "pyval \<Rightarrow> string \<Rightarrow> pyval \<Rightarrow> py_exc + pyval" where
  "py_get_or (PDict d) k v = Inr (dget_or d k v)"
| "py_get_or _ k v = Inl AttributeError"

abbreviation py_get :: "pyval \<Rightarrow> string \<Rightarrow> py_exc + pyval" where
  "py_get v k \<equiv> py_get_or v k PNone"

fun py_iter :: "pyval \<Rightarrow> py_exc + pyval list" where
  "py_iter (PList xs) = Inr xs"
| "py_iter (PDict d) = Inr (map fst d)"
| "py_iter (PStr s) = Inr (map (\<lambda>c. PStr [c]) s)"
| "py_iter _ = Inl TypeError"

text \<open>\<open>v or default\<close>.\<close>

definition py_or :: "pyval \<Rightarrow> pyval \<Rightarrow> pyval" where
  "py_or v w = (if py_truthy v then v else w)"

text \<open>A field annotated \<open>str\<close>, and one annotated \<open>str | None\<close> read with \<open>or None\<close>.\<close>

fun str_field :: "pyval \<Rightarrow> py_exc + string" where
  "str_field (PStr s) = Inr s"
| "str_field _ = Inl Unmodelled"

definition opt_str_field :: "pyval \<Rightarrow> py_exc + string option" where
  "opt_str_field v = (if py_truthy v then rbind (str_field v) (\<lambda>s. Inr (Some s)) else Inr None)"

text \<open>The keys of a JSON object: strings.\<close>

fun str_keys :: "('a \<times> 'v) list \<Rightarrow> ('a \<Rightarrow> string option) \<Rightarrow> string list" where
  "str_keys [] f = []"
| "str_keys ((k, v) # d) f = (case f k of None \<Rightarrow> str_keys d f | Some s \<Rightarrow> s # str_keys d f)"

fun pstr_of :: "pyval \<Rightarrow> string option" where
  "pstr_of (PStr s) = Some s"
| "pstr_of _ = None"

section \<open>Strings\<close>

definition code :: "char \<Rightarrow> nat" where
  "code c = of_char c"

definition is_digit :: "char \<Rightarrow> bool" where
  "is_digit c \<longleftrightarrow> 48 \<le> code c \<and> code c \<le> 57"

definition is_lower_az :: "char \<Rightarrow> bool" where
  "is_lower_az c \<longleftrightarrow> 97 \<le> code c \<and> code c \<le> 122"

definition is_upper_az :: "char \<Rightarrow> bool" where
  "is_upper_az c \<longleftrightarrow> 65 \<le> code c \<and> code c \<le> 90"

definition is_lower_alnum :: "char \<Rightarrow> bool" where
  "is_lower_alnum c \<longleftrightarrow> is_lower_az c \<or> is_digit c"

definition py_isspace :: "char \<Rightarrow> bool" where
  "py_isspace c \<longleftrightarrow> code c \<in> {9, 10, 11, 12, 13, 28, 29, 30, 31, 32, 133, 160}"

definition py_strip :: "string \<Rightarrow> string" where
  "py_strip s = rev (dropWhile py_isspace (rev (dropWhile py_isspace s)))"

definition lower_char :: "char \<Rightarrow> char" where
  "lower_char c = (if is_upper_az c \<or> (192 \<le> code c \<and> code c \<le> 222 \<and> code c \<noteq> 215)
     then char_of (code c + 32) else c)"

definition py_lower :: "string \<Rightarrow> string" where
  "py_lower s = map lower_char s"

text \<open>
  U+00B5 and U+00FF have upper-case forms beyond U+00FF; they are left as they
  are, since every use compares the result with ASCII words.
\<close>

definition upper_char :: "char \<Rightarrow> string" where
  "upper_char c = (if is_lower_az c \<or> (224 \<le> code c \<and> code c \<le> 254 \<and> code c \<noteq> 247)
     then [char_of (code c - 32)]
     else if code c = 223 then ''SS'' else [c])"

definition py_upper :: "string \<Rightarrow> string" where
  "py_upper s = concat (map upper_char s)"

fun starts_with :: "string \<Rightarrow> string \<Rightarrow> bool" where
  "starts_with [] s = True"
| "starts_with (p # ps) [] = False"
| "starts_with (p # ps) (c # cs) = (p = c \<and> starts_with ps cs)"

definition ends_with :: "string \<Rightarrow> string \<Rightarrow> bool" where
  "ends_with p s = starts_with (rev p) (rev s)"

fun contains_sub :: "string \<Rightarrow> string \<Rightarrow> bool" where
  "contains_sub p [] = (p = [])"
| "contains_sub p (c # cs) = (starts_with p (c # cs) \<or> contains_sub p cs)"

lemma starts_with_iff: "starts_with p s \<longleftrightarrow> (\<exists>t. s = p @ t)"
  by (induction p s rule: starts_with.induct) auto

fun split_on :: "char \<Rightarrow> string \<Rightarrow> string list" where
  "split_on sep [] = [[]]"
| "split_on sep (c # cs) =
     (if c = sep then [] # split_on sep cs
      else (case split_on sep cs of
              [] \<Rightarrow> [[c]]
            | w # ws \<Rightarrow> (c # w) # ws))"

fun join :: "string \<Rightarrow> string list \<Rightarrow> string" where
  "join sep [] = []"
| "join sep [x] = x"
| "join sep (x # y # xs) = x @ sep @ join sep (y # xs)"

text \<open>Decimal text of a number, as an f-string interpolates it.\<close>

definition digit_char :: "nat \<Rightarrow> char" where
  "digit_char n = char_of (48 + n)"

function show_nat :: "nat \<Rightarrow> string" where
  "show_nat n = (if n < 10 then [digit_char n] else show_nat (n div 10) @ [digit_char (n mod 10)])"
  by pat_completeness auto
termination
  by (relation "measure id") auto

declare show_nat.simps [simp del]

definition show_int :: "int \<Rightarrow> string" where
  "show_int n = (if n < 0 then ''-'' @ show_nat (nat (- n)) else show_nat (nat n))"

text \<open>
  \<open>$\<close> in a Python pattern matches at the end of the string and just before a
  newline that ends it; \<open>re.fullmatch\<close> does not allow that newline.
\<close>

definition at_dollar :: "string \<Rightarrow> bool" where
  "at_dollar s \<longleftrightarrow> s = [] \<or> s = [CHR 0x0A]"

lemma code_inj [simp]: "code c = code d \<longleftrightarrow> c = d"
  by (simp add: code_def)

lemma is_digit_digit_char [simp]: "n < 10 \<Longrightarrow> is_digit (digit_char n)"
  by (simp add: is_digit_def digit_char_def code_def take_bit_eq_mod)

lemma code_digit_char [simp]: "n < 10 \<Longrightarrow> code (digit_char n) = 48 + n"
  by (simp add: digit_char_def code_def take_bit_eq_mod)

lemma dropWhile_idem: "dropWhile P (dropWhile P s) = dropWhile P s"
  by (induction s) auto

lemma py_strip_idem [simp]: "py_strip (py_strip s) = py_strip s"
proof -
  define t where "t = dropWhile py_isspace s"
  define u where "u = dropWhile py_isspace (rev t)"
  obtain v where v: "rev t = v @ u"
    unfolding u_def by (metis takeWhile_dropWhile_id)
  then have t: "t = rev u @ rev v" by (metis rev_append rev_rev_ident)
  have "dropWhile py_isspace (rev u) = rev u"
  proof (cases "rev u")
    case (Cons c cs)
    then have "t = c # (cs @ rev v)" using t by simp
    then have "\<not> py_isspace c" unfolding t_def by (metis dropWhile_eq_Cons_conv)
    with Cons show ?thesis by simp
  qed simp
  then show ?thesis
    by (simp add: py_strip_def t_def [symmetric] u_def [symmetric] dropWhile_idem)
      (simp add: u_def dropWhile_idem)
qed

section \<open>Calendar text\<close>

definition digit_val :: "char \<Rightarrow> nat" where
  "digit_val c = code c - 48"

definition dec_val :: "string \<Rightarrow> nat" where
  "dec_val s = foldl (\<lambda>n c. 10 * n + digit_val c) 0 s"

definition pad2 :: "nat \<Rightarrow> string" where
  "pad2 n = [digit_char (n div 10 mod 10), digit_char (n mod 10)]"

definition pad4 :: "nat \<Rightarrow> string" where
  "pad4 n = [digit_char (n div 1000 mod 10), digit_char (n div 100 mod 10),
             digit_char (n div 10 mod 10), digit_char (n mod 10)]"

text \<open>\<open>date.isoformat\<close>.\<close>

definition date_iso :: "date \<Rightarrow> string" where
  "date_iso d = pad4 (yr d) @ ''-'' @ pad2 (mo d) @ ''-'' @ pad2 (dy d)"

text \<open>
  \<open>date.fromisoformat\<close> on the forms \<open>YYYY-MM-DD\<close> and \<open>YYYYMMDD\<close>; \<open>None\<close> is its
  ValueError.  The ISO week forms (\<open>2026-W31-6\<close>) are not followed.
\<close>

fun date_from_iso :: "string \<Rightarrow> date option" where
  "date_from_iso [a, b, c, d, s1, e, f, s2, g, h] =
     (if list_all is_digit [a, b, c, d, e, f, g, h] \<and> s1 = CHR ''-'' \<and> s2 = CHR ''-''
        \<and> valid_date (Date (dec_val [a, b, c, d]) (dec_val [e, f]) (dec_val [g, h]))
      then Some (Date (dec_val [a, b, c, d]) (dec_val [e, f]) (dec_val [g, h]))
      else None)"
| "date_from_iso [a, b, c, d, e, f, g, h] =
     (if list_all is_digit [a, b, c, d, e, f, g, h]
        \<and> valid_date (Date (dec_val [a, b, c, d]) (dec_val [e, f]) (dec_val [g, h]))
      then Some (Date (dec_val [a, b, c, d]) (dec_val [e, f]) (dec_val [g, h]))
      else None)"
| "date_from_iso _ = None"

lemma date_from_iso_valid: "date_from_iso s = Some d \<Longrightarrow> valid_date d"
  by (induction s rule: date_from_iso.induct) (auto split: if_splits)

lemma days_in_month_le: "days_in_month y m \<le> 31"
  by (simp add: days_in_month_def)

lemma dec_val_digits [simp]:
  "n < 100 \<Longrightarrow> dec_val (pad2 n) = n"
  "n < 10000 \<Longrightarrow> dec_val (pad4 n) = n"
proof -
  assume "n < 100"
  then have "n div 10 mod 10 = n div 10" by simp
  then show "dec_val (pad2 n) = n"
    by (simp add: dec_val_def pad2_def digit_val_def)
next
  assume n: "n < 10000"
  have lt: "n div 1000 < 10" using n by simp
  then have top: "n div 1000 mod 10 = n div 1000" by simp
  have "10 * (n div 1000) + n div 100 mod 10 = n div 100"
    using div_mult_mod_eq [of "n div 100" 10] by (simp add: div_mult2_eq [symmetric])
  moreover have "10 * (n div 100) + n div 10 mod 10 = n div 10"
    using div_mult_mod_eq [of "n div 10" 10] by (simp add: div_mult2_eq [symmetric])
  moreover have "10 * (n div 10) + n mod 10 = n"
    using div_mult_mod_eq [of n 10] by simp
  ultimately have "10 * (10 * (10 * (n div 1000 mod 10) + n div 100 mod 10) + n div 10 mod 10) + n mod 10 = n"
    by (simp add: top)
  then show "dec_val (pad4 n) = n"
    by (simp add: dec_val_def pad4_def digit_val_def top lt)
qed

theorem date_iso_roundtrip: "valid_date d \<Longrightarrow> date_from_iso (date_iso d) = Some d"
proof -
  assume v: "valid_date d"
  then have b: "yr d < 10000" "mo d < 100" "dy d < 100"
    using days_in_month_le [of "yr d" "mo d"] by (auto simp: valid_date_def)
  have "dec_val (pad4 (yr d)) = yr d" "dec_val (pad2 (mo d)) = mo d" "dec_val (pad2 (dy d)) = dy d"
    using b by simp_all
  with v show ?thesis
    by (simp add: date_iso_def pad2_def pad4_def)
qed

section \<open>JSON and YAML files\<close>

text \<open>
  A file a component reads with \<open>path.exists\<close>, \<open>read_text\<close> and a parser: it is
  absent, unreadable (OSError), not a document (a parse error), or the value
  the parser returns.  Writing a value with \<open>json.dumps\<close> or \<open>yaml.safe_dump\<close>
  leaves the file holding that value.
\<close>

datatype json_file = Absent | Unreadable | Unparseable | Doc pyval

text \<open>
  \<open>atomic_write_text\<close>: the whole new document, or an OSError and the old file.
  Whether the write succeeds is the environment's choice, the first argument.
\<close>

definition atomic_write :: "bool \<Rightarrow> pyval \<Rightarrow> py_exc + json_file" where
  "atomic_write can_write v = (if can_write then Inr (Doc v) else Inl OSError)"

text \<open>\<open>str(value)\<close> for the values whose text the sources go on with.\<close>

fun py_str :: "pyval \<Rightarrow> string option" where
  "py_str (PStr s) = Some s"
| "py_str (PInt n) = Some (show_int n)"
| "py_str (PDate d) = Some (date_iso d)"
| "py_str (PBool b) = Some (if b then ''True'' else ''False'')"
| "py_str PNone = Some ''None''"
| "py_str _ = None"

section \<open>The contract of an encoding\<close>

text \<open>
  A component that keeps its state in a file promises that what it writes for a
  well-formed state is read back as that state.  The position argument is the
  entry's index in its list, which only error messages use.
\<close>

locale doc_codec =
  fixes enc :: "'a \<Rightarrow> pyval"
    and dec :: "nat \<Rightarrow> pyval \<Rightarrow> 'e + 'a"
    and wf :: "'a \<Rightarrow> bool"
  assumes dec_enc: "wf x \<Longrightarrow> dec i (enc x) = Inr x"
begin

lemma enc_inj: "wf x \<Longrightarrow> wf y \<Longrightarrow> enc x = enc y \<Longrightarrow> x = y"
  using dec_enc by (metis Inr_inject)

lemma decode_all:
  "(\<And>x. x \<in> set xs \<Longrightarrow> wf x) \<Longrightarrow>
   rmap (\<lambda>(i, v). dec i v) (enumerate n (map enc xs)) = Inr xs"
  by (induction xs arbitrary: n) (auto simp: dec_enc)

lemma decode_append:
  assumes "rmap (\<lambda>(i, v). dec i v) (enumerate 0 vs) = Inr xs" and "wf x"
  shows "rmap (\<lambda>(i, v). dec i v) (enumerate 0 (vs @ [enc x])) = Inr (xs @ [x])"
proof -
  have "rmap (\<lambda>(i, v). dec i v) (enumerate n vs) = Inr ys \<Longrightarrow>
        rmap (\<lambda>(i, v). dec i v) (enumerate n (vs @ [enc x])) = Inr (ys @ [x])" for n ys
    using assms(2) by (induction vs arbitrary: n ys) (auto simp: rbind_eq_Inr dec_enc)
  with assms(1) show ?thesis by blast
qed

end

section \<open>Double-precision products\<close>

text \<open>
  \<open>c * n\<close> for a float constant \<open>c = m / 2 ^ e\<close> with a 53-bit \<open>m\<close> and an integer
  \<open>n\<close>: the exact product rounded to 53 significant bits, ties to even.  The
  result is a pair \<open>(k, s)\<close> for \<open>k * 2 ^ s / 2 ^ e\<close>.
\<close>

function bit_length :: "nat \<Rightarrow> nat" where
  "bit_length n = (if n = 0 then 0 else Suc (bit_length (n div 2)))"
  by pat_completeness auto
termination
  by (relation "measure id") auto

declare bit_length.simps [simp del]

definition round_half_even :: "nat \<Rightarrow> nat \<Rightarrow> nat" where
  "round_half_even p q = (let k = p div q; r = p mod q in
     if 2 * r < q then k
     else if 2 * r > q then Suc k
     else if even k then k else Suc k)"

definition double_mult :: "nat \<Rightarrow> nat \<Rightarrow> nat \<times> nat" where
  "double_mult m n = (let s = bit_length (m * n) - 53 in (round_half_even (m * n) (2 ^ s), s))"

definition ceil_div :: "nat \<Rightarrow> nat \<Rightarrow> nat" where
  "ceil_div a b = (a + b - 1) div b"

end
