(* ===== verification/Py_Datetime.thy ===== *)
theory Py_Datetime
  imports Py_Prelude
begin

text \<open>
  The part of \<open>datetime.datetime\<close> the sources use: the ISO text, its parsing,
  aware and naive values, the comparison of instants and the addition of whole
  days.  A UTC offset is a whole number of minutes, which every zone the program
  writes has.
\<close>

section \<open>Values\<close>

record datetime =
  dt_date :: date
  dt_hour :: nat
  dt_minute :: nat
  dt_second :: nat
  dt_micro :: nat
  dt_offset :: "int option"

definition valid_datetime :: "datetime \<Rightarrow> bool" where
  "valid_datetime t \<longleftrightarrow> valid_date (dt_date t) \<and> dt_hour t < 24 \<and> dt_minute t < 60
     \<and> dt_second t < 60 \<and> dt_micro t < 1000000
     \<and> (case dt_offset t of None \<Rightarrow> True | Some n \<Rightarrow> - 1440 < n \<and> n < 1440)"

text \<open>The instant of a value in microseconds, an offset read as the zone's.\<close>

definition instant :: "datetime \<Rightarrow> int" where
  "instant t =
     (toordinal (dt_date t) * 86400 + int (dt_hour t) * 3600 + int (dt_minute t) * 60
        + int (dt_second t) - (case dt_offset t of None \<Rightarrow> 0 | Some n \<Rightarrow> n * 60)) * 1000000
     + int (dt_micro t)"

definition as_utc :: "datetime \<Rightarrow> datetime" where
  "as_utc t = (if dt_offset t = None then t\<lparr>dt_offset := Some 0\<rparr> else t)"

definition next_day :: "date \<Rightarrow> date" where
  "next_day d =
     (if dy d < days_in_month (yr d) (mo d) then Date (yr d) (mo d) (Suc (dy d))
      else if mo d < 12 then Date (yr d) (Suc (mo d)) 1
      else Date (Suc (yr d)) 1 1)"

text \<open>\<open>t + timedelta(hours=24)\<close>: the same clock time on the next day, OverflowError past 9999.\<close>

definition plus_day :: "datetime \<Rightarrow> py_exc + datetime" where
  "plus_day t = (let d = next_day (dt_date t) in
     if yr d \<le> 9999 then Inr (t\<lparr>dt_date := d\<rparr>) else Inl OverflowError)"

lemma plus_day_fields:
  assumes "plus_day t = Inr u"
  shows "dt_offset u = dt_offset t" "dt_hour u = dt_hour t" "dt_minute u = dt_minute t"
    "dt_second u = dt_second t" "dt_micro u = dt_micro t" "dt_date u = next_day (dt_date t)"
  using assms by (auto simp: plus_day_def Let_def split: if_splits)

lemma days_in_month_pos: "1 \<le> days_in_month y m"
  by (simp add: days_in_month_def)

lemma days_before_Suc: "1 \<le> m \<Longrightarrow>
  days_before_month y (Suc m) = days_before_month y m + days_in_month y m"
  by (simp add: days_before_month_def)

lemma year_days: "days_before_month y 12 + 31 = (if leap_year y then 366 else 365)"
proof -
  have "[1..<12] = [1, 2, 3, 4, 5, 6, 7, 8, 9, 10, 11::nat]" by (simp add: upt_rec)
  then show ?thesis by (simp add: days_before_month_def days_in_month_def)
qed

lemma leap_div:
  assumes "1 \<le> y"
  shows "y div 4 + (y - 1) div 100 + y div 400
    = (y - 1) div 4 + y div 100 + (y - 1) div 400 + (if leap_year y then 1 else (0::nat))"
proof -
  have step: "y div k = (y - 1) div k + (if y mod k = 0 then 1 else 0)" if "2 \<le> k" for k
    using assms div_Suc [of "y - 1" k] by simp
  have m: "y mod 400 = 0 \<Longrightarrow> y mod 100 = 0" "y mod 100 = 0 \<Longrightarrow> y mod 4 = 0"
    using mod_mod_cancel [of 100 400 y] mod_mod_cancel [of 4 100 y] by simp_all
  have s: "y div 4 = (y - 1) div 4 + (if y mod 4 = 0 then 1 else 0)"
    "y div 100 = (y - 1) div 100 + (if y mod 100 = 0 then 1 else 0)"
    "y div 400 = (y - 1) div 400 + (if y mod 400 = 0 then 1 else 0)"
    using step [of 4] step [of 100] step [of 400] by simp_all
  show ?thesis
    unfolding s leap_year_def using m
    by (cases "y mod 4 = 0"; cases "y mod 100 = 0"; cases "y mod 400 = 0") simp_all
qed

lemma year_arith:
  "a + b' + c = a' + b + c' + (if l then 1 else 0) \<Longrightarrow> b \<le> a \<Longrightarrow> b' \<le> a' \<Longrightarrow>
   s = (if l then 366 else 365) \<Longrightarrow> x = x' + 365 \<Longrightarrow>
   x + a - b + c = x' + a' - b' + c' + (s::nat)"
  by (cases l) simp_all

lemma toordinal_next_day:
  assumes "valid_date d"
  shows "toordinal (next_day d) = toordinal d + 1"
proof -
  obtain y m n where d: "d = Date y m n" by (cases d)
  have v: "1 \<le> y" "1 \<le> m" "m \<le> 12" "1 \<le> n" "n \<le> days_in_month y m"
    using assms by (auto simp: d valid_date_def)
  consider "n < days_in_month y m" | "n = days_in_month y m" "m < 12"
    | "n = days_in_month y m" "m = 12" using v by linarith
  then show ?thesis
  proof cases
    case 1
    then show ?thesis by (simp add: d next_day_def toordinal_def Let_def)
  next
    case 2
    then show ?thesis using days_before_Suc [of m y] v
      by (simp add: d next_day_def toordinal_def Let_def)
  next
    case 3
    have e1: "toordinal (Date (Suc y) 1 1)
        = int (y * 365 + y div 4 - y div 100 + y div 400) + 1"
      by (simp add: toordinal_def days_before_month_def)
    have e2: "toordinal d = int ((y - 1) * 365 + (y - 1) div 4 - (y - 1) div 100
        + (y - 1) div 400 + (days_before_month y 12 + 31))"
      using 3 by (simp add: d toordinal_def Let_def days_in_month_def)
    have e3: "y * 365 + y div 4 - y div 100 + y div 400
        = (y - 1) * 365 + (y - 1) div 4 - (y - 1) div 100 + (y - 1) div 400
          + (days_before_month y 12 + 31)"
    proof (rule year_arith [OF leap_div [OF v(1)] _ _ year_days])
      show "y * 365 = (y - 1) * 365 + 365" using v by (cases y) auto
    qed (rule div_le_mono2; simp)+
    have "toordinal (Date (Suc y) 1 1) = toordinal d + 1" by (simp only: e1 e2 e3)
    then show ?thesis using 3 by (simp add: d next_day_def)
  qed
qed

lemma valid_next_day: "valid_date d \<Longrightarrow> yr (next_day d) \<le> 9999 \<Longrightarrow> valid_date (next_day d)"
  using days_in_month_pos by (auto simp: valid_date_def next_day_def)

lemma plus_day_instant:
  assumes "plus_day t = Inr u" "valid_datetime t"
  shows "instant u = instant t + 86400 * 1000000"
  using assms toordinal_next_day [of "dt_date t"]
  by (simp add: instant_def plus_day_fields [OF assms(1)] valid_datetime_def algebra_simps)

lemma plus_day_valid:
  assumes "plus_day t = Inr u" "valid_datetime t"
  shows "valid_datetime u"
  using assms valid_next_day [of "dt_date t"]
  by (auto simp: valid_datetime_def plus_day_def Let_def split: if_splits)

section \<open>ISO text\<close>

definition pad6 :: "nat \<Rightarrow> string" where
  "pad6 n = pad2 (n div 10000) @ pad2 (n div 100 mod 100) @ pad2 (n mod 100)"

definition offset_iso :: "int \<Rightarrow> string" where
  "offset_iso n = (if n < 0 then CHR ''-'' else CHR ''+'')
     # pad2 (nat \<bar>n\<bar> div 60) @ '':'' @ pad2 (nat \<bar>n\<bar> mod 60)"

text \<open>\<open>datetime.isoformat\<close>.\<close>

definition datetime_iso :: "datetime \<Rightarrow> string" where
  "datetime_iso t = date_iso (dt_date t) @ ''T'' @ pad2 (dt_hour t) @ '':'' @ pad2 (dt_minute t)
     @ '':'' @ pad2 (dt_second t)
     @ (if dt_micro t = 0 then [] else CHR ''.'' # pad6 (dt_micro t))
     @ (case dt_offset t of None \<Rightarrow> [] | Some n \<Rightarrow> offset_iso n)"

fun two_digits :: "string \<Rightarrow> nat option" where
  "two_digits [a, b] = (if is_digit a \<and> is_digit b then Some (dec_val [a, b]) else None)"
| "two_digits _ = None"

text \<open>The fraction of a second: up to six digits count, fewer are filled with zeros.\<close>

definition fraction :: "string \<Rightarrow> nat option" where
  "fraction s = (if s \<noteq> [] \<and> list_all is_digit s
     then Some (dec_val (take 6 (s @ replicate 6 (CHR ''0'')))) else None)"

definition seconds_of :: "string \<Rightarrow> (nat \<times> nat) option" where
  "seconds_of s = (case two_digits (take 2 s) of
     None \<Rightarrow> None
   | Some n \<Rightarrow> (case drop 2 s of
       [] \<Rightarrow> Some (n, 0)
     | c # fs \<Rightarrow> if c = CHR ''.'' \<or> c = CHR '','' then map_option (Pair n) (fraction fs) else None))"

definition clock_of :: "string \<Rightarrow> (nat \<times> nat \<times> nat \<times> nat) option" where
  "clock_of s = (case split_on (CHR '':'') s of
     [h] \<Rightarrow> map_option (\<lambda>a. (a, 0, 0, 0)) (two_digits h)
   | [h, m] \<Rightarrow> (case (two_digits h, two_digits m) of
       (Some a, Some b) \<Rightarrow> Some (a, b, 0, 0) | _ \<Rightarrow> None)
   | [h, m, r] \<Rightarrow> (case (two_digits h, two_digits m, seconds_of r) of
       (Some a, Some b, Some (c, f)) \<Rightarrow> Some (a, b, c, f) | _ \<Rightarrow> None)
   | _ \<Rightarrow> None)"

definition is_zone_char :: "char \<Rightarrow> bool" where
  "is_zone_char c \<longleftrightarrow> c = CHR ''+'' \<or> c = CHR ''-'' \<or> c = CHR ''Z''"

text \<open>The zone text: none, \<open>Z\<close>, or a sign with hours and minutes.  \<open>Some None\<close> is a naive value.\<close>

fun zone_of :: "string \<Rightarrow> int option option" where
  "zone_of [] = Some None"
| "zone_of (c # s) =
    (if c = CHR ''Z'' then (if s = [] then Some (Some 0) else None)
     else case clock_of s of
       Some (a, b, 0, 0) \<Rightarrow>
         if a < 24 \<and> b < 60
         then Some (Some ((if c = CHR ''-'' then - 1 else 1) * (int a * 60 + int b))) else None
     | _ \<Rightarrow> None)"

text \<open>
  \<open>datetime.fromisoformat\<close> on a \<open>YYYY-MM-DD\<close> date, any separator and an extended
  time; \<open>None\<close> is its ValueError.  The basic and the ISO week forms, and offsets
  with seconds, which the program never writes, are not followed.
\<close>

definition datetime_from_iso :: "string \<Rightarrow> datetime option" where
  "datetime_from_iso s = (case (if length s < 10 then None else date_from_iso (take 10 s)) of
     None \<Rightarrow> None
   | Some d \<Rightarrow>
     if length s \<le> 11 then Some \<lparr> dt_date = d, dt_hour = 0, dt_minute = 0, dt_second = 0,
       dt_micro = 0, dt_offset = None \<rparr>
     else let t = drop 11 s in
       (case (clock_of (takeWhile (Not \<circ> is_zone_char) t),
              zone_of (dropWhile (Not \<circ> is_zone_char) t)) of
          (Some (a, b, c, f), Some z) \<Rightarrow>
            if a < 24 \<and> b < 60 \<and> c < 60
            then Some \<lparr> dt_date = d, dt_hour = a, dt_minute = b, dt_second = c, dt_micro = f,
              dt_offset = z \<rparr>
            else None
        | _ \<Rightarrow> None))"

lemma digit_char_neq [simp]:
  "n < 10 \<Longrightarrow> digit_char n \<noteq> CHR '':''"
  "n < 10 \<Longrightarrow> digit_char n \<noteq> CHR ''.''"
  "n < 10 \<Longrightarrow> \<not> is_zone_char (digit_char n)"
  by (auto simp: is_zone_char_def dest: is_digit_digit_char simp: is_digit_def code_def
      dest!: arg_cong [of _ _ code] simp del: code_inj)

lemma two_digits_pad2 [simp]: "n < 100 \<Longrightarrow> two_digits (pad2 n) = Some n"
  using dec_val_digits(1) [of n] by (simp add: pad2_def)

lemma pad2_length [simp]: "length (pad2 n) = 2"
  by (simp add: pad2_def)

lemma date_iso_length [simp]: "length (date_iso d) = 10"
  by (simp add: date_iso_def pad2_def pad4_def)

lemma dec_val_pad6: "n < 1000000 \<Longrightarrow> dec_val (pad6 n) = n"
proof -
  assume n: "n < 1000000"
  have two: "foldl (\<lambda>n c. 10 * n + digit_val c) k (pad2 m) = 100 * k + m" if "m < 100" for k m
    using that by (simp add: pad2_def digit_val_def)
  have "10000 * (n div 10000) + 100 * (n div 100 mod 100) + n mod 100 = n"
  proof -
    have "n div 100 = 100 * (n div 10000) + n div 100 mod 100"
      using div_mult_mod_eq [of "n div 100" 100] by (simp add: div_mult2_eq [symmetric])
    then show ?thesis using div_mult_mod_eq [of n 100] by linarith
  qed
  then show ?thesis using n by (simp add: dec_val_def pad6_def two)
qed

lemma digits_pad6: "list_all is_digit (pad6 n)" "pad6 n \<noteq> []" "length (pad6 n) = 6"
  by (simp_all add: pad6_def pad2_def)

lemma fraction_pad6: "n < 1000000 \<Longrightarrow> fraction (pad6 n) = Some n"
  by (simp add: fraction_def digits_pad6 dec_val_pad6)

lemma split_on_plain: "c \<notin> set s \<Longrightarrow> split_on c s = [s]"
  by (induction s) auto

lemma split_on_step: "c \<notin> set s \<Longrightarrow> split_on c (s @ c # t) = s # split_on c t"
  by (induction s) auto

lemma pad2_plain: "CHR '':'' \<notin> set (pad2 n)" "\<forall>c\<in>set (pad2 n). \<not> is_zone_char c"
  by (simp_all add: pad2_def digit_char_neq(1) [symmetric])

lemma pad6_plain: "CHR '':'' \<notin> set (pad6 n)" "\<forall>c\<in>set (pad6 n). \<not> is_zone_char c"
  using pad2_plain by (auto simp: pad6_def)

definition clock_iso :: "datetime \<Rightarrow> string" where
  "clock_iso t = pad2 (dt_hour t) @ '':'' @ pad2 (dt_minute t) @ '':'' @ pad2 (dt_second t)
     @ (if dt_micro t = 0 then [] else CHR ''.'' # pad6 (dt_micro t))"

lemma seconds_of_iso:
  assumes "valid_datetime t"
  shows "seconds_of (pad2 (dt_second t)
    @ (if dt_micro t = 0 then [] else CHR ''.'' # pad6 (dt_micro t))) = Some (dt_second t, dt_micro t)"
proof -
  have "two_digits (pad2 (dt_second t)) = Some (dt_second t)"
    "fraction (pad6 (dt_micro t)) = Some (dt_micro t)"
    using assms by (auto simp: valid_datetime_def intro: fraction_pad6)
  then show ?thesis by (simp add: seconds_of_def)
qed

lemma clock_of_iso:
  assumes "valid_datetime t"
  shows "clock_of (clock_iso t) = Some (dt_hour t, dt_minute t, dt_second t, dt_micro t)"
proof -
  let ?r = "pad2 (dt_second t) @ (if dt_micro t = 0 then [] else CHR ''.'' # pad6 (dt_micro t))"
  have "CHR '':'' \<notin> set ?r" by (simp add: pad2_plain(1) pad6_plain(1))
  then have "split_on (CHR '':'') (clock_iso t) = [pad2 (dt_hour t), pad2 (dt_minute t), ?r]"
    by (simp add: clock_iso_def split_on_step pad2_plain split_on_plain)
  moreover have "seconds_of ?r = Some (dt_second t, dt_micro t)"
    using assms by (rule seconds_of_iso)
  moreover have "two_digits (pad2 (dt_hour t)) = Some (dt_hour t)"
    "two_digits (pad2 (dt_minute t)) = Some (dt_minute t)"
    using assms by (auto simp: valid_datetime_def)
  ultimately show ?thesis by (simp only: clock_of_def list.case option.case prod.case)
qed

lemma zone_char_punct [simp]:
  "\<not> is_zone_char (CHR '':'')" "\<not> is_zone_char (CHR ''.'')"
  by (simp_all add: is_zone_char_def)

lemma clock_iso_no_zone: "\<forall>c\<in>set (clock_iso t). \<not> is_zone_char c"
  by (simp add: clock_iso_def ball_Un pad2_plain(2) pad6_plain(2))

lemma zone_of_iso:
  assumes "- 1440 < n" "n < 1440"
  shows "zone_of (offset_iso n) = Some (Some n)"
proof -
  let ?a = "nat \<bar>n\<bar> div 60" and ?b = "nat \<bar>n\<bar> mod 60"
  have lt: "?a < 24" "?b < 60" using assms by auto
  have "split_on (CHR '':'') (pad2 ?a @ CHR '':'' # pad2 ?b) = [pad2 ?a, pad2 ?b]"
    by (simp add: split_on_step pad2_plain split_on_plain)
  then have "clock_of (pad2 ?a @ CHR '':'' # pad2 ?b) = Some (?a, ?b, 0, 0)"
    using lt by (simp add: clock_of_def)
  moreover have "int ?a * 60 + int ?b = \<bar>n\<bar>"
    using div_mult_mod_eq [of "nat \<bar>n\<bar>" 60] by linarith
  ultimately show ?thesis using lt by (auto simp: offset_iso_def)
qed

text \<open>What \<open>isoformat\<close> prints, \<open>fromisoformat\<close> reads back.\<close>

lemma datetime_iso_roundtrip:
  assumes "valid_datetime t"
  shows "datetime_from_iso (datetime_iso t) = Some t"
proof -
  define z where "z = (case dt_offset t of None \<Rightarrow> [] | Some n \<Rightarrow> offset_iso n)"
  have iso: "datetime_iso t = date_iso (dt_date t) @ CHR ''T'' # clock_iso t @ z"
    by (simp add: datetime_iso_def clock_iso_def z_def)
  have long: "clock_iso t \<noteq> []" by (simp add: clock_iso_def pad2_def)
  have head: "z = [] \<or> is_zone_char (hd z) \<and> z \<noteq> []"
    by (auto simp: z_def offset_iso_def is_zone_char_def split: option.splits)
  have "takeWhile (Not \<circ> is_zone_char) (clock_iso t @ z) = clock_iso t"
    "dropWhile (Not \<circ> is_zone_char) (clock_iso t @ z) = z"
    using head clock_iso_no_zone [of t]
    by (cases z; auto simp: takeWhile_append dropWhile_append)+
  moreover have "zone_of z = Some (dt_offset t)"
    using assms zone_of_iso by (auto simp: z_def valid_datetime_def split: option.splits)
  moreover have "date_from_iso (take 10 (datetime_iso t)) = Some (dt_date t)"
    using date_iso_roundtrip assms by (simp add: iso valid_datetime_def)
  ultimately show ?thesis
    using assms long clock_of_iso [OF assms]
    by (simp add: datetime_from_iso_def iso valid_datetime_def Let_def)
qed

end
