(* ===== verification/Posix_Path.thy ===== *)
theory Posix_Path
  imports Py_Prelude
begin

text \<open>
  What the sources use of Python's \<^verbatim>\<open>posixpath\<close>: joining, normalising and
  comparing paths as text.  \<open>os.path.realpath\<close> and \<open>expanduser\<close> look at the
  host and are parameters where they are used.
\<close>

definition slash :: char where "slash = CHR 0x2F"

definition dot :: string where "dot = [CHR 0x2E]"
definition dotdot :: string where "dotdot = [CHR 0x2E, CHR 0x2E]"

definition isabs :: "string \<Rightarrow> bool" where
  "isabs p \<longleftrightarrow> starts_with [slash] p"

definition path_join :: "string \<Rightarrow> string \<Rightarrow> string" where
  "path_join a b = (if isabs b then b
     else if a = [] \<or> last a = slash then a @ b else a @ [slash] @ b)"

text \<open>\<open>normpath\<close>: one component at a time, the result reversed.\<close>

definition norm_step :: "bool \<Rightarrow> string list \<Rightarrow> string \<Rightarrow> string list" where
  "norm_step rooted acc part =
     (if part = [] \<or> part = dot then acc
      else if part \<noteq> dotdot \<or> (\<not> rooted \<and> acc = []) \<or> (acc \<noteq> [] \<and> hd acc = dotdot) then part # acc
      else tl acc)"

definition norm_comps :: "bool \<Rightarrow> string list \<Rightarrow> string list" where
  "norm_comps rooted comps = rev (foldl (norm_step rooted) [] comps)"

text \<open>Exactly two leading slashes are kept.\<close>

definition leading_slashes :: "string \<Rightarrow> string" where
  "leading_slashes p = (if \<not> isabs p then []
     else if starts_with [slash, slash] p \<and> \<not> starts_with [slash, slash, slash] p then [slash, slash]
     else [slash])"

definition normpath :: "string \<Rightarrow> string" where
  "normpath p = (if p = [] then dot
     else let q = leading_slashes p @ join [slash] (norm_comps (isabs p) (split_on slash p))
     in if q = [] then dot else q)"

text \<open>The components of an absolute path.\<close>

definition comps :: "string \<Rightarrow> string list" where
  "comps p = filter (\<lambda>x. x \<noteq> []) (split_on slash p)"

fun drop_common :: "'a list \<Rightarrow> 'a list \<Rightarrow> 'a list \<times> 'a list" where
  "drop_common (x # xs) (y # ys) = (if x = y then drop_common xs ys else (x # xs, y # ys))"
| "drop_common xs ys = (xs, ys)"

text \<open>\<open>relpath\<close> of two absolute paths.\<close>

definition relpath :: "string \<Rightarrow> string \<Rightarrow> string" where
  "relpath path start = (case drop_common (comps (normpath start)) (comps (normpath path)) of
     (up, down) \<Rightarrow> (case map (\<lambda>_. dotdot) up @ down of [] \<Rightarrow> dot | rel \<Rightarrow> join [slash] rel))"

section \<open>Components\<close>

text \<open>A component: not empty and without a slash.\<close>

definition component :: "string \<Rightarrow> bool" where
  "component c \<longleftrightarrow> c \<noteq> [] \<and> slash \<notin> set c"

definition plain_component :: "string \<Rightarrow> bool" where
  "plain_component c \<longleftrightarrow> component c \<and> c \<noteq> dot \<and> c \<noteq> dotdot"

lemma split_on_nonempty [simp]: "split_on sep s \<noteq> []"
  by (induction s) (auto split: list.splits)

lemma split_on_free: "w \<in> set (split_on sep s) \<Longrightarrow> sep \<notin> set w"
proof (induction s arbitrary: w)
  case Nil
  then show ?case by simp
next
  case (Cons c cs)
  obtain v vs where v: "split_on sep cs = v # vs" by (cases "split_on sep cs") auto
  show ?case using Cons v by (auto split: if_splits)
qed

lemma split_on_no_sep: "sep \<notin> set s \<Longrightarrow> split_on sep s = [s]"
  by (induction s) auto

lemma split_on_append:
  "sep \<notin> set w \<Longrightarrow> split_on sep (w @ sep # s) = w # split_on sep s"
  by (induction w) auto

lemma split_on_join:
  "xs \<noteq> [] \<Longrightarrow> \<forall>x\<in>set xs. sep \<notin> set x \<Longrightarrow> split_on sep (join [sep] xs) = xs"
proof (induction "[sep]" xs rule: join.induct)
  case (3 x y xs)
  then show ?case by (simp add: split_on_append)
qed (simp_all add: split_on_no_sep)

lemma comps_join: "\<forall>x\<in>set xs. component x \<Longrightarrow> comps (slash # join [slash] xs) = xs"
proof (cases "xs = []")
  case False
  assume c: "\<forall>x\<in>set xs. component x"
  then have "split_on slash (join [slash] xs) = xs"
    using split_on_join [OF False] by (auto simp: component_def)
  then show ?thesis using c by (simp add: comps_def component_def filter_id_conv)
qed (simp add: comps_def)

lemma comps_components: "\<forall>x\<in>set (comps p). component x"
  by (auto simp: comps_def component_def dest: split_on_free)

lemma norm_step_plain:
  assumes "\<forall>x\<in>set acc. plain_component x" "slash \<notin> set c"
  shows "\<forall>x\<in>set (norm_step True acc c). plain_component x"
proof (cases acc)
  case Nil
  then show ?thesis using assms by (auto simp: norm_step_def plain_component_def component_def)
next
  case (Cons a as)
  then show ?thesis using assms by (auto simp: norm_step_def plain_component_def component_def)
qed

lemma norm_comps_plain:
  assumes "\<forall>c\<in>set cs. slash \<notin> set c"
  shows "\<forall>x\<in>set (norm_comps True cs). plain_component x"
proof -
  have "\<forall>x\<in>set (foldl (norm_step True) acc cs). plain_component x"
    if "\<forall>x\<in>set acc. plain_component x" for acc
    using assms that
  proof (induction cs arbitrary: acc)
    case (Cons c cs)
    have "\<forall>x\<in>set (norm_step True acc c). plain_component x"
      by (rule norm_step_plain [OF Cons.prems(2)]) (use Cons.prems(1) in simp)
    with Cons show ?case by simp
  qed simp
  from this [of "[]"] show ?thesis by (simp add: norm_comps_def)
qed

lemma norm_comps_id: "\<forall>c\<in>set cs. plain_component c \<Longrightarrow> norm_comps r cs = cs"
proof -
  have "foldl (norm_step r) acc cs = rev cs @ acc" if "\<forall>c\<in>set cs. plain_component c" for acc
    using that
  proof (induction cs arbitrary: acc)
    case (Cons c cs)
    have "norm_step r acc c = c # acc"
      using Cons.prems by (simp add: norm_step_def plain_component_def component_def)
    with Cons show ?case by simp
  qed simp
  then show ?thesis if "\<forall>c\<in>set cs. plain_component c" using that by (simp add: norm_comps_def)
qed

lemma norm_comps_skips: "norm_comps r (filter (\<lambda>x. x \<noteq> []) cs) = norm_comps r cs"
proof -
  have "foldl (norm_step r) acc (filter (\<lambda>x. x \<noteq> []) cs) = foldl (norm_step r) acc cs" for acc
    by (induction cs arbitrary: acc) (auto simp: norm_step_def)
  then show ?thesis by (simp add: norm_comps_def)
qed

text \<open>
  An absolute path with one leading slash normalises to one whose components are
  all plain, and normalising that changes nothing.
\<close>

lemma normpath_abs:
  assumes "leading_slashes p = [slash]"
  shows "normpath p = slash # join [slash] (norm_comps True (comps p))"
    and "\<forall>x\<in>set (norm_comps True (comps p)). plain_component x"
proof -
  have abs: "isabs p" "p \<noteq> []" using assms by (auto simp: leading_slashes_def isabs_def split: if_splits)
  show "normpath p = slash # join [slash] (norm_comps True (comps p))"
    using assms abs by (simp add: normpath_def comps_def norm_comps_skips Let_def)
  show "\<forall>x\<in>set (norm_comps True (comps p)). plain_component x"
    by (rule norm_comps_plain) (use comps_components in \<open>simp add: component_def\<close>)
qed

lemma plain_comps_join: "\<forall>x\<in>set xs. plain_component x \<Longrightarrow> comps (slash # join [slash] xs) = xs"
  by (rule comps_join) (auto simp: plain_component_def)

lemma leading_slash_join:
  assumes "\<forall>x\<in>set xs. component x"
  shows "leading_slashes (slash # join [slash] xs) = [slash]"
proof (cases xs)
  case (Cons x ys)
  then obtain c cs where "x = c # cs" "c \<noteq> slash" using assms by (cases x) (auto simp: component_def)
  then show ?thesis using Cons by (cases ys) (auto simp: leading_slashes_def isabs_def)
qed (simp add: leading_slashes_def isabs_def)

theorem normpath_idempotent:
  assumes "leading_slashes p = [slash]"
  shows "normpath (normpath p) = normpath p"
proof -
  let ?n = "norm_comps True (comps p)"
  have plain: "\<forall>x\<in>set ?n. plain_component x" by (rule normpath_abs(2) [OF assms])
  then have one: "leading_slashes (normpath p) = [slash]"
    using leading_slash_join [of ?n] by (auto simp: normpath_abs(1) [OF assms] plain_component_def)
  have "comps (normpath p) = ?n" using plain_comps_join [OF plain] by (simp add: normpath_abs(1) [OF assms])
  then show ?thesis
    using normpath_abs(1) [OF one] normpath_abs(1) [OF assms] norm_comps_id [OF plain] by simp
qed

end
