(* ===== verification/Writable.thy ===== *)
theory Writable
  imports Posix_Path
begin

text \<open>
  \<^verbatim>\<open>src/boxmunge/writable.py\<close>: the schema of a service's \<open>writable:\<close> block, the
  state a service is in, and what the security command shows of it.  An error
  names what it is about instead of holding the text of the message.
\<close>

section \<open>The state of a service\<close>

datatype writable_state = Default | Managed | External

fun state_value :: "writable_state \<Rightarrow> string" where
  "state_value Default = ''default''"
| "state_value Managed = ''manifest-managed''"
| "state_value External = ''externally-managed''"

definition classify_state :: "pyval \<Rightarrow> writable_state" where
  "classify_state svc = (case svc of
     PDict s \<Rightarrow>
       (case dget_or s ''writable'' PNone of
          PDict block \<Rightarrow>
            (if dget_or block ''external'' PNone = PBool True then External
             else if py_truthy (dget_or block ''ephemeral'' PNone) \<or> py_truthy (dget_or block ''persistent'' PNone)
               then Managed
             else Default)
        | _ \<Rightarrow> Default)
   | _ \<Rightarrow> Default)"

text \<open>\<open>len(v or [])\<close>: a number has no length.\<close>

fun py_len :: "pyval \<Rightarrow> py_exc + nat" where
  "py_len (PList xs) = Inr (length xs)"
| "py_len (PDict d) = Inr (length d)"
| "py_len (PStr s) = Inr (length s)"
| "py_len _ = Inl TypeError"

definition len_or_none :: "pyval \<Rightarrow> py_exc + nat" where
  "len_or_none v = py_len (py_or v (PList []))"

text \<open>The block of a service, as the two views read it.\<close>

definition writable_block :: "pyval \<Rightarrow> pydict" where
  "writable_block svc = (case svc of
     PDict s \<Rightarrow> (case dget_or s ''writable'' PNone of PDict b \<Rightarrow> b | _ \<Rightarrow> [])
   | _ \<Rightarrow> [])"

definition describe_managed :: "nat \<Rightarrow> nat \<Rightarrow> string" where
  "describe_managed e p =
     (let parts = (if e \<noteq> 0 then [show_nat e @ '' ephemeral''] else [])
        @ (if p \<noteq> 0 then [show_nat p @ '' persistent''] else [])
      in ''manifest-managed ('' @ (if parts = [] then ''no entries'' else join '', '' parts) @ '')'')"

definition describe_state :: "pyval \<Rightarrow> py_exc + writable_state \<times> string" where
  "describe_state svc = (case classify_state svc of
     Default \<Rightarrow> Inr (Default, ''default (read-only rootfs, /tmp tmpfs)'')
   | External \<Rightarrow> Inr (External, ''externally-managed (operator owns)'')
   | Managed \<Rightarrow>
       rbind (len_or_none (dget_or (writable_block svc) ''ephemeral'' PNone)) (\<lambda>e.
       rbind (len_or_none (dget_or (writable_block svc) ''persistent'' PNone)) (\<lambda>p.
       Inr (Managed, describe_managed e p))))"

definition persistent_view :: "pyval list \<Rightarrow> pyval list" where
  "persistent_view per = concat (map (\<lambda>e. case e of
       PDict d \<Rightarrow> [PDict [(PStr ''name'', dget_or d ''name'' PNone), (PStr ''mount'', dget_or d ''mount'' PNone)]]
     | _ \<Rightarrow> []) per)"

definition writable_json :: "pyval \<Rightarrow> pydict" where
  "writable_json svc = (let state = classify_state svc; block = writable_block svc in
     [(PStr ''state'', PStr (state_value state))] @
     (if state = External then [(PStr ''external'', PBool True)]
      else (case dget_or block ''ephemeral'' PNone of
              PList eph \<Rightarrow> (if eph = [] then [] else [(PStr ''ephemeral'', PList eph)])
            | _ \<Rightarrow> [])
        @ (case dget_or block ''persistent'' PNone of
              PList per \<Rightarrow> (if per = [] then [] else [(PStr ''persistent'', PList (persistent_view per))])
            | _ \<Rightarrow> [])))"

section \<open>Container paths\<close>

definition reserved_roots :: "string list" where
  "reserved_roots = [''/'', ''/etc'', ''/usr'', ''/bin'', ''/sbin'', ''/lib'', ''/lib64'',
     ''/boot'', ''/proc'', ''/sys'', ''/dev'']"

definition ephemeral_only_paths :: "string list" where
  "ephemeral_only_paths = [''/tmp'', ''/var/run'', ''/run'']"

definition max_path_len :: nat where "max_path_len = 256"

text \<open>\<open>_FORBIDDEN_PATH_CHARS\<close>: control characters, a colon and a comma.\<close>

definition forbidden_path_char :: "char \<Rightarrow> bool" where
  "forbidden_path_char c \<longleftrightarrow> code c \<le> 31 \<or> code c = 127 \<or> c = CHR '':'' \<or> c = CHR '',''"

datatype path_problem =
    Path_Not_String
  | Path_Not_Absolute string
  | Path_Too_Long string
  | Path_Forbidden string char
  | Path_Not_Canonical string string

definition canonical_path :: "string \<Rightarrow> string" where
  "canonical_path p = slash # dropWhile (\<lambda>c. c = slash) (normpath p)"

definition validate_path :: "pyval \<Rightarrow> path_problem + string" where
  "validate_path v = (case v of
     PStr p \<Rightarrow>
       (if \<not> isabs p then Inl (Path_Not_Absolute p)
        else if max_path_len < length p then Inl (Path_Too_Long p)
        else (case find forbidden_path_char p of
           Some c \<Rightarrow> Inl (Path_Forbidden p c)
         | None \<Rightarrow>
             (if p \<noteq> canonical_path p then Inl (Path_Not_Canonical p (canonical_path p)) else Inr p)))
   | _ \<Rightarrow> Inl Path_Not_String)"

section \<open>The schema of a block\<close>

datatype writable_error =
    Writable_Not_Mapping
  | Writable_Unknown_Keys "pyval list"
  | External_Not_Bool pyval
  | External_False
  | External_Exclusive
  | Ephemeral_Not_List
  | Ephemeral_Path nat path_problem
  | Ephemeral_Twice string
  | Persistent_Not_List
  | Entry_Not_Mapping nat
  | Entry_No_Name nat
  | Entry_No_Mount nat
  | Entry_Bad_Name nat pyval
  | Entry_Path nat path_problem
  | Entry_Reserved nat string
  | Entry_Ephemeral_Only nat string
  | Entry_Unknown_Keys nat "pyval list"
  | Name_Twice string
  | Mount_Twice string
  | Declared_Both string
  | Nested_Mount string string string

type_synonym 'a writable_result = "writable_error raised + 'a"

text \<open>
  A name of lower-case letters, digits and hyphens: a letter or digit first and
  at most \<open>n\<close> characters after it, the whole string (\<open>fullmatch\<close>); and the same
  pattern closed with \<open>$\<close> under \<open>match\<close>, which lets a newline follow it.
\<close>

definition lower_name :: "nat \<Rightarrow> string \<Rightarrow> bool" where
  "lower_name n s \<longleftrightarrow> s \<noteq> [] \<and> is_lower_alnum (hd s)
     \<and> list_all (\<lambda>c. is_lower_alnum c \<or> c = CHR ''-'') (tl s) \<and> length (tl s) \<le> n"

definition lower_name_line :: "nat \<Rightarrow> string \<Rightarrow> bool" where
  "lower_name_line n s \<longleftrightarrow> lower_name n s \<or> (s \<noteq> [] \<and> last s = CHR 0x0A \<and> lower_name n (butlast s))"

definition as_raised :: "('p \<Rightarrow> 'e) \<Rightarrow> 'p + 'a \<Rightarrow> 'e raised + 'a" where
  "as_raised f r = (case r of Inl p \<Rightarrow> Inl (Raised (f p)) | Inr x \<Rightarrow> Inr x)"

definition validate_ephemeral :: "pyval \<Rightarrow> string list writable_result" where
  "validate_ephemeral v = (case v of
     PList entries \<Rightarrow>
       rfold (\<lambda>out (i, entry).
         rbind (as_raised (Ephemeral_Path i) (validate_path entry)) (\<lambda>p.
         if p \<in> set out then Inl (Raised (Ephemeral_Twice p)) else Inr (out @ [p])))
         [] (enumerate 0 entries)
   | _ \<Rightarrow> Inl (Raised Ephemeral_Not_List))"

definition validate_persistent_entry :: "nat \<Rightarrow> pyval \<Rightarrow> (string \<times> string) writable_result" where
  "validate_persistent_entry i v = (case v of
     PDict d \<Rightarrow>
       (case (dget d ''name'', dget d ''mount'') of
          (None, _) \<Rightarrow> Inl (Raised (Entry_No_Name i))
        | (Some _, None) \<Rightarrow> Inl (Raised (Entry_No_Mount i))
        | (Some name, Some m) \<Rightarrow>
            (case name of
               PStr n \<Rightarrow>
                 (if \<not> lower_name_line 30 n then Inl (Raised (Entry_Bad_Name i name))
                  else rbind (as_raised (Entry_Path i) (validate_path m)) (\<lambda>mount.
                    if mount \<in> set reserved_roots then Inl (Raised (Entry_Reserved i mount))
                    else if mount \<in> set ephemeral_only_paths then Inl (Raised (Entry_Ephemeral_Only i mount))
                    else let unknown = unknown_keys d [''name'', ''mount''] in
                      if unknown = [] then Inr (n, mount)
                      else if py_sortable unknown then Inl (Raised (Entry_Unknown_Keys i unknown))
                      else Inl (Crash TypeError)))
             | _ \<Rightarrow> Inl (Raised (Entry_Bad_Name i name))))
   | _ \<Rightarrow> Inl (Raised (Entry_Not_Mapping i)))"

definition validate_persistent :: "pyval \<Rightarrow> (string \<times> string) list writable_result" where
  "validate_persistent v = (case v of
     PList entries \<Rightarrow>
       rfold (\<lambda>out (i, entry).
         rbind (validate_persistent_entry i entry) (\<lambda>(n, m).
         if n \<in> set (map fst out) then Inl (Raised (Name_Twice n))
         else if m \<in> set (map snd out) then Inl (Raised (Mount_Twice m))
         else Inr (out @ [(n, m)])))
         [] (enumerate 0 entries)
   | _ \<Rightarrow> Inl (Raised Persistent_Not_List))"

definition nested_under :: "string \<Rightarrow> string \<Rightarrow> bool" where
  "nested_under mount eph \<longleftrightarrow> mount \<noteq> eph
     \<and> starts_with (if ends_with [slash] eph then eph else eph @ [slash]) mount"

definition check_nesting :: "string list \<Rightarrow> (string \<times> string) list \<Rightarrow> unit writable_result" where
  "check_nesting eph per =
     (case find (\<lambda>((n, m), e). nested_under m e) (List.product per eph) of
        None \<Rightarrow> Inr ()
      | Some ((n, m), e) \<Rightarrow> Inl (Raised (Nested_Mount n m e)))"

definition check_disjoint :: "string list \<Rightarrow> (string \<times> string) list \<Rightarrow> unit writable_result" where
  "check_disjoint eph per =
     (case find (\<lambda>e. e \<in> set (map snd per)) eph of
        None \<Rightarrow> Inr ()
      | Some e \<Rightarrow> Inl (Raised (Declared_Both e)))"

definition validate_writable_block :: "pyval \<Rightarrow> unit writable_result" where
  "validate_writable_block v = (case v of
     PNone \<Rightarrow> Inr ()
   | PDict block \<Rightarrow>
       (let unknown = unknown_keys block [''ephemeral'', ''persistent'', ''external''] in
        if unknown \<noteq> [] then (if py_sortable unknown then Inl (Raised (Writable_Unknown_Keys unknown)) else Inl (Crash TypeError))
        else (case dget block ''external'' of
          Some external \<Rightarrow>
            (if \<not> is_pbool external then Inl (Raised (External_Not_Bool external))
             else if external = PBool False then Inl (Raised External_False)
             else if dhas block ''ephemeral'' \<or> dhas block ''persistent'' then Inl (Raised External_Exclusive)
             else Inr ())
        | None \<Rightarrow>
            rbind (case dget block ''ephemeral'' of None \<Rightarrow> Inr [] | Some e \<Rightarrow> validate_ephemeral e) (\<lambda>eph.
            rbind (case dget block ''persistent'' of None \<Rightarrow> Inr [] | Some p \<Rightarrow> validate_persistent p) (\<lambda>per.
            rbind (check_disjoint eph per) (\<lambda>_. check_nesting eph per)))))
   | _ \<Rightarrow> Inl (Raised Writable_Not_Mapping))"

section \<open>What an accepted block holds\<close>

text \<open>A canonical path is its components joined, and each of them is plain.\<close>

lemma canonical_path_comps:
  assumes "isabs p"
  shows "canonical_path p = slash # join [slash] (norm_comps True (comps p))"
    and "\<forall>c\<in>set (norm_comps True (comps p)). plain_component c"
proof -
  let ?n = "norm_comps True (comps p)"
  show plain: "\<forall>c\<in>set ?n. plain_component c"
    by (rule norm_comps_plain) (use comps_components in \<open>simp add: component_def\<close>)
  have "p \<noteq> []" "leading_slashes p \<in> {[slash], [slash, slash]}"
    using assms by (auto simp: isabs_def leading_slashes_def)
  then have "normpath p \<in> {slash # join [slash] ?n, slash # slash # join [slash] ?n}"
    using assms by (auto simp: normpath_def comps_def norm_comps_skips Let_def)
  moreover have "dropWhile (\<lambda>c. c = slash) (join [slash] ?n) = join [slash] ?n"
  proof (cases ?n)
    case (Cons c cs)
    then obtain x xs where "c = x # xs" "x \<noteq> slash"
      using plain by (cases c) (auto simp: plain_component_def component_def)
    then show ?thesis using Cons by (cases cs) auto
  qed simp
  ultimately show "canonical_path p = slash # join [slash] ?n" by (auto simp: canonical_path_def)
qed

definition canonical :: "string \<Rightarrow> bool" where
  "canonical p \<longleftrightarrow> p = slash # join [slash] (comps p) \<and> list_all plain_component (comps p)
     \<and> \<not> list_ex forbidden_path_char p \<and> length p \<le> max_path_len"

lemma validate_path_ok:
  assumes "validate_path v = Inr p"
  shows "v = PStr p \<and> canonical p"
proof -
  have v: "v = PStr p" and p: "isabs p" "length p \<le> max_path_len" "find forbidden_path_char p = None" "p = canonical_path p"
    using assms by (auto simp: validate_path_def split: pyval.splits if_splits option.splits)
  let ?n = "norm_comps True (comps p)"
  have n: "canonical_path p = slash # join [slash] ?n" "\<forall>c\<in>set ?n. plain_component c"
    using canonical_path_comps [OF p(1)] by auto
  then have "comps p = ?n" using plain_comps_join [OF n(2)] p(4) by metis
  then have "p = slash # join [slash] (comps p)" "list_all plain_component (comps p)"
    using n p(4) by (auto simp: list_all_iff)
  then show ?thesis using v p(2,3) by (auto simp: canonical_def find_None_iff list_ex_iff)
qed

lemma join_append: "xs \<noteq> [] \<Longrightarrow> ys \<noteq> [] \<Longrightarrow> join sep (xs @ ys) = join sep xs @ sep @ join sep ys"
proof (induction sep xs rule: join.induct)
  case (2 sep x)
  then show ?case by (cases ys) auto
qed simp_all

lemma split_on_sep_append: "split_on sep (a @ sep # b) = split_on sep a @ split_on sep b"
  by (induction a) (auto split: list.splits)

lemma comps_slash: "comps (a @ slash # b) = comps a @ comps b"
  by (simp add: comps_def split_on_sep_append)

text \<open>The text test of nesting is containment of directories.\<close>

lemma nested_under_iff:
  assumes "canonical m" "canonical e" "m \<noteq> e"
  shows "nested_under m e \<longleftrightarrow> (\<exists>r. comps m = comps e @ r)"
proof
  assume "nested_under m e"
  then obtain t where "m = (if ends_with [slash] e then e else e @ [slash]) @ t"
    by (auto simp: nested_under_def starts_with_iff split: if_splits)
  moreover have "\<exists>d. e = d @ [slash]" if "ends_with [slash] e"
    using that by (metis ends_with_def rev.simps(2) rev_append rev_rev_ident self_append_conv2 rev.simps(1) starts_with_iff)
  ultimately obtain d where "m = d @ slash # t" "comps d = comps e"
    using comps_slash [of _ "[]"] by (auto simp: comps_def split: if_splits)
  then show "\<exists>r. comps m = comps e @ r" by (simp add: comps_slash)
next
  assume "\<exists>r. comps m = comps e @ r"
  then obtain r where r: "comps m = comps e @ r" by blast
  have j: "m = slash # join [slash] (comps m)" "e = slash # join [slash] (comps e)"
    using assms by (simp_all add: canonical_def)
  then have "r \<noteq> []" using r assms(3) by auto
  then have "m = e @ slash # join [slash] r" if "comps e \<noteq> []"
    using j r join_append [OF that, of r "[slash]"] by (metis append_Cons append_Nil)
  moreover have "starts_with e m" if "comps e = []"
    using j that by (metis append_Cons append_Nil join.simps(1) starts_with_iff)
  ultimately have "starts_with e m \<and> (comps e \<noteq> [] \<longrightarrow> starts_with (e @ [slash]) m)"
    by (cases "comps e = []") (auto simp: starts_with_iff)
  moreover have "ends_with [slash] e" if "comps e = []"
    using j(2) that by (simp add: ends_with_def)
  ultimately show "nested_under m e" using assms(3) by (auto simp: nested_under_def)
qed

lemma rfold_snoc:
  assumes "rfold g out (enumerate n xs) = Inr res"
    and "\<And>i x out out'. g out (i, x) = Inr out' \<Longrightarrow> \<exists>y. out' = out @ [y] \<and> R x y \<and> (Q out \<longrightarrow> Q out')"
  shows "\<exists>ys. res = out @ ys \<and> list_all2 R xs ys \<and> (Q out \<longrightarrow> Q res)"
  using assms(1)
proof (induction xs arbitrary: n out)
  case (Cons x xs)
  then obtain out' where o: "g out (n, x) = Inr out'" and r: "rfold g out' (enumerate (Suc n) xs) = Inr res"
    by (auto simp: rbind_eq_Inr)
  from assms(2) [OF o] obtain y where y: "out' = out @ [y]" "R x y" "Q out \<longrightarrow> Q out'" by blast
  from Cons.IH [OF r] obtain ys where "res = out' @ ys" "list_all2 R xs ys" "Q out' \<longrightarrow> Q res" by blast
  then show ?case using y by (intro exI [of _ "y # ys"]) auto
qed simp

lemma as_raised_Inr [simp]: "as_raised f r = Inr x \<longleftrightarrow> r = Inr x"
  by (simp add: as_raised_def split: sum.splits)

lemma validate_ephemeral_ok:
  assumes "validate_ephemeral v = Inr eph"
  shows "v = PList (map PStr eph) \<and> list_all canonical eph \<and> distinct eph"
proof -
  obtain es where v: "v = PList es" using assms by (auto simp: validate_ephemeral_def split: pyval.splits)
  have "\<exists>ys. eph = [] @ ys \<and> list_all2 (\<lambda>x y. x = PStr y \<and> canonical y) es ys \<and> (distinct ([] :: string list) \<longrightarrow> distinct eph)"
    by (rule rfold_snoc [OF assms [unfolded validate_ephemeral_def v pyval.case]])
      (auto simp: rbind_eq_Inr dest!: validate_path_ok split: if_splits)
  then have "list_all2 (\<lambda>x y. x = PStr y \<and> canonical y) es eph" "distinct eph" by auto
  moreover have "es = map PStr eph \<and> list_all canonical eph" if "list_all2 (\<lambda>x y. x = PStr y \<and> canonical y) es eph"
    using that by (induction rule: list_all2_induct) auto
  ultimately show ?thesis using v by blast
qed

text \<open>A persistent entry of a volume name and a mount that may hold data.\<close>

definition data_mount :: "string \<times> string \<Rightarrow> bool" where
  "data_mount v = (case v of (n, m) \<Rightarrow> lower_name_line 30 n \<and> canonical m
     \<and> m \<notin> set reserved_roots \<and> m \<notin> set ephemeral_only_paths)"

definition entry_declares :: "pyval \<Rightarrow> string \<times> string \<Rightarrow> bool" where
  "entry_declares v p \<longleftrightarrow> (\<exists>d. v = PDict d \<and> unknown_keys d [''name'', ''mount''] = []
     \<and> dget d ''name'' = Some (PStr (fst p)) \<and> dget d ''mount'' = Some (PStr (snd p)))"

lemma validate_persistent_entry_ok:
  assumes "validate_persistent_entry i v = Inr p"
  shows "entry_declares v p \<and> data_mount p"
proof -
  obtain d where v: "v = PDict d" using assms by (auto simp: validate_persistent_entry_def split: pyval.splits)
  obtain n m where nm: "dget d ''name'' = Some (PStr n)" "dget d ''mount'' = Some m"
    using assms by (auto simp: validate_persistent_entry_def v split: pyval.splits option.splits)
  show ?thesis using assms
    by (auto simp: validate_persistent_entry_def v nm rbind_eq_Inr Let_def entry_declares_def data_mount_def
        dest!: validate_path_ok split: if_splits)
qed

lemma validate_persistent_ok:
  assumes "validate_persistent v = Inr per"
  shows "\<exists>es. v = PList es \<and> list_all2 entry_declares es per \<and> list_all data_mount per
    \<and> distinct (map fst per) \<and> distinct (map snd per)"
proof -
  obtain es where v: "v = PList es" using assms by (auto simp: validate_persistent_def split: pyval.splits)
  let ?Q = "\<lambda>per. distinct (map fst per) \<and> distinct (map snd per)"
  have "\<exists>ys. per = [] @ ys \<and> list_all2 (\<lambda>x p. entry_declares x p \<and> data_mount p) es ys \<and> (?Q ([] :: (string \<times> string) list) \<longrightarrow> ?Q per)"
    by (rule rfold_snoc [where Q = ?Q, OF assms [unfolded validate_persistent_def v pyval.case]])
      (auto simp: rbind_eq_Inr dest!: validate_persistent_entry_ok split: if_splits prod.splits)
  then have "list_all2 (\<lambda>x p. entry_declares x p \<and> data_mount p) es per" "?Q per" by auto
  then show ?thesis using v
    by (auto simp: list_all2_conv_all_nth list_all_length)
qed

text \<open>No persistent mount is, or lies below, a directory a tmpfs covers.\<close>

definition no_shadow :: "string list \<Rightarrow> (string \<times> string) list \<Rightarrow> bool" where
  "no_shadow eph per \<longleftrightarrow> (\<forall>e\<in>set eph. \<forall>(n, m)\<in>set per. \<forall>r. comps m \<noteq> comps e @ r)"

lemma check_nesting_ok:
  assumes "check_nesting eph per = Inr ()" "list_all canonical eph" "list_all data_mount per"
    and "check_disjoint eph per = Inr ()"
  shows "no_shadow eph per"
  unfolding no_shadow_def
proof (intro ballI, clarify)
  fix e n m r assume e: "e \<in> set eph" and m: "(n, m) \<in> set per" and r: "comps m = comps e @ r"
  have "m \<noteq> e" using assms(4) e m by (force simp: check_disjoint_def find_None_iff split: option.splits)
  moreover have "\<not> nested_under m e"
    using assms(1) e m by (auto simp: check_nesting_def find_None_iff split: option.splits)
  ultimately show False
    using nested_under_iff [of m e] assms(2,3) e m r by (auto simp: list_all_iff data_mount_def)
qed

text \<open>C6. An accepted \<open>writable:\<close> block either hands the service's writability to the compose file and says
  nothing else, or declares tmpfs paths and data volumes that are canonical container paths free of the
  characters Compose reads as options, with unique paths, volume names and mounts; no volume sits on a
  system directory or on a tmpfs path, and none is a directory a declared tmpfs would cover.\<close>

theorem writable_accepted:
  assumes "validate_writable_block (PDict block) = Inr ()"
  shows "dget block ''external'' = Some (PBool True) \<and> dget block ''ephemeral'' = None \<and> dget block ''persistent'' = None
    \<or> (\<exists>eph per es. dget_or block ''ephemeral'' (PList []) = PList (map PStr eph)
      \<and> dget_or block ''persistent'' (PList []) = PList es \<and> list_all2 entry_declares es per
      \<and> list_all canonical eph \<and> distinct eph \<and> list_all data_mount per
      \<and> distinct (map fst per) \<and> distinct (map snd per) \<and> no_shadow eph per)"
proof (cases "dget block ''external''")
  case (Some v)
  then show ?thesis using assms
    by (cases v) (auto simp: validate_writable_block_def dhas_def Let_def split: if_splits)
next
  case None
  let ?e = "case dget block ''ephemeral'' of None \<Rightarrow> Inr [] | Some e \<Rightarrow> validate_ephemeral e"
  let ?p = "case dget block ''persistent'' of None \<Rightarrow> Inr [] | Some p \<Rightarrow> validate_persistent p"
  from assms None obtain eph per where e: "?e = Inr eph" and p: "?p = Inr per"
    and both: "check_disjoint eph per = Inr ()" and nest: "check_nesting eph per = Inr ()"
    by (auto simp: validate_writable_block_def Let_def rbind_eq_Inr split: if_split_asm)
  have e': "dget_or block ''ephemeral'' (PList []) = PList (map PStr eph)" "list_all canonical eph" "distinct eph"
    using e validate_ephemeral_ok by (auto simp: dget_or_def split: option.splits)
  moreover have "\<exists>es. dget_or block ''persistent'' (PList []) = PList es \<and> list_all2 entry_declares es per
    \<and> list_all data_mount per \<and> distinct (map fst per) \<and> distinct (map snd per)"
    using p validate_persistent_ok by (auto simp: dget_or_def split: option.splits)
  ultimately show ?thesis using check_nesting_ok [OF nest _ _ both] by blast
qed

definition example_block :: pydict where
  "example_block = [(PStr ''ephemeral'', PList [PStr ''/tmp'', PStr ''/app/cache'']),
     (PStr ''persistent'', PList [PDict [(PStr ''name'', PStr ''data''), (PStr ''mount'', PStr ''/app/cached'')]])]"

theorem writable_accepted_witness:
  "\<exists>eph per. dget_or example_block ''ephemeral'' (PList []) = PList (map PStr eph) \<and> no_shadow eph per \<and> per \<noteq> []"
proof -
  have v: "validate_writable_block (PDict example_block) = Inr ()" by code_simp
  have "dget example_block ''external'' = None" "dget_or example_block ''persistent'' (PList []) \<noteq> PList []" by code_simp+
  then show ?thesis using writable_accepted [OF v] by fastforce
qed

end
