(* ===== verification/Manifest_Fields.thy ===== *)
theory Manifest_Fields
  imports Writable
begin

text \<open>
  \<^verbatim>\<open>src/boxmunge/manifest_fields.py\<close> and \<^verbatim>\<open>backup_command_warnings.py\<close>: the syntax
  rules for the manifest fields that are written into configurations or run, with
  the word splitting of Python's \<^verbatim>\<open>shlex\<close> they use.  A rule returns what is wrong,
  or nothing.
\<close>

section \<open>Splitting a command into words\<close>

text \<open>
  \<open>shlex.split\<close> in its POSIX mode without comment characters: white space ends a
  word, quotes keep what they enclose, a backslash keeps the next character (between
  double quotes only a quote or a backslash).  \<open>None\<close> is its ValueError: a quotation
  or an escape the text does not close.  The second argument is the word so far, the
  third whether a quotation was read in it (an empty quoted word counts as a word).
\<close>

datatype lex_state = Lex_Gap | Lex_Word | Lex_Quote char | Lex_Escape "char option"

definition shlex_space :: "char \<Rightarrow> bool" where
  "shlex_space c \<longleftrightarrow> code c \<in> {9, 10, 13, 32}"

definition quote_char :: "char \<Rightarrow> bool" where
  "quote_char c \<longleftrightarrow> code c \<in> {34, 39}"

definition backslash :: char where "backslash = CHR 0x5C"

definition double_quote :: char where "double_quote = CHR 0x22"

definition shlex_word :: "string \<Rightarrow> bool \<Rightarrow> string list" where
  "shlex_word token quoted = (if token \<noteq> [] \<or> quoted then [token] else [])"

text \<open>What a character outside a quotation and an escape starts or continues.\<close>

definition lex_plain :: "string \<Rightarrow> char \<Rightarrow> lex_state \<times> string" where
  "lex_plain token c =
     (if c = backslash then (Lex_Escape None, token)
      else if quote_char c then (Lex_Quote c, token)
      else (Lex_Word, token @ [c]))"

text \<open>The character an escape inside quotation \<open>q\<close> stands for, with the backslash where it stays.\<close>

definition unescape :: "char option \<Rightarrow> char \<Rightarrow> string" where
  "unescape q c = (case q of
     None \<Rightarrow> [c]
   | Some quot \<Rightarrow> if c \<noteq> backslash \<and> c \<noteq> quot then [backslash, c] else [c])"

fun shlex_lex :: "lex_state \<Rightarrow> string \<Rightarrow> bool \<Rightarrow> string \<Rightarrow> string list option" where
  "shlex_lex Lex_Gap token quoted [] = Some (shlex_word token quoted)"
| "shlex_lex Lex_Word token quoted [] = Some (shlex_word token quoted)"
| "shlex_lex (Lex_Quote q) token quoted [] = None"
| "shlex_lex (Lex_Escape q) token quoted [] = None"
| "shlex_lex Lex_Gap token quoted (c # cs) =
     (if shlex_space c then shlex_lex Lex_Gap [] False cs
      else case lex_plain [] c of (st, t) \<Rightarrow> shlex_lex st t False cs)"
| "shlex_lex Lex_Word token quoted (c # cs) =
     (if shlex_space c then map_option (\<lambda>ws. shlex_word token quoted @ ws) (shlex_lex Lex_Gap [] False cs)
      else case lex_plain token c of (st, t) \<Rightarrow> shlex_lex st t quoted cs)"
| "shlex_lex (Lex_Quote q) token quoted (c # cs) =
     (if c = q then shlex_lex Lex_Word token True cs
      else if c = backslash \<and> q = double_quote then shlex_lex (Lex_Escape (Some q)) token True cs
      else shlex_lex (Lex_Quote q) (token @ [c]) True cs)"
| "shlex_lex (Lex_Escape q) token quoted (c # cs) =
     shlex_lex (case q of None \<Rightarrow> Lex_Word | Some quot \<Rightarrow> Lex_Quote quot) (token @ unescape q c) quoted cs"

definition shlex_split :: "string \<Rightarrow> string list option" where
  "shlex_split s = shlex_lex Lex_Gap [] False s"

text \<open>\<open>str.split()\<close>: the runs of characters that are not white space.\<close>

function py_words :: "string \<Rightarrow> string list" where
  "py_words s = (case dropWhile py_isspace s of
     [] \<Rightarrow> []
   | t \<Rightarrow> takeWhile (\<lambda>c. \<not> py_isspace c) t # py_words (dropWhile (\<lambda>c. \<not> py_isspace c) t))"
  by pat_completeness auto
termination
proof (relation "measure length", simp)
  fix s :: string and c cs
  assume d: "dropWhile py_isspace s = c # cs"
  then have "\<not> py_isspace c" by (metis dropWhile_eq_Cons_conv)
  then have "length (dropWhile (\<lambda>c. \<not> py_isspace c) (c # cs)) \<le> length cs"
    by (simp add: length_dropWhile_le)
  moreover have "length (c # cs) \<le> length s" using d by (metis length_dropWhile_le)
  ultimately show "(dropWhile (\<lambda>c. \<not> py_isspace c) (c # cs), s) \<in> measure length" by simp
qed

declare py_words.simps [simp del]

section \<open>Hosts\<close>

definition host_forbidden_chars :: string where
  "host_forbidden_chars = '';{}:()[]'' @ [CHR 0x27, CHR 0x22, CHR 0x60, CHR 0x5C] @ ''<>''"

datatype host_problem =
    Host_Not_String
  | Host_White_Space
  | Host_Forbidden_Char
  | Host_Not_Lower
  | Host_Wildcard
  | Host_Bad_Wildcard
  | Host_Bad_Name

text \<open>
  A label: \<^verbatim>\<open>[a-z0-9]([a-z0-9-]{0,61}[a-z0-9])?\<close>; a name: labels with a dot after each,
  then two or more letters.  A host has no white space when it gets here, so the \<open>$\<close>
  of the pattern is the end of the string.
\<close>

definition host_label :: "string \<Rightarrow> bool" where
  "host_label s \<longleftrightarrow> s \<noteq> [] \<and> length s \<le> 63 \<and> is_lower_alnum (hd s) \<and> is_lower_alnum (last s)
     \<and> list_all (\<lambda>c. is_lower_alnum c \<or> c = CHR ''-'') s"

definition host_name :: "string \<Rightarrow> bool" where
  "host_name s = (case rev (split_on (CHR ''.'') s) of
     tld # labels \<Rightarrow> 2 \<le> length tld \<and> list_all is_lower_az tld \<and> labels \<noteq> [] \<and> list_all host_label labels
   | [] \<Rightarrow> False)"

definition host_problem :: "pyval \<Rightarrow> host_problem option" where
  "host_problem v = (case v of
     PStr s \<Rightarrow>
       (if list_ex py_isspace s then Some Host_White_Space
        else if list_ex (\<lambda>c. c \<in> set host_forbidden_chars) s then Some Host_Forbidden_Char
        else if s \<noteq> py_lower s then Some Host_Not_Lower
        else if s = ''localhost'' then None
        else if starts_with ''*.'' s then Some (if host_name (drop 2 s) then Host_Wildcard else Host_Bad_Wildcard)
        else if host_name s then None
        else Some Host_Bad_Name)
   | _ \<Rightarrow> Some Host_Not_String)"

section \<open>Route paths and ports\<close>

definition route_char :: "char \<Rightarrow> bool" where
  "route_char c \<longleftrightarrow> is_lower_az c \<or> is_upper_az c \<or> is_digit c \<or> c \<in> set ''._~/-''"

text \<open>\<^verbatim>\<open>/[A-Za-z0-9._~/-]*\*?\<close> as a full match.\<close>

definition route_path :: "string \<Rightarrow> bool" where
  "route_path s = (case s of
     c # cs \<Rightarrow> c = slash \<and> list_all route_char (if cs \<noteq> [] \<and> last cs = CHR ''*'' then butlast cs else cs)
   | [] \<Rightarrow> False)"

datatype route_problem = Route_Not_String | Route_Bad_Path

definition route_path_problem :: "pyval \<Rightarrow> route_problem option" where
  "route_path_problem v = (case v of
     PStr s \<Rightarrow> if route_path s then None else Some Route_Bad_Path
   | _ \<Rightarrow> Some Route_Not_String)"

definition max_port :: int where "max_port = 65535"

datatype service_port_problem = Port_Not_Int pyval | Port_Out_Of_Range int

definition port_problem :: "pyval \<Rightarrow> service_port_problem option" where
  "port_problem v = (case v of
     PInt n \<Rightarrow> if 1 \<le> n \<and> n \<le> max_port then None else Some (Port_Out_Of_Range n)
   | _ \<Rightarrow> Some (Port_Not_Int v))"

section \<open>Commands and labels\<close>

datatype deploy_problem = Deploy_Not_Mapping | Hook_Not_String | Hook_Unsplittable string

definition deploy_problems :: "pyval \<Rightarrow> deploy_problem list" where
  "deploy_problems v = (case v of
     PDict deploy \<Rightarrow>
       (case dget_or deploy ''pre_deploy'' PNone of
          PNone \<Rightarrow> []
        | PStr hook \<Rightarrow> if hook = [] \<or> shlex_split hook \<noteq> None then [] else [Hook_Unsplittable hook]
        | _ \<Rightarrow> [Hook_Not_String])
   | _ \<Rightarrow> [Deploy_Not_Mapping])"

definition valid_strategies :: "string list" where
  "valid_strategies = [''leave_broken'', ''rollback_to_previous'']"

definition strategy_ok :: "pyval \<Rightarrow> bool" where
  "strategy_ok v \<longleftrightarrow> v \<in> PStr ` set valid_strategies"

fun retention_ok :: "pyval \<Rightarrow> bool" where
  "retention_ok (PInt n) = (1 \<le> n)"
| "retention_ok _ = False"

fun backup_type_ok :: "pyval \<Rightarrow> bool" where
  "backup_type_ok (PStr s) = (s \<noteq> [])"
| "backup_type_ok _ = False"

section \<open>Warnings about backup commands\<close>

text \<open>
  \<^verbatim>\<open>\w\<close>: letters, digits and the underscore; in Latin-1 also the letters and
  numerals above U+007F.
\<close>

definition is_re_word :: "char \<Rightarrow> bool" where
  "is_re_word c \<longleftrightarrow> is_lower_az c \<or> is_upper_az c \<or> is_digit c \<or> c = CHR ''_''
     \<or> code c \<in> {170, 178, 179, 181, 185, 186, 188, 189, 190}
     \<or> (192 \<le> code c \<and> code c \<noteq> 215 \<and> code c \<noteq> 247)"

text \<open>\<^verbatim>\<open>(?<![\w./-])name(?![\w-])\<close>, searched for; the first argument is the character before.\<close>

fun runs_command :: "char option \<Rightarrow> string \<Rightarrow> string \<Rightarrow> bool" where
  "runs_command prev name [] = False"
| "runs_command prev name (c # cs) =
     ((case prev of None \<Rightarrow> True | Some p \<Rightarrow> \<not> (is_re_word p \<or> p \<in> set ''./-''))
        \<and> starts_with name (c # cs)
        \<and> (case drop (length name) (c # cs) of [] \<Rightarrow> True | n # _ \<Rightarrow> \<not> (is_re_word n \<or> n = CHR ''-''))
      \<or> runs_command (Some c) name cs)"

definition has_clean :: "string \<Rightarrow> bool" where
  "has_clean command =
     (let tokens = (case shlex_split command of Some ws \<Rightarrow> ws | None \<Rightarrow> py_words command)
      in ''--clean'' \<in> set tokens \<or> ''-c'' \<in> set tokens)"

datatype backup_warning = Dump_Without_Clean | Restore_Without_Stop

definition backup_command_warnings :: "pydict \<Rightarrow> backup_warning list" where
  "backup_command_warnings backup =
     (case dget_or backup ''dump_command'' PNone of
        PStr dump \<Rightarrow> if runs_command None ''pg_dump'' dump \<and> \<not> has_clean dump then [Dump_Without_Clean] else []
      | _ \<Rightarrow> [])
     @ (case dget_or backup ''restore_command'' PNone of
        PStr restore \<Rightarrow> if runs_command None ''psql'' restore \<and> \<not> contains_sub ''ON_ERROR_STOP'' restore
          then [Restore_Without_Stop] else []
      | _ \<Rightarrow> [])"

section \<open>What the rules let through\<close>

text \<open>A character that ends a word or opens or closes a block or a quotation in a Caddyfile.\<close>

definition caddy_special :: "char \<Rightarrow> bool" where
  "caddy_special c \<longleftrightarrow> py_isspace c \<or> c \<in> set host_forbidden_chars \<or> code c \<le> 31"

lemma is_lower_alnum_plain: "is_lower_alnum c \<Longrightarrow> \<not> caddy_special c"
  by (auto simp: is_lower_alnum_def is_lower_az_def is_digit_def caddy_special_def py_isspace_def
      host_forbidden_chars_def code_def)

lemma route_char_plain: "route_char c \<Longrightarrow> \<not> caddy_special c"
  by (auto simp: route_char_def is_lower_az_def is_upper_az_def is_digit_def caddy_special_def py_isspace_def
      host_forbidden_chars_def code_def slash_def)

lemma hyphen_plain: "\<not> caddy_special (CHR ''-'')"
  by code_simp

lemma lower_name_plain:
  assumes "lower_name n s"
  shows "s \<noteq> []" "list_all (\<lambda>c. \<not> caddy_special c) s"
  using assms hyphen_plain is_lower_alnum_plain by (cases s; auto simp: lower_name_def list_all_iff)+

end
