(* ===== verification/Manifest_Schema.thy ===== *)
theory Manifest_Schema
  imports Py_Prelude
begin

text \<open>
  \<^verbatim>\<open>src/boxmunge/migration.py\<close>, \<^verbatim>\<open>user_entries.py\<close> and the loading half of
  \<^verbatim>\<open>manifest.py\<close>: a parsed manifest brought to the current schema, and the entries
  that only say who a compose-only service runs as moved out of \<open>services\<close>.
\<close>

section \<open>The migration chain\<close>

definition current_schema_version :: int where "current_schema_version = 3"

datatype migration_error = No_Downgrade int int | No_Path int int int | Version_Not_Int pyval

text \<open>The registered steps; each copies the manifest and raises its version.\<close>

definition registered_migrations :: "(int \<times> int) list" where
  "registered_migrations = [(1, 2), (2, 3)]"

definition migration_transform :: "int \<times> int \<Rightarrow> pydict \<Rightarrow> pydict" where
  "migration_transform step manifest = dset manifest (PStr ''schema_version'') (PInt (snd step))"

function walk_path :: "int \<Rightarrow> int \<Rightarrow> (int \<times> int) list \<Rightarrow> migration_error + (int \<times> int) list" where
  "walk_path current target path =
     (if current < target then
        if (current, current + 1) \<in> set registered_migrations
          then walk_path (current + 1) target (path @ [(current, current + 1)])
          else Inl (No_Path current (current + 1) target)
      else Inr path)"
  by pat_completeness auto
termination
  by (relation "measure (\<lambda>(current, target, _). nat (target - current))") auto

declare walk_path.simps [simp del]

definition get_migration_path :: "int \<Rightarrow> int \<Rightarrow> migration_error + (int \<times> int) list" where
  "get_migration_path source target =
     (if target < source then Inl (No_Downgrade source target)
      else if source = target then Inr []
      else walk_path source target [])"

definition schema_version :: "pydict \<Rightarrow> pyval" where
  "schema_version manifest = dget_or manifest ''schema_version'' (PInt 1)"

definition migrate_manifest :: "pydict \<Rightarrow> int \<Rightarrow> migration_error + pydict" where
  "migrate_manifest manifest target = (case schema_version manifest of
     PInt source \<Rightarrow> rbind (get_migration_path source target) (\<lambda>path.
       Inr (foldl (\<lambda>m step. migration_transform step m) manifest path))
   | v \<Rightarrow> Inl (Version_Not_Int v))"

section \<open>Entries that only declare a user\<close>

definition user_entries_key :: string where "user_entries_key = ''user_entries''"

definition is_user_entry :: "pyval \<Rightarrow> bool" where
  "is_user_entry svc = (case svc of
     PDict s \<Rightarrow> \<not> dhas s ''port'' \<and> \<not> dhas s ''routes'' \<and> dget_or s ''internal'' PNone \<noteq> PBool True
   | _ \<Rightarrow> False)"

datatype user_entry_problem =
    Entry_Has_More "string list"
  | Entry_Needs_User
  | Entry_Security_Has_More "string list"

text \<open>\<open>sorted(set(d) - allowed)\<close>, then joined: keys that do not compare, or are not text, raise TypeError.\<close>

definition other_keys :: "pydict \<Rightarrow> string list \<Rightarrow> py_exc + string list" where
  "other_keys d allowed = (let unknown = unknown_keys d allowed in
     if list_all is_pstr unknown then Inr (sort (map (\<lambda>k. case k of PStr s \<Rightarrow> s | _ \<Rightarrow> []) unknown))
     else Inl TypeError)"

definition user_entry_problems :: "pydict \<Rightarrow> py_exc + user_entry_problem list" where
  "user_entry_problems svc =
     rbind (other_keys svc [''security'']) (\<lambda>extra.
     if extra \<noteq> [] then Inr [Entry_Has_More extra]
     else case dget_or svc ''security'' PNone of
       PDict sec \<Rightarrow>
         (if \<not> dhas sec ''user'' then Inr [Entry_Needs_User]
          else rbind (other_keys sec [''user'', ''reason'']) (\<lambda>more.
            Inr (if more \<noteq> [] then [Entry_Security_Has_More more] else [])))
     | _ \<Rightarrow> Inr [Entry_Needs_User])"

definition split_user_entries :: "pydict \<Rightarrow> pydict" where
  "split_user_entries manifest = (case dget_or manifest ''services'' PNone of
     PDict services \<Rightarrow>
       (let entries = filter (\<lambda>(n, s). is_user_entry s) services in
        if entries = [] then manifest
        else dset (dset manifest (PStr ''services'') (PDict (filter (\<lambda>(n, s). \<not> is_user_entry s) services)))
               (PStr user_entries_key) (PDict entries))
   | _ \<Rightarrow> manifest)"

definition entry_under :: "pydict \<Rightarrow> string \<Rightarrow> string \<Rightarrow> pydict option" where
  "entry_under manifest k service = (case dget_or manifest k PNone of
     PDict entries \<Rightarrow> (case dget_or entries service PNone of PDict e \<Rightarrow> Some e | _ \<Rightarrow> None)
   | _ \<Rightarrow> None)"

definition service_entry :: "pydict \<Rightarrow> string \<Rightarrow> pydict option" where
  "service_entry manifest service = (case entry_under manifest ''services'' service of
     Some e \<Rightarrow> Some e
   | None \<Rightarrow> entry_under manifest user_entries_key service)"

text \<open>
  \<open>sorted\<close> of the keys of a mapping: in code-point order when they are all text.  The
  order of several keys of another type is not followed.
\<close>

definition sorted_keys :: "pyval list \<Rightarrow> py_exc + pyval list" where
  "sorted_keys ks =
     (if list_all is_pstr ks then Inr (map PStr (sort (map (\<lambda>k. case k of PStr s \<Rightarrow> s | _ \<Rightarrow> []) ks)))
      else if length ks < 2 then Inr ks
      else if py_sortable ks then Inl Unmodelled
      else Inl TypeError)"

text \<open>The user entries of services compose does not define, by name.\<close>

definition entries_missing_from :: "pydict \<Rightarrow> pydict \<Rightarrow> py_exc + pyval list" where
  "entries_missing_from user_entries compose_services =
     rbind (sorted_keys (map fst user_entries)) (\<lambda>names.
       Inr (filter (\<lambda>n. n \<notin> set (map fst compose_services)) names))"

section \<open>A manifest at the current schema\<close>

definition at_current_schema :: "pydict \<Rightarrow> migration_error + pydict" where
  "at_current_schema manifest = (case schema_version manifest of
     PInt version \<Rightarrow>
       (if 1 \<le> version \<and> version \<le> current_schema_version
        then rbind (migrate_manifest manifest current_schema_version) (\<lambda>current. Inr (split_user_entries current))
        else Inr manifest)
   | _ \<Rightarrow> Inr manifest)"

text \<open>Reading a manifest file: what keeps it from being one, or the value migrated.\<close>

datatype manifest_error = Manifest_Not_Found | Manifest_Not_Yaml | Manifest_Unreadable
  | Manifest_Not_Mapping | Manifest_Unmigratable migration_error

definition load_manifest_as_written :: "json_file \<Rightarrow> manifest_error + pydict" where
  "load_manifest_as_written file = (case file of
     Absent \<Rightarrow> Inl Manifest_Not_Found
   | Unparseable \<Rightarrow> Inl Manifest_Not_Yaml
   | Unreadable \<Rightarrow> Inl Manifest_Unreadable
   | Doc (PDict d) \<Rightarrow> Inr d
   | Doc _ \<Rightarrow> Inl Manifest_Not_Mapping)"

definition load_manifest :: "json_file \<Rightarrow> manifest_error + pydict" where
  "load_manifest file = rbind (load_manifest_as_written file) (\<lambda>d.
     case at_current_schema d of Inl e \<Rightarrow> Inl (Manifest_Unmigratable e) | Inr m \<Rightarrow> Inr m)"

section \<open>What loading keeps\<close>

lemma supported_path:
  assumes "1 \<le> v" "v \<le> current_schema_version"
  shows "\<exists>path. get_migration_path v current_schema_version = Inr path
    \<and> (path = [] \<longleftrightarrow> v = current_schema_version) \<and> (path \<noteq> [] \<longrightarrow> snd (last path) = current_schema_version)"
proof -
  have "v = 1 \<or> v = 2 \<or> v = 3" using assms by (auto simp: current_schema_version_def)
  moreover have "get_migration_path 1 3 = Inr [(1, 2), (2, 3)]" "get_migration_path 2 3 = Inr [(2, 3)]"
    by code_simp+
  moreover have "get_migration_path 3 3 = Inr []" by (simp add: get_migration_path_def)
  ultimately show ?thesis by (auto simp: current_schema_version_def)
qed

lemma transforms_get:
  "dget (foldl (\<lambda>m step. migration_transform step m) d path) k =
   (if k = ''schema_version'' \<and> path \<noteq> [] then Some (PInt (snd (last path))) else dget d k)"
  by (induction path arbitrary: d) (auto simp: migration_transform_def dget_dset)

lemma migrate_supported:
  assumes "schema_version d = PInt v" "1 \<le> v" "v \<le> current_schema_version"
  shows "\<exists>d'. migrate_manifest d current_schema_version = Inr d' \<and> schema_version d' = PInt current_schema_version
    \<and> (\<forall>k. k \<noteq> ''schema_version'' \<longrightarrow> dget d' k = dget d k) \<and> (v = current_schema_version \<longrightarrow> d' = d)"
proof -
  obtain path where path: "get_migration_path v current_schema_version = Inr path"
    "path = [] \<longleftrightarrow> v = current_schema_version" "path \<noteq> [] \<longrightarrow> snd (last path) = current_schema_version"
    using supported_path [OF assms(2,3)] by blast
  define d' where "d' = foldl (\<lambda>m step. migration_transform step m) d path"
  have "migrate_manifest d current_schema_version = Inr d'"
    using assms(1) path(1) by (simp add: migrate_manifest_def d'_def)
  moreover have "schema_version d' = PInt current_schema_version"
    using assms(1) path by (cases "path = []") (auto simp: schema_version_def dget_or_def d'_def transforms_get)
  ultimately show ?thesis using path(2) by (auto simp: d'_def transforms_get)
qed

lemma split_get_other:
  "k \<noteq> ''services'' \<Longrightarrow> k \<noteq> user_entries_key \<Longrightarrow> dget (split_user_entries d) k = dget d k"
  by (auto simp: split_user_entries_def dget_dset Let_def split: pyval.splits)

lemma map_of_filter_pred:
  "distinct (map fst xs) \<Longrightarrow> map_of (filter (\<lambda>(n, s). P s) xs) k =
     (case map_of xs k of Some s \<Rightarrow> if P s then Some s else None | None \<Rightarrow> None)"
  by (induction xs) (auto split: option.splits dest: map_of_SomeD intro: rev_image_eqI)

text \<open>The entries of \<open>services\<close> before and after, by name.\<close>

abbreviation entry_in :: "pydict \<Rightarrow> string \<Rightarrow> pydict option" where
  "entry_in xs n \<equiv> (case dget_or xs n PNone of PDict e \<Rightarrow> Some e | _ \<Rightarrow> None)"

definition user_entries_in :: "pydict \<Rightarrow> pydict" where
  "user_entries_in d = (case dget_or d ''services'' PNone of
     PDict services \<Rightarrow> filter (\<lambda>(n, s). is_user_entry s) services | _ \<Rightarrow> [])"

lemma split_nothing: "user_entries_in d = [] \<Longrightarrow> split_user_entries d = d"
  by (auto simp: split_user_entries_def user_entries_in_def split: pyval.splits)

lemma split_entries:
  assumes "dget d ''services'' = Some (PDict services)" "distinct (map fst services)" "user_entries_in d \<noteq> []"
  shows "service_entry (split_user_entries d) n = entry_in services n"
proof -
  have ne: "''services'' \<noteq> user_entries_key" by (simp add: user_entries_key_def)
  let ?e = "filter (\<lambda>(n, s). is_user_entry s) services" and ?r = "filter (\<lambda>(n, s). \<not> is_user_entry s) services"
  have "split_user_entries d = dset (dset d (PStr ''services'') (PDict ?r)) (PStr user_entries_key) (PDict ?e)"
    using assms(1,3) by (simp add: split_user_entries_def user_entries_in_def dget_or_def)
  then have after: "entry_under (split_user_entries d) ''services'' n = entry_in ?r n"
    "entry_under (split_user_entries d) user_entries_key n = entry_in ?e n"
    using ne by (simp_all add: entry_under_def dget_or_dset)
  have e: "map_of ?e (PStr n) = (case map_of services (PStr n) of Some s \<Rightarrow> if is_user_entry s then Some s else None | None \<Rightarrow> None)"
    and r: "map_of ?r (PStr n) = (case map_of services (PStr n) of Some s \<Rightarrow> if \<not> is_user_entry s then Some s else None | None \<Rightarrow> None)"
    by (rule map_of_filter_pred [OF assms(2)])+
  show ?thesis
  proof (cases "map_of services (PStr n)")
    case None
    then show ?thesis by (simp add: service_entry_def after dget_or_def dget_def e r)
  next
    case (Some svc)
    then have look: "entry_in ?r n = (if is_user_entry svc then None else entry_in services n)"
      "entry_in ?e n = (if is_user_entry svc then entry_in services n else None)"
      by (simp_all add: dget_or_def dget_def e r)
    show ?thesis
    proof (cases "is_user_entry svc")
      case True
      then show ?thesis by (simp add: service_entry_def after look)
    next
      case False
      then show ?thesis by (cases "entry_in services n") (simp_all add: service_entry_def after look)
    qed
  qed
qed

lemma split_service_entry:
  assumes "\<And>services. dget d ''services'' = Some (PDict services) \<Longrightarrow> distinct (map fst services)"
  shows "entry_under d ''services'' n = Some e \<Longrightarrow> service_entry (split_user_entries d) n = Some e"
    "dget d user_entries_key = None \<or> user_entries_in d = [] \<Longrightarrow> service_entry (split_user_entries d) n = service_entry d n"
proof -
  have moved: "\<exists>services. dget d ''services'' = Some (PDict services) \<and> service_entry (split_user_entries d) n = entry_in services n
      \<and> entry_under d ''services'' n = entry_in services n" if some: "user_entries_in d \<noteq> []"
  proof -
    obtain services where services: "dget d ''services'' = Some (PDict services)"
      using some by (auto simp: user_entries_in_def dget_or_def split: option.splits pyval.splits)
    then show ?thesis using split_entries [OF services assms [OF services] some] by (simp add: entry_under_def dget_or_def)
  qed
  show "service_entry (split_user_entries d) n = Some e" if "entry_under d ''services'' n = Some e"
    using that moved split_nothing [of d] by (cases "user_entries_in d = []") (auto simp: service_entry_def)
  show "service_entry (split_user_entries d) n = service_entry d n" if key: "dget d user_entries_key = None \<or> user_entries_in d = []"
  proof (cases "user_entries_in d = []")
    case False
    then have "entry_under d user_entries_key n = None" using key by (simp add: entry_under_def dget_or_def)
    moreover obtain services where "service_entry (split_user_entries d) n = entry_in services n"
      "entry_under d ''services'' n = entry_in services n" using moved [OF False] by blast
    ultimately show ?thesis by (cases "entry_in services n") (simp_all add: service_entry_def)
  qed (simp add: split_nothing)
qed

text \<open>
  Nothing refuses a manifest that writes the key itself, and its entries are lost when
  \<open>services\<close> has a user entry to move.
\<close>

lemma written_entries_lost:
  "service_entry [(PStr ''services'', PDict [(PStr ''a'', PDict [])]), (PStr user_entries_key, PDict [(PStr ''b'', PDict [])])] ''b'' = Some []
   \<and> service_entry (split_user_entries
       [(PStr ''services'', PDict [(PStr ''a'', PDict [])]), (PStr user_entries_key, PDict [(PStr ''b'', PDict [])])]) ''b'' = None"
  by code_simp

lemma split_idempotent: "split_user_entries (split_user_entries d) = split_user_entries d"
proof (cases "dget_or d ''services'' PNone")
  case (PDict services)
  have ne: "''services'' \<noteq> user_entries_key" by (simp add: user_entries_key_def)
  show ?thesis
  proof (cases "filter (\<lambda>(n, s). is_user_entry s) services = []")
    case False
    then show ?thesis using PDict ne
      by (simp add: split_user_entries_def dget_or_dset Let_def filter_False)
        (auto simp: split_def)
  qed (use PDict in \<open>simp add: split_user_entries_def\<close>)
qed (simp_all add: split_user_entries_def)

text \<open>C16. Loading a manifest of a supported schema version never fails to migrate it: the result is at the
  current schema, every key but the version, \<open>services\<close> and \<open>user_entries\<close> is as written, every service
  under \<open>services\<close> has the entry it was written with (in whichever of the two places), so has every service
  of a manifest that does not itself write \<open>user_entries\<close> (a key for loading only) or has no user entry to
  move, and loading the result again changes nothing.\<close>

theorem load_keeps_entries:
  assumes "schema_version d = PInt v" "1 \<le> v" "v \<le> current_schema_version"
    and "\<And>services. dget d ''services'' = Some (PDict services) \<Longrightarrow> distinct (map fst services)"
  shows "\<exists>m. at_current_schema d = Inr m \<and> schema_version m = PInt current_schema_version
    \<and> (\<forall>k. k \<notin> {''schema_version'', ''services'', user_entries_key} \<longrightarrow> dget m k = dget d k)
    \<and> (\<forall>n e. entry_under d ''services'' n = Some e \<longrightarrow> service_entry m n = Some e)
    \<and> (dget d user_entries_key = None \<or> user_entries_in d = [] \<longrightarrow> (\<forall>n. service_entry m n = service_entry d n))
    \<and> at_current_schema m = Inr m"
proof -
  obtain d' where d': "migrate_manifest d current_schema_version = Inr d'"
    "schema_version d' = PInt current_schema_version" "\<And>k. k \<noteq> ''schema_version'' \<Longrightarrow> dget d' k = dget d k"
    using migrate_supported [OF assms(1-3)] by blast
  let ?m = "split_user_entries d'"
  have keys: "''schema_version'' \<noteq> ''services''" "''schema_version'' \<noteq> user_entries_key"
    by (simp_all add: user_entries_key_def)
  have "at_current_schema d = Inr ?m" using assms(1-3) d'(1) by (simp add: at_current_schema_def)
  moreover have v: "schema_version ?m = PInt current_schema_version"
    using d'(2) keys by (simp add: schema_version_def dget_or_def split_get_other)
  moreover have same: "entry_under d' ''services'' n = entry_under d ''services'' n" "service_entry d' n = service_entry d n"
    "dget d' user_entries_key = dget d user_entries_key" "user_entries_in d' = user_entries_in d" for n
  proof -
    have "entry_under d' ''services'' n = entry_under d ''services'' n"
      "entry_under d' user_entries_key n = entry_under d user_entries_key n"
      using d'(3) keys by (simp_all add: entry_under_def dget_or_def del: not_None_eq)
    then show "entry_under d' ''services'' n = entry_under d ''services'' n" "service_entry d' n = service_entry d n"
      by (cases "entry_under d ''services'' n"; simp add: service_entry_def)+
    show "dget d' user_entries_key = dget d user_entries_key" "user_entries_in d' = user_entries_in d"
      using d'(3) keys by (simp_all add: user_entries_in_def dget_or_def)
  qed
  moreover have names: "distinct (map fst services)" if "dget d' ''services'' = Some (PDict services)" for services
    using that assms(4) d'(3) keys by simp
  moreover have "at_current_schema ?m = Inr ?m"
  proof -
    have "current_schema_version = current_schema_version \<longrightarrow> migrate_manifest ?m current_schema_version = Inr ?m"
      using migrate_supported [OF v] by (auto simp: current_schema_version_def)
    then show ?thesis using v by (simp add: at_current_schema_def split_idempotent current_schema_version_def)
  qed
  moreover have "\<forall>k. k \<notin> {''schema_version'', ''services'', user_entries_key} \<longrightarrow> dget ?m k = dget d k"
    using d'(3) split_get_other by auto
  moreover have "\<forall>n e. entry_under d ''services'' n = Some e \<longrightarrow> service_entry ?m n = Some e"
    using split_service_entry(1) [OF names] same(1) by simp
  moreover have "dget d user_entries_key = None \<or> user_entries_in d = [] \<longrightarrow> (\<forall>n. service_entry ?m n = service_entry d n)"
    using split_service_entry(2) [OF names] same(2-4) by simp
  ultimately show ?thesis by blast
qed

definition example_manifest :: pydict where
  "example_manifest = [(PStr ''project'', PStr ''shop''), (PStr ''services'', PDict
     [(PStr ''web'', PDict [(PStr ''port'', PInt 8080)]),
      (PStr ''db'', PDict [(PStr ''security'', PDict [(PStr ''user'', PStr ''999:999'')])])])]"

theorem load_keeps_entries_witness:
  "\<exists>m. at_current_schema example_manifest = Inr m \<and> schema_version m = PInt 3
     \<and> service_entry m ''db'' = Some [(PStr ''security'', PDict [(PStr ''user'', PStr ''999:999'')])]"
proof -
  have "schema_version example_manifest = PInt 1" "dget example_manifest user_entries_key = None"
    "service_entry example_manifest ''db'' = Some [(PStr ''security'', PDict [(PStr ''user'', PStr ''999:999'')])]"
    by code_simp+
  moreover have "distinct (map fst services)" if "dget example_manifest ''services'' = Some (PDict services)" for services
    using that by (auto simp: example_manifest_def dget_def)
  ultimately show ?thesis using load_keeps_entries [of example_manifest 1] by (auto simp: current_schema_version_def)
qed

end
