(* ===== verification/Cve_Scanner.thy ===== *)
theory Cve_Scanner
  imports Py_Datetime
begin

text \<open>
  \<^verbatim>\<open>src/boxmunge/cve/scanner.py\<close>: the enumerations of a Trivy report, a
  \<open>Finding\<close>, and the parsing of the JSON document Trivy prints.  The Trivy
  process is a parameter of the scan: what it did (\<open>trivy_run\<close>).  Logging is
  left out; a value whose type the annotations exclude ends in \<open>Unmodelled\<close>.
\<close>

section \<open>Enumerations\<close>

datatype severity = Sev_Low | Sev_Medium | Sev_High | Sev_Critical | Sev_Unknown

fun severity_value :: "severity \<Rightarrow> string" where
  "severity_value Sev_Low = ''Low''"
| "severity_value Sev_Medium = ''Medium''"
| "severity_value Sev_High = ''High''"
| "severity_value Sev_Critical = ''Critical''"
| "severity_value Sev_Unknown = ''Unknown''"

definition all_severities :: "severity list" where
  "all_severities = [Sev_Low, Sev_Medium, Sev_High, Sev_Critical, Sev_Unknown]"

fun severity_rank :: "severity \<Rightarrow> nat" where
  "severity_rank Sev_Critical = 4"
| "severity_rank Sev_High = 3"
| "severity_rank Sev_Medium = 2"
| "severity_rank Sev_Low = 1"
| "severity_rank Sev_Unknown = 0"

text \<open>The order of severities is the order of their ranks.\<close>

lemma severity_rank_inj [simp]: "severity_rank a = severity_rank b \<longleftrightarrow> a = b"
  by (cases a; cases b) auto

instantiation severity :: linorder
begin

definition less_eq_severity :: "severity \<Rightarrow> severity \<Rightarrow> bool" where
  "a \<le> b \<longleftrightarrow> severity_rank a \<le> severity_rank b"

definition less_severity :: "severity \<Rightarrow> severity \<Rightarrow> bool" where
  "a < b \<longleftrightarrow> severity_rank a < severity_rank b"

instance
  by standard (auto simp: less_eq_severity_def less_severity_def)

end

lemma severity_rank_le: "severity_rank a \<le> severity_rank b \<longleftrightarrow> a \<le> b"
  by (simp add: less_eq_severity_def)

lemma severity_unknown_least [simp]: "Sev_Unknown \<le> s"
  by (simp add: less_eq_severity_def)

lemma severity_critical_greatest [simp]: "s \<le> Sev_Critical"
  by (cases s) (auto simp: less_eq_severity_def)

datatype attack_vector = AV_Network | AV_Adjacent | AV_Local | AV_Physical

fun attack_vector_value :: "attack_vector \<Rightarrow> string" where
  "attack_vector_value AV_Network = ''Network''"
| "attack_vector_value AV_Adjacent = ''Adjacent''"
| "attack_vector_value AV_Local = ''Local''"
| "attack_vector_value AV_Physical = ''Physical''"

definition all_attack_vectors :: "attack_vector list" where
  "all_attack_vectors = [AV_Network, AV_Adjacent, AV_Local, AV_Physical]"

definition av_token_map :: "string \<Rightarrow> attack_vector option" where
  "av_token_map = map_of [(''N'', AV_Network), (''A'', AV_Adjacent),
                          (''L'', AV_Local), (''P'', AV_Physical)]"

datatype vuln_status = VS_Affected | VS_Fixed | VS_Under_Investigation | VS_Will_Not_Fix
  | VS_Fix_Deferred | VS_End_Of_Life | VS_Not_Affected | VS_Unknown

fun vuln_status_value :: "vuln_status \<Rightarrow> string" where
  "vuln_status_value VS_Affected = ''affected''"
| "vuln_status_value VS_Fixed = ''fixed''"
| "vuln_status_value VS_Under_Investigation = ''under_investigation''"
| "vuln_status_value VS_Will_Not_Fix = ''will_not_fix''"
| "vuln_status_value VS_Fix_Deferred = ''fix_deferred''"
| "vuln_status_value VS_End_Of_Life = ''end_of_life''"
| "vuln_status_value VS_Not_Affected = ''not_affected''"
| "vuln_status_value VS_Unknown = ''unknown''"

definition all_vuln_statuses :: "vuln_status list" where
  "all_vuln_statuses = [VS_Affected, VS_Fixed, VS_Under_Investigation, VS_Will_Not_Fix,
     VS_Fix_Deferred, VS_End_Of_Life, VS_Not_Affected, VS_Unknown]"

datatype pkg_class = PC_Os | PC_Lang | PC_Unknown

fun pkg_class_value :: "pkg_class \<Rightarrow> string" where
  "pkg_class_value PC_Os = ''os-pkgs''"
| "pkg_class_value PC_Lang = ''lang-pkgs''"
| "pkg_class_value PC_Unknown = ''unknown''"

section \<open>Reading Trivy's words\<close>

definition trivy_severity_map :: "string \<Rightarrow> severity option" where
  "trivy_severity_map = map_of [(''LOW'', Sev_Low), (''MEDIUM'', Sev_Medium),
     (''HIGH'', Sev_High), (''CRITICAL'', Sev_Critical), (''UNKNOWN'', Sev_Unknown)]"

definition trivy_status_map :: "string \<Rightarrow> vuln_status option" where
  "trivy_status_map = map_of (map (\<lambda>s. (vuln_status_value s, s))
     (filter (\<lambda>s. s \<noteq> VS_Unknown) all_vuln_statuses))"

definition trivy_class_map :: "string \<Rightarrow> pkg_class option" where
  "trivy_class_map = map_of [(pkg_class_value PC_Os, PC_Os), (pkg_class_value PC_Lang, PC_Lang)]"

definition or_else :: "'a option \<Rightarrow> 'a \<Rightarrow> 'a" where
  "or_else m d = (case m of None \<Rightarrow> d | Some x \<Rightarrow> x)"

text \<open>The \<open>from_trivy_string\<close> class methods: a truthy value that is no string has no \<open>upper\<close>.\<close>

definition severity_from_trivy :: "pyval \<Rightarrow> py_exc + severity" where
  "severity_from_trivy raw =
     (if \<not> py_truthy raw then Inr Sev_Unknown
      else case raw of
        PStr s \<Rightarrow> Inr (or_else (trivy_severity_map (py_upper s)) Sev_Unknown)
      | _ \<Rightarrow> Inl AttributeError)"

definition status_from_trivy :: "pyval \<Rightarrow> py_exc + vuln_status" where
  "status_from_trivy raw =
     (if \<not> py_truthy raw then Inr VS_Unknown
      else case raw of
        PStr s \<Rightarrow> Inr (or_else (trivy_status_map (py_lower (py_strip s))) VS_Unknown)
      | _ \<Rightarrow> Inl AttributeError)"

definition pkg_class_from_trivy :: "pyval \<Rightarrow> py_exc + pkg_class" where
  "pkg_class_from_trivy raw =
     (if \<not> py_truthy raw then Inr PC_Unknown
      else case raw of
        PStr s \<Rightarrow> Inr (or_else (trivy_class_map (py_lower (py_strip s))) PC_Unknown)
      | _ \<Rightarrow> Inl AttributeError)"

section \<open>Findings\<close>

definition distro_sources :: "string list" where
  "distro_sources = [''debian'', ''ubuntu'', ''redhat'', ''alpine'', ''amazon'',
                     ''oracle'', ''photon'', ''suse'', ''rocky'', ''alma'']"

definition cvss_source_priority :: "string list" where
  "cvss_source_priority = [''nvd'', ''redhat'', ''ghsa'']"

record finding =
  cve_id :: string
  severity :: severity
  package :: string
  installed_version :: string
  fixed_version :: "string option"
  title :: string
  primary_url :: "string option"
  attack_vector :: "attack_vector option"
  status :: vuln_status
  vendor_severities :: "(string \<times> severity) list"
  severity_source :: "string option"
  pkg_class :: pkg_class
  pkg_type :: "string option"

definition fix_available :: "finding \<Rightarrow> bool" where
  "fix_available f \<longleftrightarrow> fixed_version f \<noteq> None"

record scan_result =
  image_ref :: string
  findings :: "finding list"
  scanned_at :: datetime
  db_version :: "string option"
  lang_types :: "string set"

section \<open>Parsing\<close>

text \<open>
  \<open>_VENDOR_SEVERITY_RANK_TO_ENUM.get(level)\<close>: the keys 0 to 4 equal the floats and
  booleans of the same value; a list or a mapping has no hash.
\<close>

definition vendor_rank_to_enum :: "int \<Rightarrow> severity option" where
  "vendor_rank_to_enum n = map_of [(0, Sev_Unknown), (1, Sev_Low), (2, Sev_Medium),
                                   (3, Sev_High), (4, Sev_Critical)] n"

fun vendor_rank_get :: "pyval \<Rightarrow> py_exc + severity option" where
  "vendor_rank_get (PInt n) = Inr (vendor_rank_to_enum n)"
| "vendor_rank_get (PBool b) = Inr (vendor_rank_to_enum (if b then 1 else 0))"
| "vendor_rank_get (PFloat q) =
     Inr (if of_int \<lfloor>q\<rfloor> = q then vendor_rank_to_enum \<lfloor>q\<rfloor> else None)"
| "vendor_rank_get v = (if py_hashable v then Inr None else Inl TypeError)"

fun vendor_entries :: "pydict \<Rightarrow> py_exc + (string \<times> severity) list" where
  "vendor_entries [] = Inr []"
| "vendor_entries ((PStr source, level) # raw) =
     rbind (vendor_rank_get level) (\<lambda>sev. rbind (vendor_entries raw) (\<lambda>out.
       Inr (case sev of None \<Rightarrow> out | Some s \<Rightarrow> (source, s) # out)))"
| "vendor_entries ((_, level) # raw) = vendor_entries raw"

definition parse_vendor_severities :: "pyval \<Rightarrow> py_exc + (string \<times> severity) list" where
  "parse_vendor_severities raw = (case raw of PDict d \<Rightarrow> vendor_entries d | _ \<Rightarrow> Inr [])"

definition distro_severity :: "finding \<Rightarrow> severity option" where
  "distro_severity f = (case filter (\<lambda>s. s \<noteq> Sev_Unknown)
       (List.map_filter (\<lambda>source. map_of (vendor_severities f) source) distro_sources) of
     [] \<Rightarrow> None | s # _ \<Rightarrow> Some s)"

fun first_av_token :: "string list \<Rightarrow> attack_vector option" where
  "first_av_token [] = None"
| "first_av_token (token # tokens) =
     (if starts_with ''AV:'' token then av_token_map (py_upper (py_strip (drop 3 token)))
      else first_av_token tokens)"

definition extract_av_from_vector :: "pyval \<Rightarrow> attack_vector option" where
  "extract_av_from_vector vector = (case vector of
     PStr v \<Rightarrow> (if v = [] then None else first_av_token (split_on (CHR ''/'') v))
   | _ \<Rightarrow> None)"

definition av_of_entry :: "pyval option \<Rightarrow> attack_vector option" where
  "av_of_entry entry = (case entry of
     Some (PDict e) \<Rightarrow>
       (case extract_av_from_vector (dget_or e ''V3Vector'' PNone) of
          Some av \<Rightarrow> Some av
        | None \<Rightarrow> extract_av_from_vector (dget_or e ''V40Vector'' PNone))
   | _ \<Rightarrow> None)"

fun first_some :: "('a \<Rightarrow> 'b option) \<Rightarrow> 'a list \<Rightarrow> 'b option" where
  "first_some f [] = None"
| "first_some f (x # xs) = (case f x of Some y \<Rightarrow> Some y | None \<Rightarrow> first_some f xs)"

definition parse_attack_vector :: "pyval \<Rightarrow> attack_vector option" where
  "parse_attack_vector cvss = (case cvss of
     PDict d \<Rightarrow>
       (let extras = sort (filter (\<lambda>k. k \<notin> set cvss_source_priority) (str_keys d pstr_of))
        in first_some (\<lambda>source. av_of_entry (dget d source)) (cvss_source_priority @ extras))
   | _ \<Rightarrow> None)"

definition parse_finding :: "pkg_class \<Rightarrow> string option \<Rightarrow> pyval \<Rightarrow> py_exc + finding" where
  "parse_finding pclass ptype vuln =
     rbind (py_get vuln ''Severity'') (\<lambda>raw_sev.
     rbind (severity_from_trivy raw_sev) (\<lambda>sev.
     rbind (rbind (py_get_or vuln ''VulnerabilityID'' (PStr [])) str_field) (\<lambda>cve.
     rbind (rbind (py_get_or vuln ''PkgName'' (PStr [])) str_field) (\<lambda>pkg.
     rbind (rbind (py_get_or vuln ''InstalledVersion'' (PStr [])) str_field) (\<lambda>inst.
     rbind (rbind (py_get vuln ''FixedVersion'') opt_str_field) (\<lambda>fixed.
     rbind (rbind (py_get_or vuln ''Title'' (PStr [])) str_field) (\<lambda>ttl.
     rbind (rbind (py_get vuln ''PrimaryURL'') opt_str_field) (\<lambda>url.
     rbind (py_get vuln ''CVSS'') (\<lambda>cvss.
     rbind (rbind (py_get vuln ''Status'') status_from_trivy) (\<lambda>stat.
     rbind (rbind (py_get vuln ''VendorSeverity'')
              (\<lambda>v. parse_vendor_severities (py_or v (PDict [])))) (\<lambda>vendors.
     rbind (rbind (py_get vuln ''SeveritySource'') opt_str_field) (\<lambda>src.
     Inr \<lparr> cve_id = cve, severity = sev, package = pkg, installed_version = inst,
           fixed_version = fixed, title = ttl, primary_url = url,
           attack_vector = parse_attack_vector (py_or cvss (PDict [])),
           status = stat, vendor_severities = vendors, severity_source = src,
           pkg_class = pclass, pkg_type = ptype \<rparr>))))))))))))"

definition parse_result :: "pyval \<Rightarrow> py_exc + finding list" where
  "parse_result result =
     rbind (rbind (py_get result ''Class'') pkg_class_from_trivy) (\<lambda>pclass.
     rbind (rbind (py_get result ''Type'') opt_str_field) (\<lambda>ptype.
     rbind (py_get result ''Vulnerabilities'') (\<lambda>vulns.
     rbind (py_iter (py_or vulns (PList []))) (\<lambda>vs.
     rmap (parse_finding pclass ptype) vs))))"

definition finding_key :: "finding \<Rightarrow> int \<times> string" where
  "finding_key f = (- int (severity_rank (severity f)), cve_id f)"

definition parse_findings :: "pyval \<Rightarrow> py_exc + finding list" where
  "parse_findings payload =
     rbind (py_get payload ''Results'') (\<lambda>results.
     rbind (py_iter (py_or results (PList []))) (\<lambda>rs.
     rbind (rmap parse_result rs) (\<lambda>fss.
     Inr (sort_key finding_key (concat fss)))))"

definition result_lang_type :: "pyval \<Rightarrow> py_exc + string list" where
  "result_lang_type result =
     rbind (rbind (py_get result ''Class'') pkg_class_from_trivy) (\<lambda>pclass.
       if pclass \<noteq> PC_Lang then Inr []
       else rbind (py_get result ''Type'') (\<lambda>t.
         if \<not> py_truthy t then Inr []
         else rbind (str_field t) (\<lambda>s. Inr [s])))"

definition parse_lang_types :: "pyval \<Rightarrow> py_exc + string set" where
  "parse_lang_types payload =
     rbind (py_get payload ''Results'') (\<lambda>results.
     rbind (py_iter (py_or results (PList []))) (\<lambda>rs.
     rbind (rmap result_lang_type rs) (\<lambda>tss. Inr (set (concat tss)))))"

definition extract_db_version :: "pyval \<Rightarrow> py_exc + string option" where
  "extract_db_version payload =
     rbind (py_get payload ''Metadata'') (\<lambda>metadata.
     rbind (py_get (py_or metadata (PDict [])) ''DB'') (\<lambda>db.
     rbind (py_get (py_or db (PDict [])) ''UpdatedAt'') (\<lambda>updated.
     Inr (case updated of PStr s \<Rightarrow> (if s = [] then None else Some s) | _ \<Rightarrow> None))))"

section \<open>One scan\<close>

text \<open>What the Trivy process did, and what \<open>json.loads\<close> made of its output.\<close>

datatype trivy_run = Trivy_Missing | Trivy_Timeout | Trivy_Exit int string
  | Trivy_Output "pyval option"

datatype scanner_error = Trivy_Not_Installed | Scan_Timed_Out nat string
  | Scan_Failed string int string | Scan_Unparseable string

definition scan_image ::
    "trivy_run \<Rightarrow> string \<Rightarrow> nat \<Rightarrow> datetime \<Rightarrow> scanner_error raised + scan_result" where
  "scan_image run ref timeout now = (case run of
     Trivy_Missing \<Rightarrow> Inl (Raised Trivy_Not_Installed)
   | Trivy_Timeout \<Rightarrow> Inl (Raised (Scan_Timed_Out timeout ref))
   | Trivy_Exit n stderr \<Rightarrow> Inl (Raised (Scan_Failed ref n (py_strip stderr)))
   | Trivy_Output None \<Rightarrow> Inl (Raised (Scan_Unparseable ref))
   | Trivy_Output (Some payload) \<Rightarrow>
       (case rbind (parse_findings payload) (\<lambda>fs.
             rbind (parse_lang_types payload) (\<lambda>ts.
             rbind (extract_db_version payload) (\<lambda>db. Inr (fs, ts, db)))) of
          Inl x \<Rightarrow> Inl (Crash x)
        | Inr (fs, ts, db) \<Rightarrow> Inr \<lparr> image_ref = ref, findings = fs, scanned_at = now,
                                  db_version = db, lang_types = ts \<rparr>))"

section \<open>Lemmas\<close>

lemma severity_from_trivy_case_insensitive:
  "py_upper s = py_upper t \<Longrightarrow> s \<noteq> [] \<Longrightarrow> t \<noteq> [] \<Longrightarrow>
   severity_from_trivy (PStr s) = severity_from_trivy (PStr t)"
  by (simp add: severity_from_trivy_def)

lemma distro_severity_known: "distro_severity f = Some s \<Longrightarrow> s \<noteq> Sev_Unknown"
  by (auto simp: distro_severity_def dest!: arg_cong [where f = set] split: list.splits)

lemma distro_severity_rating:
  assumes "distro_severity f = Some s"
  shows "s \<in> snd ` set (vendor_severities f)"
proof -
  from assms have "s \<in> set (List.map_filter (\<lambda>source. map_of (vendor_severities f) source) distro_sources)"
    by (auto simp: distro_severity_def dest!: arg_cong [where f = set] split: list.splits)
  then obtain source where "map_of (vendor_severities f) source = Some s"
    by (auto simp: List.map_filter_def)
  then show ?thesis by (force dest: map_of_SomeD)
qed

lemma parse_findings_sorted:
  "parse_findings payload = Inr fs \<Longrightarrow> sorted (map finding_key fs)"
  by (auto simp: parse_findings_def rbind_eq_Inr)

lemma parse_findings_no_results:
  "parse_findings (PDict d) = Inr []" if "\<not> py_truthy (dget_or d ''Results'' PNone)"
  using that by (simp add: parse_findings_def py_or_def)

end
