(* ===== verification/Cve_Relevance.thy ===== *)
theory Cve_Relevance
  imports Cve_Scanner
begin

text \<open>
  \<^verbatim>\<open>src/boxmunge/cve/relevance.py\<close>: which language runtimes a project runs, and
  whether a finding's package belongs to a runtime it does not run.
\<close>

section \<open>The tables\<close>

definition trivy_type_to_ecosystem :: "(string \<times> string) list" where
  "trivy_type_to_ecosystem =
     [(''python-pkg'', ''python''), (''pip'', ''python''), (''poetry'', ''python''),
      (''node-pkg'', ''node''), (''npm'', ''node''), (''yarn'', ''node''), (''pnpm'', ''node''),
      (''gobinary'', ''go''), (''gomod'', ''go''),
      (''gemspec'', ''ruby''), (''bundler'', ''ruby''),
      (''composer'', ''php''),
      (''jar'', ''java''), (''pom'', ''java''), (''gradle'', ''java''),
      (''cargo'', ''rust''),
      (''nuget'', ''dotnet''), (''dotnet-core'', ''dotnet'')]"

definition runtime_families :: "(string \<times> string list) list" where
  "runtime_families =
     [(''perl'', [''perl'', ''perl-base'', ''perl-modules-*'']),
      (''ruby'', [''ruby'', ''ruby[0-9]*'']),
      (''php'', [''php'', ''php[0-9]*'', ''php-*'']),
      (''python'', [''python3'', ''python3.*'', ''python3-*'']),
      (''node'', [''nodejs'']),
      (''tcl'', [''tcl'', ''tcl[0-9]*'']),
      (''lua'', [''lua'', ''lua[0-9]*''])]"

definition valid_ecosystems :: "string set" where
  "valid_ecosystems = set (map snd trivy_type_to_ecosystem) \<union> set (map fst runtime_families)"

section \<open>Glob patterns\<close>

text \<open>
  \<open>fnmatch.fnmatchcase\<close>: \<open>*\<close> matches any text, \<open>?\<close> one character and \<open>[a-b]\<close> one
  character of a range, the only bracket form of the tables.
\<close>

datatype glob = G_Lit char | G_Star | G_Any | G_Range char char

fun glob_tokens :: "string \<Rightarrow> glob list" where
  "glob_tokens [] = []"
| "glob_tokens (c # cs) =
     (if c = CHR ''*'' then G_Star # glob_tokens cs
      else if c = CHR ''?'' then G_Any # glob_tokens cs
      else if c = CHR ''['' then
        (case cs of
           lo # m # hi # e # rest \<Rightarrow>
             (if m = CHR ''-'' \<and> e = CHR '']'' then G_Range lo hi # glob_tokens rest
              else G_Lit c # glob_tokens cs)
         | _ \<Rightarrow> G_Lit c # glob_tokens cs)
      else G_Lit c # glob_tokens cs)"

fun glob_match :: "glob list \<Rightarrow> string \<Rightarrow> bool" where
  "glob_match [] s = (s = [])"
| "glob_match (G_Star # ts) [] = glob_match ts []"
| "glob_match (G_Star # ts) (c # cs) = (glob_match ts (c # cs) \<or> glob_match (G_Star # ts) cs)"
| "glob_match (t # ts) [] = False"
| "glob_match (G_Lit d # ts) (c # cs) = (c = d \<and> glob_match ts cs)"
| "glob_match (G_Any # ts) (c # cs) = glob_match ts cs"
| "glob_match (G_Range lo hi # ts) (c # cs) =
     (code lo \<le> code c \<and> code c \<le> code hi \<and> glob_match ts cs)"

definition fnmatchcase :: "string \<Rightarrow> string \<Rightarrow> bool" where
  "fnmatchcase name pat = glob_match (glob_tokens pat) name"

section \<open>Runtimes\<close>

definition infer_runtimes :: "string set \<Rightarrow> string set" where
  "infer_runtimes ltypes =
     (\<Union>t\<in>ltypes. case map_of trivy_type_to_ecosystem t of None \<Rightarrow> {} | Some eco \<Rightarrow> {eco})"

definition unrecognised_lang_types :: "string set \<Rightarrow> string set" where
  "unrecognised_lang_types ltypes =
     Set.filter (\<lambda>t. t \<notin> fst ` set trivy_type_to_ecosystem) ltypes"

definition ecosystem_for_package :: "string \<Rightarrow> string option" where
  "ecosystem_for_package pkg =
     (if pkg = [] then None
      else map_option fst
        (List.find (\<lambda>(eco, patterns). list_ex (fnmatchcase pkg) patterns) runtime_families))"

text \<open>
  The declared value is what the manifest holds: \<open>None\<close> asks for inference.  A
  value that is not a list, an empty list and an unknown name are refused; a
  member with no hash, or unknown names that do not sort, raise TypeError first.
\<close>

datatype runtimes_error = Declared_Not_List | Declared_Empty | Declared_Unknown "pyval list"

definition effective_runtimes :: "string set \<Rightarrow> pyval \<Rightarrow> runtimes_error raised + string set" where
  "effective_runtimes ltypes declared = (case declared of
     PNone \<Rightarrow> Inr (infer_runtimes ltypes)
   | PList xs \<Rightarrow>
       (if \<not> list_all py_hashable xs then Inl (Crash TypeError)
        else if xs = [] then Inl (Raised Declared_Empty)
        else let unknown = remdups (filter (\<lambda>x. x \<notin> PStr ` valid_ecosystems) xs) in
          if unknown = [] then Inr (set (List.map_filter pstr_of xs))
          else if py_sortable unknown then Inl (Raised (Declared_Unknown unknown))
          else Inl (Crash TypeError))
   | _ \<Rightarrow> Inl (Raised Declared_Not_List))"

definition irrelevant_ecosystem :: "finding \<Rightarrow> string set \<Rightarrow> string option" where
  "irrelevant_ecosystem f runtimes =
     (if pkg_class f \<noteq> PC_Os then None
      else case ecosystem_for_package (package f) of
        None \<Rightarrow> None
      | Some eco \<Rightarrow> (if eco \<in> runtimes then None else Some eco))"

definition is_irrelevant_to_project :: "finding \<Rightarrow> string set \<Rightarrow> bool" where
  "is_irrelevant_to_project f runtimes \<longleftrightarrow> irrelevant_ecosystem f runtimes \<noteq> None"

section \<open>Lemmas\<close>

lemma ecosystem_for_package_family:
  "ecosystem_for_package pkg = Some eco \<Longrightarrow>
   \<exists>pats. (eco, pats) \<in> set runtime_families \<and> (\<exists>pat\<in>set pats. fnmatchcase pkg pat)"
  by (fastforce simp: ecosystem_for_package_def find_Some_iff list_ex_iff in_set_conv_nth
      split: if_splits)

lemma infer_runtimes_valid: "infer_runtimes ts \<subseteq> valid_ecosystems"
  by (force simp: infer_runtimes_def valid_ecosystems_def dest: map_of_SomeD
      split: option.splits)

lemma infer_runtimes_mono: "ts \<subseteq> us \<Longrightarrow> infer_runtimes ts \<subseteq> infer_runtimes us"
  by (auto simp: infer_runtimes_def)

text \<open>A larger runtime set makes fewer findings foreign.\<close>

lemma irrelevant_antimono:
  "rs \<subseteq> rs' \<Longrightarrow> is_irrelevant_to_project f rs' \<Longrightarrow> is_irrelevant_to_project f rs"
  by (auto simp: is_irrelevant_to_project_def irrelevant_ecosystem_def
      split: if_splits option.splits)

text \<open>Whatever runtimes a scan goes on with are recognised ones, whether the manifest declared them
  or they were inferred from the image, and a declaration is taken exactly as it stands.\<close>

theorem effective_runtimes_recognised:
  assumes "effective_runtimes ltypes declared = Inr rs"
  shows "rs \<subseteq> valid_ecosystems
    \<and> (case declared of PList xs \<Rightarrow> PStr ` rs = set xs \<and> rs \<noteq> {}
       | _ \<Rightarrow> declared = PNone \<and> rs = infer_runtimes ltypes)"
proof (cases declared)
  case PNone
  with assms show ?thesis using infer_runtimes_valid by (auto simp: effective_runtimes_def)
next
  case (PList xs)
  with assms have xs: "xs \<noteq> []" and known: "\<forall>x\<in>set xs. x \<in> PStr ` valid_ecosystems"
    and rs: "rs = set (List.map_filter pstr_of xs)"
    by (auto simp: effective_runtimes_def Let_def filter_empty_conv split: if_splits)
  have "PStr ` rs = set xs"
    using known unfolding rs by (force simp: List.map_filter_def image_iff)
  with xs known PList show ?thesis by auto
qed (use assms in \<open>auto simp: effective_runtimes_def\<close>)

theorem effective_runtimes_recognised_witness:
  "effective_runtimes {} (PList [PStr ''perl'']) = Inr {''perl''} \<and> {''perl''} \<subseteq> valid_ecosystems"
proof -
  have e: "effective_runtimes {} (PList [PStr ''perl'']) = Inr {''perl''}"
    by (simp add: effective_runtimes_def valid_ecosystems_def runtime_families_def
        List.map_filter_def)
  with effective_runtimes_recognised [OF e] show ?thesis by simp
qed

text \<open>The relevance gate exempts a finding only for a base-image package of one of the listed
  interpreter families, and only when the project runs none of that family; in particular a
  package no pattern matches is never exempted.\<close>

theorem irrelevant_only_foreign_interpreters:
  "irrelevant_ecosystem f runtimes = Some eco \<longleftrightarrow>
     pkg_class f = PC_Os \<and> ecosystem_for_package (package f) = Some eco \<and> eco \<notin> runtimes"
  by (auto simp: irrelevant_ecosystem_def split: option.splits)

end
