(* ===== verification/Capabilities.thy ===== *)
theory Capabilities
  imports Py_Prelude
begin

text \<open>
  \<^verbatim>\<open>src/boxmunge/capabilities.py\<close>: the capability names, the ones no service may
  add, and the spelling Docker reduces a name to.
\<close>

definition valid_cap_names :: "string list" where
  "valid_cap_names =
     [''AUDIT_CONTROL'', ''AUDIT_READ'', ''AUDIT_WRITE'', ''BLOCK_SUSPEND'', ''BPF'',
      ''CHOWN'', ''DAC_OVERRIDE'', ''DAC_READ_SEARCH'', ''FOWNER'', ''FSETID'',
      ''IPC_LOCK'', ''IPC_OWNER'', ''KILL'', ''LEASE'', ''LINUX_IMMUTABLE'',
      ''MAC_ADMIN'', ''MAC_OVERRIDE'', ''MKNOD'', ''NET_ADMIN'', ''NET_BIND_SERVICE'',
      ''NET_BROADCAST'', ''NET_RAW'', ''PERFMON'', ''SETFCAP'', ''SETGID'', ''SETPCAP'',
      ''SETUID'', ''SYS_ADMIN'', ''SYS_BOOT'', ''SYS_CHROOT'', ''SYS_MODULE'',
      ''SYS_NICE'', ''SYS_PACCT'', ''SYS_PTRACE'', ''SYS_RAWIO'', ''SYS_RESOURCE'',
      ''SYS_TIME'', ''SYS_TTY_CONFIG'', ''SYSLOG'', ''WAKE_ALARM'']"

definition denied_caps :: "string list" where
  "denied_caps =
     [''ALL'', ''SYS_ADMIN'', ''DAC_READ_SEARCH'', ''BPF'', ''PERFMON'', ''SYS_RESOURCE'',
      ''SYS_MODULE'', ''SYS_RAWIO'', ''SYS_BOOT'', ''MAC_ADMIN'', ''MAC_OVERRIDE'']"

definition normalise_cap :: "string \<Rightarrow> string" where
  "normalise_cap raw =
     (let name = py_upper (py_strip raw)
      in if starts_with ''CAP_'' name then drop 4 name else name)"

definition is_denied_cap :: "string \<Rightarrow> bool" where
  "is_denied_cap raw \<longleftrightarrow> normalise_cap raw \<in> set denied_caps"

end
