(* ===== verification/Security_Overlay.thy ===== *)
theory Security_Overlay
  imports Cve_Relevance Capabilities
begin

text \<open>
  \<^verbatim>\<open>src/boxmunge/security_overlay.py\<close>, with the checks it calls from
  \<^verbatim>\<open>published_ports.py\<close> and \<^verbatim>\<open>run_as.py\<close>: the schema of a manifest's \<open>security:\<close>
  block, and the hardening settings a service ends up with.  Whether a value is an
  IP address (\<open>ipaddress.ip_address\<close>) is a parameter, the first argument.
\<close>

section \<open>Published ports\<close>

definition loopback :: string where "loopback = ''127.0.0.1''"

definition port_protocols :: "string list" where "port_protocols = [''tcp'', ''udp'']"

definition port_keys :: "string list" where
  "port_keys = [''service'', ''port'', ''host_port'', ''host_ip'', ''protocol'', ''reason'']"

datatype port_problem =
    Port_Entry_Not_Mapping nat
  | Port_Unknown_Keys nat "pyval list"
  | Port_Needs_Service nat
  | Port_Needs_Port nat
  | Port_Bad_Host_Port nat
  | Port_Bad_Protocol nat
  | Port_Bad_Host_Ip nat pyval
  | Port_Needs_Reason nat
  | Ports_Not_List
  | Port_Twice pyval pyval pyval

fun port_ok :: "pyval \<Rightarrow> bool" where
  "port_ok (PInt n) = (1 \<le> n \<and> n \<le> 65535)"
| "port_ok _ = False"

definition has_text :: "pyval \<Rightarrow> bool" where
  "has_text v = (case v of PStr s \<Rightarrow> py_strip s \<noteq> [] | _ \<Rightarrow> False)"

definition problem_if :: "bool \<Rightarrow> 'a \<Rightarrow> 'a list" where
  "problem_if b p = (if b then [p] else [])"

definition entry_problems :: "(pyval \<Rightarrow> bool) \<Rightarrow> nat \<Rightarrow> pyval \<Rightarrow> py_exc + port_problem list" where
  "entry_problems is_ip i entry = (case entry of
     PDict d \<Rightarrow>
       (let unknown = unknown_keys d port_keys;
            service = dget_or d ''service'' PNone in
        if unknown \<noteq> [] \<and> \<not> py_sortable unknown then Inl TypeError
        else if dhas d ''protocol'' \<and> \<not> py_hashable (dget_or d ''protocol'' PNone)
          then Inl TypeError
        else Inr (problem_if (unknown \<noteq> []) (Port_Unknown_Keys i unknown)
          @ problem_if (\<not> is_pstr service \<or> \<not> py_truthy service) (Port_Needs_Service i)
          @ problem_if (\<not> port_ok (dget_or d ''port'' PNone)) (Port_Needs_Port i)
          @ problem_if (dhas d ''host_port'' \<and> \<not> port_ok (dget_or d ''host_port'' PNone))
              (Port_Bad_Host_Port i)
          @ problem_if (dhas d ''protocol''
                \<and> dget_or d ''protocol'' PNone \<notin> PStr ` set port_protocols)
              (Port_Bad_Protocol i)
          @ problem_if (dhas d ''host_ip'' \<and> \<not> is_ip (dget_or d ''host_ip'' PNone))
              (Port_Bad_Host_Ip i (dget_or d ''host_ip'' PNone))
          @ problem_if (\<not> has_text (dget_or d ''reason'' PNone)) (Port_Needs_Reason i)))
   | _ \<Rightarrow> Inr [Port_Entry_Not_Mapping i])"

definition port_host_ip :: "pydict \<Rightarrow> pyval" where
  "port_host_ip e = dget_or e ''host_ip'' (PStr loopback)"

definition port_host_port :: "pydict \<Rightarrow> pyval" where
  "port_host_port e = dget_or e ''host_port'' (dget_or e ''port'' PNone)"

definition port_protocol :: "pydict \<Rightarrow> pyval" where
  "port_protocol e = dget_or e ''protocol'' (PStr ''tcp'')"

definition port_key :: "pyval \<Rightarrow> pyval \<times> pyval \<times> pyval" where
  "port_key entry = (case entry of
     PDict e \<Rightarrow> (port_host_ip e, port_host_port e, port_protocol e)
   | _ \<Rightarrow> (PNone, PNone, PNone))"

fun duplicate_ports :: "(pyval \<times> pyval \<times> pyval) list \<Rightarrow> (pyval \<times> pyval \<times> pyval) list
    \<Rightarrow> port_problem list" where
  "duplicate_ports seen [] = []"
| "duplicate_ports seen ((ip, port, proto) # keys) =
     problem_if ((ip, port, proto) \<in> set seen) (Port_Twice ip port proto)
     @ duplicate_ports ((ip, port, proto) # seen) keys"

definition published_ports_problems ::
    "(pyval \<Rightarrow> bool) \<Rightarrow> pyval \<Rightarrow> py_exc + port_problem list" where
  "published_ports_problems is_ip value = (case value of
     PList entries \<Rightarrow>
       (if entries = [] then Inr [Ports_Not_List]
        else rbind (rmap (\<lambda>(i, e). entry_problems is_ip i e) (enumerate 0 entries)) (\<lambda>pss.
          if concat pss \<noteq> [] then Inr (concat pss)
          else Inr (duplicate_ports [] (map port_key entries))))
   | _ \<Rightarrow> Inr [Ports_Not_List])"

text \<open>The overlay's ports of each service: \<open>(target, published, host_ip, protocol)\<close>.\<close>

record overlay_port =
  target :: pyval
  published :: pyval
  host_ip :: pyval
  protocol :: pyval

definition declared_ports :: "pyval \<Rightarrow> pydict list" where
  "declared_ports project_security = (case project_security of
     PDict d \<Rightarrow> (case dget_or d ''published_ports'' PNone of
                 PList es \<Rightarrow> List.map_filter (\<lambda>e. case e of PDict x \<Rightarrow> Some x | _ \<Rightarrow> None) es
               | _ \<Rightarrow> [])
   | _ \<Rightarrow> [])"

definition port_of_entry :: "pydict \<Rightarrow> overlay_port" where
  "port_of_entry e = \<lparr> target = dget_or e ''port'' PNone, published = port_host_port e,
                       host_ip = port_host_ip e, protocol = port_protocol e \<rparr>"

definition overlay_ports :: "pyval \<Rightarrow> (pyval \<times> overlay_port list) list" where
  "overlay_ports project_security =
     foldl (\<lambda>out e. let svc = dget_or e ''service'' PNone in
              dset out svc (or_else (map_of out svc) [] @ [port_of_entry e]))
       [] (declared_ports project_security)"

section \<open>The user field\<close>

definition max_id :: nat where "max_id = 65535"

text \<open>\<open>_NUMERIC.fullmatch\<close>: \<^verbatim>\<open>([0-9]+):([0-9]+)\<close>, with its two groups.\<close>

definition numeric_match :: "string \<Rightarrow> (string \<times> string) option" where
  "numeric_match s =
     (let a = takeWhile is_digit s; r = dropWhile is_digit s in
      if a \<noteq> [] \<and> starts_with '':'' r \<and> tl r \<noteq> [] \<and> list_all is_digit (tl r)
      then Some (a, tl r) else None)"

definition id_in_range :: "string \<Rightarrow> bool" where
  "id_in_range g \<longleftrightarrow> 1 \<le> dec_val g \<and> dec_val g \<le> max_id"

datatype sec_error =
    Sec_Not_Mapping
  | Sec_Project_Only string
  | Profile_Boolean bool | Profile_Reserved pyval | Profile_Unknown pyval
  | Off_Needs_Reason
  | Caps_Not_List string
  | Cap_Not_String pyval string | Cap_Denied string | Cap_Unknown string string
  | Cap_Not_Canonical string string
  | Pids_Limit_Bad pyval
  | Flag_Not_Bool string pyval
  | Posture_Not_String pyval | Posture_Unknown string
  | Disable_Quarantine_Not_Bool pyval
  | Ports_Refused port_problem
  | Runtimes_Not_List | Runtimes_Empty | Runtime_Unknown pyval
  | User_Not_String pyval | User_Needs_Reason string | User_Malformed string

type_synonym sec_result = "(string \<times> sec_error) raised + unit"

definition sec_check :: "string \<Rightarrow> bool \<Rightarrow> sec_error \<Rightarrow> sec_result" where
  "sec_check ctx ok e = (if ok then Inr () else Inl (Raised (ctx, e)))"

definition validate_user_field :: "pydict \<Rightarrow> string \<Rightarrow> sec_result" where
  "validate_user_field block ctx = (case dget block ''user'' of
     None \<Rightarrow> Inr ()
   | Some (PStr v) \<Rightarrow>
       (if v = ''root'' \<or> v = ''image'' then
          sec_check ctx (has_text (dget_or block ''reason'' PNone)) (User_Needs_Reason v)
        else case numeric_match v of
          None \<Rightarrow> Inl (Raised (ctx, User_Malformed v))
        | Some (u, g) \<Rightarrow> sec_check ctx (id_in_range u \<and> id_in_range g) (User_Malformed v))
   | Some v \<Rightarrow> Inl (Raised (ctx, User_Not_String v)))"

section \<open>The schema of a block\<close>

definition project_only_fields :: "string list" where
  "project_only_fields =
     [''posture'', ''dangerously_disable_quarantine'', ''runtimes'', ''published_ports'']"

definition profile_default :: string where "profile_default = ''default''"
definition profile_off :: string where "profile_off = ''off''"
definition known_profiles :: "string list" where "known_profiles = [profile_default, profile_off]"
definition reserved_profiles :: "string list" where
  "reserved_profiles = [''strict'', ''paranoid'']"
definition known_postures :: "string list" where
  "known_postures = [''relaxed'', ''balanced'', ''strict'', ''paranoid'']"

definition validate_cap :: "string \<Rightarrow> string \<Rightarrow> pyval \<Rightarrow> sec_result" where
  "validate_cap cap_field ctx cap = (case cap of
     PStr c \<Rightarrow>
       (let canonical = normalise_cap c in
        if cap_field = ''cap_add'' \<and> canonical \<in> set denied_caps
          then Inl (Raised (ctx, Cap_Denied c))
        else if canonical \<notin> set valid_cap_names
          then Inl (Raised (ctx, Cap_Unknown c cap_field))
        else if c \<noteq> canonical then Inl (Raised (ctx, Cap_Not_Canonical c canonical))
        else Inr ())
   | v \<Rightarrow> Inl (Raised (ctx, Cap_Not_String v cap_field)))"

fun all_ok :: "('a \<Rightarrow> 'e + unit) \<Rightarrow> 'a list \<Rightarrow> 'e + unit" where
  "all_ok f [] = Inr ()"
| "all_ok f (x # xs) = rbind (f x) (\<lambda>_. all_ok f xs)"

definition check_project_only :: "pydict \<Rightarrow> string \<Rightarrow> sec_result" where
  "check_project_only block ctx =
     all_ok (\<lambda>f. sec_check ctx (\<not> (dhas block f \<and> ctx \<noteq> ''project''))
                   (Sec_Project_Only f)) project_only_fields"

definition check_profile :: "pydict \<Rightarrow> string \<Rightarrow> sec_result" where
  "check_profile block ctx = (case dget block ''profile'' of
     None \<Rightarrow> Inr ()
   | Some p \<Rightarrow>
       (case p of
          PBool b \<Rightarrow> Inl (Raised (ctx, Profile_Boolean b))
        | _ \<Rightarrow>
            (if \<not> py_hashable p then Inl (Crash TypeError)
             else if p \<in> PStr ` set reserved_profiles
               then Inl (Raised (ctx, Profile_Reserved p))
             else sec_check ctx (p \<in> PStr ` set known_profiles) (Profile_Unknown p))))"

definition check_off_reason :: "pydict \<Rightarrow> string \<Rightarrow> sec_result" where
  "check_off_reason block ctx =
     sec_check ctx
       (dget block ''profile'' \<noteq> Some (PStr profile_off)
        \<or> has_text (dget_or block ''reason'' PNone)) Off_Needs_Reason"

definition check_caps :: "pydict \<Rightarrow> string \<Rightarrow> string \<Rightarrow> sec_result" where
  "check_caps block ctx cap_field = (case dget block cap_field of
     None \<Rightarrow> Inr ()
   | Some (PList caps) \<Rightarrow> all_ok (validate_cap cap_field ctx) caps
   | Some _ \<Rightarrow> Inl (Raised (ctx, Caps_Not_List cap_field)))"

fun pids_limit_ok :: "pyval \<Rightarrow> bool" where
  "pids_limit_ok (PInt n) = (0 \<le> n)"
| "pids_limit_ok _ = False"

definition check_present ::
    "pydict \<Rightarrow> string \<Rightarrow> string \<Rightarrow> (pyval \<Rightarrow> bool) \<Rightarrow> (pyval \<Rightarrow> sec_error) \<Rightarrow> sec_result" where
  "check_present block ctx k ok err = (case dget block k of
     None \<Rightarrow> Inr ()
   | Some v \<Rightarrow> sec_check ctx (ok v) (err v))"

definition check_posture :: "pydict \<Rightarrow> string \<Rightarrow> sec_result" where
  "check_posture block ctx = (case dget block ''posture'' of
     None \<Rightarrow> Inr ()
   | Some (PStr p) \<Rightarrow> sec_check ctx (p \<in> set known_postures) (Posture_Unknown p)
   | Some v \<Rightarrow> Inl (Raised (ctx, Posture_Not_String v)))"

definition check_ports :: "(pyval \<Rightarrow> bool) \<Rightarrow> pydict \<Rightarrow> string \<Rightarrow> sec_result" where
  "check_ports is_ip block ctx = (case dget block ''published_ports'' of
     None \<Rightarrow> Inr ()
   | Some v \<Rightarrow>
       (case published_ports_problems is_ip v of
          Inl x \<Rightarrow> Inl (Crash x)
        | Inr [] \<Rightarrow> Inr ()
        | Inr (p # _) \<Rightarrow> Inl (Raised (ctx, Ports_Refused p))))"

definition check_runtimes :: "pydict \<Rightarrow> string \<Rightarrow> sec_result" where
  "check_runtimes block ctx = (case dget block ''runtimes'' of
     None \<Rightarrow> Inr ()
   | Some (PList ecos) \<Rightarrow>
       (if ecos = [] then Inl (Raised (ctx, Runtimes_Empty))
        else all_ok (\<lambda>e. sec_check ctx (e \<in> PStr ` valid_ecosystems) (Runtime_Unknown e)) ecos)
   | Some _ \<Rightarrow> Inl (Raised (ctx, Runtimes_Not_List)))"

definition validate_security_block :: "(pyval \<Rightarrow> bool) \<Rightarrow> pyval \<Rightarrow> string \<Rightarrow> sec_result" where
  "validate_security_block is_ip v ctx = (case v of
     PNone \<Rightarrow> Inr ()
   | PDict block \<Rightarrow>
       rbind (check_project_only block ctx) (\<lambda>_.
       rbind (check_profile block ctx) (\<lambda>_.
       rbind (check_off_reason block ctx) (\<lambda>_.
       rbind (check_caps block ctx ''cap_drop'') (\<lambda>_.
       rbind (check_caps block ctx ''cap_add'') (\<lambda>_.
       rbind (check_present block ctx ''pids_limit'' pids_limit_ok Pids_Limit_Bad) (\<lambda>_.
       rbind (check_present block ctx ''no_new_privileges'' is_pbool
                (Flag_Not_Bool ''no_new_privileges'')) (\<lambda>_.
       rbind (check_present block ctx ''init'' is_pbool (Flag_Not_Bool ''init'')) (\<lambda>_.
       rbind (check_posture block ctx) (\<lambda>_.
       rbind (check_present block ctx ''dangerously_disable_quarantine'' is_pbool
                Disable_Quarantine_Not_Bool) (\<lambda>_.
       rbind (check_ports is_ip block ctx) (\<lambda>_.
       rbind (check_runtimes block ctx) (\<lambda>_.
       validate_user_field block ctx))))))))))))
   | _ \<Rightarrow> Inl (Raised (ctx, Sec_Not_Mapping)))"

section \<open>What an accepted block guarantees\<close>

lemma sec_check_ok [simp]: "sec_check ctx ok e = Inr u \<longleftrightarrow> ok"
  by (simp add: sec_check_def)

lemma all_ok_iff: "all_ok f xs = Inr () \<longleftrightarrow> (\<forall>x\<in>set xs. f x = Inr ())"
  by (induction xs) (auto simp: rbind_eq_Inr)

lemma validate_cap_ok:
  "validate_cap cap_field ctx cap = Inr () \<Longrightarrow>
   \<exists>c. cap = PStr c \<and> c \<in> set valid_cap_names \<and> normalise_cap c = c
     \<and> (cap_field = ''cap_add'' \<longrightarrow> c \<notin> set denied_caps)"
  by (cases cap) (auto simp: validate_cap_def Let_def split: if_splits)

lemma check_caps_ok:
  assumes "check_caps block ctx cap_field = Inr ()" "dget block cap_field = Some (PList caps)"
    "cap \<in> set caps"
  shows "\<exists>c. cap = PStr c \<and> c \<in> set valid_cap_names \<and> normalise_cap c = c
     \<and> (cap_field = ''cap_add'' \<longrightarrow> c \<notin> set denied_caps)"
  using assms by (intro validate_cap_ok [of cap_field ctx]) (auto simp: check_caps_def all_ok_iff)

lemma validate_block_parts:
  assumes "validate_security_block is_ip (PDict block) ctx = Inr ()"
  shows "check_project_only block ctx = Inr ()" "check_profile block ctx = Inr ()"
    "check_off_reason block ctx = Inr ()" "check_caps block ctx ''cap_drop'' = Inr ()"
    "check_caps block ctx ''cap_add'' = Inr ()"
    "check_present block ctx ''pids_limit'' pids_limit_ok Pids_Limit_Bad = Inr ()"
    "check_present block ctx ''no_new_privileges'' is_pbool
       (Flag_Not_Bool ''no_new_privileges'') = Inr ()"
    "check_present block ctx ''init'' is_pbool (Flag_Not_Bool ''init'') = Inr ()"
    "check_posture block ctx = Inr ()" "check_runtimes block ctx = Inr ()"
    "check_ports is_ip block ctx = Inr ()" "validate_user_field block ctx = Inr ()"
  using assms by (auto simp: validate_security_block_def rbind_eq_Inr)

text \<open>Every value of a capability field is a list of texts that all satisfy a condition.\<close>

definition cap_texts :: "pydict \<Rightarrow> string \<Rightarrow> (string \<Rightarrow> bool) \<Rightarrow> bool" where
  "cap_texts block cap_field ok \<longleftrightarrow>
     (\<forall>v. dget block cap_field = Some v \<longrightarrow> (\<exists>caps. v = PList (map PStr caps) \<and> list_all ok caps))"

lemma check_caps_texts:
  assumes "check_caps block ctx cap_field = Inr ()"
  shows "cap_texts block cap_field (\<lambda>c. c \<in> set valid_cap_names \<and> normalise_cap c = c
    \<and> (cap_field = ''cap_add'' \<longrightarrow> c \<notin> set denied_caps))"
  unfolding cap_texts_def
proof (intro allI impI)
  fix v assume v: "dget block cap_field = Some v"
  then obtain es where es: "v = PList es" using assms by (cases v) (auto simp: check_caps_def)
  let ?ok = "\<lambda>c. c \<in> set valid_cap_names \<and> normalise_cap c = c \<and> (cap_field = ''cap_add'' \<longrightarrow> c \<notin> set denied_caps)"
  have "\<forall>e\<in>set es. \<exists>c. e = PStr c \<and> ?ok c" using check_caps_ok [OF assms v [unfolded es]] by blast
  then have "\<exists>caps. es = map PStr caps \<and> list_all ?ok caps"
  proof (induction es)
    case (Cons e es)
    then obtain c caps where "e = PStr c" "?ok c" "es = map PStr caps" "list_all ?ok caps" by auto
    then show ?case by (intro exI [of _ "c # caps"]) simp
  qed simp
  then show "\<exists>caps. v = PList (map PStr caps) \<and> list_all ?ok caps" by (simp add: es)
qed

text \<open>C38. A block the validator accepts, whatever its profile, can only add capabilities it knows, each
  a text in the canonical spelling, and none of the denied ones, whatever spelling Docker would accept for
  them; what it drops are known capabilities too; turning the hardening off needs a reason; and
  the project-wide levers appear in the project block only.\<close>

theorem accepted_block_safe:
  assumes "validate_security_block is_ip (PDict block) ctx = Inr ()"
  shows "cap_texts block ''cap_add'' (\<lambda>c. c \<in> set valid_cap_names \<and> normalise_cap c = c \<and> \<not> is_denied_cap c)
    \<and> cap_texts block ''cap_drop'' (\<lambda>c. c \<in> set valid_cap_names \<and> normalise_cap c = c)
    \<and> (dget block ''profile'' = Some (PStr profile_off) \<longrightarrow>
         has_text (dget_or block ''reason'' PNone))
    \<and> (ctx \<noteq> ''project'' \<longrightarrow> (\<forall>f\<in>set project_only_fields. \<not> dhas block f))"
proof (intro conjI)
  note parts = validate_block_parts [OF assms]
  have denied: "(\<lambda>c. c \<in> set valid_cap_names \<and> normalise_cap c = c \<and> \<not> is_denied_cap c)
      = (\<lambda>c. c \<in> set valid_cap_names \<and> normalise_cap c = c \<and> c \<notin> set denied_caps)"
    by (auto simp: is_denied_cap_def)
  show "cap_texts block ''cap_add'' (\<lambda>c. c \<in> set valid_cap_names \<and> normalise_cap c = c \<and> \<not> is_denied_cap c)"
    using check_caps_texts [OF parts(5)] by (simp add: denied)
  show "cap_texts block ''cap_drop'' (\<lambda>c. c \<in> set valid_cap_names \<and> normalise_cap c = c)"
    using check_caps_texts [OF parts(4)] by simp
  show "dget block ''profile'' = Some (PStr profile_off) \<longrightarrow>
          has_text (dget_or block ''reason'' PNone)"
    using parts(3) by (simp add: check_off_reason_def)
  show "ctx \<noteq> ''project'' \<longrightarrow> (\<forall>f\<in>set project_only_fields. \<not> dhas block f)"
    using parts(1) by (auto simp: check_project_only_def all_ok_iff)
qed

theorem accepted_block_safe_witness:
  "validate_security_block (\<lambda>_. True) (PDict [(PStr ''cap_add'', PList [PStr ''NET_RAW''])])
     ''service:web'' = Inr ()
   \<and> cap_texts [(PStr ''cap_add'', PList [PStr ''NET_RAW''])] ''cap_add''
       (\<lambda>c. c \<in> set valid_cap_names \<and> normalise_cap c = c \<and> \<not> is_denied_cap c)"
proof -
  let ?b = "[(PStr ''cap_add'', PList [PStr ''NET_RAW''])]"
  have ok: "validate_security_block (\<lambda>_. True) (PDict ?b) ''service:web'' = Inr ()"
    by code_simp
  with accepted_block_safe [OF ok] show ?thesis by simp
qed

text \<open>
  The message that refuses a denied capability, the comment on the list and the operator's
  guide all name \<open>profile: off\<close> with a reason as the way to have one; the check
  does not look at the profile, so the block they describe is refused too.
\<close>

lemma off_does_not_allow_denied:
  "validate_security_block (\<lambda>_. True) (PDict [(PStr ''profile'', PStr ''off''), (PStr ''reason'', PStr ''VPN''),
     (PStr ''cap_add'', PList [PStr ''SYS_ADMIN''])]) ''service:web''
   = Inl (Raised (''service:web'', Cap_Denied ''SYS_ADMIN''))"
  by code_simp

text \<open>A profile written as a list or a mapping is not refused with a message: the membership test
  raises TypeError, which nothing up to the deploy catches.\<close>

theorem unhashable_profile_crashes:
  "dget block ''profile'' = Some p \<Longrightarrow> \<not> py_hashable p \<Longrightarrow>
   check_project_only block ctx = Inr () \<Longrightarrow>
   validate_security_block is_ip (PDict block) ctx = Inl (Crash TypeError)"
  by (cases p) (auto simp: validate_security_block_def check_profile_def)

theorem unhashable_profile_crashes_witness:
  "validate_security_block (\<lambda>_. True) (PDict [(PStr ''profile'', PList [PStr ''off''])])
     ''project'' = Inl (Crash TypeError)"
  by (rule unhashable_profile_crashes [where p = "PList [PStr ''off'']"])
    (simp_all add: dget_def check_project_only_def all_ok_iff sec_check_def dhas_def project_only_fields_def)

end
