(* ===== verification/Manifest.thy ===== *)
theory Manifest
  imports Manifest_Fields Manifest_Schema Security_Overlay
begin

text \<open>
  \<^verbatim>\<open>src/boxmunge/manifest.py\<close>: the validation of a parsed manifest and the routes it
  declares.  An error or a warning names what it is about instead of holding the
  text of the message.  Whether a value is an IP address is a parameter, as in the
  validation of the security block.
\<close>

section \<open>Errors and warnings\<close>

datatype route_shape = Route_Not_Mapping pyval | Route_Path_Bad route_problem

datatype service_problem =
    Service_Bad_Name
  | Service_Not_Mapping
  | User_Entry_Bad user_entry_problem
  | Internal_Not_Bool
  | Internal_With_Routes
  | Service_Port_Bad service_port_problem
  | Service_Port_Missing
  | Service_No_Route
  | Routes_Not_List
  | Route_Bad nat route_shape
  | Writable_Refused writable_error

datatype backup_problem =
    Backup_Not_Mapping
  | Backup_Type_Bad pyval
  | Retention_Bad pyval
  | Dump_Missing pyval
  | Restore_Missing pyval
  | Backup_Service_Unset nat

datatype source_problem = Id_Missing | Source_Missing | Source_Bad pyval | Repo_Missing

datatype staging_problem = Staging_Not_Mapping | Copy_Data_Bad | Copy_Sources_Bad

datatype block_problem =
    Security_Not_Mapping
  | Security_Needs_Schema int
  | Security_Refused "pyval option" sec_error
  | Writable_Needs_Schema int
  | Volume_Name_Shared string pyval pyval

datatype top_problem =
    Top_Not_Mapping
  | User_Entries_Declared
  | Schema_Not_Int pyval
  | Schema_Unsupported int
  | Project_Missing
  | Project_Mismatch pyval
  | Hosts_Empty
  | Hosts_Not_List
  | Wildcard_Not_Allowed pyval
  | Host_Invalid pyval host_problem
  | Services_Not_Mapping
  | Services_Empty

datatype manifest_problem =
    Top top_problem
  | In_Service pyval service_problem
  | In_Block block_problem
  | In_Backup backup_problem
  | Deploy_Refused deploy_problem
  | Updates_Not_Mapping
  | Strategy_Bad pyval
  | In_Source source_problem
  | In_Staging staging_problem

datatype manifest_warning =
    Route_Exact_Only pyval nat string
  | No_Limits pyval
  | Backup_Warned backup_warning
  | No_Smoke_Tests
  | Staging_Unknown_Key pyval
  | Lenient_Value manifest_problem

section \<open>Hosts and services\<close>

definition host_entry_problems :: "bool \<Rightarrow> pyval \<Rightarrow> manifest_problem list" where
  "host_entry_problems allow_wildcard entry = (case host_problem entry of
     None \<Rightarrow> []
   | Some Host_Wildcard \<Rightarrow> problem_if (\<not> allow_wildcard) (Top (Wildcard_Not_Allowed entry))
   | Some p \<Rightarrow> [Top (Host_Invalid entry p)])"

definition hosts_problems :: "pydict \<Rightarrow> manifest_problem list" where
  "hosts_problems manifest = (let hosts = dget_or manifest ''hosts'' (PList []) in
     if \<not> py_truthy hosts then [Top Hosts_Empty]
     else case hosts of
       PList entries \<Rightarrow> concat (map (host_entry_problems
           (py_truthy (dget_or manifest ''allow_wildcard_hosts'' (PBool False)))) entries)
     | _ \<Rightarrow> [Top Hosts_Not_List])"

definition route_problems :: "pyval \<Rightarrow> nat \<Rightarrow> pyval \<Rightarrow> manifest_problem list \<times> manifest_warning list" where
  "route_problems name i route = (case route of
     PDict r \<Rightarrow>
       (case dget r ''path'' of
          None \<Rightarrow> ([In_Service name (Route_Bad i (Route_Not_Mapping route))], [])
        | Some path \<Rightarrow>
            (case route_path_problem path of
               Some p \<Rightarrow> ([In_Service name (Route_Bad i (Route_Path_Bad p))], [])
             | None \<Rightarrow>
                 (case path of
                    PStr p \<Rightarrow> ([], if p \<noteq> ''/'' \<and> ends_with ''/'' p then [Route_Exact_Only name i p] else [])
                  | _ \<Rightarrow> ([], []))))
   | _ \<Rightarrow> ([In_Service name (Route_Bad i (Route_Not_Mapping route))], []))"

text \<open>The errors, the warnings and the late errors of one entry of \<open>services\<close>.\<close>

type_synonym service_verdict = "manifest_problem list \<times> manifest_warning list \<times> manifest_problem list"

definition service_name_ok :: "pyval \<Rightarrow> bool" where
  "service_name_ok v = (case v of PStr s \<Rightarrow> lower_name 62 s | _ \<Rightarrow> False)"

definition declared_service_verdict :: "pyval \<Rightarrow> pydict \<Rightarrow> service_verdict" where
  "declared_service_verdict name svc =
     (let routes = dget_or svc ''routes'' (PList []);
          internal = dget_or svc ''internal'' PNone = PBool True;
          routeless = internal \<and> \<not> py_truthy routes;
          port_errors = (case dget svc ''port'' of
              Some port \<Rightarrow> (case port_problem port of Some p \<Rightarrow> [In_Service name (Service_Port_Bad p)] | None \<Rightarrow> [])
            | None \<Rightarrow> problem_if (\<not> routeless) (In_Service name Service_Port_Missing));
          route_verdicts = (if \<not> py_truthy routes then [(problem_if (\<not> routeless) (In_Service name Service_No_Route), [])]
            else case routes of
              PList rs \<Rightarrow> map (\<lambda>(i, r). route_problems name i r) (enumerate 0 rs)
            | _ \<Rightarrow> [([In_Service name Routes_Not_List], [])])
      in (problem_if (dhas svc ''internal'' \<and> \<not> is_pbool (dget_or svc ''internal'' PNone)) (In_Service name Internal_Not_Bool)
            @ port_errors @ concat (map fst route_verdicts),
          concat (map snd route_verdicts) @ (if dhas svc ''limits'' then [] else [No_Limits name]),
          problem_if (internal \<and> py_truthy routes) (In_Service name Internal_With_Routes)))"

definition service_verdict :: "pyval \<times> pyval \<Rightarrow> py_exc + service_verdict" where
  "service_verdict entry = (case entry of (name, v) \<Rightarrow>
     (let bad_name = problem_if (\<not> service_name_ok name) (In_Service name Service_Bad_Name) in
      case v of
        PDict svc \<Rightarrow>
          (if is_user_entry v \<and> dhas svc ''security'' then
             rbind (user_entry_problems svc) (\<lambda>ps. Inr (bad_name @ map (\<lambda>p. In_Service name (User_Entry_Bad p)) ps, [], []))
           else (case declared_service_verdict name svc of (es, ws, late) \<Rightarrow> Inr (bad_name @ es, ws, late)))
      | _ \<Rightarrow> Inr (bad_name @ [In_Service name Service_Not_Mapping], [], [])))"

definition services_verdict :: "pydict \<Rightarrow> py_exc + service_verdict" where
  "services_verdict services =
     (if services = [] then Inr ([Top Services_Empty], [], [])
      else rbind (rmap service_verdict services) (\<lambda>vs.
        Inr (concat (map fst vs), concat (map (fst \<circ> snd) vs), concat (map (snd \<circ> snd) vs))))"

section \<open>Security and writable blocks\<close>

definition field_of :: "string \<Rightarrow> pyval \<Rightarrow> pyval" where
  "field_of k svc = (case svc of PDict s \<Rightarrow> dget_or s k PNone | _ \<Rightarrow> PNone)"

text \<open>The error a block is refused with, as the problem of the project or of a service; another exception goes on.\<close>

definition refused :: "('e \<Rightarrow> manifest_problem) \<Rightarrow> 'e raised + unit \<Rightarrow> py_exc + manifest_problem list" where
  "refused f r = (case r of
     Inr u \<Rightarrow> Inr []
   | Inl (Raised e) \<Rightarrow> Inr [f e]
   | Inl (Crash x) \<Rightarrow> Inl x)"

definition rconcat :: "('a \<Rightarrow> 'e + 'b list) \<Rightarrow> 'a list \<Rightarrow> 'e + 'b list" where
  "rconcat f xs = rbind (rmap f xs) (\<lambda>ys. Inr (concat ys))"

definition security_problems :: "(pyval \<Rightarrow> bool) \<Rightarrow> pydict \<Rightarrow> pydict \<Rightarrow> int \<Rightarrow> py_exc + manifest_problem list" where
  "security_problems is_ip manifest services version =
     (let block = dget_or manifest ''security'' PNone;
          malformed = block \<noteq> PNone \<and> \<not> is_pdict block;
          project = (if malformed then PNone else block);
          any_block = project \<noteq> PNone \<or> list_ex (\<lambda>(n, svc). field_of ''security'' svc \<noteq> PNone) services
      in rbind (refused (\<lambda>(c, e). In_Block (Security_Refused None e)) (validate_security_block is_ip project ''project'')) (\<lambda>ps.
         rbind (rconcat (\<lambda>(n, svc). refused (\<lambda>(c, e). In_Block (Security_Refused (Some n) e))
                  (validate_security_block is_ip (field_of ''security'' svc) ''service'')) services) (\<lambda>ss.
         Inr (problem_if malformed (In_Block Security_Not_Mapping)
           @ problem_if (any_block \<and> version < 2) (In_Block (Security_Needs_Schema version)) @ ps @ ss))))"

text \<open>The volume names the services declare, in order, with the service of each.\<close>

definition volume_names :: "pydict \<Rightarrow> (string \<times> pyval) list" where
  "volume_names services = concat (map (\<lambda>(svc_name, svc). case field_of ''writable'' svc of
      PDict block \<Rightarrow>
        (case dget_or block ''persistent'' PNone of
           PList es \<Rightarrow> concat (map (\<lambda>e. case e of
               PDict d \<Rightarrow> (case dget_or d ''name'' PNone of PStr n \<Rightarrow> [(n, svc_name)] | _ \<Rightarrow> [])
             | _ \<Rightarrow> []) es)
         | _ \<Rightarrow> [])
    | _ \<Rightarrow> []) services)"

fun shared_volumes :: "(string \<times> pyval) list \<Rightarrow> (string \<times> pyval) list \<Rightarrow> manifest_problem list" where
  "shared_volumes seen [] = []"
| "shared_volumes seen ((n, svc) # rest) =
     (case map_of seen n of
        Some prior \<Rightarrow> problem_if (prior \<noteq> PNone \<and> prior \<noteq> svc) (In_Block (Volume_Name_Shared n prior svc))
      | None \<Rightarrow> []) @ shared_volumes (dset seen n svc) rest"

definition writable_problems :: "pydict \<Rightarrow> int \<Rightarrow> py_exc + manifest_problem list" where
  "writable_problems services version =
     (if list_ex (\<lambda>(n, svc). field_of ''writable'' svc \<noteq> PNone) services \<and> version < 3
      then Inr [In_Block (Writable_Needs_Schema version)]
      else rbind (rconcat (\<lambda>(n, svc). refused (\<lambda>e. In_Service n (Writable_Refused e)) (validate_writable_block (field_of ''writable'' svc)))
                   services) (\<lambda>ps.
        Inr (ps @ shared_volumes [] (volume_names services))))"

section \<open>Backup, deploy, updates, source and staging\<close>

definition backup_block :: "pydict \<Rightarrow> pydict" where
  "backup_block manifest = (case dget_or manifest ''backup'' (PDict []) of PDict b \<Rightarrow> b | _ \<Rightarrow> [])"

definition backup_kind :: "pydict \<Rightarrow> pyval" where
  "backup_kind backup = dget_or backup ''type'' (PStr ''none'')"

definition backup_problems :: "pydict \<Rightarrow> pydict \<Rightarrow> manifest_problem list" where
  "backup_problems manifest services =
     (let backup = backup_block manifest; kind = backup_kind backup in
      problem_if (\<not> is_pdict (dget_or manifest ''backup'' (PDict []))) (In_Backup Backup_Not_Mapping)
      @ (if kind = PStr ''none'' then []
         else problem_if (\<not> py_truthy (dget_or backup ''dump_command'' PNone)) (In_Backup (Dump_Missing kind))
           @ problem_if (\<not> py_truthy (dget_or backup ''restore_command'' PNone)) (In_Backup (Restore_Missing kind))
           @ problem_if (\<not> py_truthy (dget_or backup ''service'' PNone) \<and> length services \<noteq> 1)
               (In_Backup (Backup_Service_Unset (length services)))))"

definition backup_late :: "pydict \<Rightarrow> manifest_problem list" where
  "backup_late backup =
     problem_if (\<not> backup_type_ok (backup_kind backup)) (In_Backup (Backup_Type_Bad (backup_kind backup)))
     @ (case dget backup ''retention'' of Some v \<Rightarrow> problem_if (\<not> retention_ok v) (In_Backup (Retention_Bad v)) | None \<Rightarrow> [])"

definition backup_warned :: "pydict \<Rightarrow> manifest_warning list" where
  "backup_warned backup =
     (if backup_kind backup = PStr ''none'' then [] else map Backup_Warned (backup_command_warnings backup))"

definition updates_late :: "pydict \<Rightarrow> manifest_problem list" where
  "updates_late manifest = (case dget_or manifest ''container_updates'' (PDict []) of
     PDict updates \<Rightarrow>
       (case dget updates ''strategy'' of Some v \<Rightarrow> problem_if (\<not> strategy_ok v) (Strategy_Bad v) | None \<Rightarrow> [])
   | _ \<Rightarrow> [Updates_Not_Mapping])"

definition source_problems :: "pydict \<Rightarrow> manifest_problem list" where
  "source_problems manifest = (let source = dget_or manifest ''source'' (PStr []) in
     problem_if (\<not> py_truthy (dget_or manifest ''id'' (PStr []))) (In_Source Id_Missing)
     @ (if \<not> py_truthy source then [In_Source Source_Missing]
        else if source \<notin> PStr ` set [''bundle'', ''git''] then [In_Source (Source_Bad source)]
        else problem_if (source = PStr ''git'' \<and> \<not> py_truthy (dget_or manifest ''repo'' PNone)) (In_Source Repo_Missing)))"

fun nonempty_str :: "pyval \<Rightarrow> bool" where
  "nonempty_str (PStr s) = (s \<noteq> [])"
| "nonempty_str _ = False"

definition copy_data_problems :: "pyval \<Rightarrow> manifest_problem list" where
  "copy_data_problems copy_data = (case copy_data of
     PNone \<Rightarrow> []
   | PBool _ \<Rightarrow> []
   | PDict d \<Rightarrow>
       (if set (map fst d) \<noteq> {PStr ''sources''} then [In_Staging Copy_Data_Bad]
        else case dget_or d ''sources'' PNone of
          PDict sources \<Rightarrow> problem_if (sources = []
            \<or> \<not> list_all (\<lambda>(k, v). nonempty_str k \<and> (v = PNone \<or> nonempty_str v)) sources) (In_Staging Copy_Sources_Bad)
        | _ \<Rightarrow> [In_Staging Copy_Sources_Bad])
   | _ \<Rightarrow> [In_Staging Copy_Data_Bad])"

definition staging_verdict :: "pydict \<Rightarrow> py_exc + manifest_problem list \<times> manifest_warning list" where
  "staging_verdict manifest = (let staging = dget_or manifest ''staging'' (PDict []) in
     if \<not> py_truthy staging then Inr ([], [])
     else case staging of
       PDict d \<Rightarrow> rbind (sorted_keys (unknown_keys d [''copy_data''])) (\<lambda>unknown.
         Inr (copy_data_problems (dget_or d ''copy_data'' PNone), map Staging_Unknown_Key unknown))
     | _ \<Rightarrow> Inr ([In_Staging Staging_Not_Mapping], []))"

section \<open>The validation\<close>

definition project_problems :: "pydict \<Rightarrow> string \<Rightarrow> manifest_problem list" where
  "project_problems manifest expected_name = (let project = dget_or manifest ''project'' (PStr []) in
     if \<not> py_truthy project then [Top Project_Missing]
     else problem_if (project \<noteq> PStr expected_name) (Top (Project_Mismatch project)))"

definition validate_services ::
    "(pyval \<Rightarrow> bool) \<Rightarrow> pydict \<Rightarrow> int \<Rightarrow> manifest_problem list \<Rightarrow> pydict \<Rightarrow> bool
     \<Rightarrow> py_exc + manifest_problem list \<times> manifest_warning list" where
  "validate_services is_ip manifest version errors services lenient_values =
     rbind (services_verdict services) (\<lambda>(service_errors, service_warnings, service_late).
     rbind (security_problems is_ip manifest services version) (\<lambda>security.
     rbind (writable_problems services version) (\<lambda>writable.
     rbind (staging_verdict manifest) (\<lambda>(staging_errors, staging_warnings).
     let late = service_late @ backup_late (backup_block manifest) @ updates_late manifest;
         errs = errors @ service_errors @ security @ writable @ backup_problems manifest services
           @ map Deploy_Refused (deploy_problems (dget_or manifest ''deploy'' (PDict [])))
           @ source_problems manifest @ staging_errors;
         warnings = service_warnings @ backup_warned (backup_block manifest)
           @ (if list_ex (\<lambda>(n, svc). py_truthy (field_of ''smoke'' svc)) services then [] else [No_Smoke_Tests])
           @ staging_warnings
     in Inr (if lenient_values then (errs, warnings @ map Lenient_Value late) else (errs @ late, warnings))))))"

definition validate_manifest ::
    "(pyval \<Rightarrow> bool) \<Rightarrow> pyval \<Rightarrow> string \<Rightarrow> bool \<Rightarrow> py_exc + manifest_problem list \<times> manifest_warning list" where
  "validate_manifest is_ip v expected_name lenient_values = (case v of
     PDict manifest \<Rightarrow>
       (let declared = problem_if (dhas manifest user_entries_key) (Top User_Entries_Declared) in
        case schema_version manifest of
          PInt version \<Rightarrow>
            (if version < 1 \<or> current_schema_version < version then Inr (declared @ [Top (Schema_Unsupported version)], [])
             else let errors = declared @ project_problems manifest expected_name @ hosts_problems manifest in
               case dget_or manifest ''services'' (PDict []) of
                 PDict services \<Rightarrow> validate_services is_ip manifest version errors services lenient_values
               | _ \<Rightarrow> Inr (errors @ [Top Services_Not_Mapping], []))
        | bad \<Rightarrow> Inr (declared @ [Top (Schema_Not_Int bad)], []))
   | _ \<Rightarrow> Inr ([Top Top_Not_Mapping], []))"

section \<open>The routes\<close>

text \<open>A route: its path, the network alias of its service and the port, as declared.\<close>

type_synonym site_route = "string \<times> string \<times> pyval"

text \<open>\<open>d[key]\<close>.\<close>

definition dindex :: "pydict \<Rightarrow> string \<Rightarrow> py_exc + pyval" where
  "dindex d k = (case dget d k of Some v \<Rightarrow> Inr v | None \<Rightarrow> Inl KeyError)"

definition text_of :: "pyval \<Rightarrow> py_exc + string" where
  "text_of v = (case py_str v of Some s \<Rightarrow> Inr s | None \<Rightarrow> Inl Unmodelled)"

definition path_of_route :: "pyval \<Rightarrow> py_exc + string list" where
  "path_of_route route = (case route of
     PDict r \<Rightarrow> (case dget_or r ''path'' (PStr ''/'') of PStr p \<Rightarrow> Inr [p] | _ \<Rightarrow> Inl Unmodelled)
   | PStr p \<Rightarrow> Inr [p]
   | _ \<Rightarrow> Inr [])"

definition routes_of_service :: "string \<Rightarrow> pyval \<times> pyval \<Rightarrow> py_exc + site_route list" where
  "routes_of_service project entry = (case entry of (svc_name, v) \<Rightarrow>
     rbind (text_of svc_name) (\<lambda>name.
     case v of
       PDict svc \<Rightarrow>
         (if \<not> py_truthy (dget_or svc ''routes'' PNone) then Inr []
          else rbind (dindex svc ''port'') (\<lambda>port.
            rbind (py_iter (dget_or svc ''routes'' (PList []))) (\<lambda>routes.
            rbind (rconcat path_of_route routes) (\<lambda>ps.
            Inr (map (\<lambda>p. (p, project @ ''-'' @ name, port)) ps)))))
     | _ \<Rightarrow> Inl AttributeError))"

definition route_key :: "site_route \<Rightarrow> int \<times> string" where
  "route_key r = (- int (length (fst r)), fst r)"

definition get_all_routes :: "pydict \<Rightarrow> py_exc + site_route list" where
  "get_all_routes manifest =
     rbind (dindex manifest ''project'') (\<lambda>p.
     rbind (text_of p) (\<lambda>project.
     case dget_or manifest ''services'' (PDict []) of
       PDict services \<Rightarrow> rbind (rconcat (routes_of_service project) services) (\<lambda>routes. Inr (sort_key route_key routes))
     | _ \<Rightarrow> Inl AttributeError))"

end
