(* ===== verification/Caddy_Site.thy ===== *)
theory Caddy_Site
  imports Manifest
begin

text \<open>
  \<^verbatim>\<open>src/boxmunge/caddy.py\<close>: the Caddy site block of a project, in production and in
  staging, as text.  \<open>prepare_caddy_config\<close> writes that text, or an operator's own
  file, through the journal of site files.
\<close>

section \<open>The access log\<close>

definition line_feed :: char where "line_feed = CHR 0x0A"

definition quoted_word :: "string \<Rightarrow> string" where
  "quoted_word s = [CHR 0x22] @ s @ [CHR 0x22]"

definition access_log_field_limits :: "(string \<times> nat) list" where
  "access_log_field_limits = [(''request>uri'', 2048), (''request>host'', 256), (''request>method'', 32),
     (''user_agent'', 512), (''user_id'', 256)]"

definition access_log_dropped :: "string list" where
  "access_log_dropped = [''request>headers'', ''request>tls'', ''resp_headers'']"

definition longer_than_chunks :: "nat \<Rightarrow> nat list" where
  "longer_than_chunks limit = replicate (limit div 1000) 1000 @ (if limit mod 1000 \<noteq> 0 then [limit mod 1000] else [])"

definition longer_than :: "nat \<Rightarrow> string" where
  "longer_than limit = ''^('' @ concat (map (\<lambda>n. ''.{'' @ show_nat n @ ''}'') (longer_than_chunks limit)) @ '').+$''"

definition indent :: "nat \<Rightarrow> string \<Rightarrow> string" where
  "indent n s = replicate n (CHR '' '') @ s"

definition access_log_lines :: "string list" where
  "access_log_lines =
     [indent 4 ''log_append user_agent {http.request.header.User-Agent}'',
      indent 4 ''log {'', indent 8 ''output stdout'', indent 8 ''format filter {'',
      indent 12 ''wrap json'', indent 12 ''fields {'']
     @ map (\<lambda>name. indent 16 (name @ '' delete'')) access_log_dropped
     @ map (\<lambda>(name, limit). indent 16 (name @ '' regexp '' @ quoted_word (longer_than limit) @ '' '' @ quoted_word ''${1}''))
         access_log_field_limits
     @ [indent 12 ''}'', indent 8 ''}'', indent 4 ''}'']"

section \<open>The site block\<close>

definition route_lines :: "string \<Rightarrow> string \<Rightarrow> string \<Rightarrow> string list" where
  "route_lines path upstream port =
     [indent 4 (if path = ''/'' then ''handle {'' else ''handle '' @ path @ '' {''),
      indent 8 (''reverse_proxy '' @ upstream @ '':'' @ port), indent 4 ''}'']"

text \<open>\<open>", ".join(hosts)\<close>: each host must be text.\<close>

definition host_texts :: "pyval \<Rightarrow> py_exc + string list" where
  "host_texts hosts = rbind (py_iter hosts) (\<lambda>hs.
     if list_all is_pstr hs then Inr (map (\<lambda>h. case h of PStr s \<Rightarrow> s | _ \<Rightarrow> []) hs) else Inl TypeError)"

definition lines_of_routes :: "(string \<Rightarrow> string) \<Rightarrow> site_route list \<Rightarrow> py_exc + string list" where
  "lines_of_routes upstream routes =
     rconcat (\<lambda>(path, alias, port). rbind (text_of port) (\<lambda>n. Inr (route_lines path (upstream alias) n))) routes"

definition site_text :: "string list \<Rightarrow> string list \<Rightarrow> string list \<Rightarrow> string" where
  "site_text hosts extra body =
     join [line_feed] ([join '', '' hosts @ '' {''] @ access_log_lines @ extra @ body @ [''}'', []])"

definition generate_caddy_config :: "pydict \<Rightarrow> py_exc + string" where
  "generate_caddy_config manifest =
     rbind (dindex manifest ''hosts'') (\<lambda>hosts.
     rbind (get_all_routes manifest) (\<lambda>routes.
     rbind (host_texts hosts) (\<lambda>hs.
     rbind (lines_of_routes (\<lambda>a. a) routes) (\<lambda>body.
     Inr (site_text hs [] body)))))"

text \<open>\<open>s.replace(old, new, 1)\<close>.\<close>

fun replace_first :: "string \<Rightarrow> string \<Rightarrow> string \<Rightarrow> string" where
  "replace_first old new [] = (if old = [] then new else [])"
| "replace_first old new (c # cs) =
     (if starts_with old (c # cs) then new @ drop (length old) (c # cs) else c # replace_first old new cs)"

definition basicauth_lines :: "(string \<times> string) option \<Rightarrow> string list" where
  "basicauth_lines auth = (case auth of
     None \<Rightarrow> []
   | Some (username, password_hash) \<Rightarrow>
       [indent 4 ''basicauth {'', indent 8 (username @ '' '' @ password_hash), indent 4 ''}''])"

text \<open>
  A staging host is \<open>f"staging.{h}"\<close>, so here a host that is not text is turned into
  its text.
\<close>

definition generate_staging_caddy_config :: "pydict \<Rightarrow> (string \<times> string) option \<Rightarrow> py_exc + string" where
  "generate_staging_caddy_config manifest auth =
     rbind (dindex manifest ''hosts'') (\<lambda>hosts.
     rbind (dindex manifest ''project'') (\<lambda>p.
     rbind (get_all_routes manifest) (\<lambda>routes.
     rbind (py_iter hosts) (\<lambda>hs.
     rbind (rmap text_of hs) (\<lambda>hosts.
     rbind (text_of p) (\<lambda>project.
     rbind (lines_of_routes (replace_first (project @ ''-'') (project @ ''-staging-'')) routes) (\<lambda>body.
     Inr (site_text (map (\<lambda>h. ''staging.'' @ h) hosts) (basicauth_lines auth) body))))))))"

section \<open>Which text a project's site gets\<close>

text \<open>An override file on the host replaces the generated block; \<open>None\<close> when there is none.\<close>

definition site_content :: "string option \<Rightarrow> pydict \<Rightarrow> py_exc + string" where
  "site_content override manifest = (case override of
     Some content \<Rightarrow> Inr content
   | None \<Rightarrow> generate_caddy_config manifest)"

end
