(* ===== verification/Manifest_Laws.thy ===== *)
theory Manifest_Laws
  imports Caddy_Site
begin

text \<open>
  What the validation of a manifest promises to what is generated from it: the
  Caddy site block of an accepted manifest exists, and its text says what the
  manifest declares and nothing else, in production and in staging.
\<close>

section \<open>Text without separators\<close>

definition plain_text :: "string \<Rightarrow> bool" where
  "plain_text s \<longleftrightarrow> s \<noteq> [] \<and> list_all (\<lambda>c. \<not> caddy_special c) s"

lemma line_feed_special [simp]: "caddy_special line_feed"
  by code_simp

lemma plain_no_line_feed: "plain_text s \<Longrightarrow> line_feed \<notin> set s"
  by (auto simp: plain_text_def list_all_iff)

lemma digit_char_not_line_feed:
  assumes "n < 10"
  shows "digit_char n \<noteq> line_feed"
proof
  assume "digit_char n = line_feed"
  moreover have "code line_feed = 10" by code_simp
  ultimately show False using code_digit_char [OF assms] by simp
qed

lemma show_nat_no_line_feed: "line_feed \<notin> set (show_nat n)"
proof (induction n rule: show_nat.induct)
  case (1 n)
  have "digit_char (n mod 10) \<noteq> line_feed" "n < 10 \<Longrightarrow> digit_char n \<noteq> line_feed"
    by (simp_all add: digit_char_not_line_feed)
  then show ?case using 1 by (subst show_nat.simps) auto
qed

lemma split_on_chars: "c \<in> set s \<Longrightarrow> c = sep \<or> (\<exists>w\<in>set (split_on sep s). c \<in> set w)"
proof (induction s)
  case (Cons d s)
  then show ?case by (cases "split_on sep s") (auto split: if_splits)
qed simp

lemma host_name_plain:
  assumes "host_name s"
  shows "plain_text s"
proof -
  obtain tld labels where r: "rev (split_on (CHR ''.'') s) = tld # labels"
    using assms by (auto simp: host_name_def split: list.splits)
  have words: "split_on (CHR ''.'') s = rev labels @ [tld]" using r by (metis rev.simps(2) rev_rev_ident)
  have ok: "list_all is_lower_az tld" "list_all host_label labels" "2 \<le> length tld"
    using assms r by (auto simp: host_name_def)
  have dot: "\<not> caddy_special (CHR ''.'')" by code_simp
  have "\<not> caddy_special c" if "c \<in> set w" "w \<in> set labels \<or> w = tld" for c w
    using that ok is_lower_alnum_plain hyphen_plain
    by (auto simp: list_all_iff host_label_def is_lower_alnum_def)
  then have "\<not> caddy_special c" if "c \<in> set s" for c
    using split_on_chars [OF that, of "CHR ''.''"] words dot by auto
  moreover have "s \<noteq> []"
  proof
    assume "s = []"
    then have "rev (split_on (CHR ''.'') s) = [[]]" by simp
    then show False using r ok(3) by simp
  qed
  ultimately show ?thesis by (simp add: plain_text_def list_all_iff)
qed

lemma accepted_host:
  assumes "host_problem v = None \<or> host_problem v = Some Host_Wildcard"
  shows "\<exists>s. v = PStr s \<and> plain_text s"
proof -
  obtain s where v: "v = PStr s" using assms by (cases v) (auto simp: host_problem_def)
  then consider "s = ''localhost''" | "host_name s" | t where "s = ''*.'' @ t" "host_name t"
    using assms by (auto simp: host_problem_def starts_with_iff split: if_splits)
  then have "plain_text s"
  proof cases
    case 1
    have "plain_text ''localhost''" by code_simp
    then show ?thesis using 1 by simp
  next
    case 3
    have "plain_text ''*.''" by code_simp
    then show ?thesis using 3 host_name_plain [OF 3(2)] by (simp add: plain_text_def)
  qed (rule host_name_plain)
  then show ?thesis using v by blast
qed

lemma route_path_plain:
  assumes "route_path s"
  shows "plain_text s"
proof -
  obtain c cs where s: "s = c # cs" and c: "c = slash"
    and body: "list_all route_char (if cs \<noteq> [] \<and> last cs = CHR ''*'' then butlast cs else cs)"
    using assms by (auto simp: route_path_def split: list.splits)
  have ends: "\<not> caddy_special slash" "\<not> caddy_special (CHR ''*'')" by code_simp+
  have "\<not> caddy_special d" if "d \<in> set cs" for d
  proof (cases "cs \<noteq> [] \<and> last cs = CHR ''*''")
    case True
    then have "cs = butlast cs @ [CHR ''*'']" by (metis append_butlast_last_id)
    then have "d \<in> set (butlast cs) \<or> d = CHR ''*''" using that by (metis Un_iff empty_iff empty_set insert_iff list.simps(15) set_append)
    then show ?thesis using body True ends(2) route_char_plain by (auto simp: list_all_iff)
  next
    case False
    then have "route_char d" using body that by (auto simp: list_all_iff split: if_splits)
    then show ?thesis by (rule route_char_plain)
  qed
  then show ?thesis using s c ends(1) by (auto simp: plain_text_def list_all_iff)
qed

section \<open>The parts of an accepted manifest\<close>

lemma problem_if_Nil [simp]: "problem_if b p = [] \<longleftrightarrow> \<not> b"
  by (simp add: problem_if_def)

lemma rmap_Inr_member: "rmap f xs = Inr ys \<Longrightarrow> x \<in> set xs \<Longrightarrow> \<exists>y\<in>set ys. f x = Inr y"
  by (induction xs arbitrary: ys) (auto simp: rbind_eq_Inr)

lemma accepted_parts:
  assumes "validate_manifest is_ip (PDict m) name lenient = Inr ([], ws)"
  shows "project_problems m name = []" "hosts_problems m = []"
    and "\<exists>services. dget_or m ''services'' (PDict []) = PDict services
      \<and> (\<forall>e\<in>set services. \<exists>w l. service_verdict e = Inr ([], w, l))"
proof -
  obtain version services where
    m: "dget_or m ''services'' (PDict []) = PDict services"
    and v: "validate_services is_ip m version (problem_if (dhas m user_entries_key) (Top User_Entries_Declared)
              @ project_problems m name @ hosts_problems m) services lenient = Inr ([], ws)"
    using assms by (auto simp: validate_manifest_def Let_def split: pyval.splits if_splits)
  obtain se sw sl where s: "services_verdict services = Inr (se, sw, sl)"
    and empty: "problem_if (dhas m user_entries_key) (Top User_Entries_Declared) @ project_problems m name @ hosts_problems m = []"
      "se = []"
    using v by (auto simp: validate_services_def rbind_eq_Inr Let_def split: if_splits)
  show "project_problems m name = []" "hosts_problems m = []" using empty(1) by simp_all
  obtain vs where vs: "rmap service_verdict services = Inr vs" "concat (map fst vs) = []"
    using s empty(2) by (auto simp: services_verdict_def rbind_eq_Inr split: if_splits)
  have "\<exists>w l. service_verdict e = Inr ([], w, l)" if e: "e \<in> set services" for e
  proof -
    obtain y where y: "y \<in> set vs" "service_verdict e = Inr y" using rmap_Inr_member [OF vs(1) e] by blast
    moreover have "fst y = []" using vs(2) y(1) by auto
    ultimately show ?thesis by (metis prod.collapse)
  qed
  then show "\<exists>services. dget_or m ''services'' (PDict []) = PDict services
      \<and> (\<forall>e\<in>set services. \<exists>w l. service_verdict e = Inr ([], w, l))" using m by blast
qed

lemma accepted_project: "project_problems m name = [] \<Longrightarrow> dget m ''project'' = Some (PStr name)"
  by (auto simp: project_problems_def dget_or_def Let_def split: if_splits option.splits)

lemma accepted_host_entry:
  "host_entry_problems b e = [] \<Longrightarrow> host_problem e = None \<or> host_problem e = Some Host_Wildcard"
  by (cases "host_problem e"; simp add: host_entry_problems_def split: host_problem.splits)

lemma accepted_hosts:
  assumes "hosts_problems m = []"
  shows "\<exists>hosts. dget m ''hosts'' = Some (PList (map PStr hosts)) \<and> hosts \<noteq> [] \<and> list_all plain_text hosts"
proof -
  obtain es where es: "dget m ''hosts'' = Some (PList es)" "es \<noteq> []"
    and ok: "\<forall>e\<in>set es. host_problem e = None \<or> host_problem e = Some Host_Wildcard"
  proof -
    have t: "py_truthy (dget_or m ''hosts'' (PList []))" using assms by (auto simp: hosts_problems_def Let_def split: if_splits)
    then obtain es where es: "dget_or m ''hosts'' (PList []) = PList es"
      using assms by (auto simp: hosts_problems_def Let_def split: pyval.splits)
    then have "dget m ''hosts'' = Some (PList es)" "es \<noteq> []" using t by (auto simp: dget_or_def split: option.splits)
    moreover have "\<forall>e\<in>set es. host_problem e = None \<or> host_problem e = Some Host_Wildcard"
      using assms t es accepted_host_entry by (auto simp: hosts_problems_def Let_def)
    ultimately show ?thesis using that by blast
  qed
  have "\<exists>hosts. es = map PStr hosts \<and> list_all plain_text hosts" using ok
  proof (induction es)
    case (Cons e es)
    then obtain hosts where "es = map PStr hosts" "list_all plain_text hosts" by auto
    moreover obtain s where "e = PStr s" "plain_text s" using accepted_host [of e] Cons.prems by auto
    ultimately show ?case by (intro exI [of _ "s # hosts"]) simp
  qed simp
  then show ?thesis using es by auto
qed

section \<open>The routes of an accepted manifest\<close>

definition site_route_ok :: "string \<Rightarrow> site_route \<Rightarrow> bool" where
  "site_route_ok project r \<longleftrightarrow> route_path (fst r)
     \<and> (\<exists>svc. fst (snd r) = project @ ''-'' @ svc \<and> lower_name 62 svc)
     \<and> (\<exists>n. snd (snd r) = PInt n \<and> 1 \<le> n \<and> n \<le> max_port)"

text \<open>The routes a manifest declares: a path of a route of a service, the service's alias and its port.\<close>

definition declared_route :: "string \<Rightarrow> pydict \<Rightarrow> site_route \<Rightarrow> bool" where
  "declared_route project services r \<longleftrightarrow> (\<exists>n svc rs d. (PStr n, PDict svc) \<in> set services
     \<and> dget svc ''routes'' = Some (PList rs) \<and> PDict d \<in> set rs \<and> dget d ''path'' = Some (PStr (fst r))
     \<and> fst (snd r) = project @ ''-'' @ n \<and> dget svc ''port'' = Some (snd (snd r)))"

definition written_path :: "pyval \<Rightarrow> string" where
  "written_path r = (case r of PDict d \<Rightarrow> (case dget d ''path'' of Some (PStr p) \<Rightarrow> p | _ \<Rightarrow> []) | _ \<Rightarrow> [])"

lemma accepted_route:
  assumes "fst (route_problems name i r) = []"
  shows "path_of_route r = Inr [written_path r] \<and> route_path (written_path r)
    \<and> (\<exists>d. r = PDict d \<and> dget d ''path'' = Some (PStr (written_path r)))"
proof -
  obtain d v where d: "r = PDict d" "dget d ''path'' = Some v" "route_path_problem v = None"
    using assms by (auto simp: route_problems_def split: pyval.splits option.splits)
  then obtain p where "v = PStr p" "route_path p"
    by (auto simp: route_path_problem_def split: pyval.splits if_splits)
  then show ?thesis using d by (simp add: path_of_route_def dget_or_def written_path_def)
qed

lemma rconcat_singletons: "(\<And>x. x \<in> set xs \<Longrightarrow> f x = Inr [g x]) \<Longrightarrow> rconcat f xs = Inr (map g xs)"
  by (induction xs) (auto simp: rconcat_def rbind_eq_Inr)

lemma rconcat_all:
  assumes "\<And>x. x \<in> set xs \<Longrightarrow> \<exists>ys. f x = Inr ys \<and> (\<forall>y. y \<in> set ys \<longleftrightarrow> P x y)"
  shows "\<exists>ys. rconcat f xs = Inr ys \<and> (\<forall>y. y \<in> set ys \<longleftrightarrow> (\<exists>x\<in>set xs. P x y))"
  using assms
proof (induction xs)
  case Nil
  then show ?case by (simp add: rconcat_def)
next
  case (Cons x xs)
  then obtain ys zs where "f x = Inr ys" "\<forall>y. y \<in> set ys \<longleftrightarrow> P x y"
    "rconcat f xs = Inr zs" "\<forall>y. y \<in> set zs \<longleftrightarrow> (\<exists>x\<in>set xs. P x y)" by fastforce
  then show ?case by (auto simp: rconcat_def rbind_eq_Inr)
qed

lemma accepted_service_routes:
  assumes "service_verdict (n, v) = Inr ([], w, l)"
  shows "\<exists>rs. routes_of_service project (n, v) = Inr rs \<and> list_all (site_route_ok project) rs
    \<and> (\<forall>r. r \<in> set rs \<longleftrightarrow> declared_route project [(n, v)] r)"
proof -
  obtain svc where v: "v = PDict svc"
    using assms by (auto simp: service_verdict_def Let_def split: pyval.splits)
  have "service_name_ok n"
    using assms v by (auto simp: service_verdict_def Let_def rbind_eq_Inr split: if_splits prod.splits)
  then obtain name where n: "n = PStr name" "lower_name 62 name"
    by (auto simp: service_name_ok_def split: pyval.splits)
  show ?thesis
  proof (cases "py_truthy (dget_or svc ''routes'' PNone)")
    case False
    then have "\<not> (dget svc ''routes'' = Some (PList rs) \<and> x \<in> set rs)" for rs x
      by (auto simp: dget_or_def)
    then have "\<not> declared_route project [(n, v)] r" for r by (auto simp: declared_route_def v)
    then show ?thesis using False by (simp add: routes_of_service_def n v text_of_def)
  next
    case True
    then have "dhas svc ''routes''" by (auto simp: dhas_def dget_or_def split: option.splits)
    then have "declared_service_verdict n svc = ([], w, l)" and same: "dget_or svc ''routes'' (PList []) = dget_or svc ''routes'' PNone"
      using assms v by (auto simp: service_verdict_def is_user_entry_def Let_def dhas_def dget_or_def rbind_eq_Inr
          split: if_splits prod.splits)
    then have verdict: "fst (declared_service_verdict n svc) = []" by simp
    obtain port where port: "dget svc ''port'' = Some port" "port_problem port = None"
      using verdict True same by (auto simp: declared_service_verdict_def Let_def split: option.splits)
    then obtain k where k: "port = PInt k" "1 \<le> k" "k \<le> max_port"
      by (auto simp: port_problem_def split: pyval.splits if_splits)
    have routes: "concat (map fst (case dget_or svc ''routes'' PNone of
        PList rs \<Rightarrow> map (\<lambda>(i, r). route_problems n i r) (enumerate 0 rs)
      | _ \<Rightarrow> [([In_Service n Routes_Not_List], [])])) = []"
      using verdict True same by (simp add: declared_service_verdict_def Let_def)
    then obtain rs where rs: "dget_or svc ''routes'' PNone = PList rs" by (cases "dget_or svc ''routes'' PNone") auto
    have ok: "fst (route_problems n i r) = []" if "(i, r) \<in> set (enumerate 0 rs)" for i r
      using routes that by (auto simp: rs)
    have each: "path_of_route r = Inr [written_path r] \<and> route_path (written_path r)
        \<and> (\<exists>d. r = PDict d \<and> dget d ''path'' = Some (PStr (written_path r)))" if r: "r \<in> set rs" for r
    proof -
      obtain i where "i < length rs" "rs ! i = r" using r unfolding in_set_conv_nth by blast
      then have "(i, r) \<in> set (enumerate 0 rs)" by (simp add: in_set_enumerate_eq)
      then show ?thesis using accepted_route [OF ok] by blast
    qed
    let ?rs = "map (\<lambda>r. (written_path r, project @ ''-'' @ name, PInt k)) rs"
    have "rconcat path_of_route rs = Inr (map written_path rs)" by (rule rconcat_singletons) (rule each [THEN conjunct1])
    then have "routes_of_service project (n, v) = Inr ?rs"
      using True rs same port k by (simp add: routes_of_service_def n v text_of_def dindex_def comp_def)
    moreover have "list_all (site_route_ok project) ?rs" using each k n by (auto simp: list_all_iff site_route_ok_def)
    moreover have "r \<in> set ?rs \<longleftrightarrow> declared_route project [(n, v)] r" for r
    proof -
      have there: "dget svc ''routes'' = Some (PList rs)" using rs True by (auto simp: dget_or_def split: option.splits)
      have "declared_route project [(n, v)] r \<longleftrightarrow> (\<exists>d. PDict d \<in> set rs \<and> dget d ''path'' = Some (PStr (fst r)))
          \<and> fst (snd r) = project @ ''-'' @ name \<and> snd (snd r) = PInt k"
        using there port(1) k(1) by (auto simp: declared_route_def n v)
      also have "(\<exists>d. PDict d \<in> set rs \<and> dget d ''path'' = Some (PStr (fst r))) \<longleftrightarrow> fst r \<in> written_path ` set rs"
      proof
        assume "\<exists>d. PDict d \<in> set rs \<and> dget d ''path'' = Some (PStr (fst r))"
        then obtain d where "PDict d \<in> set rs" "written_path (PDict d) = fst r" by (auto simp: written_path_def)
        then show "fst r \<in> written_path ` set rs" by (metis image_eqI)
      next
        assume "fst r \<in> written_path ` set rs"
        then obtain x where x: "x \<in> set rs" "fst r = written_path x" by blast
        then show "\<exists>d. PDict d \<in> set rs \<and> dget d ''path'' = Some (PStr (fst r))" using each [OF x(1)] by metis
      qed
      finally show ?thesis by (cases r) auto
    qed
    ultimately show ?thesis by blast
  qed
qed

lemma accepted_routes:
  assumes "validate_manifest is_ip (PDict m) project lenient = Inr ([], ws)"
  shows "\<exists>routes services. get_all_routes m = Inr routes \<and> list_all (site_route_ok project) routes
    \<and> dget_or m ''services'' (PDict []) = PDict services \<and> (\<forall>r. r \<in> set routes \<longleftrightarrow> declared_route project services r)"
proof -
  obtain services where s: "dget_or m ''services'' (PDict []) = PDict services"
    and ok: "\<forall>e\<in>set services. \<exists>w l. service_verdict e = Inr ([], w, l)"
    using accepted_parts(3) [OF assms] by blast
  have each: "\<exists>rs. routes_of_service project e = Inr rs \<and> (\<forall>r. r \<in> set rs \<longleftrightarrow> declared_route project [e] r)" if mem: "e \<in> set services" for e
  proof -
    obtain n v where e: "e = (n, v)" by (rule prod.exhaust)
    obtain w l where "service_verdict (n, v) = Inr ([], w, l)" using ok mem e by blast
    from accepted_service_routes [OF this, of project] show ?thesis unfolding e by blast
  qed
  obtain rs where rs: "rconcat (routes_of_service project) services = Inr rs"
    "\<forall>r. r \<in> set rs \<longleftrightarrow> (\<exists>e\<in>set services. declared_route project [e] r)"
    using rconcat_all [where xs = services and f = "routes_of_service project" and P = "\<lambda>e. declared_route project [e]", OF each] by blast
  have route: "site_route_ok project r" if mem: "r \<in> set rs" for r
  proof -
    obtain e where e: "e \<in> set services" "declared_route project [e] r" using rs(2) mem by blast
    obtain w l where "service_verdict (fst e, snd e) = Inr ([], w, l)" using ok e(1) by auto
    from accepted_service_routes [OF this, of project, unfolded prod.collapse] obtain rs where
      "list_all (site_route_ok project) rs" "r \<in> set rs \<longleftrightarrow> declared_route project [e] r" by blast
    then show ?thesis using e(2) by (simp add: list_all_iff)
  qed
  have all: "(\<exists>e\<in>set services. declared_route project [e] r) \<longleftrightarrow> declared_route project services r" for r
    unfolding declared_route_def by (simp only: list.set singleton_iff) blast
  have "dindex m ''project'' = Inr (PStr project)"
    using accepted_project [OF accepted_parts(1) [OF assms]] by (simp add: dindex_def)
  then have "get_all_routes m = Inr (sort_key route_key rs)" using s rs(1) by (simp add: get_all_routes_def text_of_def)
  moreover have "list_all (site_route_ok project) (sort_key route_key rs)" using route by (simp add: list_all_iff)
  moreover have "\<forall>r. r \<in> set (sort_key route_key rs) \<longleftrightarrow> declared_route project services r"
    using rs(2) unfolding all set_sort .
  ultimately show ?thesis using s by blast
qed

section \<open>The text of the site\<close>

definition port_text :: "pyval \<Rightarrow> string" where
  "port_text v = (case v of PInt n \<Rightarrow> show_int n | _ \<Rightarrow> [])"

definition declared_lines :: "(string \<Rightarrow> string) \<Rightarrow> site_route list \<Rightarrow> string list" where
  "declared_lines upstream routes = concat (map (\<lambda>(p, a, v). route_lines p (upstream a) (port_text v)) routes)"

lemma lines_of_accepted_routes:
  assumes "list_all (site_route_ok project) routes"
    and "\<And>svc. upstream (project @ ''-'' @ svc) = upstream' (project @ ''-'' @ svc)"
  shows "lines_of_routes upstream routes = Inr (declared_lines upstream' routes)"
  using assms(1)
proof (induction routes)
  case Nil
  then show ?case by (simp add: lines_of_routes_def rconcat_def declared_lines_def)
next
  case (Cons r routes)
  obtain p svc n where r: "r = (p, project @ ''-'' @ svc, PInt n)"
    using Cons.prems by (cases r) (auto simp: site_route_ok_def)
  have "lines_of_routes upstream routes = Inr (declared_lines upstream' routes)" using Cons by simp
  moreover have "upstream (project @ CHR ''-'' # svc) = upstream' (project @ CHR ''-'' # svc)" using assms(2) [of svc] by simp
  ultimately show ?case
    by (auto simp: lines_of_routes_def rconcat_def rbind_eq_Inr declared_lines_def r text_of_def port_text_def)
qed

lemma set_join: "c \<in> set (join sep xs) \<Longrightarrow> c \<in> set sep \<or> (\<exists>x\<in>set xs. c \<in> set x)"
  by (induction sep xs rule: join.induct) auto

definition one_line :: "string \<Rightarrow> bool" where
  "one_line s \<longleftrightarrow> line_feed \<notin> set s"

lemma access_log_one_line: "list_all one_line access_log_lines"
  by code_simp

lemma route_lines_one_line:
  assumes "one_line p" "one_line a" "one_line n"
  shows "list_all one_line (route_lines p a n)"
proof -
  have "line_feed \<notin> set ''handle {''" "line_feed \<notin> set '' {''" "line_feed \<notin> set ''reverse_proxy :''"
    "line_feed \<noteq> CHR '' ''" "line_feed \<noteq> CHR ''}''" by code_simp+
  then show ?thesis using assms by (auto simp: route_lines_def one_line_def indent_def)
qed

lemma declared_lines_one_line:
  assumes "list_all (site_route_ok project) routes" "plain_text project"
  shows "list_all one_line (declared_lines (\<lambda>a. a) routes)"
proof -
  have "list_all one_line (route_lines p a (port_text v))" if "(p, a, v) \<in> set routes" for p a v
  proof (rule route_lines_one_line)
    have ok: "site_route_ok project (p, a, v)" using assms(1) that by (auto simp: list_all_iff)
    then show "one_line p" using route_path_plain plain_no_line_feed by (auto simp: site_route_ok_def one_line_def)
    obtain svc n where "a = project @ ''-'' @ svc" "lower_name 62 svc" and v: "v = PInt n" "1 \<le> n"
      using ok by (auto simp: site_route_ok_def)
    then show "one_line a"
      using lower_name_plain [of 62 svc] plain_no_line_feed [OF assms(2)] plain_no_line_feed [of svc] hyphen_plain
        line_feed_special
      by (auto simp: one_line_def plain_text_def)
    show "one_line (port_text v)"
      using v show_nat_no_line_feed by (simp add: one_line_def port_text_def show_int_def)
  qed
  then show ?thesis by (auto simp: declared_lines_def list_all_iff)
qed

text \<open>C5. The site block of an accepted manifest, of a project whose name is a project name, says what the
  manifest declares and nothing else: its hosts are the declared ones, plain host texts; its routes are exactly
  the declared ones, each to the alias of the service that declares it at the port of that service, with a plain
  path and a port from 1 to 65535, and generating it never fails; read line by line, the text is the host line,
  the fixed access-log lines, three lines for each route and the closing brace, so no declared value can
  add a directive.\<close>

theorem accepted_site:
  assumes "validate_manifest is_ip (PDict m) project lenient = Inr ([], ws)" and "lower_name 62 project"
  shows "\<exists>hosts routes services text. dget m ''hosts'' = Some (PList (map PStr hosts)) \<and> list_all plain_text hosts
    \<and> get_all_routes m = Inr routes \<and> list_all (site_route_ok project) routes
    \<and> dget_or m ''services'' (PDict []) = PDict services \<and> (\<forall>r. r \<in> set routes \<longleftrightarrow> declared_route project services r)
    \<and> generate_caddy_config m = Inr text
    \<and> split_on line_feed text
        = [join '', '' hosts @ '' {''] @ access_log_lines @ declared_lines (\<lambda>a. a) routes @ [''}'', []]"
proof -
  obtain hosts where h: "dget m ''hosts'' = Some (PList (map PStr hosts))" "hosts \<noteq> []" "list_all plain_text hosts"
    using accepted_hosts [OF accepted_parts(2) [OF assms(1)]] by blast
  obtain routes services where r: "get_all_routes m = Inr routes" "list_all (site_route_ok project) routes"
    "dget_or m ''services'' (PDict []) = PDict services" "\<forall>r. r \<in> set routes \<longleftrightarrow> declared_route project services r"
    using accepted_routes [OF assms(1)] by blast
  have "host_texts (PList (map PStr hosts)) = Inr hosts"
    by (simp add: host_texts_def list_all_iff comp_def)
  then have g: "generate_caddy_config m = Inr (site_text hosts [] (declared_lines (\<lambda>a. a) routes))"
    using h(1) r lines_of_accepted_routes [OF r(2), of "\<lambda>a. a" "\<lambda>a. a"]
    by (simp add: generate_caddy_config_def dindex_def)
  have "one_line (join '', '' hosts @ '' {'')"
  proof -
    have "line_feed \<notin> set '', ''" "line_feed \<notin> set '' {''" by code_simp+
    then show ?thesis
      using set_join [of line_feed "'', ''" hosts] h(3) plain_no_line_feed by (auto simp: one_line_def list_all_iff)
  qed
  moreover have "plain_text project" using lower_name_plain [OF assms(2)] by (simp add: plain_text_def)
  then have "list_all one_line (declared_lines (\<lambda>a. a) routes)" by (rule declared_lines_one_line [OF r(2)])
  moreover have "one_line ''}''" by code_simp
  ultimately have "list_all one_line ([join '', '' hosts @ '' {''] @ access_log_lines
      @ declared_lines (\<lambda>a. a) routes @ [''}'', []])"
    using access_log_one_line by (simp add: one_line_def)
  then have "split_on line_feed (site_text hosts [] (declared_lines (\<lambda>a. a) routes))
      = [join '', '' hosts @ '' {''] @ access_log_lines @ declared_lines (\<lambda>a. a) routes @ [''}'', []]"
    unfolding site_text_def append_Nil by (intro split_on_join) (auto simp: list_all_iff one_line_def)
  then show ?thesis using h r g by blast
qed

definition example_site_manifest :: pydict where
  "example_site_manifest = [(PStr ''schema_version'', PInt 3), (PStr ''project'', PStr ''shop''), (PStr ''id'', PStr ''01J''),
     (PStr ''source'', PStr ''bundle''), (PStr ''hosts'', PList [PStr ''shop.example.org'']),
     (PStr ''services'', PDict [(PStr ''web'', PDict [(PStr ''port'', PInt 8080), (PStr ''routes'',
        PList [PDict [(PStr ''path'', PStr ''/'')], PDict [(PStr ''path'', PStr ''/api/*'')]])])])]"

lemma example_site_accepted:
  "validate_manifest (\<lambda>_. True) (PDict example_site_manifest) ''shop'' False = Inr ([], [No_Limits (PStr ''web''), No_Smoke_Tests])"
  "lower_name 62 ''shop''"
  by code_simp+

theorem accepted_site_witness:
  "\<exists>text. generate_caddy_config example_site_manifest = Inr text
     \<and> hd (split_on line_feed text) = ''shop.example.org {''"
proof -
  obtain hosts routes site where h: "dget example_site_manifest ''hosts'' = Some (PList (map PStr hosts))"
    and t: "generate_caddy_config example_site_manifest = Inr site"
      "split_on line_feed site = [join '', '' hosts @ '' {''] @ access_log_lines @ declared_lines (\<lambda>a. a) routes @ [''}'', []]"
    using accepted_site [OF example_site_accepted] by blast
  have "dget example_site_manifest ''hosts'' = Some (PList [PStr ''shop.example.org''])" by code_simp
  then have "map PStr hosts = [PStr ''shop.example.org'']" using h by simp
  then have "hosts = [''shop.example.org'']" by (simp add: map_eq_Cons_conv)
  then show ?thesis using t by simp
qed

section \<open>Staging\<close>

lemma starts_with_self [simp]: "starts_with s (s @ t)"
  by (induction s) auto

lemma replace_first_prefix: "old \<noteq> [] \<Longrightarrow> replace_first old new (old @ s) = new @ s"
proof -
  assume "old \<noteq> []"
  then obtain c cs where e: "old @ s = c # cs" by (cases "old @ s") auto
  have "starts_with old (c # cs)" "drop (length old) (c # cs) = s"
    using starts_with_self [of old s] e by (simp, metis append_eq_conv_conj)
  then show ?thesis unfolding e by simp
qed

definition staging_alias :: "string \<Rightarrow> string \<Rightarrow> string" where
  "staging_alias project alias = project @ ''-staging-'' @ drop (length project + 1) alias"

text \<open>The staging site of an accepted manifest has every production host below \<open>staging.\<close> and every
  production route, at the same path and port, to the staging alias of the same service; none of its routes
  leads to a production alias.\<close>

theorem staging_site_targets:
  assumes "validate_manifest is_ip (PDict m) project lenient = Inr ([], ws)"
  shows "\<exists>hosts routes. dget m ''hosts'' = Some (PList (map PStr hosts)) \<and> get_all_routes m = Inr routes
    \<and> generate_staging_caddy_config m auth = Inr (site_text (map (\<lambda>h. ''staging.'' @ h) hosts)
        (basicauth_lines auth) (declared_lines (staging_alias project) routes))"
proof -
  obtain hosts where h: "dget m ''hosts'' = Some (PList (map PStr hosts))"
    using accepted_hosts [OF accepted_parts(2) [OF assms]] by blast
  obtain routes where r: "get_all_routes m = Inr routes" "list_all (site_route_ok project) routes"
    using accepted_routes [OF assms] by blast
  have "replace_first (project @ ''-'') (project @ ''-staging-'') (project @ ''-'' @ svc) = staging_alias project (project @ ''-'' @ svc)" for svc
    using replace_first_prefix [of "project @ ''-''" "project @ ''-staging-''" svc] by (simp add: staging_alias_def)
  then have "lines_of_routes (replace_first (project @ ''-'') (project @ ''-staging-'')) routes
      = Inr (declared_lines (staging_alias project) routes)"
    by (rule lines_of_accepted_routes [OF r(2)])
  moreover have "rmap text_of (map PStr hosts) = Inr hosts"
    by (induction hosts) (auto simp: text_of_def)
  moreover have "dget m ''project'' = Some (PStr project)" by (rule accepted_project [OF accepted_parts(1) [OF assms]])
  ultimately show ?thesis using h r(1)
    by (intro exI [of _ hosts] exI [of _ routes]) (simp add: generate_staging_caddy_config_def dindex_def text_of_def)
qed

theorem staging_site_targets_witness:
  "\<exists>text. generate_staging_caddy_config example_site_manifest (Some (''u'', ''h'')) = Inr text"
  using staging_site_targets [OF example_site_accepted(1)] by blast

section \<open>The order of the routes\<close>

text \<open>The routes of a site come longest path first: a route whose path ends in a wildcard never stands
  before a route whose path it covers with two or more characters in place of the wildcard.\<close>

theorem wildcards_come_later:
  assumes "get_all_routes m = Inr routes" "i < j" "j < length routes"
    and "fst (routes ! i) = q @ ''*''" "fst (routes ! j) = q @ r"
  shows "length r \<le> 1"
proof -
  obtain rs where "routes = sort_key route_key rs"
    using assms(1) by (cases "dget_or m ''services'' (PDict [])") (auto simp: get_all_routes_def rbind_eq_Inr)
  then have "sorted (map route_key routes)" by simp
  then have "map route_key routes ! i \<le> map route_key routes ! j"
    using assms(2,3) by (intro sorted_nth_mono) auto
  then show ?thesis using assms by (auto simp: route_key_def less_eq_prod_def)
qed

theorem wildcards_come_later_witness:
  "\<exists>routes. get_all_routes example_site_manifest = Inr routes \<and> map fst routes = [''/api/*'', ''/'']"
proof -
  have r: "get_all_routes example_site_manifest = Inr [(''/api/*'', ''shop-web'', PInt 8080), (''/'', ''shop-web'', PInt 8080)]"
    by code_simp
  have "length [CHR ''/''] \<le> 1" using wildcards_come_later [OF r, of 0 1 "''/api/''" "''/''"] by simp
  then show ?thesis using r by simp
qed

text \<open>With one character the order is the alphabet's, and the wildcard sorts first: requests for \<open>/ab\<close> go
  to the route \<open>/a*\<close>.\<close>

lemma wildcard_before_exact:
  "get_all_routes [(PStr ''project'', PStr ''shop''), (PStr ''services'', PDict [(PStr ''web'', PDict
      [(PStr ''port'', PInt 80), (PStr ''routes'', PList [PDict [(PStr ''path'', PStr ''/ab'')]])]),
      (PStr ''api'', PDict [(PStr ''port'', PInt 81), (PStr ''routes'', PList [PDict [(PStr ''path'', PStr ''/a*'')]])])])]
    = Inr [(''/a*'', ''shop-api'', PInt 81), (''/ab'', ''shop-web'', PInt 80)]"
  by code_simp

text \<open>Two projects can share an alias on the proxy's network.\<close>

lemma alias_shared:
  "get_all_routes [(PStr ''project'', PStr ''shop''), (PStr ''services'', PDict [(PStr ''a-b'', PDict
      [(PStr ''port'', PInt 80), (PStr ''routes'', PList [PDict [(PStr ''path'', PStr ''/'')]])])])]
   = get_all_routes [(PStr ''project'', PStr ''shop-a''), (PStr ''services'', PDict [(PStr ''b'', PDict
      [(PStr ''port'', PInt 80), (PStr ''routes'', PList [PDict [(PStr ''path'', PStr ''/'')]])])])]"
  by code_simp

end
