(* ===== verification/Py_Json.thy ===== *)
theory Py_Json
  imports Py_Prelude
begin

text \<open>The text \<open>json.dumps\<close> writes for a string, and how long it is.\<close>

definition hex_digit :: "nat \<Rightarrow> char" where
  "hex_digit n = char_of (if n < 10 then 48 + n else 87 + n)"

text \<open>A character in a text written by \<open>json.dumps\<close>.\<close>

definition json_char :: "char \<Rightarrow> string" where
  "json_char c = (let n = code c in
     if n = 34 then [CHR 0x5C, CHR 0x22] else if n = 92 then [CHR 0x5C, CHR 0x5C]
     else if n = 10 then [CHR 0x5C, CHR ''n''] else if n = 13 then [CHR 0x5C, CHR ''r'']
     else if n = 9 then [CHR 0x5C, CHR ''t''] else if n = 12 then [CHR 0x5C, CHR ''f'']
     else if n = 8 then [CHR 0x5C, CHR ''b'']
     else if 32 \<le> n \<and> n \<le> 126 then [c]
     else [CHR 0x5C] @ ''u00'' @ [hex_digit (n div 16), hex_digit (n mod 16)])"

definition json_str :: "string \<Rightarrow> string" where
  "json_str s = [CHR 0x22] @ concat (map json_char s) @ [CHR 0x22]"

definition json_member :: "string \<times> string \<Rightarrow> string" where
  "json_member kv = json_str (fst kv) @ '': '' @ json_str (snd kv)"

lemma json_char_length:
  "length (json_char c) = (let n = code c in
     if n \<in> {8, 9, 10, 12, 13, 34, 92} then 2 else if 32 \<le> n \<and> n \<le> 126 then 1 else 6)"
  by (simp add: json_char_def Let_def)

lemma json_char_bound: "length (json_char c) \<le> 6"
  by (simp add: json_char_length Let_def)

lemma json_str_bound: "length (json_str s) \<le> 2 + 6 * length s"
proof (induction s)
  case (Cons c s)
  then show ?case using json_char_bound [of c] by (simp add: json_str_def)
qed (simp add: json_str_def)

lemma json_str_replicate: "length (json_str (replicate k c)) = 2 + k * length (json_char c)"
  by (induction k) (simp_all add: json_str_def)

end
