(* ===== verification/Site_Journal.thy ===== *)
theory Site_Journal
  imports Py_Json
begin

text \<open>
  \<^verbatim>\<open>src/boxmunge/caddy_journal.py\<close> and \<open>caddy_reload\<close> of \<^verbatim>\<open>docker.py\<close>: the Caddy site
  files and the journal of what the writes since the last accepted configuration
  replaced.  A file is its text, or one that is not read: not a regular file, or
  not text within the size limit.  The writes that go through are the first
  arguments; an operation that is killed leaves what a failed write leaves.
\<close>

section \<open>The files\<close>

datatype site_node = Site_File string | Site_Unreadable | Site_Not_Regular

text \<open>An entry's file: its size in bytes and the document its text is, or one that is not read as JSON.\<close>

datatype entry_node = Entry_Doc int pyval | Entry_Unusable

text \<open>A directory below Caddy's: missing, a directory, or something a path must not go through.\<close>

datatype dir_kind = Dir_Missing | Dir_There | Dir_Refused

record caddy_files =
  sites_dir :: dir_kind
  journal_dir :: dir_kind
  site_files :: "string \<Rightarrow> site_node option"
  journal_entries :: "(string \<times> entry_node) list"

text \<open>What a journal operation raises: its own error, or the OSError of a write.\<close>

datatype journal_error = Bad_Directory | Not_In_Sites | Bad_Site_Name string | Site_Refused string
  | Entry_Refused string | Site_Too_Large string

definition max_site_bytes :: int where "max_site_bytes = 1048576"

definition max_entry_bytes :: int where "max_entry_bytes = 4 * max_site_bytes"

text \<open>The length of a text in UTF-8: one byte below U+0080, two up to U+00FF.\<close>

definition utf8_length :: "string \<Rightarrow> int" where
  "utf8_length s = int (length s + length (filter (\<lambda>c. 128 \<le> code c) s))"

definition site_suffix :: string where "site_suffix = ''.conf''"

definition site_name :: "string \<Rightarrow> bool" where
  "site_name n \<longleftrightarrow> ends_with site_suffix n \<and> (let stem = take (length n - length site_suffix) n in
     stem \<noteq> [] \<and> is_lower_alnum (hd stem) \<and> list_all (\<lambda>c. is_lower_alnum c \<or> c = CHR ''-'') (tl stem))"

definition site_path :: "string \<Rightarrow> string \<Rightarrow> string" where
  "site_path caddy_dir n = caddy_dir @ ''/sites/'' @ n"

section \<open>Reading\<close>

text \<open>\<open>_checked_site\<close>: the name and the kind of the file, before anything is read.\<close>

definition checked_site :: "caddy_files \<Rightarrow> string \<Rightarrow> journal_error + unit" where
  "checked_site c n =
     (if \<not> site_name n then Inl (Bad_Site_Name n)
      else if sites_dir c = Dir_Refused then Inl Bad_Directory
      else if site_files c n = Some Site_Not_Regular then Inl (Site_Refused n)
      else Inr ())"

definition read_site :: "caddy_files \<Rightarrow> string \<Rightarrow> journal_error + string option" where
  "read_site c n = (case site_files c n of
     None \<Rightarrow> Inr None
   | Some (Site_File t) \<Rightarrow> if utf8_length t \<le> max_site_bytes then Inr (Some t) else Inl (Site_Refused n)
   | Some _ \<Rightarrow> Inl (Site_Refused n))"

definition checked_journal_dir :: "caddy_files \<Rightarrow> journal_error + unit" where
  "checked_journal_dir c = (if journal_dir c = Dir_Refused then Inl Bad_Directory else Inr ())"

text \<open>A record: the text before the first write since the last accepted configuration, and the text written.\<close>

type_synonym site_record = "string option \<times> string"

fun previous_text :: "pyval \<Rightarrow> string option option" where
  "previous_text PNone = Some None"
| "previous_text (PStr s) = Some (Some s)"
| "previous_text _ = None"

definition record_of_doc :: "string \<Rightarrow> string \<Rightarrow> pyval \<Rightarrow> site_record option" where
  "record_of_doc caddy_dir n v = (case v of
     PDict d \<Rightarrow>
       (if set (map fst d) \<noteq> PStr ` {''path'', ''previous'', ''written''} then None
        else if dget_or d ''path'' PNone \<noteq> PStr (site_path caddy_dir n) then None
        else (case (dget_or d ''written'' PNone, previous_text (dget_or d ''previous'' PNone)) of
          (PStr w, Some p) \<Rightarrow> Some (p, w)
        | _ \<Rightarrow> None))
   | _ \<Rightarrow> None)"

definition read_entry :: "string \<Rightarrow> caddy_files \<Rightarrow> string \<Rightarrow> entry_node \<Rightarrow> journal_error + site_record" where
  "read_entry caddy_dir c n node = (case checked_site c n of
     Inl _ \<Rightarrow> Inl (Entry_Refused n)
   | Inr _ \<Rightarrow> (case node of
       Entry_Unusable \<Rightarrow> Inl (Entry_Refused n)
     | Entry_Doc bytes v \<Rightarrow>
         if max_entry_bytes < bytes then Inl (Entry_Refused n)
         else (case record_of_doc caddy_dir n v of
           None \<Rightarrow> Inl (Entry_Refused n)
         | Some r \<Rightarrow> Inr r)))"

definition record_doc :: "string \<Rightarrow> string \<Rightarrow> site_record \<Rightarrow> pyval" where
  "record_doc caddy_dir n r = PDict [(PStr ''path'', PStr (site_path caddy_dir n)),
     (PStr ''previous'', (case fst r of None \<Rightarrow> PNone | Some p \<Rightarrow> PStr p)), (PStr ''written'', PStr (snd r))]"

text \<open>The text of the entry's file, and its size: \<open>json.dumps\<close> writes ASCII.\<close>

definition entry_text :: "string \<Rightarrow> string \<Rightarrow> site_record \<Rightarrow> string" where
  "entry_text caddy_dir n r =
     ''{'' @ json_member (''path'', site_path caddy_dir n) @ '', '' @ json_str ''previous'' @ '': ''
     @ (case fst r of None \<Rightarrow> ''null'' | Some p \<Rightarrow> json_str p)
     @ '', '' @ json_member (''written'', snd r) @ ''}''"

definition entry_size :: "string \<Rightarrow> string \<Rightarrow> site_record \<Rightarrow> int" where
  "entry_size caddy_dir n r = int (length (entry_text caddy_dir n r))"

section \<open>Writing and removing\<close>

definition set_site :: "string \<Rightarrow> string option \<Rightarrow> caddy_files \<Rightarrow> caddy_files" where
  "set_site n t c = c\<lparr>site_files := (site_files c)(n := map_option Site_File t)\<rparr>"

definition drop_entry :: "string \<Rightarrow> caddy_files \<Rightarrow> caddy_files" where
  "drop_entry n c = c\<lparr>journal_entries := filter (\<lambda>(k, _). k \<noteq> n) (journal_entries c)\<rparr>"

definition put_entry :: "string \<Rightarrow> string \<Rightarrow> site_record \<Rightarrow> caddy_files \<Rightarrow> caddy_files" where
  "put_entry caddy_dir n r c =
     c\<lparr>journal_dir := Dir_There, journal_entries := dset (journal_entries c) n
     (Entry_Doc (entry_size caddy_dir n r) (record_doc caddy_dir n r))\<rparr>"

text \<open>\<open>_entry_site\<close>; the first argument says whether the path is in the sites directory.\<close>

definition entry_site :: "bool \<Rightarrow> caddy_files \<Rightarrow> string \<Rightarrow> journal_error + unit" where
  "entry_site in_sites c n =
     (if \<not> in_sites then Inl Not_In_Sites
      else rbind (checked_site c n) (\<lambda>_. checked_journal_dir c))"

text \<open>The record a write leaves: an unfinished one keeps its \<open>previous\<close>.\<close>

definition previous_for :: "string \<Rightarrow> caddy_files \<Rightarrow> string \<Rightarrow> journal_error + string option" where
  "previous_for caddy_dir c n = (case map_of (journal_entries c) n of
     Some node \<Rightarrow> rbind (read_entry caddy_dir c n node) (\<lambda>r. Inr (fst r))
   | None \<Rightarrow> read_site c n)"

text \<open>
  \<open>write_site\<close>: the checks, then the entry and then the site, each by an atomic
  write.  The first two arguments say which of the two goes through; the result
  is the state left and the error raised, \<open>Some (Crash OSError)\<close> for a failed write.
\<close>

definition write_site ::
    "bool \<Rightarrow> bool \<Rightarrow> string \<Rightarrow> bool \<Rightarrow> string \<Rightarrow> string \<Rightarrow> caddy_files \<Rightarrow> journal_error raised option \<times> caddy_files" where
  "write_site entry_goes site_goes caddy_dir in_sites n content c = (case entry_site in_sites c n of
     Inl e \<Rightarrow> (Some (Raised e), c)
   | Inr _ \<Rightarrow>
       (if max_site_bytes < utf8_length content then (Some (Raised (Site_Too_Large n)), c)
        else (case previous_for caddy_dir c n of
          Inl e \<Rightarrow> (Some (Raised e), c)
        | Inr previous \<Rightarrow>
            (if \<not> entry_goes then (Some (Crash OSError), c)
             else let c1 = put_entry caddy_dir n (previous, content) c in
               if \<not> site_goes then (Some (Crash OSError), c1)
               else (None, set_site n (Some content) c1)))))"

definition remove_site :: "bool \<Rightarrow> string \<Rightarrow> caddy_files \<Rightarrow> journal_error option \<times> caddy_files" where
  "remove_site in_sites n c = (case entry_site in_sites c n of
     Inl e \<Rightarrow> (Some e, c)
   | Inr _ \<Rightarrow> (None, drop_entry n (set_site n None c)))"

section \<open>Restoring and accepting\<close>

text \<open>One entry: the files it puts back and the entries it refuses are collected.\<close>

record restore_run =
  rr_files :: caddy_files
  rr_restored :: "string list"
  rr_refused :: "string list"

definition restore_entry :: "string \<Rightarrow> restore_run \<Rightarrow> string \<times> entry_node \<Rightarrow> restore_run" where
  "restore_entry caddy_dir run entry = (case entry of (n, node) \<Rightarrow> (let c = rr_files run in
     case rbind (read_entry caddy_dir c n node) (\<lambda>r. rbind (read_site c n) (\<lambda>current. Inr (r, current))) of
       Inl _ \<Rightarrow> run\<lparr>rr_refused := rr_refused run @ [n]\<rparr>
     | Inr ((previous, written), current) \<Rightarrow>
         (if current = Some written
          then run\<lparr>rr_files := drop_entry n (set_site n previous c), rr_restored := rr_restored run @ [n]\<rparr>
          else run\<lparr>rr_files := drop_entry n c\<rparr>)))"

text \<open>The name of an entry's file, by which they are taken in order.\<close>

definition entry_file :: "string \<times> 'a \<Rightarrow> string" where
  "entry_file e = fst e @ ''.json''"

text \<open>\<open>Some e\<close> is the JournalError, with the refused entries and the names put back all the same.\<close>

definition restore_sites :: "string \<Rightarrow> caddy_files \<Rightarrow> (journal_error option \<times> string list \<times> string list) \<times> caddy_files" where
  "restore_sites caddy_dir c =
     (if journal_dir c = Dir_Refused then ((Some Bad_Directory, [], []), c)
      else if journal_dir c = Dir_Missing then ((None, [], []), c)
      else let run = foldl (restore_entry caddy_dir) \<lparr> rr_files = c, rr_restored = [], rr_refused = [] \<rparr>
                 (sort_key entry_file (journal_entries c))
        in ((if rr_refused run = [] then None else Some (Entry_Refused (hd (rr_refused run))),
             rr_restored run, rr_refused run), rr_files run))"

definition commit_sites :: "caddy_files \<Rightarrow> journal_error option \<times> caddy_files" where
  "commit_sites c =
     (if journal_dir c = Dir_Refused then (Some Bad_Directory, c)
      else if journal_dir c = Dir_Missing then (None, c)
      else (None, c\<lparr>journal_entries := []\<rparr>))"

text \<open>
  \<open>caddy_reload\<close>, under its lock: whether the configuration is valid, whether the
  container runs and whether the reload command goes through are what Docker
  answers.
\<close>

datatype reload_result =
    Reloaded
  | Reload_Fails
  | Caddy_Not_Running
  | Config_Rejected "string list" "string list"
  | Reload_Journal_Error journal_error

definition caddy_reload :: "bool \<Rightarrow> bool \<Rightarrow> bool \<Rightarrow> string \<Rightarrow> caddy_files \<Rightarrow> reload_result \<times> caddy_files" where
  "caddy_reload valid running reload_goes caddy_dir c =
     (if \<not> valid then
        (if \<not> running then (Caddy_Not_Running, c)
         else case restore_sites caddy_dir c of
           ((e, restored, kept_back), c') \<Rightarrow> (Config_Rejected restored kept_back, c'))
      else case commit_sites c of
          (Some e, c') \<Rightarrow> (Reload_Journal_Error e, c')
        | (None, c') \<Rightarrow> (if reload_goes then Reloaded else Reload_Fails, c'))"

section \<open>What the journal promises\<close>

text \<open>
  The specification: which text of each site Caddy accepted last, and which one is
  on disk.  A reload accepts what is on disk, or is rejected and puts back what was
  accepted; a site torn down is forgotten.
\<close>

record site_spec =
  sp_accepted :: "string \<Rightarrow> string option"
  sp_current :: "string \<Rightarrow> string option"

datatype site_event =
    Deploy string string
  | Deploy_Killed string string bool
  | Tear_Down string
  | Reload bool bool bool

fun spec_step :: "site_spec \<Rightarrow> site_event \<Rightarrow> site_spec" where
  "spec_step a (Deploy n t) =
     (if site_name n \<and> utf8_length t \<le> max_site_bytes then a\<lparr>sp_current := (sp_current a)(n \<mapsto> t)\<rparr> else a)"
| "spec_step a (Deploy_Killed n t entry_goes) = a"
| "spec_step a (Tear_Down n) =
     (if site_name n then a\<lparr>sp_accepted := (sp_accepted a)(n := None), sp_current := (sp_current a)(n := None)\<rparr> else a)"
| "spec_step a (Reload valid running goes) =
     (if valid then a\<lparr>sp_accepted := sp_current a\<rparr>
      else if running then a\<lparr>sp_current := sp_accepted a\<rparr> else a)"

text \<open>The operations as the program runs them; a killed deploy wrote its journal entry or not, and no site.\<close>

fun files_step :: "string \<Rightarrow> caddy_files \<Rightarrow> site_event \<Rightarrow> caddy_files" where
  "files_step caddy_dir c (Deploy n t) = snd (write_site True True caddy_dir True n t c)"
| "files_step caddy_dir c (Deploy_Killed n t entry_goes) = snd (write_site entry_goes False caddy_dir True n t c)"
| "files_step caddy_dir c (Tear_Down n) = snd (remove_site True n c)"
| "files_step caddy_dir c (Reload valid running goes) = snd (caddy_reload valid running goes caddy_dir c)"

text \<open>Runs in which no deploy is killed over a site with an unaccepted text.\<close>

fun no_kill_over_pending :: "site_spec \<Rightarrow> site_event list \<Rightarrow> bool" where
  "no_kill_over_pending a [] = True"
| "no_kill_over_pending a (e # es) =
     ((case e of Deploy_Killed n t g \<Rightarrow> sp_current a n = sp_accepted a n | _ \<Rightarrow> True)
      \<and> no_kill_over_pending (spec_step a e) es)"

text \<open>
  Runs whose entries can be read back: the entry of a deploy, which holds the text
  Caddy accepted last and the new one, is within the limit on entries.
\<close>

fun entries_fit :: "string \<Rightarrow> site_spec \<Rightarrow> site_event list \<Rightarrow> bool" where
  "entries_fit caddy_dir a [] = True"
| "entries_fit caddy_dir a (e # es) =
     ((case e of
         Deploy n t \<Rightarrow> entry_size caddy_dir n (sp_accepted a n, t) \<le> max_entry_bytes
       | Deploy_Killed n t g \<Rightarrow> entry_size caddy_dir n (sp_accepted a n, t) \<le> max_entry_bytes
       | _ \<Rightarrow> True)
      \<and> entries_fit caddy_dir (spec_step a e) es)"

text \<open>Texts of a quarter of the limit on a site always fit, whatever they hold.\<close>

lemma small_entries_fit:
  assumes "4 * utf8_length t \<le> max_site_bytes" "case p of None \<Rightarrow> True | Some u \<Rightarrow> 4 * utf8_length u \<le> max_site_bytes"
    and "length (site_path caddy_dir n) \<le> 4096"
  shows "entry_size caddy_dir n (p, t) \<le> max_entry_bytes"
proof -
  have b: "int (length (json_str s)) \<le> 2 + 6 * utf8_length s" for s
    using json_str_bound [of s] by (simp add: utf8_length_def)
  have path: "length (json_str (site_path caddy_dir n)) \<le> 24578"
    using json_str_bound [of "site_path caddy_dir n"] assms(3) by simp
  have keys: "length (json_str ''path'') = 6" "length (json_str ''previous'') = 10" "length (json_str ''written'') = 9"
    by code_simp+
  show ?thesis
    using b [of t] assms(1,2) path b [of "the p"]
    by (cases p) (simp_all add: entry_size_def entry_text_def json_member_def max_entry_bytes_def max_site_bytes_def keys)
qed

section \<open>The abstraction\<close>

definition site_text_of :: "caddy_files \<Rightarrow> string \<Rightarrow> string option" where
  "site_text_of c n = (if site_name n then (case site_files c n of Some (Site_File t) \<Rightarrow> Some t | _ \<Rightarrow> None) else None)"

definition fits :: "string option \<Rightarrow> bool" where
  "fits t = (case t of None \<Rightarrow> True | Some s \<Rightarrow> utf8_length s \<le> max_site_bytes)"

definition entries_of :: "string \<Rightarrow> (string \<times> site_record) list \<Rightarrow> (string \<times> entry_node) list" where
  "entries_of caddy_dir R = map (\<lambda>(n, r). (n, Entry_Doc (entry_size caddy_dir n r) (record_doc caddy_dir n r))) R"

text \<open>Directories in place, every site file a text within the limit.\<close>

definition files_ok :: "caddy_files \<Rightarrow> bool" where
  "files_ok c \<longleftrightarrow> sites_dir c \<noteq> Dir_Refused \<and> journal_dir c \<noteq> Dir_Refused
     \<and> (\<forall>n. site_name n \<longrightarrow> site_files c n = map_option Site_File (site_text_of c n) \<and> fits (site_text_of c n))"

definition record_ok :: "string \<Rightarrow> caddy_files \<Rightarrow> string \<times> site_record \<Rightarrow> bool" where
  "record_ok caddy_dir c e = (case e of (n, p, w) \<Rightarrow> site_name n \<and> fits p \<and> site_text_of c n \<in> {Some w, p}
     \<and> entry_size caddy_dir n (p, w) \<le> max_entry_bytes)"

definition accepted_of :: "(string \<times> site_record) list \<Rightarrow> (string \<Rightarrow> string option) \<Rightarrow> string \<Rightarrow> string option" where
  "accepted_of R T n = (case map_of R n of Some r \<Rightarrow> fst r | None \<Rightarrow> T n)"

definition abstracts :: "string \<Rightarrow> (string \<times> site_record) list \<Rightarrow> caddy_files \<Rightarrow> site_spec \<Rightarrow> bool" where
  "abstracts caddy_dir R c a \<longleftrightarrow> files_ok c \<and> journal_entries c = entries_of caddy_dir R \<and> distinct (map fst R)
     \<and> (journal_dir c = Dir_Missing \<longrightarrow> R = []) \<and> (\<forall>e\<in>set R. record_ok caddy_dir c e)
     \<and> sp_current a = site_text_of c
     \<and> sp_accepted a = accepted_of R (site_text_of c)"

lemma map_of_entries: "map_of (entries_of d R) n = map_option (\<lambda>r. Entry_Doc (entry_size d n r) (record_doc d n r)) (map_of R n)"
  by (induction R) (auto simp: entries_of_def)

lemma dset_entries: "dset (entries_of d R) n (Entry_Doc (entry_size d n r) (record_doc d n r)) = entries_of d (dset R n r)"
  by (induction R) (auto simp: entries_of_def)

lemma filter_entries: "filter (\<lambda>(k, _). k \<noteq> n) (entries_of d R) = entries_of d (filter (\<lambda>(k, _). k \<noteq> n) R)"
  by (induction R) (auto simp: entries_of_def)

lemma record_roundtrip [simp]: "record_of_doc d n (record_doc d n r) = Some r"
  by (cases r; cases "fst r") (auto simp: record_of_doc_def record_doc_def dget_or_def dget_def)

lemma site_text_set [simp]:
  "site_name n \<Longrightarrow> site_text_of (set_site n t c) = (site_text_of c)(n := t)"
  by (auto simp: site_text_of_def set_site_def fun_eq_iff split: option.splits)

lemma site_text_other [simp]:
  "site_text_of (put_entry d n r c) = site_text_of c" "site_text_of (drop_entry n c) = site_text_of c"
  "site_text_of (c\<lparr>journal_entries := es\<rparr>) = site_text_of c"
  by (auto simp: site_text_of_def put_entry_def drop_entry_def fun_eq_iff)

lemma files_ok_set: "files_ok c \<Longrightarrow> site_name n \<Longrightarrow> fits t \<Longrightarrow> files_ok (set_site n t c)"
  by (auto simp: files_ok_def) (auto simp: set_site_def)

lemma files_ok_other [simp]:
  "files_ok (drop_entry n c) = files_ok c" "files_ok (c\<lparr>journal_entries := es\<rparr>) = files_ok c"
  "files_ok c \<Longrightarrow> files_ok (put_entry d n r c)"
  by (auto simp: files_ok_def) (auto simp: drop_entry_def put_entry_def)

lemma checked_site_ok: "files_ok c \<Longrightarrow> checked_site c n = (if site_name n then Inr () else Inl (Bad_Site_Name n))"
  by (cases "site_text_of c n") (auto simp: files_ok_def checked_site_def)

lemma entry_site_ok: "files_ok c \<Longrightarrow> entry_site True c n = (if site_name n then Inr () else Inl (Bad_Site_Name n))"
  by (simp add: entry_site_def checked_site_ok checked_journal_dir_def) (simp add: files_ok_def)

lemma read_site_ok: "files_ok c \<Longrightarrow> site_name n \<Longrightarrow> read_site c n = Inr (site_text_of c n)"
  by (cases "site_text_of c n") (auto simp: files_ok_def read_site_def fits_def)

lemma read_entry_ok: "files_ok c \<Longrightarrow> site_name n \<Longrightarrow> entry_size d n r \<le> max_entry_bytes \<Longrightarrow> read_entry d c n (Entry_Doc (entry_size d n r) (record_doc d n r)) = Inr r"
  by (simp add: read_entry_def checked_site_ok)

lemma previous_for_ok:
  assumes "abstracts d R c a" "site_name n"
  shows "previous_for d c n = Inr (sp_accepted a n)"
proof (cases "map_of R n")
  case None
  then show ?thesis using assms by (simp add: abstracts_def previous_for_def map_of_entries read_site_ok accepted_of_def)
next
  case (Some r)
  then have "record_ok d c (n, r)" using assms(1) by (auto simp: abstracts_def dest: map_of_SomeD)
  then have "entry_size d n r \<le> max_entry_bytes" by (cases r) (simp add: record_ok_def)
  then show ?thesis using assms Some by (simp add: abstracts_def previous_for_def map_of_entries read_entry_ok accepted_of_def)
qed

lemma accepted_of_simps [simp]:
  "accepted_of [] T = T"
  "accepted_of ((n, r) # R) T = (accepted_of R T)(n := fst r)"
  "accepted_of (dset R n r) T = (accepted_of R T)(n := fst r)"
  by (auto simp: accepted_of_def fun_eq_iff)

lemma accepted_of_upd:
  "accepted_of R (T(n := t)) = (if map_of R n = None then (accepted_of R T)(n := t) else accepted_of R T)"
  by (auto simp: accepted_of_def fun_eq_iff split: option.split)

lemma accepted_of_filter:
  "accepted_of (filter (\<lambda>(k, _). k \<noteq> n) R) T = (accepted_of R T)(n := T n)"
proof -
  have "map_of (filter (\<lambda>(k, _). k \<noteq> n) R) k = (if k = n then None else map_of R k)" for k
    by (induction R) auto
  then show ?thesis by (auto simp: accepted_of_def fun_eq_iff)
qed

section \<open>Each operation\<close>

lemma abstracts_write:
  assumes "abstracts d R c a" and "site_goes \<or> sp_current a n = sp_accepted a n"
    and size: "entry_size d n (sp_accepted a n, t) \<le> max_entry_bytes"
  shows "\<exists>R'. abstracts d R' (snd (write_site entry_goes site_goes d True n t c))
    (if entry_goes \<and> site_goes then spec_step a (Deploy n t) else a)"
proof (cases "site_name n \<and> utf8_length t \<le> max_site_bytes \<and> entry_goes")
  case False
  have "files_ok c" using assms(1) by (simp add: abstracts_def)
  then have "snd (write_site entry_goes site_goes d True n t c) = c"
    using False previous_for_ok [OF assms(1)] by (auto simp: write_site_def entry_site_ok)
  then show ?thesis using False assms(1) by auto
next
  case True
  then have n: "site_name n" and t: "utf8_length t \<le> max_site_bytes" "entry_goes" by auto
  define p where "p = sp_accepted a n"
  define c1 where "c1 = put_entry d n (p, t) c"
  have c: "files_ok c" "journal_entries c = entries_of d R" "distinct (map fst R)" "\<forall>e\<in>set R. record_ok d c e"
    and a: "sp_current a = site_text_of c"
      "sp_accepted a = accepted_of R (site_text_of c)"
    using assms(1) by (auto simp: abstracts_def)
  have w: "snd (write_site entry_goes site_goes d True n t c) = (if site_goes then set_site n (Some t) c1 else c1)"
    using n t c(1) previous_for_ok [OF assms(1) n] by (simp add: write_site_def entry_site_ok p_def c1_def)
  have fp: "fits p"
  proof (cases "map_of R n")
    case None
    then show ?thesis using c(1) n by (simp add: p_def a(2) files_ok_def accepted_of_def)
  next
    case (Some r)
    then have "record_ok d c (n, r)" using c(4) by (auto dest: map_of_SomeD)
    then show ?thesis using Some by (cases r) (simp add: p_def a(2) record_ok_def accepted_of_def)
  qed
  have sz: "entry_size d n (p, t) \<le> max_entry_bytes" using size by (simp add: p_def)
  have ok1: "files_ok c1" using c(1) by (simp add: c1_def)
  have j1: "journal_entries c1 = entries_of d (dset R n (p, t))" "journal_dir c1 = Dir_There"
    by (simp_all add: c1_def put_entry_def c(2) dset_entries)
  have others: "record_ok d c' (k, r)" if "(k, r) \<in> set (dset R n (p, t))" "k \<noteq> n"
    "\<And>k. k \<noteq> n \<Longrightarrow> site_text_of c' k = site_text_of c k" for k r c'
  proof -
    have "map_of (dset R n (p, t)) k = Some r" by (rule map_of_is_SomeI) (use that(1) c(3) in simp_all)
    then have "map_of R k = Some r" using that(2) by simp
    then have "record_ok d c (k, r)" using c(4) by (auto dest: map_of_SomeD)
    then show ?thesis using that(2,3) by (cases r) (simp add: record_ok_def)
  qed
  have new: "r = (p, t)" if "(n, r) \<in> set (dset R n (p, t))" for r
  proof -
    have "map_of (dset R n (p, t)) n = Some r" by (rule map_of_is_SomeI) (use that c(3) in simp_all)
    then show ?thesis by simp
  qed
  show ?thesis
  proof (cases site_goes)
    case True
    have "record_ok d (set_site n (Some t) c1) (k, r)" if "(k, r) \<in> set (dset R n (p, t))" for k r
    proof (cases "k = n")
      case True
      then have "r = (p, t)" using new that by simp
      then show ?thesis using True n fp sz by (simp add: record_ok_def)
    qed (use others that n in \<open>simp add: c1_def\<close>)
    moreover have "fits (Some t)" using t by (simp add: fits_def)
    moreover have "journal_entries (set_site n (Some t) c1) = entries_of d (dset R n (p, t))"
      "journal_dir (set_site n (Some t) c1) = Dir_There" using j1 by (simp_all add: set_site_def)
    moreover have "site_text_of (set_site n (Some t) c1) = (site_text_of c)(n := Some t)" using n by (simp add: c1_def)
    moreover have "(accepted_of R ((site_text_of c)(n := Some t)))(n := p) = accepted_of R (site_text_of c)"
      by (auto simp: accepted_of_upd p_def a(2))
    ultimately have "abstracts d (dset R n (p, t)) (set_site n (Some t) c1) (spec_step a (Deploy n t))"
      using ok1 c(3) n t a by (auto simp: abstracts_def files_ok_set)
    then show ?thesis using w True t by auto
  next
    case False
    then have same: "site_text_of c n = p" using assms(2) a(1) p_def by simp
    have "record_ok d c1 (k, r)" if "(k, r) \<in> set (dset R n (p, t))" for k r
    proof (cases "k = n")
      case True
      then have "r = (p, t)" using new that by simp
      then show ?thesis using True n fp same sz by (simp add: record_ok_def c1_def)
    qed (use others that in \<open>simp add: c1_def\<close>)
    moreover have "site_text_of c1 = site_text_of c" by (simp add: c1_def)
    moreover have "(accepted_of R (site_text_of c))(n := p) = accepted_of R (site_text_of c)" by (simp add: p_def a(2))
    ultimately have "abstracts d (dset R n (p, t)) c1 a"
      using ok1 j1 c(3) a by (auto simp: abstracts_def)
    then show ?thesis using w False by auto
  qed
qed

lemma abstracts_remove:
  assumes "abstracts d R c a"
  shows "\<exists>R'. abstracts d R' (snd (remove_site True n c)) (spec_step a (Tear_Down n))"
proof (cases "site_name n")
  case False
  then show ?thesis using assms by (auto simp: remove_site_def entry_site_ok abstracts_def)
next
  case True
  let ?R = "filter (\<lambda>(k, _). k \<noteq> n) R" and ?c = "drop_entry n (set_site n None c)"
  have c: "files_ok c" "journal_entries c = entries_of d R" "distinct (map fst R)" "\<forall>e\<in>set R. record_ok d c e"
    "journal_dir c = Dir_Missing \<longrightarrow> R = []"
    and a: "sp_current a = site_text_of c"
      "sp_accepted a = accepted_of R (site_text_of c)"
    using assms by (auto simp: abstracts_def)
  have "snd (remove_site True n c) = ?c" using True c(1) by (simp add: remove_site_def entry_site_ok)
  moreover have "files_ok ?c" using True c(1) by (simp add: files_ok_set fits_def)
  moreover have "journal_entries ?c = entries_of d ?R" "journal_dir ?c = journal_dir c"
    by (simp_all add: drop_entry_def set_site_def c(2) filter_entries)
  moreover have "distinct (map fst ?R)" using c(3) by (induction R) auto
  moreover have "\<forall>e\<in>set ?R. record_ok d ?c e" using c(4) True by (auto simp: record_ok_def)
  moreover have "map_of ?R n = None" by (induction R) auto
  then have "accepted_of ?R (site_text_of ?c) = (accepted_of R (site_text_of c))(n := None)"
    using True by (simp add: accepted_of_filter accepted_of_upd)
  ultimately have "abstracts d ?R ?c (spec_step a (Tear_Down n))"
    using c(5) a True by (auto simp: abstracts_def)
  then show ?thesis using \<open>snd (remove_site True n c) = ?c\<close> by auto
qed

text \<open>Restoring a list of records puts back what each of them holds and refuses none.\<close>

lemma restore_all:
  assumes "files_ok (rr_files run)" "distinct (map fst L)" "\<forall>e\<in>set L. record_ok d (rr_files run) e"
  shows "\<exists>run'. foldl (restore_entry d) run (entries_of d L) = run' \<and> rr_refused run' = rr_refused run
    \<and> files_ok (rr_files run') \<and> journal_dir (rr_files run') = journal_dir (rr_files run)
    \<and> journal_entries (rr_files run') = filter (\<lambda>(k, _). k \<notin> fst ` set L) (journal_entries (rr_files run))
    \<and> site_text_of (rr_files run') = accepted_of L (site_text_of (rr_files run))"
  using assms
proof (induction L arbitrary: run)
  case Nil
  then show ?case by (simp add: entries_of_def)
next
  case (Cons e L)
  obtain n p w where e: "e = (n, p, w)" by (cases e) auto
  let ?c = "rr_files run"
  have ok: "site_name n" "fits p" "site_text_of ?c n \<in> {Some w, p}" "entry_size d n (p, w) \<le> max_entry_bytes"
    using Cons.prems(3) by (auto simp: e record_ok_def)
  define run1 where "run1 = restore_entry d run (n, Entry_Doc (entry_size d n (p, w)) (record_doc d n (p, w)))"
  have r1: "rr_files run1 = drop_entry n (if site_text_of ?c n = Some w then set_site n p ?c else ?c)"
    "rr_refused run1 = rr_refused run"
    using Cons.prems(1) ok by (simp_all add: run1_def restore_entry_def read_entry_ok read_site_ok Let_def)
  have files: "files_ok (rr_files run1)" "site_text_of (rr_files run1) = (site_text_of ?c)(n := p)"
    using Cons.prems(1) ok by (auto simp: r1 files_ok_set fun_eq_iff)
  have j1: "journal_dir (rr_files run1) = journal_dir ?c"
    "journal_entries (rr_files run1) = filter (\<lambda>(k, _). k \<noteq> n) (journal_entries ?c)"
    by (simp_all add: r1 drop_entry_def set_site_def)
  have n: "n \<notin> fst ` set L" "distinct (map fst L)" using Cons.prems(2) by (auto simp: e)
  have "\<forall>x\<in>set L. record_ok d (rr_files run1) x"
  proof
    fix x assume x: "x \<in> set L"
    then have "record_ok d (rr_files run) x" "fst x \<noteq> n" using Cons.prems(3) n(1) by auto
    then show "record_ok d (rr_files run1) x" by (cases x) (simp add: record_ok_def files(2))
  qed
  from Cons.IH [OF files(1) n(2) this] obtain run' where run': "foldl (restore_entry d) run1 (entries_of d L) = run'"
    "rr_refused run' = rr_refused run1" "files_ok (rr_files run')" "journal_dir (rr_files run') = journal_dir (rr_files run1)"
    "journal_entries (rr_files run') = filter (\<lambda>(k, _). k \<notin> fst ` set L) (journal_entries (rr_files run1))"
    "site_text_of (rr_files run') = accepted_of L (site_text_of (rr_files run1))"
    by blast
  have "foldl (restore_entry d) run (entries_of d (e # L)) = run'"
    using run'(1) by (simp add: entries_of_def e run1_def)
  moreover have "map_of L n = None" using n(1) by (simp add: map_of_eq_None_iff)
  moreover have "accepted_of L ((site_text_of ?c)(n := p)) = accepted_of (e # L) (site_text_of ?c)"
    using \<open>map_of L n = None\<close> by (simp add: accepted_of_upd e)
  moreover have "filter (\<lambda>(k, _). k \<notin> fst ` set L) (filter (\<lambda>(k, _). k \<noteq> n) es)
      = filter (\<lambda>(k, _). k \<notin> fst ` set (e # L)) es" for es :: "(string \<times> entry_node) list"
    by (induction es) (auto simp: e)
  ultimately show ?case using run' r1(2) j1 files(2) by (intro exI [of _ run']) simp
qed

lemma sort_entries: "sort_key entry_file (entries_of d R) = entries_of d (sort_key entry_file R)"
proof -
  have "insort_key entry_file (n, Entry_Doc (entry_size d n r) (record_doc d n r)) (entries_of d R) = entries_of d (insort_key entry_file (n, r) R)" for n r R
    by (induction R) (auto simp: entries_of_def entry_file_def)
  then show ?thesis by (induction R) (auto simp: entries_of_def)
qed

lemma abstracts_restore:
  assumes "abstracts d R c a"
  shows "\<exists>R'. abstracts d R' (snd (restore_sites d c)) (spec_step a (Reload False True goes))"
    and "snd (snd (fst (restore_sites d c))) = []"
proof -
  have c: "files_ok c" "journal_entries c = entries_of d R" "distinct (map fst R)" "\<forall>e\<in>set R. record_ok d c e"
    "journal_dir c = Dir_Missing \<longrightarrow> R = []" "journal_dir c \<noteq> Dir_Refused"
    and a: "sp_current a = site_text_of c"
      "sp_accepted a = accepted_of R (site_text_of c)"
    using assms by (auto simp: abstracts_def files_ok_def)
  have "(\<exists>R'. abstracts d R' (snd (restore_sites d c)) (spec_step a (Reload False True goes)))
    \<and> snd (snd (fst (restore_sites d c))) = []"
  proof (cases "journal_dir c = Dir_Missing")
    case True
    then have "snd (restore_sites d c) = c" "R = []" "snd (snd (fst (restore_sites d c))) = []"
      using c(5) by (simp_all add: restore_sites_def)
    moreover have "spec_step a (Reload False True goes) = a" using a \<open>R = []\<close> by simp
    ultimately show ?thesis using assms by auto
  next
    case False
    let ?L = "sort_key entry_file R" and ?run = "\<lparr> rr_files = c, rr_restored = [], rr_refused = [] \<rparr>"
    have L: "distinct (map fst ?L)" "set ?L = set R"
    proof -
      show "distinct (map fst ?L)" using c(3) by (simp add: distinct_map)
    qed simp
    have m: "map_of ?L = map_of R"
      using L c(3) by (intro map_of_inject_set [THEN iffD2]) auto
    have same: "accepted_of ?L = accepted_of R" using m by (simp add: accepted_of_def fun_eq_iff)
    have "\<forall>e\<in>set ?L. record_ok d (rr_files ?run) e" using c(4) L(2) by simp
    from restore_all [of ?run ?L d, OF _ L(1) this] c(1)
    obtain run' where run': "foldl (restore_entry d) ?run (entries_of d ?L) = run'" "rr_refused run' = []"
      "files_ok (rr_files run')" "journal_dir (rr_files run') = journal_dir c"
      "journal_entries (rr_files run') = filter (\<lambda>(k, _). k \<notin> fst ` set ?L) (entries_of d R)"
      "site_text_of (rr_files run') = accepted_of R (site_text_of c)"
      by (simp add: c(2) same)
    have "journal_entries (rr_files run') = entries_of d []"
      using run'(5) L(2) by (auto simp: entries_of_def filter_empty_conv intro: rev_image_eqI)
    then have "abstracts d [] (rr_files run') (spec_step a (Reload False True goes))"
      using run' a by (simp add: abstracts_def)
    moreover have "snd (restore_sites d c) = rr_files run'" "snd (snd (fst (restore_sites d c))) = []"
      using False c(2,6) run'(1,2) by (simp_all add: restore_sites_def sort_entries Let_def)
    ultimately show ?thesis by auto
  qed
  then show "\<exists>R'. abstracts d R' (snd (restore_sites d c)) (spec_step a (Reload False True goes))"
    "snd (snd (fst (restore_sites d c))) = []" by auto
qed

lemma abstracts_commit:
  assumes "abstracts d R c a"
  shows "fst (commit_sites c) = None" "\<exists>R'. abstracts d R' (snd (commit_sites c)) (spec_step a (Reload True r g))"
proof -
  have c: "files_ok c" "journal_dir c = Dir_Missing \<longrightarrow> R = []" "journal_dir c \<noteq> Dir_Refused"
    and a: "sp_current a = site_text_of c"
      "sp_accepted a = accepted_of R (site_text_of c)"
    using assms by (auto simp: abstracts_def files_ok_def)
  show "fst (commit_sites c) = None" using c(3) by (simp add: commit_sites_def)
  show "\<exists>R'. abstracts d R' (snd (commit_sites c)) (spec_step a (Reload True r g))"
  proof (cases "journal_dir c = Dir_Missing")
    case True
    then have "snd (commit_sites c) = c" "spec_step a (Reload True r g) = a"
      using c(2) a by (simp_all add: commit_sites_def)
    then show ?thesis using assms by auto
  next
    case False
    then have "snd (commit_sites c) = c\<lparr>journal_entries := []\<rparr>" using c(3) by (simp add: commit_sites_def)
    moreover have "abstracts d [] (c\<lparr>journal_entries := []\<rparr>) (spec_step a (Reload True r g))"
      using c a by (simp add: abstracts_def entries_of_def)
    ultimately show ?thesis by auto
  qed
qed

section \<open>The refinement\<close>

lemma abstracts_step:
  assumes "abstracts d R c a" "no_kill_over_pending a [e]" "entries_fit d a [e]"
  shows "\<exists>R'. abstracts d R' (files_step d c e) (spec_step a e)"
proof (cases e)
  case (Deploy n t)
  then show ?thesis using abstracts_write [OF assms(1), of True n t True] assms(3) by simp
next
  case (Deploy_Killed n t g)
  then show ?thesis using abstracts_write [OF assms(1), of False n t g] assms(2,3) by simp
next
  case (Tear_Down n)
  then show ?thesis using abstracts_remove [OF assms(1)] by simp
next
  case (Reload valid running goes)
  then show ?thesis
    using abstracts_commit [OF assms(1)] abstracts_restore [OF assms(1)] assms(1)
    by (auto simp: caddy_reload_def split: prod.splits option.splits if_splits)
qed

lemma abstracts_run:
  assumes "abstracts d R c a" "no_kill_over_pending a es" "entries_fit d a es"
  shows "\<exists>R'. abstracts d R' (foldl (files_step d) c es) (foldl spec_step a es)"
  using assms
proof (induction es arbitrary: R c a)
  case (Cons e es)
  then obtain R' where "abstracts d R' (files_step d c e) (spec_step a e)"
    using abstracts_step [OF Cons.prems(1), of e] by auto
  then show ?case using Cons by auto
qed auto

text \<open>C15. The journal of site files refines the plain promise it makes: over any sequence of deploys, teardowns
  and reloads, with deploys killed between or before their two writes as long as the site holds nothing Caddy
  has yet to accept, the site files are those of a machine that keeps the accepted configuration apart, takes
  over what is on disk when Caddy accepts it and puts back exactly the accepted one when Caddy rejects it.
  Every entry a deploy writes, the accepted and the new text in JSON, must be within the limit on entries.\<close>

theorem site_journal_refines:
  assumes "files_ok c" "journal_entries c = []"
    and "no_kill_over_pending \<lparr> sp_accepted = site_text_of c, sp_current = site_text_of c \<rparr> es"
    and "entries_fit caddy_dir \<lparr> sp_accepted = site_text_of c, sp_current = site_text_of c \<rparr> es"
  shows "site_text_of (foldl (files_step caddy_dir) c es)
    = sp_current (foldl spec_step \<lparr> sp_accepted = site_text_of c, sp_current = site_text_of c \<rparr> es)"
proof -
  have "abstracts caddy_dir [] c \<lparr> sp_accepted = site_text_of c, sp_current = site_text_of c \<rparr>"
    using assms(1,2) by (simp add: abstracts_def entries_of_def)
  from abstracts_run [OF this assms(3,4)] show ?thesis by (auto simp: abstracts_def)
qed

definition example_files :: caddy_files where
  "example_files = \<lparr> sites_dir = Dir_There, journal_dir = Dir_Missing,
     site_files = [''a.conf'' \<mapsto> Site_File ''old''], journal_entries = [] \<rparr>"

lemma example_files_ok: "files_ok example_files" "site_text_of example_files ''a.conf'' = Some ''old''" "site_name ''a.conf''"
proof -
  show n: "site_name ''a.conf''" by code_simp
  have "site_text_of example_files = [''a.conf'' \<mapsto> ''old'']" using n by (auto simp: site_text_of_def example_files_def)
  moreover have "utf8_length ''old'' \<le> max_site_bytes" by code_simp
  ultimately show "files_ok example_files" "site_text_of example_files ''a.conf'' = Some ''old''"
    by (auto simp: files_ok_def fits_def) (auto simp: example_files_def)
qed

theorem site_journal_refines_witness:
  "site_text_of (foldl (files_step ''/c'') example_files
     [Deploy_Killed ''a.conf'' ''lost'' True, Deploy ''a.conf'' ''bad'', Deploy ''a.conf'' ''worse'', Reload False True True]) ''a.conf''
   = Some ''old''"
proof -
  have size: "entry_size ''/c'' ''a.conf'' (Some ''old'', t) \<le> max_entry_bytes" if "t \<in> {''lost'', ''bad'', ''worse''}" for t
    using that by (elim insertE emptyE) (simp only:, code_simp)+
  have "journal_entries example_files = []" "utf8_length ''bad'' \<le> max_site_bytes" "utf8_length ''worse'' \<le> max_site_bytes"
    by code_simp+
  then show ?thesis
    using site_journal_refines [OF example_files_ok(1), of "[Deploy_Killed ''a.conf'' ''lost'' True, Deploy ''a.conf'' ''bad'',
        Deploy ''a.conf'' ''worse'', Reload False True True]" "''/c''"] example_files_ok(2,3) size
    by simp
qed

text \<open>
  A deploy killed between its two writes over a text Caddy has not accepted: the
  entry then holds a text that was never on disk, so the rejected reload leaves the
  unaccepted text in place and forgets the accepted one.
\<close>

lemma killed_over_pending:
  "site_files (foldl (files_step ''/c'') example_files
     [Deploy ''a.conf'' ''bad'', Deploy_Killed ''a.conf'' ''newer'' True, Reload False True True]) ''a.conf'' = Some (Site_File ''bad'')
   \<and> journal_entries (foldl (files_step ''/c'') example_files
     [Deploy ''a.conf'' ''bad'', Deploy_Killed ''a.conf'' ''newer'' True, Reload False True True]) = []"
  by code_simp

text \<open>
  The limit on an entry is four times that on a site, but JSON may take three bytes
  for one: a deploy over a site of 700000 such bytes is accepted, and then its own
  entry is refused.  The rejected text stays, and no deploy of the site goes through.
\<close>

definition wide_text :: "char \<Rightarrow> string" where
  "wide_text ch = ch # replicate 350000 (CHR 0xE9)"

lemma wide_entry: "max_entry_bytes < entry_size d n (Some (wide_text a), wide_text b)"
proof -
  have "length (json_str (wide_text ch)) = length (json_char ch) + 2100002" for ch
    using json_str_replicate [of 350000 "CHR 0xE9"] json_char_length [of "CHR 0xE9"]
    by (simp add: wide_text_def json_str_def code_def)
  then show ?thesis by (simp add: entry_size_def entry_text_def max_entry_bytes_def max_site_bytes_def json_member_def)
qed

lemma wide_files:
  assumes "c = example_files\<lparr>site_files := [''a.conf'' \<mapsto> Site_File (wide_text CHR ''o'')]\<rparr>"
  shows "files_ok c" "site_text_of c ''a.conf'' = Some (wide_text CHR ''o'')"
    "utf8_length (wide_text CHR ''n'') \<le> max_site_bytes"
proof -
  have u: "utf8_length (wide_text ch) \<le> max_site_bytes" for ch
    by (simp add: utf8_length_def wide_text_def max_site_bytes_def code_def)
  have t: "site_text_of c = [''a.conf'' \<mapsto> wide_text CHR ''o'']"
    using example_files_ok(3) by (auto simp: assms site_text_of_def)
  show "files_ok c" using u by (simp add: files_ok_def t fits_def) (simp add: assms example_files_def)
  show "site_text_of c ''a.conf'' = Some (wide_text CHR ''o'')" "utf8_length (wide_text CHR ''n'') \<le> max_site_bytes"
    using u by (simp_all add: t)
qed

lemma own_entry_refused:
  assumes c: "c = example_files\<lparr>site_files := [''a.conf'' \<mapsto> Site_File (wide_text CHR ''o'')]\<rparr>"
    and c': "c' = files_step ''/c'' c (Deploy ''a.conf'' (wide_text CHR ''n''))"
  shows "site_text_of c' ''a.conf'' = Some (wide_text CHR ''n'')
    \<and> files_step ''/c'' c' (Reload False True True) = c'
    \<and> (\<forall>t. utf8_length t \<le> max_site_bytes \<longrightarrow>
          write_site True True ''/c'' True ''a.conf'' t c' = (Some (Raised (Entry_Refused ''a.conf'')), c'))"
proof -
  note n = example_files_ok(3) and files = wide_files [OF c]
  let ?r = "(Some (wide_text CHR ''o''), wide_text CHR ''n'')"
  let ?e = "Entry_Doc (entry_size ''/c'' ''a.conf'' ?r) (record_doc ''/c'' ''a.conf'' ?r)"
  have j: "journal_entries c = []" by (simp add: c example_files_def)
  have c'_eq: "c' = set_site ''a.conf'' (Some (wide_text CHR ''n'')) (put_entry ''/c'' ''a.conf'' ?r c)"
    using files n by (simp add: c' write_site_def entry_site_ok previous_for_def j read_site_ok)
  have ok': "files_ok c'" "site_text_of c' ''a.conf'' = Some (wide_text CHR ''n'')"
    using files n by (simp_all add: c'_eq files_ok_set fits_def)
  have j': "journal_entries c' = [(''a.conf'', ?e)]" "journal_dir c' = Dir_There"
    by (simp_all add: c'_eq set_site_def put_entry_def j)
  have refused: "read_entry ''/c'' c' ''a.conf'' ?e = Inl (Entry_Refused ''a.conf'')"
    using wide_entry n ok'(1) by (simp add: read_entry_def checked_site_ok)
  have "files_step ''/c'' c' (Reload False True True) = c'"
    using refused j' by (simp add: caddy_reload_def restore_sites_def restore_entry_def Let_def)
  moreover have "write_site True True ''/c'' True ''a.conf'' t c' = (Some (Raised (Entry_Refused ''a.conf'')), c')"
    if "utf8_length t \<le> max_site_bytes" for t
    using that refused n ok'(1) j' by (simp add: write_site_def entry_site_ok previous_for_def)
  ultimately show ?thesis using ok'(2) by blast
qed

end
