(* ===== verification/Security_Resolve.thy ===== *)
theory Security_Resolve
  imports Security_Overlay
begin

text \<open>
  \<^verbatim>\<open>src/boxmunge/security_overlay.py\<close>, the resolver: the settings a service gets
  from its profile, the project's overrides and its own, and the compose fragment
  they render to.  The resolved dictionary is a record of optional fields (absent
  key: \<open>None\<close>).  A value the schema check would have refused is \<open>Unmodelled\<close>.
\<close>

definition default_cap_drop :: "string list" where
  "default_cap_drop =
     [''NET_ADMIN'', ''SYS_PTRACE'', ''SYS_MODULE'', ''SYS_RAWIO'', ''SYS_TIME'', ''SYS_BOOT'',
      ''MAC_ADMIN'', ''MAC_OVERRIDE'', ''MKNOD'', ''AUDIT_WRITE'', ''WAKE_ALARM'',
      ''BLOCK_SUSPEND'', ''LEASE'', ''NET_RAW'']"

definition default_pids_limit :: int where "default_pids_limit = 512"

definition nnp_true :: string where "nnp_true = ''no-new-privileges:true''"
definition nnp_false :: string where "nnp_false = ''no-new-privileges:false''"

record settings =
  security_opt :: "string list option"
  init_proc :: "bool option"
  pids_limit :: "int option"
  cap_drop :: "string list option"
  cap_add :: "string list option"
  read_only :: "bool option"
  tmpfs :: "string list option"

definition no_settings :: settings where
  "no_settings = \<lparr> security_opt = None, init_proc = None, pids_limit = None, cap_drop = None,
                   cap_add = None, read_only = None, tmpfs = None \<rparr>"

definition default_baseline :: settings where
  "default_baseline =
     \<lparr> security_opt = Some [nnp_true], init_proc = Some True,
       pids_limit = Some default_pids_limit, cap_drop = Some default_cap_drop,
       cap_add = Some [], read_only = Some True, tmpfs = Some [''/tmp''] \<rparr>"

definition baseline_for_profile :: "pyval \<Rightarrow> py_exc + settings" where
  "baseline_for_profile profile =
     (if profile = PStr profile_default then Inr default_baseline
      else if profile = PStr profile_off then Inr no_settings
      else Inl ValueError)"

definition overlay_security_opt_for_profile :: "pyval \<Rightarrow> py_exc + string list" where
  "overlay_security_opt_for_profile profile =
     rbind (baseline_for_profile profile) (\<lambda>b. Inr (or_else (security_opt b) []))"

text \<open>\<open>list(value)\<close> of a list of strings, and \<open>int(value)\<close>.\<close>

definition str_list :: "pyval \<Rightarrow> py_exc + string list" where
  "str_list v = (case v of PList xs \<Rightarrow> rmap str_field xs | _ \<Rightarrow> Inl Unmodelled)"

fun int_of_value :: "pyval \<Rightarrow> py_exc + int" where
  "int_of_value (PInt n) = Inr n"
| "int_of_value (PBool b) = Inr (if b then 1 else 0)"
| "int_of_value _ = Inl Unmodelled"

definition is_zero :: "pyval \<Rightarrow> bool" where
  "is_zero v \<longleftrightarrow> v = PInt 0 \<or> v = PBool False \<or> v = PFloat 0"

definition override_nnp :: "pyval \<Rightarrow> settings \<Rightarrow> settings" where
  "override_nnp v r =
     (let kept = filter (\<lambda>s. s \<noteq> nnp_true) (or_else (security_opt r) []);
          opts = (if v = PBool True then kept @ [nnp_true] else kept)
      in r\<lparr>security_opt := (if opts \<noteq> [] then Some opts else None)\<rparr>)"

definition override_pids :: "pyval \<Rightarrow> settings \<Rightarrow> py_exc + settings" where
  "override_pids v r =
     (if is_zero v then Inr (r\<lparr>pids_limit := None\<rparr>)
      else rbind (int_of_value v) (\<lambda>n. Inr (r\<lparr>pids_limit := Some n\<rparr>)))"

definition override_fields :: "string list" where
  "override_fields = [''no_new_privileges'', ''init'', ''pids_limit'', ''cap_drop'', ''cap_add'']"

definition apply_override :: "pydict \<Rightarrow> settings \<Rightarrow> string \<Rightarrow> py_exc + settings" where
  "apply_override overrides r field = (case dget overrides field of
     None \<Rightarrow> Inr r
   | Some v \<Rightarrow>
       (if field = ''no_new_privileges'' then Inr (override_nnp v r)
        else if field = ''init'' then Inr (r\<lparr>init_proc := Some (py_truthy v)\<rparr>)
        else if field = ''pids_limit'' then override_pids v r
        else if field = ''cap_drop'' then rbind (str_list v) (\<lambda>cs. Inr (r\<lparr>cap_drop := Some cs\<rparr>))
        else if field = ''cap_add'' then rbind (str_list v) (\<lambda>cs. Inr (r\<lparr>cap_add := Some cs\<rparr>))
        else Inr r))"

definition apply_overrides :: "settings \<Rightarrow> pydict \<Rightarrow> py_exc + settings" where
  "apply_overrides baseline overrides = rfold (apply_override overrides) baseline override_fields"

definition subtract_cap_adds :: "settings \<Rightarrow> settings" where
  "subtract_cap_adds r =
     (let add = or_else (cap_add r) [] in
      if add = [] then r
      else r\<lparr>cap_drop := Some (filter (\<lambda>c. c \<notin> set add) (or_else (cap_drop r) []))\<rparr>)"

text \<open>The blocks are \<open>dict | None\<close>, \<open>None\<close> being an empty one.\<close>

definition resolve_security :: "pydict \<Rightarrow> pydict \<Rightarrow> py_exc + settings" where
  "resolve_security project service =
     rbind
       (case dget service ''profile'' of
          Some p \<Rightarrow> baseline_for_profile p
        | None \<Rightarrow>
            rbind (baseline_for_profile (dget_or project ''profile'' (PStr profile_default)))
              (\<lambda>b. apply_overrides b project))
       (\<lambda>b. rbind (apply_overrides b service) (\<lambda>r. Inr (subtract_cap_adds r)))"

definition effective_profile :: "pydict \<Rightarrow> pydict \<Rightarrow> pyval" where
  "effective_profile project service = (case dget service ''profile'' of
     Some p \<Rightarrow> p
   | None \<Rightarrow> dget_or project ''profile'' (PStr profile_default))"

text \<open>\<open>x or {}\<close> where \<open>x\<close> should be a mapping or \<open>None\<close>.\<close>

fun dict_or_empty :: "pyval \<Rightarrow> pydict" where
  "dict_or_empty (PDict d) = d"
| "dict_or_empty _ = []"

definition service_security :: "pyval \<Rightarrow> pydict" where
  "service_security svc = (case svc of
     PDict s \<Rightarrow> dict_or_empty (dget_or s ''security'' PNone) | _ \<Rightarrow> [])"

definition services_with_off_profile :: "pydict \<Rightarrow> (pyval \<times> pyval) list" where
  "services_with_off_profile manifest =
     (let project = dict_or_empty (dget_or manifest ''security'' PNone) in
      List.map_filter (\<lambda>(name, svc).
        let sec = service_security svc in
        if effective_profile project sec \<noteq> PStr profile_off then None
        else if dget sec ''profile'' = Some (PStr profile_off)
          then Some (name, dget_or sec ''reason'' (PStr []))
        else Some (name, dget_or project ''reason'' (PStr [])))
      (dict_or_empty (dget_or manifest ''services'' PNone)))"

datatype diff = Diff_Nnp bool | Diff_Init "bool option" | Diff_Pids "int option"
  | Diff_Cap_Drop "string list" | Diff_Cap_Add "string list option"

definition settings_diffs :: "settings \<Rightarrow> diff list" where
  "settings_diffs r =
     (let nnp = (nnp_true \<in> set (or_else (security_opt r) [])) in
      problem_if (\<not> nnp) (Diff_Nnp nnp)
      @ problem_if (init_proc r \<noteq> init_proc default_baseline) (Diff_Init (init_proc r))
      @ problem_if (pids_limit r \<noteq> pids_limit default_baseline) (Diff_Pids (pids_limit r))
      @ problem_if (set (or_else (cap_drop r) []) \<noteq> set default_cap_drop)
          (Diff_Cap_Drop (sort (or_else (cap_drop r) [])))
      @ problem_if (cap_add r \<noteq> cap_add default_baseline) (Diff_Cap_Add (cap_add r)))"

definition service_overrides :: "pydict \<Rightarrow> pyval \<times> pyval \<Rightarrow> py_exc + (pyval \<times> diff list) list" where
  "service_overrides project entry = (case entry of (name, svc) \<Rightarrow>
     (if \<not> is_pdict svc \<or> effective_profile project (service_security svc) = PStr profile_off
      then Inr []
      else rbind (resolve_security project (service_security svc)) (\<lambda>r.
        if r = default_baseline \<or> settings_diffs r = [] then Inr []
        else Inr [(name, settings_diffs r)])))"

definition services_with_overrides :: "pydict \<Rightarrow> py_exc + (pyval \<times> diff list) list" where
  "services_with_overrides manifest =
     rbind (rmap (service_overrides (dict_or_empty (dget_or manifest ''security'' PNone)))
              (dict_or_empty (dget_or manifest ''services'' PNone)))
       (\<lambda>rs. Inr (concat rs))"

definition nonempty :: "'a list option \<Rightarrow> 'a list option" where
  "nonempty m = (case m of Some (x # xs) \<Rightarrow> Some (x # xs) | _ \<Rightarrow> None)"

definition render_compose_security_fragment :: "settings \<Rightarrow> settings" where
  "render_compose_security_fragment r =
     \<lparr> security_opt = nonempty (security_opt r), init_proc = init_proc r,
       pids_limit = pids_limit r, cap_drop = nonempty (cap_drop r),
       cap_add = nonempty (cap_add r), read_only = read_only r, tmpfs = nonempty (tmpfs r) \<rparr>"

section \<open>What a service ends up with\<close>

text \<open>One override touches one field.\<close>

lemma apply_override_frame:
  assumes "apply_override ov r field = Inr r'"
  shows "read_only r' = read_only r \<and> tmpfs r' = tmpfs r
    \<and> (field \<noteq> ''no_new_privileges'' \<or> \<not> dhas ov field \<longrightarrow> security_opt r' = security_opt r)
    \<and> (field \<noteq> ''init'' \<or> \<not> dhas ov field \<longrightarrow> init_proc r' = init_proc r)
    \<and> (field \<noteq> ''pids_limit'' \<or> \<not> dhas ov field \<longrightarrow> pids_limit r' = pids_limit r)
    \<and> (field \<noteq> ''cap_drop'' \<or> \<not> dhas ov field \<longrightarrow> cap_drop r' = cap_drop r)
    \<and> (field \<noteq> ''cap_add'' \<or> \<not> dhas ov field \<longrightarrow> cap_add r' = cap_add r)"
proof (cases "dget ov field")
  case None
  with assms show ?thesis by (simp add: apply_override_def)
next
  case (Some v)
  consider "field = ''no_new_privileges''" | "field = ''init''" | "field = ''pids_limit''"
    | "field = ''cap_drop''" | "field = ''cap_add''" | "r' = r"
    using assms Some by (auto simp: apply_override_def split: if_splits)
  then show ?thesis
    using assms Some
    by cases (auto simp: apply_override_def dhas_def override_nnp_def override_pids_def Let_def rbind_eq_Inr
        split: if_splits)
qed

text \<open>Overrides that do not name a field keep it.\<close>

lemma apply_overrides_keeps:
  assumes "apply_overrides r ov = Inr r'"
  shows "read_only r' = read_only r" "tmpfs r' = tmpfs r"
    "\<not> dhas ov ''no_new_privileges'' \<Longrightarrow> security_opt r' = security_opt r"
    "\<not> dhas ov ''init'' \<Longrightarrow> init_proc r' = init_proc r"
    "\<not> dhas ov ''pids_limit'' \<Longrightarrow> pids_limit r' = pids_limit r"
    "\<not> dhas ov ''cap_drop'' \<Longrightarrow> cap_drop r' = cap_drop r"
    "\<not> dhas ov ''cap_add'' \<Longrightarrow> cap_add r' = cap_add r"
proof -
  have keep: "g r' = g r" if frame: "\<And>field s s'. field \<in> set override_fields \<Longrightarrow>
      apply_override ov s field = Inr s' \<Longrightarrow> g s' = g s" for g :: "settings \<Rightarrow> 'z"
    by (rule rfold_invariant [where P = "\<lambda>s. g s = g r", OF assms [unfolded apply_overrides_def]])
      (use frame in auto)
  show "read_only r' = read_only r" by (rule keep) (auto dest: apply_override_frame)
  show "tmpfs r' = tmpfs r" by (rule keep) (auto dest: apply_override_frame)
  show "security_opt r' = security_opt r" if "\<not> dhas ov ''no_new_privileges''"
    by (rule keep) (use that apply_override_frame in blast)
  show "init_proc r' = init_proc r" if "\<not> dhas ov ''init''"
    by (rule keep) (use that apply_override_frame in blast)
  show "pids_limit r' = pids_limit r" if "\<not> dhas ov ''pids_limit''"
    by (rule keep) (use that apply_override_frame in blast)
  show "cap_drop r' = cap_drop r" if "\<not> dhas ov ''cap_drop''"
    by (rule keep) (use that apply_override_frame in blast)
  show "cap_add r' = cap_add r" if "\<not> dhas ov ''cap_add''"
    by (rule keep) (use that apply_override_frame in blast)
qed

text \<open>An override list that arrives at a capability field is the field's new value.\<close>

lemma apply_overrides_cap_add:
  assumes "apply_overrides r ov = Inr r'" "dget ov ''cap_add'' = Some v"
  shows "\<exists>cs. str_list v = Inr cs \<and> cap_add r' = Some cs"
proof -
  have "rfold (apply_override ov) r
      ([''no_new_privileges'', ''init'', ''pids_limit'', ''cap_drop''] @ [''cap_add'']) = Inr r'"
    using assms(1) by (simp only: apply_overrides_def override_fields_def append.simps)
  then obtain s where "rfold (apply_override ov) s [''cap_add''] = Inr r'"
    unfolding rfold_append rbind_eq_Inr by blast
  with assms(2) show ?thesis by (auto simp: apply_override_def rbind_eq_Inr)
qed

text \<open>What overrides make of the settings before them, field by field.\<close>

definition has_nnp :: "settings \<Rightarrow> bool" where
  "has_nnp r \<longleftrightarrow> nnp_true \<in> set (or_else (security_opt r) [])"

definition cap_setting :: "pyval option \<Rightarrow> string list \<Rightarrow> py_exc + string list" where
  "cap_setting m d = (case m of None \<Rightarrow> Inr d | Some v \<Rightarrow> str_list v)"

definition pids_setting :: "pyval option \<Rightarrow> int option \<Rightarrow> py_exc + int option" where
  "pids_setting m d = (case m of None \<Rightarrow> Inr d
     | Some v \<Rightarrow> if is_zero v then Inr None else rbind (int_of_value v) (\<lambda>n. Inr (Some n)))"

lemma has_nnp_override: "has_nnp (override_nnp v r) \<longleftrightarrow> v = PBool True"
  by (cases "v = PBool True") (auto simp: has_nnp_def override_nnp_def Let_def or_else_def)

lemma overrides_values:
  assumes "apply_overrides r ov = Inr r'"
  shows "has_nnp r' \<longleftrightarrow> (case dget ov ''no_new_privileges'' of None \<Rightarrow> has_nnp r | Some v \<Rightarrow> v = PBool True)"
    "init_proc r' = (case dget ov ''init'' of None \<Rightarrow> init_proc r | Some v \<Rightarrow> Some (py_truthy v))"
    "pids_setting (dget ov ''pids_limit'') (pids_limit r) = Inr (pids_limit r')"
    "cap_setting (dget ov ''cap_drop'') (or_else (cap_drop r) []) = Inr (or_else (cap_drop r') [])"
    "cap_setting (dget ov ''cap_add'') (or_else (cap_add r) []) = Inr (or_else (cap_add r') [])"
proof -
  obtain s1 s2 s3 s4 where steps: "apply_override ov r ''no_new_privileges'' = Inr s1" "apply_override ov s1 ''init'' = Inr s2"
    "apply_override ov s2 ''pids_limit'' = Inr s3" "apply_override ov s3 ''cap_drop'' = Inr s4" "apply_override ov s4 ''cap_add'' = Inr r'"
    using assms by (auto simp: apply_overrides_def override_fields_def rbind_eq_Inr)
  note frames = apply_override_frame [OF steps(1)] apply_override_frame [OF steps(2)] apply_override_frame [OF steps(3)]
    apply_override_frame [OF steps(4)] apply_override_frame [OF steps(5)]
  have nnp: "security_opt r' = security_opt s1" and init: "init_proc r' = init_proc s2" "init_proc s1 = init_proc r"
    and pids: "pids_limit r' = pids_limit s3" "pids_limit s2 = pids_limit r"
    and drop: "cap_drop r' = cap_drop s4" "cap_drop s3 = cap_drop r" and add: "cap_add s4 = cap_add r"
    using frames by simp_all
  show "has_nnp r' \<longleftrightarrow> (case dget ov ''no_new_privileges'' of None \<Rightarrow> has_nnp r | Some v \<Rightarrow> v = PBool True)"
  proof -
    have "has_nnp r' = has_nnp s1" using nnp by (simp add: has_nnp_def)
    then show ?thesis using steps(1) by (auto simp: apply_override_def has_nnp_override split: option.splits)
  qed
  show "init_proc r' = (case dget ov ''init'' of None \<Rightarrow> init_proc r | Some v \<Rightarrow> Some (py_truthy v))"
    using steps(2) init by (auto simp: apply_override_def split: option.splits)
  show "pids_setting (dget ov ''pids_limit'') (pids_limit r) = Inr (pids_limit r')"
    using steps(3) pids by (auto simp: pids_setting_def apply_override_def override_pids_def rbind_eq_Inr split: option.splits if_splits)
  show "cap_setting (dget ov ''cap_drop'') (or_else (cap_drop r) []) = Inr (or_else (cap_drop r') [])"
    using steps(4) drop by (auto simp: cap_setting_def apply_override_def or_else_def rbind_eq_Inr split: option.splits)
  show "cap_setting (dget ov ''cap_add'') (or_else (cap_add r) []) = Inr (or_else (cap_add r') [])"
    using steps(5) add by (auto simp: cap_setting_def apply_override_def or_else_def rbind_eq_Inr split: option.splits)
qed

lemma subtract_cap_adds_fields [simp]:
  "security_opt (subtract_cap_adds r) = security_opt r"
  "init_proc (subtract_cap_adds r) = init_proc r"
  "pids_limit (subtract_cap_adds r) = pids_limit r"
  "cap_add (subtract_cap_adds r) = cap_add r"
  "read_only (subtract_cap_adds r) = read_only r"
  "tmpfs (subtract_cap_adds r) = tmpfs r"
  by (simp_all add: subtract_cap_adds_def Let_def)

lemma subtract_cap_adds_drop [simp]:
  "or_else (cap_drop (subtract_cap_adds r)) [] =
     filter (\<lambda>c. c \<notin> set (or_else (cap_add r) [])) (or_else (cap_drop r) [])"
proof (cases "or_else (cap_add r) [] = []")
  case True
  then show ?thesis by (simp add: subtract_cap_adds_def Let_def)
next
  case False
  then show ?thesis by (simp add: subtract_cap_adds_def Let_def) (simp add: or_else_def)
qed

lemma subtract_cap_adds_disjoint:
  "set (or_else (cap_drop (subtract_cap_adds r)) []) \<inter> set (or_else (cap_add r) []) = {}"
  by auto

lemma resolve_security_cases:
  assumes "resolve_security project service = Inr r"
  shows "\<exists>b r0. apply_overrides b service = Inr r0 \<and> r = subtract_cap_adds r0
    \<and> (dget service ''profile'' = None \<longrightarrow>
       (\<exists>b0. baseline_for_profile (dget_or project ''profile'' (PStr profile_default)) = Inr b0
          \<and> apply_overrides b0 project = Inr b))
    \<and> (\<forall>p. dget service ''profile'' = Some p \<longrightarrow> baseline_for_profile p = Inr b)"
  using assms by (auto simp: resolve_security_def rbind_eq_Inr split: option.splits)

text \<open>
  The value that decides a field: the service's own, else the project's, which counts only
  for a service that names no profile of its own.
\<close>

definition setting :: "pydict \<Rightarrow> pydict \<Rightarrow> string \<Rightarrow> pyval option" where
  "setting project service field = (case dget service field of
     Some v \<Rightarrow> Some v
   | None \<Rightarrow> if dhas service ''profile'' then None else dget project field)"

text \<open>C39. No setting of a block weakens what it does not name.  Of a service that ends up on the default
  profile: the root is read-only and \<open>/tmp\<close> writable, whatever else is set; it has no-new-privileges exactly
  unless the deciding block sets that field to something other than true, an init process unless its own field turns it off,
  and the default process limit unless its own field sets one (or none, with zero); it drops the default
  capabilities, or those of the deciding \<open>cap_drop\<close>, less exactly those the deciding \<open>cap_add\<close> gives, and
  is given those and no other.\<close>

theorem resolve_security_fail_safe:
  assumes "resolve_security project service = Inr r" "effective_profile project service = PStr profile_default"
  shows "read_only r = Some True \<and> tmpfs r = Some [''/tmp'']
    \<and> (has_nnp r \<longleftrightarrow> setting project service ''no_new_privileges'' \<in> {None, Some (PBool True)})
    \<and> init_proc r = Some (case setting project service ''init'' of None \<Rightarrow> True | Some v \<Rightarrow> py_truthy v)
    \<and> pids_setting (setting project service ''pids_limit'') (Some default_pids_limit) = Inr (pids_limit r)
    \<and> (\<exists>drop. cap_setting (setting project service ''cap_drop'') default_cap_drop = Inr drop
        \<and> or_else (cap_drop r) [] = filter (\<lambda>c. c \<notin> set (or_else (cap_add r) [])) drop)
    \<and> cap_setting (setting project service ''cap_add'') [] = Inr (or_else (cap_add r) [])"
proof -
  from assms(1) obtain b r0 where r0: "apply_overrides b service = Inr r0"
    and r: "r = subtract_cap_adds r0"
    and none: "dget service ''profile'' = None \<Longrightarrow>
       \<exists>b0. baseline_for_profile (dget_or project ''profile'' (PStr profile_default)) = Inr b0
          \<and> apply_overrides b0 project = Inr b"
    and some: "\<And>p. dget service ''profile'' = Some p \<Longrightarrow> baseline_for_profile p = Inr b"
    using resolve_security_cases by blast
  have bl: "baseline_for_profile (PStr profile_default) = Inr default_baseline"
    by (simp add: baseline_for_profile_def)
  define ov where "ov = (if dhas service ''profile'' then [] else project)"
  have b: "apply_overrides default_baseline ov = Inr b"
  proof (cases "dget service ''profile''")
    case None
    then show ?thesis using none assms(2) bl by (auto simp: ov_def dhas_def effective_profile_def)
  next
    case (Some p)
    then have "b = default_baseline" using some [OF Some] assms(2) bl by (simp add: effective_profile_def)
    then show ?thesis using Some
      by (simp add: ov_def dhas_def apply_overrides_def override_fields_def apply_override_def dget_def)
  qed
  have base: "has_nnp default_baseline" "init_proc default_baseline = Some True" "pids_limit default_baseline = Some default_pids_limit"
    "or_else (cap_drop default_baseline) [] = default_cap_drop" "or_else (cap_add default_baseline) [] = []"
    by (simp_all add: has_nnp_def default_baseline_def or_else_def)
  have set: "setting project service field = (case dget service field of Some v \<Rightarrow> Some v | None \<Rightarrow> dget ov field)" for field
    by (simp add: setting_def ov_def dget_def split: option.split)
  note first = overrides_values [OF b, unfolded base] and then_own = overrides_values [OF r0]
  have "read_only r0 = Some True" "tmpfs r0 = Some [''/tmp'']"
    using apply_overrides_keeps(1,2) [OF r0] apply_overrides_keeps(1,2) [OF b] by (simp_all add: default_baseline_def)
  moreover have "has_nnp r0 \<longleftrightarrow> setting project service ''no_new_privileges'' \<in> {None, Some (PBool True)}"
    using first(1) base(1) then_own(1) by (auto simp: set split: option.splits)
  moreover have "init_proc r0 = Some (case setting project service ''init'' of None \<Rightarrow> True | Some v \<Rightarrow> py_truthy v)"
    using first(2) then_own(2) by (auto simp: set split: option.splits)
  moreover have "pids_setting (setting project service ''pids_limit'') (Some default_pids_limit) = Inr (pids_limit r0)"
    using first(3) then_own(3) by (cases "dget service ''pids_limit''") (simp_all add: set pids_setting_def)
  moreover have "cap_setting (setting project service ''cap_drop'') default_cap_drop = Inr (or_else (cap_drop r0) [])"
    using first(4) then_own(4) by (cases "dget service ''cap_drop''") (simp_all add: set cap_setting_def)
  moreover have "cap_setting (setting project service ''cap_add'') [] = Inr (or_else (cap_add r0) [])"
    using first(5) then_own(5) by (cases "dget service ''cap_add''") (simp_all add: set cap_setting_def)
  ultimately show ?thesis unfolding r by (simp add: has_nnp_def)
qed

theorem resolve_security_fail_safe_witness:
  "\<exists>r. resolve_security [(PStr ''pids_limit'', PInt 64)]
       [(PStr ''cap_add'', PList [PStr ''NET_RAW'']), (PStr ''no_new_privileges'', PBool False)] = Inr r
     \<and> read_only r = Some True \<and> \<not> has_nnp r \<and> pids_limit r = Some 64
     \<and> ''NET_RAW'' \<notin> set (or_else (cap_drop r) []) \<and> ''NET_ADMIN'' \<in> set (or_else (cap_drop r) [])"
proof -
  let ?p = "[(PStr ''pids_limit'', PInt 64)]"
  let ?s = "[(PStr ''cap_add'', PList [PStr ''NET_RAW'']), (PStr ''no_new_privileges'', PBool False)]"
  obtain r where r: "resolve_security ?p ?s = Inr r"
    by (simp add: resolve_security_def baseline_for_profile_def apply_overrides_def dget_def
        override_fields_def apply_override_def override_nnp_def override_pids_def is_zero_def str_list_def dget_or_def)
  have p: "effective_profile ?p ?s = PStr profile_default"
    by (simp add: effective_profile_def dget_def dget_or_def)
  have vals: "setting ?p ?s ''no_new_privileges'' = Some (PBool False)" "setting ?p ?s ''pids_limit'' = Some (PInt 64)"
    "setting ?p ?s ''cap_drop'' = None" "setting ?p ?s ''cap_add'' = Some (PList [PStr ''NET_RAW''])" by code_simp+
  note facts = resolve_security_fail_safe [OF r p]
  have "cap_setting (setting ?p ?s ''cap_add'') [] = Inr [''NET_RAW'']" unfolding vals by code_simp
  then have add: "or_else (cap_add r) [] = [''NET_RAW'']" using facts by (metis sum.inject(2))
  have "''NET_ADMIN'' \<in> set default_cap_drop" by code_simp
  then show ?thesis using facts r add
    by (auto simp: vals pids_setting_def cap_setting_def is_zero_def)
qed

text \<open>The capabilities a service is given and those it drops never overlap, and for blocks the
  validator accepted the ones it is given exclude every denied capability.\<close>

theorem resolve_security_caps:
  assumes "resolve_security project service = Inr r"
    and "validate_security_block is_ip (PDict project) ''project'' = Inr ()"
    and "validate_security_block is_ip (PDict service) ctx = Inr ()"
  shows "set (or_else (cap_add r) []) \<inter> set (or_else (cap_drop r) []) = {}
    \<and> (\<forall>c\<in>set (or_else (cap_add r) []). c \<in> set valid_cap_names \<and> \<not> is_denied_cap c)"
proof -
  have granted: "\<forall>c\<in>set (or_else (cap_add s') []). c \<in> set valid_cap_names \<and> \<not> is_denied_cap c"
    if ov: "apply_overrides s ov = Inr s'" and cc: "check_caps ov cx ''cap_add'' = Inr ()"
      and gr: "\<forall>c\<in>set (or_else (cap_add s) []). c \<in> set valid_cap_names \<and> \<not> is_denied_cap c"
    for s ov s' cx
  proof (cases "dget ov ''cap_add''")
    case None
    with gr show ?thesis using apply_overrides_keeps(7) [OF ov] by (simp add: dhas_def)
  next
    case (Some v)
    then obtain cs where cs: "str_list v = Inr cs" "cap_add s' = Some cs"
      using apply_overrides_cap_add [OF ov] by blast
    then obtain xs where xs: "v = PList xs" "rmap str_field xs = Inr cs"
      by (auto simp: str_list_def split: pyval.splits)
    have "c \<in> set valid_cap_names \<and> \<not> is_denied_cap c" if "c \<in> set cs" for c
    proof -
      from rmap_Inr_set [OF xs(2) that] obtain x where x: "x \<in> set xs" "str_field x = Inr c" by blast
      from x(2) have "x = PStr c" by (cases x) auto
      with check_caps_ok [OF cc Some [unfolded xs(1)] x(1)]
      show ?thesis by (auto simp: is_denied_cap_def)
    qed
    with cs(2) show ?thesis by (simp add: or_else_def)
  qed
  from assms(1) obtain b r0 where r0: "apply_overrides b service = Inr r0"
    and r: "r = subtract_cap_adds r0"
    and none: "dget service ''profile'' = None \<Longrightarrow>
       \<exists>b0. baseline_for_profile (dget_or project ''profile'' (PStr profile_default)) = Inr b0
          \<and> apply_overrides b0 project = Inr b"
    and some: "\<And>p. dget service ''profile'' = Some p \<Longrightarrow> baseline_for_profile p = Inr b"
    using resolve_security_cases by blast
  have empty: "or_else (cap_add b0) [] = []" if "baseline_for_profile p = Inr b0" for p b0
    using that by (auto simp: baseline_for_profile_def default_baseline_def no_settings_def or_else_def
        split: if_splits)
  have "\<forall>c\<in>set (or_else (cap_add b) []). c \<in> set valid_cap_names \<and> \<not> is_denied_cap c"
  proof (cases "dget service ''profile''")
    case None
    then obtain p b0 where "baseline_for_profile p = Inr b0" and b: "apply_overrides b0 project = Inr b"
      using none by blast
    then have "\<forall>c\<in>set (or_else (cap_add b0) []). c \<in> set valid_cap_names \<and> \<not> is_denied_cap c"
      using empty by auto
    then show ?thesis by (rule granted [OF b validate_block_parts(5) [OF assms(2)]])
  next
    case (Some p)
    then have "or_else (cap_add b) [] = []" using empty some by blast
    then show ?thesis by simp
  qed
  then have "\<forall>c\<in>set (or_else (cap_add r0) []). c \<in> set valid_cap_names \<and> \<not> is_denied_cap c"
    by (rule granted [OF r0 validate_block_parts(5) [OF assms(3)]])
  with subtract_cap_adds_disjoint show ?thesis by (auto simp: r)
qed

theorem resolve_security_caps_witness:
  "\<exists>r. resolve_security [] [(PStr ''cap_add'', PList [PStr ''NET_RAW''])] = Inr r
     \<and> set (or_else (cap_add r) []) \<inter> set (or_else (cap_drop r) []) = {}"
proof -
  let ?s = "[(PStr ''cap_add'', PList [PStr ''NET_RAW''])]"
  obtain r where r: "resolve_security [] ?s = Inr r"
    by (simp add: resolve_security_def baseline_for_profile_def apply_overrides_def dget_def
        override_fields_def apply_override_def str_list_def dget_or_def)
  have "validate_security_block (\<lambda>_. True) (PDict []) ''project'' = Inr ()"
    "validate_security_block (\<lambda>_. True) (PDict ?s) ''service:web'' = Inr ()"
    by code_simp+
  from resolve_security_caps [OF r this] r show ?thesis by blast
qed

text \<open>The fragment written to the compose overlay says what was resolved: only empty lists are
  left out.\<close>

theorem fragment_keeps_settings:
  "or_else (cap_drop (render_compose_security_fragment r)) [] = or_else (cap_drop r) []
   \<and> or_else (cap_add (render_compose_security_fragment r)) [] = or_else (cap_add r) []
   \<and> or_else (security_opt (render_compose_security_fragment r)) [] = or_else (security_opt r) []
   \<and> read_only (render_compose_security_fragment r) = read_only r
   \<and> pids_limit (render_compose_security_fragment r) = pids_limit r"
  by (simp add: render_compose_security_fragment_def nonempty_def or_else_def split: option.splits list.splits)

end
