(* ===== verification/Run_As.thy ===== *)
theory Run_As
  imports Security_Resolve Manifest_Schema
begin

text \<open>
  \<^verbatim>\<open>src/boxmunge/run_as.py\<close> and \<open>decide_users\<close> of \<^verbatim>\<open>commands/deploy_images.py\<close>: which
  user each service runs as, the record of the decision, and what is refused.  The
  user an image declares is given.  A refusal names the service instead of holding
  the text of the message.
\<close>

section \<open>User specifications\<close>

datatype user_source = From_Compose | From_Manifest | From_Image | From_Default | From_Off | From_Chown

fun source_value :: "user_source \<Rightarrow> string" where
  "source_value From_Compose = ''compose''"
| "source_value From_Manifest = ''manifest''"
| "source_value From_Image = ''image''"
| "source_value From_Default = ''default''"
| "source_value From_Off = ''profile-off''"
| "source_value From_Chown = ''data-chown''"

definition user_sources :: "user_source list" where
  "user_sources = [From_Compose, From_Manifest, From_Image, From_Default, From_Off, From_Chown]"

definition emitted_sources :: "user_source list" where
  "emitted_sources = [From_Manifest, From_Default, From_Chown]"

record service_user =
  su_user :: "string option"
  su_source :: user_source
  su_image_user :: string

definition default_user :: string where "default_user = ''10001:10001''"

text \<open>The user part; \<open>root\<close> for no text, \<open>0\<close> and \<open>root\<close>.\<close>

definition identity :: "string \<Rightarrow> string" where
  "identity s = (let part = takeWhile (\<lambda>c. c \<noteq> CHR '':'') (py_strip s) in
     if part \<in> {[], ''0'', ''root''} then ''root'' else part)"

definition numeric_ids :: "string option \<Rightarrow> (nat \<times> nat) option" where
  "numeric_ids v = (case numeric_match (py_strip (case v of None \<Rightarrow> [] | Some s \<Rightarrow> s)) of
     None \<Rightarrow> None | Some (u, g) \<Rightarrow> Some (dec_val u, dec_val g))"

text \<open>The \<open>user:\<close> the overlay emits, the user a service runs as, and the owner of its data where it is known.\<close>

definition emitted :: "service_user \<Rightarrow> string option" where
  "emitted u = (if su_source u \<in> set emitted_sources then su_user u else None)"

definition runs_as :: "service_user \<Rightarrow> string" where
  "runs_as u = identity (case su_user u of Some s \<Rightarrow> s | None \<Rightarrow> su_image_user u)"

definition not_root_ids :: "(nat \<times> nat) option \<Rightarrow> (nat \<times> nat) option" where
  "not_root_ids ids = (case ids of Some (u, g) \<Rightarrow> if u \<noteq> 0 then Some (u, g) else None | None \<Rightarrow> None)"

definition nonroot_ids :: "service_user \<Rightarrow> (nat \<times> nat) option" where
  "nonroot_ids u = not_root_ids
     (if su_source u \<in> set emitted_sources \<or> su_source u = From_Compose then numeric_ids (su_user u) else None)"

definition owner_ids :: "service_user \<Rightarrow> (nat \<times> nat) option" where
  "owner_ids u = not_root_ids (case nonroot_ids u of
     Some ids \<Rightarrow> Some ids
   | None \<Rightarrow> if su_user u = None then numeric_ids (Some (su_image_user u)) else None)"

section \<open>The user a compose file sets\<close>

definition compose_user_text :: "pyval \<Rightarrow> string option" where
  "compose_user_text v = (case v of
     PInt n \<Rightarrow> Some (show_int n)
   | PStr s \<Rightarrow> if py_strip s \<noteq> [] then Some s else None
   | _ \<Rightarrow> None)"

text \<open>\<open>text.split(":", 1)\<close>.\<close>

definition id_parts :: "string \<Rightarrow> string list" where
  "id_parts s = (case dropWhile (\<lambda>c. c \<noteq> CHR '':'') s of
     [] \<Rightarrow> [s]
   | _ # rest \<Rightarrow> [takeWhile (\<lambda>c. c \<noteq> CHR '':'') s, rest])"

definition all_digits :: "string \<Rightarrow> bool" where
  "all_digits s \<longleftrightarrow> s \<noteq> [] \<and> list_all is_digit s"

definition signed_id :: "string \<Rightarrow> bool" where
  "signed_id s = (case s of c # cs \<Rightarrow> c \<in> set ''+-'' \<and> all_digits cs | [] \<Rightarrow> False)"

datatype compose_user_problem =
    User_Not_Text pyval pyval
  | User_Signed_Id pyval string string
  | User_Set_Twice pyval string

definition service_user_problems :: "pydict \<Rightarrow> pyval \<times> pyval \<Rightarrow> compose_user_problem list" where
  "service_user_problems manifest_services entry = (case entry of
     (name, PDict svc) \<Rightarrow>
       (case dget svc ''user'' of
          None \<Rightarrow> []
        | Some raw \<Rightarrow>
            (case compose_user_text raw of
               None \<Rightarrow> [User_Not_Text name raw]
             | Some user \<Rightarrow> map (User_Signed_Id name user) (filter signed_id (id_parts user))
                 @ (case map_of manifest_services name of
                      Some own \<Rightarrow> (if dhas (service_security own) ''user'' then [User_Set_Twice name user] else [])
                    | None \<Rightarrow> [])))
   | _ \<Rightarrow> [])"

definition compose_user_problems :: "pydict \<Rightarrow> pydict \<Rightarrow> compose_user_problem list" where
  "compose_user_problems services manifest_services = concat (map (service_user_problems manifest_services) services)"

text \<open>The compose users whose ids a remapped daemon cannot map, with the id.\<close>

definition unmappable_users :: "pydict \<Rightarrow> (pyval \<times> string) list" where
  "unmappable_users services = concat (map (\<lambda>(name, v). case v of
       PDict svc \<Rightarrow>
         (case compose_user_text (dget_or svc ''user'' PNone) of
            None \<Rightarrow> []
          | Some user \<Rightarrow> map (Pair name) (filter (\<lambda>p. all_digits p \<and> max_id < dec_val p) (id_parts user)))
     | _ \<Rightarrow> []) services)"

section \<open>The decision\<close>

text \<open>The user a manifest declares for a service and its reason: the service's block, else the project's.\<close>

definition block_user :: "pyval \<Rightarrow> (pyval \<times> pyval) option" where
  "block_user v = (case v of
     PDict b \<Rightarrow> (case dget b ''user'' of Some u \<Rightarrow> Some (u, dget_or b ''reason'' PNone) | None \<Rightarrow> None)
   | _ \<Rightarrow> None)"

definition declared_user :: "pyval \<Rightarrow> pydict option \<Rightarrow> pyval \<times> pyval" where
  "declared_user project_security entry =
     (case block_user (case entry of Some e \<Rightarrow> dget_or e ''security'' PNone | None \<Rightarrow> PNone) of
        Some p \<Rightarrow> p
      | None \<Rightarrow> (case block_user project_security of Some p \<Rightarrow> p | None \<Rightarrow> (PNone, PNone)))"

definition profile_is_off :: "pydict \<Rightarrow> string \<Rightarrow> bool" where
  "profile_is_off manifest service \<longleftrightarrow>
     effective_profile (dict_or_empty (dget_or manifest ''security'' PNone))
       (case service_entry manifest service of
          Some e \<Rightarrow> dict_or_empty (dget_or e ''security'' PNone) | None \<Rightarrow> []) = PStr profile_off"

datatype run_as_error =
    Needs_Declaration string
  | Record_Unreadable
  | Record_Not_Object
  | Record_Bad_Entry string
  | Record_Bad_User string string
  | Drift_Unreadable
  | Drift_Malformed

text \<open>\<open>{root: "0:0", image: None}.get(declared, declared)\<close>.\<close>

definition declared_value :: "pyval \<Rightarrow> py_exc + string option" where
  "declared_value v = (case v of
     PStr s \<Rightarrow> Inr (if s = ''root'' then Some ''0:0'' else if s = ''image'' then None else Some s)
   | _ \<Rightarrow> Inl (if py_hashable v then Unmodelled else TypeError))"

definition effective_user :: "string \<Rightarrow> pydict \<Rightarrow> pydict \<Rightarrow> string \<Rightarrow> run_as_error raised + service_user" where
  "effective_user service svc manifest image_user =
     (let as = (\<lambda>u src. \<lparr> su_user = u, su_source = src, su_image_user = image_user \<rparr>) in
      case compose_user_text (dget_or svc ''user'' PNone) of
        Some user \<Rightarrow> Inr (as (Some user) From_Compose)
      | None \<Rightarrow>
          (let declared = fst (declared_user (dget_or manifest ''security'' PNone) (service_entry manifest service)) in
           if declared \<noteq> PNone then
             (case declared_value declared of Inl x \<Rightarrow> Inl (Crash x) | Inr v \<Rightarrow> Inr (as v From_Manifest))
           else if identity image_user \<noteq> ''root'' then Inr (as None From_Image)
           else if profile_is_off manifest service then Inr (as None From_Off)
           else if dget_or svc ''build'' PNone \<noteq> PNone then Inr (as (Some default_user) From_Default)
           else Inl (Raised (Needs_Declaration service))))"

definition describe_user :: "service_user \<Rightarrow> string" where
  "describe_user u =
     (let img = (if su_image_user u \<noteq> [] then su_image_user u else ''root'');
          user = (case su_user u of Some s \<Rightarrow> s | None \<Rightarrow> ''None'') in
      case su_source u of
        From_Compose \<Rightarrow> user @ '' (compose.yml user:)''
      | From_Manifest \<Rightarrow>
          (if su_user u = None then ''the image's user, '' @ img @ '' (security.user: image)''
           else if su_user u = Some ''0:0'' then ''root (security.user: root)''
           else user @ '' (security.user)'')
      | From_Image \<Rightarrow> su_image_user u @ '' (the image's USER)''
      | From_Default \<Rightarrow> default_user @ '' (the default for a build: service with no USER)''
      | From_Chown \<Rightarrow> user @ '' (set by data chown)''
      | From_Off \<Rightarrow> ''the image's user, '' @ img @ '' (profile: off)'')"

text \<open>
  \<open>decide_users\<close>: every service in order of its name; a rollback's recorded
  decision stands in where the restored release does not declare one.  The result:
  the users and the services that keep their recorded one, or the services refused.
\<close>

type_synonym users = "(string \<times> service_user) list"

record user_decisions =
  ud_users :: users
  ud_carried :: "string list"
  ud_refused :: "string list"

definition decide_user ::
    "(string \<Rightarrow> string option) \<Rightarrow> pydict \<Rightarrow> users option \<Rightarrow> user_decisions \<Rightarrow> string \<times> pydict \<Rightarrow> py_exc + user_decisions" where
  "decide_user image_user manifest carried d entry = (case entry of (name, svc) \<Rightarrow>
     (case image_user name of
        None \<Rightarrow> Inl KeyError
      | Some img \<Rightarrow>
          (case effective_user name svc manifest img of
             Inr u \<Rightarrow> Inr (d\<lparr>ud_users := ud_users d @ [(name, u)]\<rparr>)
           | Inl (Crash x) \<Rightarrow> Inl x
           | Inl (Raised e) \<Rightarrow>
               (case (case carried of Some c \<Rightarrow> map_of c name | None \<Rightarrow> None) of
                  Some u \<Rightarrow> Inr (d\<lparr>ud_users := ud_users d @ [(name, u)], ud_carried := ud_carried d @ [name]\<rparr>)
                | None \<Rightarrow> Inr (d\<lparr>ud_refused := ud_refused d @ [name]\<rparr>)))))"

definition decide_users ::
    "(string \<Rightarrow> string option) \<Rightarrow> pydict \<Rightarrow> users option \<Rightarrow> (string \<times> pydict) list \<Rightarrow> string list raised + users \<times> string list" where
  "decide_users image_user manifest carried services =
     (case rfold (decide_user image_user manifest carried) \<lparr> ud_users = [], ud_carried = [], ud_refused = [] \<rparr>
        (sort_key fst services) of
       Inl x \<Rightarrow> Inl (Crash x)
     | Inr d \<Rightarrow> if ud_refused d \<noteq> [] then Inl (Raised (ud_refused d)) else Inr (ud_users d, ud_carried d))"

section \<open>The record\<close>

definition source_of :: "pyval \<Rightarrow> py_exc + user_source option" where
  "source_of v = (if \<not> py_hashable v then Inl TypeError
     else Inr (find (\<lambda>s. PStr (source_value s) = v) user_sources))"

definition bad_emitted :: "service_user \<Rightarrow> bool" where
  "bad_emitted u \<longleftrightarrow> su_source u \<in> set emitted_sources \<and> su_user u \<noteq> None
     \<and> (case numeric_ids (su_user u) of None \<Rightarrow> True | Some (x, y) \<Rightarrow> max_id < x \<or> max_id < y)"

text \<open>A missing \<open>user\<close> passes the test, which reads it with \<open>get\<close>, and then raises KeyError.\<close>

definition read_user :: "string \<times> pyval \<Rightarrow> run_as_error raised + string \<times> service_user" where
  "read_user entry = (case entry of
     (svc, PDict e) \<Rightarrow>
       (case source_of (dget_or e ''source'' PNone) of
          Inl x \<Rightarrow> Inl (Crash x)
        | Inr None \<Rightarrow> Inl (Raised (Record_Bad_Entry svc))
        | Inr (Some src) \<Rightarrow>
            (case (dget_or e ''user'' PNone, dget_or e ''image_user'' PNone) of
               (user, PStr img) \<Rightarrow>
                 (if user \<noteq> PNone \<and> \<not> is_pstr user then Inl (Raised (Record_Bad_Entry svc))
                  else if \<not> dhas e ''user'' then Inl (Crash KeyError)
                  else let u = \<lparr> su_user = pstr_of user, su_source = src, su_image_user = img \<rparr> in
                    if bad_emitted u then Inl (Raised (Record_Bad_User svc (case su_user u of Some s \<Rightarrow> s | None \<Rightarrow> [])))
                    else Inr (svc, u))
             | _ \<Rightarrow> Inl (Raised (Record_Bad_Entry svc))))
   | (svc, _) \<Rightarrow> Inl (Raised (Record_Bad_Entry svc)))"

text \<open>The keys of a JSON object are text.\<close>

definition str_entries :: "pydict \<Rightarrow> (string \<times> pyval) list" where
  "str_entries d = List.map_filter (\<lambda>(k, v). case k of PStr s \<Rightarrow> Some (s, v) | _ \<Rightarrow> None) d"

definition read_users :: "json_file \<Rightarrow> run_as_error raised + users" where
  "read_users file = (case file of
     Absent \<Rightarrow> Inr []
   | Unreadable \<Rightarrow> Inl (Raised Record_Unreadable)
   | Unparseable \<Rightarrow> Inl (Raised Record_Unreadable)
   | Doc (PDict d) \<Rightarrow> rmap read_user (str_entries d)
   | Doc _ \<Rightarrow> Inl (Raised Record_Not_Object))"

definition user_doc :: "service_user \<Rightarrow> pyval" where
  "user_doc u = PDict [(PStr ''user'', (case su_user u of None \<Rightarrow> PNone | Some s \<Rightarrow> PStr s)),
     (PStr ''source'', PStr (source_value (su_source u))), (PStr ''image_user'', PStr (su_image_user u))]"

definition users_doc :: "users \<Rightarrow> pyval" where
  "users_doc us = PDict (map (\<lambda>(svc, u). (PStr svc, user_doc u)) (sort_key fst us))"

definition write_users :: "bool \<Rightarrow> users \<Rightarrow> py_exc + json_file" where
  "write_users can_write us = atomic_write can_write (users_doc us)"

text \<open>Whether a failing service is told of the default user; an unreadable record is told instead.\<close>

datatype user_hint = No_Hint | Hint_Record run_as_error | Hint_Default

definition default_user_hint :: "json_file \<Rightarrow> string \<Rightarrow> py_exc + user_hint" where
  "default_user_hint file service = (case read_users file of
     Inl (Crash x) \<Rightarrow> Inl x
   | Inl (Raised e) \<Rightarrow> Inr (Hint_Record e)
   | Inr us \<Rightarrow> Inr (case map_of us service of
        Some u \<Rightarrow> if su_source u = From_Default then Hint_Default else No_Hint
      | None \<Rightarrow> No_Hint))"

section \<open>Root is never implicit\<close>

lemma effective_cases:
  assumes "effective_user service svc manifest image_user = Inr u"
  obtains
    (compose) user where "compose_user_text (dget_or svc ''user'' PNone) = Some user" "su_user u = Some user" "su_source u = From_Compose"
  | (manifest) v where "fst (declared_user (dget_or manifest ''security'' PNone) (service_entry manifest service)) = PStr v"
      "su_source u = From_Manifest" "su_user u = (if v = ''root'' then Some ''0:0'' else if v = ''image'' then None else Some v)"
  | (img) "su_user u = None" "su_source u = From_Image" "identity image_user \<noteq> ''root''" "su_image_user u = image_user"
  | (off) "su_user u = None" "su_source u = From_Off" "profile_is_off manifest service"
  | (def) "su_user u = Some default_user" "su_source u = From_Default"
proof -
  let ?declared = "fst (declared_user (dget_or manifest ''security'' PNone) (service_entry manifest service))"
  show thesis
  proof (cases "compose_user_text (dget_or svc ''user'' PNone)")
    case (Some user)
    then show thesis using assms compose by (simp add: effective_user_def) (metis service_user.select_convs(1,2))
  next
    case None
    show thesis
    proof (cases "?declared = PNone")
      case False
      then obtain v where "?declared = PStr v" "u = \<lparr> su_user = (if v = ''root'' then Some ''0:0'' else if v = ''image'' then None else Some v),
          su_source = From_Manifest, su_image_user = image_user \<rparr>"
        using assms None by (cases ?declared) (auto simp: effective_user_def Let_def declared_value_def split: if_splits)
      then show thesis using manifest by simp
    next
      case True
      then show thesis using assms None img off "def" by (auto simp: effective_user_def Let_def split: if_splits)
    qed
  qed
qed

lemma numeric_match_text:
  assumes "numeric_match v = Some (a, b)"
  shows "v = a @ CHR '':'' # b" "all_digits a" "all_digits b"
proof -
  have n: "a = takeWhile is_digit v" "a \<noteq> []" "starts_with '':'' (dropWhile is_digit v)"
    and b: "b = tl (dropWhile is_digit v)" "b \<noteq> []" "list_all is_digit b"
    using assms by (auto simp: numeric_match_def Let_def split: if_splits)
  obtain r where "dropWhile is_digit v = CHR '':'' # r" using n(3) by (auto simp: starts_with_iff)
  then show "v = a @ CHR '':'' # b" using n(1) b(1) takeWhile_dropWhile_id [of is_digit v] by simp
  show "all_digits a" "all_digits b" using n b by (auto simp: all_digits_def list_all_iff dest: set_takeWhileD)
qed

lemma digit_plain: "is_digit c \<Longrightarrow> \<not> py_isspace c \<and> c \<noteq> CHR '':''"
  by (auto simp: is_digit_def py_isspace_def code_def)

lemma py_strip_ends: "s \<noteq> [] \<Longrightarrow> \<not> py_isspace (hd s) \<Longrightarrow> \<not> py_isspace (last s) \<Longrightarrow> py_strip s = s"
proof -
  assume "s \<noteq> []" "\<not> py_isspace (hd s)" "\<not> py_isspace (last s)"
  then have "dropWhile py_isspace s = s" "dropWhile py_isspace (rev s) = rev s"
    by (simp_all only: dropWhile_eq_self_iff hd_rev rev_is_Nil_conv simp_thms)
  then show ?thesis by (simp add: py_strip_def)
qed

lemma numeric_match_strip:
  assumes "numeric_match v = Some (a, b)"
  shows "py_strip v = v"
proof (rule py_strip_ends)
  note t = numeric_match_text [OF assms]
  show "v \<noteq> []" using t(1) by simp
  have "is_digit (hd v)" "is_digit (last v)"
    using t by (cases a; auto simp: all_digits_def list_all_iff)+
  then show "\<not> py_isspace (hd v)" "\<not> py_isspace (last v)" using digit_plain by auto
qed

lemma numeric_match_not_root:
  assumes "numeric_match v = Some (a, b)" "id_in_range a"
  shows "identity v \<noteq> ''root''"
proof -
  note t = numeric_match_text [OF assms(1)]
  have "py_strip v = a @ CHR '':'' # b" using numeric_match_strip [OF assms(1)] t(1) by (rule trans)
  then have part: "takeWhile (\<lambda>c. c \<noteq> CHR '':'') (py_strip v) = a"
    using t(2) digit_plain by (simp add: takeWhile_append all_digits_def list_all_iff)
  have "a \<noteq> ''0''" using assms(2) by (auto simp: id_in_range_def dec_val_def digit_val_def code_def)
  moreover have "a \<noteq> ''root''"
  proof
    assume "a = ''root''"
    then have "is_digit (CHR ''r'')" using t(2) by (simp add: all_digits_def)
    then show False by (simp add: is_digit_def code_def)
  qed
  ultimately show ?thesis using t(2) part by (simp add: identity_def all_digits_def)
qed

text \<open>The security blocks that speak for a service: its own, then the project's.\<close>

definition blocks_for :: "pydict \<Rightarrow> string \<Rightarrow> pyval list" where
  "blocks_for manifest service =
     [case service_entry manifest service of Some e \<Rightarrow> dget_or e ''security'' PNone | None \<Rightarrow> PNone,
      dget_or manifest ''security'' PNone]"

definition blocks_accepted :: "(pyval \<Rightarrow> bool) \<Rightarrow> pydict \<Rightarrow> string \<Rightarrow> bool" where
  "blocks_accepted is_ip manifest service \<longleftrightarrow>
     validate_security_block is_ip (hd (blocks_for manifest service)) ''service'' = Inr ()
     \<and> validate_security_block is_ip (dget_or manifest ''security'' PNone) ''project'' = Inr ()"

lemma accepted_block:
  assumes "blocks_accepted is_ip manifest service" "PDict b \<in> set (blocks_for manifest service)"
  shows "\<exists>ctx. validate_user_field b ctx = Inr () \<and> check_off_reason b ctx = Inr ()"
proof -
  obtain ctx where "validate_security_block is_ip (PDict b) ctx = Inr ()"
    using assms by (auto simp: blocks_accepted_def blocks_for_def)
  then show ?thesis using validate_block_parts(3,12) by blast
qed

lemma declared_block:
  assumes "fst (declared_user (dget_or manifest ''security'' PNone) (service_entry manifest service)) = v" "v \<noteq> PNone"
  obtains b where "PDict b \<in> set (blocks_for manifest service)" "dget b ''user'' = Some v"
    "snd (declared_user (dget_or manifest ''security'' PNone) (service_entry manifest service)) = dget_or b ''reason'' PNone"
proof -
  let ?s = "case service_entry manifest service of Some e \<Rightarrow> dget_or e ''security'' PNone | None \<Rightarrow> PNone"
  let ?p = "dget_or manifest ''security'' PNone"
  have block: "\<exists>b. x = PDict b \<and> dget b ''user'' = Some u \<and> dget_or b ''reason'' PNone = r" if "block_user x = Some (u, r)" for x u r
    using that by (auto simp: block_user_def split: pyval.splits option.splits)
  have bs: "blocks_for manifest service = [?s, ?p]" by (simp add: blocks_for_def)
  show thesis
  proof (cases "block_user ?s")
    case (Some p)
    then have d: "declared_user ?p (service_entry manifest service) = p" by (simp add: declared_user_def)
    obtain b where "?s = PDict b" "dget b ''user'' = Some (fst p)" "dget_or b ''reason'' PNone = snd p"
      using block [of ?s "fst p" "snd p"] Some by auto
    then show thesis using that [of b] assms(1) d bs by simp
  next
    case None
    then have d: "declared_user ?p (service_entry manifest service)
        = (case block_user ?p of Some p \<Rightarrow> p | None \<Rightarrow> (PNone, PNone))" by (simp add: declared_user_def)
    then obtain p where p: "block_user ?p = Some p" using assms by (cases "block_user ?p") auto
    then obtain b where "?p = PDict b" "dget b ''user'' = Some (fst p)" "dget_or b ''reason'' PNone = snd p"
      using block [of ?p "fst p" "snd p"] by auto
    then show thesis using that [of b] assms(1) d bs p by simp
  qed
qed

lemma profile_off_block:
  assumes "profile_is_off manifest service"
  obtains b where "PDict b \<in> set (blocks_for manifest service)" "dget b ''profile'' = Some (PStr profile_off)"
proof -
  let ?s = "hd (blocks_for manifest service)" and ?p = "dget_or manifest ''security'' PNone"
  have e: "effective_profile (dict_or_empty ?p) (dict_or_empty ?s) = PStr profile_off"
    using assms by (auto simp: profile_is_off_def blocks_for_def split: option.splits)
  have off: "PStr profile_off \<noteq> PStr profile_default" by code_simp
  show thesis
  proof (cases "dget (dict_or_empty ?s) ''profile''")
    case (Some v)
    then show thesis using e that by (cases ?s) (auto simp: effective_profile_def blocks_for_def dget_def)
  next
    case None
    then show thesis using e that off
      by (cases ?p) (auto simp: effective_profile_def blocks_for_def dget_or_def dget_def split: option.splits)
  qed
qed

text \<open>C13. No service runs as root unless something says so: where the security blocks are accepted, a decision
  that runs a service as root (in the spellings \<open>identity\<close> knows) is the compose file's own \<open>user:\<close>, or a
  \<open>security.user\<close> of root or image with a reason in the block that declares it, or the off profile with a
  reason in its block.\<close>

theorem root_is_declared:
  assumes "effective_user service svc manifest image_user = Inr u" "runs_as u = ''root''"
    and "blocks_accepted is_ip manifest service"
  shows "(\<exists>t. compose_user_text (dget_or svc ''user'' PNone) = Some t \<and> identity t = ''root'')
    \<or> (\<exists>b. PDict b \<in> set (blocks_for manifest service) \<and> has_text (dget_or b ''reason'' PNone)
         \<and> (dget b ''user'' \<in> {Some (PStr ''root''), Some (PStr ''image'')} \<or> dget b ''profile'' = Some (PStr profile_off)))"
  using assms(1)
proof (cases rule: effective_cases)
  case (compose t)
  then show ?thesis using assms(2) by (simp add: runs_as_def)
next
  case (manifest v)
  obtain b where b: "PDict b \<in> set (blocks_for manifest service)" "dget b ''user'' = Some (PStr v)"
    using declared_block [OF manifest(1)] by blast
  obtain ctx where ok: "validate_user_field b ctx = Inr ()" using accepted_block [OF assms(3) b(1)] by blast
  show ?thesis
  proof (cases "v \<in> {''root'', ''image''}")
    case True
    then show ?thesis using b ok by (auto simp: validate_user_field_def)
  next
    case False
    then obtain x y where "numeric_match v = Some (x, y)" "id_in_range x"
      using b(2) ok by (auto simp: validate_user_field_def split: option.splits)
    then have "identity v \<noteq> ''root''" by (rule numeric_match_not_root)
    then show ?thesis using assms(2) manifest(3) False by (simp add: runs_as_def)
  qed
next
  case img
  then show ?thesis using assms(2) by (simp add: runs_as_def)
next
  case off
  obtain b where b: "PDict b \<in> set (blocks_for manifest service)" "dget b ''profile'' = Some (PStr profile_off)"
    using profile_off_block [OF off(3)] .
  then have "has_text (dget_or b ''reason'' PNone)"
    using accepted_block [OF assms(3) b(1)] by (auto simp: check_off_reason_def)
  then show ?thesis using b by blast
next
  case "def"
  have "identity default_user \<noteq> ''root''" by code_simp
  then show ?thesis using assms(2) "def" by (simp add: runs_as_def)
qed

definition example_users_manifest :: pydict where
  "example_users_manifest = [(PStr ''services'', PDict [(PStr ''db'', PDict [(PStr ''security'',
     PDict [(PStr ''user'', PStr ''image''), (PStr ''reason'', PStr ''drops privileges'')])])])]"

theorem root_is_declared_witness:
  "\<exists>u. effective_user ''db'' [(PStr ''image'', PStr ''postgres:16'')] example_users_manifest [] = Inr u \<and> runs_as u = ''root''
     \<and> (\<exists>b. has_text (dget_or b ''reason'' PNone) \<and> PDict b \<in> set (blocks_for example_users_manifest ''db''))"
proof -
  let ?u = "\<lparr> su_user = None, su_source = From_Manifest, su_image_user = [] \<rparr>"
  have e: "effective_user ''db'' [(PStr ''image'', PStr ''postgres:16'')] example_users_manifest [] = Inr ?u"
    and r: "runs_as ?u = ''root''"
    and a: "blocks_accepted (\<lambda>_. True) example_users_manifest ''db''" by code_simp+
  have "compose_user_text (dget_or [(PStr ''image'', PStr ''postgres:16'')] ''user'' PNone) = None" by code_simp
  then show ?thesis using root_is_declared [OF e r a] e r by auto
qed

text \<open>Other spellings of the number zero are not seen as root.\<close>

lemma zero_spelling_unseen:
  "effective_user ''web'' [(PStr ''image'', PStr ''app:1'')] [] ''00''
     = Inr \<lparr> su_user = None, su_source = From_Image, su_image_user = ''00'' \<rparr>
   \<and> effective_user ''web'' [(PStr ''image'', PStr ''app:1'')] [] ''0'' = Inl (Raised (Needs_Declaration ''web''))"
  by code_simp

section \<open>The record is read back\<close>

lemma source_of_value: "source_of (PStr (source_value s)) = Inr (Some s)"
  by (cases s) (auto simp: source_of_def user_sources_def)

lemma read_user_doc:
  assumes "\<not> bad_emitted u"
  shows "read_user (svc, user_doc u) = Inr (svc, u)"
proof -
  let ?e = "[(PStr ''user'', (case su_user u of None \<Rightarrow> PNone | Some s \<Rightarrow> PStr s)),
     (PStr ''source'', PStr (source_value (su_source u))), (PStr ''image_user'', PStr (su_image_user u))]"
  have "dget_or ?e ''source'' PNone = PStr (source_value (su_source u))"
    "dget_or ?e ''image_user'' PNone = PStr (su_image_user u)"
    "dget_or ?e ''user'' PNone = (case su_user u of None \<Rightarrow> PNone | Some s \<Rightarrow> PStr s)" "dhas ?e ''user''"
    by (simp_all add: dget_or_def dget_def dhas_def)
  then show ?thesis using assms
    by (cases u; cases "su_user u") (simp_all add: read_user_def user_doc_def source_of_value Let_def)
qed

lemma effective_emits:
  assumes "effective_user service svc manifest image_user = Inr u" "blocks_accepted is_ip manifest service"
  shows "\<not> bad_emitted u"
  using assms(1)
proof (cases rule: effective_cases)
  case (manifest v)
  obtain b where b: "PDict b \<in> set (blocks_for manifest service)" "dget b ''user'' = Some (PStr v)"
    using declared_block [OF manifest(1)] by blast
  obtain ctx where ok: "validate_user_field b ctx = Inr ()" using accepted_block [OF assms(2) b(1)] by blast
  have zero: "numeric_ids (Some ''0:0'') = Some (0, 0)" by code_simp
  show ?thesis
  proof (cases "v \<in> {''root'', ''image''}")
    case True
    then show ?thesis using manifest(3) zero by (auto simp: bad_emitted_def)
  next
    case False
    then obtain x y where "numeric_match v = Some (x, y)" "id_in_range x" "id_in_range y"
      using b(2) ok by (auto simp: validate_user_field_def split: option.splits)
    then have "numeric_ids (Some v) = Some (dec_val x, dec_val y)" "dec_val x \<le> max_id" "dec_val y \<le> max_id"
      by (simp_all add: numeric_ids_def numeric_match_strip id_in_range_def)
    then show ?thesis using manifest(3) False by (simp add: bad_emitted_def)
  qed
next
  case "def"
  have "numeric_ids (Some default_user) = Some (10001, 10001)" by code_simp
  then show ?thesis using "def" by (simp add: bad_emitted_def max_id_def)
qed (auto simp: bad_emitted_def emitted_sources_def)

text \<open>C14. What a deploy decides is what every later start replays: a decision over services with names of their
  own and accepted security blocks covers every service, and writing it to the users record and reading the
  record gives the same users back.\<close>

theorem users_roundtrip:
  assumes "decide_users image_user manifest None services = Inr (us, carried)"
    and "\<And>n. n \<in> fst ` set services \<Longrightarrow> blocks_accepted is_ip manifest n"
  shows "map fst us = map fst (sort_key fst services) \<and> carried = []
    \<and> rbind (write_users True us) (\<lambda>file. Inr (read_users file)) = Inr (Inr us)"
proof -
  let ?init = "\<lparr> ud_users = [], ud_carried = [], ud_refused = [] \<rparr>"
  obtain d where d: "rfold (decide_user image_user manifest None) ?init (sort_key fst services) = Inr d"
    "ud_refused d = []" "ud_users d = us" "ud_carried d = carried"
    using assms(1) by (auto simp: decide_users_def split: sum.splits if_splits)
  have step: "(ud_refused d' = [] \<longrightarrow> ud_refused d0 = [] \<and> (\<exists>u. ud_users d' = ud_users d0 @ [(fst e, u)] \<and> \<not> bad_emitted u))
      \<and> ud_carried d' = ud_carried d0"
    if "decide_user image_user manifest None d0 e = Inr d'" "e \<in> set services" for d0 d' e
  proof (cases e)
    case (Pair n svc)
    have ok: "blocks_accepted is_ip manifest n" using assms(2) that(2) Pair by force
    show ?thesis using that(1) effective_emits [OF _ ok]
      by (auto simp: decide_user_def Pair split: option.splits sum.splits raised.splits)
  qed
  have run: "ud_refused d = [] \<longrightarrow> ud_refused d0 = [] \<and> (\<exists>us'. ud_users d = ud_users d0 @ us' \<and> map fst us' = map fst L
        \<and> (\<forall>(n, u)\<in>set us'. \<not> bad_emitted u)) \<and> ud_carried d = ud_carried d0"
    if "rfold (decide_user image_user manifest None) d0 L = Inr d" "set L \<subseteq> set services" for d0 L
    using that
  proof (induction L arbitrary: d0)
    case (Cons e L)
    then obtain d1 where d1: "decide_user image_user manifest None d0 e = Inr d1"
      "rfold (decide_user image_user manifest None) d1 L = Inr d" by (auto simp: rbind_eq_Inr)
    then show ?case using Cons.IH [OF d1(2)] Cons.prems(2) step [OF d1(1)] by fastforce
  qed simp
  have us: "map fst us = map fst (sort_key fst services)" "\<forall>(n, u)\<in>set us. \<not> bad_emitted u" "carried = []"
    using run [OF d(1)] d(2-4) by auto
  have "sort_key fst us = us" using us(1) by (metis sorted_sort_key sort_key_id_if_sorted)
  moreover have "rmap read_user (str_entries (map (\<lambda>(svc, u). (PStr svc, user_doc u)) us)) = Inr us"
    using us(2) by (induction us) (auto simp: str_entries_def map_filter_simps read_user_doc)
  ultimately show ?thesis using us by (simp add: write_users_def atomic_write_def users_doc_def read_users_def)
qed

theorem users_roundtrip_witness:
  "\<exists>us. decide_users (\<lambda>_. Some []) example_users_manifest None [(''db'', [(PStr ''image'', PStr ''postgres:16'')])] = Inr (us, [])
     \<and> rbind (write_users True us) (\<lambda>file. Inr (read_users file)) = Inr (Inr us)"
proof -
  let ?us = "[(''db'', \<lparr> su_user = None, su_source = From_Manifest, su_image_user = [] \<rparr>)]"
  have d: "decide_users (\<lambda>_. Some []) example_users_manifest None [(''db'', [(PStr ''image'', PStr ''postgres:16'')])] = Inr (?us, [])"
    by code_simp
  have "blocks_accepted (\<lambda>_. True) example_users_manifest ''db''" by code_simp
  then have ok: "\<And>n. n \<in> fst ` set [(''db'', [(PStr ''image'', PStr ''postgres:16'')])] \<Longrightarrow> blocks_accepted (\<lambda>_. True) example_users_manifest n"
    by simp
  show ?thesis using users_roundtrip [OF d ok] d by auto
qed

text \<open>An entry without \<open>user\<close> raises KeyError instead of being refused with what to do.\<close>

lemma missing_user_crashes:
  "read_users (Doc (PDict [(PStr ''web'', PDict [(PStr ''source'', PStr ''image''), (PStr ''image_user'', PStr ''app'')])])) = Inl (Crash KeyError)"
  by code_simp

end
