(* ===== verification/Update_Targets.thy ===== *)
theory Update_Targets
  imports Manifest_Schema
begin

text \<open>
  \<^verbatim>\<open>src/boxmunge/container_update_targets.py\<close>: which targets the daily container
  update has, and the state each run leaves for its target.  The box's
  configuration, the entries of the projects directory and whether a project has
  a generated overlay are given.
\<close>

section \<open>Targets\<close>

record update_target =
  ut_name :: string
  ut_compose_files :: "string list"
  ut_strategy :: pyval
  ut_has_backup :: bool
  ut_is_caddy :: bool

definition resolve_strategy :: "pydict \<Rightarrow> pydict option \<Rightarrow> pyval" where
  "resolve_strategy box_cu project =
     (case (case project of Some p \<Rightarrow> dget p ''strategy'' | None \<Rightarrow> None) of
        Some v \<Rightarrow> v
      | None \<Rightarrow> dget_or box_cu ''strategy'' (PStr ''leave_broken''))"

definition build_caddy_target :: "pydict \<Rightarrow> update_target" where
  "build_caddy_target box_cu =
     \<lparr> ut_name = ''caddy'', ut_compose_files = [''compose.yml''], ut_strategy = resolve_strategy box_cu None,
       ut_has_backup = False, ut_is_caddy = True \<rparr>"

text \<open>
  An entry of the projects directory.  \<open>overlay\<close> answers for a project's name:
  \<open>None\<close> where the name is refused.  A name that is not text is not followed.
\<close>

record project_entry =
  pe_name :: string
  pe_is_dir :: bool
  pe_manifest :: json_file

datatype target_failure = Target_Manifest manifest_error | Target_Name string

definition build_project_target ::
    "(string \<Rightarrow> bool option) \<Rightarrow> pydict \<Rightarrow> project_entry \<Rightarrow> target_failure raised + update_target option" where
  "build_project_target overlay box_cu entry =
     (if pe_manifest entry = Absent then Inr None
      else case load_manifest (pe_manifest entry) of
        Inl e \<Rightarrow> Inl (Raised (Target_Manifest e))
      | Inr manifest \<Rightarrow>
          (case dget_or manifest ''container_updates'' (PDict []) of
             PDict proj_cu \<Rightarrow>
               (if dget_or proj_cu ''enabled'' PNone = PBool False then Inr None
                else case dget_or manifest ''project'' (PStr (pe_name entry)) of
                  PStr name \<Rightarrow>
                    (case overlay name of
                       None \<Rightarrow> Inl (Raised (Target_Name name))
                     | Some generated \<Rightarrow>
                         (case dget_or manifest ''backup'' (PDict []) of
                            PDict backup \<Rightarrow>
                              Inr (Some \<lparr> ut_name = name,
                                ut_compose_files = ''compose.yml'' # (if generated then [''compose.boxmunge.yml''] else []),
                                ut_strategy = resolve_strategy box_cu (Some proj_cu),
                                ut_has_backup = py_truthy (dget_or backup ''dump_command'' PNone), ut_is_caddy = False \<rparr>)
                          | _ \<Rightarrow> Inl (Crash AttributeError)))
                | _ \<Rightarrow> Inl (Crash Unmodelled))
           | _ \<Rightarrow> Inl (Crash AttributeError)))"

text \<open>Caddy first, then the projects in order; the failures that were reported are kept beside the targets.\<close>

type_synonym target_list = "update_target list \<times> (string \<times> target_failure) list"

definition add_project_target ::
    "(string \<Rightarrow> bool option) \<Rightarrow> pydict \<Rightarrow> target_list \<Rightarrow> project_entry \<Rightarrow> py_exc + target_list" where
  "add_project_target overlay box_cu acc entry = (case acc of (targets, failed) \<Rightarrow>
     if \<not> pe_is_dir entry then Inr acc
     else case build_project_target overlay box_cu entry of
       Inl (Crash x) \<Rightarrow> Inl x
     | Inl (Raised e) \<Rightarrow> Inr (targets, failed @ [(pe_name entry, e)])
     | Inr None \<Rightarrow> Inr acc
     | Inr (Some t) \<Rightarrow> Inr (targets @ [t], failed))"

definition build_targets ::
    "(string \<Rightarrow> bool option) \<Rightarrow> pydict \<Rightarrow> project_entry list option \<Rightarrow> py_exc + target_list" where
  "build_targets overlay config projects =
     (case dget_or config ''container_updates'' (PDict []) of
        PDict box_cu \<Rightarrow>
          (if \<not> py_truthy (dget_or box_cu ''enabled'' (PBool True)) then Inr ([], [])
           else rfold (add_project_target overlay box_cu) ([build_caddy_target box_cu], [])
             (case projects of None \<Rightarrow> [] | Some es \<Rightarrow> sort_key pe_name es))
      | _ \<Rightarrow> Inl AttributeError)"

section \<open>The state of a target\<close>

definition images_doc :: "(string \<times> string) list \<Rightarrow> pyval" where
  "images_doc d = PDict (map (\<lambda>(k, v). (PStr k, PStr v)) d)"

definition read_target_state :: "json_file \<Rightarrow> py_exc + pyval" where
  "read_target_state file = (case file of
     Absent \<Rightarrow> Inr PNone
   | Unreadable \<Rightarrow> Inl OSError
   | Unparseable \<Rightarrow> Inl ValueError
   | Doc v \<Rightarrow> Inr v)"

text \<open>The images of one run: equal as dicts, whatever their order.\<close>

definition same_images :: "(string \<times> string) list \<Rightarrow> (string \<times> string) list \<Rightarrow> bool" where
  "same_images a b \<longleftrightarrow> set a = set b"

definition target_state_doc ::
    "pyval \<Rightarrow> string \<Rightarrow> string \<Rightarrow> (string \<times> string) list \<Rightarrow> (string \<times> string) list \<Rightarrow> py_exc + pyval" where
  "target_state_doc existing ts status current before =
     rbind (if status = ''succeeded'' then Inr (PStr ts) else py_get_or existing ''last_change'' PNone) (\<lambda>change.
     rbind (if status = ''succeeded'' \<and> \<not> same_images before current then Inr (images_doc before)
            else py_get_or existing ''previous_digests'' (images_doc before)) (\<lambda>previous.
     Inr (PDict [(PStr ''last_check'', PStr ts), (PStr ''last_change'', change), (PStr ''last_status'', PStr status),
       (PStr ''current_digests'', images_doc (if current \<noteq> [] then current else before)),
       (PStr ''previous_digests'', previous)])))"

definition write_target_state :: "bool \<Rightarrow> pyval \<Rightarrow> py_exc + json_file" where
  "write_target_state can_write v = atomic_write can_write v"

definition persist_result ::
    "bool \<Rightarrow> json_file \<Rightarrow> string \<Rightarrow> string \<Rightarrow> (string \<times> string) list \<Rightarrow> (string \<times> string) list \<Rightarrow> py_exc + json_file" where
  "persist_result can_write file ts status current before =
     rbind (read_target_state file) (\<lambda>v.
     rbind (target_state_doc (py_or v (PDict [])) ts status current before) (\<lambda>doc.
     write_target_state can_write doc))"

section \<open>One project does not hide another\<close>

lemma add_targets:
  assumes "rfold (add_project_target overlay box_cu) acc es = Inr (targets, failed)"
  shows "targets = fst acc @ List.map_filter (\<lambda>e. if pe_is_dir e then
       (case build_project_target overlay box_cu e of Inr (Some t) \<Rightarrow> Some t | _ \<Rightarrow> None) else None) es
    \<and> map fst failed = map fst (snd acc) @ map pe_name (filter (\<lambda>e. pe_is_dir e
         \<and> (\<exists>x. build_project_target overlay box_cu e = Inl (Raised x))) es)"
  using assms
proof (induction es arbitrary: acc)
  case (Cons e es)
  obtain ts fs where acc: "acc = (ts, fs)" by fastforce
  obtain a1 where a1: "add_project_target overlay box_cu acc e = Inr a1"
    "rfold (add_project_target overlay box_cu) a1 es = Inr (targets, failed)"
    using Cons.prems by (auto simp: rbind_eq_Inr)
  from Cons.IH [OF a1(2)] a1(1) show ?case
    by (auto simp: add_project_target_def acc map_filter_simps split: if_splits sum.splits raised.splits option.splits)
qed (auto simp: map_filter_simps)

text \<open>
  Every project whose directory yields a target is a target, in the order of the names, and one that fails is
  reported; no project's failure changes another's target.
\<close>

lemma targets_independent:
  assumes "build_targets overlay config (Some es) = Inr (targets, failed)"
    and "dget_or config ''container_updates'' (PDict []) = PDict box_cu" "py_truthy (dget_or box_cu ''enabled'' (PBool True))"
    and "e \<in> set es" "pe_is_dir e"
  shows "case build_project_target overlay box_cu e of
      Inr (Some t) \<Rightarrow> t \<in> set targets
    | Inl (Raised x) \<Rightarrow> pe_name e \<in> fst ` set failed
    | _ \<Rightarrow> True"
proof -
  have r: "rfold (add_project_target overlay box_cu) ([build_caddy_target box_cu], []) (sort_key pe_name es) = Inr (targets, failed)"
    using assms(1-3) by (simp add: build_targets_def)
  note a = add_targets [OF r]
  have e: "e \<in> set (sort_key pe_name es)" using assms(4) by simp
  have t: "set (List.map_filter f xs) = {y. \<exists>x\<in>set xs. f x = Some y}" for f :: "project_entry \<Rightarrow> update_target option" and xs
    by (induction xs) (auto simp: map_filter_simps split: option.splits)
  have "t \<in> set targets" if "build_project_target overlay box_cu e = Inr (Some t)" for t
    unfolding conjunct1 [OF a] using that assms(5) e by (auto simp: t intro!: bexI [of _ e])
  moreover have "pe_name e \<in> fst ` set failed" if "build_project_target overlay box_cu e = Inl (Raised x)" for x
  proof -
    have "fst ` set failed = set (map fst failed)" by simp
    also have "\<dots> = pe_name ` {e \<in> set es. pe_is_dir e \<and> (\<exists>x. build_project_target overlay box_cu e = Inl (Raised x))}"
      unfolding conjunct2 [OF a] by auto
    finally show ?thesis using that assms(4,5) by blast
  qed
  ultimately show ?thesis by (auto split: sum.split option.split raised.split)
qed

text \<open>
  An empty \<open>container_updates:\<close> (accepted with a warning where values are read leniently) ends the whole
  run with an AttributeError, which is not one of the errors that are reported project by project.
\<close>

lemma null_updates_stop_the_fleet:
  "build_targets (\<lambda>_. Some False) []
     (Some [\<lparr> pe_name = ''shop'', pe_is_dir = True, pe_manifest = Doc (PDict [(PStr ''schema_version'', PInt 3),
        (PStr ''project'', PStr ''shop''), (PStr ''container_updates'', PNone)]) \<rparr>]) = Inl AttributeError"
  by code_simp

lemma persist_keeps_previous:
  assumes "persist_result can_write (Doc (PDict d)) ts status current before = Inr (Doc v)" "d \<noteq> []" "status \<noteq> ''succeeded''"
  shows "\<exists>d'. v = PDict d' \<and> dget d' ''previous_digests'' = Some (dget_or d ''previous_digests'' (images_doc before))
    \<and> dget d' ''last_change'' = Some (dget_or d ''last_change'' PNone)"
  using assms
  by (auto simp: persist_result_def read_target_state_def target_state_doc_def write_target_state_def atomic_write_def
      rbind_eq_Inr py_or_def dget_def split: if_splits)

end
