(* ===== verification/Box_State.thy ===== *)
theory Box_State
  imports Py_Prelude
begin

text \<open>
  The part of a host that stopping and starting one project changes: the
  project's record files, its Caddy site on disk and the one Caddy serves, and
  its containers.  Docker, Caddy and the disk may fail at every step: each
  effect takes its outcome from a list that stands for the environment's
  choices (an empty list is a run without failures).  From
  \<^verbatim>\<open>src/boxmunge/docker.py\<close> come the calls that stop a project and read and set
  restart policies, from \<^verbatim>\<open>src/boxmunge/state.py\<close> the reading of a record.
\<close>

section \<open>State\<close>

record container =
  c_running :: bool
  c_policy :: string

datatype step_outcome = Step_Ok | Step_Fails nat

record box =
  quarantine_file :: json_file
  pause_file :: json_file
  migration_marker :: "string option"
  caddy_site :: "string option"
  caddy_live :: "string option"
  containers :: "(string \<times> container) list"
  outcomes :: "step_outcome list"

datatype box_error = Docker_Error | Quarantine_Error | State_Error

type_synonym 'a act = "box \<Rightarrow> (box_error raised + 'a) \<times> box"
type_synonym policies = "(string \<times> string) list"

definition aret :: "'a \<Rightarrow> 'a act" where
  "aret x b = (Inr x, b)"

definition araise :: "box_error \<Rightarrow> 'a act" where
  "araise e b = (Inl (Raised e), b)"

definition acrash :: "py_exc \<Rightarrow> 'a act" where
  "acrash x b = (Inl (Crash x), b)"

definition abind :: "'a act \<Rightarrow> ('a \<Rightarrow> 'b act) \<Rightarrow> 'b act" where
  "abind m f b = (case m b of (Inl e, b') \<Rightarrow> (Inl e, b') | (Inr x, b') \<Rightarrow> f x b')"

text \<open>\<open>try: ... except DockerError: raise e\<close>.\<close>

definition on_docker_error :: "box_error \<Rightarrow> 'a act \<Rightarrow> 'a act" where
  "on_docker_error e m b = (case m b of
     (Inl (Raised Docker_Error), b') \<Rightarrow> (Inl (Raised e), b')
   | r \<Rightarrow> r)"

lemma abind_Inr: "abind m f b = (Inr y, b'') \<longleftrightarrow>
    (\<exists>x b'. m b = (Inr x, b') \<and> f x b' = (Inr y, b''))"
  by (auto simp: abind_def split: prod.splits sum.splits)

lemma abind_Inl: "abind m f b = (Inl e, b'') \<longleftrightarrow>
    m b = (Inl e, b'') \<or> (\<exists>x b'. m b = (Inr x, b') \<and> f x b' = (Inl e, b''))"
  by (auto simp: abind_def split: prod.splits sum.splits)

lemma aret_eq [simp]: "aret x b = (r, b') \<longleftrightarrow> r = Inr x \<and> b' = b"
  by (auto simp: aret_def)

lemma araise_eq [simp]: "araise e b = (r, b') \<longleftrightarrow> r = Inl (Raised e) \<and> b' = b"
  by (auto simp: araise_def)

lemma acrash_eq [simp]: "acrash x b = (r, b') \<longleftrightarrow> r = Inl (Crash x) \<and> b' = b"
  by (auto simp: acrash_def)

lemma on_docker_error_Inr [simp]: "on_docker_error e m b = (Inr x, b') \<longleftrightarrow> m b = (Inr x, b')"
  by (auto simp: on_docker_error_def split: prod.splits sum.splits raised.splits box_error.splits)

lemma on_docker_error_Inl:
  "on_docker_error e m b = (Inl x, b') \<Longrightarrow> \<exists>y. m b = (Inl y, b')"
  by (auto simp: on_docker_error_def split: prod.splits sum.splits raised.splits box_error.splits)

text \<open>What an action leaves as it is, whatever its outcome.\<close>

definition keeps :: "(box \<Rightarrow> 'v) \<Rightarrow> 'a act \<Rightarrow> bool" where
  "keeps g m \<longleftrightarrow> (\<forall>b. g (snd (m b)) = g b)"

lemma keepsD: "keeps g m \<Longrightarrow> m b = (r, b') \<Longrightarrow> g b' = g b"
  by (metis keeps_def snd_conv)

lemma keeps_bind [intro]:
  assumes "keeps g m" "\<And>x. keeps g (f x)"
  shows "keeps g (abind m f)"
  unfolding keeps_def
proof
  fix b
  obtain r b' where m: "m b = (r, b')" by fastforce
  have "g b' = g b" using keepsD [OF assms(1) m] .
  then show "g (snd (abind m f b)) = g b"
    using assms(2) m by (cases r) (auto simp: abind_def keeps_def)
qed

lemma keeps_simple [intro!, simp]: "keeps g (aret x)" "keeps g (araise e)" "keeps g (acrash x')"
  by (simp_all add: keeps_def aret_def araise_def acrash_def)

lemma keeps_on_docker_error [intro]: "keeps g m \<Longrightarrow> keeps g (on_docker_error e m)"
  unfolding keeps_def on_docker_error_def
  by (auto split: prod.splits sum.splits raised.splits box_error.splits) (metis snd_conv)+

text \<open>A property no outcome of an action ends.\<close>

definition stays :: "(box \<Rightarrow> bool) \<Rightarrow> 'a act \<Rightarrow> bool" where
  "stays P m \<longleftrightarrow> (\<forall>b. P b \<longrightarrow> P (snd (m b)))"

lemma staysD: "stays P m \<Longrightarrow> m b = (r, b') \<Longrightarrow> P b \<Longrightarrow> P b'"
  by (metis stays_def snd_conv)

lemma stays_keeps: "keeps P m \<Longrightarrow> stays P m"
  by (simp add: stays_def keeps_def)

lemma stays_bind [intro]:
  assumes "stays P m" "\<And>x. stays P (f x)"
  shows "stays P (abind m f)"
  unfolding stays_def
proof (intro allI impI)
  fix b
  assume P: "P b"
  obtain r b' where m: "m b = (r, b')" by fastforce
  have "P b'" using staysD [OF assms(1) m P] .
  then show "P (snd (abind m f b))"
    using assms(2) m by (cases r) (auto simp: abind_def stays_def)
qed

lemma stays_simple [intro!, simp]: "stays P (aret x)" "stays P (araise e)" "stays P (acrash x')"
  by (simp_all add: stays_def aret_def araise_def acrash_def)

lemma stays_on_docker_error [intro]: "stays P m \<Longrightarrow> stays P (on_docker_error e m)"
  unfolding stays_def on_docker_error_def
  by (auto split: prod.splits sum.splits raised.splits box_error.splits)

lemma keeps_via: "keeps g m \<Longrightarrow> keeps (\<lambda>b. h (g b)) m"
  by (simp add: keeps_def)

section \<open>Effects\<close>

text \<open>Take the next outcome.\<close>

definition next_outcome :: "step_outcome act" where
  "next_outcome b = (Inr (case outcomes b of [] \<Rightarrow> Step_Ok | r # _ \<Rightarrow> r),
     b\<lparr>outcomes := tl (outcomes b)\<rparr>)"

definition effect :: "(box \<Rightarrow> box) \<Rightarrow> (nat \<Rightarrow> box \<Rightarrow> box) \<Rightarrow> box_error raised \<Rightarrow> unit act" where
  "effect done_all done_part e = abind next_outcome (\<lambda>r b.
     case r of Step_Ok \<Rightarrow> (Inr (), done_all b) | Step_Fails n \<Rightarrow> (Inl e, done_part n b))"

lemma effect_Inr: "effect d p e b = (Inr u, b') \<Longrightarrow>
    b' = d (b\<lparr>outcomes := tl (outcomes b)\<rparr>)"
  by (cases "outcomes b")
    (auto simp: effect_def abind_def next_outcome_def split: step_outcome.splits)

lemma effect_Inl: "effect d p e b = (Inl x, b') \<Longrightarrow>
    x = e \<and> (\<exists>n. b' = p n (b\<lparr>outcomes := tl (outcomes b)\<rparr>))"
  by (cases "outcomes b")
    (auto simp: effect_def abind_def next_outcome_def split: step_outcome.splits)

lemma keeps_effect:
  assumes "\<And>b. g (d b) = g b" "\<And>n b. g (p n b) = g b" "\<And>b rs. g (b\<lparr>outcomes := rs\<rparr>) = g b"
  shows "keeps g (effect d p e)"
  unfolding keeps_def effect_def abind_def next_outcome_def using assms
  by (auto split: list.splits step_outcome.splits)

text \<open>A failed atomic write changes nothing.\<close>

definition write_quarantine_file :: "box_error raised \<Rightarrow> pyval \<Rightarrow> unit act" where
  "write_quarantine_file e v = effect (\<lambda>b. b\<lparr>quarantine_file := Doc v\<rparr>) (\<lambda>_ b. b) e"

definition write_pause_file :: "pyval \<Rightarrow> unit act" where
  "write_pause_file v = effect (\<lambda>b. b\<lparr>pause_file := Doc v\<rparr>) (\<lambda>_ b. b) (Crash OSError)"

definition write_caddy_site :: "box_error raised \<Rightarrow> string \<Rightarrow> unit act" where
  "write_caddy_site e conf = effect (\<lambda>b. b\<lparr>caddy_site := Some conf\<rparr>) (\<lambda>_ b. b) e"

text \<open>\<open>docker.caddy_reload\<close>: Caddy goes on serving what it served when the reload fails.\<close>

definition caddy_reload :: "unit act" where
  "caddy_reload = effect (\<lambda>b. b\<lparr>caddy_live := caddy_site b\<rparr>) (\<lambda>_ b. b) (Raised Docker_Error)"

definition stop_first :: "nat \<Rightarrow> (string \<times> container) list \<Rightarrow> (string \<times> container) list" where
  "stop_first n cs = map (\<lambda>(m, c). (m, c\<lparr>c_running := False\<rparr>)) (take n cs) @ drop n cs"

text \<open>\<open>docker.compose_stop\<close>: a failure may have stopped some containers.\<close>

definition compose_stop :: "unit act" where
  "compose_stop = effect
     (\<lambda>b. b\<lparr>containers := stop_first (length (containers b)) (containers b)\<rparr>)
     (\<lambda>n b. b\<lparr>containers := stop_first n (containers b)\<rparr>) (Raised Docker_Error)"

text \<open>\<open>docker.project_restart_policies\<close>, from what Docker lists and inspects.\<close>

definition policies_now :: "box \<Rightarrow> policies" where
  "policies_now b = sort_key fst (map (\<lambda>(n, c). (n, c_policy c)) (containers b))"

definition project_restart_policies :: "policies act" where
  "project_restart_policies = abind next_outcome (\<lambda>r b.
     case r of Step_Ok \<Rightarrow> (Inr (policies_now b), b)
     | Step_Fails _ \<Rightarrow> (Inl (Raised Docker_Error), b))"

definition set_policies :: "string list \<Rightarrow> string \<Rightarrow> box \<Rightarrow> box" where
  "set_policies names p b = b\<lparr>containers :=
     map (\<lambda>(n, c). (n, if n \<in> set names then c\<lparr>c_policy := p\<rparr> else c)) (containers b)\<rparr>"

text \<open>\<open>docker.set_restart_policy\<close>: a failing \<open>docker update\<close> may have updated the first few.\<close>

definition set_restart_policy :: "string list \<Rightarrow> string \<Rightarrow> unit act" where
  "set_restart_policy names p =
     (if names = [] then aret ()
      else effect (set_policies names p) (\<lambda>k. set_policies (take k names) p)
             (Raised Docker_Error))"

section \<open>Reading a record\<close>

text \<open>\<open>state.read_state\<close> without a default.\<close>

definition read_state :: "json_file \<Rightarrow> box_error raised + pydict" where
  "read_state file = (case file of
     Absent \<Rightarrow> Inr []
   | Doc (PDict d) \<Rightarrow> Inr d
   | _ \<Rightarrow> Inl (Raised State_Error))"

definition alift :: "box_error raised + 'a \<Rightarrow> 'a act" where
  "alift r b = (r, b)"

lemma alift_eq [simp]: "alift r b = (r', b') \<longleftrightarrow> r' = r \<and> b' = b"
  by (auto simp: alift_def)

lemma keeps_alift [intro!, simp]: "keeps g (alift r)"
  by (simp add: keeps_def alift_def)

text \<open>
  \<open>state.get("restart_policies") or {}\<close>: names and policies are text in every
  record the program writes; another shape is not followed.
\<close>

fun policy_pair :: "pyval \<times> pyval \<Rightarrow> box_error raised + string \<times> string" where
  "policy_pair (PStr n, PStr p) = Inr (n, p)"
| "policy_pair _ = Inl (Crash Unmodelled)"

definition saved_policies :: "pydict \<Rightarrow> box_error raised + policies" where
  "saved_policies d = (let v = dget_or d ''restart_policies'' PNone in
     if \<not> py_truthy v then Inr []
     else case v of PDict ps \<Rightarrow> rmap policy_pair ps | _ \<Rightarrow> Inl (Crash Unmodelled))"

definition policies_doc :: "policies \<Rightarrow> pyval" where
  "policies_doc ps = PDict (map (\<lambda>(n, p). (PStr n, PStr p)) ps)"

definition with_policies :: "pydict \<Rightarrow> policies \<Rightarrow> pydict" where
  "with_policies d ps = dset d (PStr ''restart_policies'') (policies_doc ps)"

declare dget_dset [simp] dget_or_dset [simp]

lemma rmap_policy_pair: "rmap policy_pair (map (\<lambda>(n, p). (PStr n, PStr p)) ps) = Inr ps"
  by (induction ps) auto

lemma saved_with_policies [simp]: "saved_policies (with_policies d ps) = Inr ps"
  using rmap_policy_pair [of ps]
  by (auto simp: saved_policies_def with_policies_def policies_doc_def Let_def)

lemma saved_dset_other [simp]:
  "k \<noteq> ''restart_policies'' \<Longrightarrow> saved_policies (dset d (PStr k) v) = saved_policies d"
  by (simp add: saved_policies_def)

text \<open>The originals a record file holds; none when there is no readable record.\<close>

definition record_policies :: "json_file \<Rightarrow> policies" where
  "record_policies file = (case file of
     Doc (PDict d) \<Rightarrow> (case saved_policies d of Inr ps \<Rightarrow> ps | Inl _ \<Rightarrow> [])
   | _ \<Rightarrow> [])"

text \<open>Run an action and go on, or hand its error to a handler that may take it.\<close>

definition acatch ::
    "(box_error raised \<Rightarrow> 'b act option) \<Rightarrow> 'a act \<Rightarrow> ('a \<Rightarrow> 'b act) \<Rightarrow> 'b act" where
  "acatch h m f b = (case m b of
     (Inr x, b') \<Rightarrow> f x b'
   | (Inl e, b') \<Rightarrow> (case h e of Some k \<Rightarrow> k b' | None \<Rightarrow> (Inl e, b')))"

lemma keeps_acatch [intro]:
  assumes "keeps g m" "\<And>x. keeps g (f x)" "\<And>e k. h e = Some k \<Longrightarrow> keeps g k"
  shows "keeps g (acatch h m f)"
  unfolding keeps_def
proof
  fix b
  obtain r b' where m: "m b = (r, b')" by fastforce
  have "g b' = g b" using keepsD [OF assms(1) m] .
  then show "g (snd (acatch h m f b)) = g b"
    using assms(2,3) m by (cases r) (auto simp: acatch_def keeps_def split: option.splits)
qed

section \<open>Containers\<close>

lemma fst_stop_first [simp]: "map fst (stop_first n cs) = map fst cs"
  by (simp add: stop_first_def o_def split_def) (metis append_take_drop_id map_append)

lemma policy_stop_first [simp]:
  "map (\<lambda>(n, c). (n, c_policy c)) (stop_first k cs) = map (\<lambda>(n, c). (n, c_policy c)) cs"
proof -
  have "map (\<lambda>(n, c). (n, c_policy c)) (stop_first k cs)
      = map (\<lambda>(n, c). (n, c_policy c)) (take k cs @ drop k cs)"
    by (simp add: stop_first_def split_def o_def del: append_take_drop_id)
  then show ?thesis by simp
qed

lemma policies_stop_first [simp]:
  "policies_now (b\<lparr>containers := stop_first k (containers b)\<rparr>) = policies_now b"
  by (simp add: policies_now_def)

lemma policies_now_cong: "containers b = containers b' \<Longrightarrow> policies_now b = policies_now b'"
  by (simp add: policies_now_def)

definition policy_of :: "box \<Rightarrow> string \<Rightarrow> string option" where
  "policy_of b n = map_option c_policy (map_of (containers b) n)"

lemma map_of_container_policies: "map_of (map (\<lambda>(n, c). (n, c_policy c)) cs) n
    = map_option c_policy (map_of cs n)"
  by (induction cs) auto

lemma map_of_sort_key:
  "distinct (map fst xs) \<Longrightarrow> map_of (sort_key f xs) = map_of xs"
  by (intro map_of_inject_set [THEN iffD2]) (auto simp: distinct_map)

lemma map_of_policies_now:
  "distinct (map fst (containers b)) \<Longrightarrow> map_of (policies_now b) n = policy_of b n"
  using map_of_container_policies [of "containers b" n]
  by (simp add: policies_now_def map_of_sort_key policy_of_def o_def split_def)

lemma map_of_set_policies: "map_of (map (\<lambda>(n, c). (n, if n \<in> A then c\<lparr>c_policy := p\<rparr> else c)) cs) n
    = map_option (\<lambda>c. if n \<in> A then c\<lparr>c_policy := p\<rparr> else c) (map_of cs n)"
  by (induction cs) auto

lemma policy_of_set_policies: "policy_of (set_policies names p b) n =
    (if n \<in> set names then map_option (\<lambda>_. p) (policy_of b n) else policy_of b n)"
  by (simp add: policy_of_def set_policies_def map_of_set_policies option.map_comp o_def)

lemma set_policies_names [simp]: "map fst (containers (set_policies names p b)) = map fst (containers b)"
  by (simp add: set_policies_def o_def split_def)

lemma set_policies_running: "map (\<lambda>(n, c). (n, c_running c)) (containers (set_policies names p b))
    = map (\<lambda>(n, c). (n, c_running c)) (containers b)"
  by (auto simp: set_policies_def split: if_splits)

lemma set_policies_fields [simp]:
  "quarantine_file (set_policies names p b) = quarantine_file b"
  "pause_file (set_policies names p b) = pause_file b"
  "migration_marker (set_policies names p b) = migration_marker b"
  "caddy_site (set_policies names p b) = caddy_site b"
  "caddy_live (set_policies names p b) = caddy_live b"
  "outcomes (set_policies names p b) = outcomes b"
  by (simp_all add: set_policies_def)

lemma policy_of_via: "policy_of = (\<lambda>b. (\<lambda>cs n. map_option c_policy (map_of cs n)) (containers b))"
  by (simp add: policy_of_def fun_eq_iff)

lemma policy_of_outcomes [simp]: "policy_of (b\<lparr>outcomes := rs\<rparr>) = policy_of b"
  by (simp add: policy_of_def fun_eq_iff)

lemma project_restart_policies_Inr: "project_restart_policies b = (Inr ps, b') \<Longrightarrow>
    ps = policies_now b \<and> b' = b\<lparr>outcomes := tl (outcomes b)\<rparr>"
  by (cases "outcomes b") (auto simp: project_restart_policies_def abind_def next_outcome_def
      policies_now_def split: step_outcome.splits)

lemma project_restart_policies_Inl: "project_restart_policies b = (Inl e, b') \<Longrightarrow>
    b' = b\<lparr>outcomes := tl (outcomes b)\<rparr>"
  by (cases "outcomes b") (auto simp: project_restart_policies_def abind_def next_outcome_def
      split: step_outcome.splits)

lemma set_restart_policy_cases:
  assumes "set_restart_policy names p b = (r, b')"
  obtains k rs where "b' = set_policies (take k names) p (b\<lparr>outcomes := rs\<rparr>)"
    "r = Inr () \<Longrightarrow> length names \<le> k"
proof (cases "names = []")
  case True
  with assms have "b' = set_policies (take 0 names) p (b\<lparr>outcomes := outcomes b\<rparr>)"
    by (simp add: set_restart_policy_def set_policies_def)
  then show ?thesis using that True by fastforce
next
  case False
  show ?thesis
  proof (cases r)
    case (Inl x)
    with assms False obtain n where "b' = set_policies (take n names) p (b\<lparr>outcomes := tl (outcomes b)\<rparr>)"
      by (auto simp: set_restart_policy_def dest!: effect_Inl)
    then show ?thesis using that Inl by blast
  next
    case (Inr u)
    with assms False have "b' = set_policies (take (length names) names) p (b\<lparr>outcomes := tl (outcomes b)\<rparr>)"
      by (auto simp: set_restart_policy_def dest!: effect_Inr)
    then show ?thesis using that by blast
  qed
qed

definition running_now :: "box \<Rightarrow> (string \<times> bool) list" where
  "running_now b = map (\<lambda>(n, c). (n, c_running c)) (containers b)"

lemma running_set_policies [simp]: "running_now (set_policies names p b) = running_now b"
  using set_policies_running by (simp add: running_now_def)

lemma running_simps [simp]:
  "running_now (b\<lparr>outcomes := rs\<rparr>) = running_now b"
  "running_now (b\<lparr>quarantine_file := f\<rparr>) = running_now b"
  "running_now (b\<lparr>pause_file := f\<rparr>) = running_now b"
  by (simp_all add: running_now_def)

text \<open>No container of the project runs.\<close>

definition all_stopped :: "box \<Rightarrow> bool" where
  "all_stopped b \<longleftrightarrow> (\<forall>n c. (n, c) \<in> set (containers b) \<longrightarrow> \<not> c_running c)"

lemma all_stopped_running: "all_stopped b \<longleftrightarrow> True \<notin> snd ` set (running_now b)"
  by (force simp: all_stopped_def running_now_def)

lemma compose_stop_Inr:
  "compose_stop b = (Inr u, b') \<Longrightarrow>
   b' = b\<lparr>outcomes := tl (outcomes b), containers := stop_first (length (containers b)) (containers b)\<rparr>
   \<and> all_stopped b' \<and> policies_now b' = policies_now b
   \<and> map fst (containers b') = map fst (containers b) \<and> policy_of b' = policy_of b"
proof -
  assume "compose_stop b = (Inr u, b')"
  then have b': "b' = b\<lparr>outcomes := tl (outcomes b),
      containers := stop_first (length (containers b)) (containers b)\<rparr>"
    unfolding compose_stop_def by (auto dest!: effect_Inr)
  have "policy_of b' n = policy_of b n" for n
    using map_of_container_policies [of "containers b'" n] map_of_container_policies [of "containers b" n]
    by (simp add: policy_of_def b')
  then show ?thesis
    by (auto simp: b' all_stopped_def stop_first_def policies_now_def fun_eq_iff o_def split_def)
qed

lemma compose_stop_keeps:
  "keeps policies_now compose_stop" "keeps (\<lambda>b. map fst (containers b)) compose_stop"
  "keeps policy_of compose_stop" "keeps pause_file compose_stop" "keeps quarantine_file compose_stop"
  "keeps caddy_live compose_stop" "keeps caddy_site compose_stop"
proof -
  have p: "policy_of (b\<lparr>containers := stop_first k (containers b)\<rparr>) = policy_of b" for b k
    using map_of_container_policies [of "stop_first k (containers b)"]
      map_of_container_policies [of "containers b"]
    by (simp add: policy_of_def fun_eq_iff)
  show "keeps policies_now compose_stop" "keeps (\<lambda>b. map fst (containers b)) compose_stop"
    "keeps policy_of compose_stop" "keeps pause_file compose_stop" "keeps quarantine_file compose_stop"
    "keeps caddy_live compose_stop" "keeps caddy_site compose_stop"
    unfolding compose_stop_def by (auto intro!: keeps_effect simp: p) (simp add: policies_now_def)
qed

end
