(* ===== verification/Restart_Hold.thy ===== *)
theory Restart_Hold
  imports Box_State
begin

text \<open>
  \<^verbatim>\<open>src/boxmunge/restart_hold.py\<close>: holding a stopped project's restart policies at
  \<open>no\<close> and giving the originals back.  \<open>persist\<close> is the caller's: it writes the
  originals into its own record.
\<close>

definition merge_originals :: "policies \<Rightarrow> policies \<Rightarrow> policies" where
  "merge_originals saved current =
     foldl (\<lambda>d (n, p). if n \<in> fst ` set d then d else d @ [(n, p)]) saved current"

definition hold :: "policies \<Rightarrow> (policies \<Rightarrow> unit act) \<Rightarrow> policies act" where
  "hold saved persist =
     abind project_restart_policies (\<lambda>current.
     abind (persist (merge_originals saved current)) (\<lambda>_.
     abind (set_restart_policy (sort (map fst (filter (\<lambda>(n, p). p \<noteq> ''no'') current))) ''no'')
       (\<lambda>_. aret (merge_originals saved current))))"

definition add_to_group :: "(string \<times> string list) list \<Rightarrow> string \<Rightarrow> string
    \<Rightarrow> (string \<times> string list) list" where
  "add_to_group by_policy n p =
     dset by_policy p ((case map_of by_policy p of None \<Rightarrow> [] | Some ns \<Rightarrow> ns) @ [n])"

definition group_step :: "policies \<Rightarrow> (string \<times> string list) list \<Rightarrow> string \<times> string
    \<Rightarrow> (string \<times> string list) list" where
  "group_step present d x = (case x of (n, p) \<Rightarrow> case map_of present n of
     Some q \<Rightarrow> if p \<noteq> q then add_to_group d n p else d | None \<Rightarrow> d)"

definition group_by_policy :: "policies \<Rightarrow> policies \<Rightarrow> (string \<times> string list) list" where
  "group_by_policy saved present = foldl (group_step present) [] saved"

fun set_groups :: "(string \<times> string list) list \<Rightarrow> unit act" where
  "set_groups [] = aret ()"
| "set_groups ((p, ns) # gs) = abind (set_restart_policy (sort ns) p) (\<lambda>_. set_groups gs)"

definition release :: "policies \<Rightarrow> unit act" where
  "release saved = abind project_restart_policies (\<lambda>present.
     set_groups (sort_key fst (group_by_policy saved present)))"

text \<open>Combining saved policies: a real policy wins over a \<open>no\<close> that reflects an earlier hold.\<close>

definition originals :: "policies list \<Rightarrow> policies" where
  "originals rs = foldl (\<lambda>out (n, p).
     if (case map_of out n of None \<Rightarrow> ''no'' | Some q \<Rightarrow> q) = ''no'' then dset out n p else out)
     [] (concat rs)"

section \<open>What they leave alone\<close>

lemma keeps_next_outcome:
  "(\<And>b rs. g (b\<lparr>outcomes := rs\<rparr>) = g b) \<Longrightarrow> keeps g next_outcome"
  by (simp add: keeps_def next_outcome_def)

lemma keeps_project_restart_policies:
  "(\<And>b rs. g (b\<lparr>outcomes := rs\<rparr>) = g b) \<Longrightarrow> keeps g project_restart_policies"
  unfolding project_restart_policies_def keeps_def abind_def next_outcome_def
  by (auto split: step_outcome.splits list.splits)

lemma keeps_set_restart_policy:
  assumes "\<And>b rs. g (b\<lparr>outcomes := rs\<rparr>) = g b" "\<And>ns p b. g (set_policies ns p b) = g b"
  shows "keeps g (set_restart_policy names p)"
  unfolding set_restart_policy_def using assms by (auto intro!: keeps_effect)

lemma keeps_hold:
  assumes "\<And>b rs. g (b\<lparr>outcomes := rs\<rparr>) = g b" "\<And>ns p b. g (set_policies ns p b) = g b"
    and "\<And>ps. keeps g (persist ps)"
  shows "keeps g (hold saved persist)"
  unfolding hold_def
  by (intro keeps_bind keeps_project_restart_policies keeps_set_restart_policy keeps_simple assms)

lemma keeps_set_groups:
  assumes "\<And>b rs. g (b\<lparr>outcomes := rs\<rparr>) = g b" "\<And>ns p b. g (set_policies ns p b) = g b"
  shows "keeps g (set_groups gs)"
proof (induction gs)
  case Nil
  then show ?case by simp
next
  case (Cons x gs)
  obtain p ns where "x = (p, ns)" by (cases x)
  with Cons show ?case by (simp add: keeps_bind keeps_set_restart_policy assms)
qed

lemma keeps_release:
  assumes "\<And>b rs. g (b\<lparr>outcomes := rs\<rparr>) = g b" "\<And>ns p b. g (set_policies ns p b) = g b"
  shows "keeps g (release saved)"
  unfolding release_def
  by (intro keeps_bind keeps_project_restart_policies keeps_set_groups assms)

section \<open>What hold leaves behind\<close>

lemma map_of_merge_originals: "map_of (merge_originals saved current) n =
    (case map_of saved n of Some p \<Rightarrow> Some p | None \<Rightarrow> map_of current n)"
proof (induction current arbitrary: saved)
  case Nil
  then show ?case by (simp add: merge_originals_def split: option.split)
next
  case (Cons x current)
  obtain m q where x: "x = (m, q)" by (cases x)
  have step: "merge_originals saved (x # current) = merge_originals
      (if m \<in> fst ` set saved then saved else saved @ [(m, q)]) current"
    by (simp add: merge_originals_def x)
  have app: "map_of (saved @ [(m, q)]) n = (case map_of saved n of Some p \<Rightarrow> Some p
      | None \<Rightarrow> if n = m then Some q else None)"
    by (simp add: map_of_append map_add_def split: option.splits)
  have "map_of saved m \<noteq> None \<longleftrightarrow> m \<in> fst ` set saved" by (simp add: map_of_eq_None_iff)
  then show ?case
    unfolding step using Cons.IH app by (auto simp: x split: option.splits)
qed

lemma distinct_merge_originals:
  "distinct (map fst saved) \<Longrightarrow> distinct (map fst (merge_originals saved current))"
  by (induction current arbitrary: saved) (auto simp: merge_originals_def split_def)

text \<open>
  The contract of a caller that keeps originals in a record: \<open>persist\<close> either
  records exactly the given originals or leaves the record, and touches no container.
\<close>

locale original_keeper =
  fixes kept :: "box \<Rightarrow> policies"
    and persist :: "policies \<Rightarrow> unit act"
  assumes persist_done: "persist ps b = (Inr u, b') \<Longrightarrow> kept b' = ps"
    and persist_failed: "persist ps b = (Inl e, b') \<Longrightarrow> kept b' = kept b"
    and persist_containers: "keeps containers (persist ps)"
    and kept_outcomes: "kept (b\<lparr>outcomes := rs\<rparr>) = kept b"
    and kept_containers: "kept (b\<lparr>containers := cs\<rparr>) = kept b"
begin

text \<open>The policy a container had before anyone held it: the saved one, else the present one.\<close>

definition original :: "box \<Rightarrow> string \<Rightarrow> string option" where
  "original b n = (case map_of (kept b) n of Some p \<Rightarrow> Some p | None \<Rightarrow> policy_of b n)"

lemma original_set_policies:
  assumes "\<And>n. n \<in> set names \<Longrightarrow> map_of (kept b) n \<noteq> None"
  shows "original (set_policies names p b) n = original b n"
proof -
  have "kept (set_policies names p b) = kept b"
    unfolding set_policies_def by (rule kept_containers)
  then show ?thesis
    using assms [of n] by (cases "map_of (kept b) n") (auto simp: original_def policy_of_set_policies)
qed

lemma original_outcomes [simp]: "original (b\<lparr>outcomes := rs\<rparr>) n = original b n"
  by (simp add: original_def kept_outcomes cong: option.case_cong)

text \<open>No outcome of a hold loses an original, not a failure half-way either.\<close>

lemma hold_keeps_originals:
  assumes run: "hold saved persist b = (r, b')" and saved: "saved = kept b"
    and dist: "distinct (map fst (containers b))"
  shows "original b' n = original b n
    \<and> map fst (containers b') = map fst (containers b)
    \<and> (\<forall>ps. r = Inr ps \<longrightarrow> kept b' = ps)
    \<and> (\<forall>ps. r = Inr ps \<longrightarrow> (\<forall>m. policy_of b' m \<in> {None, Some ''no''}))
    \<and> (\<forall>ps. r = Inr ps \<longrightarrow> (\<forall>m. policy_of b m \<noteq> None \<longrightarrow> map_of ps m = original b m))
    \<and> (distinct (map fst (kept b)) \<longrightarrow> distinct (map fst (kept b')))"
proof -
  let ?b1 = "b\<lparr>outcomes := tl (outcomes b)\<rparr>"
  let ?cur = "policies_now b"
  let ?m = "merge_originals saved ?cur"
  have cur: "map_of ?cur m = policy_of b m" for m using dist by (rule map_of_policies_now)
  have dm: "distinct (map fst (kept b)) \<Longrightarrow> distinct (map fst ?m)"
    unfolding saved by (rule distinct_merge_originals)
  have merged: "map_of ?m m = original b m" for m
    by (simp add: map_of_merge_originals original_def saved cur split: option.splits)
  consider (ps) e where "project_restart_policies b = (Inl e, b')" "r = Inl e"
    | (list) "project_restart_policies b = (Inr ?cur, ?b1)"
    using run by (auto simp: hold_def abind_def dest: project_restart_policies_Inl
        project_restart_policies_Inr split: prod.splits sum.splits)
  then show ?thesis
  proof cases
    case ps
    then have "b' = ?b1" by (simp add: project_restart_policies_Inl)
    then show ?thesis using ps by (simp add: kept_outcomes)
  next
    case list
    obtain r2 b2 where p: "persist ?m ?b1 = (r2, b2)" by fastforce
    have c2: "containers b2 = containers b"
      using keepsD [OF persist_containers p] by simp
    then have pol2: "policy_of b2 = policy_of b" by (simp add: policy_of_def fun_eq_iff)
    show ?thesis
    proof (cases r2)
      case (Inl e)
      with run list p have b': "b' = b2" "r = Inl e" by (auto simp: hold_def abind_def)
      have "kept b2 = kept b" using persist_failed p Inl kept_outcomes by metis
      then show ?thesis using b' c2 pol2 by (simp add: original_def cong: option.case_cong)
    next
      case (Inr u)
      have k2: "kept b2 = ?m" using p Inr persist_done by blast
      let ?names = "sort (map fst (filter (\<lambda>(n, p). p \<noteq> ''no'') ?cur))"
      obtain r3 b3 where s: "set_restart_policy ?names ''no'' b2 = (r3, b3)" by fastforce
      then obtain k rs where b3: "b3 = set_policies (take k ?names) ''no'' (b2\<lparr>outcomes := rs\<rparr>)"
        and full: "r3 = Inr () \<Longrightarrow> length ?names \<le> k"
        using set_restart_policy_cases by metis
      have b': "b' = b3" and r: "r = (case r3 of Inl e \<Rightarrow> Inl e | Inr _ \<Rightarrow> Inr ?m)"
        using run list p Inr s by (auto simp: hold_def abind_def split: sum.splits)
      have in_cur: "policy_of b m \<noteq> None" if "m \<in> set (take k ?names)" for m
      proof -
        have "m \<in> fst ` set ?cur" using in_set_takeD [OF that] by auto
        then show ?thesis by (metis cur map_of_eq_None_iff)
      qed
      then have kn: "map_of (kept (b2\<lparr>outcomes := rs\<rparr>)) m \<noteq> None"
        if "m \<in> set (take k ?names)" for m
        using that merged [of m] k2 by (auto simp: kept_outcomes original_def split: option.splits)
      have o2: "original b2 n = original b n"
        using k2 merged pol2 by (auto simp: original_def split: option.splits)
      have o3: "original b3 n = original b n"
        unfolding b3 by (subst original_set_policies) (use kn o2 in auto)
      have k3: "kept b3 = ?m"
        unfolding b3 set_policies_def kept_containers kept_outcomes by (rule k2)
      have no: "policy_of b3 m \<in> {None, Some ''no''}" if "r3 = Inr ()" for m
      proof -
        have t: "take k ?names = ?names" using full [OF that] by simp
        have "m \<in> set ?names" if "policy_of b m = Some p" "p \<noteq> ''no''" for p
          using that cur [of m] map_of_SomeD [of ?cur m p] by force
        then show ?thesis
          unfolding b3 t by (cases "policy_of b m") (auto simp: policy_of_set_policies pol2)
      qed
      show ?thesis
        using o3 k3 no merged dm c2 b' r b3 by (auto split: sum.splits simp: original_def)
    qed
  qed
qed

end

section \<open>What release gives back\<close>

lemma map_of_add_to_group: "map_of (add_to_group d n p) q =
    (if q = p then Some ((case map_of d p of None \<Rightarrow> [] | Some ns \<Rightarrow> ns) @ [n]) else map_of d q)"
  by (simp add: add_to_group_def)

lemma group_members:
  "(\<exists>ns. map_of (foldl (group_step present) d saved) p = Some ns \<and> n \<in> set ns) \<longleftrightarrow>
   (\<exists>ns. map_of d p = Some ns \<and> n \<in> set ns)
   \<or> ((n, p) \<in> set saved \<and> (\<exists>q. map_of present n = Some q \<and> p \<noteq> q))"
proof (induction saved arbitrary: d)
  case (Cons x saved)
  obtain m q where x: "x = (m, q)" by (cases x)
  have "(\<exists>ns. map_of (group_step present d x) p = Some ns \<and> n \<in> set ns) \<longleftrightarrow>
      (\<exists>ns. map_of d p = Some ns \<and> n \<in> set ns)
      \<or> ((n, p) = (m, q) \<and> (\<exists>q'. map_of present n = Some q' \<and> p \<noteq> q'))"
    by (auto simp: group_step_def x map_of_add_to_group split: option.splits)
  then show ?case using Cons.IH [of "group_step present d x"] by (auto simp: x)
qed simp

lemma distinct_groups:
  "distinct (map fst d) \<Longrightarrow> distinct (map fst (foldl (group_step present) d saved))"
  by (induction saved arbitrary: d)
    (auto simp: group_step_def add_to_group_def split_def split: option.splits)

lemma set_groups_Inr:
  assumes "set_groups gs b = (Inr u, b')" and "distinct (map fst gs)"
    and "\<forall>p ns q ms n. (p, ns) \<in> set gs \<longrightarrow> (q, ms) \<in> set gs \<longrightarrow> n \<in> set ns \<longrightarrow> n \<in> set ms \<longrightarrow> p = q"
  shows "policy_of b' n = (case List.find (\<lambda>(p, ns). n \<in> set ns) gs of
      Some (p, _) \<Rightarrow> map_option (\<lambda>_. p) (policy_of b n) | None \<Rightarrow> policy_of b n)
    \<and> map fst (containers b') = map fst (containers b)"
  using assms
proof (induction gs arbitrary: b)
  case Nil
  then show ?case by simp
next
  case (Cons g gs)
  obtain p ns where g: "g = (p, ns)" by (cases g)
  from Cons.prems(1) obtain b1 where s: "set_restart_policy (sort ns) p b = (Inr (), b1)"
    and rest: "set_groups gs b1 = (Inr u, b')"
    by (auto simp: g abind_Inr)
  from s obtain k rs where b1: "b1 = set_policies (take k (sort ns)) p (b\<lparr>outcomes := rs\<rparr>)"
    and "length (sort ns) \<le> k"
    using set_restart_policy_cases by metis
  then have b1: "b1 = set_policies (sort ns) p (b\<lparr>outcomes := rs\<rparr>)" by simp
  have pol: "policy_of b1 m = (if m \<in> set ns then map_option (\<lambda>_. p) (policy_of b m) else policy_of b m)"
    for m unfolding b1 by (simp add: policy_of_set_policies)
  have names: "map fst (containers b1) = map fst (containers b)" by (simp add: b1)
  have IH: "policy_of b' n = (case List.find (\<lambda>(p, ns). n \<in> set ns) gs of
      Some (p, _) \<Rightarrow> map_option (\<lambda>_. p) (policy_of b1 n) | None \<Rightarrow> policy_of b1 n)"
    "map fst (containers b') = map fst (containers b1)"
  proof -
    have "distinct (map fst gs)" using Cons.prems(2) by simp
    moreover have "\<forall>p ns q ms n. (p, ns) \<in> set gs \<longrightarrow> (q, ms) \<in> set gs \<longrightarrow> n \<in> set ns
        \<longrightarrow> n \<in> set ms \<longrightarrow> p = q"
      using Cons.prems(3) by (meson list.set_intros(2))
    ultimately have "policy_of b' n = (case List.find (\<lambda>(p, ns). n \<in> set ns) gs of
        Some (p, _) \<Rightarrow> map_option (\<lambda>_. p) (policy_of b1 n) | None \<Rightarrow> policy_of b1 n)
      \<and> map fst (containers b') = map fst (containers b1)"
      by (rule Cons.IH [OF rest])
    then show "policy_of b' n = (case List.find (\<lambda>(p, ns). n \<in> set ns) gs of
        Some (p, _) \<Rightarrow> map_option (\<lambda>_. p) (policy_of b1 n) | None \<Rightarrow> policy_of b1 n)"
      "map fst (containers b') = map fst (containers b1)" by (simp_all only: simp_thms)
  qed
  show ?case
  proof (cases "n \<in> set ns")
    case True
    have "List.find (\<lambda>(p, ns). n \<in> set ns) gs = None"
    proof (rule ccontr)
      assume "List.find (\<lambda>(p, ns). n \<in> set ns) gs \<noteq> None"
      then obtain q ms where q: "(q, ms) \<in> set gs" "n \<in> set ms"
        by (auto simp: find_Some_iff dest: nth_mem)
      have "q = p" using Cons.prems(3) q True by (metis g list.set_intros)
      then show False using q Cons.prems(2) by (auto simp: g image_iff)
    qed
    then show ?thesis using IH pol [of n] True names by (simp add: g)
  next
    case False
    then show ?thesis using IH pol [of n] names by (simp add: g cong: option.case_cong)
  qed
qed

lemma release_Inr:
  assumes run: "release saved b = (Inr u, b')" and dist: "distinct (map fst (containers b))"
    and saved: "distinct (map fst saved)"
  shows "policy_of b' n = (case policy_of b n of None \<Rightarrow> None
      | Some q \<Rightarrow> Some (case map_of saved n of Some p \<Rightarrow> p | None \<Rightarrow> q))
    \<and> map fst (containers b') = map fst (containers b)"
proof -
  let ?b1 = "b\<lparr>outcomes := tl (outcomes b)\<rparr>"
  let ?gs = "foldl (group_step (policies_now b)) [] saved"
  have cur: "map_of (policies_now b) m = policy_of b m" for m
    using dist by (rule map_of_policies_now)
  have g: "set_groups (sort_key fst ?gs) ?b1 = (Inr u, b')"
    using run by (auto simp: release_def abind_Inr group_by_policy_def
        dest!: project_restart_policies_Inr)
  have d: "distinct (map fst (sort_key fst ?gs))"
    using distinct_groups [of "[]"] by (simp add: distinct_map)
  have mem: "(\<exists>ns. (p, ns) \<in> set ?gs \<and> m \<in> set ns) \<longleftrightarrow>
      map_of saved m = Some p \<and> (\<exists>q. policy_of b m = Some q \<and> p \<noteq> q)" for p m
  proof -
    have "(\<exists>ns. (p, ns) \<in> set ?gs \<and> m \<in> set ns) \<longleftrightarrow>
        (\<exists>ns. map_of ?gs p = Some ns \<and> m \<in> set ns)"
      using distinct_groups [of "[]"] by (metis list.map(1) distinct.simps(1) map_of_eq_Some_iff)
    then show ?thesis
      using group_members [of "policies_now b" "[]" saved p m] saved cur by simp
  qed
  have uniq: "\<forall>p ns q ms n. (p, ns) \<in> set (sort_key fst ?gs) \<longrightarrow> (q, ms) \<in> set (sort_key fst ?gs)
      \<longrightarrow> n \<in> set ns \<longrightarrow> n \<in> set ms \<longrightarrow> p = q"
    using mem by (metis option.inject set_sort)
  have fin: "policy_of b' n = (case List.find (\<lambda>(p, ns). n \<in> set ns) (sort_key fst ?gs) of
      Some (p, _) \<Rightarrow> map_option (\<lambda>_. p) (policy_of b n) | None \<Rightarrow> policy_of b n)"
    and names: "map fst (containers b') = map fst (containers b)"
    using set_groups_Inr [OF g d uniq, of n] by (simp_all cong: option.case_cong)
  show ?thesis
  proof (cases "List.find (\<lambda>(p, ns). n \<in> set ns) (sort_key fst ?gs)")
    case None
    then have "\<not> (\<exists>p ns. (p, ns) \<in> set ?gs \<and> n \<in> set ns)" by (auto simp: find_None_iff)
    then have "map_of saved n = Some p \<Longrightarrow> policy_of b n = Some q \<Longrightarrow> p = q" for p q
      using mem [of p n] by blast
    then show ?thesis using fin None names by (auto split: option.splits)
  next
    case (Some g)
    obtain p ns where gp: "g = (p, ns)" by (cases g)
    with Some have "(p, ns) \<in> set ?gs" "n \<in> set ns"
      by (auto simp: find_Some_iff) (metis nth_mem length_sort set_sort)+
    then have "map_of saved n = Some p" "\<exists>q. policy_of b n = Some q" using mem by blast+
    then show ?thesis using fin Some gp names by auto
  qed
qed

definition real_or_no :: "string option \<Rightarrow> string option \<Rightarrow> string option" where
  "real_or_no a b = (case a of Some p \<Rightarrow> if p = ''no'' then (if b = None then a else b) else a | None \<Rightarrow> b)"

lemma map_of_originals_fold:
  "distinct (map fst r) \<Longrightarrow> map_of (foldl (\<lambda>out (n, p).
     if (case map_of out n of None \<Rightarrow> ''no'' | Some q \<Rightarrow> q) = ''no'' then dset out n p else out)
     out r) n = real_or_no (map_of out n) (map_of r n)"
proof (induction r arbitrary: out)
  case Nil
  then show ?case by (simp add: real_or_no_def split: option.split)
next
  case (Cons x r)
  obtain m p where x: "x = (m, p)" by (cases x)
  have "map_of r m = None" using Cons.prems by (simp add: x map_of_eq_None_iff)
  then show ?case
    using Cons.prems Cons.IH [of out] Cons.IH [of "dset out m p"]
    by (cases "n = m") (auto simp: x real_or_no_def split: option.splits)
qed

text \<open>Two records with distinct names: the first's real policy, else the second's, else \<open>no\<close>.\<close>

lemma map_of_originals:
  assumes "distinct (map fst r)" "distinct (map fst s)"
  shows "map_of (originals [r, s]) n = real_or_no (map_of r n) (map_of s n)"
proof -
  have "real_or_no None x = x" for x by (simp add: real_or_no_def)
  then show ?thesis
    using map_of_originals_fold [OF assms(1), of "[]" n] map_of_originals_fold [OF assms(2)]
    by (simp add: originals_def)
qed

end
