(* ===== verification/Pause.thy ===== *)
theory Pause
  imports Restart_Hold Py_Datetime
begin

text \<open>
  \<^verbatim>\<open>src/boxmunge/pause.py\<close> and the core of \<^verbatim>\<open>src/boxmunge/commands/pause_cmd.py\<close>: the
  pause record and the steps of a pause.  Printing and logging are left out, and
  so is the marker of a staged slot that a pause clears (it changes no other
  part of this state and cannot fail the pause).
\<close>

section \<open>The record\<close>

definition is_paused :: "box \<Rightarrow> bool" where
  "is_paused b \<longleftrightarrow> pause_file b \<noteq> Absent"

definition paused_doc :: "string option \<Rightarrow> datetime \<Rightarrow> pydict" where
  "paused_doc reason now =
     [(PStr ''paused_at'', PStr (datetime_iso now)), (PStr ''action_complete'', PBool False)]
     @ (case reason of None \<Rightarrow> [] | Some r \<Rightarrow> [(PStr ''reason'', PStr r)])"

definition write_paused_state :: "string option \<Rightarrow> datetime \<Rightarrow> unit act" where
  "write_paused_state reason now = write_pause_file (PDict (paused_doc reason now))"

definition read_paused_state :: "pydict option act" where
  "read_paused_state b =
     ((if is_paused b then rbind (read_state (pause_file b)) (\<lambda>d. Inr (Some d)) else Inr None), b)"

definition update_paused_state :: "string \<Rightarrow> pyval \<Rightarrow> unit act" where
  "update_paused_state k v = abind read_paused_state (\<lambda>st. case st of
     None \<Rightarrow> acrash ValueError
   | Some d \<Rightarrow> write_pause_file (PDict (dset d (PStr k) v)))"

definition pause_action_complete :: "bool act" where
  "pause_action_complete = abind read_paused_state (\<lambda>st. aret (case st of
     None \<Rightarrow> False
   | Some d \<Rightarrow> dget_or d ''action_complete'' (PBool True) = PBool True))"

definition pause_incomplete :: "bool act" where
  "pause_incomplete b = (if is_paused b then abind pause_action_complete (\<lambda>c. aret (\<not> c)) b
     else (Inr False, b))"

definition mark_pause_complete :: "unit act" where
  "mark_pause_complete = update_paused_state ''action_complete'' (PBool True)"

definition persist_in_pause :: "policies \<Rightarrow> unit act" where
  "persist_in_pause ps = update_paused_state ''restart_policies'' (policies_doc ps)"

definition paused_or_empty :: "pydict act" where
  "paused_or_empty = abind read_paused_state (\<lambda>st. aret (case st of None \<Rightarrow> [] | Some d \<Rightarrow> d))"

definition hold_restart_policies :: "unit act" where
  "hold_restart_policies = abind paused_or_empty (\<lambda>d.
     abind (alift (saved_policies d)) (\<lambda>saved.
     abind (hold saved persist_in_pause) (\<lambda>_. aret ())))"

definition release_restart_policies :: "unit act" where
  "release_restart_policies = abind paused_or_empty (\<lambda>d.
     abind (alift (saved_policies d)) release)"

definition hand_over_restart_policies :: "policies \<Rightarrow> unit act" where
  "hand_over_restart_policies saved = abind paused_or_empty (\<lambda>d.
     abind (alift (saved_policies d)) (\<lambda>own. persist_in_pause (originals [own, saved])))"

definition clear_paused_state :: "unit act" where
  "clear_paused_state b = (Inr (), b\<lparr>pause_file := Absent\<rparr>)"

section \<open>The maintenance page\<close>

definition nl :: string where "nl = [CHR 0x0A]"

definition render_maintenance_caddy_config :: "string list \<Rightarrow> py_exc + string" where
  "render_maintenance_caddy_config hosts =
     (if hosts = [] then Inl ValueError
      else Inr (join '', '' hosts @ '' {'' @ nl
        @ ''  handle {'' @ nl
        @ ''    header Retry-After 3600'' @ nl
        @ ''    root * /etc/caddy/maintenance'' @ nl
        @ ''    file_server {'' @ nl
        @ ''      status 503'' @ nl
        @ ''    }'' @ nl
        @ ''  }'' @ nl
        @ ''}'' @ nl))"

section \<open>Pausing\<close>

text \<open>
  The core under the project lock.  \<open>hosts\<close> is what the manifest gives (\<open>None\<close>: it
  is unusable or names no host); \<open>legacy\<close> says whether a stage of an earlier
  version is in the way.  The result is the exit code.
\<close>

definition refuse_if_already_paused :: "bool act" where
  "refuse_if_already_paused b = (if is_paused b then pause_action_complete b else (Inr False, b))"

definition exit_on :: "(box_error raised \<Rightarrow> bool) \<Rightarrow> box_error raised \<Rightarrow> int act option" where
  "exit_on p e = (if p e then Some (aret 1) else None)"

definition is_docker :: "box_error raised \<Rightarrow> bool" where
  "is_docker e \<longleftrightarrow> e = Raised Docker_Error"

definition is_docker_or_os :: "box_error raised \<Rightarrow> bool" where
  "is_docker_or_os e \<longleftrightarrow> e = Raised Docker_Error \<or> e = Crash OSError"

definition render_hosts :: "string list \<Rightarrow> string act" where
  "render_hosts hosts = (case render_maintenance_caddy_config hosts of
     Inl x \<Rightarrow> acrash x | Inr conf \<Rightarrow> aret conf)"

definition swap_in_maintenance :: "string list \<Rightarrow> unit act" where
  "swap_in_maintenance hosts = abind (render_hosts hosts) (\<lambda>conf.
     abind (write_caddy_site (Crash OSError) conf) (\<lambda>_. caddy_reload))"

definition pause_steps :: "string list \<Rightarrow> string option \<Rightarrow> datetime \<Rightarrow> int act" where
  "pause_steps hosts reason now =
     abind (\<lambda>b. if is_paused b then (Inr (), b) else write_paused_state reason now b) (\<lambda>_.
     acatch (exit_on is_docker_or_os) (swap_in_maintenance hosts) (\<lambda>_.
     acatch (exit_on is_docker) compose_stop (\<lambda>_.
     acatch (exit_on is_docker) hold_restart_policies (\<lambda>_.
     abind mark_pause_complete (\<lambda>_. aret 0)))))"

definition pause_locked ::
    "bool \<Rightarrow> string list option \<Rightarrow> string option \<Rightarrow> datetime \<Rightarrow> int act" where
  "pause_locked legacy hosts reason now b =
     (if migration_marker b \<noteq> None then (Inr 1, b)
      else if legacy then (Inr 1, b)
      else abind refuse_if_already_paused (\<lambda>refused.
        if refused then aret 1
        else case hosts of
          None \<Rightarrow> aret 1
        | Some hs \<Rightarrow> if hs = [] then aret 1 else pause_steps hs reason now) b)"

section \<open>What the record keeps\<close>

definition paused_originals :: "box \<Rightarrow> policies" where
  "paused_originals b = record_policies (pause_file b)"

lemma read_paused_eq: "read_paused_state b = (r, b') \<longleftrightarrow>
    b' = b \<and> r = (if is_paused b then rbind (read_state (pause_file b)) (\<lambda>d. Inr (Some d)) else Inr None)"
  by (auto simp: read_paused_state_def)

lemma read_paused_Some: "read_paused_state b = (Inr (Some d), b') \<Longrightarrow>
    b' = b \<and> pause_file b = Doc (PDict d)"
  by (auto simp: read_paused_state_def read_state_def is_paused_def rbind_eq_Inr
      split: json_file.splits pyval.splits if_splits)

lemma keeps_read_paused [intro!, simp]: "keeps g read_paused_state"
  by (simp add: keeps_def read_paused_state_def)

lemma update_paused_Inr: "update_paused_state k v b = (Inr u, b') \<Longrightarrow>
    \<exists>d. pause_file b = Doc (PDict d)
      \<and> b' = b\<lparr>outcomes := tl (outcomes b), pause_file := Doc (PDict (dset d (PStr k) v))\<rparr>"
  by (auto simp: update_paused_state_def abind_Inr write_pause_file_def
      dest!: read_paused_Some effect_Inr split: option.splits)

lemma update_paused_Inl: "update_paused_state k v b = (Inl e, b') \<Longrightarrow>
    \<exists>rs. b' = b\<lparr>outcomes := rs\<rparr>"
proof -
  assume a: "update_paused_state k v b = (Inl e, b')"
  have same: "\<exists>rs. b = b\<lparr>outcomes := rs\<rparr>" by (rule exI [of _ "outcomes b"]) simp
  from a show ?thesis
    using same by (auto simp: update_paused_state_def abind_Inl write_pause_file_def read_paused_eq
        dest!: effect_Inl split: option.splits)
qed

interpretation pause_keeper: original_keeper paused_originals persist_in_pause
proof
  show "paused_originals b' = ps" if "persist_in_pause ps b = (Inr u, b')" for ps b u b'
    using update_paused_Inr [OF that [unfolded persist_in_pause_def]] saved_with_policies [of _ ps]
    by (auto simp: paused_originals_def record_policies_def with_policies_def)
  show "paused_originals b' = paused_originals b" if "persist_in_pause ps b = (Inl e, b')" for ps b e b'
    using update_paused_Inl [OF that [unfolded persist_in_pause_def]]
    by (auto simp: paused_originals_def)
  show "keeps containers (persist_in_pause ps)" for ps
    unfolding persist_in_pause_def update_paused_state_def write_pause_file_def
    by (auto intro!: keeps_bind keeps_effect split: option.splits)
qed (simp_all add: paused_originals_def)

lemma hold_in_pause:
  assumes "hold_restart_policies b = (r, b')" and "distinct (map fst (containers b))"
  shows "pause_keeper.original b' n = pause_keeper.original b n
    \<and> map fst (containers b') = map fst (containers b)
    \<and> (\<forall>u. r = Inr u \<longrightarrow> (\<forall>m. policy_of b' m \<in> {None, Some ''no''}))
    \<and> (\<forall>u. r = Inr u \<longrightarrow> (\<forall>m. policy_of b m \<noteq> None \<longrightarrow>
          map_of (paused_originals b') m = pause_keeper.original b m))"
proof -
  obtain r1 b1 where p: "paused_or_empty b = (r1, b1)" by fastforce
  then have b1: "b1 = b" and d: "\<And>d. r1 = Inr d \<Longrightarrow>
      record_policies (pause_file b) = (case saved_policies d of Inr ps \<Rightarrow> ps | Inl _ \<Rightarrow> [])"
    by (auto simp: paused_or_empty_def abind_def read_paused_state_def is_paused_def read_state_def
        record_policies_def saved_policies_def dget_or_def dget_def Let_def rbind_def
        split: json_file.splits pyval.splits if_splits)
  show ?thesis
  proof (cases "\<exists>d ps. r1 = Inr d \<and> saved_policies d = Inr ps")
    case False
    then obtain e where "r = Inl e" "b' = b"
      using assms(1) p b1 by (cases r1) (auto simp: hold_restart_policies_def abind_def alift_def
          split: sum.splits)
    then show ?thesis by simp
  next
    case True
    then obtain ps where "record_policies (pause_file b) = ps"
      and h: "abind (hold ps persist_in_pause) (\<lambda>_. aret ()) b = (r, b')"
      using assms(1) p b1 d by (auto simp: hold_restart_policies_def abind_def alift_def)
    then have kept: "ps = paused_originals b" by (simp add: paused_originals_def)
    obtain r2 where h2: "hold ps persist_in_pause b = (r2, b')" and rr: "r = map_sum id (\<lambda>_. ()) r2"
      using h by (auto simp: abind_def split: prod.splits sum.splits)
    show ?thesis
      using pause_keeper.hold_keeps_originals [OF h2 kept assms(2), of n] rr
      by (cases r2) auto
  qed
qed

section \<open>What a pause guarantees\<close>

lemma keeps_persist_in_pause:
  assumes "\<And>b rs. g (b\<lparr>outcomes := rs\<rparr>) = g b" "\<And>b f. g (b\<lparr>pause_file := f\<rparr>) = g b"
  shows "keeps g (persist_in_pause ps)"
  unfolding persist_in_pause_def update_paused_state_def write_pause_file_def
  by (auto intro!: keeps_bind keeps_effect assms split: option.splits)

lemma keeps_hold_in_pause:
  assumes "\<And>b rs. g (b\<lparr>outcomes := rs\<rparr>) = g b" "\<And>b f. g (b\<lparr>pause_file := f\<rparr>) = g b"
    and "\<And>ns p b. g (set_policies ns p b) = g b"
  shows "keeps g hold_restart_policies"
  unfolding hold_restart_policies_def paused_or_empty_def
  by (intro keeps_bind keeps_read_paused keeps_simple keeps_alift keeps_hold keeps_persist_in_pause
      assms)

lemma swap_in_Inr:
  assumes "swap_in_maintenance hosts b = (Inr u, b')"
  shows "\<exists>conf. render_maintenance_caddy_config hosts = Inr conf
    \<and> caddy_site b' = Some conf \<and> caddy_live b' = Some conf
    \<and> containers b' = containers b \<and> pause_file b' = pause_file b
    \<and> quarantine_file b' = quarantine_file b"
proof -
  from assms obtain conf b1 where r: "render_maintenance_caddy_config hosts = Inr conf"
    and w: "write_caddy_site (Crash OSError) conf b = (Inr (), b1)"
    and c: "caddy_reload b1 = (Inr u, b')"
    by (auto simp: swap_in_maintenance_def render_hosts_def abind_Inr split: sum.splits)
  have "b1 = b\<lparr>outcomes := tl (outcomes b), caddy_site := Some conf\<rparr>"
    using effect_Inr [OF w [unfolded write_caddy_site_def]] by simp
  moreover have "b' = b1\<lparr>outcomes := tl (outcomes b1), caddy_live := caddy_site b1\<rparr>"
    using effect_Inr [OF c [unfolded caddy_reload_def]] by simp
  ultimately show ?thesis using r by auto
qed

lemma acatch_exit_Inr0:
  "acatch (exit_on p) m f b = (Inr 0, b'') \<longleftrightarrow> (\<exists>x b'. m b = (Inr x, b') \<and> f x b' = (Inr 0, b''))"
  by (auto simp: acatch_def exit_on_def split: prod.splits sum.splits)

text \<open>A pause that reports success has done all of it: the maintenance page is what visitors get, no
  container runs, none will come back with the Docker daemon, the record says complete, and
  for a project that was not paused before it holds every container's policy as it was,
  for the resume to give back.\<close>

theorem pause_success:
  assumes "pause_locked legacy hosts reason now b = (Inr 0, b')"
    and "distinct (map fst (containers b))"
  shows "(\<exists>hs conf. hosts = Some hs \<and> render_maintenance_caddy_config hs = Inr conf
      \<and> caddy_live b' = Some conf)
    \<and> all_stopped b' \<and> (\<forall>n. policy_of b' n \<in> {None, Some ''no''})
    \<and> pause_action_complete b' = (Inr True, b')
    \<and> (\<not> is_paused b \<longrightarrow> (\<forall>n. policy_of b n \<noteq> None \<longrightarrow> map_of (paused_originals b') n = policy_of b n))"
proof -
  from assms(1) obtain hs where hs: "hosts = Some hs" and steps: "pause_steps hs reason now b = (Inr 0, b')"
    by (auto simp: pause_locked_def abind_Inr refuse_if_already_paused_def pause_action_complete_def
        read_paused_eq split: if_splits option.splits)
  from steps obtain b1 b2 b3 b4 where
    first: "(if is_paused b then (Inr (), b) else write_paused_state reason now b) = (Inr (), b1)"
    and swap: "swap_in_maintenance hs b1 = (Inr (), b2)" and stop: "compose_stop b2 = (Inr (), b3)"
    and held: "hold_restart_policies b3 = (Inr (), b4)" and mark: "mark_pause_complete b4 = (Inr (), b')"
    by (auto simp: pause_steps_def abind_Inr acatch_exit_Inr0)
  have b1: "containers b1 = containers b \<and> policy_of b1 = policy_of b
      \<and> (\<not> is_paused b \<longrightarrow> paused_originals b1 = [])"
    using first by (auto simp: write_paused_state_def write_pause_file_def policy_of_def
        paused_originals_def record_policies_def paused_doc_def saved_policies_def dget_or_def
        dget_def Let_def fun_eq_iff dest!: effect_Inr split: if_splits option.splits)
  obtain conf where conf: "render_maintenance_caddy_config hs = Inr conf"
    and live2: "caddy_live b2 = Some conf"
    and c2: "containers b2 = containers b1" "pause_file b2 = pause_file b1"
    using swap_in_Inr [OF swap] by blast
  have pol2: "policy_of b2 = policy_of b" using b1 c2 by (simp add: policy_of_def fun_eq_iff)
  note b3 = compose_stop_Inr [OF stop]
  have pol3: "policy_of b3 = policy_of b" using b3 pol2 by metis
  have pf3: "pause_file b3 = pause_file b2" using b3 by simp
  have d3: "distinct (map fst (containers b3))" using b3 c2 b1 assms(2) by simp
  note h = hold_in_pause [OF held d3]
  have run4: "running_now b4 = running_now b3"
    by (rule keepsD [OF keeps_hold_in_pause held]) simp_all
  have live4: "caddy_live b4 = caddy_live b3"
    by (rule keepsD [OF keeps_hold_in_pause held]) simp_all
  obtain d where f4: "pause_file b4 = Doc (PDict d)" and b': "b' = b4\<lparr>outcomes := tl (outcomes b4),
      pause_file := Doc (PDict (dset d (PStr ''action_complete'') (PBool True)))\<rparr>"
    using update_paused_Inr mark unfolding mark_pause_complete_def by blast
  have pol: "policy_of b' = policy_of b4" by (simp add: b' policy_of_def fun_eq_iff)
  have "all_stopped b'"
    using b3 run4 by (simp add: all_stopped_running b')
  moreover have "caddy_live b' = Some conf" using live4 b3 live2 by (simp add: b')
  moreover have "\<forall>n. policy_of b' n \<in> {None, Some ''no''}" using h by (simp add: pol)
  moreover have "pause_action_complete b' = (Inr True, b')"
    by (simp add: pause_action_complete_def abind_def read_paused_state_def is_paused_def b'
        read_state_def aret_def)
  moreover have "map_of (paused_originals b') n = policy_of b n"
    if "\<not> is_paused b" "policy_of b n \<noteq> None" for n
  proof -
    have "policy_of b3 n \<noteq> None" and eq: "policy_of b3 n = policy_of b n"
      using that(2) by (simp_all only: pol3) simp
    moreover have "paused_originals b3 = []"
      using b1 that(1) pf3 c2 by (simp add: paused_originals_def)
    moreover have "paused_originals b' = paused_originals b4"
      by (simp add: paused_originals_def b' f4 record_policies_def)
    ultimately show ?thesis using h by (simp add: pause_keeper.original_def)
  qed
  ultimately show ?thesis using hs conf by blast
qed

definition web_box :: box where
  "web_box = \<lparr> quarantine_file = Absent, pause_file = Absent, migration_marker = None,
     caddy_site = Some ''site'', caddy_live = Some ''site'',
     containers = [(''web'', \<lparr> c_running = True, c_policy = ''always'' \<rparr>)], outcomes = [] \<rparr>"

definition pause_time :: datetime where
  "pause_time = \<lparr> dt_date = Date 2026 7 1, dt_hour = 9, dt_minute = 0, dt_second = 0, dt_micro = 0,
     dt_offset = Some 0 \<rparr>"

lemma web_box_pauses: "fst (pause_locked False (Some [''a.org'']) None pause_time web_box) = Inr 0"
  by (simp add: pause_locked_def web_box_def is_paused_def refuse_if_already_paused_def abind_def
      pause_steps_def write_paused_state_def write_pause_file_def effect_def next_outcome_def
      acatch_def swap_in_maintenance_def render_hosts_def render_maintenance_caddy_config_def
      aret_def write_caddy_site_def caddy_reload_def compose_stop_def hold_restart_policies_def
      paused_or_empty_def read_paused_state_def read_state_def paused_doc_def saved_policies_def
      dget_or_def dget_def Let_def alift_def hold_def project_restart_policies_def policies_now_def
      stop_first_def persist_in_pause_def update_paused_state_def merge_originals_def
      set_restart_policy_def set_policies_def mark_pause_complete_def)

theorem pause_success_witness:
  "map_of (paused_originals (snd (pause_locked False (Some [''a.org'']) None pause_time web_box)))
     ''web'' = Some ''always''"
proof -
  obtain b' where r: "pause_locked False (Some [''a.org'']) None pause_time web_box = (Inr 0, b')"
    using web_box_pauses by (metis prod.collapse)
  have "distinct (map fst (containers web_box))" by (simp add: web_box_def)
  from pause_success [OF r this] have "map_of (paused_originals b') ''web'' = policy_of web_box ''web''"
    by (simp add: web_box_def is_paused_def policy_of_def)
  moreover have "policy_of web_box ''web'' = Some ''always''" by (simp add: policy_of_def web_box_def)
  ultimately show ?thesis by (simp add: r)
qed

end
