(* ===== verification/Cve_Policy_Explain.thy ===== *)
theory Cve_Policy_Explain
  imports Cve_Scanner
begin

text \<open>
  \<^verbatim>\<open>src/boxmunge/cve/policy_explain.py\<close>: the operator-facing text of a disposition.
  The source's dash (U+2014) and arrow (U+2192) are written \<open>--\<close> and \<open>->\<close>; every
  other character is the source's.
\<close>

definition opt_text :: "string option \<Rightarrow> string" where
  "opt_text m = or_else m ''None''"

definition explain_relaxed_kev_only :: string where
  "explain_relaxed_kev_only =
     ''relaxed posture: only actively-exploited (CISA KEV) findings ''
     @ ''quarantine; everything else is informational regardless of distro ''
     @ ''severity. Raise the posture to balanced or strict for ''
     @ ''distro-severity-based quarantine.''"

definition explain_kev_quarantine :: "string \<Rightarrow> string option \<Rightarrow> string option \<Rightarrow> string" where
  "explain_kev_quarantine cve overridden_until fixed =
     cve @ '' is on the CISA Known Exploited Vulnerabilities (KEV) ''
     @ ''catalog -- actively exploited in the wild; quarantined regardless ''
     @ ''of posture, distro status, attack vector, or severity threshold.''
     @ (case fixed of None \<Rightarrow> [] | Some v \<Rightarrow>
          '' A fix is available ('' @ v @ '') but this image is not ''
          @ ''running it: rebuild the image and deploy it. The deploy scans ''
          @ ''its images before anything starts and lifts the quarantine once ''
          @ ''it is live.'')
     @ (case overridden_until of None \<Rightarrow> [] | Some u \<Rightarrow>
          '' The suppression for it (until '' @ u @ '') does not ''
          @ ''apply: a suppression never hides a KEV-listed CVE.'')"

definition explain_kev_opted_out :: "string \<Rightarrow> string option \<Rightarrow> string" where
  "explain_kev_opted_out cve fixed =
     cve @ '' is on the CISA Known Exploited Vulnerabilities (KEV) ''
     @ ''catalog -- actively exploited in the wild -- but this project sets ''
     @ ''dangerously_disable_quarantine: true, so it keeps running.''
     @ (case fixed of None \<Rightarrow> [] | Some v \<Rightarrow>
          '' A fix is available ('' @ v @ '') but this image is not ''
          @ ''running it: rebuild the image and redeploy.'')
     @ '' Alerted on every scan while the finding is live.''"

definition explain_kev_fix_not_running :: "string \<Rightarrow> string option \<Rightarrow> string" where
  "explain_kev_fix_not_running cve fixed =
     cve @ '' is on the CISA Known Exploited Vulnerabilities (KEV) ''
     @ ''catalog -- actively exploited in the wild -- and a fix is available ''
     @ ''('' @ opt_text fixed @ '') that this image is not running. Under relaxed ''
     @ ''posture a fixable KEV finding does not quarantine; rebuild the image ''
     @ ''and redeploy now. Alerted on every scan until the fix is running.''"

definition explain_fix_available :: "string option \<Rightarrow> bool \<Rightarrow> string \<Rightarrow> string" where
  "explain_fix_available fixed would_quarantine posture_label =
     ''Fix available upstream ('' @ opt_text fixed @ '') but not running in this ''
     @ ''image. A deploy does not pull a newer base image: bump the image tag ''
     @ ''or digest, change FROM, or set compose `build: {pull: true}`, then ''
     @ ''redeploy (CVE_POLICY.md, \"Shipping a fix the upstream image does not ''
     @ ''have yet\"); boxmunge does not rebuild images for you.''
     @ (if would_quarantine then
          '' Without the fix this finding meets the '' @ posture_label @ '' ''
          @ ''quarantine gate.''
        else [])"

definition explain_distro_deprioritized :: "vuln_status \<Rightarrow> severity option \<Rightarrow> string" where
  "explain_distro_deprioritized st sev =
     ''Distro status: '' @ vuln_status_value st @ '' (distro severity: ''
     @ (case sev of None \<Rightarrow> ''unrated'' | Some s \<Rightarrow> severity_value s) @ '') -- the ''
     @ ''distribution does not treat this as an actionable, urgent fix. ''
     @ ''Informational; site stays up. Set posture: paranoid to quarantine ''
     @ ''on it anyway.''"

definition explain_no_distro_verdict :: "severity \<Rightarrow> string" where
  "explain_no_distro_verdict sev =
     ''No distro verdict (only upstream feeds rate this '' @ severity_value sev @ ''). ''
     @ ''Below paranoid posture, quarantine requires the distribution's own ''
     @ ''assessment or CISA KEV membership. Informational.''"

definition explain_av_filter :: "attack_vector option \<Rightarrow> string \<Rightarrow> string" where
  "explain_av_filter av posture_label = (case av of
     None \<Rightarrow>
       ''Attack vector unspecified in scanner data -- defaulting to ''
       @ ''informational under '' @ posture_label @ '' posture. Set posture: ''
       @ ''paranoid to quarantine on unspecified-AV findings.''
   | Some v \<Rightarrow>
       ''AV:'' @ take 1 (attack_vector_value v) @ '' ('' @ attack_vector_value v
       @ '' attack vector) -- not reachable from ''
       @ ''network surface; informational under '' @ posture_label @ '' posture. To ''
       @ ''quarantine on local-AV findings, set posture: paranoid.'')"

text \<open>The runtimes are a set; \<open>sorted\<close> lists it.\<close>

definition explain_irrelevant_runtime ::
    "string \<Rightarrow> string \<Rightarrow> string set \<Rightarrow> string \<Rightarrow> string" where
  "explain_irrelevant_runtime pkg ecosystem runtimes posture_label =
     pkg @ '' is a '' @ ecosystem @ '' runtime package; ''
     @ (if runtimes \<noteq> {}
        then ''this project's runtime is '' @ join '', '' (sorted_list_of_set runtimes)
        else ''this project runs no language runtime'')
     @ '' -- not on any ''
     @ ''execution path. Informational under '' @ posture_label @ '' posture.''"

definition explain_threshold ::
    "severity \<Rightarrow> severity \<Rightarrow> nat \<Rightarrow> string \<Rightarrow> string \<Rightarrow> bool \<Rightarrow> bool \<Rightarrow> string list \<Rightarrow> string" where
  "explain_threshold base effective penalty posture_label threshold_label over disabled sources =
     (let rated = (if sources \<noteq> []
            then severity_value base @ '' (highest rating, from '' @ join '', '' sources @ '')''
            else severity_value base);
          head = (if base = effective then rated @ '', no upstream fix''
            else rated @ '' -> effective '' @ severity_value effective
              @ '' (hardening penalty: +'' @ show_nat penalty @ ''), no upstream fix'') in
      if over \<and> disabled then
        head @ ''. Meets '' @ posture_label @ '' threshold ('' @ threshold_label @ '') -- would ''
        @ ''quarantine but dangerously_disable_quarantine: true. Read-only ''
        @ ''rootfs is the remaining defense.''
      else if over then
        head @ ''. Meets '' @ posture_label @ '' threshold ('' @ threshold_label @ '') -- ''
        @ ''quarantine.''
      else
        head @ ''. Below '' @ posture_label @ '' threshold ('' @ threshold_label @ '') -- ''
        @ ''informational.'')"

definition hardening_upcoming_fix :: string where
  "hardening_upcoming_fix =
     ''Add `read_only: true` to the service in compose.yml, declare it in the ''
     @ ''manifest so boxmunge hardens it, or accept the risk: suppress the CVE ''
     @ ''after review, or choose a lower `security.posture`.''"

definition hardening_cause :: "string list \<Rightarrow> string" where
  "hardening_cause services =
     (if services \<noteq> [] then join '', '' services else ''the project's services'')
     @ '': boxmunge does not harden it as the penalty assumes (a ''
     @ ''compose-only service without `read_only: true`, or a manifest ''
     @ ''`cap_add` / `no_new_privileges: false`)''"

definition explain_hardening_upcoming :: "string list \<Rightarrow> int \<Rightarrow> string \<Rightarrow> string" where
  "explain_hardening_upcoming services penalty threshold_detail =
     ''WARNING, not quarantined yet: the stricter hardening penalty would ''
     @ ''quarantine this finding. From 0.12 that penalty applies. ''
     @ threshold_detail @ '' The extra penalty (+'' @ show_int penalty @ '') comes from ''
     @ hardening_cause services @ ''. '' @ hardening_upcoming_fix"

end
