(* ===== verification/Cve_Suppressions.thy ===== *)
theory Cve_Suppressions
  imports Py_Prelude
begin

text \<open>
  \<^verbatim>\<open>src/boxmunge/cve/suppressions.py\<close>: an operator's signed-off exemption of a
  CVE, the file the exemptions of a project live in, and the history of the
  removed ones.  The file's parsed document is the state; an operation takes it
  and returns the new one with its result, or an error and leaves it alone.
\<close>

section \<open>Entries\<close>

definition scope_project :: string where "scope_project = ''project''"
definition scope_host :: string where "scope_host = ''host''"

definition required_fields :: "string list" where
  "required_fields = [''cve'', ''until'', ''reason'', ''reviewed_by'', ''added'']"

definition max_suppression_days :: int where "max_suppression_days = 90"

record suppression =
  sup_cve :: string
  until :: date
  reason :: string
  reviewed_by :: string
  added :: date
  scope :: string

definition is_active :: "date \<Rightarrow> suppression \<Rightarrow> bool" where
  "is_active today s \<longleftrightarrow> today < until s"

datatype sup_error =
    Entry_Not_Mapping nat
  | Missing_Fields nat "string list"
  | Bad_Cve nat pyval
  | Bad_Reason nat
  | Bad_Reviewer nat
  | Date_Is_Datetime nat string
  | Date_Not_Iso nat string
  | Date_Invalid nat string
  | Date_Wrong_Type nat string
  | Cannot_Read | Cannot_Parse | File_Empty | File_Not_Mapping | No_Suppressions_Key
  | Suppressions_Not_List
  | Arg_Cve string | Arg_Reason | Arg_Reviewer
  | Already_Suppressed string
  | No_File string | No_Entry string
  | History_Malformed | Removal_Malformed string

text \<open>
  \<open>_CVE_RE.match\<close>: \<^verbatim>\<open>^CVE-\d{4}-\d{4,}$\<close>.  \<open>match\<close> with \<open>$\<close> lets one newline
  follow.
\<close>

definition cve_re :: "string \<Rightarrow> bool" where
  "cve_re s \<longleftrightarrow> starts_with ''CVE-'' s
     \<and> (let year = take 4 (drop 4 s); rest = drop 8 s in
         length year = 4 \<and> list_all is_digit year \<and> starts_with ''-'' rest
         \<and> 4 \<le> length (takeWhile is_digit (drop 1 rest))
         \<and> at_dollar (dropWhile is_digit (drop 1 rest)))"

text \<open>\<open>_ISO_DATE_RE.match\<close>: \<^verbatim>\<open>^\d{4}-\d{2}-\d{2}$\<close>.\<close>

definition iso_date_re :: "string \<Rightarrow> bool" where
  "iso_date_re s \<longleftrightarrow>
     length (take 4 s) = 4 \<and> list_all is_digit (take 4 s)
     \<and> starts_with ''-'' (drop 4 s)
     \<and> length (take 2 (drop 5 s)) = 2 \<and> list_all is_digit (take 2 (drop 5 s))
     \<and> starts_with ''-'' (drop 7 s)
     \<and> length (take 2 (drop 8 s)) = 2 \<and> list_all is_digit (take 2 (drop 8 s))
     \<and> at_dollar (drop 10 s)"

fun coerce_date :: "pyval \<Rightarrow> string \<Rightarrow> nat \<Rightarrow> sup_error + date" where
  "coerce_date (PDatetime _) field index = Inl (Date_Is_Datetime index field)"
| "coerce_date (PDate d) field index = Inr d"
| "coerce_date (PStr s) field index =
     (if \<not> iso_date_re s then Inl (Date_Not_Iso index field)
      else case date_from_iso s of
        None \<Rightarrow> Inl (Date_Invalid index field)
      | Some d \<Rightarrow> Inr d)"
| "coerce_date _ field index = Inl (Date_Wrong_Type index field)"

definition nonblank :: "pyval \<Rightarrow> string option" where
  "nonblank v = (case v of PStr s \<Rightarrow> (if py_strip s = [] then None else Some (py_strip s))
                 | _ \<Rightarrow> None)"

definition parse_entry :: "nat \<Rightarrow> pyval \<Rightarrow> sup_error + suppression" where
  "parse_entry index raw = (case raw of
     PDict d \<Rightarrow>
       (let missing = filter (\<lambda>f. \<not> dhas d f) required_fields;
            field = (\<lambda>k. dget_or d k PNone) in
        if missing \<noteq> [] then Inl (Missing_Fields index missing)
        else case field ''cve'' of
          PStr cve \<Rightarrow>
            (if \<not> cve_re cve then Inl (Bad_Cve index (PStr cve))
             else case nonblank (field ''reason'') of
               None \<Rightarrow> Inl (Bad_Reason index)
             | Some why \<Rightarrow>
                 (case nonblank (field ''reviewed_by'') of
                    None \<Rightarrow> Inl (Bad_Reviewer index)
                  | Some who \<Rightarrow>
                      rbind (coerce_date (field ''until'') ''until'' index) (\<lambda>u.
                      rbind (coerce_date (field ''added'') ''added'' index) (\<lambda>a.
                      Inr \<lparr> sup_cve = cve, until = u, reason = why, reviewed_by = who,
                            added = a, scope = scope_project \<rparr>))))
        | v \<Rightarrow> Inl (Bad_Cve index v))
   | _ \<Rightarrow> Inl (Entry_Not_Mapping index))"

section \<open>The file\<close>

definition load_suppressions :: "string \<Rightarrow> json_file \<Rightarrow> sup_error + suppression list" where
  "load_suppressions scp file = (case file of
     Absent \<Rightarrow> Inr []
   | Unreadable \<Rightarrow> Inl Cannot_Read
   | Unparseable \<Rightarrow> Inl Cannot_Parse
   | Doc PNone \<Rightarrow> Inl File_Empty
   | Doc (PDict d) \<Rightarrow>
       (case dget d ''suppressions'' of
          None \<Rightarrow> Inl No_Suppressions_Key
        | Some (PList raws) \<Rightarrow>
            rbind (rmap (\<lambda>(i, raw). parse_entry i raw) (enumerate 0 raws)) (\<lambda>parsed.
              let stamped = (if scp \<noteq> scope_project then map (\<lambda>s. s\<lparr>scope := scp\<rparr>) parsed
                             else parsed)
              in Inr (sort_key sup_cve stamped))
        | Some _ \<Rightarrow> Inl Suppressions_Not_List)
   | Doc _ \<Rightarrow> Inl File_Not_Mapping)"

definition active_suppressions :: "date \<Rightarrow> suppression list \<Rightarrow> suppression list" where
  "active_suppressions today ss = filter (is_active today) ss"

definition expired_suppressions :: "date \<Rightarrow> suppression list \<Rightarrow> suppression list" where
  "expired_suppressions today ss = filter (\<lambda>s. \<not> is_active today s) ss"

definition find_active_suppression ::
    "suppression list \<Rightarrow> string \<Rightarrow> date \<Rightarrow> suppression option" where
  "find_active_suppression ss cve today =
     List.find (\<lambda>s. sup_cve s = cve \<and> is_active today s) ss"

definition entry_doc :: "suppression \<Rightarrow> pyval" where
  "entry_doc s = PDict
     [(PStr ''cve'', PStr (sup_cve s)), (PStr ''until'', PStr (date_iso (until s))),
      (PStr ''reason'', PStr (reason s)), (PStr ''reviewed_by'', PStr (reviewed_by s)),
      (PStr ''added'', PStr (date_iso (added s)))]"

definition serialise :: "suppression list \<Rightarrow> pyval" where
  "serialise ss = PDict [(PStr ''suppressions'', PList (map entry_doc ss))]"

definition add_suppression ::
    "bool \<Rightarrow> json_file \<Rightarrow> string \<Rightarrow> date \<Rightarrow> string \<Rightarrow> string \<Rightarrow> date \<Rightarrow>
     sup_error raised + (suppression \<times> json_file)" where
  "add_suppression can_write file cve til why who today =
     (if \<not> cve_re cve then Inl (Raised (Arg_Cve cve))
      else if py_strip why = [] then Inl (Raised Arg_Reason)
      else if py_strip who = [] then Inl (Raised Arg_Reviewer)
      else case load_suppressions scope_project file of
        Inl e \<Rightarrow> Inl (Raised e)
      | Inr existing \<Rightarrow>
          (if \<exists>s\<in>set existing. sup_cve s = cve then Inl (Raised (Already_Suppressed cve))
           else
             let entry = \<lparr> sup_cve = cve, until = til, reason = py_strip why,
                           reviewed_by = py_strip who, added = today, scope = scope_project \<rparr>;
                 merged = sort_key sup_cve (existing @ [entry])
             in case atomic_write can_write (serialise merged) of
                  Inl x \<Rightarrow> Inl (Crash x)
                | Inr file' \<Rightarrow> Inr (entry, file')))"

definition remove_suppression ::
    "bool \<Rightarrow> json_file \<Rightarrow> string \<Rightarrow> sup_error raised + (suppression \<times> json_file)" where
  "remove_suppression can_write file cve =
     (if file = Absent then Inl (Raised (No_File cve))
      else case load_suppressions scope_project file of
        Inl e \<Rightarrow> Inl (Raised e)
      | Inr existing \<Rightarrow>
          (case List.find (\<lambda>s. sup_cve s = cve) existing of
             None \<Rightarrow> Inl (Raised (No_Entry cve))
           | Some target \<Rightarrow>
               (case atomic_write can_write
                       (serialise (filter (\<lambda>s. sup_cve s \<noteq> cve) existing)) of
                  Inl x \<Rightarrow> Inl (Crash x)
                | Inr file' \<Rightarrow> Inr (target, file'))))"

section \<open>The removal history\<close>

record recent_removal =
  rr_cve :: string
  removed_at :: date
  previous_until :: date
  previous_added :: date
  previous_reason :: string
  previous_reviewed_by :: string

definition serialise_history :: "pydict list \<Rightarrow> pyval" where
  "serialise_history entries = PDict [(PStr ''removed'', PList (map PDict entries))]"

fun the_dicts :: "pyval list \<Rightarrow> pydict list" where
  "the_dicts [] = []"
| "the_dicts (PDict d # vs) = d # the_dicts vs"
| "the_dicts (_ # vs) = the_dicts vs"

definition load_history :: "json_file \<Rightarrow> sup_error + pydict list" where
  "load_history file = (case file of
     Absent \<Rightarrow> Inr []
   | Unreadable \<Rightarrow> Inl Cannot_Read
   | Unparseable \<Rightarrow> Inl Cannot_Parse
   | Doc PNone \<Rightarrow> Inr []
   | Doc (PDict d) \<Rightarrow>
       (case dget d ''removed'' of
          Some (PList es) \<Rightarrow> Inr (the_dicts es)
        | _ \<Rightarrow> Inl History_Malformed)
   | Doc _ \<Rightarrow> Inl History_Malformed)"

definition removal_doc :: "suppression \<Rightarrow> date \<Rightarrow> pydict" where
  "removal_doc prior day =
     [(PStr ''cve'', PStr (sup_cve prior)), (PStr ''removed_at'', PStr (date_iso day)),
      (PStr ''previous_until'', PStr (date_iso (until prior))),
      (PStr ''previous_added'', PStr (date_iso (added prior))),
      (PStr ''previous_reason'', PStr (reason prior)),
      (PStr ''previous_reviewed_by'', PStr (reviewed_by prior))]"

definition record_removal ::
    "bool \<Rightarrow> json_file \<Rightarrow> suppression \<Rightarrow> date \<Rightarrow> sup_error raised + json_file" where
  "record_removal can_write history prior day = (case load_history history of
     Inl e \<Rightarrow> Inl (Raised e)
   | Inr existing \<Rightarrow>
       (case atomic_write can_write (serialise_history (existing @ [removal_doc prior day])) of
          Inl x \<Rightarrow> Inl (Crash x)
        | Inr file' \<Rightarrow> Inr file'))"

text \<open>\<open>date.fromisoformat(str(entry[key]))\<close>; a missing key or a bad date is \<open>None\<close>.\<close>

definition entry_date :: "pydict \<Rightarrow> string \<Rightarrow> date option" where
  "entry_date e k = Option.bind (dget e k) (\<lambda>v. Option.bind (py_str v) date_from_iso)"

definition removal_of :: "string \<Rightarrow> pydict \<Rightarrow> sup_error raised + recent_removal option" where
  "removal_of cve e =
     (if dget_or e ''cve'' PNone \<noteq> PStr cve then Inr None
      else case (entry_date e ''removed_at'', entry_date e ''previous_until'',
                 entry_date e ''previous_added'') of
        (Some day, Some u, Some a) \<Rightarrow>
          (case (py_str (dget_or e ''previous_reason'' (PStr [])),
                 py_str (dget_or e ''previous_reviewed_by'' (PStr []))) of
             (Some why, Some who) \<Rightarrow>
               Inr (Some \<lparr> rr_cve = cve, removed_at = day, previous_until = u,
                          previous_added = a, previous_reason = why,
                          previous_reviewed_by = who \<rparr>)
           | _ \<Rightarrow> Inl (Crash Unmodelled))
      | _ \<Rightarrow> Inl (Raised (Removal_Malformed cve)))"

definition find_recent_removal ::
    "json_file \<Rightarrow> string \<Rightarrow> date \<Rightarrow> int \<Rightarrow> sup_error raised + recent_removal option" where
  "find_recent_removal history cve today max_age = (case load_history history of
     Inl e \<Rightarrow> Inl (Raised e)
   | Inr raw \<Rightarrow>
       rbind (rmap (removal_of cve) raw) (\<lambda>rs.
         case sort_key (\<lambda>r. - toordinal (removed_at r)) (List.map_filter id rs) of
           [] \<Rightarrow> Inr None
         | r # _ \<Rightarrow>
             (let age = toordinal today - toordinal (removed_at r)
              in if age < 0 \<or> max_age < age then Inr None else Inr (Some r))))"

section \<open>Entries read back\<close>

text \<open>What parsing guarantees of an entry, given that the dates of a document are dates.\<close>

definition wf_suppression :: "suppression \<Rightarrow> bool" where
  "wf_suppression s \<longleftrightarrow> cve_re (sup_cve s) \<and> valid_date (until s) \<and> valid_date (added s)
     \<and> reason s \<noteq> [] \<and> py_strip (reason s) = reason s
     \<and> reviewed_by s \<noteq> [] \<and> py_strip (reviewed_by s) = reviewed_by s
     \<and> scope s = scope_project"

lemma iso_date_re_date_iso: "iso_date_re (date_iso d)"
  by (simp add: iso_date_re_def date_iso_def pad2_def pad4_def at_dollar_def)

lemma coerce_date_iso [simp]:
  "valid_date d \<Longrightarrow> coerce_date (PStr (date_iso d)) field i = Inr d"
  by (simp add: iso_date_re_date_iso date_iso_roundtrip)

declare coerce_date.simps [simp del]

lemma entry_doc_field [simp]:
  "dget [(PStr ''cve'', a), (PStr ''until'', b), (PStr ''reason'', c),
         (PStr ''reviewed_by'', e), (PStr ''added'', f)] k =
   (if k = ''cve'' then Some a else if k = ''until'' then Some b
    else if k = ''reason'' then Some c else if k = ''reviewed_by'' then Some e
    else if k = ''added'' then Some f else None)"
  by (simp add: dget_def)

interpretation sup_codec: doc_codec entry_doc parse_entry wf_suppression
proof
  fix s :: suppression and i :: nat
  assume "wf_suppression s"
  then show "parse_entry i (entry_doc s) = Inr s"
    by (cases s) (simp add: wf_suppression_def parse_entry_def entry_doc_def required_fields_def
        nonblank_def dget_or_def dhas_def)
qed

lemma parse_entry_cve: "parse_entry i raw = Inr s \<Longrightarrow> cve_re (sup_cve s)"
  by (auto simp: parse_entry_def rbind_eq_Inr Let_def split: pyval.splits if_splits option.splits)

lemma load_serialise:
  assumes "\<And>s. s \<in> set ss \<Longrightarrow> wf_suppression s"
  shows "load_suppressions scope_project (Doc (serialise ss)) = Inr (sort_key sup_cve ss)"
  using sup_codec.decode_all [of ss 0] assms
  by (simp add: load_suppressions_def serialise_def dget_def)

text \<open>A load that succeeds read no file, or a list of entries.\<close>

lemma load_cases:
  assumes "load_suppressions scp file = Inr ss"
  obtains "file = Absent" "ss = []"
  | d raws parsed where "file = Doc (PDict d)" "dget d ''suppressions'' = Some (PList raws)"
      "rmap (\<lambda>(i, raw). parse_entry i raw) (enumerate 0 raws) = Inr parsed"
      "ss = sort_key sup_cve (if scp \<noteq> scope_project then map (\<lambda>s. s\<lparr>scope := scp\<rparr>) parsed
                              else parsed)"
proof (cases "file")
  case Absent
  with assms that(1) show ?thesis by (simp add: load_suppressions_def)
next
  case (Doc v)
  show ?thesis
  proof (cases v)
    case (PDict d)
    show ?thesis
    proof (cases "dget d ''suppressions''")
      case (Some w)
      with Doc PDict assms show ?thesis
        by (cases w) (auto simp: load_suppressions_def rbind_eq_Inr Let_def intro: that(2))
    qed (use Doc PDict assms in \<open>simp add: load_suppressions_def\<close>)
  qed (use Doc assms in \<open>simp_all add: load_suppressions_def\<close>)
qed (use assms in \<open>simp_all add: load_suppressions_def\<close>)

lemma load_sorted: "load_suppressions scp file = Inr ss \<Longrightarrow> sorted (map sup_cve ss)"
  by (erule load_cases) (auto simp: sorted_sort_key)

lemma find_active_Some_iff:
  "(\<exists>s. find_active_suppression ss cve today = Some s)
   \<longleftrightarrow> (\<exists>s\<in>set ss. sup_cve s = cve \<and> is_active today s)"
  unfolding find_active_suppression_def by (induction ss) auto

lemma find_active_SomeD:
  "find_active_suppression ss cve today = Some s \<Longrightarrow>
   s \<in> set ss \<and> sup_cve s = cve \<and> is_active today s"
  unfolding find_active_suppression_def by (auto simp: find_Some_iff)

section \<open>What an operation leaves in the file\<close>

definition dates_valid :: "suppression list \<Rightarrow> bool" where
  "dates_valid ss \<longleftrightarrow> (\<forall>s\<in>set ss. valid_date (until s) \<and> valid_date (added s))"

lemma nonblank_SomeD: "nonblank v = Some s \<Longrightarrow> s \<noteq> [] \<and> py_strip s = s"
  by (auto simp: nonblank_def split: pyval.splits if_splits)

lemma parse_entry_wf:
  assumes "parse_entry i raw = Inr s" "valid_date (until s)" "valid_date (added s)"
  shows "wf_suppression s"
  using assms
  by (auto simp: parse_entry_def rbind_eq_Inr Let_def wf_suppression_def dest: nonblank_SomeD
      split: pyval.splits if_splits option.splits)

lemma load_wf:
  assumes "load_suppressions scope_project file = Inr ss" "dates_valid ss" "s \<in> set ss"
  shows "wf_suppression s"
  using assms(1)
proof (rule load_cases)
  fix d raws parsed
  assume p: "rmap (\<lambda>(i, raw). parse_entry i raw) (enumerate 0 raws) = Inr parsed"
    and ss: "ss = sort_key sup_cve (if scope_project \<noteq> scope_project
                then map (\<lambda>s. s\<lparr>scope := scope_project\<rparr>) parsed else parsed)"
  from ss assms(3) have "s \<in> set parsed" by simp
  then obtain i raw where "parse_entry i raw = Inr s"
    using rmap_Inr_set [OF p] by fastforce
  then show ?thesis
    using assms(2,3) by (intro parse_entry_wf) (auto simp: dates_valid_def)
qed (use assms(3) in simp)

lemma sort_key_filter_comm: "filter P (sort_key f xs) = sort_key f (filter P xs)"
  by (rule filter_sort)

lemma add_suppression_InrD:
  assumes "add_suppression w file cve til why who today = Inr (e, file')"
  obtains old where "load_suppressions scope_project file = Inr old"
    "\<forall>s\<in>set old. sup_cve s \<noteq> cve" "cve_re cve"
    "e = \<lparr> sup_cve = cve, until = til, reason = py_strip why, reviewed_by = py_strip who,
           added = today, scope = scope_project \<rparr>"
    "py_strip why \<noteq> []" "py_strip who \<noteq> []"
    "file' = Doc (serialise (sort_key sup_cve (old @ [e])))"
  using assms
  by (auto simp: add_suppression_def atomic_write_def Let_def split: if_splits sum.splits)

text \<open>Adding an exemption: the file read back holds exactly the old entries and the new one,
  in order of CVE id; the new one is the only one for its CVE, and it is the one the policy
  finds until the day it expires.\<close>

theorem add_suppression_reload:
  assumes "load_suppressions scope_project file = Inr old" and "dates_valid old"
    and "valid_date til" and "valid_date today"
    and "add_suppression True file cve til why who today = Inr (e, file')"
  shows "load_suppressions scope_project file' = Inr (sort_key sup_cve (old @ [e]))
    \<and> (\<forall>s\<in>set old. sup_cve s \<noteq> cve)
    \<and> (\<forall>day. find_active_suppression (sort_key sup_cve (old @ [e])) cve day
             = (if day < til then Some e else None))"
proof -
  from assms(5) obtain old' where old': "load_suppressions scope_project file = Inr old'"
    and new': "\<forall>s\<in>set old'. sup_cve s \<noteq> cve" and re: "cve_re cve"
    and e: "e = \<lparr> sup_cve = cve, until = til, reason = py_strip why, reviewed_by = py_strip who,
                  added = today, scope = scope_project \<rparr>"
    and ne: "py_strip why \<noteq> []" "py_strip who \<noteq> []"
    and f': "file' = Doc (serialise (sort_key sup_cve (old' @ [e])))"
    by (rule add_suppression_InrD)
  from old' assms(1) have [simp]: "old' = old" by simp
  note new = new' [simplified] and f = f' [simplified]
  have wf: "wf_suppression e"
    using re ne assms(3,4) by (simp add: e wf_suppression_def)
  have "load_suppressions scope_project file' = Inr (sort_key sup_cve (sort_key sup_cve (old @ [e])))"
    unfolding f by (rule load_serialise) (use load_wf [OF assms(1,2)] wf in auto)
  moreover have "sort_key sup_cve (sort_key sup_cve (old @ [e])) = sort_key sup_cve (old @ [e])"
    by (rule sort_key_id_if_sorted) simp
  moreover have "find_active_suppression (sort_key sup_cve (old @ [e])) cve day
             = (if day < til then Some e else None)" for day
  proof -
    have "\<not> is_active day e" if "\<not> day < til" using that by (simp add: e is_active_def)
    moreover have "is_active day e" if "day < til" using that by (simp add: e is_active_def)
    ultimately have eq: "filter (\<lambda>s. sup_cve s = cve \<and> is_active day s) (old @ [e])
        = (if day < til then [e] else [])"
      using new by (auto simp: e filter_empty_conv)
    have find_hd: "List.find P xs = (case filter P xs of [] \<Rightarrow> None | x # _ \<Rightarrow> Some x)"
      for P and xs :: "suppression list"
      by (induction xs) auto
    show ?thesis
      unfolding find_active_suppression_def find_hd sort_key_filter_comm eq by simp
  qed
  ultimately show ?thesis using new by simp
qed

theorem add_suppression_reload_witness:
  "load_suppressions scope_project Absent = Inr []
   \<and> (\<exists>e file'. add_suppression True Absent ''CVE-2024-0001'' (Date 2026 8 1) ''ok'' ''ops''
          (Date 2026 7 1) = Inr (e, file')
        \<and> load_suppressions scope_project file' = Inr [e])"
proof -
  have old: "load_suppressions scope_project Absent = Inr []" by (simp add: load_suppressions_def)
  let ?e = "\<lparr> sup_cve = ''CVE-2024-0001'', until = Date 2026 8 1, reason = ''ok'',
              reviewed_by = ''ops'', added = Date 2026 7 1, scope = scope_project \<rparr>"
  have strip: "py_strip ''ok'' = ''ok''" "py_strip ''ops'' = ''ops''" "cve_re ''CVE-2024-0001''"
    by code_simp+
  have add: "add_suppression True Absent ''CVE-2024-0001'' (Date 2026 8 1) ''ok'' ''ops''
      (Date 2026 7 1) = Inr (?e, Doc (serialise [?e]))"
    by (simp add: add_suppression_def load_suppressions_def strip atomic_write_def Let_def)
  have "valid_date (Date 2026 8 1)" "valid_date (Date 2026 7 1)" "dates_valid []"
    by (simp_all add: valid_date_def days_in_month_def dates_valid_def)
  with add_suppression_reload [OF old _ _ _ add] old add show ?thesis by auto
qed

text \<open>Removing an exemption: the file read back holds every other entry, in the old order, and
  nothing for the CVE, so the policy no longer finds one on any day.\<close>

theorem remove_suppression_reload:
  assumes "load_suppressions scope_project file = Inr old" and "dates_valid old"
    and "remove_suppression True file cve = Inr (target, file')"
  shows "load_suppressions scope_project file' = Inr (filter (\<lambda>s. sup_cve s \<noteq> cve) old)
    \<and> target \<in> set old \<and> sup_cve target = cve
    \<and> find_active_suppression (filter (\<lambda>s. sup_cve s \<noteq> cve) old) cve day = None"
proof -
  from assms(1,3) have t: "List.find (\<lambda>s. sup_cve s = cve) old = Some target"
    and f: "file' = Doc (serialise (filter (\<lambda>s. sup_cve s \<noteq> cve) old))"
    by (auto simp: remove_suppression_def atomic_write_def split: if_splits option.splits)
  have "load_suppressions scope_project file'
        = Inr (sort_key sup_cve (filter (\<lambda>s. sup_cve s \<noteq> cve) old))"
    unfolding f by (rule load_serialise) (use load_wf [OF assms(1,2)] in auto)
  moreover have "sort_key sup_cve (filter (\<lambda>s. sup_cve s \<noteq> cve) old)
        = filter (\<lambda>s. sup_cve s \<noteq> cve) old"
    by (rule sort_key_id_if_sorted) (use load_sorted [OF assms(1)] sorted_filter in blast)
  moreover have "find_active_suppression (filter (\<lambda>s. sup_cve s \<noteq> cve) old) cve day = None"
    by (auto simp: find_active_suppression_def find_None_iff)
  ultimately show ?thesis using t by (auto simp: find_Some_iff)
qed

theorem remove_suppression_reload_witness:
  "\<exists>e file'. remove_suppression True (Doc (serialise [e])) (sup_cve e) = Inr (e, file')
     \<and> load_suppressions scope_project file' = Inr []"
proof -
  let ?e = "\<lparr> sup_cve = ''CVE-2024-0001'', until = Date 2026 8 1, reason = ''ok'',
              reviewed_by = ''ops'', added = Date 2026 7 1, scope = scope_project \<rparr>"
  have "py_strip ''ok'' = ''ok''" "py_strip ''ops'' = ''ops''" "cve_re ''CVE-2024-0001''"
    by code_simp+
  then have wf: "wf_suppression ?e"
    by (simp add: wf_suppression_def valid_date_def days_in_month_def)
  have old: "load_suppressions scope_project (Doc (serialise [?e])) = Inr [?e]"
    using load_serialise [of "[?e]"] wf by simp
  have rm: "remove_suppression True (Doc (serialise [?e])) ''CVE-2024-0001''
      = Inr (?e, Doc (serialise []))"
    using old by (simp add: remove_suppression_def atomic_write_def)
  have "dates_valid [?e]" using wf by (simp add: dates_valid_def wf_suppression_def)
  from remove_suppression_reload [OF old this rm] rm
  have "remove_suppression True (Doc (serialise [?e])) (sup_cve ?e) = Inr (?e, Doc (serialise []))
     \<and> load_suppressions scope_project (Doc (serialise [])) = Inr []"
    by simp
  then show ?thesis by blast
qed

lemma load_history_serialise: "load_history (Doc (serialise_history es)) = Inr es"
proof -
  have "the_dicts (map PDict es) = es" by (induction es) auto
  then show ?thesis by (simp add: load_history_def serialise_history_def dget_def)
qed

lemma removal_of_doc:
  assumes "valid_date (until p)" "valid_date (added p)" "valid_date day"
  shows "removal_of (sup_cve p) (removal_doc p day) =
    Inr (Some \<lparr> rr_cve = sup_cve p, removed_at = day, previous_until = until p,
                previous_added = added p, previous_reason = reason p,
                previous_reviewed_by = reviewed_by p \<rparr>)"
  using assms
  by (simp add: removal_of_def removal_doc_def dget_or_def dget_def entry_date_def
      date_iso_roundtrip)

text \<open>A silent extension is seen: right after a removal is recorded, looking for a recent removal
  of that CVE finds one of that day, for as long as the window is open, whatever older
  removals the history holds.\<close>

theorem recorded_removal_found:
  assumes "load_history h = Inr raw" and "rmap (removal_of (sup_cve p)) raw = Inr rs"
    and "\<forall>r\<in>set (List.map_filter id rs). toordinal (removed_at r) \<le> toordinal day"
    and "valid_date (until p)" "valid_date (added p)" "valid_date day"
    and "record_removal True h p day = Inr h'"
    and "toordinal day \<le> toordinal today" and "toordinal today - toordinal day \<le> max_age"
  shows "\<exists>r. find_recent_removal h' (sup_cve p) today max_age = Inr (Some r)
           \<and> toordinal (removed_at r) = toordinal day"
proof -
  let ?new = "\<lparr> rr_cve = sup_cve p, removed_at = day, previous_until = until p,
                previous_added = added p, previous_reason = reason p,
                previous_reviewed_by = reviewed_by p \<rparr>"
  let ?key = "\<lambda>r. - toordinal (removed_at r)"
  from assms(1,7) have h': "h' = Doc (serialise_history (raw @ [removal_doc p day]))"
    by (auto simp: record_removal_def atomic_write_def)
  have app: "rmap f xs = Inr ys \<Longrightarrow> f x = Inr y \<Longrightarrow> rmap f (xs @ [x]) = Inr (ys @ [y])"
    for f :: "pydict \<Rightarrow> sup_error raised + recent_removal option" and xs ys x y
    by (induction xs arbitrary: ys) (auto simp: rbind_eq_Inr)
  have all: "rmap (removal_of (sup_cve p)) (raw @ [removal_doc p day]) = Inr (rs @ [Some ?new])"
    using app assms(2) removal_of_doc [OF assms(4-6)] by blast
  define all_rs where "all_rs = List.map_filter id rs @ [?new]"
  have mf: "List.map_filter id (rs @ [Some ?new]) = all_rs"
    by (simp add: all_rs_def List.map_filter_def)
  obtain r tail where r: "sort_key ?key all_rs = r # tail"
    by (metis all_rs_def append_is_Nil_conv length_0_conv length_sort neq_Nil_conv)
  have sorted: "sorted (map ?key (r # tail))" by (metis r sorted_sort_key)
  have members: "set (r # tail) = set all_rs" by (metis r set_sort)
  have "toordinal (removed_at r) \<le> toordinal day"
  proof -
    have "r \<in> set all_rs" using members by auto
    then show ?thesis using assms(3) by (auto simp: all_rs_def)
  qed
  moreover have "toordinal day \<le> toordinal (removed_at r)"
  proof -
    have "?new \<in> set (r # tail)" using members by (simp add: all_rs_def)
    then show ?thesis using sorted by auto
  qed
  ultimately have eq: "toordinal (removed_at r) = toordinal day" by simp
  have "find_recent_removal h' (sup_cve p) today max_age = Inr (Some r)"
    using all mf r eq assms(8,9)
    by (simp add: find_recent_removal_def h' load_history_serialise Let_def)
  with eq show ?thesis by blast
qed

theorem recorded_removal_found_witness:
  "\<exists>h' r. record_removal True Absent
      \<lparr> sup_cve = ''CVE-2024-0001'', until = Date 2026 8 1, reason = ''ok'',
        reviewed_by = ''ops'', added = Date 2026 7 1, scope = scope_project \<rparr> (Date 2026 7 3) = Inr h'
     \<and> find_recent_removal h' ''CVE-2024-0001'' (Date 2026 7 4) 7 = Inr (Some r)"
proof -
  let ?e = "\<lparr> sup_cve = ''CVE-2024-0001'', until = Date 2026 8 1, reason = ''ok'',
              reviewed_by = ''ops'', added = Date 2026 7 1, scope = scope_project \<rparr>"
  have h: "load_history Absent = Inr []" by (simp add: load_history_def)
  obtain h' where h': "record_removal True Absent ?e (Date 2026 7 3) = Inr h'"
    by (simp add: record_removal_def load_history_def atomic_write_def)
  have dates: "valid_date (until ?e)" "valid_date (added ?e)" "valid_date (Date 2026 7 3)"
    by (simp_all add: valid_date_def days_in_month_def)
  have age: "toordinal (Date 2026 7 3) \<le> toordinal (Date 2026 7 4)"
      "toordinal (Date 2026 7 4) - toordinal (Date 2026 7 3) \<le> 7"
    by (simp_all add: toordinal_def Let_def)
  have "\<exists>r. find_recent_removal h' (sup_cve ?e) (Date 2026 7 4) 7 = Inr (Some r)
           \<and> toordinal (removed_at r) = toordinal (Date 2026 7 3)"
    by (rule recorded_removal_found [OF h _ _ dates h' age, of "[]"])
      (simp_all add: List.map_filter_def)
  with h' show ?thesis by auto
qed

text \<open>The pattern a CVE id must match lets one newline follow the id.  An exemption for such a
  text is accepted and stored, but covers nothing: the policy looks for the id the scanner
  reports, which has no newline.\<close>

theorem newline_cve_accepted_but_inert:
  "\<exists>e file'. add_suppression True Absent (''CVE-2024-0001'' @ [CHR 0x0A]) (Date 2026 8 1)
       ''ok'' ''ops'' (Date 2026 7 1) = Inr (e, file')
     \<and> find_active_suppression [e] ''CVE-2024-0001'' (Date 2026 7 1) = None"
proof -
  have strip: "py_strip ''ok'' = ''ok''" "py_strip ''ops'' = ''ops''"
    "cve_re (''CVE-2024-0001'' @ [CHR 0x0A])"
    by code_simp+
  then show ?thesis
    by (simp add: add_suppression_def load_suppressions_def atomic_write_def Let_def
        find_active_suppression_def)
qed

end
