(* ===== verification/Cve_Hardening.thy ===== *)
theory Cve_Hardening
  imports Security_Resolve
begin

text \<open>
  \<^verbatim>\<open>src/boxmunge/cve/hardening.py\<close>: the hardening profile of a project, read off
  its compose file (and the overlay's settings), and the penalty it is scored to.
\<close>

definition max_hardening_penalty :: nat where "max_hardening_penalty = 2"

record hardening_profile =
  hp_read_only :: bool
  hp_no_new_privileges :: bool
  hp_extra_caps_added :: bool
  hp_privileged :: bool

record upcoming_hardening =
  up_profile :: hardening_profile
  up_services :: "string list"

definition hardened :: hardening_profile where
  "hardened = \<lparr> hp_read_only = True, hp_no_new_privileges = True,
                hp_extra_caps_added = False, hp_privileged = False \<rparr>"

definition calculate_hardening_penalty :: "hardening_profile \<Rightarrow> nat" where
  "calculate_hardening_penalty p =
     (if hp_privileged p then max_hardening_penalty
      else min ((if hp_read_only p then 0 else 1)
                + (if hp_no_new_privileges p then 0 else 1)
                + (if hp_extra_caps_added p then 1 else 0)) max_hardening_penalty)"

section \<open>Reading the compose file\<close>

definition compose_services :: "pydict \<Rightarrow> pydict" where
  "compose_services compose = dict_or_empty (dget_or compose ''services'' PNone)"

definition svc_get :: "pydict \<Rightarrow> string \<Rightarrow> pyval" where
  "svc_get svc k = dget_or svc k PNone"

definition plist_or_empty :: "pyval \<Rightarrow> pyval list" where
  "plist_or_empty v = (case v of PList xs \<Rightarrow> xs | _ \<Rightarrow> [])"

definition literal_no_new_privileges :: "pydict \<Rightarrow> bool" where
  "literal_no_new_privileges svc =
     (let sec_opt = plist_or_empty (svc_get svc ''security_opt'')
      in PStr nnp_true \<in> set sec_opt \<and> PStr nnp_false \<notin> set sec_opt)"

definition adds_caps :: "pydict \<Rightarrow> bool" where
  "adds_caps svc \<longleftrightarrow> plist_or_empty (svc_get svc ''cap_add'') \<noteq> []"

definition merge_service :: "bool \<Rightarrow> hardening_profile \<Rightarrow> pydict \<Rightarrow> hardening_profile" where
  "merge_service overlaid p svc =
     \<lparr> hp_read_only = (hp_read_only p \<and>
         (if overlaid then svc_get svc ''read_only'' \<noteq> PBool False
          else svc_get svc ''read_only'' = PBool True)),
       hp_no_new_privileges =
         (hp_no_new_privileges p \<and> (overlaid \<or> literal_no_new_privileges svc)),
       hp_extra_caps_added = (hp_extra_caps_added p \<or> adds_caps svc),
       hp_privileged = (hp_privileged p \<or> svc_get svc ''privileged'' = PBool True) \<rparr>"

text \<open>\<open>None\<close>: every service of the file has the overlay.\<close>

definition hardening_profile_from_compose ::
    "pydict \<Rightarrow> pyval set option \<Rightarrow> hardening_profile" where
  "hardening_profile_from_compose compose with_overlay =
     (let services = compose_services compose;
          overlay = or_else with_overlay (fst ` set services) in
      foldl (\<lambda>p (name, svc). case svc of
               PDict s \<Rightarrow> merge_service (name \<in> overlay) p s
             | _ \<Rightarrow> p) hardened services)"

definition merge_effective ::
    "settings \<Rightarrow> bool \<Rightarrow> hardening_profile \<Rightarrow> pydict \<Rightarrow> hardening_profile" where
  "merge_effective applied ro_by_overlay p svc =
     \<lparr> hp_read_only = (hp_read_only p \<and>
         (if ro_by_overlay then svc_get svc ''read_only'' \<noteq> PBool False
          else svc_get svc ''read_only'' = PBool True)),
       hp_no_new_privileges = (hp_no_new_privileges p \<and>
         (nnp_true \<in> set (or_else (security_opt applied) [])
          \<or> literal_no_new_privileges svc)),
       hp_extra_caps_added = (hp_extra_caps_added p \<or> adds_caps svc
         \<or> or_else (cap_add applied) [] \<noteq> []),
       hp_privileged = (hp_privileged p \<or> svc_get svc ''privileged'' = PBool True) \<rparr>"

definition effective_hardening_profile ::
    "pydict \<Rightarrow> (pyval \<rightharpoonup> settings) \<Rightarrow> pyval set \<Rightarrow> hardening_profile" where
  "effective_hardening_profile compose applied ro_by_overlay =
     foldl (\<lambda>p (name, svc). case svc of
              PDict s \<Rightarrow> merge_effective (or_else (applied name) no_settings)
                          (name \<in> ro_by_overlay) p s
            | _ \<Rightarrow> p) hardened (compose_services compose)"

section \<open>The worst service decides\<close>

text \<open>One profile is at least as weak as another.\<close>

definition weaker :: "hardening_profile \<Rightarrow> hardening_profile \<Rightarrow> bool" where
  "weaker q p \<longleftrightarrow> (hp_read_only q \<longrightarrow> hp_read_only p)
     \<and> (hp_no_new_privileges q \<longrightarrow> hp_no_new_privileges p)
     \<and> (hp_extra_caps_added p \<longrightarrow> hp_extra_caps_added q)
     \<and> (hp_privileged p \<longrightarrow> hp_privileged q)"

lemma weaker_refl [simp]: "weaker p p"
  by (simp add: weaker_def)

lemma weaker_trans [trans]: "weaker r q \<Longrightarrow> weaker q p \<Longrightarrow> weaker r p"
  by (auto simp: weaker_def)

lemma penalty_mono: "weaker q p \<Longrightarrow> calculate_hardening_penalty p \<le> calculate_hardening_penalty q"
  by (auto simp: weaker_def calculate_hardening_penalty_def max_hardening_penalty_def)

lemma merge_service_weaker: "weaker (merge_service o' p svc) p"
  by (auto simp: weaker_def merge_service_def)

lemma merge_service_mono: "weaker q p \<Longrightarrow> weaker (merge_service o' q svc) (merge_service o' p svc)"
  by (auto simp: weaker_def merge_service_def)

text \<open>The contract of a profile reader: reading one more service never strengthens it.\<close>

locale worst_case =
  fixes step :: "'a \<Rightarrow> hardening_profile \<Rightarrow> hardening_profile"
  assumes step_weaker: "weaker (step x p) p"
    and step_mono: "weaker q p \<Longrightarrow> weaker (step x q) (step x p)"
begin

lemma foldl_weaker: "weaker (foldl (\<lambda>p x. step x p) p xs) p"
proof (induction xs arbitrary: p)
  case Nil
  then show ?case by simp
next
  case (Cons x xs)
  have "weaker (foldl (\<lambda>p x. step x p) (step x p) xs) (step x p)" by (rule Cons)
  also have "weaker (step x p) p" by (rule step_weaker)
  finally show ?case by simp
qed

lemma foldl_mono: "weaker q p \<Longrightarrow>
    weaker (foldl (\<lambda>p x. step x p) q xs) (foldl (\<lambda>p x. step x p) p xs)"
  by (induction xs arbitrary: p q) (auto intro: step_mono)

lemma member_bounds: "x \<in> set xs \<Longrightarrow> weaker (foldl (\<lambda>p x. step x p) p xs) (step x p)"
proof (induction xs arbitrary: p)
  case Nil
  then show ?case by simp
next
  case (Cons y ys)
  show ?case
  proof (cases "x = y")
    case True
    then show ?thesis using foldl_weaker [of "step y p" ys] by simp
  next
    case False
    with Cons have "weaker (foldl (\<lambda>p x. step x p) (step y p) ys) (step x (step y p))" by simp
    also have "weaker (step x (step y p)) (step x p)" by (rule step_mono) (rule step_weaker)
    finally show ?thesis by simp
  qed
qed

end

definition effective_step ::
    "(pyval \<rightharpoonup> settings) \<Rightarrow> pyval set \<Rightarrow> pyval \<times> pyval \<Rightarrow> hardening_profile \<Rightarrow> hardening_profile" where
  "effective_step applied ro entry p = (case entry of (name, svc) \<Rightarrow>
     (case svc of
        PDict s \<Rightarrow> merge_effective (or_else (applied name) no_settings) (name \<in> ro) p s
      | _ \<Rightarrow> p))"

definition compose_step :: "pyval set \<Rightarrow> pyval \<times> pyval \<Rightarrow> hardening_profile \<Rightarrow> hardening_profile" where
  "compose_step overlay entry p = (case entry of (name, svc) \<Rightarrow>
     (case svc of PDict s \<Rightarrow> merge_service (name \<in> overlay) p s | _ \<Rightarrow> p))"

interpretation eff: worst_case "effective_step applied ro"
  by unfold_locales
    (auto simp: effective_step_def merge_effective_def weaker_def split: prod.splits pyval.splits)

interpretation comp: worst_case "compose_step overlay"
  by unfold_locales
    (auto simp: compose_step_def merge_service_def weaker_def split: prod.splits pyval.splits)

lemma effective_profile_steps:
  "effective_hardening_profile compose applied ro =
     foldl (\<lambda>p x. effective_step applied ro x p) hardened (compose_services compose)"
  unfolding effective_hardening_profile_def effective_step_def
  by (rule arg_cong [where f = "\<lambda>f. foldl f hardened (compose_services compose)"])
    (auto simp: fun_eq_iff)

lemma compose_profile_steps:
  "hardening_profile_from_compose compose with_overlay =
     foldl (\<lambda>p x. compose_step (or_else with_overlay (fst ` set (compose_services compose))) x p)
       hardened (compose_services compose)"
  unfolding hardening_profile_from_compose_def compose_step_def Let_def
  by (rule arg_cong [where f = "\<lambda>f. foldl f hardened (compose_services compose)"])
    (auto simp: fun_eq_iff)

text \<open>One weak service is enough: the profile a project is judged by is at least as weak as each of
  its services alone, and so is its penalty, which is between 0 and 2.\<close>

theorem project_penalty_covers_services:
  assumes "(name, PDict svc) \<in> set (compose_services compose)"
  shows "calculate_hardening_penalty
           (merge_effective (or_else (applied name) no_settings) (name \<in> ro) hardened svc)
         \<le> calculate_hardening_penalty (effective_hardening_profile compose applied ro)
    \<and> calculate_hardening_penalty (effective_hardening_profile compose applied ro) \<le> 2"
proof
  have "weaker (effective_hardening_profile compose applied ro)
          (effective_step applied ro (name, PDict svc) hardened)"
    unfolding effective_profile_steps by (rule eff.member_bounds) (rule assms)
  from penalty_mono [OF this]
  show "calculate_hardening_penalty
           (merge_effective (or_else (applied name) no_settings) (name \<in> ro) hardened svc)
         \<le> calculate_hardening_penalty (effective_hardening_profile compose applied ro)"
    by (simp add: effective_step_def)
  show "calculate_hardening_penalty (effective_hardening_profile compose applied ro) \<le> 2"
    by (simp add: calculate_hardening_penalty_def max_hardening_penalty_def)
qed

theorem project_penalty_covers_services_witness:
  "calculate_hardening_penalty (effective_hardening_profile
     [(PStr ''services'', PDict [(PStr ''db'', PDict [(PStr ''privileged'', PBool True)])])]
     (\<lambda>_. None) {}) = 2"
proof -
  let ?c = "[(PStr ''services'', PDict [(PStr ''db'', PDict [(PStr ''privileged'', PBool True)])])]"
  have m: "(PStr ''db'', PDict [(PStr ''privileged'', PBool True)]) \<in> set (compose_services ?c)"
    by (simp add: compose_services_def dget_or_def dget_def)
  have "calculate_hardening_penalty (merge_effective (or_else None no_settings)
          (PStr ''db'' \<in> {}) hardened [(PStr ''privileged'', PBool True)]) = 2"
    by (simp add: calculate_hardening_penalty_def merge_effective_def svc_get_def dget_or_def
        dget_def max_hardening_penalty_def)
  with project_penalty_covers_services [OF m, where applied = "\<lambda>_. None" and ro = "{}"]
  show ?thesis by simp
qed

text \<open>The stricter reading that takes effect later never lowers the penalty of today's: where the
  overlay makes no more services read-only than today's reading assumes, and the settings
  it applies are part of what today's assumes, the effective profile is at least as weak.\<close>

theorem effective_penalty_at_least_compose:
  assumes "ro \<subseteq> overlay"
    and "\<And>name. name \<notin> overlay \<Longrightarrow> applied name = None"
  shows "calculate_hardening_penalty (hardening_profile_from_compose compose (Some overlay))
         \<le> calculate_hardening_penalty (effective_hardening_profile compose applied ro)"
proof -
  have step: "weaker (effective_step applied ro x q) (compose_step overlay x p)"
    if "weaker q p" for x q p
  proof (cases x)
    case (Pair name svc)
    show ?thesis
      using that assms(1) assms(2) [of name]
      by (cases svc; cases "name \<in> overlay")
        (auto simp: Pair effective_step_def compose_step_def weaker_def merge_effective_def
          merge_service_def or_else_def no_settings_def)
  qed
  have "weaker (foldl (\<lambda>p x. effective_step applied ro x p) q xs)
          (foldl (\<lambda>p x. compose_step overlay x p) p xs)" if "weaker q p" for q p xs
    using that by (induction xs arbitrary: q p) (auto intro: step)
  then have "weaker (effective_hardening_profile compose applied ro)
      (hardening_profile_from_compose compose (Some overlay))"
    by (simp add: effective_profile_steps compose_profile_steps or_else_def)
  then show ?thesis by (rule penalty_mono)
qed

theorem effective_penalty_at_least_compose_witness:
  "calculate_hardening_penalty (hardening_profile_from_compose [] (Some {}))
   \<le> calculate_hardening_penalty (effective_hardening_profile [] (\<lambda>_. None) {})"
  by (rule effective_penalty_at_least_compose) auto

end
