(* ===== verification/Cve_Policy.thy ===== *)
theory Cve_Policy
  imports Cve_Policy_Explain Cve_Suppressions Cve_Relevance Cve_Hardening
begin

text \<open>
  \<^verbatim>\<open>src/boxmunge/cve/policy_types.py\<close>, \<^verbatim>\<open>policy.py\<close> and \<^verbatim>\<open>hardening_upcoming.py\<close>:
  the decision engine.  A finding is judged under a posture, a hardening penalty,
  the project's exemptions, the catalog of exploited CVEs and the runtimes it
  uses; a project's decision gathers its findings' dispositions.
\<close>

section \<open>Postures and dispositions\<close>

datatype posture = Relaxed | Balanced | Strict | Paranoid

fun posture_value :: "posture \<Rightarrow> string" where
  "posture_value Relaxed = ''relaxed''"
| "posture_value Balanced = ''balanced''"
| "posture_value Strict = ''strict''"
| "posture_value Paranoid = ''paranoid''"

definition all_postures :: "posture list" where
  "all_postures = [Relaxed, Balanced, Strict, Paranoid]"

datatype disposition = Ignored_Fixed | Suppressed | Informational | Quarantine
  | Still_Running_At_Risk

fun disposition_value :: "disposition \<Rightarrow> string" where
  "disposition_value Ignored_Fixed = ''ignored_fixed''"
| "disposition_value Suppressed = ''suppressed''"
| "disposition_value Informational = ''informational''"
| "disposition_value Quarantine = ''quarantine''"
| "disposition_value Still_Running_At_Risk = ''still_running_at_risk''"

definition all_dispositions :: "disposition list" where
  "all_dispositions =
     [Ignored_Fixed, Suppressed, Informational, Quarantine, Still_Running_At_Risk]"

fun rank_to_severity :: "nat \<Rightarrow> severity" where
  "rank_to_severity n = (if n = 1 then Sev_Low else if n = 2 then Sev_Medium
     else if n = 3 then Sev_High else Sev_Critical)"

fun posture_threshold :: "posture \<Rightarrow> severity" where
  "posture_threshold Relaxed = Sev_Critical"
| "posture_threshold Balanced = Sev_High"
| "posture_threshold Strict = Sev_Medium"
| "posture_threshold Paranoid = Sev_Medium"

fun posture_label :: "posture \<Rightarrow> string" where
  "posture_label Relaxed = ''relaxed''"
| "posture_label Balanced = ''balanced''"
| "posture_label Strict = ''strict''"
| "posture_label Paranoid = ''paranoid''"

record finding_disposition =
  fd_finding :: finding
  base_severity :: severity
  hardening_penalty :: nat
  effective_severity :: severity
  disposition :: disposition
  fd_suppression :: "suppression option"
  explanation :: string
  kev_listed :: bool
  fix_would_quarantine :: bool
  hardening_would_quarantine :: bool

record project_decision =
  pd_project :: string
  pd_image_ref :: string
  pd_findings :: "finding_disposition list"
  quarantine_required :: bool
  at_risk_running :: bool
  pd_scanned_at :: datetime

definition elevate_severity :: "severity \<Rightarrow> nat \<Rightarrow> severity" where
  "elevate_severity base penalty =
     (if base = Sev_Unknown then Sev_Unknown
      else rank_to_severity (min (severity_rank base + penalty) (severity_rank Sev_Critical)))"

datatype policy_error = Posture_Not_Text pyval | Posture_Not_Known string

definition parse_posture :: "pyval \<Rightarrow> policy_error + posture" where
  "parse_posture value = (case value of
     PNone \<Rightarrow> Inr Balanced
   | PStr s \<Rightarrow>
       (if py_strip s = [] then Inl (Posture_Not_Text value)
        else case List.find (\<lambda>p. posture_value p = py_lower (py_strip s)) all_postures of
          Some p \<Rightarrow> Inr p
        | None \<Rightarrow> Inl (Posture_Not_Known s))
   | _ \<Rightarrow> Inl (Posture_Not_Text value))"

section \<open>One finding\<close>

text \<open>What a finding is judged under, the keyword arguments of \<open>evaluate_finding\<close>.\<close>

record judging =
  j_posture :: posture
  j_penalty :: nat
  j_disable_quarantine :: bool
  j_suppressions :: "suppression list"
  j_today :: date
  j_kev_lookup :: "string \<Rightarrow> bool"
  j_runtimes :: "string set option"

definition kev_never :: "string \<Rightarrow> bool" where
  "kev_never cve = False"

definition deprioritized_status :: "vuln_status list" where
  "deprioritized_status =
     [VS_Will_Not_Fix, VS_Fix_Deferred, VS_Not_Affected, VS_Under_Investigation]"

definition paranoid_severity :: "finding \<Rightarrow> severity \<times> string list" where
  "paranoid_severity f =
     (let ratings = vendor_severities f;
          highest = foldl max (severity f) (map snd ratings);
          sources = sort_key (\<lambda>src. (src \<noteq> ''nvd'', src))
                      (map fst (filter (\<lambda>(src, sev). sev = highest) ratings))
      in (highest, if sources = [] then [''trivy''] else sources))"

definition informational ::
    "finding \<Rightarrow> severity \<Rightarrow> nat \<Rightarrow> severity \<Rightarrow> string \<Rightarrow> finding_disposition" where
  "informational f base penalty effective expl =
     \<lparr> fd_finding = f, base_severity = base, hardening_penalty = penalty,
       effective_severity = effective, disposition = Informational, fd_suppression = None,
       explanation = expl, kev_listed = False, fix_would_quarantine = False,
       hardening_would_quarantine = False \<rparr>"

definition threshold_disposition ::
    "finding \<Rightarrow> severity \<Rightarrow> severity \<Rightarrow> nat \<Rightarrow> posture \<Rightarrow> severity \<Rightarrow> bool \<Rightarrow> string list
     \<Rightarrow> finding_disposition" where
  "threshold_disposition f base effective penalty post compare_sev disable sources =
     (let threshold = posture_threshold post;
          over = (severity_rank threshold \<le> severity_rank compare_sev) in
      \<lparr> fd_finding = f, base_severity = base, hardening_penalty = penalty,
        effective_severity = effective,
        disposition = (if over \<and> disable then Still_Running_At_Risk
                       else if over then Quarantine else Informational),
        fd_suppression = None,
        explanation = explain_threshold base effective penalty (posture_label post)
          (severity_value threshold) over disable sources,
        kev_listed = False, fix_would_quarantine = False,
        hardening_would_quarantine = False \<rparr>)"

definition kev_disposition ::
    "finding \<Rightarrow> judging \<Rightarrow> severity \<Rightarrow> severity \<Rightarrow> suppression option \<Rightarrow> finding_disposition" where
  "kev_disposition f j base effective exem =
     (let fix = (if fix_available f then fixed_version f else None);
          verdict = (\<lambda>d expl. \<lparr> fd_finding = f, base_severity = base,
             hardening_penalty = j_penalty j, effective_severity = effective, disposition = d,
             fd_suppression = None, explanation = expl, kev_listed = True,
             fix_would_quarantine = False, hardening_would_quarantine = False \<rparr>) in
      if j_disable_quarantine j
        then verdict Still_Running_At_Risk (explain_kev_opted_out (cve_id f) fix)
      else if fix \<noteq> None \<and> j_posture j = Relaxed
        then verdict Ignored_Fixed (explain_kev_fix_not_running (cve_id f) fix)
      else verdict Quarantine
        (explain_kev_quarantine (cve_id f) (map_option (\<lambda>s. date_iso (until s)) exem) fix))"

definition fixed_disposition ::
    "finding \<Rightarrow> judging \<Rightarrow> severity \<Rightarrow> severity \<Rightarrow> disposition \<Rightarrow> finding_disposition" where
  "fixed_disposition f j base effective but_for =
     (let would = but_for \<in> {Quarantine, Still_Running_At_Risk} in
      \<lparr> fd_finding = f, base_severity = base, hardening_penalty = j_penalty j,
        effective_severity = effective, disposition = Ignored_Fixed, fd_suppression = None,
        explanation = explain_fix_available (fixed_version f) would
          (posture_label (j_posture j)),
        kev_listed = False, fix_would_quarantine = would, hardening_would_quarantine = False \<rparr>)"

definition suppressed_disposition ::
    "finding \<Rightarrow> judging \<Rightarrow> severity \<Rightarrow> severity \<Rightarrow> suppression \<Rightarrow> finding_disposition" where
  "suppressed_disposition f j base effective s =
     \<lparr> fd_finding = f, base_severity = base, hardening_penalty = j_penalty j,
       effective_severity = effective, disposition = Suppressed, fd_suppression = Some s,
       explanation = ''Suppressed by operator (until '' @ date_iso (until s) @ '', ''
         @ ''reason: '' @ reason s @ '').'',
       kev_listed = False, fix_would_quarantine = False, hardening_would_quarantine = False \<rparr>"

text \<open>Steps 7 to 11: balanced and strict, a rated finding with no fix and no exemption.\<close>

definition distro_ladder ::
    "finding \<Rightarrow> judging \<Rightarrow> severity \<Rightarrow> severity \<Rightarrow> finding_disposition" where
  "distro_ladder f j base effective =
     (let info = informational f base (j_penalty j) effective;
          label = posture_label (j_posture j);
          foreign = (case j_runtimes j of None \<Rightarrow> None | Some rs \<Rightarrow> irrelevant_ecosystem f rs) in
      case foreign of
        Some eco \<Rightarrow> info (explain_irrelevant_runtime (package f) eco
                            (or_else (j_runtimes j) {}) label)
      | None \<Rightarrow>
        if status f \<in> set deprioritized_status
          then info (explain_distro_deprioritized (status f) (distro_severity f))
        else case distro_severity f of
          None \<Rightarrow> info (explain_no_distro_verdict base)
        | Some distro_sev \<Rightarrow>
          if attack_vector f \<noteq> Some AV_Network
            then info (explain_av_filter (attack_vector f) label)
          else
            let distro_effective = elevate_severity distro_sev (j_penalty j)
            in threshold_disposition f base distro_effective (j_penalty j) (j_posture j)
                 distro_effective (j_disable_quarantine j) [])"

definition rated_ladder ::
    "finding \<Rightarrow> judging \<Rightarrow> severity \<Rightarrow> severity \<Rightarrow> string list \<Rightarrow> finding_disposition" where
  "rated_ladder f j base effective sources =
     (if base = Sev_Unknown
        then informational f base (j_penalty j) effective
               ''Unknown severity from scanner; reporting only.''
      else if j_posture j = Paranoid
        then threshold_disposition f base effective (j_penalty j) (j_posture j) effective
               (j_disable_quarantine j) sources
      else if j_posture j = Relaxed
        then informational f base (j_penalty j) effective explain_relaxed_kev_only
      else distro_ladder f j base effective)"

definition judged_base :: "finding \<Rightarrow> judging \<Rightarrow> severity \<times> string list" where
  "judged_base f j =
     (if j_posture j = Paranoid then paranoid_severity f else (severity f, []))"

function evaluate_finding :: "finding \<Rightarrow> judging \<Rightarrow> finding_disposition" where
  "evaluate_finding f j =
     (let (base, sources) = judged_base f j;
          effective = elevate_severity base (j_penalty j);
          exem = find_active_suppression (j_suppressions j) (cve_id f) (j_today j) in
      if j_kev_lookup j (cve_id f) then kev_disposition f j base effective exem
      else if fix_available f then
        fixed_disposition f j base effective
          (disposition (evaluate_finding (f\<lparr>fixed_version := None\<rparr>) j))
      else case exem of
        Some s \<Rightarrow> suppressed_disposition f j base effective s
      | None \<Rightarrow> rated_ladder f j base effective sources)"
  by pat_completeness auto
termination
  by (relation "measure (\<lambda>(f, j). if fix_available f then 1 else 0)")
    (auto simp: fix_available_def)

declare evaluate_finding.simps [simp del]

section \<open>One project\<close>

definition flag_upcoming ::
    "finding_disposition \<Rightarrow> finding_disposition \<Rightarrow> upcoming_hardening \<Rightarrow> finding_disposition" where
  "flag_upcoming now later upcoming =
     (if disposition now = Quarantine \<or> disposition later \<noteq> Quarantine then now
      else now\<lparr> hardening_would_quarantine := True,
                explanation := explain_hardening_upcoming (up_services upcoming)
                  (int (hardening_penalty later) - int (hardening_penalty now))
                  (explanation later) \<rparr>)"

definition disposition_key :: "finding_disposition \<Rightarrow> int \<times> string" where
  "disposition_key d = (- int (severity_rank (effective_severity d)), cve_id (fd_finding d))"

definition judge_all ::
    "judging \<Rightarrow> upcoming_hardening option \<Rightarrow> finding list \<Rightarrow> finding_disposition list" where
  "judge_all j upcoming fs =
     (let ds = map (\<lambda>f. evaluate_finding f j) fs in
      case upcoming of
        None \<Rightarrow> ds
      | Some u \<Rightarrow>
          (let later = j\<lparr>j_penalty := calculate_hardening_penalty (up_profile u)\<rparr>
           in map (\<lambda>d. flag_upcoming d (evaluate_finding (fd_finding d) later) u) ds))"

text \<open>The judging's own penalty is replaced by the profile's.\<close>

definition evaluate_project ::
    "string \<Rightarrow> scan_result \<Rightarrow> judging \<Rightarrow> hardening_profile \<Rightarrow> upcoming_hardening option
     \<Rightarrow> project_decision" where
  "evaluate_project name scan j profile upcoming =
     (let ds = sort_key disposition_key
                 (judge_all (j\<lparr>j_penalty := calculate_hardening_penalty profile\<rparr>)
                    upcoming (findings scan)) in
      \<lparr> pd_project = name, pd_image_ref = image_ref scan, pd_findings = ds,
        quarantine_required = list_ex (\<lambda>d. disposition d = Quarantine) ds,
        at_risk_running = list_ex (\<lambda>d. disposition d = Still_Running_At_Risk) ds,
        pd_scanned_at = scanned_at scan \<rparr>)"

section \<open>Elevation\<close>

lemma elevate_rank:
  "base \<noteq> Sev_Unknown \<Longrightarrow>
   severity_rank (elevate_severity base penalty) = min (severity_rank base + penalty) 4"
  by (cases base) (auto simp: elevate_severity_def min_def)

lemma elevate_unknown [simp]: "elevate_severity Sev_Unknown penalty = Sev_Unknown"
  by (simp add: elevate_severity_def)

lemma elevate_zero [simp]: "elevate_severity base 0 = base"
  by (cases base) (simp_all add: elevate_severity_def)

lemma elevate_mono:
  assumes "a \<le> b" "p \<le> q"
  shows "elevate_severity a p \<le> elevate_severity b q"
proof (cases "a = Sev_Unknown")
  case True
  then show ?thesis by simp
next
  case False
  with assms(1) have "b \<noteq> Sev_Unknown" by (cases a) (auto simp: less_eq_severity_def)
  with False assms show ?thesis
    by (simp add: less_eq_severity_def elevate_rank)
qed

section \<open>The ladder, read from the outside\<close>

text \<open>When a finding with no fix, no exemption and no KEV listing meets the gate.\<close>

definition meets_gate :: "finding \<Rightarrow> judging \<Rightarrow> bool" where
  "meets_gate f j = (case j_posture j of
     Relaxed \<Rightarrow> False
   | Paranoid \<Rightarrow> fst (paranoid_severity f) \<noteq> Sev_Unknown
       \<and> Sev_Medium \<le> elevate_severity (fst (paranoid_severity f)) (j_penalty j)
   | _ \<Rightarrow> severity f \<noteq> Sev_Unknown
       \<and> (case j_runtimes j of None \<Rightarrow> True | Some rs \<Rightarrow> \<not> is_irrelevant_to_project f rs)
       \<and> status f \<notin> set deprioritized_status
       \<and> attack_vector f = Some AV_Network
       \<and> (case distro_severity f of None \<Rightarrow> False
          | Some s \<Rightarrow> posture_threshold (j_posture j) \<le> elevate_severity s (j_penalty j)))"

definition exempted :: "finding \<Rightarrow> judging \<Rightarrow> bool" where
  "exempted f j \<longleftrightarrow> (\<exists>s\<in>set (j_suppressions j). sup_cve s = cve_id f \<and> is_active (j_today j) s)"

lemma exempted_find:
  "exempted f j \<longleftrightarrow> find_active_suppression (j_suppressions j) (cve_id f) (j_today j) \<noteq> None"
  using find_active_Some_iff [of "j_suppressions j" "cve_id f" "j_today j"]
  by (auto simp: exempted_def)

lemma disposition_informational [simp]:
  "disposition (informational f b p e x) = Informational"
  by (simp add: informational_def)

lemma disposition_threshold [simp]:
  "disposition (threshold_disposition f b e p post cmp dis srcs) =
     (if posture_threshold post \<le> cmp
      then if dis then Still_Running_At_Risk else Quarantine else Informational)"
  by (simp add: threshold_disposition_def Let_def severity_rank_le)

lemma rated_ladder_disposition:
  assumes "judged_base f j = (base, sources)"
    and "effective = elevate_severity base (j_penalty j)"
  shows "disposition (rated_ladder f j base effective sources) =
    (if meets_gate f j
     then if j_disable_quarantine j then Still_Running_At_Risk else Quarantine
     else Informational)"
  using assms
  by (auto simp: rated_ladder_def distro_ladder_def meets_gate_def judged_base_def Let_def
      is_irrelevant_to_project_def split: posture.splits option.splits if_splits)

lemma evaluate_kev:
  "j_kev_lookup j (cve_id f) \<Longrightarrow> disposition (evaluate_finding f j) =
     (if j_disable_quarantine j then Still_Running_At_Risk
      else if fix_available f \<and> j_posture j = Relaxed then Ignored_Fixed else Quarantine)"
  by (subst evaluate_finding.simps)
    (auto simp: kev_disposition_def Let_def fix_available_def split: prod.splits)

lemma evaluate_fixed:
  "\<not> j_kev_lookup j (cve_id f) \<Longrightarrow> fix_available f \<Longrightarrow>
   disposition (evaluate_finding f j) = Ignored_Fixed"
  by (subst evaluate_finding.simps) (auto simp: fixed_disposition_def Let_def split: prod.splits)

lemma evaluate_plain:
  assumes "\<not> j_kev_lookup j (cve_id f)" "\<not> fix_available f"
  shows "disposition (evaluate_finding f j) =
    (if exempted f j then Suppressed
     else if meets_gate f j
     then if j_disable_quarantine j then Still_Running_At_Risk else Quarantine
     else Informational)"
proof (cases "find_active_suppression (j_suppressions j) (cve_id f) (j_today j)")
  case None
  obtain base sources where b: "judged_base f j = (base, sources)" by fastforce
  have "\<not> exempted f j" using None by (simp add: exempted_find)
  then show ?thesis
    using rated_ladder_disposition [OF b refl] None assms b
    by (subst evaluate_finding.simps) simp
next
  case (Some s)
  then have "exempted f j" by (simp add: exempted_find)
  with Some assms show ?thesis
    by (subst evaluate_finding.simps)
      (simp add: suppressed_disposition_def Let_def split: prod.splits)
qed

lemmas evaluate_cases = evaluate_kev evaluate_fixed evaluate_plain

lemma ratings_unfixed [simp]:
  "paranoid_severity (f\<lparr>fixed_version := x\<rparr>) = paranoid_severity f"
  "distro_severity (f\<lparr>fixed_version := x\<rparr>) = distro_severity f"
  "is_irrelevant_to_project (f\<lparr>fixed_version := x\<rparr>) = is_irrelevant_to_project f"
  by (simp_all add: paranoid_severity_def distro_severity_def is_irrelevant_to_project_def
      irrelevant_ecosystem_def fun_eq_iff)

lemma meets_gate_unfixed [simp]: "meets_gate (f\<lparr>fixed_version := x\<rparr>) j = meets_gate f j"
  by (simp add: meets_gate_def cong: posture.case_cong option.case_cong)

lemma exempted_unfixed [simp]: "exempted (f\<lparr>fixed_version := x\<rparr>) j = exempted f j"
  by (simp add: exempted_def)

lemma evaluate_finding_keeps [simp]: "fd_finding (evaluate_finding f j) = f"
  by (subst evaluate_finding.simps)
    (auto simp: kev_disposition_def fixed_disposition_def suppressed_disposition_def
      rated_ladder_def distro_ladder_def informational_def threshold_disposition_def Let_def
      split: prod.splits option.splits)

lemma evaluate_finding_penalty [simp]: "hardening_penalty (evaluate_finding f j) = j_penalty j"
  by (subst evaluate_finding.simps)
    (auto simp: kev_disposition_def fixed_disposition_def suppressed_disposition_def
      rated_ladder_def distro_ladder_def informational_def threshold_disposition_def Let_def
      split: prod.splits option.splits)

lemma evaluate_finding_not_flagged [simp]:
  "\<not> hardening_would_quarantine (evaluate_finding f j)"
  by (subst evaluate_finding.simps)
    (auto simp: kev_disposition_def fixed_disposition_def suppressed_disposition_def
      rated_ladder_def distro_ladder_def informational_def threshold_disposition_def Let_def
      split: prod.splits option.splits)

end
