(* ===== verification/Cve_Policy_Laws.thy ===== *)
theory Cve_Policy_Laws
  imports Cve_Policy "HOL-Library.Multiset"
begin

text \<open>
  What the decision engine guarantees: the ladder as one equation, the safety of
  the KEV override and of the opt-out, the order of the postures and of the
  penalties, and the shape of a project's decision.
\<close>

section \<open>The decision as one equation\<close>

text \<open>The trust ladder in one equation.  A CVE on the KEV catalog is decided first, whatever its
  exemptions, its distro status or its severity; then a fix, then an exemption, then the gate
  of the posture; and an opted-out project is left running at risk exactly where another
  would be quarantined.\<close>

theorem disposition_equation:
  "disposition (evaluate_finding f j) =
    (if j_kev_lookup j (cve_id f) then
       (if j_disable_quarantine j then Still_Running_At_Risk
        else if fix_available f \<and> j_posture j = Relaxed then Ignored_Fixed
        else Quarantine)
     else if fix_available f then Ignored_Fixed
     else if exempted f j then Suppressed
     else if meets_gate f j then
       (if j_disable_quarantine j then Still_Running_At_Risk else Quarantine)
     else Informational)"
  by (simp add: evaluate_cases)

lemma disposition_cases: "disposition (evaluate_finding f j) =
    (if j_kev_lookup j (cve_id f) then
       (if j_disable_quarantine j then Still_Running_At_Risk
        else if fix_available f \<and> j_posture j = Relaxed then Ignored_Fixed
        else Quarantine)
     else if fix_available f then Ignored_Fixed
     else if exempted f j then Suppressed
     else if meets_gate f j then
       (if j_disable_quarantine j then Still_Running_At_Risk else Quarantine)
     else Informational)"
  by (simp add: evaluate_cases)

text \<open>C1. An exploited CVE is never hidden: no exemption, status, attack vector or severity keeps a
  project with one from being quarantined or, where it opted out, from being reported as
  running at risk; only a fix under the relaxed posture leaves it alone, and that
  disposition still carries the KEV flag.\<close>

theorem kev_never_hidden:
  assumes "j_kev_lookup j (cve_id f)"
  shows "kev_listed (evaluate_finding f j)
    \<and> fd_suppression (evaluate_finding f j) = None
    \<and> disposition (evaluate_finding f j) \<noteq> Suppressed
    \<and> disposition (evaluate_finding f j) \<noteq> Informational
    \<and> (j_posture j \<noteq> Relaxed \<or> \<not> fix_available f \<longrightarrow>
         disposition (evaluate_finding f j)
           = (if j_disable_quarantine j then Still_Running_At_Risk else Quarantine))"
  using assms
  by (subst (1 2 3 4 5) evaluate_finding.simps)
    (auto simp: kev_disposition_def Let_def fix_available_def split: prod.splits)

definition example_finding :: finding where
  "example_finding = \<lparr> cve_id = ''CVE-2024-0001'', severity = Sev_High, package = ''openssl'',
     installed_version = ''1'', fixed_version = None, title = [], primary_url = None,
     attack_vector = Some AV_Network, status = VS_Affected,
     vendor_severities = [(''debian'', Sev_High), (''nvd'', Sev_Critical)],
     severity_source = None, pkg_class = PC_Os, pkg_type = None \<rparr>"

definition noon :: datetime where
  "noon = \<lparr> dt_date = Date 2026 7 1, dt_hour = 12, dt_minute = 0, dt_second = 0, dt_micro = 0,
     dt_offset = Some 0 \<rparr>"

definition example_judging :: "posture \<Rightarrow> judging" where
  "example_judging p = \<lparr> j_posture = p, j_penalty = 0, j_disable_quarantine = False,
     j_suppressions = [], j_today = Date 2026 7 1, j_kev_lookup = kev_never,
     j_runtimes = None \<rparr>"

lemma example_gate:
  "meets_gate example_finding (example_judging Strict)"
  "meets_gate example_finding (example_judging Balanced)"
  by (simp_all add: meets_gate_def example_finding_def example_judging_def
      deprioritized_status_def distro_severity_def distro_sources_def List.map_filter_def
      less_eq_severity_def)

theorem kev_never_hidden_witness:
  "disposition (evaluate_finding example_finding
     (example_judging Relaxed\<lparr>j_kev_lookup := \<lambda>_. True\<rparr>)) = Quarantine"
proof -
  let ?j = "example_judging Relaxed\<lparr>j_kev_lookup := \<lambda>_. True\<rparr>"
  have "j_kev_lookup ?j (cve_id example_finding)" by simp
  from kev_never_hidden [OF this] show ?thesis
    by (simp add: example_finding_def example_judging_def fix_available_def)
qed

section \<open>Stricter postures decide on more\<close>

lemma paranoid_severity_max:
  "fst (paranoid_severity f) = foldl max (severity f) (map snd (vendor_severities f))"
  by (simp add: paranoid_severity_def Let_def)

lemma foldl_max_ge: "(a::'a::linorder) \<le> foldl max a xs \<and> (\<forall>x\<in>set xs. x \<le> foldl max a xs)"
proof (induction xs arbitrary: a)
  case Nil
  then show ?case by simp
next
  case (Cons y ys)
  from Cons [of "max a y"] show ?case by auto
qed

text \<open>Paranoid never decides on a lower severity than another posture: the severity it judges is at
  least the scanner's and every source's, so at least the distribution's the others compare,
  and it names the sources that gave it.\<close>

theorem paranoid_severity_highest:
  "severity f \<le> fst (paranoid_severity f)
   \<and> (\<forall>(src, sev)\<in>set (vendor_severities f). sev \<le> fst (paranoid_severity f))
   \<and> (case distro_severity f of None \<Rightarrow> True | Some s \<Rightarrow> s \<le> fst (paranoid_severity f))
   \<and> snd (paranoid_severity f) \<noteq> []
   \<and> (\<forall>src\<in>set (snd (paranoid_severity f)). src = ''trivy''
        \<or> (src, fst (paranoid_severity f)) \<in> set (vendor_severities f))"
proof -
  have ge: "severity f \<le> fst (paranoid_severity f)"
    and all: "\<forall>s\<in>snd ` set (vendor_severities f). s \<le> fst (paranoid_severity f)"
    unfolding paranoid_severity_max using foldl_max_ge [of "severity f"] by auto
  have "case distro_severity f of None \<Rightarrow> True | Some s \<Rightarrow> s \<le> fst (paranoid_severity f)"
    using all by (auto split: option.splits dest: distro_severity_rating)
  moreover have "snd (paranoid_severity f) \<noteq> []"
    by (auto simp: paranoid_severity_def Let_def)
  moreover have "\<forall>src\<in>set (snd (paranoid_severity f)). src = ''trivy''
        \<or> (src, fst (paranoid_severity f)) \<in> set (vendor_severities f)"
    by (auto simp: paranoid_severity_def Let_def)
  ultimately show ?thesis using ge all by force
qed

theorem paranoid_severity_highest_witness:
  "Sev_Critical \<le> fst (paranoid_severity example_finding)"
proof -
  have "(''nvd'', Sev_Critical) \<in> set (vendor_severities example_finding)"
    by (simp add: example_finding_def)
  with paranoid_severity_highest [of example_finding] show ?thesis by blast
qed

lemma paranoid_ge: "severity f \<le> fst (paranoid_severity f)"
  "distro_severity f = Some s \<Longrightarrow> s \<le> fst (paranoid_severity f)"
  unfolding paranoid_severity_max
  using foldl_max_ge [of "severity f" "map snd (vendor_severities f)"]
  by (auto dest: distro_severity_rating)

lemma gate_balanced_strict:
  assumes "meets_gate f j" "j_posture j = Balanced"
  shows "meets_gate f (j\<lparr>j_posture := Strict\<rparr>)"
  using assms
  by (auto simp: meets_gate_def split: option.splits intro: order_trans [of _ Sev_High])
    (auto simp: less_eq_severity_def)

lemma gate_strict_paranoid:
  assumes "meets_gate f j" "j_posture j = Strict"
  shows "meets_gate f (j\<lparr>j_posture := Paranoid\<rparr>)"
proof -
  from assms obtain s where s: "distro_severity f = Some s"
    and over: "Sev_Medium \<le> elevate_severity s (j_penalty j)"
    by (auto simp: meets_gate_def split: option.splits)
  have "s \<le> fst (paranoid_severity f)" using s by (rule paranoid_ge)
  then have le: "elevate_severity s (j_penalty j)
      \<le> elevate_severity (fst (paranoid_severity f)) (j_penalty j)"
    by (rule elevate_mono) simp
  have "fst (paranoid_severity f) \<noteq> Sev_Unknown"
    using le over by (auto simp: less_eq_severity_def)
  with le over show ?thesis by (auto simp: meets_gate_def)
qed

fun posture_rank :: "posture \<Rightarrow> nat" where
  "posture_rank Relaxed = 0"
| "posture_rank Balanced = 1"
| "posture_rank Strict = 2"
| "posture_rank Paranoid = 3"

lemma gate_posture_mono:
  assumes "meets_gate f (j\<lparr>j_posture := p\<rparr>)" "posture_rank p \<le> posture_rank q"
  shows "meets_gate f (j\<lparr>j_posture := q\<rparr>)"
proof -
  have relaxed: "\<not> meets_gate f (j\<lparr>j_posture := Relaxed\<rparr>)" by (simp add: meets_gate_def)
  have bs: "meets_gate f (j\<lparr>j_posture := Balanced\<rparr>) \<Longrightarrow> meets_gate f (j\<lparr>j_posture := Strict\<rparr>)"
    using gate_balanced_strict [of f "j\<lparr>j_posture := Balanced\<rparr>"] by simp
  have sp: "meets_gate f (j\<lparr>j_posture := Strict\<rparr>) \<Longrightarrow> meets_gate f (j\<lparr>j_posture := Paranoid\<rparr>)"
    using gate_strict_paranoid [of f "j\<lparr>j_posture := Strict\<rparr>"] by simp
  show ?thesis using assms relaxed bs sp by (cases p; cases q) auto
qed

text \<open>Tightening the posture never lets a finding go: what one posture quarantines, every stricter
  one quarantines too.\<close>

theorem stricter_posture_quarantines:
  assumes "disposition (evaluate_finding f (j\<lparr>j_posture := p\<rparr>)) = Quarantine"
    and "posture_rank p \<le> posture_rank q"
  shows "disposition (evaluate_finding f (j\<lparr>j_posture := q\<rparr>)) = Quarantine"
proof (cases "j_kev_lookup j (cve_id f)")
  case True
  then show ?thesis using assms by (cases p; cases q) (auto simp: disposition_cases split: if_splits)
next
  case False
  with assms(1) have "meets_gate f (j\<lparr>j_posture := p\<rparr>)" "\<not> fix_available f"
    "\<not> exempted f j" "\<not> j_disable_quarantine j"
    by (auto simp: disposition_cases exempted_def split: if_splits)
  with gate_posture_mono [OF _ assms(2)] False show ?thesis
    by (simp add: disposition_cases exempted_def)
qed

theorem stricter_posture_quarantines_witness:
  "disposition (evaluate_finding example_finding (example_judging Paranoid)) = Quarantine"
proof -
  have b: "disposition (evaluate_finding example_finding
      (example_judging Relaxed\<lparr>j_posture := Balanced\<rparr>)) = Quarantine"
    using example_gate
    by (simp add: disposition_cases example_judging_def kev_never_def fix_available_def exempted_def)
      (simp add: example_finding_def)
  have "disposition (evaluate_finding example_finding
      (example_judging Relaxed\<lparr>j_posture := Paranoid\<rparr>)) = Quarantine"
    by (rule stricter_posture_quarantines [OF b]) simp
  then show ?thesis by (simp add: example_judging_def)
qed

lemma gate_penalty_mono:
  assumes "meets_gate f j" "j_penalty j \<le> n"
  shows "meets_gate f (j\<lparr>j_penalty := n\<rparr>)"
proof -
  have el: "elevate_severity s (j_penalty j) \<le> elevate_severity s n" for s
    by (rule elevate_mono) (use assms(2) in auto)
  show ?thesis
    using assms(1) el by (cases "j_posture j") (auto simp: meets_gate_def split: option.splits intro: order_trans)
qed

text \<open>Weakening the hardening never lets a finding go: with a higher penalty everything that
  quarantined still does, and every severity decided on is at least as high.\<close>

theorem higher_penalty_quarantines:
  assumes "disposition (evaluate_finding f j) = Quarantine" and "j_penalty j \<le> n"
  shows "disposition (evaluate_finding f (j\<lparr>j_penalty := n\<rparr>)) = Quarantine"
  using assms gate_penalty_mono [OF _ assms(2), of f]
  by (auto simp: disposition_cases exempted_def split: if_splits)

theorem higher_penalty_quarantines_witness:
  "disposition (evaluate_finding example_finding (example_judging Strict\<lparr>j_penalty := 2\<rparr>))
   = Quarantine"
proof -
  have b: "disposition (evaluate_finding example_finding (example_judging Strict)) = Quarantine"
    using example_gate
    by (simp add: disposition_cases example_judging_def kev_never_def fix_available_def exempted_def)
      (simp add: example_finding_def)
  show ?thesis by (rule higher_penalty_quarantines [OF b]) (simp add: example_judging_def)
qed

section \<open>Fixed findings\<close>

text \<open>The flag of a finding left alone because a fix exists says exactly whether the same finding
  without the fix would quarantine or run at risk, so such a finding is alerted and never
  silently ignored.\<close>

theorem fix_flag_is_but_for:
  assumes "fix_available f" and "\<not> j_kev_lookup j (cve_id f)"
  shows "(fix_would_quarantine (evaluate_finding f j) \<longleftrightarrow>
      disposition (evaluate_finding (f\<lparr>fixed_version := None\<rparr>) j)
        \<in> {Quarantine, Still_Running_At_Risk})
    \<and> (fix_would_quarantine (evaluate_finding f j) \<longleftrightarrow> \<not> exempted f j \<and> meets_gate f j)"
proof -
  have eq: "fix_would_quarantine (evaluate_finding f j) \<longleftrightarrow>
    disposition (evaluate_finding (f\<lparr>fixed_version := None\<rparr>) j)
      \<in> {Quarantine, Still_Running_At_Risk}"
    using assms by (subst evaluate_finding.simps) (auto simp: fixed_disposition_def Let_def split: prod.splits)
  moreover have "fix_would_quarantine (evaluate_finding f j) \<longleftrightarrow> \<not> exempted f j \<and> meets_gate f j"
    unfolding eq using assms by (auto simp: disposition_cases fix_available_def)
  ultimately show ?thesis by blast
qed

theorem fix_flag_is_but_for_witness:
  "fix_would_quarantine (evaluate_finding (example_finding\<lparr>fixed_version := Some ''2''\<rparr>)
     (example_judging Strict))"
proof -
  have f: "fix_available (example_finding\<lparr>fixed_version := Some ''2''\<rparr>)"
    by (simp add: fix_available_def)
  have kev: "\<not> j_kev_lookup (example_judging Strict)
      (cve_id (example_finding\<lparr>fixed_version := Some ''2''\<rparr>))"
    by (simp add: example_judging_def kev_never_def)
  have "\<not> exempted (example_finding\<lparr>fixed_version := Some ''2''\<rparr>) (example_judging Strict)"
    by (simp add: exempted_def example_judging_def)
  moreover have "meets_gate (example_finding\<lparr>fixed_version := Some ''2''\<rparr>) (example_judging Strict)"
    using example_gate by simp
  ultimately show ?thesis using fix_flag_is_but_for [OF f kev] by blast
qed

section \<open>Projects\<close>

lemma flag_upcoming_keeps [simp]:
  "disposition (flag_upcoming d e u) = disposition d"
  "fd_finding (flag_upcoming d e u) = fd_finding d"
  "effective_severity (flag_upcoming d e u) = effective_severity d"
  by (simp_all add: flag_upcoming_def)

lemma map_judge_all:
  "map disposition (judge_all j u fs) = map (\<lambda>f. disposition (evaluate_finding f j)) fs"
  "map fd_finding (judge_all j u fs) = fs"
  by (auto simp: judge_all_def Let_def o_def split: option.splits)

lemma set_judge_all_disposition:
  "d \<in> set (judge_all j u fs) \<Longrightarrow>
   disposition d = disposition (evaluate_finding (fd_finding d) j) \<and> fd_finding d \<in> set fs"
  by (auto simp: judge_all_def Let_def split: option.splits)

text \<open>A project's decision holds every finding of the scan exactly once, most severe first; its two
  flags say whether one of them quarantines and whether one runs at risk; and the stricter
  hardening of a later version changes no disposition today.\<close>

theorem evaluate_project_complete:
  "mset (map fd_finding (pd_findings (evaluate_project name scan j profile upcoming)))
      = mset (findings scan)
   \<and> sorted (map disposition_key (pd_findings (evaluate_project name scan j profile upcoming)))
   \<and> (quarantine_required (evaluate_project name scan j profile upcoming) \<longleftrightarrow>
      Quarantine \<in> (\<lambda>f. disposition (evaluate_finding f
        (j\<lparr>j_penalty := calculate_hardening_penalty profile\<rparr>))) ` set (findings scan))
   \<and> (at_risk_running (evaluate_project name scan j profile upcoming) \<longleftrightarrow>
      Still_Running_At_Risk \<in> (\<lambda>f. disposition (evaluate_finding f
        (j\<lparr>j_penalty := calculate_hardening_penalty profile\<rparr>))) ` set (findings scan))"
proof -
  let ?j = "j\<lparr>j_penalty := calculate_hardening_penalty profile\<rparr>"
  let ?ds = "judge_all ?j upcoming (findings scan)"
  have "mset (map fd_finding (sort_key disposition_key ?ds)) = image_mset fd_finding (mset ?ds)"
    by (simp only: mset_map mset_sort)
  also have "\<dots> = mset (findings scan)"
    using map_judge_all(2) [of ?j upcoming "findings scan"] by (metis mset_map)
  finally have all: "mset (map fd_finding (sort_key disposition_key ?ds)) = mset (findings scan)" .
  have flag: "list_ex (\<lambda>d. disposition d = x) (sort_key disposition_key ?ds) \<longleftrightarrow>
      x \<in> (\<lambda>f. disposition (evaluate_finding f ?j)) ` set (findings scan)" for x
  proof -
    have "(\<exists>d\<in>set ?ds. disposition d = x) \<longleftrightarrow> x \<in> set (map disposition ?ds)" by auto
    then show ?thesis by (simp only: list_ex_iff set_sort map_judge_all(1) set_map)
  qed
  show ?thesis using all flag by (simp add: evaluate_project_def Let_def)
qed

text \<open>A project that opted out of quarantine is never quarantined, and no other project is reported
  as running at risk.\<close>

theorem opt_out_excludes_quarantine:
  "(j_disable_quarantine j \<longrightarrow> \<not> quarantine_required (evaluate_project name scan j profile upcoming))
   \<and> (\<not> j_disable_quarantine j \<longrightarrow>
        \<not> at_risk_running (evaluate_project name scan j profile upcoming))"
proof -
  have "disposition (evaluate_finding f (j\<lparr>j_penalty := n\<rparr>)) \<noteq> Quarantine"
    if "j_disable_quarantine j" for f n
    using that by (simp add: disposition_cases)
  moreover have "disposition (evaluate_finding f (j\<lparr>j_penalty := n\<rparr>)) \<noteq> Still_Running_At_Risk"
    if "\<not> j_disable_quarantine j" for f n
    using that by (simp add: disposition_cases)
  ultimately show ?thesis
    by (simp add: evaluate_project_def Let_def list_ex_iff) (metis set_judge_all_disposition)
qed

theorem opt_out_excludes_quarantine_witness:
  "\<not> quarantine_required (evaluate_project [] \<lparr> image_ref = [], findings = [], scanned_at = noon,
      db_version = None, lang_types = {} \<rparr> (example_judging Strict\<lparr>j_disable_quarantine := True\<rparr>)
      hardened None)"
  using opt_out_excludes_quarantine [of "example_judging Strict\<lparr>j_disable_quarantine := True\<rparr>"]
  by simp

text \<open>The warning about a later version's hardening is exact: it is on a finding just when the
  finding does not quarantine now and would under that version's penalty.\<close>

theorem upcoming_flag_exact:
  assumes "d \<in> set (judge_all j (Some u) fs)"
  shows "hardening_would_quarantine d \<longleftrightarrow>
    disposition (evaluate_finding (fd_finding d) j) \<noteq> Quarantine
    \<and> disposition (evaluate_finding (fd_finding d)
        (j\<lparr>j_penalty := calculate_hardening_penalty (up_profile u)\<rparr>)) = Quarantine"
  using assms by (auto simp: judge_all_def Let_def flag_upcoming_def split: if_splits)

theorem upcoming_flag_exact_witness:
  "hardening_would_quarantine (hd (judge_all (example_judging Balanced)
     (Some \<lparr> up_profile = hardened\<lparr>hp_read_only := False\<rparr>, up_services = [] \<rparr>) [example_finding]))
   = False"
proof -
  let ?u = "\<lparr> up_profile = hardened\<lparr>hp_read_only := False\<rparr>, up_services = [] \<rparr>"
  let ?ds = "judge_all (example_judging Balanced) (Some ?u) [example_finding]"
  have "hd ?ds \<in> set ?ds" by (simp add: judge_all_def Let_def)
  moreover have "fd_finding (hd ?ds) = example_finding" by (simp add: judge_all_def Let_def)
  moreover have "disposition (evaluate_finding example_finding (example_judging Balanced)) = Quarantine"
    using example_gate
    by (simp add: disposition_cases example_judging_def kev_never_def fix_available_def exempted_def)
      (simp add: example_finding_def)
  ultimately show ?thesis using upcoming_flag_exact by metis
qed

end
