(* ===== verification/Cve_Security_Policy.thy ===== *)
theory Cve_Security_Policy
  imports Cve_Policy_Laws
begin

text \<open>
  \<^verbatim>\<open>src/boxmunge/cve/security_policy.py\<close>: the three manifest levers a quarantine
  records, and what a release loosens against them.
\<close>

record sec_policy =
  sp_posture :: posture
  sp_dangerously :: bool
  sp_runtimes :: "string list option"

text \<open>The keyword arguments and the dictionary the source returns for them.\<close>

definition security_policy :: "posture \<Rightarrow> bool \<Rightarrow> string list option \<Rightarrow> sec_policy" where
  "security_policy p dangerously runtimes =
     \<lparr> sp_posture = p, sp_dangerously = dangerously, sp_runtimes = map_option sort runtimes \<rparr>"

definition policy_doc :: "sec_policy \<Rightarrow> pyval" where
  "policy_doc p = PDict
     [(PStr ''posture'', PStr (posture_value (sp_posture p))),
      (PStr ''dangerously_disable_quarantine'', PBool (sp_dangerously p)),
      (PStr ''runtimes'', case sp_runtimes p of None \<Rightarrow> PNone | Some rs \<Rightarrow> PList (map PStr rs))]"

text \<open>\<open>not in\<close> a set needs a hash: a list or mapping as posture raises TypeError.\<close>

definition policy_problem :: "pyval \<Rightarrow> py_exc + string option" where
  "policy_problem policy = (case policy of
     PDict d \<Rightarrow>
       (let posture = dget_or d ''posture'' PNone;
            dangerously = dget_or d ''dangerously_disable_quarantine'' PNone;
            runtimes = dget_or d ''runtimes'' PNone in
        if \<not> py_hashable posture then Inl TypeError
        else if posture \<notin> set (map (PStr \<circ> posture_value) all_postures)
          then Inr (Some ''has an unknown posture'')
        else if \<not> is_pbool dangerously
          then Inr (Some ''has a dangerously_disable_quarantine that is not true or false'')
        else if (case runtimes of PNone \<Rightarrow> True | PList rs \<Rightarrow> list_all is_pstr rs | _ \<Rightarrow> False)
          then Inr None
        else Inr (Some ''has runtimes that are neither null nor a list of names''))
   | _ \<Rightarrow> Inr (Some ''is not a mapping''))"

definition runtimes_text :: "string list option \<Rightarrow> string" where
  "runtimes_text value = (case value of
     None \<Rightarrow> ''inferred per image''
   | Some rs \<Rightarrow> ''['' @ join '', '' rs @ '']'')"

definition posture_index :: "posture \<Rightarrow> nat" where
  "posture_index p = length (takeWhile (\<lambda>q. q \<noteq> p) all_postures)"

definition runtimes_loosened :: "string list option \<Rightarrow> string list option \<Rightarrow> bool" where
  "runtimes_loosened old new = (case (old, new) of
     (None, None) \<Rightarrow> False
   | (Some _, None) \<Rightarrow> True
   | (None, Some _) \<Rightarrow> True
   | (Some o', Some n) \<Rightarrow> \<not> set o' \<subseteq> set n)"

definition relaxations :: "sec_policy \<Rightarrow> sec_policy \<Rightarrow> string list" where
  "relaxations before after =
     (if posture_index (sp_posture after) < posture_index (sp_posture before)
      then [''posture '' @ posture_value (sp_posture before) @ '' -> ''
              @ posture_value (sp_posture after)] else [])
   @ (if sp_dangerously after \<and> \<not> sp_dangerously before
      then [''dangerously_disable_quarantine turned on''] else [])
   @ (if runtimes_loosened (sp_runtimes before) (sp_runtimes after)
      then [''security.runtimes '' @ runtimes_text (sp_runtimes before) @ '' -> ''
              @ runtimes_text (sp_runtimes after)] else [])"

section \<open>Lemmas\<close>

lemma posture_index_rank: "posture_index p = posture_rank p"
  by (cases p) (simp_all add: posture_index_def all_postures_def)

lemma relaxations_none_iff: "relaxations before after = [] \<longleftrightarrow>
    posture_rank (sp_posture before) \<le> posture_rank (sp_posture after)
    \<and> (sp_dangerously after \<longrightarrow> sp_dangerously before)
    \<and> \<not> runtimes_loosened (sp_runtimes before) (sp_runtimes after)"
  by (auto simp: relaxations_def posture_index_rank)

lemma policy_doc_get [simp]:
  "dget_or [(PStr ''posture'', a), (PStr ''dangerously_disable_quarantine'', b),
     (PStr ''runtimes'', c)] ''posture'' v = a"
  "dget_or [(PStr ''posture'', a), (PStr ''dangerously_disable_quarantine'', b),
     (PStr ''runtimes'', c)] ''dangerously_disable_quarantine'' v = b"
  "dget_or [(PStr ''posture'', a), (PStr ''dangerously_disable_quarantine'', b),
     (PStr ''runtimes'', c)] ''runtimes'' v = c"
  by (simp_all add: dget_or_def dget_def)

text \<open>The check accepts exactly what \<open>security_policy\<close> returns, up to other keys.\<close>

lemma policy_doc_no_problem: "policy_problem (policy_doc p) = Inr None"
  by (cases "sp_posture p"; cases "sp_runtimes p")
    (simp_all add: policy_doc_def policy_problem_def Let_def all_postures_def list_all_iff)

text \<open>The posture, the opt-out and the runtimes a scan judges a finding under.\<close>

definition judged_under :: "sec_policy \<Rightarrow> string set \<Rightarrow> judging \<Rightarrow> judging" where
  "judged_under p ltypes j = j\<lparr> j_posture := sp_posture p,
     j_disable_quarantine := sp_dangerously p,
     j_runtimes := Some (case sp_runtimes p of None \<Rightarrow> infer_runtimes ltypes
                           | Some rs \<Rightarrow> set rs) \<rparr>"

lemma gate_runtimes_mono:
  assumes "meets_gate f (j\<lparr>j_runtimes := Some rs\<rparr>)" "rs \<subseteq> rs'"
  shows "meets_gate f (j\<lparr>j_runtimes := Some rs'\<rparr>)"
  using assms irrelevant_antimono [OF assms(2)]
  by (cases "j_posture j") (auto simp: meets_gate_def cong: option.case_cong)

lemma quarantine_runtimes_mono:
  assumes "disposition (evaluate_finding f (j\<lparr>j_runtimes := Some rs\<rparr>)) = Quarantine" "rs \<subseteq> rs'"
  shows "disposition (evaluate_finding f (j\<lparr>j_runtimes := Some rs'\<rparr>)) = Quarantine"
  using assms(1) gate_runtimes_mono [OF _ assms(2), of f j]
  by (auto simp: disposition_cases exempted_def split: if_splits)

lemma quarantine_posture_mono:
  assumes "disposition (evaluate_finding f (j\<lparr>j_posture := p\<rparr>)) = Quarantine"
    and "posture_rank p \<le> posture_rank q"
  shows "disposition (evaluate_finding f (j\<lparr>j_posture := q\<rparr>)) = Quarantine"
proof (cases "j_kev_lookup j (cve_id f)")
  case True
  then show ?thesis using assms by (cases p; cases q) (auto simp: disposition_cases split: if_splits)
next
  case False
  with assms(1) gate_posture_mono [OF _ assms(2), of f j] show ?thesis
    by (auto simp: disposition_cases exempted_def split: if_splits)
qed

lemma not_loosened_subset:
  assumes "\<not> runtimes_loosened old new"
  shows "(case old of None \<Rightarrow> infer_runtimes ts | Some rs \<Rightarrow> set rs)
     \<subseteq> (case new of None \<Rightarrow> infer_runtimes ts | Some rs \<Rightarrow> set rs)"
  using assms by (auto simp: runtimes_loosened_def split: option.splits)

text \<open>C36. A release the check finds nothing loosened in cannot lift a quarantine by its policy: on the
  same image, whatever quarantined under the recorded policy quarantines under the
  release's.  The check names every lever that could change a verdict.\<close>

theorem no_relaxation_keeps_quarantine:
  assumes "relaxations before after = []"
    and "disposition (evaluate_finding f (judged_under before ltypes j)) = Quarantine"
  shows "disposition (evaluate_finding f (judged_under after ltypes j)) = Quarantine"
proof -
  let ?r = "\<lambda>p. case sp_runtimes p of None \<Rightarrow> infer_runtimes ltypes | Some rs \<Rightarrow> set rs"
  let ?j = "\<lambda>p b rs. j\<lparr>j_posture := p, j_disable_quarantine := b, j_runtimes := Some rs\<rparr>"
  from assms(1) have ps: "posture_rank (sp_posture before) \<le> posture_rank (sp_posture after)"
    and dis: "sp_dangerously after \<Longrightarrow> sp_dangerously before"
    and rs: "?r before \<subseteq> ?r after"
    using not_loosened_subset by (auto simp: relaxations_none_iff)
  from assms(2) have q: "disposition (evaluate_finding f
      (?j (sp_posture before) (sp_dangerously before) (?r before))) = Quarantine"
    by (simp add: judged_under_def)
  then have off: "\<not> sp_dangerously before" by (auto simp: disposition_cases split: if_splits)
  have "disposition (evaluate_finding f
      ((j\<lparr>j_posture := sp_posture before, j_disable_quarantine := False\<rparr>)
         \<lparr>j_runtimes := Some (?r after)\<rparr>)) = Quarantine"
    by (rule quarantine_runtimes_mono [OF _ rs]) (use q off in simp)
  then have "disposition (evaluate_finding f
      ((j\<lparr>j_disable_quarantine := False, j_runtimes := Some (?r after)\<rparr>)
         \<lparr>j_posture := sp_posture before\<rparr>)) = Quarantine" by (cases j) simp
  then have "disposition (evaluate_finding f
      ((j\<lparr>j_disable_quarantine := False, j_runtimes := Some (?r after)\<rparr>)
         \<lparr>j_posture := sp_posture after\<rparr>)) = Quarantine"
    by (rule quarantine_posture_mono [OF _ ps])
  moreover have "\<not> sp_dangerously after" using dis off by blast
  ultimately show ?thesis by (cases j) (simp add: judged_under_def)
qed

theorem no_relaxation_keeps_quarantine_witness:
  "disposition (evaluate_finding example_finding
     (judged_under \<lparr> sp_posture = Strict, sp_dangerously = False, sp_runtimes = None \<rparr> {}
       (example_judging Relaxed))) = Quarantine"
proof -
  let ?b = "\<lparr> sp_posture = Balanced, sp_dangerously = False, sp_runtimes = None \<rparr>"
  let ?a = "\<lparr> sp_posture = Strict, sp_dangerously = False, sp_runtimes = None \<rparr>"
  have r: "relaxations ?b ?a = []"
    by (simp add: relaxations_none_iff runtimes_loosened_def)
  have "ecosystem_for_package ''openssl'' = None" by code_simp
  then have "\<not> is_irrelevant_to_project example_finding {}"
    by (simp add: is_irrelevant_to_project_def irrelevant_ecosystem_def example_finding_def)
  then have "meets_gate example_finding (judged_under ?b {} (example_judging Relaxed))"
    using example_gate(2)
    by (simp add: meets_gate_def judged_under_def example_judging_def infer_runtimes_def
        cong: option.case_cong)
  then have q: "disposition (evaluate_finding example_finding
      (judged_under ?b {} (example_judging Relaxed))) = Quarantine"
    by (simp add: disposition_cases judged_under_def example_judging_def kev_never_def
        fix_available_def exempted_def) (simp add: example_finding_def)
  show ?thesis by (rule no_relaxation_keeps_quarantine [OF r q])
qed

end
