(* ===== verification/Cve_Quarantine.thy ===== *)
theory Cve_Quarantine
  imports Pause Cve_Security_Policy
begin

text \<open>
  \<^verbatim>\<open>src/boxmunge/cve/quarantine.py\<close> and the enforcement of
  \<^verbatim>\<open>src/boxmunge/commands/security_enforce.py\<close>: the quarantine record, the steps of
  the action, and the lift.  Logging is left out.  \<open>compose_up_checked\<close> and the
  check after the start are parameters of the lift.
\<close>

section \<open>The record\<close>

definition quarantine_text_fields :: "string list" where
  "quarantine_text_fields =
     [''quarantined_at'', ''cve_id'', ''severity'', ''effective_severity'', ''explanation'', ''image_ref'']"

datatype record_problem = Record_Not_Object | Record_Corrupt "string list"

definition checked_quarantine_record :: "pyval option \<Rightarrow> record_problem raised + pydict" where
  "checked_quarantine_record state = (case state of
     Some (PDict d) \<Rightarrow>
       (let texts = filter (\<lambda>k. \<not> is_pstr (dget_or d k PNone)) quarantine_text_fields;
            completes = (case dget d ''action_complete'' of
              Some v \<Rightarrow> if is_pbool v then [] else [''action_complete''] | None \<Rightarrow> []) in
        rbind (case dget d ''policy'' of
            None \<Rightarrow> Inr []
          | Some p \<Rightarrow> (case policy_problem p of
              Inl x \<Rightarrow> Inl (Crash x) | Inr None \<Rightarrow> Inr [] | Inr (Some _) \<Rightarrow> Inr [''policy'']))
          (\<lambda>pol. let bad = texts @ completes @ pol in
             if bad = [] then Inr d else Inl (Raised (Record_Corrupt bad))))
   | _ \<Rightarrow> Inl (Raised Record_Not_Object))"

definition is_quarantined :: "box \<Rightarrow> bool" where
  "is_quarantined b \<longleftrightarrow> quarantine_file b \<noteq> Absent"

definition read_quarantine_state :: "pydict option act" where
  "read_quarantine_state b =
     ((case quarantine_file b of
         Absent \<Rightarrow> Inr None
       | Doc (PDict d) \<Rightarrow> Inr (Some d)
       | _ \<Rightarrow> Inl (Raised Quarantine_Error)), b)"

definition write_record :: "pydict \<Rightarrow> unit act" where
  "write_record d = write_quarantine_file (Raised Quarantine_Error) (PDict d)"

definition quarantine_doc ::
    "finding_disposition \<Rightarrow> string \<Rightarrow> sec_policy \<Rightarrow> datetime \<Rightarrow> pydict" where
  "quarantine_doc headline ref policy now =
     [(PStr ''quarantined_at'', PStr (datetime_iso now)),
      (PStr ''cve_id'', PStr (cve_id (fd_finding headline))),
      (PStr ''severity'', PStr (severity_value (base_severity headline))),
      (PStr ''effective_severity'', PStr (severity_value (effective_severity headline))),
      (PStr ''explanation'', PStr (explanation headline)),
      (PStr ''image_ref'', PStr ref),
      (PStr ''policy'', policy_doc policy),
      (PStr ''action_complete'', PBool False)]"

definition write_quarantine_state ::
    "finding_disposition \<Rightarrow> string \<Rightarrow> sec_policy \<Rightarrow> datetime \<Rightarrow> pydict act" where
  "write_quarantine_state headline ref policy now =
     (let data = quarantine_doc headline ref policy now in
      abind (write_record data) (\<lambda>_. aret data))"

definition quarantine_action_complete :: "bool act" where
  "quarantine_action_complete = abind read_quarantine_state (\<lambda>st. aret (case st of
     None \<Rightarrow> False | Some d \<Rightarrow> dget_or d ''action_complete'' PNone = PBool True))"

definition clear_quarantine_state :: "unit act" where
  "clear_quarantine_state b = (Inr (), b\<lparr>quarantine_file := Absent\<rparr>)"

section \<open>The action\<close>

definition persist_in_record :: "pydict \<Rightarrow> policies \<Rightarrow> unit act" where
  "persist_in_record st ps = write_record (with_policies st ps)"

definition pin_restart_policies :: "pydict \<Rightarrow> pydict act" where
  "pin_restart_policies st =
     abind (on_docker_error Quarantine_Error
       (abind (alift (saved_policies st)) (\<lambda>saved. hold saved (persist_in_record st))))
       (\<lambda>saved. aret (with_policies st saved))"

definition write_maintenance :: "string list \<Rightarrow> unit act" where
  "write_maintenance hosts = (case render_maintenance_caddy_config hosts of
     Inl _ \<Rightarrow> araise Quarantine_Error
   | Inr conf \<Rightarrow> write_caddy_site (Raised Quarantine_Error) conf)"

text \<open>Steps 2 to 4: the maintenance page, the reload, the stop.\<close>

definition go_dark :: "string list \<Rightarrow> unit act" where
  "go_dark hosts =
     abind (write_maintenance hosts) (\<lambda>_.
     abind (on_docker_error Quarantine_Error caddy_reload) (\<lambda>_.
     on_docker_error Quarantine_Error compose_stop))"

definition marked_complete :: "pydict \<Rightarrow> pydict" where
  "marked_complete st = (if dget_or st ''action_complete'' PNone = PBool True then st
     else dset st (PStr ''action_complete'') (PBool True))"

definition complete_action :: "string list \<Rightarrow> pydict \<Rightarrow> unit act" where
  "complete_action hosts st =
     abind (go_dark hosts) (\<lambda>_.
     abind (pin_restart_policies st) (\<lambda>st'.
     write_record (marked_complete st')))"

definition quarantine_project :: "string list \<Rightarrow> finding_disposition \<Rightarrow> string \<Rightarrow> sec_policy
    \<Rightarrow> datetime \<Rightarrow> unit act" where
  "quarantine_project hosts headline ref policy now =
     abind (write_quarantine_state headline ref policy now) (complete_action hosts)"

definition reassert_quarantine :: "string list \<Rightarrow> unit act" where
  "reassert_quarantine hosts = abind read_quarantine_state (\<lambda>st. case st of
     None \<Rightarrow> araise Quarantine_Error
   | Some d \<Rightarrow> complete_action hosts d)"

section \<open>The lift\<close>

definition restore_restart_policies :: "pydict \<Rightarrow> policies option \<Rightarrow> unit act" where
  "restore_restart_policies st restore =
     abind (alift (case restore of None \<Rightarrow> saved_policies st | Some ps \<Rightarrow> Inr ps)) (\<lambda>saved.
     on_docker_error Quarantine_Error (release saved))"

definition lift_to_site :: "string \<Rightarrow> policies option \<Rightarrow> unit act \<Rightarrow> unit act option \<Rightarrow> pydict \<Rightarrow> unit act" where
  "lift_to_site conf restore up after_start st =
     abind (write_caddy_site (Raised Quarantine_Error) conf) (\<lambda>_.
     abind (on_docker_error Quarantine_Error caddy_reload) (\<lambda>_.
     abind (restore_restart_policies st restore) (\<lambda>_.
     abind (on_docker_error Quarantine_Error up) (\<lambda>_.
     abind (case after_start of None \<Rightarrow> aret () | Some check \<Rightarrow> check) (\<lambda>_.
     clear_quarantine_state)))))"

definition lift_quarantine ::
    "string option \<Rightarrow> policies option \<Rightarrow> unit act \<Rightarrow> unit act option \<Rightarrow> unit act" where
  "lift_quarantine site restore up after_start b =
     (if \<not> is_quarantined b then (Inr (), b)
      else abind read_quarantine_state (\<lambda>st0.
        let st = (case st0 of None \<Rightarrow> [] | Some d \<Rightarrow> d) in
        case site of
          None \<Rightarrow> abind (alift (saved_policies st)) (\<lambda>saved.
                  abind (hand_over_restart_policies saved) (\<lambda>_. clear_quarantine_state))
        | Some conf \<Rightarrow> lift_to_site conf restore up after_start st) b)"

section \<open>Enforcement\<close>

text \<open>Whether a stage of an earlier version is on disk, which decides if the action is held.\<close>

datatype legacy_check = No_Legacy | Legacy_Stage | Legacy_Unknown

datatype enforce_error = Action_Failed | Action_Not_Taken

record enforcement =
  enf_error :: "enforce_error option"
  enf_landed :: bool
  enf_held :: "string option"

definition enforced :: enforcement where
  "enforced = \<lparr> enf_error = None, enf_landed = False, enf_held = None \<rparr>"

definition recorded_cve :: "string act" where
  "recorded_cve = abind read_quarantine_state (\<lambda>st.
     case dget_or (case st of None \<Rightarrow> [] | Some d \<Rightarrow> d) ''cve_id'' PNone of
       PStr s \<Rightarrow> if s = [] then araise Quarantine_Error else aret s
     | _ \<Rightarrow> araise Quarantine_Error)"

text \<open>The project's headline: the decision's image and its finding.\<close>

definition enforce_steps :: "string list \<Rightarrow> sec_policy \<Rightarrow> (string \<times> finding_disposition) option
    \<Rightarrow> bool \<Rightarrow> legacy_check \<Rightarrow> datetime \<Rightarrow> enforcement act" where
  "enforce_steps hosts policy headline in_grace legacy now b =
     (if legacy = Legacy_Unknown then
        (Inr (enforced\<lparr>enf_error := if (headline \<noteq> None \<and> \<not> in_grace) \<or> is_quarantined b
                                   then Some Action_Not_Taken else None\<rparr>), b)
      else if is_quarantined b then
        (if legacy = Legacy_Stage then
           abind recorded_cve (\<lambda>cve. aret (enforced\<lparr>enf_held := Some cve\<rparr>)) b
         else abind quarantine_action_complete (\<lambda>was_complete.
              abind (reassert_quarantine hosts) (\<lambda>_.
              aret (enforced\<lparr>enf_landed := \<not> was_complete\<rparr>))) b)
      else case headline of
        None \<Rightarrow> (Inr enforced, b)
      | Some (ref, d) \<Rightarrow>
          if in_grace then (Inr enforced, b)
          else if legacy = Legacy_Stage then (Inr (enforced\<lparr>enf_held := Some (cve_id (fd_finding d))\<rparr>), b)
          else abind (quarantine_project hosts d ref policy now) (\<lambda>_.
               aret (enforced\<lparr>enf_landed := True\<rparr>)) b)"

definition enforce :: "string list \<Rightarrow> sec_policy \<Rightarrow> (string \<times> finding_disposition) option
    \<Rightarrow> bool \<Rightarrow> legacy_check \<Rightarrow> datetime \<Rightarrow> enforcement act" where
  "enforce hosts policy headline in_grace legacy now =
     acatch (\<lambda>e. if e = Raised Quarantine_Error
                then Some (aret (enforced\<lparr>enf_error := Some Action_Failed\<rparr>)) else None)
       (enforce_steps hosts policy headline in_grace legacy now) aret"

section \<open>What the record keeps\<close>

definition quarantine_originals :: "box \<Rightarrow> policies" where
  "quarantine_originals b = record_policies (quarantine_file b)"

lemma read_quarantine_Some: "read_quarantine_state b = (Inr (Some d), b') \<Longrightarrow>
    b' = b \<and> quarantine_file b = Doc (PDict d)"
  by (auto simp: read_quarantine_state_def split: json_file.splits pyval.splits)

lemma read_quarantine_same: "read_quarantine_state b = (r, b') \<Longrightarrow> b' = b"
  by (simp add: read_quarantine_state_def)

lemma write_record_Inr: "write_record d b = (Inr u, b') \<Longrightarrow>
    b' = b\<lparr>outcomes := tl (outcomes b), quarantine_file := Doc (PDict d)\<rparr>"
  by (auto simp: write_record_def write_quarantine_file_def dest!: effect_Inr)

lemma write_record_Inl: "write_record d b = (Inl e, b') \<Longrightarrow>
    e = Raised Quarantine_Error \<and> (\<exists>rs. b' = b\<lparr>outcomes := rs\<rparr>)"
  by (auto simp: write_record_def write_quarantine_file_def dest!: effect_Inl)

interpretation record_keeper: original_keeper quarantine_originals "persist_in_record st" for st
proof
  show "quarantine_originals b' = ps" if "persist_in_record st ps b = (Inr u, b')" for ps b u b'
    using write_record_Inr [OF that [unfolded persist_in_record_def]]
    by (simp add: quarantine_originals_def record_policies_def)
  show "quarantine_originals b' = quarantine_originals b"
    if "persist_in_record st ps b = (Inl e, b')" for ps b e b'
    using write_record_Inl [OF that [unfolded persist_in_record_def]]
    by (auto simp: quarantine_originals_def)
  show "keeps containers (persist_in_record st ps)" for ps
    unfolding persist_in_record_def write_record_def write_quarantine_file_def
    by (auto intro!: keeps_effect)
qed (simp_all add: quarantine_originals_def)

section \<open>The steps of the action\<close>

lemma keeps_write_maintenance:
  "keeps quarantine_file (write_maintenance hosts)" "keeps containers (write_maintenance hosts)"
  unfolding write_maintenance_def write_caddy_site_def
  by (auto split: sum.splits intro!: keeps_effect)

lemma keeps_caddy_reload: "keeps quarantine_file caddy_reload" "keeps containers caddy_reload"
  unfolding caddy_reload_def by (auto intro!: keeps_effect)

lemma keeps_go_dark:
  "keeps quarantine_file (go_dark hosts)" "keeps policy_of (go_dark hosts)"
  "keeps (\<lambda>b. map fst (containers b)) (go_dark hosts)"
proof -
  have pol: "keeps policy_of m" if "keeps containers m" for m :: "unit act"
    unfolding policy_of_via using that by (rule keeps_via)
  have nam: "keeps (\<lambda>b. map fst (containers b)) m" if "keeps containers m" for m :: "unit act"
    using that by (rule keeps_via)
  show "keeps quarantine_file (go_dark hosts)" "keeps policy_of (go_dark hosts)"
    "keeps (\<lambda>b. map fst (containers b)) (go_dark hosts)"
    unfolding go_dark_def
    by (intro keeps_bind keeps_on_docker_error compose_stop_keeps keeps_write_maintenance
        keeps_caddy_reload pol nam)+
qed

lemma go_dark_Inr:
  assumes "go_dark hosts b = (Inr u, b')"
  shows "\<exists>conf. render_maintenance_caddy_config hosts = Inr conf \<and> caddy_live b' = Some conf
    \<and> all_stopped b'"
proof -
  from assms obtain b1 b2 where m: "write_maintenance hosts b = (Inr (), b1)"
    and c: "caddy_reload b1 = (Inr (), b2)" and s: "compose_stop b2 = (Inr u, b')"
    by (auto simp: go_dark_def abind_Inr)
  from m obtain conf where r: "render_maintenance_caddy_config hosts = Inr conf"
    and w: "write_caddy_site (Raised Quarantine_Error) conf b = (Inr (), b1)"
    by (auto simp: write_maintenance_def split: sum.splits)
  have "caddy_site b1 = Some conf" using effect_Inr [OF w [unfolded write_caddy_site_def]] by simp
  then have "caddy_live b2 = Some conf" using effect_Inr [OF c [unfolded caddy_reload_def]] by simp
  then have "caddy_live b' = Some conf" using keepsD [OF compose_stop_keeps(6) s] by simp
  with r compose_stop_Inr [OF s] show ?thesis by blast
qed

lemma keeps_persist_in_record:
  assumes "\<And>b rs. g (b\<lparr>outcomes := rs\<rparr>) = g b" "\<And>b f. g (b\<lparr>quarantine_file := f\<rparr>) = g b"
  shows "keeps g (persist_in_record st ps)"
  unfolding persist_in_record_def write_record_def write_quarantine_file_def
  by (auto intro!: keeps_effect assms)

lemma keeps_pin:
  assumes "\<And>b rs. g (b\<lparr>outcomes := rs\<rparr>) = g b" "\<And>b f. g (b\<lparr>quarantine_file := f\<rparr>) = g b"
    and "\<And>ns p b. g (set_policies ns p b) = g b"
  shows "keeps g (pin_restart_policies st)"
  unfolding pin_restart_policies_def
  by (intro keeps_bind keeps_on_docker_error keeps_simple keeps_alift keeps_hold
      keeps_persist_in_record assms)

lemma quarantine_originals_doc:
  "quarantine_file b = Doc (PDict st) \<Longrightarrow> saved_policies st = Inr ps \<Longrightarrow> quarantine_originals b = ps"
  by (simp add: quarantine_originals_def record_policies_def)

lemma stays_write_record: "stays is_quarantined (write_record st)"
  unfolding stays_def
proof (intro allI impI)
  fix b
  assume q: "is_quarantined b"
  obtain r b' where w: "write_record st b = (r, b')" by fastforce
  then show "is_quarantined (snd (write_record st b))"
    using q write_record_Inr [of st b _ b'] write_record_Inl [of st b _ b']
    by (cases r) (auto simp: is_quarantined_def)
qed

lemma is_quarantined_simps [simp]:
  "is_quarantined (b\<lparr>outcomes := rs\<rparr>) = is_quarantined b"
  "is_quarantined (set_policies ns p b) = is_quarantined b"
  by (simp_all add: is_quarantined_def)

lemma stays_pin: "stays is_quarantined (pin_restart_policies st)"
  unfolding pin_restart_policies_def hold_def persist_in_record_def
  by (intro stays_bind stays_on_docker_error stays_simple stays_write_record
      stays_keeps [OF keeps_alift] stays_keeps [OF keeps_project_restart_policies]
      stays_keeps [OF keeps_set_restart_policy] is_quarantined_simps)

lemma stays_complete_action: "stays is_quarantined (complete_action hosts st)"
proof -
  have "keeps is_quarantined (go_dark hosts)"
    using keeps_via [OF keeps_go_dark(1), of "\<lambda>f. f \<noteq> Absent"] by (simp add: is_quarantined_def [abs_def])
  then show ?thesis
    unfolding complete_action_def
    by (intro stays_bind stays_pin stays_write_record) (rule stays_keeps)
qed

text \<open>No outcome of the hold loses an original.\<close>

lemma pin_keeps:
  assumes run: "pin_restart_policies st b = (r, b')" and f: "quarantine_file b = Doc (PDict st)"
    and dist: "distinct (map fst (containers b))"
  shows "record_keeper.original b' n = record_keeper.original b n
    \<and> map fst (containers b') = map fst (containers b)
    \<and> (\<forall>st'. r = Inr st' \<longrightarrow> (\<exists>ps. st' = with_policies st ps \<and> quarantine_originals b' = ps
        \<and> (\<forall>m. policy_of b' m \<in> {None, Some ''no''})
        \<and> (\<forall>m. policy_of b m \<noteq> None \<longrightarrow> map_of ps m = record_keeper.original b m)))
    \<and> (distinct (map fst (quarantine_originals b)) \<longrightarrow> distinct (map fst (quarantine_originals b')))"
proof (cases "saved_policies st")
  case (Inl e)
  have "on_docker_error Quarantine_Error (abind (alift (saved_policies st))
      (\<lambda>saved. hold saved (persist_in_record st))) b = (Inl e, b) \<or>
      on_docker_error Quarantine_Error (abind (alift (saved_policies st))
      (\<lambda>saved. hold saved (persist_in_record st))) b = (Inl (Raised Quarantine_Error), b)"
    using Inl by (cases e rule: raised.exhaust)
      (auto simp: on_docker_error_def abind_def alift_def split: box_error.splits)
  then have "b' = b" "\<exists>e. r = Inl e"
    using run by (auto simp: pin_restart_policies_def abind_def)
  then show ?thesis by auto
next
  case (Inr saved)
  then have kept: "saved = quarantine_originals b" using quarantine_originals_doc [OF f] by simp
  obtain r2 b2 where h: "hold saved (persist_in_record st) b = (r2, b2)" by fastforce
  have "b' = b2" and rr: "\<forall>st'. r = Inr st' \<longrightarrow> (\<exists>ps. r2 = Inr ps \<and> st' = with_policies st ps)"
    using run h Inr by (auto simp: pin_restart_policies_def abind_def alift_def on_docker_error_def
        split: sum.splits raised.splits box_error.splits prod.splits)
  with record_keeper.hold_keeps_originals [OF h kept dist, of n] show ?thesis by auto
qed

lemma record_policies_marked [simp]:
  "record_policies (Doc (PDict (marked_complete (with_policies st ps)))) = ps"
  by (simp add: record_policies_def marked_complete_def)

lemma complete_action_keeps:
  assumes run: "complete_action hosts st b = (r, b')" and f: "quarantine_file b = Doc (PDict st)"
    and dist: "distinct (map fst (containers b))"
  shows "record_keeper.original b' n = record_keeper.original b n
    \<and> map fst (containers b') = map fst (containers b)
    \<and> (distinct (map fst (quarantine_originals b)) \<longrightarrow> distinct (map fst (quarantine_originals b')))"
proof -
  obtain r1 b1 where d: "go_dark hosts b = (r1, b1)" by fastforce
  have k1: "quarantine_file b1 = quarantine_file b" "policy_of b1 = policy_of b"
    "map fst (containers b1) = map fst (containers b)"
    using keepsD [OF keeps_go_dark(1) d] keepsD [OF keeps_go_dark(2) d] keepsD [OF keeps_go_dark(3) d]
    by simp_all
  have o1: "record_keeper.original b1 m = record_keeper.original b m" for m
    by (simp add: record_keeper.original_def quarantine_originals_def k1 cong: option.case_cong)
  have q1: "quarantine_originals b1 = quarantine_originals b" by (simp add: quarantine_originals_def k1)
  show ?thesis
  proof (cases r1)
    case (Inl e)
    with run d have "b' = b1" by (auto simp: complete_action_def abind_def)
    then show ?thesis using o1 k1 q1 by simp
  next
    case (Inr u)
    obtain r2 b2 where p: "pin_restart_policies st b1 = (r2, b2)" by fastforce
    have f1: "quarantine_file b1 = Doc (PDict st)" and d1: "distinct (map fst (containers b1))"
      using f dist k1 by simp_all
    note k2 = pin_keeps [OF p f1 d1, of n]
    show ?thesis
    proof (cases r2)
      case (Inl e)
      with run d p Inr have "b' = b2" by (auto simp: complete_action_def abind_def)
      then show ?thesis using k2 o1 k1 q1 by simp
    next
      case Inr2: (Inr st')
      with k2 obtain ps where st': "st' = with_policies st ps" and q2: "quarantine_originals b2 = ps"
        by blast
      have w: "write_record (marked_complete st') b2 = (r, b')"
        using run d p Inr Inr2 by (auto simp: complete_action_def abind_def)
      have "quarantine_originals b' = quarantine_originals b2 \<and> containers b' = containers b2"
        using w write_record_Inr [of "marked_complete st'" b2 _ b']
          write_record_Inl [of "marked_complete st'" b2 _ b'] q2
        by (cases r) (auto simp: quarantine_originals_def st')
      then show ?thesis using k2 o1 k1 q1
        by (simp add: record_keeper.original_def policy_of_def cong: option.case_cong)
    qed
  qed
qed

lemma complete_action_Inr:
  assumes run: "complete_action hosts st b = (Inr u, b')" and f: "quarantine_file b = Doc (PDict st)"
    and dist: "distinct (map fst (containers b))"
  shows "(\<exists>conf. render_maintenance_caddy_config hosts = Inr conf \<and> caddy_live b' = Some conf)
    \<and> all_stopped b' \<and> (\<forall>m. policy_of b' m \<in> {None, Some ''no''})
    \<and> (\<exists>d. quarantine_file b' = Doc (PDict d) \<and> dget d ''action_complete'' = Some (PBool True))
    \<and> (\<forall>m. policy_of b m \<noteq> None \<longrightarrow>
          map_of (quarantine_originals b') m = record_keeper.original b m)"
proof -
  from run obtain b1 st' b2 where d: "go_dark hosts b = (Inr (), b1)"
    and p: "pin_restart_policies st b1 = (Inr st', b2)"
    and w: "write_record (marked_complete st') b2 = (Inr u, b')"
    by (auto simp: complete_action_def abind_Inr)
  have k1: "quarantine_file b1 = quarantine_file b" "policy_of b1 = policy_of b"
    "map fst (containers b1) = map fst (containers b)"
    using keepsD [OF keeps_go_dark(1) d] keepsD [OF keeps_go_dark(2) d] keepsD [OF keeps_go_dark(3) d]
    by simp_all
  have o1: "record_keeper.original b1 m = record_keeper.original b m" for m
    by (simp add: record_keeper.original_def quarantine_originals_def k1 cong: option.case_cong)
  have f1: "quarantine_file b1 = Doc (PDict st)" and d1: "distinct (map fst (containers b1))"
    using f dist k1 by simp_all
  obtain ps where st': "st' = with_policies st ps" and no: "\<forall>m. policy_of b2 m \<in> {None, Some ''no''}"
    and ps: "\<forall>m. policy_of b m \<noteq> None \<longrightarrow> map_of ps m = record_keeper.original b m"
    using pin_keeps [OF p f1 d1] o1 k1 by auto
  have b': "b' = b2\<lparr>outcomes := tl (outcomes b2), quarantine_file := Doc (PDict (marked_complete st'))\<rparr>"
    using write_record_Inr [OF w] .
  obtain conf where conf: "render_maintenance_caddy_config hosts = Inr conf"
    "caddy_live b1 = Some conf" "all_stopped b1"
    using go_dark_Inr [OF d] by blast
  have "running_now b2 = running_now b1" "caddy_live b2 = caddy_live b1"
    by (rule keepsD [OF keeps_pin p]; simp)+
  then have "caddy_live b' = Some conf" "all_stopped b'"
    using conf by (simp_all add: all_stopped_running b')
  moreover have "\<forall>m. policy_of b' m \<in> {None, Some ''no''}" using no by (simp add: b' policy_of_def)
  moreover have "\<exists>d. quarantine_file b' = Doc (PDict d) \<and> dget d ''action_complete'' = Some (PBool True)"
    by (simp add: b' marked_complete_def dget_or_def split: option.splits)
  moreover have "quarantine_originals b' = ps" by (simp add: quarantine_originals_def b' st')
  ultimately show ?thesis using conf(1) ps by simp
qed

end
