(* ===== verification/Lifecycle.thy ===== *)
theory Lifecycle
  imports Cve_Quarantine
begin

text \<open>
  \<^verbatim>\<open>src/boxmunge/lifecycle.py\<close> and the reading of the marker in
  \<^verbatim>\<open>src/boxmunge/userns/marker.py\<close>: why a project may not be changed, and what an operator
  is told.  The source's dash is written \<open>--\<close>.
\<close>

section \<open>The migration marker\<close>

definition shim :: string where
  "shim = ''sudo /opt/boxmunge/bin/boxmunge-upgrade''"

definition migration_in_progress :: "box \<Rightarrow> string option" where
  "migration_in_progress b = (case migration_marker b of
     None \<Rightarrow> None
   | Some content \<Rightarrow> (let finish = py_strip content in
       Some (if finish = [] then ''userns-migrate'' else finish)))"

definition set_marker :: "string \<Rightarrow> box \<Rightarrow> box" where
  "set_marker finish b = b\<lparr>migration_marker := Some (finish @ [CHR 0x0A])\<rparr>"

definition clear_marker :: "box \<Rightarrow> box" where
  "clear_marker b = b\<lparr>migration_marker := None\<rparr>"

section \<open>Blocks\<close>

text \<open>The name between single quotes.\<close>

definition quoted :: "string \<Rightarrow> string" where
  "quoted s = [CHR 0x27] @ s @ [CHR 0x27]"

datatype block_reason = Br_Paused | Br_Quarantined | Br_Migrating

fun block_reason_value :: "block_reason \<Rightarrow> string" where
  "block_reason_value Br_Paused = ''paused''"
| "block_reason_value Br_Quarantined = ''quarantined''"
| "block_reason_value Br_Migrating = ''migrating''"

record block =
  bl_reason :: block_reason
  bl_detail :: pydict
  bl_refuse_message :: string
  bl_skip_message :: string

text \<open>\<open>f"{cve}"\<close> of a recorded value: \<open>Unmodelled\<close> where its text is not followed.\<close>

definition recorded_cve_text :: "pydict \<Rightarrow> box_error raised + string" where
  "recorded_cve_text st = (case py_str (dget_or st ''cve_id'' (PStr ''<unknown>'')) of
     Some s \<Rightarrow> Inr s | None \<Rightarrow> Inl (Crash Unmodelled))"

definition lifecycle_block :: "string \<Rightarrow> block option act" where
  "lifecycle_block project b =
     (if is_quarantined b then
        abind read_quarantine_state (\<lambda>st0.
          let st = or_else st0 [] in
          abind (alift (recorded_cve_text st)) (\<lambda>cve. aret (Some
          \<lparr> bl_reason = Br_Quarantined, bl_detail = st,
            bl_refuse_message = ''Project '' @ quoted project @ '' is CVE-quarantined ('' @ cve @ ''). ''
              @ ''Deploy a fixed release (prod-deploy or promote; its images are scanned first), ''
              @ ''or run `boxmunge security resume '' @ project @ ''` once the images it would start ''
              @ ''are clean.'',
            bl_skip_message = ''Skipped quarantined project '' @ quoted project
              @ '' -- deploy a fixed release or use `boxmunge security resume` to lift'' \<rparr>))) b
      else if is_paused b then
        abind read_paused_state (\<lambda>st0. aret (Some
          \<lparr> bl_reason = Br_Paused, bl_detail = or_else st0 [],
            bl_refuse_message = ''Project '' @ quoted project @ '' is paused. Run `boxmunge resume ''
              @ project @ ''` to bring back online.'',
            bl_skip_message = ''Skipped paused project '' @ quoted project \<rparr>)) b
      else (Inr None, b))"

definition is_blocked :: "string \<Rightarrow> block option act" where
  "is_blocked project b = (case migration_in_progress b of
     Some finish \<Rightarrow> (Inr (Some
       \<lparr> bl_reason = Br_Migrating, bl_detail = [(PStr ''finish'', PStr finish)],
         bl_refuse_message = ''Project '' @ quoted project @ '' cannot be changed while the Docker daemon's ''
           @ ''user-namespace migration is in progress or stopped part-way. The ''
           @ ''supervisor finishes it: '' @ shim @ '' '' @ finish,
         bl_skip_message = ''Skipped '' @ quoted project @ '': a userns migration is in progress (''
           @ shim @ '' '' @ finish @ '' finishes it)'' \<rparr>), b)
   | None \<Rightarrow> lifecycle_block project b)"

definition migration_refusal :: "string \<Rightarrow> box \<Rightarrow> string option" where
  "migration_refusal what b = map_option (\<lambda>finish. what
     @ '' cannot run while the Docker daemon's user-namespace migration is in ''
     @ ''progress or stopped part-way. The supervisor finishes it: '' @ shim @ '' '' @ finish)
     (migration_in_progress b)"

text \<open>The answer, with what is printed: refusals go to the error output.\<close>

definition refuse_if_blocked :: "string \<Rightarrow> bool \<Rightarrow> (bool \<times> string) act" where
  "refuse_if_blocked project ships_fix = abind (is_blocked project) (\<lambda>bl. case bl of
     None \<Rightarrow> aret (False, [])
   | Some k \<Rightarrow> (\<lambda>b.
       if ships_fix \<and> bl_reason k = Br_Quarantined then
         (if \<not> is_paused b then
            abind (alift (recorded_cve_text (bl_detail k))) (\<lambda>cve. aret (False,
              ''  '' @ project @ '' is CVE-quarantined ('' @ cve @ ''): the images this release would start ''
              @ ''are scanned before anything starts, and the release is refused if a ''
              @ ''quarantine-level finding remains.'')) b
          else (Inr (True, ''ERROR: Project '' @ quoted project @ '' is paused and CVE-quarantined. A deploy ''
              @ ''does not end a pause: run `boxmunge security resume '' @ project @ ''` once ''
              @ ''its images are clean (it stays paused), then `boxmunge resume '' @ project @ ''`.''), b))
       else (Inr (True, ''ERROR: '' @ bl_refuse_message k), b)))"

section \<open>Who is let through\<close>

lemma read_paused_same: "read_paused_state b = (r, b') \<Longrightarrow> b' = b"
  by (auto simp: read_paused_state_def)

lemma lifecycle_block_same: "lifecycle_block project b = (r, b') \<Longrightarrow> b' = b"
  by (auto simp: lifecycle_block_def abind_def alift_def read_quarantine_state_def read_paused_state_def Let_def
      split: if_splits sum.splits prod.splits)

lemma is_blocked_same: "is_blocked project b = (r, b') \<Longrightarrow> b' = b"
  by (auto simp: is_blocked_def dest: lifecycle_block_same split: option.splits)

lemma lifecycle_block_reason:
  assumes "lifecycle_block project b = (Inr bl, b')"
  shows "map_option bl_reason bl = (if is_quarantined b then Some Br_Quarantined
    else if is_paused b then Some Br_Paused else None)"
  using assms
  by (auto simp: lifecycle_block_def abind_def alift_def Let_def
      split: if_splits sum.splits prod.splits)

lemma is_blocked_reason:
  assumes "is_blocked project b = (Inr bl, b')"
  shows "map_option bl_reason bl = (if migration_marker b \<noteq> None then Some Br_Migrating
    else if is_quarantined b then Some Br_Quarantined
    else if is_paused b then Some Br_Paused else None)"
  using assms lifecycle_block_reason [of project b bl b']
  by (auto simp: is_blocked_def migration_in_progress_def Let_def split: option.splits)

text \<open>C34. What may change a project.  Whatever the operation, a migration in progress and the operator's
  own pause refuse it; a quarantine refuses everything but a release that may carry its fix; and
  asking never changes the box, even where a record cannot be read (then the question itself
  fails and nothing is let through).\<close>

theorem refusal_exact:
  assumes "refuse_if_blocked project ships_fix b = (r, b')"
  shows "b' = b \<and> (\<forall>refused msg. r = Inr (refused, msg) \<longrightarrow>
    (refused \<longleftrightarrow> migration_marker b \<noteq> None \<or> is_paused b \<or> (is_quarantined b \<and> \<not> ships_fix)))"
proof -
  obtain q b1 where q: "is_blocked project b = (q, b1)" by fastforce
  have b1: "b1 = b" by (rule is_blocked_same [OF q])
  show ?thesis
  proof (cases q)
    case (Inl e)
    then show ?thesis using assms q b1 by (auto simp: refuse_if_blocked_def abind_def)
  next
    case (Inr bl)
    note why = is_blocked_reason [OF q [unfolded Inr]]
    show ?thesis
    proof (cases bl)
      case None
      then show ?thesis using assms q b1 Inr why
        by (auto simp: refuse_if_blocked_def abind_def split: if_splits)
    next
      case (Some k)
      have "b' = b \<and> (\<forall>refused msg. r = Inr (refused, msg) \<longrightarrow>
          (refused \<longleftrightarrow> \<not> (ships_fix \<and> bl_reason k = Br_Quarantined \<and> \<not> is_paused b)))"
        using assms q b1 Inr Some
        by (auto simp: refuse_if_blocked_def abind_def alift_def split: if_splits sum.splits prod.splits)
      then show ?thesis using why Some by (auto split: if_splits)
    qed
  qed
qed

theorem refusal_exact_witness:
  "\<exists>msg. refuse_if_blocked ''shop'' True (web_box\<lparr>pause_file := Doc (PDict [])\<rparr>)
     = (Inr (True, msg), web_box\<lparr>pause_file := Doc (PDict [])\<rparr>)"
proof -
  let ?b = "web_box\<lparr>pause_file := Doc (PDict [])\<rparr>"
  obtain r b' where run: "refuse_if_blocked ''shop'' True ?b = (r, b')" by fastforce
  have p: "is_paused ?b" by (simp add: is_paused_def)
  have "\<exists>x. r = Inr x" using run
    by (auto simp: refuse_if_blocked_def abind_def is_blocked_def migration_in_progress_def web_box_def
        lifecycle_block_def is_quarantined_def is_paused_def read_paused_state_def read_state_def aret_def)
  then obtain x msg where "r = Inr (x, msg)" by auto
  with refusal_exact [OF run] p run show ?thesis by auto
qed

text \<open>What the marker says is what finishes the migration.\<close>

lemma marker_roundtrip:
  "py_strip finish = finish \<Longrightarrow> finish \<noteq> [] \<Longrightarrow> migration_in_progress (set_marker finish b) = Some finish"
proof -
  assume s: "py_strip finish = finish" and ne: "finish \<noteq> []"
  define t where "t = dropWhile py_isspace finish"
  have nl: "py_isspace (CHR 0x0A)" by (simp add: py_isspace_def code_def)
  have first: "\<not> py_isspace (hd finish)"
  proof
    assume sp: "py_isspace (hd finish)"
    have "length (py_strip finish) \<le> length t"
      by (simp add: py_strip_def t_def length_dropWhile_le [THEN order_trans])
    moreover have "length t < length finish" using ne sp unfolding t_def
      by (cases finish) (auto simp: length_dropWhile_le le_imp_less_Suc)
    ultimately show False using s by simp
  qed
  then have "dropWhile py_isspace (finish @ [CHR 0x0A]) = finish @ [CHR 0x0A]"
    "dropWhile py_isspace finish = finish" using ne by (cases finish; simp)+
  then have "py_strip (finish @ [CHR 0x0A]) = py_strip finish" using nl by (simp add: py_strip_def)
  then show ?thesis using s ne by (simp add: migration_in_progress_def set_marker_def Let_def)
qed

end
