(* ===== verification/Cve_Scan_State.thy ===== *)
theory Cve_Scan_State
  imports Cve_Policy
begin

text \<open>
  \<^verbatim>\<open>src/boxmunge/cve/scan_state.py\<close>: the file a scan's decisions are kept in, its age
  check, the headline of a stored scan and the decisions read back for the
  comparison with the next scan.
\<close>

section \<open>Writing\<close>

definition opt_str_doc :: "string option \<Rightarrow> pyval" where
  "opt_str_doc s = (case s of None \<Rightarrow> PNone | Some x \<Rightarrow> PStr x)"

definition serialize_disposition :: "finding_disposition \<Rightarrow> pydict" where
  "serialize_disposition d = (let f = fd_finding d in
     [(PStr ''cve_id'', PStr (cve_id f)),
      (PStr ''base_severity'', PStr (severity_value (base_severity d))),
      (PStr ''effective_severity'', PStr (severity_value (effective_severity d))),
      (PStr ''hardening_penalty'', PInt (int (hardening_penalty d))),
      (PStr ''disposition'', PStr (disposition_value (disposition d))),
      (PStr ''explanation'', PStr (explanation d)),
      (PStr ''fix_available'', PBool (fix_available f)),
      (PStr ''fixed_version'', opt_str_doc (fixed_version f)),
      (PStr ''package'', PStr (package f)),
      (PStr ''primary_url'', opt_str_doc (primary_url f)),
      (PStr ''title'', PStr (title f)),
      (PStr ''installed_version'', PStr (installed_version f)),
      (PStr ''attack_vector'', opt_str_doc (map_option attack_vector_value (attack_vector f))),
      (PStr ''status'', PStr (vuln_status_value (status f))),
      (PStr ''pkg_class'', PStr (pkg_class_value (pkg_class f))),
      (PStr ''pkg_type'', opt_str_doc (pkg_type f)),
      (PStr ''kev_listed'', PBool (kev_listed d)),
      (PStr ''fix_would_quarantine'', PBool (fix_would_quarantine d)),
      (PStr ''hardening_would_quarantine'', PBool (hardening_would_quarantine d))])"

definition serialize_decision :: "project_decision \<Rightarrow> pydict" where
  "serialize_decision p =
     [(PStr ''image_ref'', PStr (pd_image_ref p)),
      (PStr ''findings'', PList (map (PDict \<circ> serialize_disposition) (pd_findings p)))]"

definition basis_containers :: string where "basis_containers = ''containers''"
definition basis_startup_images :: string where "basis_startup_images = ''startup_images''"

definition scan_state_doc :: "project_decision list \<Rightarrow> datetime \<Rightarrow> string list \<Rightarrow> string
    \<Rightarrow> string option \<Rightarrow> pydict" where
  "scan_state_doc decisions when unscanned basis stopped =
     [(PStr ''scanned_at'', PStr (datetime_iso when)),
      (PStr ''basis'', PStr basis),
      (PStr ''stopped_reason'', opt_str_doc stopped),
      (PStr ''decisions'', PList (map (PDict \<circ> serialize_decision) decisions)),
      (PStr ''unscanned'', PList (map PStr unscanned))]"

datatype scan_state_error = Scan_State_Write_Error

definition write_scan_state :: "bool \<Rightarrow> project_decision list \<Rightarrow> datetime \<Rightarrow> string list \<Rightarrow> string
    \<Rightarrow> string option \<Rightarrow> scan_state_error + json_file" where
  "write_scan_state can_write decisions when unscanned basis stopped =
     (case atomic_write can_write (PDict (scan_state_doc decisions when unscanned basis stopped)) of
        Inl _ \<Rightarrow> Inl Scan_State_Write_Error
      | Inr file \<Rightarrow> Inr file)"

section \<open>The age of a scan\<close>

text \<open>\<open>SCAN_MAX_AGE\<close>, 36 hours in microseconds.\<close>

definition scan_max_age :: int where "scan_max_age = 36 * 3600 * 1000000"

text \<open>What the returned line says; the text of the parse error is the library's.\<close>

datatype scan_problem_kind = Never_Scanned | State_Unreadable | Last_Scanned int int
  | Scan_Incomplete "string list"

definition problem_text :: "string \<Rightarrow> string \<Rightarrow> scan_problem_kind \<Rightarrow> string" where
  "problem_text project err k = project @ (case k of
     Never_Scanned \<Rightarrow> '': never scanned''
   | State_Unreadable \<Rightarrow> '': scan state unreadable ('' @ err @ '')''
   | Last_Scanned d h \<Rightarrow> '': last scanned '' @ show_int d @ ''d '' @ show_int h @ ''h ago''
   | Scan_Incomplete us \<Rightarrow> '': last scan incomplete ('' @ join ''; '' us @ '')'')"

text \<open>\<open>join\<close> needs texts: another member of \<open>unscanned\<close> raises TypeError.\<close>

fun text_member :: "pyval \<Rightarrow> py_exc + string" where
  "text_member (PStr s) = Inr s"
| "text_member _ = Inl TypeError"

definition scan_problem :: "json_file \<Rightarrow> datetime \<Rightarrow> py_exc + scan_problem_kind option" where
  "scan_problem file now = (case file of
     Absent \<Rightarrow> Inr (Some Never_Scanned)
   | Doc (PDict d) \<Rightarrow>
       (case dget d ''scanned_at'' of
          Some (PStr s) \<Rightarrow>
            (case datetime_from_iso s of
               None \<Rightarrow> Inr (Some State_Unreadable)
             | Some t \<Rightarrow>
                 (let age = instant now - instant (as_utc t) in
                  if scan_max_age < age
                  then Inr (Some (Last_Scanned (age div 86400000000)
                                               (age mod 86400000000 div 3600000000)))
                  else let unscanned = py_or (dget_or d ''unscanned'' PNone) (PList []) in
                    if \<not> py_truthy unscanned then Inr None
                    else rbind (py_iter unscanned) (\<lambda>vs.
                         rbind (rmap text_member vs) (\<lambda>us. Inr (Some (Scan_Incomplete us))))))
        | _ \<Rightarrow> Inr (Some State_Unreadable))
   | _ \<Rightarrow> Inr (Some State_Unreadable))"

section \<open>Stored words\<close>

definition severity_from_stored :: "pyval \<Rightarrow> severity" where
  "severity_from_stored v =
     or_else (List.find (\<lambda>s. PStr (severity_value s) = v) all_severities) Sev_Unknown"

definition stored_severities :: "pydict \<Rightarrow> severity \<times> severity" where
  "stored_severities raw =
     (severity_from_stored (dget_or raw ''base_severity'' (PStr ''Unknown'')),
      severity_from_stored (dget_or raw ''effective_severity'' (PStr ''Unknown'')))"

definition status_from_stored :: "pyval \<Rightarrow> vuln_status" where
  "status_from_stored v =
     or_else (List.find (\<lambda>s. PStr (vuln_status_value s) = v) all_vuln_statuses) VS_Unknown"

definition pkg_class_from_stored :: "pyval \<Rightarrow> py_exc + pkg_class" where
  "pkg_class_from_stored v = (if is_pstr v then pkg_class_from_trivy v else Inr PC_Unknown)"

definition attack_vector_from_stored :: "pyval \<Rightarrow> attack_vector option" where
  "attack_vector_from_stored v =
     List.find (\<lambda>a. PStr (attack_vector_value a) = v) all_attack_vectors"

definition deserialize_disposition :: "pyval \<Rightarrow> py_exc + disposition" where
  "deserialize_disposition v =
     (case List.find (\<lambda>d. PStr (disposition_value d) = v) all_dispositions of
        None \<Rightarrow> Inl ValueError | Some d \<Rightarrow> Inr d)"

section \<open>Reading back\<close>

text \<open>A field read as it stands, which a scan writes as text or null.\<close>

fun raw_opt_str :: "pyval \<Rightarrow> py_exc + string option" where
  "raw_opt_str PNone = Inr None"
| "raw_opt_str (PStr s) = Inr (Some s)"
| "raw_opt_str _ = Inl Unmodelled"

text \<open>\<open>int(value or 0)\<close> for the penalty; a text or a negative number is not followed.\<close>

fun penalty_of :: "pyval \<Rightarrow> py_exc + nat" where
  "penalty_of (PInt n) = (if 0 \<le> n then Inr (nat n) else Inl Unmodelled)"
| "penalty_of (PBool b) = Inr (if b then 1 else 0)"
| "penalty_of PNone = Inr 0"
| "penalty_of (PStr s) = (if s = [] then Inr 0 else Inl Unmodelled)"
| "penalty_of (PFloat q) = (if 0 \<le> q then Inr (nat \<lfloor>q\<rfloor>) else Inl Unmodelled)"
| "penalty_of (PList xs) = (if xs = [] then Inr 0 else Inl TypeError)"
| "penalty_of (PDict d) = (if d = [] then Inr 0 else Inl TypeError)"
| "penalty_of _ = Inl TypeError"

definition stored_finding :: "pydict \<Rightarrow> severity \<Rightarrow> py_exc + finding" where
  "stored_finding raw base =
     rbind (str_field (dget_or raw ''cve_id'' (PStr []))) (\<lambda>cve.
     rbind (str_field (py_or (dget_or raw ''package'' (PStr [])) (PStr []))) (\<lambda>pkg.
     rbind (str_field (py_or (dget_or raw ''installed_version'' (PStr [])) (PStr []))) (\<lambda>ver.
     rbind (raw_opt_str (dget_or raw ''fixed_version'' PNone)) (\<lambda>fix_version.
     rbind (str_field (py_or (dget_or raw ''title'' (PStr [])) (PStr []))) (\<lambda>ttl.
     rbind (raw_opt_str (dget_or raw ''primary_url'' PNone)) (\<lambda>url.
     rbind (pkg_class_from_stored (dget_or raw ''pkg_class'' PNone)) (\<lambda>cls.
     rbind (raw_opt_str (dget_or raw ''pkg_type'' PNone)) (\<lambda>typ.
     Inr \<lparr> cve_id = cve, severity = base, package = pkg, installed_version = ver,
           fixed_version = fix_version, title = ttl, primary_url = url,
           attack_vector = attack_vector_from_stored (dget_or raw ''attack_vector'' PNone),
           status = status_from_stored (dget_or raw ''status'' PNone),
           vendor_severities = [], severity_source = None,
           pkg_class = cls, pkg_type = typ \<rparr>))))))))"

definition stored_disposition :: "pyval \<Rightarrow> py_exc + finding_disposition" where
  "stored_disposition v = (case v of
     PDict raw \<Rightarrow>
       (let (base, effective) = stored_severities raw in
        rbind (case dget raw ''disposition'' of None \<Rightarrow> Inl KeyError | Some w \<Rightarrow> deserialize_disposition w)
          (\<lambda>disp.
        rbind (stored_finding raw base) (\<lambda>f.
        rbind (penalty_of (dget_or raw ''hardening_penalty'' (PInt 0))) (\<lambda>pen.
        rbind (str_field (py_or (dget_or raw ''explanation'' (PStr [])) (PStr []))) (\<lambda>expl.
        Inr \<lparr> fd_finding = f, base_severity = base, hardening_penalty = pen,
              effective_severity = effective, disposition = disp, fd_suppression = None,
              explanation = expl,
              kev_listed = (dget_or raw ''kev_listed'' PNone = PBool True),
              fix_would_quarantine = (dget_or raw ''fix_would_quarantine'' PNone = PBool True),
              hardening_would_quarantine =
                (dget_or raw ''hardening_would_quarantine'' PNone = PBool True) \<rparr>)))))
   | _ \<Rightarrow> Inl AttributeError)"

definition stored_decision :: "string \<Rightarrow> datetime \<Rightarrow> pyval \<Rightarrow> py_exc + project_decision" where
  "stored_decision project when v =
     rbind (py_get_or v ''image_ref'' (PStr [])) (\<lambda>ref0.
     rbind (str_field ref0) (\<lambda>ref.
     rbind (py_get_or v ''findings'' (PList [])) (\<lambda>fs0.
     rbind (py_iter (py_or fs0 (PList []))) (\<lambda>raws.
     rbind (rmap stored_disposition raws) (\<lambda>ds.
     Inr \<lparr> pd_project = project, pd_image_ref = ref, pd_findings = ds,
           quarantine_required = list_ex (\<lambda>d. disposition d = Quarantine) ds,
           at_risk_running = list_ex (\<lambda>d. disposition d = Still_Running_At_Risk) ds,
           pd_scanned_at = when \<rparr>)))))"

definition decisions_from_scan_state :: "pydict \<Rightarrow> string \<Rightarrow> py_exc + project_decision list" where
  "decisions_from_scan_state st project =
     (let when_iso = dget_or st ''scanned_at'' PNone in
      if \<not> py_truthy when_iso then Inl ValueError
      else case when_iso of
        PStr s \<Rightarrow>
          (case datetime_from_iso s of
             None \<Rightarrow> Inl ValueError
           | Some t \<Rightarrow>
               rbind (py_iter (py_or (dget_or st ''decisions'' (PList [])) (PList []))) (\<lambda>raws.
               rmap (stored_decision project (as_utc t)) raws))
      | _ \<Rightarrow> Inl TypeError)"

section \<open>The headline of a stored scan\<close>

definition stored_rank :: "pyval \<Rightarrow> py_exc + nat" where
  "stored_rank v = (if py_hashable v
     then Inr (or_else (map_option severity_rank
            (List.find (\<lambda>s. PStr (severity_value s) = v) all_severities)) 0)
     else Inl TypeError)"

definition headline_step :: "pyval option \<Rightarrow> pyval \<Rightarrow> py_exc + pyval option" where
  "headline_step best f =
     rbind (py_get f ''disposition'') (\<lambda>disp.
       if disp \<noteq> PStr (disposition_value Quarantine) then Inr best
       else case best of
         None \<Rightarrow> Inr (Some f)
       | Some h \<Rightarrow>
           rbind (py_get f ''effective_severity'') (\<lambda>s.
           rbind (stored_rank s) (\<lambda>r.
           rbind (py_get h ''effective_severity'') (\<lambda>t.
           rbind (stored_rank t) (\<lambda>q. Inr (Some (if q < r then f else h)))))))"

definition headline_from_scan_state :: "pydict \<Rightarrow> py_exc + pyval option" where
  "headline_from_scan_state st =
     rbind (py_iter (dget_or st ''decisions'' (PList []))) (\<lambda>decisions.
     rfold (\<lambda>best dec.
         rbind (py_get_or dec ''findings'' (PList [])) (\<lambda>fs.
         rbind (py_iter fs) (rfold headline_step best))) None decisions)"

section \<open>Words come back\<close>

lemma stored_words [simp]:
  "severity_from_stored (PStr (severity_value s)) = s"
  "status_from_stored (PStr (vuln_status_value v)) = v"
  "pkg_class_from_stored (PStr (pkg_class_value c)) = Inr c"
  "attack_vector_from_stored (opt_str_doc (map_option attack_vector_value a)) = a"
  "deserialize_disposition (PStr (disposition_value d)) = Inr d"
proof -
  show "severity_from_stored (PStr (severity_value s)) = s"
    by (cases s) (simp_all add: severity_from_stored_def all_severities_def or_else_def)
  show "status_from_stored (PStr (vuln_status_value v)) = v"
    by (cases v) (simp_all add: status_from_stored_def all_vuln_statuses_def or_else_def)
  show "pkg_class_from_stored (PStr (pkg_class_value c)) = Inr c"
    by (cases c) (simp_all add: pkg_class_from_stored_def pkg_class_from_trivy_def
        trivy_class_map_def or_else_def py_lower_def py_strip_def lower_char_def py_isspace_def
        is_upper_az_def code_def)
  show "attack_vector_from_stored (opt_str_doc (map_option attack_vector_value a)) = a"
  proof (cases a)
    case (Some x)
    then show ?thesis
      by (cases x) (simp_all add: attack_vector_from_stored_def all_attack_vectors_def opt_str_doc_def)
  qed (simp add: attack_vector_from_stored_def all_attack_vectors_def opt_str_doc_def)
  show "deserialize_disposition (PStr (disposition_value d)) = Inr d"
    by (cases d) (simp_all add: deserialize_disposition_def all_dispositions_def)
qed

lemma raw_opt_str_doc [simp]: "raw_opt_str (opt_str_doc s) = Inr s"
  by (cases s) (simp_all add: opt_str_doc_def)

lemma str_or_empty [simp]: "str_field (py_or (PStr s) (PStr [])) = Inr s"
  by (simp add: py_or_def)

text \<open>What the file keeps of a decision.\<close>

definition kept_finding :: "severity \<Rightarrow> finding \<Rightarrow> finding" where
  "kept_finding base f = f\<lparr>severity := base, vendor_severities := [], severity_source := None\<rparr>"

definition kept_disposition :: "finding_disposition \<Rightarrow> finding_disposition" where
  "kept_disposition d = d\<lparr>fd_finding := kept_finding (base_severity d) (fd_finding d),
     fd_suppression := None\<rparr>"

definition kept_decision :: "string \<Rightarrow> datetime \<Rightarrow> project_decision \<Rightarrow> project_decision" where
  "kept_decision project when p =
     (let ds = map kept_disposition (pd_findings p) in
      \<lparr> pd_project = project, pd_image_ref = pd_image_ref p, pd_findings = ds,
        quarantine_required = list_ex (\<lambda>d. disposition d = Quarantine) ds,
        at_risk_running = list_ex (\<lambda>d. disposition d = Still_Running_At_Risk) ds,
        pd_scanned_at = when \<rparr>)"

lemma serialized_get [simp]:
  "dget (serialize_disposition d) ''cve_id'' = Some (PStr (cve_id (fd_finding d)))"
  "dget (serialize_disposition d) ''base_severity'' = Some (PStr (severity_value (base_severity d)))"
  "dget (serialize_disposition d) ''effective_severity'' = Some (PStr (severity_value (effective_severity d)))"
  "dget (serialize_disposition d) ''hardening_penalty'' = Some (PInt (int (hardening_penalty d)))"
  "dget (serialize_disposition d) ''disposition'' = Some (PStr (disposition_value (disposition d)))"
  "dget (serialize_disposition d) ''explanation'' = Some (PStr (explanation d))"
  "dget (serialize_disposition d) ''fixed_version'' = Some (opt_str_doc (fixed_version (fd_finding d)))"
  "dget (serialize_disposition d) ''package'' = Some (PStr (package (fd_finding d)))"
  "dget (serialize_disposition d) ''primary_url'' = Some (opt_str_doc (primary_url (fd_finding d)))"
  "dget (serialize_disposition d) ''title'' = Some (PStr (title (fd_finding d)))"
  "dget (serialize_disposition d) ''installed_version'' = Some (PStr (installed_version (fd_finding d)))"
  "dget (serialize_disposition d) ''attack_vector''
     = Some (opt_str_doc (map_option attack_vector_value (attack_vector (fd_finding d))))"
  "dget (serialize_disposition d) ''status'' = Some (PStr (vuln_status_value (status (fd_finding d))))"
  "dget (serialize_disposition d) ''pkg_class'' = Some (PStr (pkg_class_value (pkg_class (fd_finding d))))"
  "dget (serialize_disposition d) ''pkg_type'' = Some (opt_str_doc (pkg_type (fd_finding d)))"
  "dget (serialize_disposition d) ''kev_listed'' = Some (PBool (kev_listed d))"
  "dget (serialize_disposition d) ''fix_would_quarantine'' = Some (PBool (fix_would_quarantine d))"
  "dget (serialize_disposition d) ''hardening_would_quarantine''
     = Some (PBool (hardening_would_quarantine d))"
  by (simp_all add: serialize_disposition_def Let_def dget_def)

lemma stored_finding_serialized:
  "stored_finding (serialize_disposition d) base = Inr (kept_finding base (fd_finding d))"
  by (simp add: stored_finding_def dget_or_def kept_finding_def)

lemma stored_disposition_serialized:
  "stored_disposition (PDict (serialize_disposition d)) = Inr (kept_disposition d)"
  using stored_finding_serialized [of d]
  by (simp add: stored_disposition_def stored_severities_def kept_disposition_def dget_or_def)

text \<open>The codec of one finding, of which one decision and the whole file are built.\<close>

interpretation disposition_codec: doc_codec "PDict \<circ> serialize_disposition" "\<lambda>_. stored_disposition"
    "\<lambda>d. d = kept_disposition d"
  by unfold_locales (simp add: stored_disposition_serialized)

lemma stored_findings_serialized:
  "rmap stored_disposition (map (PDict \<circ> serialize_disposition) ds) = Inr (map kept_disposition ds)"
  by (induction ds) (simp_all add: stored_disposition_serialized)

lemma py_iter_or_list [simp]: "py_iter (py_or (PList xs) (PList [])) = Inr xs"
  by (simp add: py_or_def)

lemma stored_decision_serialized:
  "stored_decision project when (PDict (serialize_decision p)) = Inr (kept_decision project when p)"
  using stored_findings_serialized [of "pd_findings p"]
  by (simp add: stored_decision_def serialize_decision_def dget_or_def dget_def kept_decision_def Let_def)

lemma stored_decisions_serialized:
  "rmap (stored_decision project when) (map (PDict \<circ> serialize_decision) ps)
   = Inr (map (kept_decision project when) ps)"
  by (induction ps) (simp_all add: stored_decision_serialized)

lemma scan_state_get [simp]:
  "dget (scan_state_doc ps when us basis stopped) ''scanned_at'' = Some (PStr (datetime_iso when))"
  "dget (scan_state_doc ps when us basis stopped) ''decisions''
     = Some (PList (map (PDict \<circ> serialize_decision) ps))"
  "dget (scan_state_doc ps when us basis stopped) ''unscanned'' = Some (PList (map PStr us))"
  by (simp_all add: scan_state_doc_def dget_def)

lemma datetime_iso_ne [simp]: "datetime_iso t \<noteq> []"
  by (simp add: datetime_iso_def date_iso_def pad4_def)

text \<open>C40. A scan's decisions survive their file: what the next scan compares against holds every image,
  every finding in order, with its severities, disposition, penalty, texts, fix, vector,
  status, class and flags as decided, and the two project flags recomputed from them agree;
  only the vendor ratings and the exemption's details are given up.\<close>

theorem scan_state_roundtrip:
  assumes "valid_datetime when"
    and "write_scan_state True ps when us basis stopped = Inr (Doc (PDict d))"
  shows "decisions_from_scan_state d project = Inr (map (kept_decision project (as_utc when)) ps)"
proof -
  have d: "d = scan_state_doc ps when us basis stopped"
    using assms(2) by (simp add: write_scan_state_def atomic_write_def)
  show ?thesis
    using stored_decisions_serialized [of project "as_utc when" ps] datetime_iso_roundtrip [OF assms(1)]
    by (simp add: decisions_from_scan_state_def d dget_or_def)
qed

definition scan_night :: datetime where
  "scan_night = \<lparr> dt_date = Date 2026 7 1, dt_hour = 3, dt_minute = 0, dt_second = 0, dt_micro = 0,
     dt_offset = Some 0 \<rparr>"

lemma scan_night_valid: "valid_datetime scan_night"
  by (simp add: scan_night_def valid_datetime_def valid_date_def days_in_month_def)

definition example_decision :: project_decision where
  "example_decision = \<lparr> pd_project = ''shop'', pd_image_ref = ''shop-web:1'', pd_findings =
     [\<lparr> fd_finding = \<lparr> cve_id = ''CVE-2024-0001'', severity = Sev_High, package = ''openssl'',
          installed_version = ''1'', fixed_version = None, title = [], primary_url = None,
          attack_vector = Some AV_Network, status = VS_Affected, vendor_severities = [],
          severity_source = None, pkg_class = PC_Os, pkg_type = None \<rparr>,
        base_severity = Sev_High, hardening_penalty = 1, effective_severity = Sev_Critical,
        disposition = Quarantine, fd_suppression = None, explanation = ''x'', kev_listed = False,
        fix_would_quarantine = False, hardening_would_quarantine = False \<rparr>],
     quarantine_required = True, at_risk_running = False, pd_scanned_at = scan_night \<rparr>"

theorem scan_state_roundtrip_witness:
  "\<exists>d. write_scan_state True [example_decision] scan_night [] basis_containers None = Inr (Doc (PDict d))
     \<and> decisions_from_scan_state d ''shop'' = Inr [example_decision]"
proof -
  let ?d = "scan_state_doc [example_decision] scan_night [] basis_containers None"
  have w: "write_scan_state True [example_decision] scan_night [] basis_containers None = Inr (Doc (PDict ?d))"
    by (simp add: write_scan_state_def atomic_write_def)
  have "kept_decision ''shop'' (as_utc scan_night) example_decision = example_decision"
    by (simp add: kept_decision_def example_decision_def kept_disposition_def kept_finding_def
        as_utc_def scan_night_def Let_def)
  then show ?thesis using scan_state_roundtrip [OF scan_night_valid w, of "''shop''"] w by auto
qed

text \<open>A project's scan counts as current exactly when it was recorded at most 36 hours before and left
  nothing unscanned.\<close>

theorem scan_current_iff:
  assumes "valid_datetime when"
    and "write_scan_state True ps when us basis stopped = Inr file"
  shows "scan_problem file now = Inr None \<longleftrightarrow>
    instant now - instant (as_utc when) \<le> 36 * 3600 * 1000000 \<and> us = []"
proof -
  have f: "file = Doc (PDict (scan_state_doc ps when us basis stopped))"
    using assms(2) by (simp add: write_scan_state_def atomic_write_def)
  have m: "rmap text_member (map PStr us) = Inr us" by (induction us) auto
  show ?thesis
    using datetime_iso_roundtrip [OF assms(1)] m
    by (cases us) (auto simp: f scan_problem_def scan_max_age_def Let_def dget_or_def py_or_def)
qed

theorem scan_current_iff_witness:
  "scan_problem (Doc (PDict (scan_state_doc [] scan_night [] basis_containers None))) scan_night = Inr None"
proof -
  have "write_scan_state True [] scan_night [] basis_containers None
      = Inr (Doc (PDict (scan_state_doc [] scan_night [] basis_containers None)))"
    by (simp add: write_scan_state_def atomic_write_def)
  from scan_current_iff [OF scan_night_valid this, of scan_night] show ?thesis
    by (simp add: as_utc_def scan_night_def)
qed

section \<open>The headline\<close>

definition stored_severity_rank :: "finding_disposition \<Rightarrow> nat" where
  "stored_severity_rank d = severity_rank (effective_severity d)"

definition better_headline :: "finding_disposition option \<Rightarrow> finding_disposition \<Rightarrow> finding_disposition option" where
  "better_headline best d =
     (if disposition d \<noteq> Quarantine then best
      else case best of None \<Rightarrow> Some d
        | Some h \<Rightarrow> Some (if stored_severity_rank h < stored_severity_rank d then d else h))"

abbreviation disp_doc :: "finding_disposition \<Rightarrow> pyval" where
  "disp_doc d \<equiv> PDict (serialize_disposition d)"

lemma stored_rank_value [simp]: "stored_rank (PStr (severity_value s)) = Inr (severity_rank s)"
  by (cases s) (simp_all add: stored_rank_def all_severities_def or_else_def)

lemma disposition_value_quarantine: "disposition_value a = ''quarantine'' \<longleftrightarrow> a = Quarantine"
  by (cases a) simp_all

lemma headline_step_doc:
  "headline_step (map_option disp_doc best) (disp_doc d) = Inr (map_option disp_doc (better_headline best d))"
  by (cases best) (auto simp: headline_step_def better_headline_def dget_or_def stored_severity_rank_def
      disposition_value_quarantine)

lemma headline_fold:
  "rfold headline_step (map_option disp_doc best) (map (PDict \<circ> serialize_disposition) ds)
   = Inr (map_option disp_doc (foldl better_headline best ds))"
  by (induction ds arbitrary: best) (simp_all add: headline_step_doc)

lemma headline_decisions:
  "rfold (\<lambda>best dec. rbind (py_get_or dec ''findings'' (PList [])) (\<lambda>fs.
       rbind (py_iter fs) (rfold headline_step best))) (map_option disp_doc best)
     (map (PDict \<circ> serialize_decision) ps)
   = Inr (map_option disp_doc (foldl better_headline best (concat (map pd_findings ps))))"
proof (induction ps arbitrary: best)
  case (Cons p ps)
  then show ?case
    by (simp add: serialize_decision_def [of p] dget_or_def dget_def headline_fold)
qed simp

lemma better_headline_fold:
  "(case foldl better_headline best ds of
      None \<Rightarrow> best = None \<and> (\<forall>d\<in>set ds. disposition d \<noteq> Quarantine)
    | Some h \<Rightarrow> (h \<in> set ds \<and> disposition h = Quarantine \<or> best = Some h)
        \<and> (\<forall>d\<in>set ds. disposition d = Quarantine \<longrightarrow> effective_severity d \<le> effective_severity h)
        \<and> (\<forall>b. best = Some b \<longrightarrow> effective_severity b \<le> effective_severity h))"
proof (induction ds arbitrary: best)
  case Nil
  then show ?case by (auto split: option.splits)
next
  case (Cons d ds)
  show ?case
    using Cons [of "better_headline best d"]
    by (cases best)
      (auto simp: better_headline_def stored_severity_rank_def severity_rank_le not_less [symmetric]
        less_severity_def [symmetric] split: option.splits if_splits)
qed

text \<open>The headline of a stored scan is a finding of the scan that quarantines and that no other one
  that quarantines is more severe than; there is none exactly when nothing quarantines.\<close>

theorem headline_most_severe:
  "\<exists>r. headline_from_scan_state (scan_state_doc ps when us basis stopped) = Inr r
   \<and> (case r of
        None \<Rightarrow> Quarantine \<notin> disposition ` set (concat (map pd_findings ps))
      | Some v \<Rightarrow> \<exists>h. v = PDict (serialize_disposition h)
          \<and> h \<in> set (concat (map pd_findings ps)) \<and> disposition h = Quarantine
          \<and> {d \<in> set (concat (map pd_findings ps)). disposition d = Quarantine
               \<and> effective_severity h < effective_severity d} = {})"
proof -
  let ?all = "concat (map pd_findings ps)"
  have e: "headline_from_scan_state (scan_state_doc ps when us basis stopped)
      = Inr (map_option disp_doc (foldl better_headline None ?all))"
    using headline_decisions [of None ps]
    by (simp add: headline_from_scan_state_def dget_or_def)
  show ?thesis
  proof (cases "foldl better_headline None ?all")
    case None
    with better_headline_fold [of None ?all] have "Quarantine \<notin> disposition ` set ?all"
      by (auto simp del: set_concat)
    with None e show ?thesis by simp
  next
    case (Some h)
    with better_headline_fold [of None ?all] have "h \<in> set ?all" "disposition h = Quarantine"
      "\<forall>d\<in>set ?all. disposition d = Quarantine \<longrightarrow> effective_severity d \<le> effective_severity h"
      by (simp_all del: set_concat)
    moreover from this(3) have "{d \<in> set ?all. disposition d = Quarantine
        \<and> effective_severity h < effective_severity d} = {}"
      using leD by blast
    ultimately have "\<exists>g. disp_doc h = PDict (serialize_disposition g) \<and> g \<in> set ?all
        \<and> disposition g = Quarantine \<and> {d \<in> set ?all. disposition d = Quarantine
           \<and> effective_severity g < effective_severity d} = {}"
      by blast
    then show ?thesis unfolding e Some option.map by (intro exI [of _ "Some (disp_doc h)"]) simp
  qed
qed

end
