(* ===== verification/Scan_Inputs.thy ===== *)
theory Scan_Inputs
  imports Lifecycle Cve_Hardening Cve_Scan_State
begin

text \<open>
  \<^verbatim>\<open>src/boxmunge/commands/security_scan_inputs.py\<close> and \<^verbatim>\<open>src/boxmunge/deployed_inventory.py\<close>:
  what a project's scan reads.  The resolved Compose models, Docker's containers
  and its local images are given; \<^verbatim>\<open>src/boxmunge/commands/health_state.py\<close> gives the
  monitor's stop, \<^verbatim>\<open>src/boxmunge/docker_containers.py\<close> the container.
\<close>

datatype scan_input_error =
    Sec_Not_Mapping | Bad_Posture policy_error | Bad_Disable_Quarantine pyval
  | Project_Suppressions sup_error | Host_Suppressions sup_error
  | Inventory_Failed | Docker_Failed | Box_Raised box_error

type_synonym 'a input = "scan_input_error raised + 'a"

definition from_py :: "py_exc + 'a \<Rightarrow> 'e raised + 'a" where
  "from_py r = (case r of Inl x \<Rightarrow> Inl (Crash x) | Inr y \<Rightarrow> Inr y)"

lemma from_py_Inr [simp]: "from_py r = Inr y \<longleftrightarrow> r = Inr y"
  by (cases r) (auto simp: from_py_def)

lemma from_py_simps [simp]: "from_py (Inl x) = Inl (Crash x)" "from_py (Inr y) = Inr y"
  by (simp_all add: from_py_def)

section \<open>The manifest's facts\<close>

record project_meta =
  pm_manifest :: pydict
  pm_posture_str :: pyval
  pm_posture :: posture
  pm_dangerously :: bool
  pm_declared_runtimes :: pyval
  pm_hosts :: "string list"
  pm_compose_files :: "string list"

definition project_meta :: "pydict \<Rightarrow> string list \<Rightarrow> project_meta input" where
  "project_meta manifest compose_files =
     (case py_or (dget_or manifest ''security'' PNone) (PDict []) of
        PDict sec \<Rightarrow>
          (let posture_str = py_or (dget_or sec ''posture'' PNone) (PStr ''balanced'') in
           case parse_posture posture_str of
             Inl e \<Rightarrow> Inl (Raised (Bad_Posture e))
           | Inr p \<Rightarrow>
               (case dget_or sec ''dangerously_disable_quarantine'' (PBool False) of
                  PBool ddq \<Rightarrow>
                    rbind (from_py (py_iter (py_or (dget_or manifest ''hosts'' PNone) (PList [])))) (\<lambda>hs.
                    rbind (from_py (rmap str_field hs)) (\<lambda>hosts.
                    Inr \<lparr> pm_manifest = manifest, pm_posture_str = posture_str, pm_posture = p,
                          pm_dangerously = ddq,
                          pm_declared_runtimes = dget_or sec ''runtimes'' PNone,
                          pm_hosts = hosts, pm_compose_files = compose_files \<rparr>))
                | v \<Rightarrow> Inl (Raised (Bad_Disable_Quarantine v))))
      | _ \<Rightarrow> Inl (Raised Sec_Not_Mapping))"

text \<open>\<open>ProjectMeta.policy\<close>: \<open>sorted\<close> of a declared list of names; another value is not followed.\<close>

definition declared_names :: "pyval \<Rightarrow> py_exc + string list option" where
  "declared_names v = (case v of
     PNone \<Rightarrow> Inr None
   | PList xs \<Rightarrow> rbind (rmap str_field xs) (\<lambda>ns. Inr (Some ns))
   | _ \<Rightarrow> Inl Unmodelled)"

definition meta_policy :: "project_meta \<Rightarrow> py_exc + sec_policy" where
  "meta_policy m = rbind (declared_names (pm_declared_runtimes m)) (\<lambda>rs.
     Inr (security_policy (pm_posture m) (pm_dangerously m) rs))"

text \<open>\<open>project_compose_files\<close>: the overlay counts once it is generated.\<close>

definition project_compose_files :: "bool \<Rightarrow> string list" where
  "project_compose_files overlay_exists =
     ''compose.yml'' # (if overlay_exists then [''compose.boxmunge.yml''] else [])"

section \<open>Hardening\<close>

record project_hardening =
  ph_applied :: hardening_profile
  ph_upcoming :: "upcoming_hardening option"

text \<open>
  \<open>security or {}\<close>: a block that is neither empty nor a mapping is refused when
  the manifest is deployed, and not followed.
\<close>

definition sec_block :: "pyval \<Rightarrow> py_exc + pydict" where
  "sec_block v = (if \<not> py_truthy v then Inr []
     else case v of PDict d \<Rightarrow> Inr d | _ \<Rightarrow> Inl Unmodelled)"

definition declared_services :: "pydict \<Rightarrow> py_exc + pydict" where
  "declared_services manifest = (case py_or (dget_or manifest ''services'' PNone) (PDict []) of
     PDict d \<Rightarrow> Inr d | _ \<Rightarrow> Inl AttributeError)"

definition service_entry_sec :: "pyval option \<Rightarrow> pyval" where
  "service_entry_sec entry = (case entry of Some (PDict e) \<Rightarrow> dget_or e ''security'' PNone | _ \<Rightarrow> PNone)"

text \<open>One service: what the overlay applies to it, and whether it gives it a read-only root.\<close>

definition overlay_service :: "pydict \<Rightarrow> pydict \<Rightarrow> pyval \<Rightarrow> py_exc + (pyval \<times> settings \<times> bool)" where
  "overlay_service project_sec declared svc =
     (let entry = map_of declared svc in
      rbind (sec_block (service_entry_sec entry)) (\<lambda>svc_sec.
      rbind (resolve_security project_sec svc_sec) (\<lambda>applied.
      Inr (svc, applied, (case entry of Some (PDict _) \<Rightarrow>
             effective_profile project_sec svc_sec \<noteq> PStr profile_off | _ \<Rightarrow> False)))))"

definition overlay_view :: "project_meta \<Rightarrow> pyval list \<Rightarrow> py_exc + (pyval \<times> settings \<times> bool) list" where
  "overlay_view m services =
     rbind (sec_block (dget_or (pm_manifest m) ''security'' PNone)) (\<lambda>project_sec.
     rbind (declared_services (pm_manifest m)) (\<lambda>declared.
     rmap (overlay_service project_sec declared) services))"

definition strict_profile :: "project_meta \<Rightarrow> pydict \<Rightarrow> py_exc + hardening_profile" where
  "strict_profile m model =
     rbind (overlay_view m (map fst (compose_services model))) (\<lambda>view.
     Inr (effective_hardening_profile model (map_of (map (\<lambda>(s, a, ro). (s, a)) view))
            (fst ` set (filter (\<lambda>(s, a, ro). ro) view))))"

definition legacy_profile :: "project_meta \<Rightarrow> pydict \<Rightarrow> hardening_profile" where
  "legacy_profile m model =
     hardening_profile_from_compose model
       (Some (fst ` set (compose_services model) - fst ` set (services_with_off_profile (pm_manifest m))))"

definition strict_hardening_penalty_enforced :: bool where
  "strict_hardening_penalty_enforced = False"

definition one_service :: "pyval \<times> pyval \<Rightarrow> pydict" where
  "one_service entry = [(PStr ''services'', PDict [entry])]"

definition stricter_service :: "project_meta \<Rightarrow> pyval \<times> pyval \<Rightarrow> py_exc + string list" where
  "stricter_service m entry =
     rbind (strict_profile m (one_service entry)) (\<lambda>s.
     if calculate_hardening_penalty (legacy_profile m (one_service entry)) < calculate_hardening_penalty s
     then rbind (str_field (fst entry)) (\<lambda>n. Inr [n]) else Inr [])"

definition hardening_profile_of :: "project_meta \<Rightarrow> pydict \<Rightarrow> py_exc + project_hardening" where
  "hardening_profile_of m user_model =
     rbind (strict_profile m user_model) (\<lambda>strict.
     if strict_hardening_penalty_enforced then Inr \<lparr> ph_applied = strict, ph_upcoming = None \<rparr>
     else let legacy = legacy_profile m user_model in
       if calculate_hardening_penalty strict \<le> calculate_hardening_penalty legacy
       then Inr \<lparr> ph_applied = legacy, ph_upcoming = None \<rparr>
       else rbind (rmap (stricter_service m) (compose_services user_model)) (\<lambda>names.
         Inr \<lparr> ph_applied = legacy,
               ph_upcoming = Some \<lparr> up_profile = strict, up_services = concat names \<rparr> \<rparr>))"

section \<open>Exemptions\<close>

definition load_all_suppressions :: "json_file \<Rightarrow> json_file \<Rightarrow> suppression list input" where
  "load_all_suppressions project_file host_file =
     (case load_suppressions scope_project project_file of
        Inl e \<Rightarrow> Inl (Raised (Project_Suppressions e))
      | Inr ps \<Rightarrow> (case load_suppressions scope_host host_file of
          Inl e \<Rightarrow> Inl (Raised (Host_Suppressions e))
        | Inr hs \<Rightarrow> Inr (ps @ hs)))"

section \<open>What is deployed\<close>

record project_container =
  pc_name :: string
  pc_service :: string
  pc_image_id :: string
  pc_repo_digests :: "string list"
  pc_running :: bool
  pc_oneoff :: bool
  pc_exit_code :: "int option"
  pc_restart_policy :: string

record local_image =
  li_image_id :: string
  li_repo_digests :: "string list"

definition exact_ref :: "string \<Rightarrow> string list \<Rightarrow> string" where
  "exact_ref image_id digests = (case digests of [] \<Rightarrow> image_id | d # _ \<Rightarrow> d)"

definition container_ref :: "project_container \<Rightarrow> string" where
  "container_ref c = exact_ref (pc_image_id c) (pc_repo_digests c)"

definition image_ref_of :: "local_image \<Rightarrow> string" where
  "image_ref_of i = exact_ref (li_image_id i) (li_repo_digests i)"

record deployed_service =
  ds_name :: string
  ds_image :: "string option"
  ds_buildable :: bool
  ds_expected :: bool
  ds_containers :: "project_container list"

record deployed_inventory =
  di_project :: string
  di_services :: "(string \<times> deployed_service) list"

text \<open>A model's services, each a mapping whose image is absent, null or a text.\<close>

definition service_model :: "pyval \<times> pyval \<Rightarrow> scan_input_error raised + string \<times> pydict" where
  "service_model entry = (case entry of
     (PStr name, PDict svc) \<Rightarrow>
       (case dget_or svc ''image'' PNone of
          PNone \<Rightarrow> Inr (name, svc)
        | PStr s \<Rightarrow> if s = [] then Inl (Raised Inventory_Failed) else Inr (name, svc)
        | _ \<Rightarrow> Inl (Raised Inventory_Failed))
   | (_, PDict _) \<Rightarrow> Inl (Crash Unmodelled)
   | _ \<Rightarrow> Inl (Raised Inventory_Failed))"

definition model_services :: "pydict \<Rightarrow> (string \<times> pydict) list input" where
  "model_services model = (case py_or (dget_or model ''services'' PNone) (PDict []) of
     PDict d \<Rightarrow> (if list_all (\<lambda>(_, s). is_pdict s) d then rmap service_model d
                else Inl (Raised Inventory_Failed))
   | _ \<Rightarrow> Inl (Raised Inventory_Failed))"

definition scaled_to_zero :: "pydict \<Rightarrow> bool" where
  "scaled_to_zero svc =
     (let replicas0 = (case dget_or svc ''deploy'' PNone of
            PDict d \<Rightarrow> dget_or d ''replicas'' PNone | _ \<Rightarrow> PNone);
          replicas = (if replicas0 = PNone then dget_or svc ''scale'' PNone else replicas0)
      in is_zero replicas)"

fun image_text :: "pyval \<Rightarrow> string option" where
  "image_text (PStr s) = Some s"
| "image_text _ = None"

text \<open>First occurrences, in order: the keys of \<open>dict.fromkeys\<close>.\<close>

definition first_keys :: "'a list \<Rightarrow> 'a list" where
  "first_keys xs = rev (remdups (rev xs))"

lemma set_first_keys [simp]: "set (first_keys xs) = set xs"
  by (simp add: first_keys_def)

lemma distinct_first_keys [simp]: "distinct (first_keys xs)"
  by (simp add: first_keys_def)

definition containers_of :: "project_container list \<Rightarrow> string \<Rightarrow> project_container list" where
  "containers_of listed n = filter (\<lambda>c. pc_service c = n) listed"

definition known_service :: "string list \<Rightarrow> project_container list \<Rightarrow> string \<times> pydict
    \<Rightarrow> string \<times> deployed_service" where
  "known_service active listed entry = (case entry of (n, svc) \<Rightarrow> (n,
     \<lparr> ds_name = n, ds_image = image_text (dget_or svc ''image'' PNone),
       ds_buildable = dhas svc ''build'',
       ds_expected = (n \<in> set active \<and> \<not> scaled_to_zero svc),
       ds_containers = containers_of listed n \<rparr>))"

definition leftover_service :: "project_container list \<Rightarrow> string \<Rightarrow> string \<times> deployed_service" where
  "leftover_service listed n = (n,
     \<lparr> ds_name = n, ds_image = None, ds_buildable = False, ds_expected = False,
       ds_containers = containers_of listed n \<rparr>)"

definition join_inventory :: "(string \<times> pydict) list \<Rightarrow> (string \<times> pydict) list
    \<Rightarrow> project_container list \<Rightarrow> (string \<times> deployed_service) list" where
  "join_inventory active every listed =
     map (known_service (map fst active) listed) every
     @ map (leftover_service listed)
         (filter (\<lambda>n. n \<notin> fst ` set every) (first_keys (map pc_service listed)))"

definition load_deployed_inventory ::
    "string \<Rightarrow> pydict option \<Rightarrow> pydict option \<Rightarrow> project_container list option
     \<Rightarrow> deployed_inventory input" where
  "load_deployed_inventory project active_model every_model listed =
     (case active_model of None \<Rightarrow> Inl (Raised Inventory_Failed) | Some am \<Rightarrow>
      rbind (model_services am) (\<lambda>active.
      case every_model of None \<Rightarrow> Inl (Raised Inventory_Failed) | Some em \<Rightarrow>
      rbind (model_services em) (\<lambda>every.
      case listed of None \<Rightarrow> Inl (Raised Inventory_Failed) | Some cs \<Rightarrow>
        Inr \<lparr> di_project = project, di_services = join_inventory active every cs \<rparr>)))"

definition startup_image_ref :: "string \<Rightarrow> deployed_service \<Rightarrow> string" where
  "startup_image_ref project svc = (case ds_image svc of
     Some s \<Rightarrow> if s = [] then project @ ''-'' @ ds_name svc else s
   | None \<Rightarrow> project @ ''-'' @ ds_name svc)"

section \<open>What to scan\<close>

record scan_target =
  st_service :: string
  st_image_ref :: string

datatype unidentified_why = No_Container | Not_In_Model | Not_In_Store string | No_Image_Ref
  | Not_After_Build string

record image_inventory =
  ii_basis :: string
  ii_stopped_reason :: "string option"
  ii_targets :: "scan_target list"
  ii_unidentified :: "(string \<times> unidentified_why) list"
  ii_not_started :: "string list"

definition manifest_first :: "pydict \<Rightarrow> deployed_inventory \<Rightarrow> py_exc + string list" where
  "manifest_first manifest deployed =
     rbind (py_iter (py_or (dget_or manifest ''services'' PNone) (PDict []))) (\<lambda>ks.
     rbind (rmap str_field ks) (\<lambda>names.
     Inr (names @ filter (\<lambda>n. n \<notin> set names) (map fst (di_services deployed)))))"

definition targets_of :: "string \<Rightarrow> string list \<Rightarrow> scan_target list" where
  "targets_of service refs = map (\<lambda>r. \<lparr> st_service = service, st_image_ref = r \<rparr>) refs"

definition identify_service :: "deployed_inventory \<Rightarrow> image_inventory \<Rightarrow> string \<Rightarrow> image_inventory" where
  "identify_service deployed acc service =
     (case map_of (di_services deployed) service of
        None \<Rightarrow> acc\<lparr>ii_unidentified := dset (ii_unidentified acc) service No_Container\<rparr>
      | Some svc \<Rightarrow>
          if ds_containers svc = [] then
            (if \<not> ds_expected svc then acc\<lparr>ii_not_started := ii_not_started acc @ [service]\<rparr>
             else acc\<lparr>ii_unidentified := dset (ii_unidentified acc) service No_Container\<rparr>)
          else acc\<lparr>ii_targets := ii_targets acc
                  @ targets_of service (first_keys (map container_ref (ds_containers svc)))\<rparr>)"

definition identify_images :: "pydict \<Rightarrow> deployed_inventory \<Rightarrow> py_exc + image_inventory" where
  "identify_images manifest deployed =
     rbind (manifest_first manifest deployed) (\<lambda>names.
     Inr (foldl (identify_service deployed)
       \<lparr> ii_basis = basis_containers, ii_stopped_reason = None, ii_targets = [],
         ii_unidentified = [], ii_not_started = [] \<rparr> names))"

text \<open>\<open>docker_containers.local_image\<close>: nothing, an image, or a DockerError.\<close>

type_synonym image_store = "string \<Rightarrow> local_image option option"

definition identify_startup :: "image_store \<Rightarrow> deployed_inventory \<Rightarrow> image_inventory \<Rightarrow> string
    \<Rightarrow> image_inventory input" where
  "identify_startup images deployed acc service =
     (case map_of (di_services deployed) service of
        None \<Rightarrow> Inr (acc\<lparr>ii_unidentified := dset (ii_unidentified acc) service Not_In_Model\<rparr>)
      | Some svc \<Rightarrow>
          let refs = first_keys (map container_ref (ds_containers svc)) in
          if ds_expected svc then
            (let ref = startup_image_ref (di_project deployed) svc in
             case images ref of
               None \<Rightarrow> Inl (Raised Docker_Failed)
             | Some None \<Rightarrow> Inr (acc\<lparr>ii_unidentified := dset (ii_unidentified acc) service (Not_In_Store ref),
                   ii_targets := ii_targets acc @ targets_of service refs\<rparr>)
             | Some (Some img) \<Rightarrow> Inr (acc\<lparr>ii_targets := ii_targets acc
                   @ targets_of service (first_keys (refs @ [image_ref_of img]))\<rparr>))
          else if refs = [] then Inr (acc\<lparr>ii_not_started := ii_not_started acc @ [service]\<rparr>)
          else Inr (acc\<lparr>ii_targets := ii_targets acc @ targets_of service refs\<rparr>))"

definition identify_startup_images :: "image_store \<Rightarrow> pydict \<Rightarrow> deployed_inventory \<Rightarrow> string
    \<Rightarrow> image_inventory input" where
  "identify_startup_images images manifest deployed why =
     rbind (from_py (manifest_first manifest deployed)) (\<lambda>names.
     rfold (identify_startup images deployed)
       \<lparr> ii_basis = basis_startup_images, ii_stopped_reason = Some why, ii_targets = [],
         ii_unidentified = [], ii_not_started = [] \<rparr> names)"

section \<open>The health monitor's stop\<close>

definition monitor_stopped_word :: string where "monitor_stopped_word = ''critical_stopped''"

text \<open>\<open>value.replace("Z", "+00:00")\<close> and the parse; \<open>Inr None\<close> for an absent or malformed text.\<close>

definition parse_ts :: "pyval \<Rightarrow> py_exc + datetime option" where
  "parse_ts v = (if \<not> py_truthy v then Inr None
     else case v of
       PStr s \<Rightarrow> Inr (map_option as_utc (datetime_from_iso
         (concat (map (\<lambda>c. if c = CHR ''Z'' then ''+00:00'' else [c]) s))))
     | _ \<Rightarrow> Inl AttributeError)"

definition stop_stands :: "pydict \<Rightarrow> json_file \<Rightarrow> box_error raised + bool" where
  "stop_stands st deploy_file =
     (if dget_or st ''status'' PNone \<noteq> PStr monitor_stopped_word then Inr False
      else rbind (from_py (parse_ts (dget_or st ''stopped_at'' (PStr [])))) (\<lambda>stopped.
           rbind (read_state deploy_file) (\<lambda>dep.
           rbind (from_py (parse_ts (dget_or dep ''last_started_at'' (PStr [])))) (\<lambda>started.
           Inr (case (stopped, started) of
             (Some s, Some t) \<Rightarrow> instant t \<le> instant s
           | _ \<Rightarrow> True)))))"

definition is_monitor_stopped :: "json_file \<Rightarrow> json_file \<Rightarrow> box_error raised + bool" where
  "is_monitor_stopped health_file deploy_file =
     rbind (read_state health_file) (\<lambda>st. stop_stands st deploy_file)"

definition stopped_reason :: "string \<Rightarrow> json_file \<Rightarrow> json_file \<Rightarrow> box \<Rightarrow> box_error raised + string option" where
  "stopped_reason project health_file deploy_file b =
     rbind (fst (is_blocked project b)) (\<lambda>bl. case bl of
       Some k \<Rightarrow> Inr (Some (block_reason_value (bl_reason k)))
     | None \<Rightarrow> rbind (is_monitor_stopped health_file deploy_file) (\<lambda>stopped.
         Inr (if stopped then Some ''stopped by the health monitor'' else None)))"

definition from_box :: "box_error raised + 'a \<Rightarrow> 'a input" where
  "from_box r = (case r of Inr x \<Rightarrow> Inr x
     | Inl (Raised e) \<Rightarrow> Inl (Raised (Box_Raised e)) | Inl (Crash x) \<Rightarrow> Inl (Crash x))"

definition identify :: "image_store \<Rightarrow> pydict \<Rightarrow> deployed_inventory input
    \<Rightarrow> box_error raised + string option \<Rightarrow> image_inventory input" where
  "identify images manifest deployed why =
     rbind deployed (\<lambda>dep.
     rbind (from_box why) (\<lambda>stopped. case stopped of
       None \<Rightarrow> from_py (identify_images manifest dep)
     | Some w \<Rightarrow> identify_startup_images images manifest dep w))"

section \<open>The previous scan\<close>

text \<open>\<open>read_scan_state\<close>, and the decisions for the comparison: none where the file cannot be used.\<close>

definition read_scan_state :: "json_file \<Rightarrow> box_error raised + pydict option" where
  "read_scan_state file = (case file of Absent \<Rightarrow> Inr None
     | _ \<Rightarrow> rbind (read_state file) (\<lambda>d. Inr (Some d)))"

definition last_scanned_at :: "json_file \<Rightarrow> box_error raised + string option" where
  "last_scanned_at file = rbind (read_scan_state file) (\<lambda>st. case st of
     None \<Rightarrow> Inr None
   | Some d \<Rightarrow> (case dget d ''scanned_at'' of Some (PStr s) \<Rightarrow> Inr (Some s)
       | _ \<Rightarrow> Inl (Raised State_Error)))"

definition load_prior_decisions :: "string \<Rightarrow> json_file \<Rightarrow> py_exc + project_decision list" where
  "load_prior_decisions project file = (case read_scan_state file of
     Inl _ \<Rightarrow> Inr []
   | Inr None \<Rightarrow> Inr []
   | Inr (Some d) \<Rightarrow> (case decisions_from_scan_state d project of
       Inr ps \<Rightarrow> Inr ps
     | Inl x \<Rightarrow> if x \<in> {ValueError, KeyError, TypeError, AttributeError} then Inr [] else Inl x))"

section \<open>Nothing that runs is left out\<close>

definition covered :: "deployed_inventory \<Rightarrow> image_inventory \<Rightarrow> string \<Rightarrow> bool" where
  "covered dep acc n \<longleftrightarrow> (case map_of (di_services dep) n of
     None \<Rightarrow> n \<in> fst ` set (ii_unidentified acc)
   | Some svc \<Rightarrow>
       (\<forall>c\<in>set (ds_containers svc).
          \<lparr> st_service = n, st_image_ref = container_ref c \<rparr> \<in> set (ii_targets acc))
       \<and> (ds_expected svc \<longrightarrow> n \<in> fst ` set (ii_unidentified acc)
            \<or> (\<exists>t\<in>set (ii_targets acc). st_service t = n)))"

definition grows :: "image_inventory \<Rightarrow> image_inventory \<Rightarrow> bool" where
  "grows a b \<longleftrightarrow> set (ii_targets a) \<subseteq> set (ii_targets b)
     \<and> fst ` set (ii_unidentified a) \<subseteq> fst ` set (ii_unidentified b)"

lemma fst_memI: "(a, b) \<in> set xs \<Longrightarrow> a \<in> fst ` set xs"
  by force

lemma grows_refl [simp]: "grows a a"
  by (simp add: grows_def)

lemma grows_trans: "grows a b \<Longrightarrow> grows b c \<Longrightarrow> grows a c"
  unfolding grows_def using subset_trans by metis

lemma covered_grows: "covered dep a n \<Longrightarrow> grows a b \<Longrightarrow> covered dep b n"
  by (auto simp: covered_def grows_def split: option.splits; blast)

lemma set_targets_of [simp]:
  "set (targets_of n refs) = (\<lambda>r. \<lparr> st_service = n, st_image_ref = r \<rparr>) ` set refs"
  by (simp add: targets_of_def)

lemma identify_service_step:
  "grows acc (identify_service dep acc n) \<and> covered dep (identify_service dep acc n) n"
proof (cases "map_of (di_services dep) n")
  case None
  then show ?thesis by (auto simp: identify_service_def grows_def covered_def)
next
  case (Some svc)
  then show ?thesis
    by (cases "ds_containers svc") (auto simp: identify_service_def grows_def covered_def)
qed

lemma identify_startup_step:
  assumes "identify_startup images dep acc n = Inr acc'"
  shows "grows acc acc' \<and> covered dep acc' n"
proof (cases "map_of (di_services dep) n")
  case None
  with assms have "acc' = acc\<lparr>ii_unidentified := dset (ii_unidentified acc) n Not_In_Model\<rparr>"
    by (simp add: identify_startup_def)
  with None show ?thesis by (auto simp: grows_def covered_def)
next
  case (Some svc)
  have refs: "first_keys (map container_ref (ds_containers svc)) = [] \<longleftrightarrow> ds_containers svc = []"
    by (metis set_first_keys set_empty list.map_disc_iff)
  show ?thesis using assms Some refs
    by (auto simp: identify_startup_def Let_def grows_def covered_def split: if_splits option.splits
        dest: fst_memI)
qed

lemma identify_fold:
  "rfold (identify_startup images dep) acc names = Inr acc' \<Longrightarrow>
   grows acc acc' \<and> (\<forall>n\<in>set names. covered dep acc' n)"
proof (induction names arbitrary: acc)
  case (Cons n names)
  then obtain a1 where "identify_startup images dep acc n = Inr a1"
    and rest: "rfold (identify_startup images dep) a1 names = Inr acc'"
    by (auto simp: rbind_eq_Inr)
  then have "grows acc a1" "covered dep a1 n" using identify_startup_step by blast+
  moreover have "grows a1 acc'" "\<forall>m\<in>set names. covered dep acc' m" using Cons.IH [OF rest] by blast+
  ultimately show ?case using grows_trans covered_grows by auto
qed simp

lemma identify_foldl:
  "grows acc (foldl (identify_service dep) acc names)
   \<and> (\<forall>n\<in>set names. covered dep (foldl (identify_service dep) acc names) n)"
proof (induction names arbitrary: acc)
  case (Cons n names)
  then show ?case
    using identify_service_step [of acc dep n] Cons.IH [of "identify_service dep acc n"]
    by (auto intro: grows_trans covered_grows)
qed simp

lemma identify_covers:
  assumes "identify images manifest (Inr dep) why = Inr acc" "n \<in> fst ` set (di_services dep)"
  shows "covered dep acc n"
proof -
  obtain names where "manifest_first manifest dep = Inr names" and "\<forall>m\<in>set names. covered dep acc m"
    using assms(1) identify_fold [of images dep _ _ acc] identify_foldl [of _ dep]
    by (fastforce simp: identify_def identify_images_def identify_startup_images_def rbind_eq_Inr
        split: option.splits)
  moreover have "n \<in> set names"
  proof -
    from calculation(1) obtain ns where "names = ns @ filter (\<lambda>n. n \<notin> set ns) (map fst (di_services dep))"
      by (auto simp: manifest_first_def rbind_eq_Inr)
    then show ?thesis using assms(2) by (cases "n \<in> set ns") simp_all
  qed
  ultimately show ?thesis by simp
qed

lemma join_containers:
  "(n, svc) \<in> set (join_inventory active every cs) \<Longrightarrow> ds_containers svc = containers_of cs n"
  by (auto simp: join_inventory_def known_service_def leftover_service_def)

lemma join_fst:
  "map fst (join_inventory active every cs) =
     map fst every @ filter (\<lambda>n. n \<notin> fst ` set every) (first_keys (map pc_service cs))"
  by (simp add: join_inventory_def known_service_def leftover_service_def split_def o_def)

lemma join_names: "c \<in> set cs \<Longrightarrow> pc_service c \<in> set (map fst (join_inventory active every cs))"
  unfolding join_fst by (cases "pc_service c \<in> fst ` set every") auto

lemma inventory_join:
  assumes "load_deployed_inventory project am em (Some cs) = Inr dep"
  obtains active every where "di_services dep = join_inventory active every cs"
  using assms by (auto simp: load_deployed_inventory_def rbind_eq_Inr split: option.splits)

text \<open>A scan never covers less than what is there: whatever the project's state, every container that
  Docker lists for it, of whatever service and even if no model or manifest names that service,
  is scanned by the exact image it was created from; and a service that \<open>up\<close> would start is
  scanned or named as unidentified.\<close>

theorem every_container_scanned:
  assumes "load_deployed_inventory project am em (Some cs) = Inr dep"
    and "identify images manifest (Inr dep) why = Inr acc"
  shows "(\<forall>c\<in>set cs. \<lparr> st_service = pc_service c, st_image_ref = container_ref c \<rparr> \<in> set (ii_targets acc))
    \<and> (\<forall>(n, svc)\<in>set (di_services dep). map_of (di_services dep) n = Some svc \<and> ds_expected svc \<longrightarrow>
         n \<in> fst ` set (ii_unidentified acc) \<or> (\<exists>t\<in>set (ii_targets acc). st_service t = n))"
proof
  show "\<forall>c\<in>set cs. \<lparr> st_service = pc_service c, st_image_ref = container_ref c \<rparr> \<in> set (ii_targets acc)"
  proof
    fix c
    assume c: "c \<in> set cs"
    have n: "pc_service c \<in> fst ` set (di_services dep)"
      using inventory_join [OF assms(1)] join_names [OF c] by (metis list.set_map)
    then obtain svc where svc: "map_of (di_services dep) (pc_service c) = Some svc"
      by (metis map_of_eq_None_iff not_None_eq)
    have "c \<in> set (ds_containers svc)"
    proof -
      obtain active every where "di_services dep = join_inventory active every cs"
        by (rule inventory_join [OF assms(1)])
      then have "ds_containers svc = containers_of cs (pc_service c)"
        using join_containers map_of_SomeD [OF svc] by metis
      then show ?thesis using c by (simp add: containers_of_def)
    qed
    then show "\<lparr> st_service = pc_service c, st_image_ref = container_ref c \<rparr> \<in> set (ii_targets acc)"
      using identify_covers [OF assms(2) n] svc by (auto simp: covered_def)
  qed
  have "n \<in> fst ` set (ii_unidentified acc) \<or> (\<exists>t\<in>set (ii_targets acc). st_service t = n)"
    if "(n, svc) \<in> set (di_services dep)" "map_of (di_services dep) n = Some svc" "ds_expected svc" for n svc
  proof -
    have "n \<in> fst ` set (di_services dep)" using that(1) by force
    from identify_covers [OF assms(2) this] that(2,3) show ?thesis by (auto simp: covered_def)
  qed
  then show "\<forall>(n, svc)\<in>set (di_services dep). map_of (di_services dep) n = Some svc \<and> ds_expected svc \<longrightarrow>
         n \<in> fst ` set (ii_unidentified acc) \<or> (\<exists>t\<in>set (ii_targets acc). st_service t = n)" by blast
qed

definition stray_container :: project_container where
  "stray_container = \<lparr> pc_name = ''shop-old-1'', pc_service = ''old'', pc_image_id = ''sha256:1'',
     pc_repo_digests = [], pc_running = True, pc_oneoff = False, pc_exit_code = None,
     pc_restart_policy = ''no'' \<rparr>"

theorem every_container_scanned_witness:
  "\<exists>dep acc. load_deployed_inventory ''shop'' (Some []) (Some []) (Some [stray_container]) = Inr dep
     \<and> identify (\<lambda>_. None) [] (Inr dep) (Inr None) = Inr acc
     \<and> \<lparr> st_service = ''old'', st_image_ref = ''sha256:1'' \<rparr> \<in> set (ii_targets acc)"
proof -
  obtain dep where d: "load_deployed_inventory ''shop'' (Some []) (Some []) (Some [stray_container]) = Inr dep"
    by (simp add: load_deployed_inventory_def model_services_def dget_or_def dget_def py_or_def Let_def)
  have "\<exists>acc. identify (\<lambda>_. None) [] (Inr dep) (Inr None) = Inr acc"
    by (simp add: identify_def from_box_def identify_images_def manifest_first_def dget_or_def
        dget_def py_or_def)
  then obtain acc where a: "identify (\<lambda>_. None) [] (Inr dep) (Inr None) = Inr acc" by blast
  from every_container_scanned [OF d a] d a show ?thesis
    by (auto simp: stray_container_def container_ref_def exact_ref_def)
qed

end
