(* ===== verification/Py_State.thy ===== *)
theory Py_State
  imports Py_Prelude
begin

text \<open>
  Code that changes a state and may end with an error, as a function from the
  state to a result and the state it leaves; and triples over such code.  A triple
  says what holds of the state however the code ends, so it serves for invariants
  that a failure or a kill must not break, and, with the false postcondition for
  an error, for total correctness.
\<close>

type_synonym ('s, 'e, 'a) st = "'s \<Rightarrow> ('e + 'a) \<times> 's"

named_theorems triples \<open>triples of the operations, used as introduction rules\<close>

definition sret :: "'a \<Rightarrow> ('s, 'e, 'a) st" where
  "sret x s = (Inr x, s)"

definition sraise :: "'e \<Rightarrow> ('s, 'e, 'a) st" where
  "sraise e s = (Inl e, s)"

definition sbind :: "('s, 'e, 'a) st \<Rightarrow> ('a \<Rightarrow> ('s, 'e, 'b) st) \<Rightarrow> ('s, 'e, 'b) st" where
  "sbind m f s = (case m s of (Inl e, s') \<Rightarrow> (Inl e, s') | (Inr x, s') \<Rightarrow> f x s')"

definition sthen :: "('s, 'e, unit) st \<Rightarrow> ('s, 'e, 'b) st \<Rightarrow> ('s, 'e, 'b) st" where
  "sthen m n = sbind m (\<lambda>_. n)"

definition sget :: "('s \<Rightarrow> 'a) \<Rightarrow> ('s, 'e, 'a) st" where
  "sget f s = (Inr (f s), s)"

text \<open>\<open>try: m except <those of C>: h\<close>.\<close>

definition scatch :: "('e \<Rightarrow> bool) \<Rightarrow> ('s, 'e, 'a) st \<Rightarrow> ('e \<Rightarrow> ('s, 'e, 'a) st) \<Rightarrow> ('s, 'e, 'a) st" where
  "scatch C m h s = (case m s of (Inl e, s') \<Rightarrow> if C e then h e s' else (Inl e, s') | r \<Rightarrow> r)"

definition swhen :: "bool \<Rightarrow> ('s, 'e, unit) st \<Rightarrow> ('s, 'e, unit) st" where
  "swhen b m = (if b then m else sret ())"

definition slift :: "'e + 'a \<Rightarrow> ('s, 'e, 'a) st" where
  "slift r s = (r, s)"

text \<open>A loop over a list, in order.\<close>

fun sfor :: "('b \<Rightarrow> ('s, 'e, unit) st) \<Rightarrow> 'b list \<Rightarrow> ('s, 'e, unit) st" where
  "sfor f [] = sret ()"
| "sfor f (x # xs) = sthen (f x) (sfor f xs)"

lemma sbind_Inr: "sbind m f s = (Inr y, t) \<longleftrightarrow> (\<exists>x s'. m s = (Inr x, s') \<and> f x s' = (Inr y, t))"
  by (auto simp: sbind_def split: prod.splits sum.splits)

lemma sbind_simps [simp]:
  "m s = (Inr x, s') \<Longrightarrow> sbind m f s = f x s'"
  "m s = (Inl e, s') \<Longrightarrow> sbind m f s = (Inl e, s')"
  by (simp_all add: sbind_def)

lemma sthen_simps [simp]:
  "m s = (Inr u, s') \<Longrightarrow> sthen m n s = n s'"
  "m s = (Inl e, s') \<Longrightarrow> sthen m n s = (Inl e, s')"
  by (simp_all add: sthen_def)

lemma sret_simps [simp]: "sret x s = (Inr x, s)" "sraise e s = (Inl e, s)" "sget g s = (Inr (g s), s)"
    "slift r s = (r, s)"
  by (simp_all add: sret_def sraise_def sget_def slift_def)

lemma swhen_simps [simp]: "swhen True m = m" "swhen False m = sret ()"
  by (simp_all add: swhen_def)

section \<open>Triples\<close>

definition triple :: "('s \<Rightarrow> bool) \<Rightarrow> ('s, 'e, 'a) st \<Rightarrow> ('a \<Rightarrow> 's \<Rightarrow> bool) \<Rightarrow> ('e \<Rightarrow> 's \<Rightarrow> bool) \<Rightarrow> bool" where
  "triple P m Q E \<longleftrightarrow> (\<forall>s. P s \<longrightarrow> (case m s of (Inr x, s') \<Rightarrow> Q x s' | (Inl e, s') \<Rightarrow> E e s'))"

lemma tripleI:
  assumes "\<And>s x s'. P s \<Longrightarrow> m s = (Inr x, s') \<Longrightarrow> Q x s'"
    and "\<And>s e s'. P s \<Longrightarrow> m s = (Inl e, s') \<Longrightarrow> E e s'"
  shows "triple P m Q E"
  unfolding triple_def by (simp add: assms split: prod.split sum.split)

lemma tripleD_Inr: "triple P m Q E \<Longrightarrow> P s \<Longrightarrow> m s = (Inr x, s') \<Longrightarrow> Q x s'"
  by (auto simp: triple_def)

lemma tripleD_Inl: "triple P m Q E \<Longrightarrow> P s \<Longrightarrow> m s = (Inl e, s') \<Longrightarrow> E e s'"
  by (auto simp: triple_def)

lemma triple_total:
  assumes "triple P m Q (\<lambda>_ _. False)" "P s"
  shows "\<exists>x s'. m s = (Inr x, s') \<and> Q x s'"
proof -
  obtain r s' where m: "m s = (r, s')" by fastforce
  then show ?thesis using tripleD_Inr [OF assms] tripleD_Inl [OF assms] by (cases r) auto
qed

lemma triple_bind:
  assumes "triple P m R E" "\<And>x. triple (R x) (f x) Q E"
  shows "triple P (sbind m f) Q E"
  unfolding triple_def
proof (intro allI impI)
  fix s assume P: "P s"
  obtain r s' where m: "m s = (r, s')" by fastforce
  show "case sbind m f s of (Inr x, s') \<Rightarrow> Q x s' | (Inl e, s') \<Rightarrow> E e s'"
  proof (cases r)
    case (Inl e)
    then show ?thesis using tripleD_Inl [OF assms(1) P] m by simp
  next
    case (Inr x)
    then show ?thesis using tripleD_Inr [OF assms(1) P] m assms(2) [of x]
      by (simp add: triple_def)
  qed
qed

lemma triple_then:
  assumes "triple P m (\<lambda>_. R) E" "triple R n Q E"
  shows "triple P (sthen m n) Q E"
  unfolding sthen_def using assms by (auto intro: triple_bind)

lemma triple_ret: "(\<And>s. P s \<Longrightarrow> Q x s) \<Longrightarrow> triple P (sret x) Q E"
  by (simp add: triple_def)

lemma triple_raise: "(\<And>s. P s \<Longrightarrow> E e s) \<Longrightarrow> triple P (sraise e) Q E"
  by (simp add: triple_def)

lemma triple_get: "(\<And>s. P s \<Longrightarrow> Q (f s) s) \<Longrightarrow> triple P (sget f) Q E"
  by (simp add: triple_def)

lemma triple_lift:
  "(\<And>s x. P s \<Longrightarrow> r = Inr x \<Longrightarrow> Q x s) \<Longrightarrow> (\<And>s e. P s \<Longrightarrow> r = Inl e \<Longrightarrow> E e s)
    \<Longrightarrow> triple P (slift r) Q E"
  by (cases r) (simp_all add: triple_def)

lemma triple_if:
  assumes "b \<Longrightarrow> triple P m Q E" "\<not> b \<Longrightarrow> triple P n Q E"
  shows "triple P (if b then m else n) Q E"
  using assms by simp

lemma triple_when:
  assumes "b \<Longrightarrow> triple P m Q E" "\<And>s. \<not> b \<Longrightarrow> P s \<Longrightarrow> Q () s"
  shows "triple P (swhen b m) Q E"
  using assms by (cases b) (auto intro: triple_ret)

lemma triple_catch:
  assumes "triple P m Q R" "\<And>e. C e \<Longrightarrow> triple (R e) (h e) Q E" "\<And>e s. \<not> C e \<Longrightarrow> R e s \<Longrightarrow> E e s"
  shows "triple P (scatch C m h) Q E"
  unfolding triple_def
proof (intro allI impI)
  fix s assume P: "P s"
  obtain r s' where m: "m s = (r, s')" by fastforce
  show "case scatch C m h s of (Inr x, s') \<Rightarrow> Q x s' | (Inl e, s') \<Rightarrow> E e s'"
  proof (cases r)
    case (Inl e)
    then show ?thesis using tripleD_Inl [OF assms(1) P] m assms(2,3) [of e]
      by (cases "C e") (auto simp: scatch_def triple_def)
  next
    case (Inr x)
    then show ?thesis using tripleD_Inr [OF assms(1) P] m by (simp add: scatch_def)
  qed
qed

lemma triple_pre: "triple P' m Q E \<Longrightarrow> (\<And>s. P s \<Longrightarrow> P' s) \<Longrightarrow> triple P m Q E"
  by (auto simp: triple_def)

lemma triple_post:
  assumes "triple P m Q' E'" "\<And>x s. Q' x s \<Longrightarrow> Q x s" "\<And>e s. E' e s \<Longrightarrow> E e s"
  shows "triple P m Q E"
  unfolding triple_def
proof (intro allI impI)
  fix s assume P: "P s"
  obtain r s' where m: "m s = (r, s')" by fastforce
  then show "case m s of (Inr x, s') \<Rightarrow> Q x s' | (Inl e, s') \<Rightarrow> E e s'"
    using tripleD_Inr [OF assms(1) P] tripleD_Inl [OF assms(1) P] assms(2,3) by (cases r) auto
qed

text \<open>A loop keeps an invariant of the list gone through and the list left.\<close>

lemma triple_for:
  assumes "\<And>ys x zs. xs = ys @ x # zs \<Longrightarrow> triple (I ys) (f x) (\<lambda>_. I (ys @ [x])) E"
  shows "triple (I []) (sfor f xs) (\<lambda>_. I xs) E"
proof -
  have "triple (I ys) (sfor f zs) (\<lambda>_. I xs) E" if "xs = ys @ zs" for ys zs
    using that
  proof (induction zs arbitrary: ys)
    case Nil
    show ?case unfolding sfor.simps by (rule triple_ret) (use Nil in simp)
  next
    case (Cons x zs)
    show ?case unfolding sfor.simps
      by (rule triple_then [OF assms [OF Cons.prems]]) (rule Cons.IH, simp add: Cons.prems)
  qed
  then show ?thesis using append_Nil by metis
qed

lemma triple_for_inv:
  assumes "\<And>x. x \<in> set xs \<Longrightarrow> triple I (f x) (\<lambda>_. I) E"
  shows "triple I (sfor f xs) (\<lambda>_. I) E"
  by (rule triple_for [where I = "\<lambda>_. I"]) (simp add: assms)

lemma triple_cases:
  assumes "\<And>s. P s \<Longrightarrow> b s \<Longrightarrow> m s = m1 s" "\<And>s. P s \<Longrightarrow> \<not> b s \<Longrightarrow> m s = m2 s"
    "triple (\<lambda>s. P s \<and> b s) m1 Q E" "triple (\<lambda>s. P s \<and> \<not> b s) m2 Q E"
  shows "triple P m Q E"
  unfolding triple_def
proof (intro allI impI)
  fix s assume "P s"
  then show "case m s of (Inr x, s') \<Rightarrow> Q x s' | (Inl e, s') \<Rightarrow> E e s'"
    using assms by (cases "b s") (auto simp: triple_def)
qed

section \<open>What an action leaves as it is\<close>

definition skeeps :: "('s \<Rightarrow> 'v) \<Rightarrow> ('s, 'e, 'a) st \<Rightarrow> bool" where
  "skeeps g m \<longleftrightarrow> (\<forall>s. g (snd (m s)) = g s)"

named_theorems skeeps_rules \<open>what the operations leave as it is\<close>

lemma skeepsD: "skeeps g m \<Longrightarrow> m s = (r, s') \<Longrightarrow> g s' = g s"
  unfolding skeeps_def by (metis snd_conv)

lemma skeepsI: "(\<And>s. g (snd (m s)) = g s) \<Longrightarrow> skeeps g m"
  by (simp add: skeeps_def)

lemma skeeps_basic [skeeps_rules]: "skeeps g (sret x)" "skeeps g (sraise e)" "skeeps g (sget f)" "skeeps g (slift r)"
  by (simp_all add: skeeps_def)

lemma skeeps_bind [skeeps_rules]:
  assumes "skeeps g m" "\<And>x. skeeps g (f x)"
  shows "skeeps g (sbind m f)"
proof (rule skeepsI)
  fix s
  obtain r s' where m: "m s = (r, s')" by fastforce
  show "g (snd (sbind m f s)) = g s"
    using skeepsD [OF assms(1) m] assms(2) m by (cases r) (auto simp: skeeps_def)
qed

lemma skeeps_then [skeeps_rules]: "skeeps g m \<Longrightarrow> skeeps g n \<Longrightarrow> skeeps g (sthen m n)"
  unfolding sthen_def by (rule skeeps_bind)

lemma skeeps_if [skeeps_rules]: "(b \<Longrightarrow> skeeps g m) \<Longrightarrow> (\<not> b \<Longrightarrow> skeeps g n) \<Longrightarrow> skeeps g (if b then m else n)"
  by simp

lemma skeeps_when [skeeps_rules]: "(b \<Longrightarrow> skeeps g m) \<Longrightarrow> skeeps g (swhen b m)"
  by (cases b) (simp_all add: skeeps_rules)

lemma skeeps_for [skeeps_rules]: "(\<And>x. x \<in> set xs \<Longrightarrow> skeeps g (f x)) \<Longrightarrow> skeeps g (sfor f xs)"
  by (induction xs) (simp_all add: skeeps_rules)

lemma skeeps_catch [skeeps_rules]:
  assumes "skeeps g m" "\<And>e. C e \<Longrightarrow> skeeps g (h e)"
  shows "skeeps g (scatch C m h)"
proof (rule skeepsI)
  fix s
  obtain r s' where m: "m s = (r, s')" by fastforce
  show "g (snd (scatch C m h s)) = g s"
    using skeepsD [OF assms(1) m] assms(2) m by (cases r) (auto simp: skeeps_def scatch_def)
qed

text \<open>A choice made by the state.\<close>

lemma skeeps_at: "(\<And>s. \<exists>m'. m s = m' s \<and> skeeps g m') \<Longrightarrow> skeeps g m"
  unfolding skeeps_def by (metis)

end
