(* ===== verification/Container_Update.thy ===== *)
theory Container_Update
  imports Update_Targets Run_As Scan_Inputs Py_State
begin

text \<open>
  \<^verbatim>\<open>src/boxmunge/container_update.py\<close>, \<^verbatim>\<open>src/boxmunge/user_drift.py\<close> and
  \<open>pulled_services\<close> of \<^verbatim>\<open>deployed_inventory.py\<close>: the update of one target under its
  lock.  The state is what the local image references name, the target's state
  file, the record of held back users and the list of the calls that change
  something.  Docker's answers, the backup and the clock are given; where an answer
  may differ from call to call it is a function of the calls before it.
\<close>

section \<open>Services and containers\<close>

definition is_platform_image :: "string \<Rightarrow> bool" where
  "is_platform_image ref \<longleftrightarrow>
     py_lower (takeWhile (\<lambda>c. c \<noteq> CHR '':'') (takeWhile (\<lambda>c. c \<noteq> CHR ''/'') (py_strip ref))) = ''boxmunge.invalid''"

type_synonym services = "(string \<times> deployed_service) list"

definition pulled_services :: "deployed_inventory \<Rightarrow> services" where
  "pulled_services inventory = filter (\<lambda>(n, svc). ds_expected svc
     \<and> (case ds_image svc of Some i \<Rightarrow> i \<noteq> [] \<and> \<not> is_platform_image i | None \<Rightarrow> False)
     \<and> \<not> ds_buildable svc) (di_services inventory)"

text \<open>The image of a service an update covers, which always has one.\<close>

definition service_image :: "deployed_service \<Rightarrow> string" where
  "service_image svc = (case ds_image svc of Some i \<Rightarrow> i | None \<Rightarrow> [])"

definition finished_cleanly :: "'a project_container_scheme \<Rightarrow> bool" where
  "finished_cleanly c \<longleftrightarrow> \<not> pc_running c \<and> pc_exit_code c = Some 0
     \<and> pc_restart_policy c \<in> {''no'', ''on-failure''}"

definition managed :: "'a project_container_scheme list \<Rightarrow> 'a project_container_scheme list" where
  "managed cs = filter (\<lambda>c. \<not> pc_oneoff c) cs"

datatype update_error =
    Update_No_Container string
  | Update_Different_Images string "string list"
  | Update_Not_In_Store string string

definition running_image :: "string \<times> deployed_service \<Rightarrow> update_error + string \<times> project_container" where
  "running_image entry = (case entry of (n, svc) \<Rightarrow>
     (case managed (ds_containers svc) of
        [] \<Rightarrow> Inl (Update_No_Container n)
      | c # cs \<Rightarrow>
          (let ids = sort (remdups (map pc_image_id (c # cs))) in
           if length ids > 1 then Inl (Update_Different_Images n ids) else Inr (n, c))))"

definition running_images :: "services \<Rightarrow> update_error + (string \<times> project_container) list" where
  "running_images services = rmap running_image services"

definition display_images :: "(string \<times> project_container) list \<Rightarrow> (string \<times> string) list" where
  "display_images running = map (\<lambda>(n, c). (n, container_ref c)) running"

definition one_shot_services :: "services \<Rightarrow> string list" where
  "one_shot_services services = map fst (filter (\<lambda>(n, svc).
     managed (ds_containers svc) \<noteq> [] \<and> list_all finished_cleanly (managed (ds_containers svc))) services)"

section \<open>Waiting for health\<close>

record run_container = project_container +
  rc_health :: "string option"

datatype service_health = Settled | Settling | Unhealthy

definition service_health_of :: "run_container list \<Rightarrow> string list \<Rightarrow> bool \<Rightarrow> string \<Rightarrow> service_health" where
  "service_health_of listing one_shots in_grace name =
     (let all = filter (\<lambda>c. pc_service c = name) (managed listing);
          containers = filter (\<lambda>c. \<not> (name \<in> set one_shots \<and> finished_cleanly c)) all in
      if all = [] then Unhealthy
      else if list_ex (\<lambda>c. \<not> pc_running c \<or> rc_health c = Some ''unhealthy'') containers then Unhealthy
      else if list_ex (\<lambda>c. rc_health c = Some ''starting'' \<or> rc_health c = None \<and> in_grace) containers then Settling
      else Settled)"

definition health_round :: "run_container list \<Rightarrow> string list \<Rightarrow> string list \<Rightarrow> bool \<Rightarrow> string list \<times> string list" where
  "health_round listing names one_shots in_grace =
     (filter (\<lambda>n. service_health_of listing one_shots in_grace n = Settling) names,
      filter (\<lambda>n. service_health_of listing one_shots in_grace n = Unhealthy) names)"

text \<open>
  One turn of the loop: the two readings of the clock since the start, in
  nanoseconds, and what Docker lists (\<open>None\<close> is a DockerError).  The verdict is
  \<open>None\<close> where the loop is still running when the given looks end.
\<close>

record look =
  lk_checked :: int
  lk_graced :: int
  lk_listing :: "run_container list option"

definition second :: int where "second = 1000000000"
definition healthcheck_timeout :: int where "healthcheck_timeout = 90 * second"
definition healthcheck_poll_interval :: int where "healthcheck_poll_interval = 3 * second"
definition no_healthcheck_grace :: int where "no_healthcheck_grace = 30 * second"

fun wait_rounds :: "look list \<Rightarrow> string list \<Rightarrow> string list \<Rightarrow> string list \<Rightarrow> (bool \<times> string list) option option" where
  "wait_rounds [] names one_shots settling = None"
| "wait_rounds (l # ls) names one_shots settling =
     (if healthcheck_timeout \<le> lk_checked l then Some (Some (False, settling))
      else case lk_listing l of
        None \<Rightarrow> Some None
      | Some listing \<Rightarrow>
          (case health_round listing names one_shots (lk_graced l < no_healthcheck_grace) of (settling', unhealthy) \<Rightarrow>
             if unhealthy \<noteq> [] then Some (Some (False, unhealthy))
             else if settling' = [] then Some (Some (True, []))
             else wait_rounds ls names one_shots settling'))"

section \<open>The state of an update\<close>

datatype up_outcome = Up_Done | Up_Refused | Up_Failed

datatype update_event =
    Pulled "string list"
  | Tagged string string
  | Tag_Failed string string
  | Drift_Alerted "(string \<times> string) list"
  | Backed_Up int
  | Recreated up_outcome

record update_state =
  us_images :: image_store
  us_drift :: json_file
  us_record :: json_file
  us_events :: "update_event list"

datatype update_raise =
    Docker_Error
  | Refused_Error
  | Users_Error run_as_error
  | Update_Error update_error
  | Inventory_Error scan_input_error
  | Box_Error box_error
  | Escapes py_exc
  | Still_Waiting

type_synonym 'a up = "(update_state, update_raise, 'a) st"

text \<open>
  \<open>ue_tag_of\<close> is the tag a reference names: \<open>nginx\<close> and \<open>nginx:latest\<close> are one.
  \<open>ue_pull\<close> says whether the pull succeeds and what the references name after it,
  \<open>ue_up_images\<close> what they name after an \<open>up\<close>, which pulls by the services' own
  policies (\<open>compose_up\<close> passes no \<open>--pull never\<close> here).
\<close>

record update_env =
  ue_block :: "box_error raised + block option"
  ue_stopped :: "box_error raised + bool"
  ue_inventory :: "deployed_inventory input"
  ue_pull :: "bool \<times> image_store"
  ue_tag_of :: "string \<Rightarrow> string"
  ue_digests :: "string \<Rightarrow> string list"
  ue_tag_ok :: "update_event list \<Rightarrow> bool"
  ue_image_user :: "string \<Rightarrow> string option"
  ue_users :: json_file
  ue_backup :: int
  ue_up :: "update_event list \<Rightarrow> up_outcome"
  ue_up_images :: "update_event list \<Rightarrow> image_store \<Rightarrow> image_store"
  ue_looks :: "update_event list \<Rightarrow> look list"
  ue_final :: "run_container list option"
  ue_now :: string
  ue_can_write :: bool

text \<open>ComposeRefused is a DockerError.\<close>

definition is_docker_error :: "update_raise \<Rightarrow> bool" where
  "is_docker_error e \<longleftrightarrow> e \<in> {Docker_Error, Refused_Error}"

definition is_update_error :: "update_raise \<Rightarrow> bool" where
  "is_update_error e \<longleftrightarrow> (case e of Update_Error _ \<Rightarrow> True | Inventory_Error _ \<Rightarrow> True | _ \<Rightarrow> False)"

definition is_users_error :: "update_raise \<Rightarrow> bool" where
  "is_users_error e \<longleftrightarrow> (case e of Users_Error _ \<Rightarrow> True | _ \<Rightarrow> False)"

text \<open>\<open>try: x = m except <those of C> as e\<close>, with the exception as a value.\<close>

definition attempt :: "(update_raise \<Rightarrow> bool) \<Rightarrow> 'a up \<Rightarrow> (update_raise + 'a) up" where
  "attempt C m = scatch C (sbind m (\<lambda>x. sret (Inr x))) (\<lambda>e. sret (Inl e))"

definition from_raised :: "('e \<Rightarrow> update_raise) \<Rightarrow> 'e raised + 'a \<Rightarrow> update_raise + 'a" where
  "from_raised f r = (case r of
     Inr x \<Rightarrow> Inr x | Inl (Raised e) \<Rightarrow> Inl (f e) | Inl (Crash x) \<Rightarrow> Inl (Escapes x))"

section \<open>Docker\<close>

definition local_image_now :: "string \<Rightarrow> local_image option up" where
  "local_image_now ref s = (case us_images s ref of None \<Rightarrow> (Inl Docker_Error, s) | Some i \<Rightarrow> (Inr i, s))"

definition compose_pull :: "update_env \<Rightarrow> string list \<Rightarrow> unit up" where
  "compose_pull env names s = (case ue_pull env of (ok, images) \<Rightarrow>
     (if ok then Inr () else Inl Docker_Error, s\<lparr>us_images := images, us_events := us_events s @ [Pulled names]\<rparr>))"

definition tag_image :: "update_env \<Rightarrow> string \<Rightarrow> string \<Rightarrow> unit up" where
  "tag_image env image_id ref s =
     (if ue_tag_ok env (us_events s) then (Inr (), s\<lparr>
        us_images := (\<lambda>r. if ue_tag_of env r = ue_tag_of env ref
          then Some (Some \<lparr> li_image_id = image_id, li_repo_digests = ue_digests env image_id \<rparr>) else us_images s r),
        us_events := us_events s @ [Tagged image_id ref]\<rparr>)
      else (Inl Docker_Error, s\<lparr>us_events := us_events s @ [Tag_Failed image_id ref]\<rparr>))"

text \<open>A refused start runs no \<open>up\<close>; one that fails may have pulled before it did.\<close>

definition recreate :: "update_env \<Rightarrow> unit up" where
  "recreate env s = (let outcome = ue_up env (us_events s) in
     ((case outcome of Up_Done \<Rightarrow> Inr () | Up_Refused \<Rightarrow> Inl Refused_Error | Up_Failed \<Rightarrow> Inl Docker_Error),
      s\<lparr>us_images := (if outcome = Up_Refused then us_images s else ue_up_images env (us_events s) (us_images s)),
        us_events := us_events s @ [Recreated outcome]\<rparr>))"

definition backup_locked :: "update_env \<Rightarrow> int up" where
  "backup_locked env s = (Inr (ue_backup env), s\<lparr>us_events := us_events s @ [Backed_Up (ue_backup env)]\<rparr>)"

definition wait_healthy :: "update_env \<Rightarrow> string list \<Rightarrow> string list \<Rightarrow> (bool \<times> string list) up" where
  "wait_healthy env names one_shots s =
     ((case wait_rounds (ue_looks env (us_events s)) names one_shots names of
         None \<Rightarrow> Inl Still_Waiting | Some None \<Rightarrow> Inl Docker_Error | Some (Some v) \<Rightarrow> Inr v), s)"

definition current_images :: "update_env \<Rightarrow> services \<Rightarrow> (string \<times> string) list up" where
  "current_images env services = slift (case ue_final env of
     None \<Rightarrow> Inl Docker_Error
   | Some listing \<Rightarrow> Inr (foldl (\<lambda>current c.
       if pc_service c \<in> fst ` set services \<and> pc_service c \<notin> fst ` set current
       then current @ [(pc_service c, container_ref (project_container.truncate c))] else current) [] (managed listing)))"

definition detect_image_change :: "(string \<times> project_container) list \<Rightarrow> string \<times> deployed_service
    \<Rightarrow> (string \<times> string) list \<Rightarrow> (string \<times> string) list up" where
  "detect_image_change running entry changed = (case entry of (n, svc) \<Rightarrow>
     sbind (local_image_now (service_image svc)) (\<lambda>pulled. case pulled of
       None \<Rightarrow> sraise (Update_Error (Update_Not_In_Store n (service_image svc)))
     | Some i \<Rightarrow> sret (if Some (li_image_id i) \<noteq> map_option pc_image_id (map_of running n)
         then changed @ [(n, image_ref_of i)] else changed)))"

fun detect_image_changes :: "(string \<times> project_container) list \<Rightarrow> services
    \<Rightarrow> (string \<times> string) list \<Rightarrow> (string \<times> string) list up" where
  "detect_image_changes running [] changed = sret changed"
| "detect_image_changes running (e # es) changed =
     sbind (detect_image_change running e changed) (detect_image_changes running es)"

section \<open>An image whose user moved\<close>

definition drift_text :: "string \<Rightarrow> string \<Rightarrow> string" where
  "drift_text old new = ''image user '' @ (if old = [] then ''root'' else old) @ '' -> ''
     @ (if new = [] then ''root'' else new)"

definition drift_entry :: "update_env \<Rightarrow> users \<Rightarrow> string \<times> string \<Rightarrow> update_raise + (string \<times> string) option" where
  "drift_entry env users entry = (case entry of (svc, ref) \<Rightarrow>
     (case map_of users svc of
        None \<Rightarrow> Inr None
      | Some u \<Rightarrow>
          if emitted u \<noteq> None \<or> su_source u = From_Compose then Inr None
          else (case ue_image_user env ref of
             None \<Rightarrow> Inl Docker_Error
           | Some new \<Rightarrow> Inr (if identity new \<noteq> identity (su_image_user u)
               then Some (svc, drift_text (su_image_user u) new) else None))))"

definition drift :: "update_env \<Rightarrow> (string \<times> string) list \<Rightarrow> update_raise + (string \<times> string) list" where
  "drift env changed =
     rbind (from_raised Users_Error (read_users (ue_users env))) (\<lambda>users.
     rbind (rmap (drift_entry env users) (sort_key fst changed)) (\<lambda>es.
     Inr (List.map_filter (\<lambda>e. e) es)))"

definition held_back :: "json_file \<Rightarrow> run_as_error + string list" where
  "held_back file = (case file of
     Absent \<Rightarrow> Inr []
   | Unreadable \<Rightarrow> Inl Drift_Unreadable
   | Unparseable \<Rightarrow> Inl Drift_Unreadable
   | Doc v \<Rightarrow> (case (case v of PDict d \<Rightarrow> dget_or d ''services'' PNone | _ \<Rightarrow> PNone) of
       PList xs \<Rightarrow> if list_all is_pstr xs then Inr (List.map_filter pstr_of xs) else Inl Drift_Malformed
     | _ \<Rightarrow> Inl Drift_Malformed))"

definition held_back_doc :: "string list \<Rightarrow> string list \<Rightarrow> pyval" where
  "held_back_doc held moved = PDict [(PStr ''services'', PList (map PStr (sort (remdups (held @ moved)))))]"

definition record_drift :: "update_env \<Rightarrow> string list \<Rightarrow> unit up" where
  "record_drift env moved s = (case held_back (us_drift s) of
     Inl e \<Rightarrow> (Inl (Users_Error e), s)
   | Inr held \<Rightarrow> (case atomic_write (ue_can_write env) (held_back_doc held moved) of
       Inl x \<Rightarrow> (Inl (Escapes x), s)
     | Inr f \<Rightarrow> (Inr (), s\<lparr>us_drift := f\<rparr>)))"

definition drift_alert :: "(string \<times> string) list \<Rightarrow> unit up" where
  "drift_alert moved s = (Inr (), s\<lparr>us_events := us_events s @ [Drift_Alerted moved]\<rparr>)"

text \<open>The services of \<open>refs\<close> whose reference names another image than before.\<close>

fun pulled_changes :: "(string \<Rightarrow> string option) \<Rightarrow> (string \<times> string) list \<Rightarrow> (string \<times> string) list \<Rightarrow> (string \<times> string) list up" where
  "pulled_changes before [] changed = sret changed"
| "pulled_changes before ((svc, ref) # refs) changed =
     sbind (local_image_now ref) (\<lambda>i. pulled_changes before refs
       (case i of Some i \<Rightarrow> if Some (li_image_id i) \<noteq> before svc then changed @ [(svc, ref)] else changed
        | None \<Rightarrow> changed))"

definition tag_back :: "update_env \<Rightarrow> (string \<Rightarrow> string option) \<Rightarrow> (string \<Rightarrow> string option) \<Rightarrow> string \<Rightarrow> unit up" where
  "tag_back env refs before svc = (case (before svc, refs svc) of
     (Some image_id, Some ref) \<Rightarrow> tag_image env image_id ref | _ \<Rightarrow> sret ())"

definition guard_pull :: "update_env \<Rightarrow> (string \<times> string) list \<Rightarrow> (string \<Rightarrow> string option) \<Rightarrow> (string \<times> string) list up" where
  "guard_pull env refs before =
     sbind (pulled_changes before refs []) (\<lambda>changed.
     sbind (slift (drift env changed)) (\<lambda>moved.
     if moved = [] then sret []
     else sthen (sfor (tag_back env (map_of refs) before) (map fst moved))
          (sthen (record_drift env (map fst moved))
          (sthen (drift_alert moved) (sret moved)))))"

section \<open>The update\<close>

datatype update_reason =
    Inventory_Reason update_raise
  | Pull_Reason
  | User_Changed "(string \<times> string) list"
  | Backup_Reason
  | Refused_Reason
  | Recreate_Reason
  | Unhealthy_Reason "string list"

record update_result =
  ur_name :: string
  ur_ts :: string
  ur_status :: string
  ur_attempted :: bool
  ur_rolled_back :: "bool option"
  ur_previous :: "(string \<times> string) list"
  ur_current :: "(string \<times> string) list"
  ur_reason :: "update_reason option"

definition new_result :: "update_env \<Rightarrow> update_target \<Rightarrow> update_result" where
  "new_result env tgt = \<lparr> ur_name = ut_name tgt, ur_ts = ue_now env, ur_status = ''succeeded'',
     ur_attempted = False, ur_rolled_back = None, ur_previous = [], ur_current = [], ur_reason = None \<rparr>"

definition persist :: "update_env \<Rightarrow> update_result \<Rightarrow> (string \<times> string) list \<Rightarrow> update_result up" where
  "persist env result before s =
     (case persist_result (ue_can_write env) (us_record s) (ur_ts result) (ur_status result) (ur_current result) before of
        Inl x \<Rightarrow> (Inl (Escapes x), s)
      | Inr f \<Rightarrow> (Inr result, s\<lparr>us_record := f\<rparr>))"

definition failed_with :: "update_result \<Rightarrow> update_reason \<Rightarrow> update_result" where
  "failed_with result why = result\<lparr>ur_status := ''failed'', ur_reason := Some why\<rparr>"

definition fail_update :: "update_env \<Rightarrow> update_result \<Rightarrow> update_reason \<Rightarrow> (string \<times> string) list \<Rightarrow> update_result up" where
  "fail_update env result why before = persist env (failed_with result why) before"

definition no_change :: "update_env \<Rightarrow> update_result \<Rightarrow> (string \<times> string) list \<Rightarrow> update_result up" where
  "no_change env result before = persist env (result\<lparr>ur_status := ''no_change'', ur_current := before\<rparr>) before"

text \<open>The status of a project that is blocked or stopped.\<close>

definition skip_status :: "update_env \<Rightarrow> update_target \<Rightarrow> update_raise + string option" where
  "skip_status env tgt =
     (if ut_is_caddy tgt then Inr None
      else rbind (from_raised Box_Error (ue_block env)) (\<lambda>bl. case bl of
        Some k \<Rightarrow> Inr (Some (block_reason_value (bl_reason k)))
      | None \<Rightarrow> rbind (from_raised Box_Error (ue_stopped env)) (\<lambda>stopped.
          Inr (if stopped then Some ''monitor_stopped'' else None))))"

text \<open>An update past its guards: what was running and what the pull changed.\<close>

record update_plan =
  up_services :: services
  up_running :: "(string \<times> project_container) list"
  up_changed :: "string list"

definition plan_refs :: "update_plan \<Rightarrow> (string \<times> string) list" where
  "plan_refs p = List.map_filter (\<lambda>n. map_option (\<lambda>svc. (n, service_image svc)) (map_of (up_services p) n)) (up_changed p)"

definition plan_old :: "update_plan \<Rightarrow> string \<Rightarrow> string option" where
  "plan_old p n = map_option pc_image_id (map_of (up_running p) n)"

definition maybe_rollback :: "update_env \<Rightarrow> update_target \<Rightarrow> update_result \<Rightarrow> update_plan \<Rightarrow> update_result up" where
  "maybe_rollback env tgt result p =
     (if ut_strategy tgt \<noteq> PStr ''rollback_to_previous'' then sret result
      else scatch is_docker_error
        (sthen (sfor (tag_back env (map_of (plan_refs p)) (plan_old p)) (up_changed p))
        (sthen (recreate env)
        (sbind (wait_healthy env (map fst (up_services p)) (one_shot_services (up_services p))) (\<lambda>v.
         sret (result\<lparr>ur_attempted := True, ur_rolled_back := Some (fst v)\<rparr>)))))
        (\<lambda>_. sret (result\<lparr>ur_attempted := True, ur_rolled_back := Some False\<rparr>)))"

definition verdict :: "update_env \<Rightarrow> update_plan \<Rightarrow> ((bool \<times> string list) \<times> (string \<times> string) list) up" where
  "verdict env p = scatch is_docker_error
     (sbind (wait_healthy env (map fst (up_services p)) (one_shot_services (up_services p))) (\<lambda>v.
      sbind (current_images env (up_services p)) (\<lambda>current. sret (v, current))))
     (\<lambda>_. sret ((False, [''(docker)'']), []))"

definition check_update :: "update_env \<Rightarrow> update_target \<Rightarrow> update_result \<Rightarrow> update_plan \<Rightarrow> update_result up" where
  "check_update env tgt result p =
     sbind (verdict env p) (\<lambda>((healthy, unhealthy), current).
     sbind (if healthy then sret (result\<lparr>ur_current := current\<rparr>)
            else maybe_rollback env tgt (failed_with (result\<lparr>ur_current := current\<rparr>) (Unhealthy_Reason unhealthy)) p)
       (\<lambda>r. persist env r (ur_previous result)))"

definition apply_update :: "update_env \<Rightarrow> update_target \<Rightarrow> update_result \<Rightarrow> update_plan \<Rightarrow> update_result up" where
  "apply_update env tgt result p =
     sbind (if ut_has_backup tgt then backup_locked env else sret 0) (\<lambda>rc.
     if rc \<noteq> 0 then fail_update env result Backup_Reason (ur_previous result)
     else sbind (attempt is_docker_error (recreate env)) (\<lambda>up. case up of
       Inl e \<Rightarrow>
         if e = Refused_Error then fail_update env result Refused_Reason (ur_previous result)
         else sbind (maybe_rollback env tgt (failed_with result Recreate_Reason) p) (\<lambda>r. persist env r (ur_previous result))
     | Inr _ \<Rightarrow> check_update env tgt result p))"

text \<open>Every changed tag goes back where a service's user would change.\<close>

definition guard_update :: "update_env \<Rightarrow> update_plan \<Rightarrow> (string \<times> string) list up" where
  "guard_update env p =
     sbind (guard_pull env (plan_refs p) (plan_old p)) (\<lambda>moved.
     sthen (swhen (moved \<noteq> []) (sfor (tag_back env (map_of (plan_refs p)) (plan_old p))
       (filter (\<lambda>n. n \<notin> fst ` set moved) (up_changed p)))) (sret moved))"

definition guarded_update :: "update_env \<Rightarrow> update_target \<Rightarrow> update_result \<Rightarrow> update_plan \<Rightarrow> update_result up" where
  "guarded_update env tgt result p =
     (if ut_is_caddy tgt then apply_update env tgt result p
      else sbind (attempt (\<lambda>e. is_docker_error e \<or> is_users_error e) (guard_update env p)) (\<lambda>r. case r of
        Inl e \<Rightarrow> fail_update env result (Inventory_Reason e) (ur_previous result)
      | Inr [] \<Rightarrow> apply_update env tgt result p
      | Inr moved \<Rightarrow> fail_update env result (User_Changed moved) (ur_previous result)))"

definition pull_update :: "update_env \<Rightarrow> update_target \<Rightarrow> update_result \<Rightarrow> services
    \<Rightarrow> (string \<times> project_container) list \<Rightarrow> update_result up" where
  "pull_update env tgt result services running =
     sbind (attempt is_docker_error (compose_pull env (sort (map fst services)))) (\<lambda>pulled. case pulled of
       Inl _ \<Rightarrow> fail_update env result Pull_Reason (ur_previous result)
     | Inr _ \<Rightarrow>
         sbind (attempt (\<lambda>e. is_docker_error e \<or> is_update_error e) (detect_image_changes running services [])) (\<lambda>found.
         case found of
           Inl e \<Rightarrow> fail_update env result (Inventory_Reason e) (ur_previous result)
         | Inr [] \<Rightarrow> no_change env result (ur_previous result)
         | Inr changed \<Rightarrow> guarded_update env tgt result
             \<lparr> up_services = services, up_running = running, up_changed = map fst changed \<rparr>))"

definition inventory_of :: "update_env \<Rightarrow> update_raise + services \<times> (string \<times> project_container) list" where
  "inventory_of env =
     rbind (from_raised Inventory_Error (ue_inventory env)) (\<lambda>inventory.
     let services = pulled_services inventory in
     rbind (case running_images services of Inl e \<Rightarrow> Inl (Update_Error e) | Inr r \<Rightarrow> Inr r) (\<lambda>running.
     Inr (services, running)))"

definition update_target_locked :: "update_env \<Rightarrow> update_target \<Rightarrow> update_result up" where
  "update_target_locked env tgt =
     (let result = new_result env tgt in
      sbind (slift (skip_status env tgt)) (\<lambda>skip. case skip of
        Some st \<Rightarrow> sret (result\<lparr>ur_status := st\<rparr>)
      | None \<Rightarrow>
          sbind (attempt is_update_error (slift (inventory_of env))) (\<lambda>inv. case inv of
            Inl e \<Rightarrow> fail_update env result (Inventory_Reason e) []
          | Inr (services, running) \<Rightarrow>
              if services = [] then no_change env result []
              else pull_update env tgt (result\<lparr>ur_previous := display_images running\<rparr>) services running)))"

end
