(* ===== verification/Update_Laws.thy ===== *)
theory Update_Laws
  imports Container_Update
begin

text \<open>
  What a container update promises: it recreates nothing it may not recreate, a
  rollback and a held back image leave every reference naming what ran before,
  and waiting for health ends.
\<close>

section \<open>What the operations leave as it is\<close>

lemma update_keeps_images [skeeps_rules]:
  "skeeps us_images (backup_locked env)" "skeeps us_images (wait_healthy env ns os)"
  "skeeps us_images (current_images env svcs)" "skeeps us_images (persist env r before)" "skeeps us_images (record_drift env moved)"
  "skeeps us_images (drift_alert ds)" "skeeps us_images (local_image_now ref)"
  by (auto simp: skeeps_def backup_locked_def wait_healthy_def current_images_def persist_def record_drift_def
      drift_alert_def local_image_now_def Let_def split: sum.split option.split)

lemma local_image_same: "local_image_now ref s = (r, s') \<Longrightarrow> s' = s"
  by (auto simp: local_image_now_def split: option.splits)

lemma detect_one_same: "detect_image_change running e changed s = (r, s') \<Longrightarrow> s' = s"
  by (auto simp: detect_image_change_def sbind_def local_image_now_def split: prod.splits option.splits)

lemma detect_one:
  assumes "detect_image_change running (n, svc) changed s = (Inr found, s')"
  shows "(\<exists>ref. found = changed @ [(n, ref)]) \<or> found = changed \<and> (\<exists>img. us_images s (service_image svc) = Some (Some img)
    \<and> map_option pc_image_id (map_of running n) = Some (li_image_id img))"
proof -
  obtain i where i: "us_images s (service_image svc) = Some (Some i)"
    "found = (if Some (li_image_id i) \<noteq> map_option pc_image_id (map_of running n) then changed @ [(n, image_ref_of i)] else changed)"
    using assms by (auto simp: detect_image_change_def sbind_def local_image_now_def split: prod.splits option.splits)
  show ?thesis using i by (cases "Some (li_image_id i) = map_option pc_image_id (map_of running n)") (auto simp: eq_commute [of "map_option _ _"])
qed

lemma detect_same: "detect_image_changes running es changed s = (r, s') \<Longrightarrow> s' = s"
proof (induction es arbitrary: changed)
  case (Cons e es)
  obtain r1 s1 where 1: "detect_image_change running e changed s = (r1, s1)" by fastforce
  with Cons detect_one_same [OF 1] show ?case by (cases r1) auto
qed simp

lemma detect_changes:
  assumes "detect_image_changes running es changed s = (Inr found, s')"
  shows "fst ` set changed \<subseteq> fst ` set found
    \<and> (\<forall>e\<in>set es. fst e \<in> fst ` set found \<or> (\<exists>img. us_images s (service_image (snd e)) = Some (Some img)
          \<and> map_option pc_image_id (map_of running (fst e)) = Some (li_image_id img)))"
  using assms
proof (induction es arbitrary: changed)
  case (Cons e es)
  obtain found1 s1 where 1: "detect_image_change running e changed s = (Inr found1, s1)"
    and 2: "detect_image_changes running es found1 s1 = (Inr found, s')"
    using Cons.prems by (auto simp: sbind_Inr)
  have s1: "s1 = s" using 1 by (rule detect_one_same)
  note ih = Cons.IH [OF 2 [unfolded s1]]
  have "fst ` set changed \<subseteq> fst ` set found1" "fst e \<in> fst ` set found1 \<or> (\<exists>img. us_images s (service_image (snd e)) = Some (Some img)
        \<and> map_option pc_image_id (map_of running (fst e)) = Some (li_image_id img))"
    using detect_one [of running "fst e" "snd e" changed s found1 s1] 1 by auto
  with ih show ?case by (metis (no_types, lifting) set_ConsD subset_iff)
qed simp

lemma pulled_changes_same:
  assumes "pulled_changes before refs changed s = (r, s')"
  shows "s' = s \<and> (\<forall>found. r = Inr found \<longrightarrow> set changed \<subseteq> set found \<and> set found \<subseteq> set changed \<union> set refs
    \<and> (\<forall>(n, ref)\<in>set refs. (n, ref) \<in> set found
        \<or> (case us_images s ref of Some (Some img) \<Rightarrow> before n = Some (li_image_id img) | _ \<Rightarrow> True)))"
  using assms
proof (induction refs arbitrary: changed)
  case (Cons e refs)
  obtain n ref where e: "e = (n, ref)" by fastforce
  show ?case
  proof (cases "us_images s ref")
    case None
    then show ?thesis using Cons.prems by (auto simp: e sbind_def local_image_now_def)
  next
    case (Some i)
    let ?changed = "case i of Some i \<Rightarrow> if Some (li_image_id i) \<noteq> before n then changed @ [(n, ref)] else changed | None \<Rightarrow> changed"
    have "pulled_changes before refs ?changed s = (r, s')"
      using Cons.prems Some by (simp add: e sbind_def local_image_now_def)
    from Cons.IH [OF this] Some show ?thesis by (auto simp: e split: option.splits if_splits)
  qed
qed auto

section \<open>Tags that go back\<close>

definition covers :: "update_env \<Rightarrow> (string \<Rightarrow> string option) \<Rightarrow> (string \<Rightarrow> string option) \<Rightarrow> string \<Rightarrow> string \<Rightarrow> string \<Rightarrow> bool" where
  "covers env refs old n r image_id \<longleftrightarrow> (\<exists>ref. refs n = Some ref \<and> old n = Some image_id \<and> ue_tag_of env ref = ue_tag_of env r)"

definition names_image :: "image_store \<Rightarrow> string \<Rightarrow> string \<Rightarrow> bool" where
  "names_image images ref image_id \<longleftrightarrow> (\<exists>img. images ref = Some (Some img) \<and> li_image_id img = image_id)"

definition retagged :: "update_env \<Rightarrow> (string \<Rightarrow> string option) \<Rightarrow> (string \<Rightarrow> string option) \<Rightarrow> string list
    \<Rightarrow> image_store \<Rightarrow> image_store \<Rightarrow> bool" where
  "retagged env refs old ns images images' \<longleftrightarrow> (\<forall>r.
     (\<exists>n\<in>set ns. \<exists>i. covers env refs old n r i \<and> names_image images' r i)
     \<or> (\<forall>n\<in>set ns. \<forall>i. \<not> covers env refs old n r i) \<and> images' r = images r)"

lemma tag_back_triple:
  "triple (\<lambda>s. retagged env refs old ns im (us_images s)) (tag_back env refs old n)
     (\<lambda>_ s. retagged env refs old (ns @ [n]) im (us_images s)) (\<lambda>_ _. True)"
proof (rule tripleI)
  fix s x s'
  assume r: "retagged env refs old ns im (us_images s)" and t: "tag_back env refs old n s = (Inr x, s')"
  show "retagged env refs old (ns @ [n]) im (us_images s')"
  proof (cases "\<exists>i ref. old n = Some i \<and> refs n = Some ref")
    case False
    then have "s' = s" "\<And>r i. \<not> covers env refs old n r i"
      using t by (auto simp: tag_back_def covers_def split: option.splits)
    then show ?thesis using r by (simp add: retagged_def)
  next
    case True
    then obtain i ref where n: "old n = Some i" "refs n = Some ref" by blast
    then have im: "us_images s' = (\<lambda>r. if ue_tag_of env r = ue_tag_of env ref
        then Some (Some \<lparr> li_image_id = i, li_repo_digests = ue_digests env i \<rparr>) else us_images s r)"
      using t by (auto simp: tag_back_def tag_image_def split: if_splits)
    have c: "covers env refs old n r j \<longleftrightarrow> j = i \<and> ue_tag_of env r = ue_tag_of env ref" for r j
      using n by (auto simp: covers_def)
    show ?thesis unfolding retagged_def
    proof
      fix r'
      show "(\<exists>m\<in>set (ns @ [n]). \<exists>j. covers env refs old m r' j \<and> names_image (us_images s') r' j)
        \<or> (\<forall>m\<in>set (ns @ [n]). \<forall>j. \<not> covers env refs old m r' j) \<and> us_images s' r' = im r'"
      proof (cases "ue_tag_of env r' = ue_tag_of env ref")
        case True
        then show ?thesis using c im by (auto simp: names_image_def)
      next
        case False
        then have "us_images s' r' = us_images s r'" using im by simp
        then show ?thesis using r False c by (auto simp: retagged_def names_image_def)
      qed
    qed
  qed
qed simp

lemma tag_loop:
  "triple (\<lambda>s. retagged env refs old ms im (us_images s)) (sfor (tag_back env refs old) ns)
     (\<lambda>_ s. retagged env refs old (ms @ ns) im (us_images s)) (\<lambda>_ _. True)"
  using triple_for [of ns "\<lambda>ys s. retagged env refs old (ms @ ys) im (us_images s)" "tag_back env refs old" "\<lambda>_ _. True"]
    tag_back_triple by (simp flip: append_assoc)

lemma retagged_refl: "retagged env refs old [] im im"
  by (simp add: retagged_def)

text \<open>What an update started from: each service's reference names what its containers run, or it is one to update.\<close>

definition plan_ok :: "update_plan \<Rightarrow> image_store \<Rightarrow> bool" where
  "plan_ok p images \<longleftrightarrow> (\<forall>n\<in>fst ` set (up_services p). \<exists>svc c. map_of (up_services p) n = Some svc
     \<and> map_of (up_running p) n = Some c
     \<and> (n \<in> set (up_changed p) \<or> names_image images (service_image svc) (pc_image_id c)))"

text \<open>Every service's reference names the image its containers ran.\<close>

definition restored :: "services \<Rightarrow> (string \<times> project_container) list \<Rightarrow> image_store \<Rightarrow> bool" where
  "restored services running images \<longleftrightarrow> (\<forall>n\<in>fst ` set services. \<exists>svc c. map_of services n = Some svc
     \<and> map_of running n = Some c \<and> names_image images (service_image svc) (pc_image_id c))"

text \<open>
  A start pulls only what the box does not have, as Compose does for a service
  without a \<open>pull_policy\<close>.
\<close>

definition starts_pull_missing :: "update_env \<Rightarrow> bool" where
  "starts_pull_missing env \<longleftrightarrow> (\<forall>es images ref img. images ref = Some (Some img)
     \<longrightarrow> ue_up_images env es images ref = Some (Some img))"

lemma recreate_keeps_named:
  assumes "starts_pull_missing env"
  shows "triple (\<lambda>s. plan_ok p (us_images s)) (recreate env) (\<lambda>_ s. plan_ok p (us_images s)) (\<lambda>_ s. plan_ok p (us_images s))"
    and "triple (\<lambda>s. restored S R (us_images s)) (recreate env) (\<lambda>_ s. restored S R (us_images s)) (\<lambda>_ s. restored S R (us_images s))"
proof -
  have same: "names_image (us_images (snd (recreate env s))) ref i" if "names_image (us_images s) ref i" for s ref i
    using that assms by (auto simp: recreate_def names_image_def starts_pull_missing_def Let_def)
  have kept: "triple (\<lambda>s. P (us_images s)) (recreate env) (\<lambda>_ s. P (us_images s)) (\<lambda>_ s. P (us_images s))"
    if "\<And>images images'. P images \<Longrightarrow> (\<And>ref i. names_image images ref i \<Longrightarrow> names_image images' ref i) \<Longrightarrow> P images'" for P
  proof (rule tripleI)
    fix s x s' assume p: "P (us_images s)" and run: "recreate env s = (Inr x, s')"
    show "P (us_images s')" by (rule that [OF p]) (use same [of s] run in simp)
  next
    fix s e s' assume p: "P (us_images s)" and run: "recreate env s = (Inl e, s')"
    show "P (us_images s')" by (rule that [OF p]) (use same [of s] run in simp)
  qed
  show "triple (\<lambda>s. plan_ok p (us_images s)) (recreate env) (\<lambda>_ s. plan_ok p (us_images s)) (\<lambda>_ s. plan_ok p (us_images s))"
    by (rule kept) (unfold plan_ok_def, blast)
  show "triple (\<lambda>s. restored S R (us_images s)) (recreate env) (\<lambda>_ s. restored S R (us_images s)) (\<lambda>_ s. restored S R (us_images s))"
    by (rule kept) (unfold restored_def, blast)
qed

text \<open>Services that name the same tag run the same image.\<close>

definition one_image_per_tag :: "update_env \<Rightarrow> services \<Rightarrow> (string \<times> project_container) list \<Rightarrow> bool" where
  "one_image_per_tag env services running \<longleftrightarrow> (\<forall>(n, svc)\<in>set services. \<forall>(m, svc')\<in>set services.
     ue_tag_of env (service_image svc) = ue_tag_of env (service_image svc')
     \<longrightarrow> map_option pc_image_id (map_of running n) = map_option pc_image_id (map_of running m))"

lemma map_of_plan:
  "map_of (List.map_filter (\<lambda>n. map_option (\<lambda>v. (n, f v)) (map_of S n)) ns) n
     = (if n \<in> set ns then map_option f (map_of S n) else None)"
  by (induction ns) (auto simp: map_filter_simps split: option.split)

lemma retagged_restores:
  assumes "plan_ok p im" "retagged env (map_of (plan_refs p)) (plan_old p) ns im im'" "set (up_changed p) \<subseteq> set ns"
    and "one_image_per_tag env (up_services p) (up_running p)"
  shows "restored (up_services p) (up_running p) im'"
  unfolding restored_def
proof
  fix n assume "n \<in> fst ` set (up_services p)"
  then obtain svc c where n: "map_of (up_services p) n = Some svc" "map_of (up_running p) n = Some c"
    "n \<in> set (up_changed p) \<or> names_image im (service_image svc) (pc_image_id c)"
    using assms(1) by (auto simp: plan_ok_def)
  let ?refs = "map_of (plan_refs p)" and ?r = "service_image svc"
  have refs: "?refs m = (if m \<in> set (up_changed p) then map_option service_image (map_of (up_services p) m) else None)" for m
    unfolding plan_refs_def by (rule map_of_plan)
  consider (a) m i where "covers env ?refs (plan_old p) m ?r i" "names_image im' ?r i"
    | (b) "\<And>m i. m \<in> set ns \<Longrightarrow> \<not> covers env ?refs (plan_old p) m ?r i" "im' ?r = im ?r"
    using assms(2) unfolding retagged_def by blast
  then have "names_image im' ?r (pc_image_id c)"
  proof cases
    case a
    then obtain svc' where m: "map_of (up_services p) m = Some svc'" "plan_old p m = Some i"
      "ue_tag_of env (service_image svc') = ue_tag_of env ?r"
      by (auto simp: covers_def refs split: if_splits)
    then have "plan_old p m = plan_old p n"
      using assms(4) map_of_SomeD [OF m(1)] map_of_SomeD [OF n(1)] by (fastforce simp: one_image_per_tag_def plan_old_def)
    then have "i = pc_image_id c" using m(2) n(2) by (auto simp: plan_old_def)
    then show ?thesis using a(2) by simp
  next
    case b
    have "n \<notin> set (up_changed p)"
    proof
      assume ch: "n \<in> set (up_changed p)"
      then have "covers env ?refs (plan_old p) n ?r (pc_image_id c)" using n(1,2) by (simp add: covers_def refs plan_old_def)
      then show False using b(1) ch assms(3) by blast
    qed
    then show ?thesis using n(3) b(2) by (simp add: names_image_def)
  qed
  then show "\<exists>svc c. map_of (up_services p) n = Some svc \<and> map_of (up_running p) n = Some c
      \<and> names_image im' (service_image svc) (pc_image_id c)" using n by blast
qed

section \<open>A rollback and a held back image\<close>

definition claims :: "update_result \<Rightarrow> bool" where
  "claims r \<longleftrightarrow> ur_rolled_back r = Some True \<or> (\<exists>d. ur_reason r = Some (User_Changed d))"

lemma sbind_sret: "sbind (sret x) f = f x"
  by (rule ext) (simp add: sbind_def)

lemma kept_triple: "skeeps us_images m \<Longrightarrow> triple (\<lambda>s. P (us_images s)) m (\<lambda>_ s. P (us_images s)) (\<lambda>_ s. P (us_images s))"
  by (rule tripleI) (auto dest: skeepsD)

lemma any_triple: "triple P m (\<lambda>_ _. True) (\<lambda>_ _. True)"
  by (simp add: triple_def split: prod.split sum.split)

lemma persist_returns: "persist env r before s = (Inr r', s') \<Longrightarrow> r' = r \<and> us_images s' = us_images s \<and> us_events s' = us_events s"
  by (auto simp: persist_def split: sum.splits)

lemma rollback_restores:
  assumes "one_image_per_tag env (up_services p) (up_running p)" "\<not> claims result" and pulls: "starts_pull_missing env"
  shows "triple (\<lambda>s. plan_ok p (us_images s)) (maybe_rollback env tgt result p)
    (\<lambda>r s. claims r \<longrightarrow> restored (up_services p) (up_running p) (us_images s)) (\<lambda>_ _. True)"
proof (cases "ut_strategy tgt = PStr ''rollback_to_previous''")
  case False
  then show ?thesis using assms(2) by (auto simp: maybe_rollback_def intro: triple_ret)
next
  case True
  let ?loop = "sfor (tag_back env (map_of (plan_refs p)) (plan_old p)) (up_changed p)"
  let ?R = "\<lambda>s. restored (up_services p) (up_running p) (us_images s)"
  have loop: "triple (\<lambda>s. plan_ok p (us_images s)) ?loop (\<lambda>_. ?R) (\<lambda>_ _. True)"
  proof (rule tripleI)
    fix s x s' assume ok: "plan_ok p (us_images s)" and run: "?loop s = (Inr x, s')"
    have "retagged env (map_of (plan_refs p)) (plan_old p) ([] @ up_changed p) (us_images s) (us_images s')"
      by (rule tripleD_Inr [OF tag_loop _ run]) (rule retagged_refl)
    then show "?R s'" using retagged_restores [OF ok _ _ assms(1)] by simp
  qed simp
  have keep: "triple ?R m (\<lambda>_. ?R) (\<lambda>_ _. True)" if "skeeps us_images m" for m :: "'x up"
    by (rule triple_post [OF kept_triple [OF that]]) simp_all
  have up: "triple ?R (recreate env) (\<lambda>_. ?R) (\<lambda>_ _. True)"
    by (rule triple_post [OF recreate_keeps_named(2) [OF pulls]]) simp_all
  show ?thesis unfolding maybe_rollback_def using True assms(2)
    by (auto simp: claims_def intro!: triple_catch [where R = "\<lambda>_ _. True"] triple_then [OF loop]
        triple_then [OF up] triple_bind [OF keep] triple_ret skeeps_rules)
qed

lemma guard_pull_images:
  assumes "guard_pull env refs before s = (Inr moved, s')"
  shows "if moved = [] then us_images s' = us_images s
    else retagged env (map_of refs) before (map fst moved) (us_images s) (us_images s')"
proof -
  obtain changed s1 where 1: "pulled_changes before refs [] s = (Inr changed, s1)"
    using assms by (auto simp: guard_pull_def sbind_Inr)
  have s1: "s1 = s" using pulled_changes_same [OF 1] by simp
  obtain m where m: "drift env changed = Inr m" using assms 1 by (auto simp: guard_pull_def sbind_Inr)
  show ?thesis
  proof (cases "m = []")
    case True
    then show ?thesis using assms 1 s1 m by (auto simp: guard_pull_def)
  next
    case False
    then obtain u s2 s3 where 2: "sfor (tag_back env (map_of refs) before) (map fst m) s = (Inr u, s2)"
      and 3: "record_drift env (map fst m) s2 = (Inr (), s3)" and 4: "moved = m" "us_images s' = us_images s3"
      using assms 1 s1 m by (auto simp: guard_pull_def sthen_def sbind_Inr drift_alert_def)
    have "retagged env (map_of refs) before ([] @ map fst m) (us_images s) (us_images s2)"
      by (rule tripleD_Inr [OF tag_loop _ 2]) (rule retagged_refl)
    moreover have "us_images s3 = us_images s2" by (rule skeepsD [OF update_keeps_images(5) 3])
    ultimately show ?thesis using False 4 by simp
  qed
qed

lemma guard_update_restores:
  assumes "one_image_per_tag env (up_services p) (up_running p)"
  shows "triple (\<lambda>s. plan_ok p (us_images s)) (guard_update env p)
    (\<lambda>moved s. if moved = [] then plan_ok p (us_images s) else restored (up_services p) (up_running p) (us_images s)) (\<lambda>_ _. True)"
proof (rule tripleI)
  fix s moved s'
  assume ok: "plan_ok p (us_images s)" and run: "guard_update env p s = (Inr moved, s')"
  let ?rest = "filter (\<lambda>n. n \<notin> fst ` set moved) (up_changed p)" and ?retag = "tag_back env (map_of (plan_refs p)) (plan_old p)"
  obtain s1 where 1: "guard_pull env (plan_refs p) (plan_old p) s = (Inr moved, s1)"
    and 2: "swhen (moved \<noteq> []) (sfor ?retag ?rest) s1 = (Inr (), s')"
    using run by (auto simp: guard_update_def sthen_def sbind_Inr)
  note g = guard_pull_images [OF 1]
  show "if moved = [] then plan_ok p (us_images s') else restored (up_services p) (up_running p) (us_images s')"
  proof (cases "moved = []")
    case True
    then show ?thesis using g 2 ok by simp
  next
    case False
    then have "retagged env (map_of (plan_refs p)) (plan_old p) (map fst moved) (us_images s) (us_images s1)"
      and 3: "sfor ?retag ?rest s1 = (Inr (), s')" using g 2 by simp_all
    from tripleD_Inr [OF tag_loop this]
    have "retagged env (map_of (plan_refs p)) (plan_old p) (map fst moved @ ?rest) (us_images s) (us_images s')" .
    moreover have "set (up_changed p) \<subseteq> set (map fst moved @ ?rest)" by auto
    ultimately show ?thesis using False retagged_restores [OF ok _ _ assms] by simp
  qed
qed simp

lemma attempt_triple:
  assumes "triple P m Q (\<lambda>_ _. True)"
  shows "triple P (attempt C m) (\<lambda>r s. case r of Inl _ \<Rightarrow> True | Inr x \<Rightarrow> Q x s) (\<lambda>_ _. True)"
  unfolding attempt_def by (rule triple_catch [OF triple_bind [OF assms]]) (auto intro: triple_ret)

lemma persist_triple:
  assumes "\<And>s. P s \<Longrightarrow> Q r (us_images s)"
  shows "triple P (persist env r before) (\<lambda>r' s. Q r' (us_images s)) (\<lambda>_ _. True)"
  using assms by (intro tripleI) (auto dest!: persist_returns)

lemma apply_restores:
  assumes c: "one_image_per_tag env (up_services p) (up_running p)" and r: "\<not> claims result" and pulls: "starts_pull_missing env"
  shows "triple (\<lambda>s. plan_ok p (us_images s)) (apply_update env tgt result p)
    (\<lambda>r s. claims r \<longrightarrow> restored (up_services p) (up_running p) (us_images s)) (\<lambda>_ _. True)"
proof -
  let ?P = "\<lambda>s. plan_ok p (us_images s)" and ?Q = "\<lambda>r im. claims r \<longrightarrow> restored (up_services p) (up_running p) im"
  have keep: "triple ?P m (\<lambda>_. ?P) (\<lambda>_ _. True)" if "skeeps us_images m" for m :: "'x up"
    by (rule triple_post [OF kept_triple [OF that]]) simp_all
  have fail: "triple ?P (fail_update env result w before) (\<lambda>r s. ?Q r (us_images s)) (\<lambda>_ _. True)"
    if "\<And>d. w \<noteq> User_Changed d" for w before
    unfolding fail_update_def by (rule persist_triple) (use r that in \<open>auto simp: claims_def failed_with_def\<close>)
  have roll: "triple ?P (sbind (maybe_rollback env tgt r' p) (\<lambda>r. persist env r before)) (\<lambda>r s. ?Q r (us_images s)) (\<lambda>_ _. True)"
    if "\<not> claims r'" for r' before
    by (rule triple_bind [OF rollback_restores [OF c that pulls]]) (rule persist_triple, simp)
  have quiet: "\<not> claims (result\<lparr>ur_current := x\<rparr>)" "\<not> claims (failed_with result Recreate_Reason)"
    "\<not> claims (failed_with (result\<lparr>ur_current := x\<rparr>) (Unhealthy_Reason ns))" for x ns
    using r by (auto simp: claims_def failed_with_def)
  have v: "skeeps us_images (verdict env p)"
    unfolding verdict_def by (intro skeeps_rules)
  have check: "triple ?P (check_update env tgt result p) (\<lambda>r s. ?Q r (us_images s)) (\<lambda>_ _. True)"
    unfolding check_update_def
  proof (rule triple_bind [OF keep [OF v]])
    fix x :: "(bool \<times> string list) \<times> (string \<times> string) list"
    obtain h ns cur where x: "x = ((h, ns), cur)" by (metis surj_pair)
    show "triple ?P ((\<lambda>((healthy, unhealthy), current). sbind (if healthy then sret (result\<lparr>ur_current := current\<rparr>)
            else maybe_rollback env tgt (failed_with (result\<lparr>ur_current := current\<rparr>) (Unhealthy_Reason unhealthy)) p)
          (\<lambda>r. persist env r (ur_previous result))) x) (\<lambda>r s. ?Q r (us_images s)) (\<lambda>_ _. True)"
    proof (cases h)
      case True
      have "triple ?P (persist env (result\<lparr>ur_current := cur\<rparr>) (ur_previous result)) (\<lambda>r s. ?Q r (us_images s)) (\<lambda>_ _. True)"
        by (rule persist_triple) (simp add: quiet)
      then show ?thesis by (simp add: x True sbind_sret)
    next
      case False
      then show ?thesis using roll [OF quiet(3)] by (simp add: x)
    qed
  qed
  have up: "triple ?P (attempt is_docker_error (recreate env)) (\<lambda>_. ?P) (\<lambda>_ _. True)"
  proof -
    have "triple ?P (recreate env) (\<lambda>_. ?P) (\<lambda>_. ?P)" by (rule recreate_keeps_named(1) [OF pulls])
    then show ?thesis unfolding attempt_def by (auto intro!: triple_catch triple_bind triple_ret)
  qed
  have bk: "skeeps us_images (if ut_has_backup tgt then backup_locked env else sret 0)" by (intro skeeps_rules)
  have after: "triple ?P (case up of Inl e \<Rightarrow>
         if e = Refused_Error then fail_update env result Refused_Reason (ur_previous result)
         else sbind (maybe_rollback env tgt (failed_with result Recreate_Reason) p) (\<lambda>r. persist env r (ur_previous result))
     | Inr _ \<Rightarrow> check_update env tgt result p) (\<lambda>r s. ?Q r (us_images s)) (\<lambda>_ _. True)" for up :: "update_raise + unit"
    by (cases up) (simp_all add: fail roll quiet check)
  show ?thesis unfolding apply_update_def
    by (rule triple_bind [OF keep [OF bk]], rule triple_if [OF fail], simp, rule triple_bind [OF up], rule after)
qed

lemma fail_claims:
  assumes "\<And>s. P s \<Longrightarrow> (\<exists>d. w = User_Changed d) \<Longrightarrow> R (us_images s)" "\<not> claims result"
  shows "triple P (fail_update env result w before) (\<lambda>r s. claims r \<longrightarrow> R (us_images s)) (\<lambda>_ _. True)"
  unfolding fail_update_def
  by (rule persist_triple) (use assms in \<open>auto simp: claims_def failed_with_def\<close>)

lemma guarded_restores:
  assumes c: "one_image_per_tag env (up_services p) (up_running p)" and r: "\<not> claims result" and pulls: "starts_pull_missing env"
  shows "triple (\<lambda>s. plan_ok p (us_images s)) (guarded_update env tgt result p)
    (\<lambda>r s. claims r \<longrightarrow> restored (up_services p) (up_running p) (us_images s)) (\<lambda>_ _. True)"
proof -
  let ?R = "restored (up_services p) (up_running p)"
  let ?M = "\<lambda>g s. case g of Inl (_ :: update_raise) \<Rightarrow> True
    | Inr moved \<Rightarrow> if moved = [] then plan_ok p (us_images s) else ?R (us_images s)"
  have g: "triple (\<lambda>s. plan_ok p (us_images s)) (attempt C (guard_update env p)) ?M (\<lambda>_ _. True)" for C
    by (rule attempt_triple [OF guard_update_restores [OF c]])
  have "triple (?M g) (case g of Inl e \<Rightarrow> fail_update env result (Inventory_Reason e) (ur_previous result)
      | Inr [] \<Rightarrow> apply_update env tgt result p | Inr moved \<Rightarrow> fail_update env result (User_Changed moved) (ur_previous result))
      (\<lambda>r s. claims r \<longrightarrow> ?R (us_images s)) (\<lambda>_ _. True)" for g
  proof (cases g)
    case (Inl e)
    show ?thesis unfolding Inl sum.case by (rule fail_claims) (simp_all add: r)
  next
    case (Inr moved)
    then show ?thesis by (cases moved) (simp_all add: apply_restores c r pulls fail_claims)
  qed
  then show ?thesis unfolding guarded_update_def
    by (rule triple_if [OF apply_restores [OF c r pulls] triple_bind [OF g]])
qed

lemma running_names: "running_images services = Inr running \<Longrightarrow> map fst running = map fst services"
proof (unfold running_images_def, induction services arbitrary: running)
  case (Cons e services)
  then obtain r rs where "running_image e = Inr r" "running = r # rs" "rmap running_image services = Inr rs"
    by (auto simp: rbind_eq_Inr)
  moreover from this(1) have "fst r = fst e"
    by (auto simp: running_image_def Let_def split: prod.splits list.splits if_splits)
  ultimately show ?case using Cons.IH by simp
qed simp

lemma inventory_images: "inventory_of env = Inr (services, running) \<Longrightarrow> running_images services = Inr running"
proof -
  assume a: "inventory_of env = Inr (services, running)"
  then obtain inv where "from_raised Inventory_Error (ue_inventory env) = Inr inv" by (auto simp: inventory_of_def rbind_eq_Inr)
  then show ?thesis using a by (cases "running_images (pulled_services inv)") (auto simp: inventory_of_def Let_def)
qed

lemma plan_of_detection:
  assumes "running_images services = Inr running" "detect_image_changes running services [] s = (Inr found, s')"
  shows "plan_ok \<lparr> up_services = services, up_running = running, up_changed = map fst found \<rparr> (us_images s)"
  unfolding plan_ok_def update_plan.simps
proof
  fix n assume n: "n \<in> fst ` set services"
  then obtain svc where svc: "map_of services n = Some svc" by (metis map_of_eq_None_iff not_Some_eq)
  have "n \<in> fst ` set running" using running_names [OF assms(1)] n by (metis list.set_map)
  then obtain c where c: "map_of running n = Some c" by (metis map_of_eq_None_iff not_Some_eq)
  have "n \<in> fst ` set found \<or> (\<exists>img. us_images s (service_image svc) = Some (Some img)
      \<and> map_option pc_image_id (map_of running n) = Some (li_image_id img))"
    using bspec [OF conjunct2 [OF detect_changes [OF assms(2)]] map_of_SomeD [OF svc]] by simp
  then show "\<exists>svc c. map_of services n = Some svc \<and> map_of running n = Some c
      \<and> (n \<in> set (map fst found) \<or> names_image (us_images s) (service_image svc) (pc_image_id c))"
    using svc c by (auto simp: names_image_def)
qed

lemma pull_restores:
  assumes run: "running_images services = Inr running" and c: "one_image_per_tag env services running" and r: "\<not> claims result"
    and pulls: "starts_pull_missing env"
  shows "triple (\<lambda>_. True) (pull_update env tgt result services running)
    (\<lambda>r s. claims r \<longrightarrow> restored services running (us_images s)) (\<lambda>_ _. True)"
proof -
  let ?R = "restored services running"
  let ?plan = "\<lambda>found. \<lparr> up_services = services, up_running = running, up_changed = map fst found \<rparr>"
  have d: "triple (\<lambda>_. True) (detect_image_changes running services []) (\<lambda>found s. plan_ok (?plan found) (us_images s)) (\<lambda>_ _. True)"
    using plan_of_detection [OF run] detect_same by (intro tripleI) fastforce+
  have ok: "triple (\<lambda>s. plan_ok (?plan found) (us_images s)) (guarded_update env tgt result (?plan found))
      (\<lambda>r s. claims r \<longrightarrow> ?R (us_images s)) (\<lambda>_ _. True)" for found
    using guarded_restores [of env "?plan found" result tgt] c r pulls by simp
  have same: "triple P (no_change env result before) (\<lambda>r s. claims r \<longrightarrow> ?R (us_images s)) (\<lambda>_ _. True)" for P before
    unfolding no_change_def by (rule persist_triple) (use r in \<open>simp add: claims_def\<close>)
  have after: "triple (case g of Inl (_ :: update_raise) \<Rightarrow> \<lambda>_. True | Inr found \<Rightarrow> \<lambda>s. plan_ok (?plan found) (us_images s))
      (case g of Inl e \<Rightarrow> fail_update env result (Inventory_Reason e) (ur_previous result)
       | Inr [] \<Rightarrow> no_change env result (ur_previous result)
       | Inr changed \<Rightarrow> guarded_update env tgt result (?plan changed))
      (\<lambda>r s. claims r \<longrightarrow> ?R (us_images s)) (\<lambda>_ _. True)" for g
  proof (cases g)
    case (Inl e)
    show ?thesis unfolding Inl sum.case by (rule fail_claims) (simp_all add: r)
  next
    case (Inr found)
    then show ?thesis using ok [of found] by (cases found) (simp_all add: same)
  qed
  have "triple (\<lambda>_. True) (case pulled of Inl _ \<Rightarrow> fail_update env result Pull_Reason (ur_previous result)
     | Inr _ \<Rightarrow> sbind (attempt (\<lambda>e. is_docker_error e \<or> is_update_error e) (detect_image_changes running services [])) (\<lambda>found.
         case found of
           Inl e \<Rightarrow> fail_update env result (Inventory_Reason e) (ur_previous result)
         | Inr [] \<Rightarrow> no_change env result (ur_previous result)
         | Inr changed \<Rightarrow> guarded_update env tgt result (?plan changed)))
      (\<lambda>r s. claims r \<longrightarrow> ?R (us_images s)) (\<lambda>_ _. True)" for pulled :: "update_raise + unit"
  proof (cases pulled)
    case (Inl e)
    show ?thesis unfolding Inl sum.case by (rule fail_claims) (simp_all add: r)
  next
    case (Inr u)
    show ?thesis unfolding Inr sum.case
      by (rule triple_bind [OF attempt_triple [OF d]]) (rule triple_pre [OF after], simp split: sum.splits)
  qed
  then show ?thesis unfolding pull_update_def by (rule triple_bind [OF any_triple])
qed

text \<open>C8. An image that is taken back is taken back for every service: where services that name the same tag run
  the same image, and no service's pull policy makes a start pull an image the box has, an update that reports a successful rollback, or that holds the new images back because a
  service's user would change, leaves every reference it pulled naming the image the service's containers ran
  before, so the next start of any kind runs the old images.\<close>

theorem old_images_restored:
  assumes "update_target_locked env tgt s = (Inr r, s')"
    and "ur_rolled_back r = Some True \<or> ur_reason r = Some (User_Changed moved)"
    and "inventory_of env = Inr (services, running)" "one_image_per_tag env services running"
    and "starts_pull_missing env"
  shows "restored services running (us_images s')"
proof -
  let ?result = "new_result env tgt"
  have claim: "claims r" using assms(2) by (auto simp: claims_def)
  have new: "\<not> claims (?result\<lparr>ur_previous := x\<rparr>)" "\<not> claims (?result\<lparr>ur_status := st\<rparr>)" for x st
    by (simp_all add: claims_def new_result_def)
  obtain skip where skip: "skip_status env tgt = Inr skip"
    using assms(1) by (auto simp: update_target_locked_def Let_def sbind_Inr)
  then have "skip = None" using assms(1) claim new(2) by (cases skip) (auto simp: update_target_locked_def Let_def)
  moreover have "attempt is_update_error (slift (inventory_of env)) s = (Inr (Inr (services, running)), s)"
    using assms(3) by (simp add: attempt_def scatch_def sbind_def)
  ultimately have run: "(if services = [] then no_change env ?result []
      else pull_update env tgt (?result\<lparr>ur_previous := display_images running\<rparr>) services running) s = (Inr r, s')"
    using assms(1) skip by (simp add: update_target_locked_def Let_def)
  have images: "running_images services = Inr running"
    by (rule inventory_images [OF assms(3)])
  show ?thesis
  proof (cases "services = []")
    case True
    then show ?thesis by (simp add: restored_def)
  next
    case False
    then have "pull_update env tgt (?result\<lparr>ur_previous := display_images running\<rparr>) services running s = (Inr r, s')" using run by simp
    from tripleD_Inr [OF pull_restores [OF images assms(4) new(1) assms(5)] TrueI this] claim show ?thesis by simp
  qed
qed

definition example_container :: "string \<Rightarrow> string \<Rightarrow> run_container" where
  "example_container service image_id = \<lparr> pc_name = ''shop-'' @ service @ ''-1'', pc_service = service, pc_image_id = image_id,
     pc_repo_digests = [], pc_running = True, pc_oneoff = False, pc_exit_code = None, pc_restart_policy = ''always'',
     rc_health = Some ''healthy'' \<rparr>"

definition example_inventory :: deployed_inventory where
  "example_inventory = \<lparr> di_project = ''shop'', di_services = [(''web'', \<lparr> ds_name = ''web'', ds_image = Some ''nginx:1'',
     ds_buildable = False, ds_expected = True,
     ds_containers = [project_container.truncate (example_container ''web'' ''sha256:1'')] \<rparr>)] \<rparr>"

definition example_store :: "string \<Rightarrow> image_store" where
  "example_store image_id = (\<lambda>r. if r = ''nginx:1'' then Some (Some \<lparr> li_image_id = image_id, li_repo_digests = [] \<rparr>) else Some None)"

text \<open>The pulled image is unhealthy, the one before it is not.\<close>

definition example_env :: update_env where
  "example_env = \<lparr> ue_block = Inr None, ue_stopped = Inr False, ue_inventory = Inr example_inventory,
     ue_pull = (True, example_store ''sha256:2''), ue_tag_of = (\<lambda>r. r), ue_digests = (\<lambda>_. []), ue_tag_ok = (\<lambda>_. True),
     ue_image_user = (\<lambda>_. Some []), ue_users = Absent, ue_backup = 0, ue_up = (\<lambda>_. Up_Done),
     ue_up_images = (\<lambda>_ images. images),
     ue_looks = (\<lambda>es. [\<lparr> lk_checked = 0, lk_graced = 0, lk_listing = Some
        [(example_container ''web'' ''sha256:1'')\<lparr>rc_health := Some (if length es < 4 then ''unhealthy'' else ''healthy'')\<rparr>] \<rparr>]),
     ue_final = Some [], ue_now = ''now'', ue_can_write = True \<rparr>"

definition example_target :: update_target where
  "example_target = \<lparr> ut_name = ''shop'', ut_compose_files = [''compose.yml''], ut_strategy = PStr ''rollback_to_previous'',
     ut_has_backup = True, ut_is_caddy = False \<rparr>"

definition example_update :: update_state where
  "example_update = \<lparr> us_images = example_store ''sha256:1'', us_drift = Absent, us_record = Absent, us_events = [] \<rparr>"

definition example_running :: "(string \<times> project_container) list" where
  "example_running = [(''web'', project_container.truncate (example_container ''web'' ''sha256:1''))]"

lemma example_inventory_of: "inventory_of example_env = Inr (di_services example_inventory, example_running)"
  by code_simp

theorem old_images_restored_witness:
  "ur_rolled_back (projr (fst (update_target_locked example_env example_target example_update))) = Some True
   \<and> restored (di_services example_inventory) example_running
       (us_images (snd (update_target_locked example_env example_target example_update)))"
proof -
  let ?run = "update_target_locked example_env example_target example_update"
  have b: "ur_rolled_back (projr (fst ?run)) = Some True" "isl (fst ?run) = False" by code_simp+
  have run: "?run = (Inr (projr (fst ?run)), snd ?run)" using b(2) by (simp add: prod_eq_iff sum.collapse(2))
  have one: "one_image_per_tag example_env (di_services example_inventory) example_running"
    by (simp add: one_image_per_tag_def example_inventory_def)
  have pulls: "starts_pull_missing example_env" by (simp add: starts_pull_missing_def example_env_def)
  show ?thesis using old_images_restored [OF run disjI1 [OF b(1)] example_inventory_of one pulls] b(1) by blast
qed

text \<open>
  A service with \<open>pull_policy: always\<close>: the start of the rollback pulls the new image
  again, over the tag that was put back, and the rollback is reported as a success.
\<close>

lemma rollback_pulls_again:
  "(let run = update_target_locked (example_env\<lparr>ue_up_images := (\<lambda>_ _. example_store ''sha256:2'')\<rparr>)
       example_target example_update
    in ur_rolled_back (projr (fst run)) = Some True
       \<and> us_events (snd run) = [Pulled [''web''], Backed_Up 0, Recreated Up_Done, Tagged ''sha256:1'' ''nginx:1'', Recreated Up_Done]
       \<and> us_images (snd run) ''nginx:1'' = Some (Some \<lparr> li_image_id = ''sha256:2'', li_repo_digests = [] \<rparr>))"
  by code_simp

end
