(* ===== verification/Update_Guard.thy ===== *)
theory Update_Guard
  imports Update_Laws
begin

text \<open>When an update recreates, what it checked before, and that its waiting ends.\<close>

section \<open>The calls of an update\<close>

definition quiet :: "update_event list \<Rightarrow> bool" where
  "quiet es \<longleftrightarrow> (\<forall>e\<in>set es. case e of Recreated _ \<Rightarrow> False | _ \<Rightarrow> True)"

definition unalerted :: "update_event list \<Rightarrow> bool" where
  "unalerted es \<longleftrightarrow> (\<forall>e\<in>set es. case e of Drift_Alerted _ \<Rightarrow> False | _ \<Rightarrow> True)"

definition started :: "bool \<Rightarrow> update_event list \<Rightarrow> bool" where
  "started has_backup es \<longleftrightarrow> unalerted es \<and> (\<exists>pre up post. es = pre @ Recreated up # post \<and> quiet pre
     \<and> (has_backup \<longrightarrow> Backed_Up 0 \<in> set pre))"

lemma quiet_append [simp]: "quiet (es @ es') \<longleftrightarrow> quiet es \<and> quiet es'"
  by (auto simp: quiet_def)

lemma unalerted_append [simp]: "unalerted (es @ es') \<longleftrightarrow> unalerted es \<and> unalerted es'"
  by (auto simp: unalerted_def)

lemma quiet_one [simp]: "quiet [Pulled ns]" "quiet [Tagged i r]" "quiet [Tag_Failed i r]" "quiet [Drift_Alerted d]"
    "quiet [Backed_Up rc]" "\<not> quiet [Recreated up]" "quiet []"
    "unalerted [Pulled ns]" "unalerted [Tagged i r]" "unalerted [Tag_Failed i r]" "unalerted [Backed_Up rc]" "unalerted [Recreated up]" "unalerted []"
  by (simp_all add: quiet_def unalerted_def)

lemma started_append: "started b es \<Longrightarrow> unalerted [e] \<Longrightarrow> started b (es @ [e])"
  unfolding started_def by (metis append.assoc append_Cons unalerted_append)

definition keeps_ev :: "(update_event list \<Rightarrow> bool) \<Rightarrow> 'a up \<Rightarrow> bool" where
  "keeps_ev S m \<longleftrightarrow> triple (\<lambda>s. S (us_events s)) m (\<lambda>_ s. S (us_events s)) (\<lambda>_ s. S (us_events s))"

named_theorems keeps_ev_rules \<open>operations that keep a fact of the calls so far\<close>

lemma update_keeps_events [skeeps_rules]:
  "skeeps us_events (wait_healthy env ns os)" "skeeps us_events (current_images env svcs)" "skeeps us_events (persist env r before)"
  "skeeps us_events (record_drift env moved)" "skeeps us_events (local_image_now ref)"
  "skeeps us_events (fail_update env r w before)" "skeeps us_events (no_change env r before)"
  "skeeps us_events (pulled_changes b refs changed)" "skeeps us_events (detect_image_changes running es found)"
  by (auto simp: skeeps_def wait_healthy_def current_images_def persist_def record_drift_def local_image_now_def fail_update_def
      no_change_def Let_def split: sum.split option.split)
    (metis pulled_changes_same prod.collapse, metis detect_same prod.collapse)

lemma keeps_ev_same: "skeeps us_events m \<Longrightarrow> keeps_ev S m"
  unfolding keeps_ev_def by (rule tripleI) (auto dest: skeepsD)

lemmas keeps_ev_basic [keeps_ev_rules] = skeeps_basic [of us_events, THEN keeps_ev_same] update_keeps_events [THEN keeps_ev_same]

lemma keeps_ev_bind [keeps_ev_rules]: "keeps_ev S m \<Longrightarrow> (\<And>x. keeps_ev S (f x)) \<Longrightarrow> keeps_ev S (sbind m f)"
  unfolding keeps_ev_def by (rule triple_bind)

lemma keeps_ev_then [keeps_ev_rules]: "keeps_ev S m \<Longrightarrow> keeps_ev S n \<Longrightarrow> keeps_ev S (sthen m n)"
  unfolding keeps_ev_def by (rule triple_then)

lemma keeps_ev_catch [keeps_ev_rules]: "keeps_ev S m \<Longrightarrow> (\<And>e. keeps_ev S (h e)) \<Longrightarrow> keeps_ev S (scatch C m h)"
  unfolding keeps_ev_def by (rule triple_catch) simp_all

lemma keeps_ev_if [keeps_ev_rules]: "keeps_ev S m \<Longrightarrow> keeps_ev S n \<Longrightarrow> keeps_ev S (if b then m else n)"
  by simp

lemma keeps_ev_when [keeps_ev_rules]: "keeps_ev S m \<Longrightarrow> keeps_ev S (swhen b m)"
  unfolding keeps_ev_def by (rule triple_when) simp_all

lemma keeps_ev_for [keeps_ev_rules]: "(\<And>x. keeps_ev S (f x)) \<Longrightarrow> keeps_ev S (sfor f xs)"
  unfolding keeps_ev_def by (rule triple_for_inv)

lemma keeps_ev_attempt [keeps_ev_rules]: "keeps_ev S m \<Longrightarrow> keeps_ev S (attempt C m)"
  unfolding attempt_def by (intro keeps_ev_rules)

lemma keeps_ev_ops:
  assumes "\<And>es e. S es \<Longrightarrow> unalerted [e] \<Longrightarrow> S (es @ [e])"
  shows "keeps_ev S (tag_back env refs old n)" "keeps_ev S (recreate env)"
  using assms by (auto simp: keeps_ev_def triple_def tag_back_def tag_image_def recreate_def sret_def Let_def
      split: option.split up_outcome.split)

lemma verdict_keeps: "skeeps us_events (verdict env p)"
  unfolding verdict_def by (intro skeeps_rules)

lemma rollback_keeps: "keeps_ev (started b) (maybe_rollback env tgt r p)"
  unfolding maybe_rollback_def
  by (intro keeps_ev_rules keeps_ev_ops started_append)

lemma check_keeps: "keeps_ev (started b) (check_update env tgt r p)"
  unfolding check_update_def split_def
  by (intro keeps_ev_rules keeps_ev_same [OF verdict_keeps] rollback_keeps)

definition calm :: "update_event list \<Rightarrow> bool" where
  "calm es \<longleftrightarrow> quiet es \<and> unalerted es"

definition allowed :: "bool \<Rightarrow> update_event list \<Rightarrow> bool" where
  "allowed b es \<longleftrightarrow> quiet es \<or> started b es"

lemma same_allowed:
  assumes "skeeps us_events m" "\<And>s. P s \<Longrightarrow> allowed b (us_events s)"
  shows "triple P m (\<lambda>_ s. allowed b (us_events s)) (\<lambda>_ s. allowed b (us_events s))"
  by (rule tripleI) (use assms(2) in \<open>auto dest: skeepsD [OF assms(1)]\<close>)

lemma started_allowed:
  assumes "keeps_ev (started b) m"
  shows "triple (\<lambda>s. started b (us_events s)) m (\<lambda>_ s. allowed b (us_events s)) (\<lambda>_ s. allowed b (us_events s))"
  by (rule triple_post [OF assms [unfolded keeps_ev_def]]) (simp_all add: allowed_def)

lemma apply_allowed:
  "triple (\<lambda>s. calm (us_events s)) (apply_update env tgt r p)
     (\<lambda>_ s. allowed (ut_has_backup tgt) (us_events s)) (\<lambda>_ s. allowed (ut_has_backup tgt) (us_events s))"
proof -
  let ?b = "ut_has_backup tgt"
  let ?B = "\<lambda>rc s. calm (us_events s) \<and> (?b \<longrightarrow> Backed_Up rc \<in> set (us_events s))"
  have backup: "triple (\<lambda>s. calm (us_events s)) (if ?b then backup_locked env else sret 0) ?B (\<lambda>_ s. allowed ?b (us_events s))"
    by (simp add: triple_def backup_locked_def calm_def sret_def)
  have up: "triple (?B 0) (recreate env) (\<lambda>_ s. started ?b (us_events s)) (\<lambda>_ s. started ?b (us_events s))"
    unfolding triple_def recreate_def started_def calm_def by (fastforce simp: Let_def split: up_outcome.split)
  have up': "triple (?B 0) (attempt is_docker_error (recreate env)) (\<lambda>_ s. started ?b (us_events s)) (\<lambda>_ s. allowed ?b (us_events s))"
    unfolding attempt_def
    by (rule triple_catch [OF triple_bind [OF up]]) (auto intro: triple_ret simp: allowed_def)
  have fin: "keeps_ev (started ?b) (case u of Inl e \<Rightarrow>
         if e = Refused_Error then fail_update env r Refused_Reason (ur_previous r)
         else sbind (maybe_rollback env tgt (failed_with r Recreate_Reason) p) (\<lambda>x. persist env x (ur_previous r))
     | Inr _ \<Rightarrow> check_update env tgt r p)" for u :: "update_raise + unit"
    by (cases u) (auto intro!: keeps_ev_rules rollback_keeps check_keeps)
  show ?thesis unfolding apply_update_def
  proof (rule triple_bind [OF backup], rule triple_if)
    show "triple (?B rc) (fail_update env r Backup_Reason (ur_previous r)) (\<lambda>_ s. allowed ?b (us_events s)) (\<lambda>_ s. allowed ?b (us_events s))" for rc
      by (rule same_allowed) (simp_all add: skeeps_rules allowed_def calm_def)
    show "triple (?B rc) (sbind (attempt is_docker_error (recreate env)) (\<lambda>u. case u of Inl e \<Rightarrow>
         if e = Refused_Error then fail_update env r Refused_Reason (ur_previous r)
         else sbind (maybe_rollback env tgt (failed_with r Recreate_Reason) p) (\<lambda>x. persist env x (ur_previous r))
     | Inr _ \<Rightarrow> check_update env tgt r p)) (\<lambda>_ s. allowed ?b (us_events s)) (\<lambda>_ s. allowed ?b (us_events s))" if "\<not> rc \<noteq> 0" for rc
      using that by (intro triple_bind [OF triple_pre [OF up']] started_allowed fin) simp
  qed
qed

section \<open>How a run comes to a recreate\<close>

lemma tag_back_quiet: "keeps_ev quiet (tag_back env refs old n)"
  by (auto simp: keeps_ev_def triple_def tag_back_def tag_image_def sret_def split: option.split)

lemma guard_pull_quiet: "guard_pull env refs before s = (r, s') \<Longrightarrow> calm (us_events s) \<Longrightarrow> quiet (us_events s') \<and> (r = Inr [] \<longrightarrow> s' = s)"
proof -
  assume run: "guard_pull env refs before s = (r, s')" and calm: "calm (us_events s)"
  have alert: "keeps_ev quiet (drift_alert d)" for d
    by (simp add: keeps_ev_def triple_def drift_alert_def)
  have "keeps_ev quiet (guard_pull env refs before)"
    unfolding guard_pull_def
    by (intro keeps_ev_rules tag_back_quiet alert)
  then have "quiet (us_events s')" using run calm
    unfolding keeps_ev_def calm_def by (cases r) (auto dest: tripleD_Inr tripleD_Inl)
  moreover have "s' = s" if "r = Inr []"
    using run that pulled_changes_same [of before refs "[]" s]
    by (fastforce simp: guard_pull_def sbind_def sthen_def split: prod.splits sum.splits if_splits)
  ultimately show ?thesis by blast
qed

lemma guard_update_quiet:
  assumes "guard_update env p s = (r, s')" "calm (us_events s)"
  shows "quiet (us_events s') \<and> (r = Inr [] \<longrightarrow> s' = s \<and> guard_pull env (plan_refs p) (plan_old p) s = (Inr [], s))"
proof -
  obtain r1 s1 where 1: "guard_pull env (plan_refs p) (plan_old p) s = (r1, s1)" by fastforce
  note q = guard_pull_quiet [OF 1 assms(2)]
  show ?thesis
  proof (cases r1)
    case (Inl e)
    then show ?thesis using assms(1) 1 q by (auto simp: guard_update_def)
  next
    case (Inr moved)
    let ?rest = "swhen (moved \<noteq> []) (sfor (tag_back env (map_of (plan_refs p)) (plan_old p))
      (filter (\<lambda>n. n \<notin> fst ` set moved) (up_changed p)))"
    obtain r2 s2 where 2: "?rest s1 = (r2, s2)" by fastforce
    have "keeps_ev quiet ?rest" by (intro keeps_ev_rules tag_back_quiet)
    then have "quiet (us_events s2)" using q 2 unfolding keeps_ev_def by (cases r2) (auto dest: tripleD_Inr tripleD_Inl)
    moreover have "(r = Inr [] \<longrightarrow> moved = []) \<and> s' = s2"
      using assms(1) 1 2 Inr by (cases r2) (auto simp: guard_update_def sthen_def sbind_def)
    moreover have "s2 = s1" if "moved = []" using 2 that by simp
    ultimately show ?thesis using q Inr 1 by auto
  qed
qed

lemma failing_same: "fail_update env result w b s = (r, s') \<Longrightarrow> us_events s' = us_events s"
  using skeepsD [OF update_keeps_events(6)] .

lemma unchanged_same: "no_change env result b s = (r, s') \<Longrightarrow> us_events s' = us_events s"
  using skeepsD [OF update_keeps_events(7)] .

lemma attempt_run: "m s = (r, s') \<Longrightarrow> attempt C m s = ((case r of Inr x \<Rightarrow> Inr (Inr x) | Inl e \<Rightarrow> if C e then Inr (Inl e) else Inl e), s')"
  by (cases r) (auto simp: attempt_def scatch_def sbind_def)

lemma guarded_inv:
  assumes run: "guarded_update env tgt result p s = (r, s')" and calm: "calm (us_events s)" and loud: "\<not> quiet (us_events s')"
  shows "apply_update env tgt result p s = (r, s')
    \<and> (ut_is_caddy tgt \<or> guard_pull env (plan_refs p) (plan_old p) s = (Inr [], s))"
proof (cases "ut_is_caddy tgt")
  case True
  then show ?thesis using run by (simp add: guarded_update_def)
next
  case False
  obtain r1 s1 where 1: "guard_update env p s = (r1, s1)" by fastforce
  note q = guard_update_quiet [OF 1 calm]
  note a = attempt_run [where m = "guard_update env p" and s = s and C = "\<lambda>e. is_docker_error e \<or> is_users_error e", OF 1]
  have fails: "quiet (us_events s')" if "fail_update env result w b s1 = (r, s')" for w b
    using that q by (auto dest: failing_same unchanged_same)
  show ?thesis
  proof (cases r1)
    case (Inl e)
    then show ?thesis using run False a fails loud q
      by (cases "is_docker_error e \<or> is_users_error e") (auto simp: guarded_update_def sbind_def)
  next
    case (Inr moved)
    then show ?thesis using run False a fails loud q 1
      by (cases moved) (auto simp: guarded_update_def sbind_def)
  qed
qed

lemma pull_inv:
  assumes run: "pull_update env tgt result services running s = (r, s')" and calm: "calm (us_events s)" and loud: "\<not> quiet (us_events s')"
  shows "\<exists>found s1. calm (us_events s1) \<and> us_images s1 = snd (ue_pull env)
    \<and> detect_image_changes running services [] s1 = (Inr found, s1)
    \<and> guarded_update env tgt result \<lparr> up_services = services, up_running = running, up_changed = map fst found \<rparr> s1 = (r, s')"
proof -
  obtain r1 s1 where 1: "compose_pull env (sort (map fst services)) s = (r1, s1)" by fastforce
  then have s1: "us_images s1 = snd (ue_pull env)" "calm (us_events s1)"
    using calm by (auto simp: compose_pull_def calm_def split: prod.splits)
  have fails: "quiet (us_events s')" if "fail_update env result w b s1 = (r, s')" for w b
    using that s1 by (auto simp: calm_def dest: failing_same unchanged_same)
  have same: "quiet (us_events s')" if "no_change env result b s1 = (r, s')" for b
    using that s1 by (auto simp: calm_def dest: failing_same unchanged_same)
  obtain r2 s2 where 2: "detect_image_changes running services [] s1 = (r2, s2)" by fastforce
  have s2: "s2 = s1" by (rule detect_same [OF 2])
  note a1 = attempt_run [where m = "compose_pull env (sort (map fst services))" and s = s and C = is_docker_error, OF 1]
  note a2 = attempt_run [where m = "detect_image_changes running services []" and s = s1 and C = "\<lambda>e. is_docker_error e \<or> is_update_error e", OF 2]
  have ok: "r1 = Inr ()"
  proof (cases r1)
    case (Inl e)
    then have "is_docker_error e" using 1 by (auto simp: compose_pull_def is_docker_error_def split: prod.splits if_splits)
    then show ?thesis using run a1 Inl fails loud by (simp add: pull_update_def sbind_def)
  qed simp
  show ?thesis
  proof (cases r2)
    case (Inl e)
    then show ?thesis using run a1 a2 ok fails loud s1 s2
      by (cases "is_docker_error e \<or> is_update_error e") (auto simp: pull_update_def sbind_def calm_def)
  next
    case (Inr found)
    then have "found \<noteq> []" using run a1 a2 ok same loud s2 by (auto simp: pull_update_def sbind_def)
    then have "guarded_update env tgt result \<lparr> up_services = services, up_running = running, up_changed = map fst found \<rparr> s1 = (r, s')"
      using run a1 a2 ok Inr s2 by (cases found) (auto simp: pull_update_def sbind_def)
    then show ?thesis using s1 s2 2 Inr by blast
  qed
qed

lemma update_inv:
  assumes run: "update_target_locked env tgt s = (r, s')" and calm: "us_events s = []" and loud: "\<not> quiet (us_events s')"
  shows "skip_status env tgt = Inr None \<and> (\<exists>services running. inventory_of env = Inr (services, running)
    \<and> pull_update env tgt ((new_result env tgt)\<lparr>ur_previous := display_images running\<rparr>) services running s = (r, s'))"
proof -
  let ?result = "new_result env tgt"
  have q: "quiet (us_events s)" using calm by simp
  obtain skip where skip: "skip_status env tgt = Inr skip"
    using run loud q by (cases "skip_status env tgt") (auto simp: update_target_locked_def Let_def)
  have none: "skip = None" using run skip loud q by (cases skip) (auto simp: update_target_locked_def Let_def)
  have a: "attempt is_update_error (slift (inventory_of env)) s
      = ((case inventory_of env of Inr x \<Rightarrow> Inr (Inr x) | Inl e \<Rightarrow> if is_update_error e then Inr (Inl e) else Inl e), s)"
    by (rule attempt_run) simp
  have fails: "quiet (us_events s')" if "fail_update env ?result w b s = (r, s')" for w b
    using that q by (auto dest: failing_same unchanged_same)
  have same: "quiet (us_events s')" if "no_change env ?result b s = (r, s')" for b
    using that q by (auto dest: failing_same unchanged_same)
  show ?thesis
  proof (cases "inventory_of env")
    case (Inl e)
    then show ?thesis using run skip none a fails loud q
      by (cases "is_update_error e") (auto simp: update_target_locked_def Let_def sbind_def)
  next
    case (Inr x)
    then show ?thesis using run skip none a same loud q
      by (cases x) (auto simp: update_target_locked_def Let_def sbind_def split: if_splits)
  qed
qed

section \<open>What a recreate means\<close>

lemma not_quietI: "Recreated up \<in> set es \<Longrightarrow> \<not> quiet es"
  by (force simp: quiet_def)

lemma not_quiet_mem: "quiet es \<Longrightarrow> Recreated up \<notin> set es"
  by (force simp: quiet_def)

lemma not_alerted: "unalerted es \<Longrightarrow> Drift_Alerted d \<notin> set es"
  by (force simp: unalerted_def)

lemma drift_none:
  assumes "drift env changed = Inr []" "(n, ref) \<in> set changed" "read_users (ue_users env) = Inr users"
    and "map_of users n = Some u" "emitted u = None" "su_source u \<noteq> From_Compose"
  shows "\<exists>new. ue_image_user env ref = Some new \<and> identity new = identity (su_image_user u)"
proof -
  obtain es where es: "rmap (drift_entry env users) (sort_key fst changed) = Inr es" "List.map_filter (\<lambda>e. e) es = []"
    using assms(1,3) by (auto simp: drift_def from_raised_def rbind_eq_Inr)
  obtain i where "i < length (sort_key fst changed)" "sort_key fst changed ! i = (n, ref)"
    using assms(2) by (metis in_set_conv_nth set_sort)
  then obtain e where e: "e \<in> set es" "drift_entry env users (n, ref) = Inr e"
    using es(1) by (auto simp: rmap_eq_Inr_iff list_all2_conv_all_nth) (metis nth_mem)
  have "e = None" using es(2) e(1) by (induction es) (auto simp: map_filter_simps split: option.splits)
  then show ?thesis using e(2) assms(4-6) by (auto simp: drift_entry_def split: option.splits if_splits)
qed

text \<open>
  What the guard saw before a recreate of a project: every service whose reference
  names another image than its containers run, and none of them with another user.
\<close>

lemma guard_checked:
  assumes "update_target_locked env tgt s = (r, s')" "us_events s = []" "\<not> quiet (us_events s')" "\<not> ut_is_caddy tgt"
    and "inventory_of env = Inr (services, running)"
  obtains changed where "drift env changed = Inr []"
    and "\<And>n svc c img. map_of services n = Some svc \<Longrightarrow> map_of running n = Some c
      \<Longrightarrow> snd (ue_pull env) (service_image svc) = Some (Some img) \<Longrightarrow> li_image_id img \<noteq> pc_image_id c
      \<Longrightarrow> (n, service_image svc) \<in> set changed"
proof -
  have run: "pull_update env tgt ((new_result env tgt)\<lparr>ur_previous := display_images running\<rparr>) services running s = (r, s')"
    using update_inv [OF assms(1,2,3)] assms(5) by auto
  have calm: "calm (us_events s)" using assms(2) by (simp add: calm_def)
  let ?plan = "\<lambda>found. \<lparr> up_services = services, up_running = running, up_changed = map fst found \<rparr>"
  obtain found s1 result where 1: "calm (us_events s1)" "us_images s1 = snd (ue_pull env)"
    "detect_image_changes running services [] s1 = (Inr found, s1)" "guarded_update env tgt result (?plan found) s1 = (r, s')"
    using pull_inv [OF run calm assms(3)] by blast
  have g: "guard_pull env (plan_refs (?plan found)) (plan_old (?plan found)) s1 = (Inr [], s1)"
    using guarded_inv [OF 1(4,1) assms(3)] assms(4) by blast
  obtain changed s2 where 2: "pulled_changes (plan_old (?plan found)) (plan_refs (?plan found)) [] s1 = (Inr changed, s2)"
    and d: "drift env changed = Inr []"
    using g by (auto simp: guard_pull_def sbind_Inr split: if_splits) (auto simp: sthen_def sbind_Inr)
  show ?thesis
  proof (rule that [OF d])
    fix n svc c img
    assume n: "map_of services n = Some svc" "map_of running n = Some c"
      and img: "snd (ue_pull env) (service_image svc) = Some (Some img)" "li_image_id img \<noteq> pc_image_id c"
    have new: "n \<in> fst ` set found"
      using bspec [OF conjunct2 [OF detect_changes [OF 1(3)]] map_of_SomeD [OF n(1)]] 1(2) n(2) img by auto
    have "map_of (plan_refs (?plan found)) n = Some (service_image svc)"
      unfolding plan_refs_def update_plan.simps map_of_plan using new n(1) by simp
    then have ref: "(n, service_image svc) \<in> set (plan_refs (?plan found))" by (rule map_of_SomeD)
    show "(n, service_image svc) \<in> set changed"
      using pulled_changes_same [OF 2] ref 1(2) n(2) img by (fastforce simp: plan_old_def)
  qed
qed

text \<open>
  The service's user is the one it had: it is recorded, and pinned by the record or by
  the compose file, or the image \<open>ref\<close> declares the user its image had; or the service
  is not in the record, which then holds no decision for it.
\<close>

definition same_user :: "update_env \<Rightarrow> string \<Rightarrow> string \<Rightarrow> bool" where
  "same_user env n ref \<longleftrightarrow> (\<exists>users. read_users (ue_users env) = Inr users
     \<and> (case map_of users n of
          None \<Rightarrow> True
        | Some u \<Rightarrow> emitted u \<noteq> None \<or> su_source u = From_Compose
            \<or> (\<exists>new. ue_image_user env ref = Some new \<and> identity new = identity (su_image_user u))))"

lemma drift_same_user:
  assumes "drift env changed = Inr []" "(n, ref) \<in> set changed"
  shows "same_user env n ref"
proof -
  obtain users where users: "read_users (ue_users env) = Inr users"
    using assms(1) by (auto simp: drift_def from_raised_def rbind_eq_Inr split: sum.splits raised.splits)
  show ?thesis
  proof (cases "map_of users n")
    case None
    then show ?thesis using users by (simp add: same_user_def)
  next
    case (Some u)
    then show ?thesis using drift_none [OF assms users Some] users by (auto simp: same_user_def)
  qed
qed

text \<open>C7. Containers are recreated only past every guard: when an update recreates a project, the project was neither
  paused nor quarantined nor being migrated nor stopped by the health monitor; no service whose pulled image is
  another than its containers run would run as another user than the users record says; and, where the project
  has a backup command, the first recreate came after a backup that succeeded.  Caddy, which is no project, is
  held to the last of these.\<close>

theorem recreate_is_guarded:
  assumes "update_target_locked env tgt s = (r, s')" "us_events s = []" "Recreated up \<in> set (us_events s')"
  shows "(ut_is_caddy tgt \<or> ue_block env = Inr None \<and> ue_stopped env = Inr False)
    \<and> (ut_is_caddy tgt \<or> (\<exists>services running. inventory_of env = Inr (services, running)
        \<and> (\<forall>n svc c img. map_of services n = Some svc \<and> map_of running n = Some c
            \<and> snd (ue_pull env) (service_image svc) = Some (Some img) \<and> li_image_id img \<noteq> pc_image_id c
            \<longrightarrow> same_user env n (service_image svc))))
    \<and> (\<forall>d. Drift_Alerted d \<notin> set (us_events s'))
    \<and> (\<exists>pre first post. us_events s' = pre @ Recreated first # post \<and> (\<forall>o'. Recreated o' \<notin> set pre)
        \<and> (\<not> ut_has_backup tgt \<or> Backed_Up 0 \<in> set pre))"
proof -
  have loud: "\<not> quiet (us_events s')" using assms(3) by (rule not_quietI)
  obtain services running where skip: "skip_status env tgt = Inr None" and inv: "inventory_of env = Inr (services, running)"
    and run: "pull_update env tgt ((new_result env tgt)\<lparr>ur_previous := display_images running\<rparr>) services running s = (r, s')"
    using update_inv [OF assms(1,2) loud] by blast
  have calm: "calm (us_events s)" using assms(2) by (simp add: calm_def)
  obtain p s1 result where 1: "calm (us_events s1)" "guarded_update env tgt result p s1 = (r, s')"
    using pull_inv [OF run calm loud] by blast
  have "apply_update env tgt result p s1 = (r, s')" using guarded_inv [OF 1(2,1) loud] by blast
  then have "allowed (ut_has_backup tgt) (us_events s')"
    using tripleD_Inr [OF apply_allowed 1(1)] tripleD_Inl [OF apply_allowed 1(1)] by (cases r) blast+
  then have st: "started (ut_has_backup tgt) (us_events s')" using loud by (simp add: allowed_def)
  have "ut_is_caddy tgt \<or> ue_block env = Inr None \<and> ue_stopped env = Inr False"
    using skip by (auto simp: skip_status_def from_raised_def rbind_eq_Inr split: if_splits sum.splits raised.splits option.splits)
  moreover have users: "same_user env n (service_image svc)"
    if caddy: "\<not> ut_is_caddy tgt" and n: "map_of services n = Some svc" "map_of running n = Some c"
      "snd (ue_pull env) (service_image svc) = Some (Some img)" "li_image_id img \<noteq> pc_image_id c" for n svc c img
    using guard_checked [OF assms(1,2) loud caddy inv] drift_same_user n by metis
  moreover have "\<forall>d. Drift_Alerted d \<notin> set (us_events s')" using st not_alerted by (auto simp: started_def)
  moreover obtain pre first post where "us_events s' = pre @ Recreated first # post" "quiet pre" "ut_has_backup tgt \<longrightarrow> Backed_Up 0 \<in> set pre"
    using st by (auto simp: started_def)
  ultimately show ?thesis using not_quiet_mem inv by blast
qed

theorem recreate_is_guarded_witness:
  "us_events (snd (update_target_locked example_env example_target example_update))
     = [Pulled [''web''], Backed_Up 0, Recreated Up_Done, Tagged ''sha256:1'' ''nginx:1'', Recreated Up_Done]
   \<and> (\<exists>pre first post. us_events (snd (update_target_locked example_env example_target example_update)) = pre @ Recreated first # post
        \<and> Backed_Up 0 \<in> set pre)"
proof -
  let ?run = "update_target_locked example_env example_target example_update"
  have es: "us_events (snd ?run) = [Pulled [''web''], Backed_Up 0, Recreated Up_Done, Tagged ''sha256:1'' ''nginx:1'', Recreated Up_Done]"
    by code_simp
  have start: "us_events example_update = []" and b: "ut_has_backup example_target" by code_simp+
  have mem: "Recreated Up_Done \<in> set (us_events (snd ?run))" by (simp add: es)
  show ?thesis using recreate_is_guarded [OF surjective_pairing start mem] es b by blast
qed

text \<open>C9. An update never changes who writes a service's data: where the users record says that a service runs as its
  image's own user, a recreate of a project whose pull brought a new image for that service means that the new
  image declares the same user as the one recorded.\<close>

theorem recreate_keeps_users:
  assumes "update_target_locked env tgt s = (r, s')" "us_events s = []" "Recreated up \<in> set (us_events s')" "\<not> ut_is_caddy tgt"
    and "inventory_of env = Inr (services, running)" "map_of services n = Some svc" "map_of running n = Some c"
    and "snd (ue_pull env) (service_image svc) = Some (Some img)" "li_image_id img \<noteq> pc_image_id c"
    and "read_users (ue_users env) = Inr users" "map_of users n = Some u" "emitted u = None" "su_source u \<noteq> From_Compose"
  shows "\<exists>new. ue_image_user env (service_image svc) = Some new \<and> identity new = identity (su_image_user u)"
proof -
  have loud: "\<not> quiet (us_events s')" using assms(3) by (rule not_quietI)
  obtain changed where d: "drift env changed = Inr []" and new: "(n, service_image svc) \<in> set changed"
    using guard_checked [OF assms(1,2) loud assms(4,5)] assms(6-9) by metis
  show ?thesis by (rule drift_none [OF d new assms(10-13)])
qed

definition example_user_env :: update_env where
  "example_user_env = example_env\<lparr>ue_users := Doc (users_doc [(''web'', \<lparr> su_user = None, su_source = From_Image, su_image_user = ''app'' \<rparr>)]),
     ue_image_user := (\<lambda>_. Some ''app:web'')\<rparr>"

theorem recreate_keeps_users_witness:
  "Recreated Up_Done \<in> set (us_events (snd (update_target_locked example_user_env example_target example_update)))
   \<and> (\<exists>new. ue_image_user example_user_env ''nginx:1'' = Some new \<and> identity new = ''app'')"
proof -
  let ?run = "update_target_locked example_user_env example_target example_update"
  let ?svc = "snd (hd (di_services example_inventory))" and ?c = "project_container.truncate (example_container ''web'' ''sha256:1'')"
    and ?u = "\<lparr> su_user = None, su_source = From_Image, su_image_user = ''app'' \<rparr>"
    and ?img = "\<lparr> li_image_id = ''sha256:2'', li_repo_digests = [] \<rparr>"
  have mem: "Recreated Up_Done \<in> set (us_events (snd ?run))" and start: "us_events example_update = []"
    and caddy: "\<not> ut_is_caddy example_target" by code_simp+
  have inv: "inventory_of example_user_env = Inr (di_services example_inventory, example_running)" by code_simp
  have svc: "map_of (di_services example_inventory) ''web'' = Some ?svc" "map_of example_running ''web'' = Some ?c" by code_simp+
  have img: "snd (ue_pull example_user_env) (service_image ?svc) = Some (Some ?img)" "li_image_id ?img \<noteq> pc_image_id ?c" by code_simp+
  have users: "read_users (ue_users example_user_env) = Inr [(''web'', ?u)]" "map_of [(''web'', ?u)] ''web'' = Some ?u"
    "emitted ?u = None" "su_source ?u \<noteq> From_Compose" by code_simp+
  have id: "identity (su_image_user ?u) = ''app''" "service_image ?svc = ''nginx:1''" by code_simp+
  show ?thesis
    using recreate_keeps_users [OF surjective_pairing start mem caddy inv svc img users] mem unfolding id by blast
qed

section \<open>Waiting ends\<close>

lemma wait_rounds_ends:
  assumes "\<exists>l\<in>set looks. healthcheck_timeout \<le> lk_checked l"
  shows "\<exists>v. wait_rounds looks names one_shots settling = Some v"
  using assms
proof (induction looks arbitrary: settling)
  case (Cons l ls)
  show ?case
  proof (cases "healthcheck_timeout \<le> lk_checked l")
    case False
    then have "\<exists>l\<in>set ls. healthcheck_timeout \<le> lk_checked l" using Cons.prems by auto
    from Cons.IH [OF this] False show ?thesis by (auto split: option.split prod.split)
  qed simp
qed simp

lemma health_round_settled:
  assumes "health_round listing names one_shots g = ([], [])" "n \<in> set names"
  shows "service_health_of listing one_shots g n = Settled"
  using assms by (cases "service_health_of listing one_shots g n") (auto simp: health_round_def filter_empty_conv)

lemma wait_rounds_healthy:
  "wait_rounds looks names one_shots settling = Some (Some (True, ns)) \<Longrightarrow>
   \<exists>l\<in>set looks. lk_checked l < healthcheck_timeout \<and> (\<exists>listing. lk_listing l = Some listing
     \<and> (\<forall>n\<in>set names. service_health_of listing one_shots (lk_graced l < no_healthcheck_grace) n = Settled))"
proof (induction looks arbitrary: settling)
  case (Cons l ls)
  obtain listing where l: "lk_listing l = Some listing" "lk_checked l < healthcheck_timeout"
    using Cons.prems by (auto split: if_splits option.splits)
  obtain a b where r: "health_round listing names one_shots (lk_graced l < no_healthcheck_grace) = (a, b)" by fastforce
  show ?case
  proof (cases "a = []")
    case True
    then have "b = []" using Cons.prems l r by (auto split: if_splits)
    then show ?thesis using l r True health_round_settled by auto
  next
    case False
    then have "wait_rounds ls names one_shots a = Some (Some (True, ns))" using Cons.prems l r by (auto split: if_splits)
    from Cons.IH [OF this] show ?thesis by auto
  qed
qed simp

text \<open>C10. Waiting for health ends: with a clock that never runs slower than the pauses between two looks, at most 31
  looks give a verdict, and it is good only if one look before the deadline found every service settled.\<close>

theorem wait_ends:
  assumes "31 \<le> length looks"
    and "\<And>i. i < length looks \<Longrightarrow> int i * healthcheck_poll_interval \<le> lk_checked (looks ! i)"
  shows "\<exists>v. wait_rounds looks names one_shots names = Some v
    \<and> (\<forall>ns. v = Some (True, ns) \<longrightarrow> (\<exists>l\<in>set looks. lk_checked l < healthcheck_timeout \<and> (\<exists>listing. lk_listing l = Some listing
         \<and> (\<forall>n\<in>set names. service_health_of listing one_shots (lk_graced l < no_healthcheck_grace) n = Settled))))"
proof -
  have "healthcheck_timeout \<le> lk_checked (looks ! 30)" "looks ! 30 \<in> set looks"
    using assms(1) assms(2) [of 30] by (simp_all add: healthcheck_timeout_def healthcheck_poll_interval_def second_def)
  then obtain v where "wait_rounds looks names one_shots names = Some v" using wait_rounds_ends by blast
  then show ?thesis using wait_rounds_healthy by blast
qed

definition example_looks :: "look list" where
  "example_looks = map (\<lambda>i. \<lparr> lk_checked = int i * healthcheck_poll_interval, lk_graced = 0, lk_listing = Some [] \<rparr>) [0..<31]"

theorem wait_ends_witness:
  "wait_rounds example_looks [''web''] [] [''web''] = Some (Some (False, [''web'']))
   \<and> (\<exists>v. wait_rounds example_looks [''web''] [] [''web''] = Some v)"
proof -
  have l: "31 \<le> length example_looks" by (simp add: example_looks_def)
  have t: "\<And>i. i < length example_looks \<Longrightarrow> int i * healthcheck_poll_interval \<le> lk_checked (example_looks ! i)"
    by (simp add: example_looks_def)
  have "wait_rounds example_looks [''web''] [] [''web''] = Some (Some (False, [''web'']))"
    by (simp add: example_looks_def upt_rec healthcheck_timeout_def second_def health_round_def service_health_of_def managed_def Let_def)
  with wait_ends [OF l t, of "[''web'']" "[]"] show ?thesis by blast
qed

section \<open>What success means\<close>











text \<open>The same update where the new image is healthy.\<close>

definition example_healthy_env :: update_env where
  "example_healthy_env = example_env\<lparr>ue_looks := (\<lambda>es. [\<lparr> lk_checked = 0, lk_graced = 0,
     lk_listing = Some [example_container ''web'' ''sha256:2''] \<rparr>])\<rparr>"


section \<open>Where the code falls short\<close>

text \<open>
  Two services of one tag whose containers run different images: a rollback tags the
  image of the first, then that of the second, so the first service comes back on the
  second's image and the rollback is reported as a success.
\<close>

definition shared_inventory :: deployed_inventory where
  "shared_inventory = \<lparr> di_project = ''shop'', di_services = map (\<lambda>(n, i). (n, \<lparr> ds_name = n, ds_image = Some ''nginx:1'',
     ds_buildable = False, ds_expected = True, ds_containers = [project_container.truncate (example_container n i)] \<rparr>))
     [(''api'', ''sha256:0''), (''web'', ''sha256:1'')] \<rparr>"

lemma shared_tag_mixes:
  "(let run = update_target_locked (example_env\<lparr>ue_inventory := Inr shared_inventory,
       ue_looks := (\<lambda>es. [\<lparr> lk_checked = 0, lk_graced = 0, lk_listing = Some (map (\<lambda>n. (example_container n [])
          \<lparr>rc_health := Some (if length es < 4 then ''unhealthy'' else ''healthy'')\<rparr>) [''api'', ''web'']) \<rparr>])\<rparr>)
       example_target example_update
    in ur_rolled_back (projr (fst run)) = Some True
       \<and> us_images (snd run) ''nginx:1'' = Some (Some \<lparr> li_image_id = ''sha256:1'', li_repo_digests = [] \<rparr>))"
  by code_simp

text \<open>
  A failed backup leaves the pulled image under the tag, so the next start of any
  kind runs it without one.
\<close>

lemma backup_failure_leaves_tags:
  "(let run = update_target_locked (example_env\<lparr>ue_backup := 1\<rparr>) example_target example_update
    in ur_reason (projr (fst run)) = Some Backup_Reason
       \<and> us_images (snd run) ''nginx:1'' = Some (Some \<lparr> li_image_id = ''sha256:2'', li_repo_digests = [] \<rparr>))"
  by code_simp

text \<open>A state file that does not parse is never replaced: the update is done, and every run of it raises.\<close>

lemma corrupt_state_stays:
  "(let run = update_target_locked example_healthy_env example_target (example_update\<lparr>us_record := Unparseable\<rparr>)
    in fst run = Inl (Escapes ValueError) \<and> us_record (snd run) = Unparseable
       \<and> us_events (snd run) = [Pulled [''web''], Backed_Up 0, Recreated Up_Done])"
  by code_simp

end
