(* ===== verification/Update_Run.thy ===== *)
theory Update_Run
  imports Update_Guard
begin

text \<open>
  \<^verbatim>\<open>src/boxmunge/commands/container_update_cmd.py\<close>: the dry run of a target, what
  a run does with one project under its lock, and the run over all targets, Caddy
  first.  The locks, the log lines and the alert's delivery are left out.
\<close>

section \<open>The dry run\<close>

datatype run_reason = Update_Why update_reason | Raised_Why update_raise

record run_result =
  rr_status :: string
  rr_reason :: "run_reason option"
  rr_previous :: "(string \<times> string) list"
  rr_current :: "(string \<times> string) list"
  rr_pending :: "string list"

definition run_result :: "string \<Rightarrow> run_reason option \<Rightarrow> (string \<times> string) list \<Rightarrow> (string \<times> string) list \<Rightarrow> run_result" where
  "run_result st why previous current =
     \<lparr> rr_status = st, rr_reason = why, rr_previous = previous, rr_current = current, rr_pending = [] \<rparr>"

definition dry_failed :: "update_reason \<Rightarrow> (string \<times> string) list \<Rightarrow> (string \<times> string) list \<Rightarrow> run_result up" where
  "dry_failed why previous current = sret (run_result ''failed'' (Some (Update_Why why)) previous current)"

definition dry_found :: "(string \<times> string) list \<Rightarrow> (string \<times> string) list \<Rightarrow> run_result up" where
  "dry_found before changed = sret (if changed = [] then run_result ''no_change'' None before before
     else run_result ''would_change'' None before changed)"

definition dry_guarded :: "update_env \<Rightarrow> update_target \<Rightarrow> services \<Rightarrow> (string \<times> project_container) list
    \<Rightarrow> (string \<times> string) list \<Rightarrow> run_result up" where
  "dry_guarded env tgt services running changed =
     (let before = display_images running;
          p = \<lparr> up_services = services, up_running = running, up_changed = map fst changed \<rparr> in
      if changed = [] \<or> ut_is_caddy tgt then dry_found before changed
      else sbind (attempt (\<lambda>e. is_docker_error e \<or> is_users_error e) (guard_pull env (plan_refs p) (plan_old p))) (\<lambda>r. case r of
        Inl e \<Rightarrow> dry_failed (Inventory_Reason e) before before
      | Inr held \<Rightarrow> if held \<noteq> [] then dry_failed (User_Changed held) before changed else dry_found before changed))"

definition dry_pulled :: "update_env \<Rightarrow> update_target \<Rightarrow> services \<Rightarrow> (string \<times> project_container) list \<Rightarrow> run_result up" where
  "dry_pulled env tgt services running =
     (let before = display_images running in
      sbind (attempt is_docker_error (compose_pull env (sort (map fst services)))) (\<lambda>pulled. case pulled of
        Inl _ \<Rightarrow> dry_failed Pull_Reason before before
      | Inr _ \<Rightarrow>
          sbind (attempt (\<lambda>e. is_docker_error e \<or> is_update_error e) (detect_image_changes running services [])) (\<lambda>found.
          case found of
            Inl e \<Rightarrow> dry_failed (Inventory_Reason e) before before
          | Inr changed \<Rightarrow> dry_guarded env tgt services running changed)))"

definition dry_run_target :: "update_env \<Rightarrow> update_target \<Rightarrow> run_result up" where
  "dry_run_target env tgt =
     sbind (attempt is_update_error (slift (inventory_of env))) (\<lambda>inv. case inv of
       Inl e \<Rightarrow> dry_failed (Inventory_Reason e) [] []
     | Inr (services, running) \<Rightarrow>
         if services = [] then sret (run_result ''no_change'' None [] []) else dry_pulled env tgt services running)"

section \<open>One project under its lock\<close>

definition of_update :: "update_result \<Rightarrow> run_result" where
  "of_update r = run_result (ur_status r) (map_option Update_Why (ur_reason r)) (ur_previous r) (ur_current r)"

text \<open>\<open>except Exception\<close>: everything the code can raise; a run whose given looks end is none of its results.\<close>

definition is_exception :: "update_raise \<Rightarrow> bool" where
  "is_exception e \<longleftrightarrow> e \<noteq> Still_Waiting"

definition update_one :: "update_env \<Rightarrow> update_target \<Rightarrow> bool \<Rightarrow> run_result up" where
  "update_one env tgt dry_run =
     scatch is_exception
       (if dry_run then dry_run_target env tgt else sbind (update_target_locked env tgt) (\<lambda>r. sret (of_update r)))
       (\<lambda>e. sret (run_result ''failed'' (Some (Raised_Why e)) [] []))"

definition prefetch_paused :: "update_env \<Rightarrow> update_target \<Rightarrow> run_result up" where
  "prefetch_paused env tgt =
     sbind (scatch is_exception (dry_run_target env tgt)
       (\<lambda>e. sret (run_result ''failed'' (Some (Raised_Why e)) [] []))) (\<lambda>r.
     sret (r\<lparr>rr_status := ''paused'',
       rr_pending := (if rr_status r = ''would_change'' then sort (map fst (rr_current r)) else [])\<rparr>))"

definition update_project_locked :: "update_env \<Rightarrow> update_target \<Rightarrow> bool \<Rightarrow> run_result up" where
  "update_project_locked env tgt dry_run =
     sbind (slift (from_raised Box_Error (ue_block env))) (\<lambda>bl. case bl of
       Some k \<Rightarrow> (case bl_reason k of
           Br_Migrating \<Rightarrow> sret (run_result ''migrating'' None [] [])
         | Br_Quarantined \<Rightarrow> sret (run_result ''quarantined'' None [] [])
         | Br_Paused \<Rightarrow> prefetch_paused env tgt)
     | None \<Rightarrow>
         sbind (slift (from_raised Box_Error (ue_stopped env))) (\<lambda>stopped.
         if stopped then sret (run_result ''monitor_stopped'' None [] []) else update_one env tgt dry_run))"

section \<open>The run\<close>

text \<open>
  What a run does is told by the outcome of each attempt at a target: \<open>attempt_of\<close>
  gives the status of the first and of the second attempt (a target whose project
  lock is held is tried once more), or the exception that leaves it and ends the run.
\<close>

type_synonym statuses = "(string \<times> string) list"
type_synonym attempts = "nat \<Rightarrow> update_target \<Rightarrow> update_raise + string"

definition try_target :: "attempts \<Rightarrow> nat \<Rightarrow> update_target \<Rightarrow> update_raise + string \<times> string" where
  "try_target attempt_of k t = rbind (attempt_of k t) (\<lambda>st. Inr (ut_name t, st))"

definition retry_one :: "attempts \<Rightarrow> update_target list \<Rightarrow> string \<times> string \<Rightarrow> update_raise + string \<times> string" where
  "retry_one attempt_of targets result = (case result of (n, st) \<Rightarrow>
     if st \<noteq> ''skipped_locked'' then Inr result
     else (case find (\<lambda>t. ut_name t = n) (rev targets) of
         Some t \<Rightarrow> try_target attempt_of 1 t
       | None \<Rightarrow> Inl (Escapes KeyError)))"

fun update_caddy :: "attempts \<Rightarrow> update_target list \<Rightarrow> statuses \<Rightarrow> update_raise + statuses \<times> bool" where
  "update_caddy attempt_of [] results = Inr (results, True)"
| "update_caddy attempt_of (t # ts) results =
     (if \<not> ut_is_caddy t then update_caddy attempt_of ts results
      else rbind (try_target attempt_of 0 t) (\<lambda>r.
        if snd r = ''failed'' then Inr (results @ [r], False) else update_caddy attempt_of ts (results @ [r])))"

definition update_all :: "attempts \<Rightarrow> update_target list \<Rightarrow> update_raise + nat \<times> statuses" where
  "update_all attempt_of targets =
     rbind (update_caddy attempt_of targets []) (\<lambda>(results, ok).
     if \<not> ok then Inr (1, results)
     else rbind (rmap (try_target attempt_of 0) (filter (\<lambda>t. \<not> ut_is_caddy t) targets)) (\<lambda>more.
          rbind (rmap (retry_one attempt_of targets) (results @ more)) (\<lambda>all.
          Inr (if list_ex (\<lambda>(n, st). st = ''failed'') all then 1 else 0, all))))"

datatype run_gate = Gate_Migrating | Gate_Locked | Gate_Probation | Gate_Config | Gate_Disabled | Gate_Not_Enrolled

record run_input =
  ri_migrating :: bool
  ri_lock_held :: bool
  ri_probation :: bool
  ri_config :: "pydict option"
  ri_overlay :: "string \<Rightarrow> bool option"
  ri_projects :: "project_entry list option"

text \<open>The gates before the first target: the exit code of a run that ends there.\<close>

definition gated :: "nat \<Rightarrow> run_gate \<Rightarrow> update_raise + nat \<times> (run_gate + statuses)" where
  "gated exit_code g = Inr (exit_code, Inl g)"

definition updates_enabled :: "pydict \<Rightarrow> py_exc + bool" where
  "updates_enabled config =
     rbind (py_get_or (dget_or config ''container_updates'' (PDict [])) ''enabled'' (PBool True)) (\<lambda>v. Inr (py_truthy v))"

definition escaping :: "py_exc + 'a \<Rightarrow> update_raise + 'a" where
  "escaping r = (case r of Inl x \<Rightarrow> Inl (Escapes x) | Inr y \<Rightarrow> Inr y)"

definition run_container_update :: "run_input \<Rightarrow> attempts \<Rightarrow> bool \<Rightarrow> string option
    \<Rightarrow> update_raise + nat \<times> (run_gate + statuses)" where
  "run_container_update inp attempt_of force only =
     (if ri_migrating inp then gated 1 Gate_Migrating
      else if ri_lock_held inp then gated 0 Gate_Locked
      else if \<not> force \<and> ri_probation inp then gated 0 Gate_Probation
      else case ri_config inp of
        None \<Rightarrow> gated 1 Gate_Config
      | Some config \<Rightarrow>
          rbind (escaping (updates_enabled config)) (\<lambda>enabled.
          if \<not> enabled then gated 0 Gate_Disabled
          else rbind (escaping (build_targets (ri_overlay inp) config (ri_projects inp))) (\<lambda>(targets, failed).
            let chosen = (case only of None \<Rightarrow> targets
              | Some n \<Rightarrow> if n = [] then targets else filter (\<lambda>t. ut_name t = n) targets) in
            if chosen = [] \<and> only \<notin> {None, Some []} then gated 1 Gate_Not_Enrolled
            else rbind (update_all attempt_of chosen) (\<lambda>(exit_code, results). Inr (exit_code, Inr results)))))"

section \<open>Nothing is recreated where nothing may be\<close>

text \<open>The calls that touch no container and no data: a pull, a tag, and the alert that an image was held back.\<close>

definition pull_or_tag :: "update_event \<Rightarrow> bool" where
  "pull_or_tag e \<longleftrightarrow> (case e of
     Pulled _ \<Rightarrow> True | Tagged _ _ \<Rightarrow> True | Tag_Failed _ _ \<Rightarrow> True | Drift_Alerted _ \<Rightarrow> True
   | Backed_Up _ \<Rightarrow> False | Recreated _ \<Rightarrow> False)"

lemma tag_back_only: "keeps_ev (list_all pull_or_tag) (tag_back env refs old n)"
  by (auto simp: keeps_ev_def triple_def tag_back_def tag_image_def sret_def pull_or_tag_def split: option.split)

lemma compose_pull_quiet: "keeps_ev (list_all pull_or_tag) (compose_pull env ns)"
  by (auto simp: keeps_ev_def triple_def compose_pull_def pull_or_tag_def split: prod.split)

lemma guard_pull_keeps: "keeps_ev (list_all pull_or_tag) (guard_pull env refs before)"
proof -
  have alert: "keeps_ev (list_all pull_or_tag) (drift_alert d)" for d
    by (simp add: keeps_ev_def triple_def drift_alert_def pull_or_tag_def)
  show ?thesis unfolding guard_pull_def by (intro keeps_ev_rules tag_back_only alert)
qed

lemma dry_run_quiet: "keeps_ev (list_all pull_or_tag) (dry_run_target env tgt)"
proof -
  have results: "keeps_ev (list_all pull_or_tag) (dry_failed w a b)" "keeps_ev (list_all pull_or_tag) (dry_found a b)" for w a b
    by (simp_all add: dry_failed_def dry_found_def keeps_ev_rules)
  have guarded: "keeps_ev (list_all pull_or_tag) (dry_guarded env tgt services running changed)" for services running changed
    unfolding dry_guarded_def Let_def
    by (intro keeps_ev_rules results guard_pull_keeps) (simp add: results split: sum.split)
  have pulled: "keeps_ev (list_all pull_or_tag) (dry_pulled env tgt services running)" for services running
  proof -
    have found: "keeps_ev (list_all pull_or_tag) (case found of Inl e \<Rightarrow> dry_failed (Inventory_Reason e) b b
      | Inr changed \<Rightarrow> dry_guarded env tgt services running changed)" for found :: "update_raise + (string \<times> string) list" and b
      by (cases found) (simp_all add: results guarded)
    have "keeps_ev (list_all pull_or_tag) (case pulled of Inl _ \<Rightarrow> dry_failed Pull_Reason b b
      | Inr _ \<Rightarrow> sbind (attempt (\<lambda>e. is_docker_error e \<or> is_update_error e) (detect_image_changes running services [])) (\<lambda>found.
          case found of Inl e \<Rightarrow> dry_failed (Inventory_Reason e) b b
          | Inr changed \<Rightarrow> dry_guarded env tgt services running changed))" for pulled :: "update_raise + unit" and b
    proof (cases pulled)
      case (Inr u)
      show ?thesis unfolding Inr sum.case by (intro keeps_ev_rules found)
    qed (simp add: results)
    then show ?thesis unfolding dry_pulled_def Let_def by (intro keeps_ev_rules compose_pull_quiet)
  qed
  have "keeps_ev (list_all pull_or_tag) (case inv of Inl e \<Rightarrow> dry_failed (Inventory_Reason e) [] []
     | Inr (services, running) \<Rightarrow> if services = [] then sret (run_result ''no_change'' None [] []) else dry_pulled env tgt services running)"
    for inv :: "update_raise + services \<times> (string \<times> project_container) list"
    by (cases inv) (auto simp: results pulled keeps_ev_rules)
  then show ?thesis unfolding dry_run_target_def by (intro keeps_ev_rules)
qed

text \<open>A dry run writes no state file either.\<close>

lemma dry_run_keeps_record: "skeeps us_record (dry_run_target env tgt)"
proof -
  have ops: "skeeps us_record (compose_pull env ns)" "skeeps us_record (detect_image_changes running es [])"
    "skeeps us_record (local_image_now ref)" "skeeps us_record (record_drift env moved)" "skeeps us_record (drift_alert d)"
    "skeeps us_record (tag_back env refs old n)" "skeeps us_record (pulled_changes old rs [])"
    "skeeps us_record (dry_failed w a b)" "skeeps us_record (dry_found a c)" for ns running es ref moved d refs old n rs w a b c
    by (auto simp: skeeps_def compose_pull_def local_image_now_def record_drift_def drift_alert_def tag_back_def tag_image_def
        dry_failed_def dry_found_def split: prod.split sum.split option.split)
      (metis detect_same prod.collapse, metis pulled_changes_same prod.collapse)
  have guarded: "skeeps us_record (dry_guarded env tgt services running changed)" for services running changed
    unfolding dry_guarded_def guard_pull_def attempt_def Let_def
    by (intro skeeps_rules ops) (simp add: ops split: sum.split)
  have found: "skeeps us_record (case found of Inl e \<Rightarrow> dry_failed (Inventory_Reason e) b b
      | Inr changed \<Rightarrow> dry_guarded env tgt services running changed)"
    for found :: "update_raise + (string \<times> string) list" and b services running
    by (cases found) (simp_all add: ops guarded)
  have pulled: "skeeps us_record (case pulled of Inl _ \<Rightarrow> dry_failed Pull_Reason b b
      | Inr _ \<Rightarrow> sbind (attempt (\<lambda>e. is_docker_error e \<or> is_update_error e) (detect_image_changes running services [])) (\<lambda>found.
          case found of Inl e \<Rightarrow> dry_failed (Inventory_Reason e) b b
          | Inr changed \<Rightarrow> dry_guarded env tgt services running changed))" for pulled :: "update_raise + unit" and b services running
  proof (cases pulled)
    case (Inr u)
    show ?thesis unfolding Inr sum.case attempt_def by (intro skeeps_rules found ops)
  qed (simp add: ops)
  have all: "skeeps us_record (dry_pulled env tgt services running)" for services running
    unfolding dry_pulled_def Let_def attempt_def [of _ "compose_pull env ns" for ns] by (intro skeeps_rules pulled ops)
  have "skeeps us_record (case inv of Inl e \<Rightarrow> dry_failed (Inventory_Reason e) [] []
     | Inr (services, running) \<Rightarrow> if services = [] then sret (run_result ''no_change'' None [] []) else dry_pulled env tgt services running)"
    for inv :: "update_raise + services \<times> (string \<times> project_container) list"
    by (cases inv) (auto simp: ops all skeeps_rules)
  then show ?thesis unfolding dry_run_target_def attempt_def by (intro skeeps_rules)
qed

text \<open>C12. A dry run recreates nothing, and neither does any run of a project that is paused, quarantined, being
  migrated or stopped by the health monitor: at most it pulls, tags back an image it may not run and alerts that
  it did; no backup is taken and the state file of the target stays as it is.\<close>

theorem blocked_never_recreated:
  assumes "update_project_locked env tgt dry_run s = (r, s')" "us_events s = []"
    and "dry_run \<or> ue_block env \<noteq> Inr None \<or> ue_stopped env \<noteq> Inr False"
  shows "list_all pull_or_tag (us_events s') \<and> us_record s' = us_record s"
proof -
  define K :: "run_result up \<Rightarrow> bool" where "K m \<longleftrightarrow> keeps_ev (list_all pull_or_tag) m \<and> skeeps us_record m" for m
  have caught: "K (scatch is_exception (dry_run_target env tgt)
       (\<lambda>e. sret (run_result ''failed'' (Some (Raised_Why e)) [] [])))"
    unfolding K_def by (intro conjI keeps_ev_rules skeeps_rules dry_run_quiet dry_run_keeps_record)
  have paused: "K (prefetch_paused env tgt)"
    unfolding K_def prefetch_paused_def
    by (intro conjI keeps_ev_rules skeeps_rules dry_run_quiet dry_run_keeps_record)
  have one: "K (update_one env tgt True)"
    using caught by (simp add: update_one_def)
  have kept: ?thesis if "K m" "m s = (r, s')" for m
  proof -
    have "triple (\<lambda>s. list_all pull_or_tag (us_events s)) m (\<lambda>_ s. list_all pull_or_tag (us_events s))
        (\<lambda>_ s. list_all pull_or_tag (us_events s))" "list_all pull_or_tag (us_events s)"
      using that(1) assms(2) by (simp_all add: K_def keeps_ev_def)
    then have "list_all pull_or_tag (us_events s')"
      using that(2) by (cases r) (auto dest: tripleD_Inr tripleD_Inl)
    moreover have "us_record s' = us_record s" using that by (auto simp: K_def dest: skeepsD)
    ultimately show ?thesis by blast
  qed
  have same: ?thesis if "s' = s" using that assms(2) by simp
  show ?thesis
  proof (cases "from_raised Box_Error (ue_block env)")
    case (Inl e)
    then show ?thesis using assms(1) same by (auto simp: update_project_locked_def)
  next
    case (Inr bl)
    show ?thesis
    proof (cases bl)
      case (Some k)
      then show ?thesis using assms(1) Inr same kept [OF paused]
        by (auto simp: update_project_locked_def split: block_reason.splits)
    next
      case None
      then have b: "ue_block env = Inr None" using Inr by (auto simp: from_raised_def split: sum.splits raised.splits)
      have run: "sbind (slift (from_raised Box_Error (ue_stopped env))) (\<lambda>stopped.
         if stopped then sret (run_result ''monitor_stopped'' None [] []) else update_one env tgt dry_run) s = (r, s')"
        using assms(1) b by (simp add: update_project_locked_def from_raised_def)
      show ?thesis
      proof (cases "ue_stopped env = Inr False")
        case True
        then have "dry_run" using assms(3) b by simp
        with run True have "update_one env tgt True s = (r, s')" by (simp add: from_raised_def sbind_def)
        then show ?thesis by (rule kept [OF one])
      next
        case False
        then show ?thesis using run same
          by (cases "ue_stopped env") (auto simp: from_raised_def split: raised.splits)
      qed
    qed
  qed
qed

definition example_paused_env :: update_env where
  "example_paused_env = example_healthy_env\<lparr>ue_block := Inr (Some
     \<lparr> bl_reason = Br_Paused, bl_detail = [], bl_refuse_message = [], bl_skip_message = [] \<rparr>)\<rparr>"

theorem blocked_never_recreated_witness:
  "us_events (snd (update_project_locked example_paused_env example_target False example_update)) = [Pulled [''web'']]
   \<and> rr_pending (projr (fst (update_project_locked example_paused_env example_target False example_update))) = [''web'']
   \<and> list_all pull_or_tag (us_events (snd (update_project_locked example_paused_env example_target False example_update)))"
proof -
  let ?run = "update_project_locked example_paused_env example_target False example_update"
  have "us_events (snd ?run) = [Pulled [''web'']]" "rr_pending (projr (fst ?run)) = [''web'']"
    and start: "us_events example_update = []" by code_simp+
  moreover have "False \<or> ue_block example_paused_env \<noteq> Inr None \<or> ue_stopped example_paused_env \<noteq> Inr False"
    by (simp add: example_paused_env_def)
  note blocked_never_recreated [OF surjective_pairing start this]
  ultimately show ?thesis by blast
qed

section \<open>The order of a run\<close>

lemma caddy_step:
  assumes "update_caddy attempt_of (t # ts) results = Inr (results', ok)" "ut_is_caddy t"
  obtains st where "attempt_of 0 t = Inr st" "st = ''failed''" "results' = results @ [(ut_name t, st)]" "\<not> ok"
  | st where "attempt_of 0 t = Inr st" "st \<noteq> ''failed''" "update_caddy attempt_of ts (results @ [(ut_name t, st)]) = Inr (results', ok)"
  using assms by (auto simp: try_target_def rbind_eq_Inr split: if_splits)

lemma caddy_names:
  "update_caddy attempt_of ts results = Inr (results', ok) \<Longrightarrow>
     \<exists>tried. map fst results' = map fst results @ map ut_name tried \<and> list_all ut_is_caddy tried
       \<and> (ok \<longrightarrow> tried = filter ut_is_caddy ts)"
proof (induction ts arbitrary: results)
  case (Cons t ts)
  show ?case
  proof (cases "ut_is_caddy t")
    case False
    then have "update_caddy attempt_of ts results = Inr (results', ok)" using Cons.prems by simp
    from Cons.IH [OF this] show ?thesis unfolding filter.simps if_not_P [OF False] .
  next
    case caddy: True
    from Cons.prems caddy show ?thesis
    proof (cases rule: caddy_step)
      case (1 st)
      then show ?thesis using caddy by (intro exI [of _ "[t]"]) simp
    next
      case (2 st)
      from Cons.IH [OF 2(3)] obtain tried where "map fst results' = map fst (results @ [(ut_name t, st)]) @ map ut_name tried"
        "list_all ut_is_caddy tried" "ok \<longrightarrow> tried = filter ut_is_caddy ts" by blast
      then show ?thesis using caddy by (intro exI [of _ "t # tried"]) simp
    qed
  qed
qed simp

lemma caddy_ok:
  "update_caddy attempt_of ts results = Inr (results', ok) \<Longrightarrow>
     ok \<longleftrightarrow> \<not> (\<exists>t\<in>set ts. ut_is_caddy t \<and> attempt_of 0 t = Inr ''failed'')"
proof (induction ts arbitrary: results)
  case (Cons t ts)
  show ?case
  proof (cases "ut_is_caddy t")
    case False
    then show ?thesis using Cons.IH [of results] Cons.prems by simp
  next
    case True
    from Cons.prems True show ?thesis
    proof (cases rule: caddy_step)
      case (1 st)
      then show ?thesis using True by simp
    next
      case (2 st)
      from Cons.IH [OF 2(3)] 2(1,2) show ?thesis by simp
    qed
  qed
qed simp

lemma tried_names: "rmap (try_target attempt_of k) ts = Inr rs \<Longrightarrow> map fst rs = map ut_name ts"
proof (induction ts arbitrary: rs)
  case (Cons t ts)
  then show ?case by (auto simp: rbind_eq_Inr try_target_def)
qed simp

lemma retried_names: "rmap (retry_one attempt_of targets) rs = Inr rs' \<Longrightarrow> map fst rs' = map fst rs"
proof (induction rs arbitrary: rs')
  case (Cons r rs)
  then obtain r' rest where 1: "retry_one attempt_of targets r = Inr r'" "rs' = r' # rest"
    "rmap (retry_one attempt_of targets) rs = Inr rest" by (auto simp: rbind_eq_Inr)
  have "fst r' = fst r"
    using 1(1) by (auto simp: retry_one_def try_target_def rbind_eq_Inr find_Some_iff split: prod.splits if_splits option.splits)
  then show ?case using Cons.IH 1 by simp
qed simp

text \<open>
  A run that goes past Caddy has a result for every target, Caddy's first, and its exit
  code is 0 exactly if nothing failed; a run that fails on Caddy has no project's result.
\<close>

lemma run_order:
  assumes "update_all attempt_of targets = Inr (exit_code, results)"
  shows "if \<exists>t\<in>set targets. ut_is_caddy t \<and> attempt_of 0 t = Inr ''failed''
    then exit_code = 1 \<and> (\<forall>n\<in>fst ` set results. \<exists>t :: update_target. ut_is_caddy t \<and> ut_name t = n)
    else map fst results = map ut_name (filter ut_is_caddy targets @ filter (\<lambda>t. \<not> ut_is_caddy t) targets)
      \<and> (exit_code = 0 \<longleftrightarrow> (\<forall>(n, st)\<in>set results. st \<noteq> ''failed''))"
proof -
  obtain first ok where c: "update_caddy attempt_of targets [] = Inr (first, ok)"
    using assms by (auto simp: update_all_def rbind_eq_Inr)
  note bad = caddy_ok [OF c]
  obtain tried where t: "map fst first = map ut_name tried" "list_all ut_is_caddy tried" "ok \<longrightarrow> tried = filter ut_is_caddy targets"
    using caddy_names [OF c] by auto
  show ?thesis
  proof (cases ok)
    case False
    then have r: "results = first" "exit_code = 1" using assms c by (auto simp: update_all_def)
    have "\<exists>t :: update_target. ut_is_caddy t \<and> ut_name t = n" if "n \<in> set (map fst results)" for n
      using that t(2) unfolding r t(1) by (auto simp: list_all_iff)
    then show ?thesis using bad False r(2) by simp
  next
    case True
    then obtain more where m: "rmap (try_target attempt_of 0) (filter (\<lambda>t. \<not> ut_is_caddy t) targets) = Inr more"
      "rmap (retry_one attempt_of targets) (first @ more) = Inr results"
      "exit_code = (if list_ex (\<lambda>(n, st). st = ''failed'') results then 1 else 0)"
      using assms c by (auto simp: update_all_def rbind_eq_Inr)
    have "map fst results = map ut_name (filter ut_is_caddy targets @ filter (\<lambda>t. \<not> ut_is_caddy t) targets)"
      using retried_names [OF m(2)] tried_names [OF m(1)] t True by simp
    moreover have "exit_code = 0 \<longleftrightarrow> (\<forall>(n, st)\<in>set results. st \<noteq> ''failed'')"
      unfolding m(3) by (auto simp: list_ex_iff)
    moreover have "\<not> (\<exists>t\<in>set targets. ut_is_caddy t \<and> attempt_of 0 t = Inr ''failed'')" using bad True by blast
    ultimately show ?thesis by (simp only: if_False simp_thms)
  qed
qed

text \<open>
  An exception out of Caddy's update (a state file that does not parse) is caught by
  nothing: no project is tried.
\<close>

lemma caddy_exception_stops_all:
  "update_all (\<lambda>k t. if ut_is_caddy t then Inl (Escapes ValueError) else Inr ''succeeded'')
     [build_caddy_target [], example_target] = Inl (Escapes ValueError)"
  by code_simp

end
