(* ===== verification/Cve_Breaker.thy ===== *)
theory Cve_Breaker
  imports Py_Datetime
begin

text \<open>
  \<^verbatim>\<open>src/boxmunge/cve/breaker.py\<close>: the fleet circuit breaker.  Mappings keyed by
  project are association lists in insertion order; a frozen set of CVEs is a
  finite set, iterated in order of the names (its own order is not specified and
  the counts do not depend on it).
\<close>

section \<open>The decision\<close>

record candidate =
  cand_cves :: "string set"
  cand_kev :: bool

type_synonym held_map = "(string \<times> string set) list"

record verdict =
  v_apply :: "string set"
  v_held :: held_map
  v_newly_held :: "string set"
  v_tripped :: bool

text \<open>\<open>TRIP_SHARE\<close> is the double 0.34, 6124895493223875 / 2^54.\<close>

definition trip_share_mantissa :: nat where "trip_share_mantissa = 6124895493223875"

definition min_trip :: nat where "min_trip = 2"

definition trip_threshold :: "nat \<Rightarrow> nat" where
  "trip_threshold projects_scanned =
     (case double_mult trip_share_mantissa projects_scanned of
        (k, s) \<Rightarrow> max min_trip (ceil_div (k * 2 ^ s) (2 ^ 54)))"

text \<open>The loop that counts, per CVE, the fresh candidates it hits.\<close>

definition count_cve :: "(string \<times> nat) list \<Rightarrow> string \<Rightarrow> (string \<times> nat) list" where
  "count_cve per_cve cve =
     dset per_cve cve ((case map_of per_cve cve of None \<Rightarrow> 0 | Some n \<Rightarrow> n) + 1)"

definition per_cve_counts :: "held_map \<Rightarrow> (string \<times> nat) list" where
  "per_cve_counts fresh =
     foldl (\<lambda>d (p, cves). foldl count_cve d (sorted_list_of_set cves)) [] fresh"

text \<open>\<open>max(per_cve.values())\<close> raises ValueError when there is no value.\<close>

definition py_max :: "nat list \<Rightarrow> py_exc + nat" where
  "py_max ns = (if ns = [] then Inl ValueError else Inr (foldl max 0 ns))"

definition held_cves :: "held_map \<Rightarrow> string set" where
  "held_cves already_held = \<Union> (snd ` set already_held)"

definition still_held :: "(string \<times> candidate) list \<Rightarrow> held_map \<Rightarrow> held_map" where
  "still_held candidates already_held =
     map (\<lambda>(p, c). (p, cand_cves c))
       (filter (\<lambda>(p, c). \<not> cand_kev c \<and> cand_cves c \<subseteq> held_cves already_held) candidates)"

definition fresh_candidates :: "(string \<times> candidate) list \<Rightarrow> held_map \<Rightarrow> held_map" where
  "fresh_candidates candidates already_held =
     map (\<lambda>(p, c). (p, cand_cves c))
       (filter (\<lambda>(p, c). \<not> cand_kev c \<and> p \<notin> fst ` set (still_held candidates already_held))
          candidates)"

definition trips :: "held_map \<Rightarrow> nat \<Rightarrow> py_exc + bool" where
  "trips fresh threshold =
     (if fresh = [] then Inr False
      else if threshold \<le> length fresh then Inr True
      else rbind (py_max (map snd (per_cve_counts fresh))) (\<lambda>m. Inr (threshold \<le> m)))"

definition decide :: "(string \<times> candidate) list \<Rightarrow> nat \<Rightarrow> held_map \<Rightarrow> py_exc + verdict" where
  "decide candidates projects_scanned already_held =
     (let kev = {p. \<exists>c. (p, c) \<in> set (filter (\<lambda>(p, c). cand_kev c) candidates)};
          still = still_held candidates already_held;
          fresh = fresh_candidates candidates already_held in
      rbind (trips fresh (trip_threshold projects_scanned)) (\<lambda>tripped.
        Inr (if tripped
             then \<lparr> v_apply = kev, v_held = foldl (\<lambda>d (p, c). dset d p c) still fresh,
                    v_newly_held = fst ` set fresh, v_tripped = True \<rparr>
             else \<lparr> v_apply = kev \<union> fst ` set fresh, v_held = still,
                    v_newly_held = {}, v_tripped = False \<rparr>)))"

section \<open>The held-state file\<close>

datatype breaker_error = Breaker_Unreadable

text \<open>A member of a held entry is read with \<open>str\<close>; the texts of nested values are not followed.\<close>

definition held_member :: "pyval \<Rightarrow> breaker_error raised + string" where
  "held_member v = (case py_str v of None \<Rightarrow> Inl (Crash Unmodelled) | Some s \<Rightarrow> Inr s)"

definition held_entry :: "held_map \<Rightarrow> pyval \<times> pyval \<Rightarrow> breaker_error raised + held_map" where
  "held_entry acc kv = (case kv of (k, v) \<Rightarrow>
     rbind (held_member k) (\<lambda>p.
       (case py_iter v of
          Inl x \<Rightarrow> Inl (Raised Breaker_Unreadable)
        | Inr cs \<Rightarrow> rbind (rmap held_member cs) (\<lambda>names. Inr (dset acc p (set names))))))"

definition read_held :: "json_file \<Rightarrow> breaker_error raised + held_map" where
  "read_held file = (case file of
     Absent \<Rightarrow> Inr []
   | Doc (PDict d) \<Rightarrow>
       (case dget d ''held'' of
          Some (PDict h) \<Rightarrow> rfold held_entry [] h
        | _ \<Rightarrow> Inl (Raised Breaker_Unreadable))
   | _ \<Rightarrow> Inl (Raised Breaker_Unreadable))"

definition alert_pending :: "json_file \<Rightarrow> breaker_error raised + bool" where
  "alert_pending file = (case file of
     Absent \<Rightarrow> Inr False
   | Doc (PDict d) \<Rightarrow> Inr (dget_or d ''alert_pending'' PNone = PBool True)
   | _ \<Rightarrow> Inl (Raised Breaker_Unreadable))"

definition held_doc :: "held_map \<Rightarrow> bool \<Rightarrow> datetime \<Rightarrow> pyval" where
  "held_doc held pending now = PDict
     [(PStr ''updated_at'', PStr (datetime_iso now)),
      (PStr ''held'', PDict (map (\<lambda>(p, cves).
          (PStr p, PList (map PStr (sorted_list_of_set cves)))) (sort_key fst held))),
      (PStr ''alert_pending'', PBool pending)]"

definition write_held ::
    "bool \<Rightarrow> held_map \<Rightarrow> bool \<Rightarrow> datetime \<Rightarrow> json_file \<Rightarrow> py_exc + json_file" where
  "write_held can_write held pending now file =
     (if held = [] then Inr Absent else atomic_write can_write (held_doc held pending now))"

section \<open>Counting\<close>

lemma count_cve_lookup [simp]: "map_of (count_cve d c) x =
    (if x = c then Some ((case map_of d c of None \<Rightarrow> 0 | Some n \<Rightarrow> n) + 1) else map_of d x)"
  by (simp add: count_cve_def)

definition cve_hits :: "held_map \<Rightarrow> string \<Rightarrow> nat" where
  "cve_hits fresh c = length (filter (\<lambda>(p, cves). c \<in> cves) fresh)"

lemma count_fold_other: "x \<notin> set cs \<Longrightarrow> map_of (foldl count_cve d cs) x = map_of d x"
  by (induction cs arbitrary: d) auto

lemma count_fold:
  assumes "distinct cs" "x \<in> set cs"
  shows "map_of (foldl count_cve d cs) x
    = Some ((case map_of d x of None \<Rightarrow> 0 | Some n \<Rightarrow> n) + 1)"
  using assms
proof (induction cs arbitrary: d)
  case (Cons c cs)
  then show ?case
    using count_fold_other [of c cs "count_cve d c"] by (cases "x = c") auto
qed simp

lemma counts_from:
  assumes "\<forall>(p, cves)\<in>set fresh. finite cves"
  shows "map_of (foldl (\<lambda>d (p, cves). foldl count_cve d (sorted_list_of_set cves)) d fresh) x
    = (if cve_hits fresh x = 0 then map_of d x
       else Some ((case map_of d x of None \<Rightarrow> 0 | Some n \<Rightarrow> n) + cve_hits fresh x))"
  using assms
proof (induction fresh arbitrary: d)
  case Nil
  then show ?case by (simp add: cve_hits_def)
next
  case (Cons pc fresh)
  obtain p cves where pc: "pc = (p, cves)" by (cases pc)
  have fin: "finite cves" and rest: "\<forall>(p, cves)\<in>set fresh. finite cves"
    using Cons.prems pc by auto
  let ?d = "foldl count_cve d (sorted_list_of_set cves)"
  have "map_of ?d x = (if x \<in> cves
      then Some ((case map_of d x of None \<Rightarrow> 0 | Some n \<Rightarrow> n) + 1) else map_of d x)"
    using fin count_fold [of "sorted_list_of_set cves" x d]
      count_fold_other [of x "sorted_list_of_set cves" d] by auto
  then show ?case using Cons.IH [OF rest, of ?d] by (auto simp: pc cve_hits_def)
qed

lemma per_cve_counts_lookup:
  assumes "\<forall>(p, cves)\<in>set fresh. finite cves"
  shows "map_of (per_cve_counts fresh) x
    = (if cve_hits fresh x = 0 then None else Some (cve_hits fresh x))"
  using counts_from [OF assms, of "[]" x] by (simp add: per_cve_counts_def)

lemma distinct_count_fold: "distinct (map fst d) \<Longrightarrow> distinct (map fst (foldl count_cve d cs))"
  by (induction cs arbitrary: d) (auto simp: count_cve_def)

lemma distinct_counts_from:
  "distinct (map fst d) \<Longrightarrow> distinct (map fst
     (foldl (\<lambda>d (p, cves). foldl count_cve d (sorted_list_of_set cves)) d fresh))"
  by (induction fresh arbitrary: d) (auto simp: distinct_count_fold)

lemma distinct_per_cve_counts: "distinct (map fst (per_cve_counts fresh))"
  by (simp add: per_cve_counts_def distinct_counts_from)

lemma per_cve_counts_le:
  assumes "\<forall>(p, cves)\<in>set fresh. finite cves" "n \<in> set (map snd (per_cve_counts fresh))"
  shows "n \<le> length fresh"
proof -
  from assms(2) obtain c where "(c, n) \<in> set (per_cve_counts fresh)" by auto
  then have "map_of (per_cve_counts fresh) c = Some n"
    using distinct_per_cve_counts by simp
  then have "n = cve_hits fresh c"
    using per_cve_counts_lookup [OF assms(1), of c] by (simp split: if_splits)
  then show ?thesis by (simp add: cve_hits_def)
qed

lemma foldl_max_le: "(\<forall>n\<in>set ns. n \<le> b) \<Longrightarrow> a \<le> b \<Longrightarrow> foldl max a ns \<le> (b::nat)"
  by (induction ns arbitrary: a) auto

section \<open>Who is applied and who is held\<close>

text \<open>Well-formed arguments: a project occurs once and its CVEs are finitely many.\<close>

definition wf_candidates :: "(string \<times> candidate) list \<Rightarrow> bool" where
  "wf_candidates cs \<longleftrightarrow> distinct (map fst cs) \<and> (\<forall>(p, c)\<in>set cs. finite (cand_cves c))"

lemma fst_still: "fst ` set (still_held cs h) =
    {p. \<exists>c. (p, c) \<in> set cs \<and> \<not> cand_kev c \<and> cand_cves c \<subseteq> held_cves h}"
  by (force simp: still_held_def)

lemma mem_cand_unique:
  "distinct (map fst cs) \<Longrightarrow> (p, c) \<in> set cs \<Longrightarrow> (p, c') \<in> set cs \<Longrightarrow> c = c'"
  by (meson eq_key_imp_eq_value)

lemma fst_fresh:
  assumes "wf_candidates cs"
  shows "fst ` set (fresh_candidates cs h) =
    {p. \<exists>c. (p, c) \<in> set cs \<and> \<not> cand_kev c \<and> \<not> cand_cves c \<subseteq> held_cves h}"
proof (rule set_eqI)
  fix p
  have d: "distinct (map fst cs)" using assms by (simp add: wf_candidates_def)
  have "p \<in> fst ` set (fresh_candidates cs h) \<longleftrightarrow>
      (\<exists>c. (p, c) \<in> set cs \<and> \<not> cand_kev c \<and> p \<notin> fst ` set (still_held cs h))"
    by (force simp: fresh_candidates_def)
  also have "\<dots> \<longleftrightarrow> (\<exists>c. (p, c) \<in> set cs \<and> \<not> cand_kev c \<and> \<not> cand_cves c \<subseteq> held_cves h)"
    unfolding fst_still using mem_cand_unique [OF d] by blast
  finally show "p \<in> fst ` set (fresh_candidates cs h) \<longleftrightarrow>
      p \<in> {p. \<exists>c. (p, c) \<in> set cs \<and> \<not> cand_kev c \<and> \<not> cand_cves c \<subseteq> held_cves h}" by simp
qed

lemma fresh_in_candidates:
  "(p, cves) \<in> set (fresh_candidates cs h) \<Longrightarrow> \<exists>c. (p, c) \<in> set cs \<and> cand_cves c = cves
     \<and> \<not> cand_kev c \<and> p \<notin> fst ` set (still_held cs h)"
  by (auto simp: fresh_candidates_def)

lemma fresh_finite:
  "wf_candidates cs \<Longrightarrow> \<forall>(p, cves)\<in>set (fresh_candidates cs h). finite cves"
  by (auto simp: wf_candidates_def dest!: fresh_in_candidates)

lemma fresh_nonempty:
  assumes "wf_candidates cs" "(p, cves) \<in> set (fresh_candidates cs h)"
  shows "cves \<noteq> {}"
proof
  assume "cves = {}"
  with fresh_in_candidates [OF assms(2)] show False by (auto simp: fst_still)
qed

lemma trips_total:
  assumes "wf_candidates cs" "1 \<le> t"
  shows "trips (fresh_candidates cs h) t = Inr (t \<le> length (fresh_candidates cs h))"
proof -
  let ?fresh = "fresh_candidates cs h"
  show ?thesis
  proof (cases "?fresh = []")
    case True
    then show ?thesis using assms(2) by (simp add: trips_def)
  next
    case False
    then obtain p cves where pc: "(p, cves) \<in> set ?fresh" by (metis last_in_set surj_pair)
    then obtain c where c: "c \<in> cves" using fresh_nonempty [OF assms(1)] by blast
    have fin: "\<forall>(p, cves)\<in>set ?fresh. finite cves" using assms(1) by (rule fresh_finite)
    have "(p, cves) \<in> set (filter (\<lambda>(p, cves). c \<in> cves) ?fresh)" using pc c by simp
    then have "cve_hits ?fresh c \<noteq> 0" by (auto simp: cve_hits_def filter_empty_conv)
    then have "map_of (per_cve_counts ?fresh) c \<noteq> None"
      using per_cve_counts_lookup [OF fin, of c] by simp
    then have ne: "per_cve_counts ?fresh \<noteq> []" by auto
    have "foldl max 0 (map snd (per_cve_counts ?fresh)) \<le> length ?fresh"
      by (rule foldl_max_le) (use per_cve_counts_le [OF fin] in auto)
    with ne False show ?thesis by (auto simp: trips_def py_max_def)
  qed
qed

lemma trip_threshold_ge: "2 \<le> trip_threshold n"
  by (simp add: trip_threshold_def min_trip_def split: prod.splits)

lemma dset_fold_keys:
  "fst ` set (foldl (\<lambda>d (p, c). dset d p c) d xs) = fst ` set d \<union> fst ` set xs"
proof (induction xs arbitrary: d)
  case (Cons x xs)
  obtain p c where x: "x = (p, c)" by (cases x)
  from Cons [of "dset d p c"] show ?case by (simp add: x)
qed simp

lemma decide_eq:
  assumes "wf_candidates cs"
  shows "decide cs n h = Inr
    (if trip_threshold n \<le> length (fresh_candidates cs h)
     then \<lparr> v_apply = {p. \<exists>c. (p, c) \<in> set cs \<and> cand_kev c},
            v_held = foldl (\<lambda>d (p, c). dset d p c) (still_held cs h) (fresh_candidates cs h),
            v_newly_held = fst ` set (fresh_candidates cs h), v_tripped = True \<rparr>
     else \<lparr> v_apply = {p. \<exists>c. (p, c) \<in> set cs \<and> cand_kev c} \<union> fst ` set (fresh_candidates cs h),
            v_held = still_held cs h, v_newly_held = {}, v_tripped = False \<rparr>)"
  using trips_total [OF assms, of "trip_threshold n" h] trip_threshold_ge [of n]
  by (auto simp: decide_def Let_def)

text \<open>C37. The decision never raises and puts every candidate on exactly one side: it is quarantined now
  or held, never both and never neither; a project with an exploited CVE is always
  quarantined now.\<close>

theorem decide_partitions:
  assumes "wf_candidates cs"
  shows "\<exists>v. decide cs n h = Inr v
    \<and> v_apply v \<union> fst ` set (v_held v) = fst ` set cs
    \<and> v_apply v \<inter> fst ` set (v_held v) = {}
    \<and> {p. \<exists>c. (p, c) \<in> set cs \<and> cand_kev c} \<subseteq> v_apply v
    \<and> v_newly_held v \<subseteq> fst ` set (v_held v)
    \<and> (v_newly_held v \<noteq> {} \<longleftrightarrow> v_tripped v)"
proof -
  have d: "distinct (map fst cs)" using assms by (simp add: wf_candidates_def)
  let ?K = "{p. \<exists>c. (p, c) \<in> set cs \<and> cand_kev c}"
  let ?F = "fst ` set (fresh_candidates cs h)" and ?S = "fst ` set (still_held cs h)"
  have all: "?K \<union> ?S \<union> ?F = fst ` set cs"
  proof -
    have "fst ` set cs = {p. \<exists>c. (p, c) \<in> set cs}" by force
    then show ?thesis unfolding fst_still fst_fresh [OF assms] by blast
  qed
  have dis: "?K \<inter> ?S = {}" "?K \<inter> ?F = {}" "?S \<inter> ?F = {}"
    unfolding fst_still fst_fresh [OF assms] using mem_cand_unique [OF d] by blast+
  have ne: "trip_threshold n \<le> length (fresh_candidates cs h) \<Longrightarrow> ?F \<noteq> {}"
    using trip_threshold_ge [of n] by auto
  show ?thesis
    unfolding decide_eq [OF assms] using all dis ne by (auto simp: dset_fold_keys)
qed

definition base_image_cve :: "(string \<times> candidate) list" where
  "base_image_cve = [(''blog'', \<lparr> cand_cves = {''CVE-1''}, cand_kev = False \<rparr>),
     (''shop'', \<lparr> cand_cves = {''CVE-1''}, cand_kev = True \<rparr>),
     (''wiki'', \<lparr> cand_cves = {''CVE-1''}, cand_kev = False \<rparr>)]"

theorem decide_partitions_witness:
  "\<exists>v. decide base_image_cve 3 [] = Inr v \<and> ''shop'' \<in> v_apply v"
proof -
  have "wf_candidates base_image_cve" by (simp add: wf_candidates_def base_image_cve_def)
  moreover have "''shop'' \<in> {p. \<exists>c. (p, c) \<in> set base_image_cve \<and> cand_kev c}"
    by (auto simp: base_image_cve_def)
  ultimately show ?thesis using decide_partitions by blast
qed

text \<open>When the breaker trips: exactly when as many projects as the threshold would be newly
  quarantined for CVEs none of which is exploited and not all of which are held already.
  One project alone never trips it, so a single project's scan never holds anything new,
  and the count per CVE never decides by itself.\<close>

theorem breaker_trips_iff:
  assumes "wf_candidates cs" and "decide cs n h = Inr v"
  shows "(v_tripped v \<longleftrightarrow> trip_threshold n \<le> card
      {p. \<exists>c. (p, c) \<in> set cs \<and> \<not> cand_kev c \<and> \<not> cand_cves c \<subseteq> held_cves h})
    \<and> (length cs \<le> 1 \<longrightarrow> \<not> v_tripped v \<and> v_newly_held v = {})"
proof -
  have "distinct (map fst (fresh_candidates cs h))"
    using assms(1) by (auto simp: wf_candidates_def fresh_candidates_def distinct_map inj_on_def
        split_def intro!: distinct_filter)
  then have "length (fresh_candidates cs h) = card (fst ` set (fresh_candidates cs h))"
    by (metis distinct_card length_map set_map)
  moreover have "length (fresh_candidates cs h) \<le> length cs"
    by (simp add: fresh_candidates_def)
  ultimately show ?thesis
    using assms(2) trip_threshold_ge [of n] unfolding decide_eq [OF assms(1)] fst_fresh [OF assms(1)]
    by (auto split: if_splits)
qed

theorem breaker_trips_iff_witness:
  "\<exists>v. decide [hd base_image_cve] 1 [] = Inr v \<and> \<not> v_tripped v"
proof -
  have wf: "wf_candidates [hd base_image_cve]" by (simp add: wf_candidates_def base_image_cve_def)
  obtain v where v: "decide [hd base_image_cve] 1 [] = Inr v" using decide_eq [OF wf] by blast
  with breaker_trips_iff [OF wf v] show ?thesis by auto
qed

lemma set_dset_subset: "set (dset d k v) \<subseteq> insert (k, v) (set d)"
  by (induction d) (auto split: if_splits)

lemma set_dset_fold: "set (foldl (\<lambda>d (p, c). dset d p c) d xs) \<subseteq> set d \<union> set xs"
proof (induction xs arbitrary: d)
  case (Cons x xs)
  obtain p c where x: "x = (p, c)" by (cases x)
  from Cons [of "dset d p c"] set_dset_subset [of d p c] show ?case by (auto simp: x)
qed simp

lemma held_entries:
  assumes "wf_candidates cs" "decide cs n h = Inr v" "(p, c) \<in> set cs"
    and "p \<in> fst ` set (v_held v)"
  shows "\<not> cand_kev c \<and> (p, cand_cves c) \<in> set (v_held v)"
proof -
  have d: "distinct (map fst cs)" using assms(1) by (simp add: wf_candidates_def)
  have sub: "set (v_held v) \<subseteq> set (still_held cs h) \<union> set (fresh_candidates cs h)"
    using assms(2) set_dset_fold [of "still_held cs h" "fresh_candidates cs h"]
    unfolding decide_eq [OF assms(1)] by (auto split: if_splits)
  from assms(4) obtain X where X: "(p, X) \<in> set (v_held v)" by auto
  with sub obtain c' where "(p, c') \<in> set cs" "cand_cves c' = X" "\<not> cand_kev c'"
    by (auto simp: still_held_def fresh_candidates_def)
  with mem_cand_unique [OF d assms(3)] X show ?thesis by blast
qed

text \<open>A hold lasts and does not repeat its alert: in a later run over held projects, of the whole
  fleet or of one of them, with the held set as recorded, all of them stay held, nothing is
  quarantined, nothing is newly held and the breaker does not trip again.\<close>

theorem hold_is_stable:
  assumes "wf_candidates cs" and "decide cs n h = Inr v"
    and "wf_candidates cs'" and "set cs' \<subseteq> set cs" and "fst ` set cs' \<subseteq> fst ` set (v_held v)"
  shows "\<exists>w. decide cs' m (v_held v) = Inr w
    \<and> fst ` set (v_held w) = fst ` set cs' \<and> v_apply w = {}
    \<and> v_newly_held w = {} \<and> \<not> v_tripped w"
proof -
  have each: "\<not> cand_kev c \<and> cand_cves c \<subseteq> held_cves (v_held v)" if "(p, c) \<in> set cs'" for p c
  proof -
    have "(p, c) \<in> set cs" "p \<in> fst ` set (v_held v)" using that assms(4,5) by force+
    with held_entries [OF assms(1,2)] show ?thesis by (force simp: held_cves_def)
  qed
  have "{p. \<exists>c. (p, c) \<in> set cs' \<and> \<not> cand_kev c \<and> \<not> cand_cves c \<subseteq> held_cves (v_held v)} = {}"
    using each by blast
  then have none: "fresh_candidates cs' (v_held v) = []"
    using fst_fresh [OF assms(3), of "v_held v"] by (metis image_is_empty set_empty)
  have "{p. \<exists>c. (p, c) \<in> set cs' \<and> cand_kev c} = {}" using each by blast
  moreover have "fst ` set (still_held cs' (v_held v)) = fst ` set cs'"
    unfolding fst_still using each by force
  ultimately show ?thesis
    unfolding decide_eq [OF assms(3)] none using trip_threshold_ge [of m] by auto
qed

lemma base_image_wf: "wf_candidates base_image_cve" "wf_candidates [base_image_cve ! 2]"
  by (simp_all add: wf_candidates_def base_image_cve_def)

lemma base_image_decided:
  "\<exists>v. decide base_image_cve 3 [] = Inr v \<and> fst ` set (v_held v) = {''blog'', ''wiki''}"
proof -
  have "trip_threshold 3 = 2"
    by (simp add: trip_threshold_def trip_share_mantissa_def min_trip_def double_mult_def
      bit_length.simps round_half_even_def Let_def ceil_div_def)
  moreover have "length (fresh_candidates base_image_cve []) = 2"
    by (simp add: fresh_candidates_def still_held_def base_image_cve_def held_cves_def)
  moreover have "fst ` set (foldl (\<lambda>d (p, c). dset d p c) (still_held base_image_cve [])
      (fresh_candidates base_image_cve [])) = {''blog'', ''wiki''}"
    by (auto simp: fresh_candidates_def still_held_def base_image_cve_def held_cves_def)
  ultimately show ?thesis using decide_eq [OF base_image_wf(1), of 3 "[]"] by simp
qed

theorem hold_is_stable_witness:
  "\<exists>v w. decide base_image_cve 3 [] = Inr v \<and> decide [base_image_cve ! 2] 1 (v_held v) = Inr w
     \<and> fst ` set (v_held w) = {''wiki''}"
proof -
  obtain v where v: "decide base_image_cve 3 [] = Inr v" "fst ` set (v_held v) = {''blog'', ''wiki''}"
    using base_image_decided by blast
  have sub: "set [base_image_cve ! 2] \<subseteq> set base_image_cve"
    and wiki: "fst ` set [base_image_cve ! 2] = {''wiki''}"
    by (auto simp: base_image_cve_def)
  have "fst ` set [base_image_cve ! 2] \<subseteq> fst ` set (v_held v)"
    unfolding v(2) wiki by blast
  from hold_is_stable [OF base_image_wf(1) v(1) base_image_wf(2) sub this, of 1] obtain w where
    w: "decide [base_image_cve ! 2] 1 (v_held v) = Inr w"
      "fst ` set (v_held w) = fst ` set [base_image_cve ! 2]"
    by blast
  show ?thesis
    by (intro exI [of _ v] exI [of _ w] conjI) (rule v(1), rule w(1), rule w(2) [unfolded wiki])
qed

section \<open>The threshold in floating point\<close>

text \<open>The product is computed in double precision, so the threshold can exceed the share it stands
  for: 34 percent of 150 projects is exactly 51, and the threshold is 52.\<close>

theorem threshold_rounding:
  "trip_threshold 150 = 52 \<and> ceil_div (34 * 150) 100 = 51"
  by (simp add: trip_threshold_def trip_share_mantissa_def min_trip_def double_mult_def
      bit_length.simps round_half_even_def Let_def ceil_div_def)

section \<open>The held set survives its file\<close>

definition wf_held :: "held_map \<Rightarrow> bool" where
  "wf_held held \<longleftrightarrow> distinct (map fst held) \<and> (\<forall>(p, cves)\<in>set held. finite cves)"

lemma held_members: "rmap held_member (map PStr cs) = Inr cs"
  by (induction cs) (simp_all add: held_member_def)

lemma read_entries:
  assumes "distinct (map fst (acc @ xs))" "\<forall>(p, cves)\<in>set xs. finite cves"
  shows "rfold held_entry acc (map (\<lambda>(p, cves). (PStr p, PList (map PStr (sorted_list_of_set cves)))) xs)
    = Inr (acc @ xs)"
  using assms
proof (induction xs arbitrary: acc)
  case (Cons x xs)
  obtain p cves where x: "x = (p, cves)" by (cases x)
  have "held_entry acc (PStr p, PList (map PStr (sorted_list_of_set cves))) = Inr (acc @ [(p, cves)])"
    using Cons.prems dset_new [of p acc cves]
    by (simp add: x held_entry_def held_member_def [of "PStr p"] held_members)
  then show ?case using Cons.IH [of "acc @ [(p, cves)]"] Cons.prems by (simp add: x)
qed simp

text \<open>The held set and its undelivered alert survive the file: what a scan records, the next one
  reads back, with the same CVEs for every project and the pending flag as written; an
  empty set leaves nothing to read.\<close>

theorem held_roundtrip:
  assumes "wf_held held" and "write_held True held pending now file = Inr file'"
  shows "(\<exists>held'. read_held file' = Inr held' \<and> map_of held' = map_of held)
    \<and> alert_pending file' = Inr (pending \<and> held \<noteq> [])"
proof (cases "held = []")
  case True
  then show ?thesis using assms(2) by (auto simp: write_held_def read_held_def alert_pending_def)
next
  case False
  then have f: "file' = Doc (held_doc held pending now)"
    using assms(2) by (simp add: write_held_def atomic_write_def)
  have d: "distinct (map fst (sort_key fst held))" "\<forall>(p, cves)\<in>set (sort_key fst held). finite cves"
    using assms(1) by (auto simp: wf_held_def distinct_map)
  have "read_held file' = Inr (sort_key fst held)"
    using read_entries [of "[]" "sort_key fst held"] d
    by (simp add: f read_held_def held_doc_def dget_def)
  moreover have "map_of (sort_key fst held) = map_of held"
    using d assms(1) by (intro map_of_inject_set [THEN iffD2]) (auto simp: wf_held_def)
  moreover have "alert_pending file' = Inr pending"
    by (simp add: f alert_pending_def held_doc_def dget_def dget_or_def)
  ultimately show ?thesis using False by auto
qed

theorem held_roundtrip_witness:
  "\<exists>file'. write_held True [(''wiki'', {''CVE-1''})] True
      \<lparr> dt_date = Date 2026 7 1, dt_hour = 3, dt_minute = 0, dt_second = 0, dt_micro = 0,
         dt_offset = Some 0 \<rparr> Absent = Inr file'
    \<and> alert_pending file' = Inr True"
proof -
  let ?now = "\<lparr> dt_date = Date 2026 7 1, dt_hour = 3, dt_minute = 0, dt_second = 0, dt_micro = 0,
         dt_offset = Some 0 \<rparr>"
  have "write_held True [(''wiki'', {''CVE-1''})] True ?now Absent
      = Inr (Doc (held_doc [(''wiki'', {''CVE-1''})] True ?now))"
    by (simp add: write_held_def atomic_write_def)
  moreover have "wf_held [(''wiki'', {''CVE-1''})]" by (simp add: wf_held_def)
  ultimately show ?thesis using held_roundtrip by fastforce
qed

end
