(* ===== verification/Cve_Grace.thy ===== *)
theory Cve_Grace
  imports Py_Datetime
begin

text \<open>
  \<^verbatim>\<open>src/boxmunge/cve/grace.py\<close>: the one-time grace window, kept in one JSON file.
  Logging is left out.
\<close>

record grace_state =
  installed_at :: datetime
  expires_at :: datetime
  heads_up_sent :: bool

definition grace_is_active :: "grace_state \<Rightarrow> datetime \<Rightarrow> bool" where
  "grace_is_active g now \<longleftrightarrow> instant now < instant (expires_at g)"

datatype grace_error =
    Grace_Unreadable | Grace_Bad_Json | Grace_Not_Object
  | Grace_Field_Missing string | Grace_Field_Not_Iso string | Grace_Field_Naive string
  | Grace_Heads_Up_Not_Bool

definition parse_iso_field :: "pyval \<Rightarrow> string \<Rightarrow> grace_error + datetime" where
  "parse_iso_field value field = (case value of
     PStr s \<Rightarrow>
       (if s = [] then Inl (Grace_Field_Missing field)
        else case datetime_from_iso s of
          None \<Rightarrow> Inl (Grace_Field_Not_Iso field)
        | Some t \<Rightarrow> (if dt_offset t = None then Inl (Grace_Field_Naive field) else Inr t))
   | _ \<Rightarrow> Inl (Grace_Field_Missing field))"

fun bool_field :: "pyval \<Rightarrow> grace_error + bool" where
  "bool_field (PBool b) = Inr b"
| "bool_field _ = Inl Grace_Heads_Up_Not_Bool"

definition grace_of_doc :: "pyval \<Rightarrow> grace_error + grace_state" where
  "grace_of_doc data = (case data of
     PDict d \<Rightarrow>
       rbind (parse_iso_field (dget_or d ''installed_at'' PNone) ''installed_at'') (\<lambda>ins.
       rbind (parse_iso_field (dget_or d ''expires_at'' PNone) ''expires_at'') (\<lambda>exp.
       rbind (bool_field (dget_or d ''heads_up_sent'' PNone)) (\<lambda>sent.
       Inr \<lparr> installed_at = ins, expires_at = exp, heads_up_sent = sent \<rparr>)))
   | _ \<Rightarrow> Inl Grace_Not_Object)"

definition read_grace_state :: "json_file \<Rightarrow> grace_error + grace_state option" where
  "read_grace_state file = (case file of
     Absent \<Rightarrow> Inr None
   | Unreadable \<Rightarrow> Inl Grace_Unreadable
   | Unparseable \<Rightarrow> Inl Grace_Bad_Json
   | Doc data \<Rightarrow> rbind (grace_of_doc data) (\<lambda>g. Inr (Some g)))"

definition grace_doc :: "grace_state \<Rightarrow> pyval" where
  "grace_doc g = PDict
     [(PStr ''installed_at'', PStr (datetime_iso (installed_at g))),
      (PStr ''expires_at'', PStr (datetime_iso (expires_at g))),
      (PStr ''heads_up_sent'', PBool (heads_up_sent g))]"

text \<open>The operations that write return the state and the file; a failed write is an OSError.\<close>

definition write_grace_state :: "bool \<Rightarrow> grace_state \<Rightarrow> py_exc + json_file" where
  "write_grace_state can_write g = atomic_write can_write (grace_doc g)"

fun crash_of :: "py_exc + 'a \<Rightarrow> 'e raised + 'a" where
  "crash_of (Inl x) = Inl (Crash x)"
| "crash_of (Inr y) = Inr y"

fun raise_of :: "'e + 'a \<Rightarrow> 'e raised + 'a" where
  "raise_of (Inl e) = Inl (Raised e)"
| "raise_of (Inr y) = Inr y"

definition init_grace_if_missing ::
    "bool \<Rightarrow> json_file \<Rightarrow> datetime \<Rightarrow> grace_error raised + grace_state \<times> json_file" where
  "init_grace_if_missing can_write file now =
     rbind (raise_of (read_grace_state file)) (\<lambda>existing.
       case existing of
         Some g \<Rightarrow> Inr (g, file)
       | None \<Rightarrow>
           rbind (crash_of (plus_day now)) (\<lambda>later.
             let g = \<lparr> installed_at = now, expires_at = later, heads_up_sent = False \<rparr> in
             rbind (crash_of (write_grace_state can_write g)) (\<lambda>file'. Inr (g, file'))))"

definition mark_heads_up_sent ::
    "bool \<Rightarrow> grace_state \<Rightarrow> py_exc + grace_state \<times> json_file" where
  "mark_heads_up_sent can_write g =
     (let updated = g\<lparr>heads_up_sent := True\<rparr> in
      rbind (write_grace_state can_write updated) (\<lambda>file'. Inr (updated, file')))"

section \<open>The window\<close>

definition aware :: "datetime \<Rightarrow> bool" where
  "aware t \<longleftrightarrow> valid_datetime t \<and> dt_offset t \<noteq> None"

definition wf_grace :: "grace_state \<Rightarrow> bool" where
  "wf_grace g \<longleftrightarrow> aware (installed_at g) \<and> aware (expires_at g)"

lemma date_iso_nonempty [simp]: "datetime_iso t \<noteq> []"
  by (simp add: datetime_iso_def date_iso_def pad4_def)

lemma parse_iso_aware: "aware t \<Longrightarrow> parse_iso_field (PStr (datetime_iso t)) field = Inr t"
  by (simp add: parse_iso_field_def aware_def datetime_iso_roundtrip)

interpretation grace_codec: doc_codec grace_doc "\<lambda>_. grace_of_doc" wf_grace
  by unfold_locales
    (simp add: grace_doc_def grace_of_doc_def dget_or_def dget_def wf_grace_def parse_iso_aware)

lemma read_written: "wf_grace g \<Longrightarrow> read_grace_state (Doc (grace_doc g)) = Inr (Some g)"
  by (simp add: read_grace_state_def grace_codec.dec_enc)

text \<open>The grace window is given once and lasts a day: the first scan of a fleet with no marker opens
  it, it is active exactly until 24 hours later, and every later scan, however late and
  whether or not the heads-up went out in between, reads the same window and never
  opens another.\<close>

theorem grace_once:
  assumes "aware now" and "init_grace_if_missing True Absent now = Inr (g, file)"
  shows "(grace_is_active g t \<longleftrightarrow> instant t < instant now + 86400 * 1000000)
    \<and> init_grace_if_missing w file later = Inr (g, file)
    \<and> (\<exists>file'. mark_heads_up_sent True g = Inr (g\<lparr>heads_up_sent := True\<rparr>, file')
        \<and> init_grace_if_missing w file' later = Inr (g\<lparr>heads_up_sent := True\<rparr>, file')
        \<and> (grace_is_active (g\<lparr>heads_up_sent := True\<rparr>) t \<longleftrightarrow> grace_is_active g t))"
proof -
  from assms(2) obtain e where e: "plus_day now = Inr e"
    and g: "g = \<lparr> installed_at = now, expires_at = e, heads_up_sent = False \<rparr>"
    and f: "file = Doc (grace_doc g)"
    by (cases "plus_day now") (auto simp: init_grace_if_missing_def read_grace_state_def Let_def
        write_grace_state_def atomic_write_def)
  have v: "valid_datetime now" using assms(1) by (simp add: aware_def)
  have "aware e"
    using plus_day_valid [OF e v] plus_day_fields(1) [OF e] assms(1) by (simp add: aware_def)
  then have wf: "wf_grace g" "wf_grace (g\<lparr>heads_up_sent := True\<rparr>)"
    using assms(1) by (simp_all add: wf_grace_def g)
  have again: "init_grace_if_missing w (Doc (grace_doc h)) later = Inr (h, Doc (grace_doc h))"
    if "wf_grace h" for h
    using read_written [OF that] by (simp add: init_grace_if_missing_def)
  have "mark_heads_up_sent True g
      = Inr (g\<lparr>heads_up_sent := True\<rparr>, Doc (grace_doc (g\<lparr>heads_up_sent := True\<rparr>)))"
    by (simp add: mark_heads_up_sent_def write_grace_state_def atomic_write_def Let_def)
  moreover have "grace_is_active g t \<longleftrightarrow> instant t < instant now + 86400 * 1000000"
    using plus_day_instant [OF e v] by (simp add: grace_is_active_def g)
  moreover have "grace_is_active (g\<lparr>heads_up_sent := True\<rparr>) t \<longleftrightarrow> grace_is_active g t"
    by (simp add: grace_is_active_def)
  ultimately show ?thesis using again [OF wf(1)] again [OF wf(2)] f by blast
qed

definition first_scan :: datetime where
  "first_scan = \<lparr> dt_date = Date 2026 5 6, dt_hour = 3, dt_minute = 0, dt_second = 0,
     dt_micro = 0, dt_offset = Some 0 \<rparr>"

theorem grace_once_witness:
  "\<exists>g file. init_grace_if_missing True Absent first_scan = Inr (g, file)
     \<and> grace_is_active g first_scan
     \<and> init_grace_if_missing False file (first_scan\<lparr>dt_date := Date 2027 1 1\<rparr>) = Inr (g, file)"
proof -
  have "\<exists>g file. init_grace_if_missing True Absent first_scan = Inr (g, file)"
    by (simp add: init_grace_if_missing_def read_grace_state_def first_scan_def plus_day_def
        next_day_def days_in_month_def Let_def write_grace_state_def atomic_write_def)
  then obtain g fl where i: "init_grace_if_missing True Absent first_scan = Inr (g, fl)" by blast
  have a: "aware first_scan"
    by (simp add: aware_def first_scan_def valid_datetime_def valid_date_def days_in_month_def)
  from grace_once [OF a i] i show ?thesis by auto
qed

text \<open>A corrupt marker stops the scan: it is never read as an active window.\<close>

lemma corrupt_grace_raises:
  "read_grace_state file = Inl e \<Longrightarrow> init_grace_if_missing w file now = Inl (Raised e)"
  by (simp add: init_grace_if_missing_def)

end
