(* ===== verification/Cve_Kev.thy ===== *)
theory Cve_Kev
  imports Py_Datetime
begin

text \<open>
  \<^verbatim>\<open>src/boxmunge/cve/kev.py\<close>: the cached catalog of exploited CVEs, its freshness and the
  sanity floor of a refresh.  The feed's HTTP request is a parameter: what it
  returned (\<open>kev_feed\<close>).  Logging is left out.
\<close>

definition kev_max_age_days :: int where "kev_max_age_days = 8"
definition kev_min_entries :: nat where "kev_min_entries = 1000"
definition max_future_days :: int where "max_future_days = 1"

text \<open>\<open>1 - KEV_MAX_SHRINK\<close> is the double 0.95, 8556839292003942 / 2^53.\<close>

definition kept_share_mantissa :: nat where "kept_share_mantissa = 8556839292003942"

record kev_catalog =
  kev_ids :: "string set"
  fetched_at :: "datetime option"

definition empty_catalog :: kev_catalog where
  "empty_catalog = \<lparr> kev_ids = {}, fetched_at = None \<rparr>"

definition is_stale :: "kev_catalog \<Rightarrow> date \<Rightarrow> int \<Rightarrow> bool" where
  "is_stale c today max_age_days = (case fetched_at c of
     None \<Rightarrow> True
   | Some t \<Rightarrow> (let age = toordinal today - toordinal (dt_date t)
               in age > max_age_days \<or> age < - max_future_days))"

definition is_known_exploited :: "kev_catalog \<Rightarrow> string \<Rightarrow> date \<Rightarrow> bool" where
  "is_known_exploited c cve today \<longleftrightarrow>
     \<not> is_stale c today kev_max_age_days \<and> cve \<in> kev_ids c"

text \<open>The \<open>try\<close> body of \<open>load_kev\<close>; every exception it can raise is caught.\<close>

definition parse_fetched :: "pyval \<Rightarrow> py_exc + datetime option" where
  "parse_fetched raw =
     (if \<not> py_truthy raw then Inr None
      else case raw of
        PStr s \<Rightarrow> (case datetime_from_iso s of None \<Rightarrow> Inl ValueError
                   | Some t \<Rightarrow> Inr (Some (as_utc t)))
      | _ \<Rightarrow> Inl TypeError)"

definition parse_catalog :: "pyval \<Rightarrow> py_exc + kev_catalog" where
  "parse_catalog data =
     rbind (py_get data ''fetched_at'') (\<lambda>raw.
     rbind (parse_fetched raw) (\<lambda>fetched.
     rbind (py_get data ''cve_ids'') (\<lambda>ids.
       case ids of
         PList xs \<Rightarrow> Inr \<lparr> kev_ids = set (List.map_filter pstr_of xs), fetched_at = fetched \<rparr>
       | _ \<Rightarrow> Inl ValueError)))"

definition load_kev :: "json_file \<Rightarrow> kev_catalog" where
  "load_kev file = (case file of
     Doc data \<Rightarrow> (case parse_catalog data of Inl _ \<Rightarrow> empty_catalog | Inr c \<Rightarrow> c)
   | _ \<Rightarrow> empty_catalog)"

section \<open>Refreshing\<close>

record kev_refresh =
  kr_updated :: bool
  kr_rejected :: "string option"

definition check_catalog_sanity :: "nat \<Rightarrow> nat \<Rightarrow> string option" where
  "check_catalog_sanity new_count cached_count =
     (if new_count < kev_min_entries then
        Some (''feed returned '' @ show_nat new_count @ '' entries, below the floor of ''
              @ show_nat kev_min_entries @ '' (the catalog only grows)'')
      else if cached_count \<noteq> 0 \<and>
          (case double_mult kept_share_mantissa cached_count of
             (k, s) \<Rightarrow> new_count * 2 ^ 53 < k * 2 ^ s) then
        Some (''feed returned '' @ show_nat new_count @ '' entries, ''
              @ show_int (int cached_count - int new_count)
              @ '' fewer than the '' @ show_nat cached_count @ '' cached (more than 5% shrink)'')
      else None)"

datatype kev_feed = Feed_Failed | Feed_Payload pyval

definition malformed_feed :: string where
  "malformed_feed = ''feed payload malformed (no 'vulnerabilities' list)''"

fun feed_id :: "pyval \<Rightarrow> string option" where
  "feed_id (PDict d) = (case dget d ''cveID'' of Some (PStr s) \<Rightarrow> Some s | _ \<Rightarrow> None)"
| "feed_id _ = None"

definition feed_vulns :: "pyval \<Rightarrow> pyval list option" where
  "feed_vulns payload = (case payload of
     PDict d \<Rightarrow> (case dget d ''vulnerabilities'' of Some (PList vs) \<Rightarrow> Some vs | _ \<Rightarrow> None)
   | _ \<Rightarrow> None)"

definition catalog_doc :: "string list \<Rightarrow> datetime \<Rightarrow> pyval" where
  "catalog_doc ids now = PDict [(PStr ''fetched_at'', PStr (datetime_iso now)),
     (PStr ''cve_ids'', PList (map PStr ids))]"

definition refresh_kev ::
    "kev_feed \<Rightarrow> bool \<Rightarrow> datetime \<Rightarrow> json_file \<Rightarrow> kev_refresh \<times> json_file" where
  "refresh_kev feed can_write now file = (case feed of
     Feed_Failed \<Rightarrow> (\<lparr> kr_updated = False, kr_rejected = None \<rparr>, file)
   | Feed_Payload payload \<Rightarrow>
     (case feed_vulns payload of
        None \<Rightarrow> (\<lparr> kr_updated = False, kr_rejected = Some malformed_feed \<rparr>, file)
      | Some vs \<Rightarrow>
        (let ids = sorted_list_of_set (set (List.map_filter feed_id vs)) in
         case check_catalog_sanity (length ids) (card (kev_ids (load_kev file))) of
           Some reason \<Rightarrow> (\<lparr> kr_updated = False, kr_rejected = Some reason \<rparr>, file)
         | None \<Rightarrow>
           (case atomic_write can_write (catalog_doc ids now) of
              Inl _ \<Rightarrow> (\<lparr> kr_updated = False, kr_rejected = None \<rparr>, file)
            | Inr file' \<Rightarrow> (\<lparr> kr_updated = True, kr_rejected = None \<rparr>, file')))))"

section \<open>What the gate can rely on\<close>

lemma stale_lists_nothing:
  "is_stale c today kev_max_age_days \<Longrightarrow> \<not> is_known_exploited c cve today"
  by (simp add: is_known_exploited_def)

lemma map_filter_pstr [simp]: "List.map_filter pstr_of (map PStr ids) = ids"
  by (induction ids) (simp_all add: List.map_filter_def)

lemma load_written:
  assumes "valid_datetime now" "dt_offset now \<noteq> None"
  shows "load_kev (Doc (catalog_doc ids now)) = \<lparr> kev_ids = set ids, fetched_at = Some now \<rparr>"
proof -
  have "datetime_iso now \<noteq> []" by (simp add: datetime_iso_def date_iso_def pad4_def)
  then show ?thesis
    using datetime_iso_roundtrip [OF assms(1)] assms(2)
    by (simp add: load_kev_def parse_catalog_def catalog_doc_def dget_or_def dget_def
        parse_fetched_def as_utc_def)
qed

text \<open>The catalog's fail-safe: whatever the cache file holds, loading it raises nothing, and a CVE
  counts as exploited only on the word of a well-formed cache that names it and that was
  fetched at most eight days ago and not more than a day in the future.\<close>

theorem exploited_only_if_fresh:
  "is_known_exploited (load_kev file) cve today \<longleftrightarrow>
    (\<exists>data c t. file = Doc data \<and> parse_catalog data = Inr c \<and> fetched_at c = Some t
       \<and> cve \<in> kev_ids c
       \<and> - 1 \<le> toordinal today - toordinal (dt_date t)
       \<and> toordinal today - toordinal (dt_date t) \<le> 8)"
  by (auto simp: is_known_exploited_def is_stale_def load_kev_def empty_catalog_def Let_def
      kev_max_age_days_def max_future_days_def split: json_file.splits sum.splits option.splits)

text \<open>The sanity floor: a refresh either leaves the cache file as it was, or replaces it with a
  catalog of at least a thousand CVEs the feed named that is not more than 5 percent
  smaller than the cached one and that is fresh on the day of the refresh; a rejected or
  failed refresh never touches the cache.\<close>

theorem refresh_sanity_floor:
  assumes "refresh_kev feed can_write now file = (r, file')"
    and "valid_datetime now" and "dt_offset now \<noteq> None"
  shows "(\<not> kr_updated r \<longrightarrow> file' = file)
    \<and> (kr_updated r \<longrightarrow> kr_rejected r = None
        \<and> 1000 \<le> card (kev_ids (load_kev file'))
        \<and> check_catalog_sanity (card (kev_ids (load_kev file'))) (card (kev_ids (load_kev file))) = None
        \<and> fetched_at (load_kev file') = Some now
        \<and> \<not> is_stale (load_kev file') (dt_date now) kev_max_age_days
        \<and> (\<exists>d vs. feed = Feed_Payload (PDict d) \<and> dget d ''vulnerabilities'' = Some (PList vs)
             \<and> kev_ids (load_kev file') = set (List.map_filter feed_id vs)))"
proof (cases "kr_updated r")
  case False
  then show ?thesis using assms(1)
    by (auto simp: refresh_kev_def Let_def split: kev_feed.splits option.splits sum.splits)
next
  case True
  then obtain payload vs where f: "feed = Feed_Payload payload" "feed_vulns payload = Some vs"
    and sane: "check_catalog_sanity (card (set (List.map_filter feed_id vs)))
        (card (kev_ids (load_kev file))) = None"
    and r: "kr_rejected r = None"
    and file': "file' = Doc (catalog_doc (sorted_list_of_set (set (List.map_filter feed_id vs))) now)"
    using assms(1) by (auto simp: refresh_kev_def Let_def atomic_write_def length_sorted_list_of_set
        split: kev_feed.splits option.splits sum.splits if_splits)
  have l: "load_kev file' = \<lparr> kev_ids = set (List.map_filter feed_id vs), fetched_at = Some now \<rparr>"
    unfolding file' load_written [OF assms(2,3)] by simp
  obtain d where "payload = PDict d" "dget d ''vulnerabilities'' = Some (PList vs)"
    using f(2) by (auto simp: feed_vulns_def split: pyval.splits option.splits)
  moreover have "1000 \<le> card (set (List.map_filter feed_id vs))"
    using sane by (auto simp: check_catalog_sanity_def kev_min_entries_def split: if_splits)
  moreover have "\<not> is_stale (load_kev file') (dt_date now) kev_max_age_days"
    by (simp add: l is_stale_def kev_max_age_days_def max_future_days_def)
  ultimately show ?thesis using True f(1) r sane l by simp
qed

definition night :: datetime where
  "night = \<lparr> dt_date = Date 2026 7 1, dt_hour = 3, dt_minute = 0, dt_second = 0, dt_micro = 0,
     dt_offset = Some 0 \<rparr>"

text \<open>An empty feed, the accident the floor is for: the cache stays.\<close>

theorem refresh_sanity_floor_witness:
  "snd (refresh_kev (Feed_Payload (PDict [(PStr ''vulnerabilities'', PList [])])) True night
     (Doc (catalog_doc [''CVE-2024-1''] night))) = Doc (catalog_doc [''CVE-2024-1''] night)"
proof -
  let ?f = "Doc (catalog_doc [''CVE-2024-1''] night)"
  let ?feed = "Feed_Payload (PDict [(PStr ''vulnerabilities'', PList [])])"
  obtain r file' where e: "refresh_kev ?feed True night ?f = (r, file')" by (meson surj_pair)
  have v: "valid_datetime night" "dt_offset night \<noteq> None"
    by (simp_all add: night_def valid_datetime_def valid_date_def days_in_month_def)
  have "\<not> kr_updated r"
    using e by (simp add: refresh_kev_def feed_vulns_def dget_def List.map_filter_def
        check_catalog_sanity_def kev_min_entries_def Let_def)
      auto
  with refresh_sanity_floor [OF e v] e show ?thesis by simp
qed

end
