(* ===== verification/Cve_Quarantine_Laws.thy ===== *)
theory Cve_Quarantine_Laws
  imports Cve_Quarantine
begin

text \<open>
  What a quarantine guarantees, whatever fails on the way: a project is never taken
  down without a record, a completed action holds, the restart policies survive any
  number of attempts, and a lift gives them back.
\<close>

section \<open>Taking the action\<close>

lemma quarantine_doc_no_policies [simp]: "saved_policies (quarantine_doc h ref p now) = Inr []"
  by (simp add: quarantine_doc_def saved_policies_def dget_or_def dget_def Let_def)

lemma quarantine_project_cases:
  assumes "quarantine_project hosts h ref p now b = (r, b')"
  obtains (unwritten) rs where "r = Inl (Raised Quarantine_Error)" "b' = b\<lparr>outcomes := rs\<rparr>"
  | (written) b1 where "quarantine_file b1 = Doc (PDict (quarantine_doc h ref p now))"
      "containers b1 = containers b"
      "complete_action hosts (quarantine_doc h ref p now) b1 = (r, b')"
proof -
  obtain r1 b1 where w: "write_record (quarantine_doc h ref p now) b = (r1, b1)" by fastforce
  show ?thesis
  proof (cases r1)
    case (Inl e)
    with w assms have "r = Inl e" "b' = b1"
      by (auto simp: quarantine_project_def write_quarantine_state_def abind_def Let_def)
    then show ?thesis using write_record_Inl w Inl unwritten by blast
  next
    case (Inr u)
    with w assms have "complete_action hosts (quarantine_doc h ref p now) b1 = (r, b')"
      by (auto simp: quarantine_project_def write_quarantine_state_def abind_def Let_def aret_def)
    moreover have e: "b1 = b\<lparr>outcomes := tl (outcomes b),
        quarantine_file := Doc (PDict (quarantine_doc h ref p now))\<rparr>"
      using w Inr by (auto dest: write_record_Inr)
    moreover have "quarantine_file b1 = Doc (PDict (quarantine_doc h ref p now))"
      "containers b1 = containers b" by (simp_all add: e)
    ultimately show ?thesis using written by blast
  qed
qed

text \<open>C35. A project is never taken down silently: whatever step fails, either the record could not be
  written and nothing at all was touched, or the project is marked quarantined; and when
  the action reports success, visitors get the maintenance page, no container runs, none
  will come back with the Docker daemon, and the record is complete.\<close>

theorem quarantine_never_silent:
  assumes "quarantine_project hosts h ref p now b = (r, b')"
    and "distinct (map fst (containers b))"
  shows "(is_quarantined b' \<or> r = Inl (Raised Quarantine_Error) \<and> containers b' = containers b
        \<and> caddy_live b' = caddy_live b \<and> caddy_site b' = caddy_site b)
    \<and> (r = Inr () \<longrightarrow>
        (\<exists>conf. render_maintenance_caddy_config hosts = Inr conf \<and> caddy_live b' = Some conf)
        \<and> all_stopped b' \<and> (\<forall>n. policy_of b' n \<in> {None, Some ''no''})
        \<and> quarantine_action_complete b' = (Inr True, b'))"
  using assms(1)
proof (cases rule: quarantine_project_cases)
  case (unwritten rs)
  then show ?thesis by simp
next
  case (written b1)
  have "is_quarantined b1" by (simp add: is_quarantined_def written(1))
  then have "is_quarantined b'"
    by (rule staysD [OF stays_complete_action written(3)])
  moreover have "quarantine_action_complete b' = (Inr True, b')"
    if "\<exists>d. quarantine_file b' = Doc (PDict d) \<and> dget d ''action_complete'' = Some (PBool True)"
    using that by (auto simp: quarantine_action_complete_def abind_def read_quarantine_state_def
        aret_def dget_or_def)
  moreover have "distinct (map fst (containers b1))" using written(2) assms(2) by simp
  ultimately show ?thesis
    using complete_action_Inr [of hosts _ b1 _ b'] written by blast
qed

definition example_headline :: finding_disposition where
  "example_headline = evaluate_finding example_finding (example_judging Strict)"

definition strict_policy :: sec_policy where
  "strict_policy = security_policy Strict False None"

text \<open>The stop fails half-way: the project is marked, and the caller hears of it.\<close>

theorem quarantine_never_silent_witness:
  "is_quarantined (snd (quarantine_project [''a.org''] example_headline ''img'' strict_policy pause_time
     (web_box\<lparr>outcomes := [Step_Ok, Step_Ok, Step_Ok, Step_Fails 0]\<rparr>)))"
proof -
  let ?b = "web_box\<lparr>outcomes := [Step_Ok, Step_Ok, Step_Ok, Step_Fails 0]\<rparr>"
  obtain r b' where r: "quarantine_project [''a.org''] example_headline ''img'' strict_policy pause_time ?b
      = (r, b')" by fastforce
  have d: "distinct (map fst (containers ?b))" by (simp add: web_box_def)
  have "caddy_live b' \<noteq> caddy_live ?b"
    using r
    by (auto simp: quarantine_project_def write_quarantine_state_def write_record_def
        write_quarantine_file_def effect_def next_outcome_def abind_def web_box_def Let_def
        complete_action_def go_dark_def write_maintenance_def render_maintenance_caddy_config_def
        write_caddy_site_def caddy_reload_def on_docker_error_def compose_stop_def aret_def)
  with quarantine_never_silent [OF r d] show ?thesis by (simp add: r)
qed

section \<open>Attempt after attempt\<close>

lemma no_record_no_originals:
  "\<not> is_quarantined b \<Longrightarrow> quarantine_originals b = [] \<and> record_keeper.original b = policy_of b"
  by (simp add: is_quarantined_def quarantine_originals_def record_policies_def
      record_keeper.original_def fun_eq_iff)

definition same_originals :: "box \<Rightarrow> box \<Rightarrow> bool" where
  "same_originals b b' \<longleftrightarrow> record_keeper.original b' = record_keeper.original b
     \<and> map fst (containers b') = map fst (containers b)
     \<and> (distinct (map fst (quarantine_originals b)) \<longrightarrow> distinct (map fst (quarantine_originals b')))"

lemma same_originals_refl [simp]: "same_originals b b"
  by (simp add: same_originals_def)

lemma same_originals_outcomes [simp]: "same_originals b (b'\<lparr>outcomes := rs\<rparr>) = same_originals b b'"
  by (simp add: same_originals_def record_keeper.original_def quarantine_originals_def fun_eq_iff
      cong: option.case_cong)

lemma same_originals_trans:
  "same_originals a b \<Longrightarrow> same_originals b c \<Longrightarrow> same_originals a c"
  by (auto simp: same_originals_def)

lemma complete_action_originals:
  assumes "complete_action hosts st b = (r, b')" "quarantine_file b = Doc (PDict st)"
    "distinct (map fst (containers b))"
  shows "same_originals b b'"
  using complete_action_keeps [OF assms] by (simp add: same_originals_def fun_eq_iff)

lemma quarantine_project_originals:
  assumes "quarantine_project hosts h ref p now b = (r, b')" "\<not> is_quarantined b"
    "distinct (map fst (containers b))"
  shows "same_originals b b'"
  using assms(1)
proof (cases rule: quarantine_project_cases)
  case (written b1)
  have q1: "quarantine_originals b1 = []"
    by (simp add: quarantine_originals_def record_policies_def written(1))
  have "same_originals b b1"
    using no_record_no_originals [OF assms(2)] written(2) q1
    by (simp add: same_originals_def record_keeper.original_def policy_of_def fun_eq_iff)
  moreover have "same_originals b1 b'"
    by (rule complete_action_originals [OF written(3,1)]) (simp add: written(2) assms(3))
  ultimately show ?thesis by (rule same_originals_trans)
qed simp

lemma reassert_originals:
  assumes "reassert_quarantine hosts b = (r, b')" "distinct (map fst (containers b))"
  shows "same_originals b b'"
proof -
  obtain r1 where rd: "read_quarantine_state b = (r1, b)"
    using read_quarantine_same by (metis surj_pair)
  show ?thesis
  proof (cases "\<exists>d. r1 = Inr (Some d)")
    case True
    then obtain d where d: "r1 = Inr (Some d)" by blast
    then have f: "quarantine_file b = Doc (PDict d)" using rd read_quarantine_Some by blast
    have "complete_action hosts d b = (r, b')"
      using assms(1) rd d by (simp add: reassert_quarantine_def abind_def)
    then show ?thesis using f assms(2) by (rule complete_action_originals)
  next
    case False
    then have "b' = b" using assms(1) rd
      by (auto simp: reassert_quarantine_def abind_def araise_def split: sum.splits option.splits)
    then show ?thesis by simp
  qed
qed

lemma quarantine_complete_same: "quarantine_action_complete b = (r, b') \<Longrightarrow> b' = b"
  by (auto simp: quarantine_action_complete_def abind_def read_quarantine_state_def aret_def
      split: sum.splits)

lemma recorded_cve_same: "recorded_cve b = (r, b') \<Longrightarrow> b' = b"
  by (auto simp: recorded_cve_def abind_def read_quarantine_state_def aret_def araise_def
      split: sum.splits pyval.splits if_splits)

lemma enforce_steps_originals:
  assumes run: "enforce_steps hosts p headline g legacy now b = (r, b')"
    and dist: "distinct (map fst (containers b))"
  shows "same_originals b b'"
proof (cases "legacy = No_Legacy")
  case False
  then have "b' = b"
    using run by (cases legacy) (auto simp: enforce_steps_def abind_def aret_def
        dest: recorded_cve_same split: prod.splits sum.splits option.splits if_splits)
  then show ?thesis by simp
next
  case legacy: True
  show ?thesis
  proof (cases "is_quarantined b")
    case True
    obtain c b1 where c: "quarantine_action_complete b = (c, b1)" by fastforce
    then have b1: "b1 = b" by (rule quarantine_complete_same)
    show ?thesis
    proof (cases c)
      case (Inl e)
      with run legacy True c b1 have "b' = b" by (simp add: enforce_steps_def abind_def)
      then show ?thesis by simp
    next
      case (Inr w)
      obtain r2 b2 where r2: "reassert_quarantine hosts b = (r2, b2)" by fastforce
      then have "b' = b2" using run legacy True c b1 Inr
        by (auto simp: enforce_steps_def abind_def aret_def split: sum.splits)
      with reassert_originals [OF r2 dist] show ?thesis by simp
    qed
  next
    case False
    show ?thesis
    proof (cases headline)
      case None
      then have "b' = b" using run legacy False by (simp add: enforce_steps_def)
      then show ?thesis by simp
    next
      case (Some rd)
      obtain ref d where rd: "rd = (ref, d)" by (cases rd)
      obtain r2 b2 where r2: "quarantine_project hosts d ref p now b = (r2, b2)" by fastforce
      then have "b' = b \<or> b' = b2" using run legacy False Some rd
        by (auto simp: enforce_steps_def abind_def aret_def split: sum.splits if_splits)
      with quarantine_project_originals [OF r2 False dist] show ?thesis by auto
    qed
  qed
qed

lemma enforce_originals:
  assumes "enforce hosts p headline g legacy now b = (r, b')" "distinct (map fst (containers b))"
  shows "same_originals b b'"
proof -
  obtain r1 b1 where s: "enforce_steps hosts p headline g legacy now b = (r1, b1)" by fastforce
  then have "b' = b1" using assms(1)
    by (auto simp: enforce_def acatch_def aret_def split: sum.splits if_splits)
  with enforce_steps_originals [OF s assms(2)] show ?thesis by simp
qed

text \<open>
  Scan after scan: each enforces with its own headline, policy and grace, on whatever
  the environment does to the steps.
\<close>

inductive enforced_run :: "box \<Rightarrow> box \<Rightarrow> bool" for b0 where
  start: "enforced_run b0 b0"
| scan: "enforced_run b0 b \<Longrightarrow> enforce hosts p headline g legacy now b = (r, b') \<Longrightarrow>
    enforced_run b0 (b'\<lparr>outcomes := rs\<rparr>)"

lemma enforced_run_originals:
  assumes "enforced_run b0 b" "distinct (map fst (containers b0))"
  shows "same_originals b0 b"
  using assms
proof (induction rule: enforced_run.induct)
  case (scan b hosts p headline g legacy now r b' rs)
  then have IH: "same_originals b0 b" by blast
  then have "distinct (map fst (containers b))" using scan.prems by (simp add: same_originals_def)
  then have "same_originals b b'" using enforce_originals scan.hyps(2) by blast
  with IH show ?case using same_originals_trans by simp
qed simp

section \<open>The lift\<close>

lemma alift_Inr: "alift r b = (Inr x, b') \<longleftrightarrow> r = Inr x \<and> b' = b"
  by (auto simp: alift_def)

lemma lift_to_site_Inr:
  assumes "lift_to_site conf restore up after st b = (Inr u, b')"
  shows "\<exists>b1 b2 b3 b4 saved. (case restore of None \<Rightarrow> saved_policies st | Some ps \<Rightarrow> Inr ps) = Inr saved
    \<and> containers b1 = containers b \<and> caddy_live b1 = Some conf
    \<and> release saved b1 = (Inr (), b2) \<and> up b2 = (Inr (), b3)
    \<and> (case after of None \<Rightarrow> aret () | Some check \<Rightarrow> check) b3 = (Inr (), b4)
    \<and> b' = b4\<lparr>quarantine_file := Absent\<rparr>"
proof -
  from assms obtain ba b1 saved b2 b3 b4 where
    w: "write_caddy_site (Raised Quarantine_Error) conf b = (Inr (), ba)"
    and c: "caddy_reload ba = (Inr (), b1)"
    and rest: "(case restore of None \<Rightarrow> saved_policies st | Some ps \<Rightarrow> Inr ps) = Inr saved"
      "release saved b1 = (Inr (), b2)" "up b2 = (Inr (), b3)"
      "(case after of None \<Rightarrow> aret () | Some check \<Rightarrow> check) b3 = (Inr (), b4)"
      "b' = b4\<lparr>quarantine_file := Absent\<rparr>"
    unfolding lift_to_site_def restore_restart_policies_def clear_quarantine_state_def abind_Inr
      on_docker_error_Inr alift_Inr by auto
  have "ba = b\<lparr>outcomes := tl (outcomes b), caddy_site := Some conf\<rparr>"
    using effect_Inr [OF w [unfolded write_caddy_site_def]] .
  moreover have "b1 = ba\<lparr>outcomes := tl (outcomes ba), caddy_live := caddy_site ba\<rparr>"
    using effect_Inr [OF c [unfolded caddy_reload_def]] by simp
  ultimately have "containers b1 = containers b" "caddy_live b1 = Some conf" by simp_all
  with rest show ?thesis by blast
qed

lemma lift_site_Inr:
  assumes "lift_quarantine (Some conf) restore up after b = (Inr u, b')" "is_quarantined b"
  shows "\<exists>st. quarantine_file b = Doc (PDict st) \<and> lift_to_site conf restore up after st b = (Inr u, b')"
  using assms by (auto simp: lift_quarantine_def abind_Inr is_quarantined_def read_quarantine_state_def
      split: json_file.splits pyval.splits)

text \<open>C2. A quarantine gives back what it took: after any number of enforcing scans, with any of their
  steps failing any number of times, a successful lift leaves every container with the
  restart policy it had before the first of them, serves the project's own site again and
  removes the record.  Starting the containers may not change the policies of those it finds.\<close>

theorem lift_restores_policies:
  assumes "enforced_run b0 b" and "\<not> is_quarantined b0" and "is_quarantined b"
    and "distinct (map fst (containers b0))"
    and "lift_quarantine (Some conf) None up None b = (Inr (), b')"
    and "keeps policy_of up" and "keeps caddy_live up"
  shows "policy_of b' = policy_of b0 \<and> caddy_live b' = Some conf \<and> \<not> is_quarantined b'"
proof -
  have so: "same_originals b0 b" using assms(1,4) by (rule enforced_run_originals)
  then have d: "distinct (map fst (containers b))" and dq: "distinct (map fst (quarantine_originals b))"
    using assms(4) no_record_no_originals [OF assms(2)] by (simp_all add: same_originals_def)
  obtain st where f: "quarantine_file b = Doc (PDict st)"
    and l: "lift_to_site conf None up None st b = (Inr (), b')"
    using lift_site_Inr [OF assms(5,3)] by blast
  from lift_to_site_Inr [OF l] obtain b1 b2 b3 saved where s: "saved_policies st = Inr saved"
    and b1: "containers b1 = containers b" "caddy_live b1 = Some conf"
    and r: "release saved b1 = (Inr (), b2)" and up: "up b2 = (Inr (), b3)"
    and e: "b' = b3\<lparr>quarantine_file := Absent\<rparr>"
    by auto
  have q: "quarantine_originals b = saved" using f s by (rule quarantine_originals_doc)
  have p1: "policy_of b1 = policy_of b" using b1 by (simp add: policy_of_def fun_eq_iff)
  have d1: "distinct (map fst (containers b1))" "distinct (map fst saved)" using d dq b1 q by simp_all
  have orig: "record_keeper.original b = policy_of b0"
    using so no_record_no_originals [OF assms(2)] by (simp add: same_originals_def)
  have names: "policy_of b n = None \<longleftrightarrow> policy_of b0 n = None" for n
    using so by (simp add: same_originals_def policy_of_def map_of_eq_None_iff)
      (metis image_set)
  have "policy_of b2 n = policy_of b0 n" for n
    using release_Inr [OF r d1, of n] fun_cong [OF orig, of n] names [of n] p1
    by (auto simp: record_keeper.original_def q split: option.splits)
  moreover have "policy_of b3 = policy_of b2" using keepsD [OF assms(6) up] .
  moreover have "policy_of b' = policy_of b3" by (simp add: e policy_of_def fun_eq_iff)
  moreover have "caddy_live b2 = caddy_live b1" by (rule keepsD [OF keeps_release r]) simp_all
  moreover have "caddy_live b3 = caddy_live b2" using keepsD [OF assms(7) up] .
  ultimately show ?thesis using b1 by (simp add: e is_quarantined_def fun_eq_iff)
qed

text \<open>A concrete \<open>up\<close>: every container starts.\<close>

definition start_all :: "unit act" where
  "start_all = effect (\<lambda>b. b\<lparr>containers := map (\<lambda>(n, c). (n, c\<lparr>c_running := True\<rparr>)) (containers b)\<rparr>)
     (\<lambda>_ b. b) (Raised Docker_Error)"

lemma keeps_start_all: "keeps policy_of start_all" "keeps caddy_live start_all"
  "keeps quarantine_file start_all"
proof -
  have "map_option c_policy (map_of (map (\<lambda>(n, c). (n, c\<lparr>c_running := True\<rparr>)) cs) n)
      = map_option c_policy (map_of cs n)" for cs n
    by (induction cs) auto
  then show "keeps policy_of start_all" "keeps caddy_live start_all" "keeps quarantine_file start_all"
    unfolding start_all_def by (auto intro!: keeps_effect simp: policy_of_def fun_eq_iff)
qed

lemmas quarantine_run_simps = enforce_def enforce_steps_def acatch_def quarantine_project_def
  write_quarantine_state_def write_record_def
  write_quarantine_file_def effect_def next_outcome_def abind_def Let_def
  complete_action_def go_dark_def write_maintenance_def render_maintenance_caddy_config_def
  write_caddy_site_def caddy_reload_def on_docker_error_def compose_stop_def aret_def
  pin_restart_policies_def alift_def hold_def project_restart_policies_def policies_now_def
  stop_first_def persist_in_record_def merge_originals_def set_restart_policy_def set_policies_def
  is_quarantined_def marked_complete_def

definition taken_down :: box where
  "taken_down = snd (enforce [''a.org''] strict_policy (Some (''img'', example_headline)) False No_Legacy
     pause_time web_box)"

lemma taken_down_simps:
  "enforced_run web_box taken_down" "is_quarantined taken_down" "outcomes taken_down = []"
  "\<exists>d. quarantine_file taken_down = Doc (PDict d)
     \<and> saved_policies d = Inr [(''web'', ''always'')]"
  "containers taken_down = [(''web'', \<lparr> c_running = False, c_policy = ''no'' \<rparr>)]"
proof -
  obtain r b' where e: "enforce [''a.org''] strict_policy (Some (''img'', example_headline)) False No_Legacy
     pause_time web_box = (r, b')" by fastforce
  have "outcomes b' = []" using e by (auto simp: quarantine_run_simps web_box_def)
  then have "b'\<lparr>outcomes := []\<rparr> = b'" by simp
  with enforced_run.scan [OF enforced_run.start e, of "[]"]
  show "enforced_run web_box taken_down" by (simp add: taken_down_def e)
  show "is_quarantined taken_down" "outcomes taken_down = []"
    "\<exists>d. quarantine_file taken_down = Doc (PDict d) \<and> saved_policies d = Inr [(''web'', ''always'')]"
    "containers taken_down = [(''web'', \<lparr> c_running = False, c_policy = ''no'' \<rparr>)]"
    by (simp_all add: taken_down_def quarantine_run_simps web_box_def)
qed

lemma taken_down_lifts:
  "fst (lift_quarantine (Some ''site'') None start_all None taken_down) = Inr ()"
proof -
  obtain d where d: "quarantine_file taken_down = Doc (PDict d)"
    "saved_policies d = Inr [(''web'', ''always'')]"
    using taken_down_simps(4) by blast
  show ?thesis
    using taken_down_simps(3,5)
    by (simp add: lift_quarantine_def is_quarantined_def d abind_def read_quarantine_state_def
        lift_to_site_def write_caddy_site_def effect_def next_outcome_def caddy_reload_def
        on_docker_error_def restore_restart_policies_def alift_def release_def
        project_restart_policies_def policies_now_def group_by_policy_def group_step_def
        add_to_group_def set_restart_policy_def start_all_def aret_def clear_quarantine_state_def)
qed

theorem lift_restores_policies_witness:
  "policy_of (snd (lift_quarantine (Some ''site'') None start_all None taken_down)) ''web''
   = Some ''always''"
proof -
  obtain b' where l: "lift_quarantine (Some ''site'') None start_all None taken_down = (Inr (), b')"
    using taken_down_lifts by (metis prod.collapse)
  have "\<not> is_quarantined web_box" "distinct (map fst (containers web_box))"
    "policy_of web_box ''web'' = Some ''always''"
    by (simp_all add: web_box_def is_quarantined_def policy_of_def)
  then show ?thesis
    using lift_restores_policies [OF taken_down_simps(1) _ taken_down_simps(2) _ l keeps_start_all(1,2)] l
    by simp
qed

lemma keeps_restore: "keeps quarantine_file (restore_restart_policies st restore)"
  unfolding restore_restart_policies_def
  by (intro keeps_bind keeps_alift keeps_on_docker_error keeps_release) simp_all

lemma quarantine_file_site:
  "keeps quarantine_file (write_caddy_site e conf)"
  unfolding write_caddy_site_def by (auto intro!: keeps_effect)

text \<open>What a failing lift is allowed to remove: nothing.\<close>

lemma lift_to_site_Inl:
  assumes "lift_to_site conf restore up after st b = (Inl e, b')"
    and "keeps quarantine_file up" and "\<And>check. after = Some check \<Longrightarrow> keeps quarantine_file check"
  shows "quarantine_file b' = quarantine_file b"
proof -
  let ?pre = "abind (write_caddy_site (Raised Quarantine_Error) conf) (\<lambda>_.
     abind (on_docker_error Quarantine_Error caddy_reload) (\<lambda>_.
     abind (restore_restart_policies st restore) (\<lambda>_.
     abind (on_docker_error Quarantine_Error up) (\<lambda>_.
     (case after of None \<Rightarrow> aret () | Some check \<Rightarrow> check)))))"
  have "keeps quarantine_file (case after of None \<Rightarrow> aret () | Some check \<Rightarrow> check)"
    using assms(3) by (cases after) auto
  then have k: "keeps quarantine_file ?pre"
    by (intro keeps_bind keeps_on_docker_error quarantine_file_site keeps_caddy_reload keeps_restore
        assms(2))
  have "lift_to_site conf restore up after st = abind ?pre (\<lambda>_. clear_quarantine_state)"
    by (auto simp: lift_to_site_def abind_def fun_eq_iff split: prod.splits sum.splits)
  then have "?pre b = (Inl e, b')"
    using assms(1) by (auto simp: abind_Inl clear_quarantine_state_def)
  then show ?thesis using k keepsD by blast
qed

text \<open>A lift that fails leaves the project quarantined: the record is cleared only after everything
  else succeeded, the check of what the start brought up included, so a failed or refused
  start can be retried and is never taken for a lifted quarantine.  A lift of a project that
  is not quarantined changes nothing.\<close>

theorem failed_lift_keeps_record:
  assumes "lift_quarantine (Some conf) restore up after b = (r, b')"
    and "keeps quarantine_file up" and "\<forall>check. after = Some check \<longrightarrow> keeps quarantine_file check"
  shows "(r \<noteq> Inr () \<longrightarrow> quarantine_file b' = quarantine_file b \<and> is_quarantined b')
    \<and> (\<not> is_quarantined b \<longrightarrow> r = Inr () \<and> b' = b)"
proof (cases "is_quarantined b")
  case False
  then show ?thesis using assms(1) by (simp add: lift_quarantine_def)
next
  case True
  have "quarantine_file b' = quarantine_file b" if "r = Inl e" for e
  proof -
    from assms(1) that True consider "b' = b"
      | st where "lift_to_site conf restore up after st b = (Inl e, b')"
      by (auto simp: lift_quarantine_def abind_Inl read_quarantine_state_def Let_def)
    then show ?thesis using lift_to_site_Inl [OF _ assms(2)] assms(3) by cases auto
  qed
  then show ?thesis using True by (cases r) (auto simp: is_quarantined_def)
qed

text \<open>The start moved a container onto an image that was not scanned: the check refuses.\<close>

theorem failed_lift_keeps_record_witness:
  "is_quarantined (snd (lift_quarantine (Some ''site'') None start_all
     (Some (araise Quarantine_Error)) taken_down))"
proof -
  obtain r b' where l: "lift_quarantine (Some ''site'') None start_all
     (Some (araise Quarantine_Error)) taken_down = (r, b')" by fastforce
  have "r \<noteq> Inr ()"
  proof
    assume "r = Inr ()"
    then obtain st where "lift_to_site ''site'' None start_all (Some (araise Quarantine_Error)) st taken_down
        = (Inr (), b')"
      using lift_site_Inr [OF _ taken_down_simps(2)] l by blast
    from lift_to_site_Inr [OF this] show False by auto
  qed
  moreover have "\<forall>check. Some (araise Quarantine_Error) = Some check \<longrightarrow> keeps quarantine_file check"
    by auto
  ultimately show ?thesis using failed_lift_keeps_record [OF l keeps_start_all(3)] l by simp
qed

section \<open>Paused and quarantined\<close>

text \<open>A quarantine lifted while the project is paused leaves it exactly as paused as it was: no
  container starts or changes its policy, visitors keep the maintenance page, the record
  goes, and the pause record takes over the originals, a real policy of either record
  winning over a \<open>no\<close> that only reflects the other's hold.\<close>

theorem lift_while_paused:
  assumes "lift_quarantine None restore up after b = (Inr (), b')" and "is_quarantined b"
    and "distinct (map fst (paused_originals b))" and "distinct (map fst (quarantine_originals b))"
  shows "containers b' = containers b \<and> caddy_live b' = caddy_live b \<and> \<not> is_quarantined b'
    \<and> is_paused b'
    \<and> (\<forall>n. map_of (paused_originals b') n
          = real_or_no (map_of (paused_originals b) n) (map_of (quarantine_originals b) n))"
proof -
  from assms(1,2) obtain st saved b1 where f: "quarantine_file b = Doc (PDict st)"
    and s: "saved_policies st = Inr saved" and h: "hand_over_restart_policies saved b = (Inr (), b1)"
    and e: "b' = b1\<lparr>quarantine_file := Absent\<rparr>"
    by (auto simp: lift_quarantine_def abind_Inr read_quarantine_state_def is_quarantined_def
        alift_Inr clear_quarantine_state_def simp del: alift_eq split: json_file.splits pyval.splits)
  from h obtain d b2 own where p: "paused_or_empty b = (Inr d, b2)" and own: "saved_policies d = Inr own"
    and ps: "persist_in_pause (originals [own, saved]) b2 = (Inr (), b1)"
    by (auto simp: hand_over_restart_policies_def abind_Inr alift_Inr simp del: alift_eq)
  have b2: "b2 = b" using p by (auto simp: paused_or_empty_def abind_Inr read_paused_eq)
  obtain d' where d': "pause_file b = Doc (PDict d')" and b1: "b1 = b\<lparr>outcomes := tl (outcomes b),
      pause_file := Doc (PDict (dset d' (PStr ''restart_policies'') (policies_doc (originals [own, saved]))))\<rparr>"
    using update_paused_Inr ps unfolding persist_in_pause_def b2 by blast
  have "d = d'" using p d'
    by (auto simp: paused_or_empty_def abind_Inr read_paused_eq is_paused_def read_state_def)
  then have po: "paused_originals b = own"
    using own d' by (simp add: paused_originals_def record_policies_def)
  have qo: "quarantine_originals b = saved" using f s by (rule quarantine_originals_doc)
  have "paused_originals b' = originals [own, saved]"
    using saved_with_policies [of d' "originals [own, saved]"]
    by (simp add: e b1 paused_originals_def record_policies_def with_policies_def)
  then show ?thesis
    using map_of_originals [of own saved] assms(3,4) po qo
    by (simp add: e b1 is_quarantined_def is_paused_def)
qed

text \<open>Paused first, quarantined while down: the pause knows the real policy.\<close>

definition doubly_down :: box where
  "doubly_down = taken_down\<lparr>quarantine_file := Doc (PDict (with_policies [] [(''web'', ''no'')])),
     pause_file := Doc (PDict (with_policies [] [(''web'', ''always'')]))\<rparr>"

theorem lift_while_paused_witness:
  "map_of (paused_originals (snd (lift_quarantine None None start_all None doubly_down))) ''web''
   = Some ''always''"
proof -
  have o: "outcomes doubly_down = []" by (simp add: doubly_down_def taken_down_simps(3))
  have "fst (lift_quarantine None None start_all None doubly_down) = Inr ()"
    using o by (simp add: lift_quarantine_def is_quarantined_def doubly_down_def abind_def
        read_quarantine_state_def alift_def hand_over_restart_policies_def paused_or_empty_def
        read_paused_state_def is_paused_def read_state_def aret_def persist_in_pause_def
        update_paused_state_def write_pause_file_def effect_def next_outcome_def
        clear_quarantine_state_def Let_def)
  then obtain b' where l: "lift_quarantine None None start_all None doubly_down = (Inr (), b')"
    by (metis prod.collapse)
  have q: "is_quarantined doubly_down" "paused_originals doubly_down = [(''web'', ''always'')]"
    "quarantine_originals doubly_down = [(''web'', ''no'')]"
    by (simp_all add: doubly_down_def is_quarantined_def paused_originals_def quarantine_originals_def
        record_policies_def)
  from lift_while_paused [OF l q(1)] show ?thesis by (simp add: q l real_or_no_def)
qed

section \<open>A second quarantine\<close>

text \<open>Quarantining a project that already is, which the function provides for, overwrites the record
  with one that has no restart policies, so the second hold saves the held \<open>no\<close> of every
  container as its original.  The enforcement never takes this path: it re-asserts.\<close>

theorem requarantine_forgets_originals:
  assumes "quarantine_project hosts h ref p now b = (Inr (), b1)"
    and "quarantine_project hosts' h' ref' p' now' b1 = (Inr (), b2)"
    and "distinct (map fst (containers b))"
  shows "\<forall>n. policy_of b n \<noteq> None \<longrightarrow> map_of (quarantine_originals b2) n = Some ''no''"
proof -
  obtain c where c: "quarantine_file c = Doc (PDict (quarantine_doc h ref p now))"
    "containers c = containers b" "complete_action hosts (quarantine_doc h ref p now) c = (Inr (), b1)"
    using assms(1) by (cases rule: quarantine_project_cases) auto
  have dc: "distinct (map fst (containers c))" using c(2) assms(3) by simp
  note no = complete_action_Inr [OF c(3,1) dc] and names = complete_action_keeps [OF c(3,1) dc]
  obtain c' where c': "quarantine_file c' = Doc (PDict (quarantine_doc h' ref' p' now'))"
    "containers c' = containers b1"
    "complete_action hosts' (quarantine_doc h' ref' p' now') c' = (Inr (), b2)"
    using assms(2) by (cases rule: quarantine_project_cases) auto
  have dc': "distinct (map fst (containers c'))" using c'(2) names dc by simp
  have pol: "policy_of c' = policy_of b1" using c'(2) by (simp add: policy_of_def fun_eq_iff)
  have "policy_of c' n = Some ''no''" if "policy_of b n \<noteq> None" for n
  proof -
    have "n \<in> set (map fst (containers b1))"
      using that names c(2) by (simp add: policy_of_def map_of_eq_None_iff)
    then have "policy_of b1 n \<noteq> None" by (simp add: policy_of_def map_of_eq_None_iff)
    moreover have "policy_of b1 n \<in> {None, Some ''no''}" using no by blast
    ultimately show ?thesis by (auto simp: pol)
  qed
  moreover have "quarantine_originals c' = []"
    by (simp add: quarantine_originals_def record_policies_def c'(1))
  ultimately show ?thesis
    using complete_action_Inr [OF c'(3,1) dc'] by (simp add: record_keeper.original_def)
qed

theorem requarantine_forgets_originals_witness:
  "map_of (quarantine_originals (snd (quarantine_project [''a.org''] example_headline ''img''
     strict_policy pause_time (snd (quarantine_project [''a.org''] example_headline ''img''
     strict_policy pause_time web_box))))) ''web'' = Some ''no''"
proof -
  let ?q = "quarantine_project [''a.org''] example_headline ''img'' strict_policy pause_time"
  have "fst (?q web_box) = Inr ()" "fst (?q (snd (?q web_box))) = Inr ()"
    by (simp_all add: quarantine_run_simps web_box_def)
  then obtain b1 b2 where q: "?q web_box = (Inr (), b1)" "?q b1 = (Inr (), b2)"
    by (metis prod.collapse snd_conv)
  have "distinct (map fst (containers web_box))" "policy_of web_box ''web'' \<noteq> None"
    by (simp_all add: web_box_def policy_of_def)
  with requarantine_forgets_originals [OF q] show ?thesis by (simp add: q)
qed

section \<open>Grace and stages of an earlier version\<close>

definition landed_well :: "box \<Rightarrow> bool" where
  "landed_well b \<longleftrightarrow> is_quarantined b \<and> all_stopped b \<and> quarantine_action_complete b = (Inr True, b)"

lemma complete_landed:
  assumes "complete_action hosts st b = (Inr u, b')" "quarantine_file b = Doc (PDict st)"
    "distinct (map fst (containers b))"
  shows "landed_well b'"
  using complete_action_Inr [OF assms]
  by (auto simp: landed_well_def is_quarantined_def quarantine_action_complete_def abind_def
      read_quarantine_state_def aret_def dget_or_def)

lemma quarantine_landed:
  assumes "quarantine_project hosts h ref p now b = (Inr u, b')" "distinct (map fst (containers b))"
  shows "landed_well b'"
  using assms(1)
proof (cases rule: quarantine_project_cases)
  case (written b1)
  then show ?thesis using complete_landed [OF written(3,1)] assms(2) by simp
qed simp

lemma reassert_effect:
  assumes "reassert_quarantine hosts b = (r, b')" "distinct (map fst (containers b))" "is_quarantined b"
  shows "is_quarantined b' \<and> (\<forall>u. r = Inr u \<longrightarrow> landed_well b')"
proof -
  from assms(1) consider "b' = b" "\<exists>e. r = Inl e"
    | d where "quarantine_file b = Doc (PDict d)" "complete_action hosts d b = (r, b')"
    by (auto simp: reassert_quarantine_def abind_def read_quarantine_state_def araise_def
        split: json_file.splits pyval.splits)
  then show ?thesis
  proof cases
    case (2 d)
    then show ?thesis
      using staysD [OF stays_complete_action 2(2) assms(3)] complete_landed [OF _ 2(1) assms(2)] by blast
  qed (use assms(3) in auto)
qed

definition not_due :: "legacy_check \<Rightarrow> bool \<Rightarrow> 'h option \<Rightarrow> box \<Rightarrow> bool" where
  "not_due legacy in_grace headline b \<longleftrightarrow>
     legacy \<noteq> No_Legacy \<or> \<not> is_quarantined b \<and> (in_grace \<or> headline = None)"

lemma enforce_steps_result:
  assumes run: "enforce_steps hosts p headline g legacy now b = (r, b')"
    and dist: "distinct (map fst (containers b))"
  shows "(not_due legacy g headline b \<longrightarrow> b' = b \<and> (\<forall>e. r = Inr e \<longrightarrow> \<not> enf_landed e))
    \<and> (\<forall>e. r = Inr e \<longrightarrow> enf_landed e \<longrightarrow> enf_error e = None \<and> landed_well b')
    \<and> (is_quarantined b \<longrightarrow> is_quarantined b')"
proof (cases "legacy = No_Legacy")
  case False
  then have "b' = b \<and> (\<forall>e. r = Inr e \<longrightarrow> \<not> enf_landed e)"
    using run by (cases legacy) (auto simp: enforce_steps_def abind_def aret_def enforced_def
        dest: recorded_cve_same split: prod.splits sum.splits option.splits if_splits)
  then show ?thesis by simp
next
  case legacy: True
  show ?thesis
  proof (cases "is_quarantined b")
    case q: True
    obtain c b1 where c: "quarantine_action_complete b = (c, b1)" by fastforce
    then have b1: "b1 = b" by (rule quarantine_complete_same)
    show ?thesis
    proof (cases c)
      case (Inl e)
      with run legacy q c b1 have "b' = b" "r = Inl e" by (simp_all add: enforce_steps_def abind_def)
      then show ?thesis by simp
    next
      case (Inr w)
      obtain r2 b2 where r2: "reassert_quarantine hosts b = (r2, b2)" by fastforce
      have "b' = b2" "(\<exists>e. r2 = Inl e \<and> r = Inl e) \<or> (r2 = Inr () \<and> r = Inr (enforced\<lparr>enf_landed := \<not> w\<rparr>))"
        using run legacy q c b1 Inr r2
        by (auto simp: enforce_steps_def abind_def aret_def split: sum.splits)
      with reassert_effect [OF r2 dist q] q legacy show ?thesis
        by (auto simp: not_due_def enforced_def)
    qed
  next
    case q: False
    show ?thesis
    proof (cases "headline = None \<or> g")
      case True
      then have "b' = b" "r = Inr enforced" using run legacy q
        by (auto simp: enforce_steps_def split: option.splits)
      then show ?thesis by (simp add: enforced_def)
    next
      case False
      then obtain ref d where hd: "headline = Some (ref, d)" by auto
      obtain r2 b2 where r2: "quarantine_project hosts d ref p now b = (r2, b2)" by fastforce
      have "b' = b2" "(\<exists>e. r2 = Inl e \<and> r = Inl e) \<or> (r2 = Inr () \<and> r = Inr (enforced\<lparr>enf_landed := True\<rparr>))"
        using run legacy q False hd r2
        by (auto simp: enforce_steps_def abind_def aret_def split: sum.splits)
      with quarantine_landed [of hosts d ref p now b _ b2] r2 dist q legacy False show ?thesis
        by (auto simp: not_due_def enforced_def)
    qed
  qed
qed

text \<open>Enforcement takes a project down only when it may: during grace no new quarantine is taken, a
  stage of an earlier version (or not knowing whether there is one) holds every action, and
  a scan that finds nothing to quarantine leaves an unquarantined project alone; a
  quarantine on record is re-asserted whatever the scan found, and an action that landed
  is complete.\<close>

theorem enforce_only_when_due:
  assumes "enforce hosts p headline in_grace legacy now b = (Inr e, b')"
    and "distinct (map fst (containers b))"
  shows "(legacy \<noteq> No_Legacy \<or> \<not> is_quarantined b \<and> (in_grace \<or> headline = None) \<longrightarrow> b' = b \<and> \<not> enf_landed e)
    \<and> (enf_landed e \<longrightarrow> enf_error e = None \<and> is_quarantined b' \<and> all_stopped b'
         \<and> quarantine_action_complete b' = (Inr True, b'))
    \<and> (is_quarantined b \<longrightarrow> is_quarantined b')"
proof -
  obtain r1 b1 where s: "enforce_steps hosts p headline in_grace legacy now b = (r1, b1)" by fastforce
  have "b' = b1" "r1 = Inr e \<or> (\<exists>x. r1 = Inl x) \<and> e = enforced\<lparr>enf_error := Some Action_Failed\<rparr>"
    using assms(1) s by (auto simp: enforce_def acatch_def aret_def split: sum.splits if_splits)
  with enforce_steps_result [OF s assms(2)] show ?thesis
    by (auto simp: not_due_def landed_well_def enforced_def)
qed

theorem enforce_only_when_due_witness:
  "\<exists>e. enforce [''a.org''] strict_policy (Some (''img'', example_headline)) True No_Legacy
     pause_time web_box = (Inr e, web_box)"
proof -
  have "\<exists>e. fst (enforce [''a.org''] strict_policy (Some (''img'', example_headline)) True No_Legacy
     pause_time web_box) = Inr e"
    by (simp add: enforce_def enforce_steps_def acatch_def web_box_def is_quarantined_def aret_def)
  then obtain e b' where r: "enforce [''a.org''] strict_policy (Some (''img'', example_headline)) True
     No_Legacy pause_time web_box = (Inr e, b')" by (metis prod.collapse)
  have "distinct (map fst (containers web_box))" "\<not> is_quarantined web_box"
    by (simp_all add: web_box_def is_quarantined_def)
  with enforce_only_when_due [OF r] have "b' = web_box" by blast
  with r show ?thesis by blast
qed

end
