(* ===== verification/Cve_Alert_Texts.thy ===== *)
theory Cve_Alert_Texts
  imports Cve_Policy
begin

text \<open>
  \<^verbatim>\<open>src/boxmunge/cve/_alerting_types.py\<close>, \<^verbatim>\<open>_alerting_formatters.py\<close> and
  \<^verbatim>\<open>_alerting_fleet.py\<close>: an alert, and the text of each kind.  As in
  \<open>Cve_Policy_Explain\<close> the source's dash is written \<open>--\<close> and its arrow \<open>->\<close>.
  \<open>Inl IndexError\<close> is the subscript of an empty sequence.
\<close>

section \<open>Alerts\<close>

datatype alert_kind =
    K_quarantine | K_still_running | K_informational | K_suppression_expired | K_grace_heads_up
  | K_kev_stale | K_scan_failed | K_scan_unrecorded | K_breaker_held | K_kev_fix_pending
  | K_fix_available | K_kev_at_risk | K_hardening_upcoming

record alert =
  al_kind :: alert_kind
  al_title :: string
  al_body :: string
  al_priority :: nat

record hit =
  hit_disposition :: finding_disposition
  hit_image_ref :: string

definition make_alert :: "alert_kind \<Rightarrow> string \<Rightarrow> string list \<Rightarrow> nat \<Rightarrow> alert" where
  "make_alert k t ls p =
     \<lparr> al_kind = k, al_title = t, al_body = join [CHR 0x0A] ls, al_priority = p \<rparr>"

fun py_first :: "'a list \<Rightarrow> py_exc + 'a" where
  "py_first [] = Inl IndexError"
| "py_first (x # _) = Inr x"

definition plural :: "nat \<Rightarrow> string" where
  "plural n = (if n = 1 then [] else ''s'')"

section \<open>Pieces of text\<close>

definition max_listed :: nat where "max_listed = 10"
definition digest_top :: nat where "digest_top = 5"

definition hit_cve :: "hit \<Rightarrow> string" where
  "hit_cve h = cve_id (fd_finding (hit_disposition h))"

definition hit_order :: "hit \<Rightarrow> int \<times> string \<times> string" where
  "hit_order h = (let d = hit_disposition h in
     (- int (severity_rank (effective_severity d)), cve_id (fd_finding d), package (fd_finding d)))"

definition ordered_hits :: "hit list \<Rightarrow> hit list" where
  "ordered_hits hs = sort_key hit_order hs"

definition sev_text :: "finding_disposition \<Rightarrow> string" where
  "sev_text d = (let base = severity_value (base_severity d); eff = severity_value (effective_severity d) in
     if 0 < hardening_penalty d \<and> base \<noteq> eff
     then base @ '' -> effective '' @ eff @ '' via penalty +'' @ show_nat (hardening_penalty d)
     else eff)"

definition hit_line :: "hit \<Rightarrow> string" where
  "hit_line h = (let d = hit_disposition h; f = fd_finding d in
     ''- '' @ cve_id f @ '' ('' @ sev_text d @ (if kev_listed d then '', CISA KEV'' else []) @ '') in ''
     @ (if package f = [] then ''?'' else package f) @ '' -- '' @ hit_image_ref h)"

definition listing :: "hit list \<Rightarrow> nat \<Rightarrow> string list" where
  "listing hs limit = map hit_line (take limit hs)
     @ (if limit < length hs then [''... and '' @ show_nat (length hs - limit) @ '' more''] else [])"

definition more_text :: "nat \<Rightarrow> string" where
  "more_text n = (if n = 0 then [] else '' (+'' @ show_nat n @ '' more)'')"

definition cve_count :: "hit list \<Rightarrow> nat" where
  "cve_count hs = card (set (map hit_cve hs))"

section \<open>One project\<close>

text \<open>Each formatter of findings: the hits most severe first, its title and lines from them and the
  first of them.\<close>

definition format_hits :: "hit list \<Rightarrow> (hit list \<Rightarrow> finding_disposition \<Rightarrow> alert) \<Rightarrow> py_exc + alert" where
  "format_hits hits0 build = (let hits = ordered_hits hits0 in
     rbind (py_first hits) (\<lambda>head. Inr (build hits (hit_disposition head))))"

definition format_quarantine_alert :: "string \<Rightarrow> hit list \<Rightarrow> py_exc + alert" where
  "format_quarantine_alert project hits0 = format_hits hits0 (\<lambda>hits head.
     make_alert K_quarantine
       (''[boxmunge:'' @ project @ ''] QUARANTINED -- '' @ cve_id (fd_finding head) @ '' (''
        @ (if kev_listed head then ''actively exploited -- CISA KEV''
           else severity_value (effective_severity head)) @ '')'' @ more_text (cve_count hits - 1))
       ([''Project: '' @ project, ''Quarantine-level findings:''] @ listing hits max_listed
        @ [[], explanation head, [], ''Service stopped, maintenance page active.'', [],
           ''To recover: deploy a fixed release (its images are scanned first; the'',
           ''quarantine lifts once it is live), or once the CVE is fixed upstream or'',
           ''suppressed: boxmunge security resume '' @ project]) 1)"

definition format_still_running_alert :: "string \<Rightarrow> hit list \<Rightarrow> py_exc + alert" where
  "format_still_running_alert project hits0 = format_hits hits0 (\<lambda>hits head.
     make_alert K_still_running
       (''[boxmunge:'' @ project @ ''] [STILL RUNNING -- quarantine disabled by config] ''
        @ cve_id (fd_finding head) @ '' ('' @ severity_value (effective_severity head) @ '')''
        @ more_text (cve_count hits - 1))
       ([''Project: '' @ project @ '' -- QUARANTINE DISABLED BY CONFIG'',
         ''Findings that would otherwise quarantine:''] @ listing hits max_listed
        @ [[], explanation head, [],
           ''Project is still running because dangerously_disable_quarantine is true.'',
           ''Read-only rootfs is the only remaining post-exploit defense.'', [],
           ''To remove the exemption: drop dangerously_disable_quarantine from the'',
           ''manifest's security: block. To suppress a reviewed CVE:'',
           ''  boxmunge security suppress '' @ cve_id (fd_finding head) @ '' --project '' @ project @ '' '' @ [CHR 0x5C],
           ''      --until <date> --reason <text>'']) 1)"

definition format_kev_fix_pending_alert :: "string \<Rightarrow> hit list \<Rightarrow> py_exc + alert" where
  "format_kev_fix_pending_alert project hits0 = format_hits hits0 (\<lambda>hits head.
     make_alert K_kev_fix_pending
       (''[boxmunge:'' @ project @ ''] ACTIVELY EXPLOITED -- '' @ cve_id (fd_finding head)
        @ '' fix available but not running (CISA KEV)'' @ more_text (cve_count hits - 1))
       ([''Project: '' @ project @ '' -- still running''] @ listing hits max_listed
        @ [[], explanation head, [],
           ''Rebuild the image (pull the fixed base image or package) and'',
           ''redeploy. This alert repeats on every scan until the fix is running.'']) 1)"

definition format_kev_at_risk_alert :: "string \<Rightarrow> hit list \<Rightarrow> py_exc + alert" where
  "format_kev_at_risk_alert project hits0 = format_hits hits0 (\<lambda>hits head.
     make_alert K_kev_at_risk
       (''[boxmunge:'' @ project @ ''] [STILL RUNNING -- quarantine disabled by config] ''
        @ ''ACTIVELY EXPLOITED '' @ cve_id (fd_finding head) @ '' (CISA KEV)''
        @ more_text (cve_count hits - 1))
       ([''Project: '' @ project @ '' -- dangerously_disable_quarantine: true''] @ listing hits max_listed
        @ [[], explanation head, [],
           ''To let boxmunge quarantine it: drop dangerously_disable_quarantine'',
           ''from the manifest's security: block and redeploy. This alert repeats'',
           ''on every scan while the finding is live.'']) 1)"

text \<open>Without findings this one has an empty listing: it never reads the first.\<close>

definition format_fixable_alert :: "string \<Rightarrow> hit list \<Rightarrow> py_exc + alert" where
  "format_fixable_alert project hits0 = (let hits = ordered_hits hits0; n = length hits in
     Inr (make_alert K_fix_available
       (''[boxmunge:'' @ project @ ''] '' @ show_nat n @ '' fixable CVE finding'' @ plural n
        @ '' over the quarantine gate -- rebuild to apply the fix'')
       ([''Project: '' @ project,
         ''A fix exists for each of these, but the running image predates it:''] @ listing hits max_listed
        @ [[], ''boxmunge does not rebuild images, and a deploy does not pull a newer'',
           ''base image. Bump the image tag or digest, change FROM, or set compose'',
           ''`build: {pull: true}` (and no_cache if needed), then redeploy. See'',
           ''CVE_POLICY.md, \"Shipping a fix the upstream image does not have yet\".'']) 0))"

definition format_hardening_upcoming_alert :: "string \<Rightarrow> hit list \<Rightarrow> py_exc + alert" where
  "format_hardening_upcoming_alert project hits0 = format_hits hits0 (\<lambda>hits head.
     let n = length hits in make_alert K_hardening_upcoming
       (''[boxmunge:'' @ project @ ''] '' @ show_nat n @ '' CVE finding'' @ plural n
        @ '' will quarantine from 0.12 (warning only)'')
       ([''Project: '' @ project @ '' -- still running; nothing is quarantined for this in 0.11.0.'']
        @ listing hits max_listed
        @ [[], explanation head, [], ''Details: boxmunge security '' @ project]) 0)"

definition format_new_findings_alert :: "string \<Rightarrow> hit list \<Rightarrow> py_exc + alert" where
  "format_new_findings_alert project hits0 = (let hits = ordered_hits hits0; n = length hits in
     Inr (make_alert K_informational
       (''[boxmunge:'' @ project @ ''] '' @ show_nat n @ '' new CVE finding'' @ plural n @ '' (informational)'')
       ([''Project: '' @ project,
         show_nat n @ '' new finding'' @ plural n @ '' below the quarantine gate. Top ''
         @ show_nat (min n digest_top) @ '':'']
        @ concat (map (\<lambda>h. [hit_line h, ''    '' @ explanation (hit_disposition h)]) (take digest_top hits))
        @ [[], ''All findings: boxmunge security '' @ project]) 0))"

definition expiry_line :: "suppression \<Rightarrow> string" where
  "expiry_line s = ''- '' @ sup_cve s @ '': added '' @ date_iso (added s) @ '', expired '' @ date_iso (until s)"

definition format_suppression_expired_alert :: "string \<Rightarrow> suppression list \<Rightarrow> py_exc + alert" where
  "format_suppression_expired_alert project sups0 = (let sups = sort_key sup_cve sups0 in
     rbind (py_first sups) (\<lambda>first. Inr (make_alert K_suppression_expired
       (''[boxmunge:'' @ project @ ''] Suppression expired -- '' @ sup_cve first @ more_text (length sups - 1))
       ([''Project: '' @ project] @ map expiry_line sups
        @ [[], ''These are active findings again; any that meet the posture threshold'',
           ''quarantine on this or the next scan. To re-review and extend:'',
           ''  boxmunge security suppress <CVE> --project '' @ project @ '' '' @ [CHR 0x5C],
           ''      --until <date> --reason <text>'']) 1)))"

section \<open>The fleet\<close>

definition max_lines :: nat where "max_lines = 20"

definition format_kev_stale_alert :: "datetime option \<Rightarrow> bool \<Rightarrow> string option \<Rightarrow> alert" where
  "format_kev_stale_alert fetched_at stale rejected =
     make_alert K_kev_stale
       (if stale then ''CISA KEV feed stale -- exploitation defense degraded''
        else ''CISA KEV refresh rejected -- previous catalog kept'')
       ([if stale then ''The cached CISA Known Exploited Vulnerabilities catalog is stale or missing.''
         else ''The cached CISA Known Exploited Vulnerabilities catalog is still ''
              @ ''fresh, but it will go stale if the feed stays broken.'',
         ''Last good fetch: '' @ (case fetched_at of None \<Rightarrow> ''never fetched'' | Some t \<Rightarrow> datetime_iso t)]
        @ (if or_else rejected [] = [] then []
           else [''This run's refresh was rejected: '' @ or_else rejected [] @ ''.''])
        @ [[], ''KEV-based quarantine is fail-safe (sites stay up), so actively-''
               @ ''exploited CVEs will NOT be auto-quarantined once the catalog is ''
               @ ''stale. Check egress to cisa.gov and the cve-scan log.'']) 1"

text \<open>A mapping is its items; \<open>sorted(d)\<close> is its keys in order.\<close>

definition sorted_keys :: "(string \<times> 'v) list \<Rightarrow> string list" where
  "sorted_keys d = sort (map fst d)"

definition at_key :: "(string \<times> 'v) list \<Rightarrow> 'v \<Rightarrow> string \<Rightarrow> 'v" where
  "at_key d v k = or_else (map_of d k) v"

definition format_scan_failure_alert :: "(string \<times> string list) list \<Rightarrow> alert" where
  "format_scan_failure_alert problems =
     (let n = length problems;
          ls = concat (map (\<lambda>p. map (\<lambda>r. ''- '' @ p @ '': '' @ r) (at_key problems [] p)) (sorted_keys problems));
          shown = (if max_lines < length ls
                   then take max_lines ls
                     @ [''... and '' @ show_nat (length ls - max_lines) @ '' more (see the cve-scan log)'']
                   else ls)
      in make_alert K_scan_failed
           (''CVE scan incomplete -- '' @ show_nat n @ '' project'' @ plural n @ '' not fully scanned'')
           (shown @ [[], ''Images that were not scanned are not covered by CVE quarantine until ''
              @ ''a scan succeeds. Inspect with `boxmunge log --component cve-scan` and ''
              @ ''re-run `boxmunge security scan`.'']) 1)"

text \<open>\<open>last_recorded.get(project)\<close> is a text or None, and empty counts as None.\<close>

definition unrecorded_line :: "(string \<times> string option) list \<Rightarrow> (string \<times> string) list \<Rightarrow> string \<Rightarrow> string" where
  "unrecorded_line last_recorded unreadable p =
     (case map_of unreadable p of
        Some why \<Rightarrow> ''- '' @ p @ '': the recorded result is unreadable ('' @ why
          @ ''); the scan overwrites it once it can be written''
      | None \<Rightarrow> (let when = or_else (at_key last_recorded None p) [] in
          ''- '' @ p @ '': '' @ (if when \<noteq> [] then ''the last recorded result (at '' @ when @ '') is still ''
             @ ''what `security '' @ p @ ''` shows''
           else ''no result is recorded, so it shows as never scanned'')))"

definition format_scan_unrecorded_alert :: "(string \<times> string) list \<Rightarrow> (string \<times> string option) list
    \<Rightarrow> (string \<times> string) list \<Rightarrow> alert" where
  "format_scan_unrecorded_alert problems last_recorded unreadable =
     (let n = length problems in
      make_alert K_scan_unrecorded
        (''CVE scan result not recorded -- '' @ show_nat n @ '' project'' @ plural n)
        (map (\<lambda>p. ''- '' @ p @ '': '' @ at_key problems [] p) (sorted_keys problems)
         @ [[], ''This run's scan was completed and acted on (quarantines, alerts), ''
                @ ''but its result was not recorded.'']
         @ map (unrecorded_line last_recorded unreadable) (sorted_keys problems)) 1)"

text \<open>A frozenset of CVEs is the list of its members; what follows sorts them.\<close>

definition add_held :: "string \<Rightarrow> (string \<times> string list) list \<Rightarrow> string \<Rightarrow> (string \<times> string list) list" where
  "add_held project per_cve cve = dset per_cve cve (at_key per_cve [] cve @ [project])"

definition projects_by_cve :: "(string \<times> string list) list \<Rightarrow> (string \<times> string list) list" where
  "projects_by_cve held =
     foldl (\<lambda>acc (project, cves). foldl (add_held project) acc cves) [] held"

definition format_breaker_held_alert :: "(string \<times> string list) list \<Rightarrow> nat \<Rightarrow> nat \<Rightarrow> alert" where
  "format_breaker_held_alert held threshold scanned =
     (let n = length held; per_cve = projects_by_cve held;
          worst = sort_key (\<lambda>(c, ps). (- int (length ps), c)) per_cve
      in make_alert K_breaker_held
        (''Circuit breaker held '' @ show_nat n @ '' quarantine'' @ plural n)
        ([show_nat n @ '' project'' @ plural n @ '' would be newly quarantined in one scan ''
          @ ''(the breaker trips at '' @ show_nat threshold @ '' of '' @ show_nat scanned @ '' scanned). That pattern ''
          @ ''usually means a shared base-image CVE or a Trivy DB change, so the ''
          @ ''quarantines are HELD and the projects are still running.'',
          [], ''Held, by CVE:'']
         @ map (\<lambda>(c, ps). ''- '' @ c @ '': '' @ join '', '' (sort ps)) (take max_lines worst)
         @ [[], ''Review: boxmunge security <project>'',
            ''Apply the held quarantines (operator only):'',
            ''  boxmunge security scan --apply-held'',
            ''Or, after review, suppress the CVE for every project (operator only):'',
            ''  boxmunge security suppress <CVE> --host --until <date> --reason <text>'',
            ''KEV-listed CVEs are never held.'']) 1)"

definition format_host_suppression_expired_alert :: "suppression list \<Rightarrow> py_exc + alert" where
  "format_host_suppression_expired_alert sups0 = (let sups = sort_key sup_cve sups0 in
     rbind (py_first sups) (\<lambda>first. Inr (make_alert K_suppression_expired
       (''Host suppression expired -- '' @ sup_cve first @ more_text (length sups - 1))
       ([''Host-scope suppressions (they applied to every project) expired:'']
        @ map expiry_line sups
        @ [[], ''These are active findings again on every project that has them.'',
           ''To re-review and extend (operator only, not from the deploy shell):'',
           ''  boxmunge security suppress <CVE> --host --until <date> --reason <text>'']) 1)))"

section \<open>The announcement of the grace window\<close>

definition quarantine_findings :: "project_decision \<Rightarrow> finding_disposition list" where
  "quarantine_findings p = filter (\<lambda>d. disposition d = Quarantine) (pd_findings p)"

definition at_risk_findings :: "project_decision \<Rightarrow> finding_disposition list" where
  "at_risk_findings p = filter (\<lambda>d. disposition d = Still_Running_At_Risk) (pd_findings p)"

definition format_finding_summary :: "finding_disposition \<Rightarrow> string" where
  "format_finding_summary d = (let cve = cve_id (fd_finding d);
       base = severity_value (base_severity d); eff = severity_value (effective_severity d) in
     if base \<noteq> eff \<and> 0 < hardening_penalty d
     then cve @ '' ('' @ base @ '' -> effective '' @ eff @ '' via hardening penalty, no upstream fix)''
     else cve @ '' ('' @ eff @ '', no upstream fix)'')"

record grace_buckets =
  gb_would_quarantine :: "(string \<times> finding_disposition) list"
  gb_at_risk :: "(string \<times> finding_disposition) list"
  gb_other :: "string list"

definition bucket_step :: "(string \<times> project_decision) list \<Rightarrow> (string \<times> bool) list
    \<Rightarrow> grace_buckets \<Rightarrow> string \<Rightarrow> grace_buckets" where
  "bucket_step decisions dangerously b name =
     (case map_of decisions name of
        None \<Rightarrow> b
      | Some p \<Rightarrow> (case quarantine_findings p of
          q # _ \<Rightarrow> b\<lparr>gb_would_quarantine := gb_would_quarantine b @ [(name, q)]\<rparr>
        | [] \<Rightarrow> (case at_risk_findings p of
            r # _ \<Rightarrow> (if map_of dangerously name = Some True
                      then b\<lparr>gb_at_risk := gb_at_risk b @ [(name, r)]\<rparr>
                      else b\<lparr>gb_other := gb_other b @ [name]\<rparr>)
          | [] \<Rightarrow> b\<lparr>gb_other := gb_other b @ [name]\<rparr>)))"

definition bucket_projects :: "(string \<times> project_decision) list \<Rightarrow> (string \<times> bool) list \<Rightarrow> grace_buckets" where
  "bucket_projects decisions dangerously =
     foldl (bucket_step decisions dangerously)
       \<lparr> gb_would_quarantine = [], gb_at_risk = [], gb_other = [] \<rparr> (sorted_keys decisions)"

text \<open>\<open>f"{name:<{width}}"\<close>.\<close>

definition pad_right :: "nat \<Rightarrow> string \<Rightarrow> string" where
  "pad_right w s = s @ replicate (w - length s) CHR '' ''"

definition name_width :: "(string \<times> 'a) list \<Rightarrow> nat" where
  "name_width xs = foldl max 0 (map (length \<circ> fst) xs)"

text \<open>
  \<open>max(1, ceil(seconds / 3600))\<close>, exactly: the quotient of doubles rounds up as
  the exact one does for windows of less than sixty years, and the window is a day.
\<close>

definition hours_remaining :: "datetime \<Rightarrow> datetime \<Rightarrow> int" where
  "hours_remaining expires now = max 1 (- ((instant now - instant expires) div 3600000000))"

text \<open>
  \<open>astimezone(utc)\<close> of an aware value and \<open>strftime("%Y-%m-%d %H:%M")\<close>, for the
  years from 1000 on, which the format leaves unpadded.
\<close>

definition prev_day :: "date \<Rightarrow> date" where
  "prev_day d =
     (if 1 < dy d then Date (yr d) (mo d) (dy d - 1)
      else if 1 < mo d then Date (yr d) (mo d - 1) (days_in_month (yr d) (mo d - 1))
      else Date (yr d - 1) 12 31)"

definition utc_minute :: "datetime \<Rightarrow> date \<times> nat \<times> nat" where
  "utc_minute t =
     (let m = int (dt_hour t) * 60 + int (dt_minute t) - or_else (dt_offset t) 0;
          d = (if m < 0 then prev_day (dt_date t) else if 1440 \<le> m then next_day (dt_date t) else dt_date t);
          r = nat (m mod 1440)
      in (d, r div 60, r mod 60))"

definition utc_display :: "datetime \<Rightarrow> string" where
  "utc_display t = (case utc_minute t of (d, h, m) \<Rightarrow> date_iso d @ '' '' @ pad2 h @ '':'' @ pad2 m)"

definition grace_quarantine_lines :: "(string \<times> string) list \<Rightarrow> (string \<times> finding_disposition) list
    \<Rightarrow> string list" where
  "grace_quarantine_lines posture_by_project qs =
     (if qs = [] then [''Would quarantine after grace ends: No projects would be quarantined.'']
      else (''Would quarantine after grace ends ('' @ show_nat (length qs) @ '' projects):'')
        # map (\<lambda>(name, d). ''  - '' @ pad_right (name_width qs) name @ ''  '' @ format_finding_summary d
                 @ '' -- posture: '' @ at_key posture_by_project ''balanced'' name) qs)"

definition grace_risk_lines :: "(string \<times> finding_disposition) list \<Rightarrow> string list" where
  "grace_risk_lines rs =
     (if rs = [] then []
      else ((''At-risk-running (dangerously_disable_quarantine='' @ show_nat (length rs) @ '' projects):'')
        # map (\<lambda>(name, d). ''  - '' @ pad_right (name_width rs) name @ ''  '' @ format_finding_summary d) rs)
        @ [[]])"

definition format_grace_heads_up_alert :: "datetime \<Rightarrow> datetime \<Rightarrow> (string \<times> project_decision) list
    \<Rightarrow> (string \<times> string) list \<Rightarrow> (string \<times> bool) list \<Rightarrow> alert" where
  "format_grace_heads_up_alert now expires_at decisions posture_by_project dangerously =
     (let b = bucket_projects decisions dangerously in
      make_alert K_grace_heads_up
        (''CVE policy enforcement begins in '' @ show_int (hours_remaining expires_at now) @ ''h'')
        ([''boxmunge v0.6.0 introduces CVE policy. After a 24-hour grace window, projects'',
          ''with unpatched high-severity CVEs will be quarantined automatically.'', [],
          ''First scan results across '' @ show_nat (length decisions) @ '' projects:'', []]
         @ grace_quarantine_lines posture_by_project (gb_would_quarantine b) @ [[]]
         @ grace_risk_lines (gb_at_risk b)
         @ [''Other projects ('' @ show_nat (length (gb_other b)) @ ''): clean or sub-threshold findings only.'', [],
            ''Configure per-project posture in manifest.yml:'', ''  security:'',
            ''    posture: relaxed | balanced (default) | strict | paranoid'', [],
            ''Suppress a specific CVE (with operator review):'',
            ''  boxmunge security suppress <CVE> --project <name> '' @ [CHR 0x5C],
            ''      --until <date> --reason <text>'', [],
            ''Enforcement begins: '' @ utc_display expires_at @ '' UTC'']) 1)"

end
