(* ===== verification/Cve_Alerting.thy ===== *)
theory Cve_Alerting
  imports Cve_Alert_Texts Cve_Policy_Laws Cve_Scan_State "HOL-Library.Sublist"
begin

text \<open>
  \<^verbatim>\<open>src/boxmunge/cve/alerting.py\<close>: the alerts one project's scan causes, computed from the
  decisions of the previous scan and of this one.  Delivery
  (\<^verbatim>\<open>boxmunge.notify\<close>) is a parameter that answers whether it delivered.
\<close>

section \<open>Findings by key\<close>

type_synonym finding_key = "string \<times> string"

definition disposition_rank :: "disposition \<Rightarrow> nat" where
  "disposition_rank d = (case d of
     Quarantine \<Rightarrow> 4 | Still_Running_At_Risk \<Rightarrow> 3 | Informational \<Rightarrow> 2 | Suppressed \<Rightarrow> 1
   | Ignored_Fixed \<Rightarrow> 0)"

definition finding_key_of :: "finding_disposition \<Rightarrow> finding_key" where
  "finding_key_of d = (cve_id (fd_finding d), package (fd_finding d))"

definition make_hit :: "string \<Rightarrow> finding_disposition \<Rightarrow> hit" where
  "make_hit ref d = \<lparr> hit_disposition = d, hit_image_ref = ref \<rparr>"

text \<open>The pairs the two nested loops visit, in order.\<close>

definition project_hits :: "project_decision list \<Rightarrow> hit list" where
  "project_hits ps = concat (map (\<lambda>p. map (make_hit (pd_image_ref p)) (pd_findings p)) ps)"

abbreviation hit_key :: "hit \<Rightarrow> finding_key" where
  "hit_key h \<equiv> finding_key_of (hit_disposition h)"

abbreviation hit_verdict :: "hit \<Rightarrow> disposition" where
  "hit_verdict h \<equiv> disposition (hit_disposition h)"

definition keep_worst :: "(finding_key \<times> hit) list \<Rightarrow> hit \<Rightarrow> (finding_key \<times> hit) list" where
  "keep_worst out h = (case map_of out (hit_key h) of
     None \<Rightarrow> dset out (hit_key h) h
   | Some held \<Rightarrow>
       if disposition_rank (hit_verdict held) < disposition_rank (hit_verdict h)
       then dset out (hit_key h) h else out)"

definition findings_by_key :: "project_decision list \<Rightarrow> (finding_key \<times> hit) list" where
  "findings_by_key decisions = foldl keep_worst [] (project_hits decisions)"

definition hardening_upcoming_by_key :: "project_decision list \<Rightarrow> (finding_key \<times> hit) list" where
  "hardening_upcoming_by_key decisions =
     foldl (\<lambda>out h. dset out (hit_key h) h) []
       (filter (\<lambda>h. hardening_would_quarantine (hit_disposition h)) (project_hits decisions))"

text \<open>The latest \<open>scanned_at\<close>; comparing an aware value with a naive one raises.\<close>

definition later_of :: "datetime \<Rightarrow> datetime \<Rightarrow> py_exc + datetime" where
  "later_of a b = (if (dt_offset a = None) \<noteq> (dt_offset b = None) then Inl TypeError
     else Inr (if instant a < instant b then b else a))"

definition scan_date :: "project_decision list \<Rightarrow> py_exc + date option" where
  "scan_date decisions = (case map pd_scanned_at decisions of
     [] \<Rightarrow> Inr None
   | t # ts \<Rightarrow> rbind (rfold later_of t ts) (\<lambda>m. Inr (Some (dt_date m))))"

section \<open>Transitions\<close>

record transitions =
  tr_alerts :: "alert list"
  tr_host_expired :: "suppression list"

datatype bucket = B_kev_fix_pending | B_kev_at_risk | B_fixable | B_at_risk | B_info

definition bucket_of :: "hit option \<Rightarrow> finding_disposition \<Rightarrow> bucket option" where
  "bucket_of old d =
     (let disp = disposition d;
          changed = (case old of None \<Rightarrow> True | Some o' \<Rightarrow> hit_verdict o' \<noteq> disp);
          old_fix = (case old of None \<Rightarrow> False | Some o' \<Rightarrow> fix_would_quarantine (hit_disposition o'))
      in if disp = Ignored_Fixed \<and> kev_listed d then Some B_kev_fix_pending
         else if disp = Still_Running_At_Risk \<and> kev_listed d then Some B_kev_at_risk
         else if disp = Ignored_Fixed \<and> fix_would_quarantine d \<and> (changed \<or> \<not> old_fix) then Some B_fixable
         else if disp = Still_Running_At_Risk \<and> changed then Some B_at_risk
         else if (disp = Informational \<or> disp = Ignored_Fixed) \<and> old = None
                 \<and> \<not> hardening_would_quarantine d then Some B_info
         else None)"

definition hits_in :: "bucket \<Rightarrow> (finding_key \<times> hit) list \<Rightarrow> (finding_key \<times> hit) list \<Rightarrow> hit list" where
  "hits_in b before now =
     map snd (filter (\<lambda>(k, h). bucket_of (map_of before k) (hit_disposition h) = Some b) now)"

definition newly_upcoming :: "project_decision list \<Rightarrow> project_decision list \<Rightarrow> hit list" where
  "newly_upcoming prior current =
     map snd (filter (\<lambda>(k, h). map_of (hardening_upcoming_by_key prior) k = None)
       (hardening_upcoming_by_key current))"

definition expired_between :: "date option \<Rightarrow> date option \<Rightarrow> suppression list \<Rightarrow> suppression list" where
  "expired_between prior_date current_date sups = (case (prior_date, current_date) of
     (Some p, Some c) \<Rightarrow> filter (\<lambda>s. is_active p s \<and> \<not> is_active c s) sups
   | _ \<Rightarrow> [])"

text \<open>\<open>if hits: alerts.append(format(hits))\<close>.\<close>

definition alert_if :: "'a list \<Rightarrow> ('a list \<Rightarrow> py_exc + alert) \<Rightarrow> alert list \<Rightarrow> py_exc + alert list" where
  "alert_if xs format alerts =
     (if xs = [] then Inr alerts else rbind (format xs) (\<lambda>a. Inr (alerts @ [a])))"

definition detect_transitions :: "string \<Rightarrow> project_decision list \<Rightarrow> project_decision list
    \<Rightarrow> suppression list \<Rightarrow> py_exc + transitions" where
  "detect_transitions project current prior sups =
     (let before = findings_by_key prior; now = findings_by_key current in
      rbind (scan_date prior) (\<lambda>prior_date.
      rbind (scan_date current) (\<lambda>current_date.
      let expired = expired_between prior_date current_date sups;
          host_expired = filter (\<lambda>s. scope s = scope_host) expired;
          project_expired = filter (\<lambda>s. scope s \<noteq> scope_host) expired in
      rbind (alert_if (hits_in B_kev_at_risk before now) (format_kev_at_risk_alert project) []) (\<lambda>a1.
      rbind (alert_if (hits_in B_kev_fix_pending before now) (format_kev_fix_pending_alert project) a1) (\<lambda>a2.
      rbind (alert_if (hits_in B_at_risk before now) (format_still_running_alert project) a2) (\<lambda>a3.
      rbind (alert_if project_expired (format_suppression_expired_alert project) a3) (\<lambda>a4.
      rbind (alert_if (hits_in B_fixable before now) (format_fixable_alert project) a4) (\<lambda>a5.
      rbind (alert_if (newly_upcoming prior current) (format_hardening_upcoming_alert project) a5) (\<lambda>a6.
      rbind (alert_if (hits_in B_info before now) (format_new_findings_alert project) a6) (\<lambda>a7.
      Inr \<lparr> tr_alerts = a7, tr_host_expired = host_expired \<rparr>))))))))))"

section \<open>Delivery\<close>

definition send_alerts :: "(alert \<Rightarrow> bool) \<Rightarrow> alert list \<Rightarrow> nat" where
  "send_alerts notify alerts = length (filter notify alerts)"

definition emit_scan_alerts :: "(alert \<Rightarrow> bool) \<Rightarrow> string \<Rightarrow> project_decision list \<Rightarrow> project_decision list
    \<Rightarrow> suppression list \<Rightarrow> py_exc + nat \<times> suppression list" where
  "emit_scan_alerts notify project current prior sups =
     rbind (detect_transitions project current prior sups) (\<lambda>t.
       Inr (send_alerts notify (tr_alerts t), tr_host_expired t))"

section \<open>What the table by key holds\<close>

lemma py_first_ok: "xs \<noteq> [] \<Longrightarrow> py_first xs = Inr (hd xs)"
  by (cases xs) auto

lemma ordered_ne [simp]: "ordered_hits hs = [] \<longleftrightarrow> hs = []"
  by (metis ordered_hits_def length_0_conv length_sort)

lemma keep_worst_distinct: "distinct (map fst out) \<Longrightarrow> distinct (map fst (keep_worst out h))"
  by (simp add: keep_worst_def split: option.splits)

lemma foldl_keeps: "P s \<Longrightarrow> (\<And>s x. P s \<Longrightarrow> P (f s x)) \<Longrightarrow> P (foldl f s xs)"
  by (induction xs arbitrary: s) auto

lemma by_key_distinct:
  "distinct (map fst (findings_by_key ps))"
  "distinct (map fst (hardening_upcoming_by_key ps))"
  unfolding findings_by_key_def hardening_upcoming_by_key_def
  by (rule foldl_keeps; simp add: keep_worst_distinct)+

fun worse :: "hit option \<Rightarrow> hit \<Rightarrow> hit option" where
  "worse None h = Some h"
| "worse (Some g) h = Some (if disposition_rank (hit_verdict g) < disposition_rank (hit_verdict h) then h else g)"

lemma keep_worst_get:
  "map_of (foldl keep_worst out hs) k = foldl worse (map_of out k) (filter (\<lambda>h. hit_key h = k) hs)"
proof (induction hs arbitrary: out)
  case (Cons h hs)
  have "map_of (keep_worst out h) k = (if hit_key h = k then worse (map_of out k) h else map_of out k)"
    by (auto simp: keep_worst_def split: option.split)
  then show ?case by (simp add: Cons.IH)
qed simp

lemma findings_get:
  "map_of (findings_by_key ps) k = foldl worse None (filter (\<lambda>h. hit_key h = k) (project_hits ps))"
  by (simp add: findings_by_key_def keep_worst_get)

lemma worse_ex: "\<exists>g. foldl worse (Some h) hs = Some g \<and> g \<in> insert h (set hs)"
proof (induction hs arbitrary: h)
  case (Cons a hs)
  show ?case
    using Cons.IH [of h] Cons.IH [of a] by auto
qed simp

lemma findings_get_None:
  "map_of (findings_by_key ps) k = None \<longleftrightarrow> (\<forall>h\<in>set (project_hits ps). hit_key h \<noteq> k)"
proof (cases "filter (\<lambda>h. hit_key h = k) (project_hits ps)")
  case Nil
  then show ?thesis by (auto simp: findings_get filter_empty_conv)
next
  case (Cons h hs)
  then have "h \<in> set (project_hits ps)" "hit_key h = k" by (auto simp: filter_eq_Cons_iff)
  moreover have "foldl worse (Some h) hs \<noteq> None" using worse_ex [of h hs] by auto
  ultimately show ?thesis by (auto simp: findings_get Cons)
qed

lemma findings_get_Some:
  "map_of (findings_by_key ps) k = Some g \<Longrightarrow> g \<in> set (project_hits ps) \<and> hit_key g = k"
proof (cases "filter (\<lambda>h. hit_key h = k) (project_hits ps)")
  case (Cons h hs)
  assume "map_of (findings_by_key ps) k = Some g"
  then have "g \<in> insert h (set hs)" using worse_ex [of h hs] by (auto simp: findings_get Cons)
  also have "insert h (set hs) = set (filter (\<lambda>h. hit_key h = k) (project_hits ps))" by (simp add: Cons)
  finally show ?thesis by simp
qed (simp add: findings_get)

lemma upcoming_get_None:
  "map_of (hardening_upcoming_by_key ps) k = None \<longleftrightarrow>
   (\<forall>h\<in>set (project_hits ps). hit_key h = k \<longrightarrow> \<not> hardening_would_quarantine (hit_disposition h))"
proof -
  have keys: "fst ` set (foldl (\<lambda>out h. dset out (hit_key h) h) out hs) = fst ` set out \<union> hit_key ` set hs"
    for out :: "(finding_key \<times> hit) list" and hs
    by (induction hs arbitrary: out) auto
  show ?thesis
    by (auto simp: map_of_eq_None_iff hardening_upcoming_by_key_def keys)
qed

section \<open>Which alerts come out\<close>

definition alert_tag :: "alert \<Rightarrow> alert_kind \<times> nat" where
  "alert_tag a = (al_kind a, al_priority a)"

lemma format_hits_tag:
  "hs \<noteq> [] \<Longrightarrow> (\<And>xs d. alert_tag (build xs d) = tag) \<Longrightarrow> \<exists>a. format_hits hs build = Inr a \<and> alert_tag a = tag"
  by (simp add: format_hits_def py_first_ok Let_def)

lemma make_alert_tag [simp]: "alert_tag (make_alert k t ls p) = (k, p)"
  by (simp add: alert_tag_def make_alert_def)

lemma format_tags:
  "hs \<noteq> [] \<Longrightarrow> \<exists>a. format_kev_at_risk_alert project hs = Inr a \<and> alert_tag a = (K_kev_at_risk, 1)"
  "hs \<noteq> [] \<Longrightarrow> \<exists>a. format_kev_fix_pending_alert project hs = Inr a \<and> alert_tag a = (K_kev_fix_pending, 1)"
  "hs \<noteq> [] \<Longrightarrow> \<exists>a. format_still_running_alert project hs = Inr a \<and> alert_tag a = (K_still_running, 1)"
  "hs \<noteq> [] \<Longrightarrow> \<exists>a. format_hardening_upcoming_alert project hs = Inr a \<and> alert_tag a = (K_hardening_upcoming, 0)"
  unfolding format_kev_at_risk_alert_def format_kev_fix_pending_alert_def format_still_running_alert_def
    format_hardening_upcoming_alert_def
  by (rule format_hits_tag; simp add: Let_def)+

lemma format_tags_total:
  "\<exists>a. format_fixable_alert project hs = Inr a \<and> alert_tag a = (K_fix_available, 0)"
  "\<exists>a. format_new_findings_alert project hs = Inr a \<and> alert_tag a = (K_informational, 0)"
  by (simp_all add: format_fixable_alert_def format_new_findings_alert_def Let_def)

lemma format_expired_tag:
  "sups \<noteq> [] \<Longrightarrow> \<exists>a. format_suppression_expired_alert project sups = Inr a
     \<and> alert_tag a = (K_suppression_expired, 1)"
proof -
  assume "sups \<noteq> []"
  then have "sort_key sup_cve sups \<noteq> []" by (metis length_0_conv length_sort)
  then show ?thesis by (simp add: format_suppression_expired_alert_def Let_def py_first_ok)
qed

definition tag_if :: "'a list \<Rightarrow> alert_kind \<Rightarrow> nat \<Rightarrow> (alert_kind \<times> nat) list" where
  "tag_if xs k p = (if xs = [] then [] else [(k, p)])"

definition expected_tags :: "project_decision list \<Rightarrow> project_decision list \<Rightarrow> suppression list
    \<Rightarrow> (alert_kind \<times> nat) list" where
  "expected_tags prior current expired = (let before = findings_by_key prior; now = findings_by_key current in
     tag_if (hits_in B_kev_at_risk before now) K_kev_at_risk 1
     @ tag_if (hits_in B_kev_fix_pending before now) K_kev_fix_pending 1
     @ tag_if (hits_in B_at_risk before now) K_still_running 1
     @ tag_if expired K_suppression_expired 1
     @ tag_if (hits_in B_fixable before now) K_fix_available 0
     @ tag_if (newly_upcoming prior current) K_hardening_upcoming 0
     @ tag_if (hits_in B_info before now) K_informational 0)"

lemma alert_if_tags:
  assumes "xs \<noteq> [] \<Longrightarrow> \<exists>a. format xs = Inr a \<and> alert_tag a = (k, p)"
  shows "\<exists>bs. alert_if xs format alerts = Inr bs \<and> map alert_tag bs = map alert_tag alerts @ tag_if xs k p"
  using assms by (auto simp: alert_if_def tag_if_def)

lemma alert_steps:
  "\<exists>bs. alert_if hs (format_kev_at_risk_alert project) as = Inr bs
     \<and> map alert_tag bs = map alert_tag as @ tag_if hs K_kev_at_risk 1"
  "\<exists>bs. alert_if hs (format_kev_fix_pending_alert project) as = Inr bs
     \<and> map alert_tag bs = map alert_tag as @ tag_if hs K_kev_fix_pending 1"
  "\<exists>bs. alert_if hs (format_still_running_alert project) as = Inr bs
     \<and> map alert_tag bs = map alert_tag as @ tag_if hs K_still_running 1"
  "\<exists>bs. alert_if hs (format_fixable_alert project) as = Inr bs
     \<and> map alert_tag bs = map alert_tag as @ tag_if hs K_fix_available 0"
  "\<exists>bs. alert_if hs (format_hardening_upcoming_alert project) as = Inr bs
     \<and> map alert_tag bs = map alert_tag as @ tag_if hs K_hardening_upcoming 0"
  "\<exists>bs. alert_if hs (format_new_findings_alert project) as = Inr bs
     \<and> map alert_tag bs = map alert_tag as @ tag_if hs K_informational 0"
  "\<exists>bs. alert_if sups (format_suppression_expired_alert project) as = Inr bs
     \<and> map alert_tag bs = map alert_tag as @ tag_if sups K_suppression_expired 1"
  by (rule alert_if_tags; (erule format_tags | rule format_tags_total | erule format_expired_tag))+

lemma detect_tags:
  assumes "scan_date prior = Inr pd" "scan_date current = Inr cd"
  shows "\<exists>t. detect_transitions project current prior sups = Inr t
    \<and> tr_host_expired t = filter (\<lambda>s. scope s = scope_host) (expired_between pd cd sups)
    \<and> map alert_tag (tr_alerts t) = expected_tags prior current
        (filter (\<lambda>s. scope s \<noteq> scope_host) (expired_between pd cd sups))"
proof -
  let ?h = "\<lambda>b. hits_in b (findings_by_key prior) (findings_by_key current)"
  let ?x = "filter (\<lambda>s. scope s \<noteq> scope_host) (expired_between pd cd sups)"
  obtain a1 where a1: "alert_if (?h B_kev_at_risk) (format_kev_at_risk_alert project) [] = Inr a1"
    "map alert_tag a1 = map alert_tag [] @ tag_if (?h B_kev_at_risk) K_kev_at_risk 1"
    using alert_steps(1) by blast
  obtain a2 where a2: "alert_if (?h B_kev_fix_pending) (format_kev_fix_pending_alert project) a1 = Inr a2"
    "map alert_tag a2 = map alert_tag a1 @ tag_if (?h B_kev_fix_pending) K_kev_fix_pending 1"
    using alert_steps(2) by blast
  obtain a3 where a3: "alert_if (?h B_at_risk) (format_still_running_alert project) a2 = Inr a3"
    "map alert_tag a3 = map alert_tag a2 @ tag_if (?h B_at_risk) K_still_running 1"
    using alert_steps(3) by blast
  obtain a4 where a4: "alert_if ?x (format_suppression_expired_alert project) a3 = Inr a4"
    "map alert_tag a4 = map alert_tag a3 @ tag_if ?x K_suppression_expired 1"
    using alert_steps(7) by blast
  obtain a5 where a5: "alert_if (?h B_fixable) (format_fixable_alert project) a4 = Inr a5"
    "map alert_tag a5 = map alert_tag a4 @ tag_if (?h B_fixable) K_fix_available 0"
    using alert_steps(4) by blast
  obtain a6 where a6: "alert_if (newly_upcoming prior current) (format_hardening_upcoming_alert project) a5 = Inr a6"
    "map alert_tag a6 = map alert_tag a5 @ tag_if (newly_upcoming prior current) K_hardening_upcoming 0"
    using alert_steps(5) by blast
  obtain a7 where a7: "alert_if (?h B_info) (format_new_findings_alert project) a6 = Inr a7"
    "map alert_tag a7 = map alert_tag a6 @ tag_if (?h B_info) K_informational 0"
    using alert_steps(6) by blast
  have "detect_transitions project current prior sups = Inr \<lparr> tr_alerts = a7,
      tr_host_expired = filter (\<lambda>s. scope s = scope_host) (expired_between pd cd sups) \<rparr>"
    by (simp add: detect_transitions_def Let_def assms a1(1) a2(1) a3(1) a4(1) a5(1) a6(1) a7(1))
  then show ?thesis
    by (simp add: a1(2) a2(2) a3(2) a4(2) a5(2) a6(2) a7(2) expected_tags_def Let_def)
qed

text \<open>Scans are dated by aware values, and then nothing raises.\<close>

definition all_aware :: "project_decision list \<Rightarrow> bool" where
  "all_aware ps \<longleftrightarrow> list_all (\<lambda>p. dt_offset (pd_scanned_at p) \<noteq> None) ps"

lemma scan_date_aware:
  assumes "all_aware ps"
  shows "\<exists>d. scan_date ps = Inr d \<and> (d = None \<longleftrightarrow> ps = [])"
proof -
  have "\<exists>m. rfold later_of t ts = Inr m"
    if "dt_offset t \<noteq> None" "list_all (\<lambda>u. dt_offset u \<noteq> None) ts" for t ts
    using that by (induction ts arbitrary: t) (auto simp: later_of_def)
  note fold = this
  show ?thesis
  proof (cases ps)
    case (Cons p qs)
    then obtain m where "rfold later_of (pd_scanned_at p) (map pd_scanned_at qs) = Inr m"
      using assms fold [of "pd_scanned_at p" "map pd_scanned_at qs"]
      by (auto simp: all_aware_def list.pred_map comp_def)
    with Cons show ?thesis by (simp add: scan_date_def)
  qed (simp add: scan_date_def)
qed

lemma detect_Inr_dates:
  assumes "detect_transitions project current prior sups = Inr t"
  obtains pd cd where "scan_date prior = Inr pd" "scan_date current = Inr cd"
  using assms by (auto simp: detect_transitions_def Let_def rbind_eq_Inr)

end
