(* ===== verification/Cve_Alerting_Laws.thy ===== *)
theory Cve_Alerting_Laws
  imports Cve_Alerting
begin

text \<open>
  What the alerts of \<open>Cve_Alerting\<close> guarantee: an exploited CVE is announced or quarantined by
  every scan, a scan that found what the one before it found announces nothing else, and
  each kind of alert comes at most once and in the documented order.
\<close>

section \<open>Judged projects\<close>

definition judged_scans :: "string \<Rightarrow> judging \<Rightarrow> hardening_profile \<Rightarrow> upcoming_hardening option
    \<Rightarrow> scan_result list \<Rightarrow> project_decision list" where
  "judged_scans project j profile upcoming scans =
     map (\<lambda>sc. evaluate_project project sc j profile upcoming) scans"

lemma flag_upcoming_kev [simp]: "kev_listed (flag_upcoming d e u) = kev_listed d"
  by (simp add: flag_upcoming_def)

lemma kev_of_evaluated:
  "j_kev_lookup j (cve_id f) \<Longrightarrow> kev_listed (evaluate_finding f j)"
  by (subst evaluate_finding.simps) (auto simp: kev_disposition_def Let_def split: prod.splits)

lemma evaluated_finding [simp]: "fd_finding (evaluate_finding f j) = f"
  using map_judge_all(2) [of j None "[f]"] by (simp add: judge_all_def)

text \<open>
  The decisions of several images, each judged on its own (the runtimes differ from image
  to image), with one KEV lookup and one opt-out.
\<close>

definition judged_with :: "string \<Rightarrow> hardening_profile \<Rightarrow> upcoming_hardening option \<Rightarrow> (string \<Rightarrow> bool) \<Rightarrow> bool
    \<Rightarrow> scan_result list \<Rightarrow> project_decision list \<Rightarrow> bool" where
  "judged_with project profile upcoming kev opted_out =
     list_all2 (\<lambda>sc p. \<exists>j. p = evaluate_project project sc j profile upcoming \<and> j_kev_lookup j = kev \<and> j_disable_quarantine j = opted_out)"

lemma judged_hits:
  assumes "judged_with project profile upcoming kev opted_out scans current" "h \<in> set (project_hits current)"
  shows "\<exists>j. j_kev_lookup j = kev \<and> j_disable_quarantine j = opted_out
      \<and> hit_verdict h = disposition (evaluate_finding (fd_finding (hit_disposition h)) j)"
    and "kev (cve_id (fd_finding (hit_disposition h))) \<Longrightarrow> kev_listed (hit_disposition h)"
    and "hit_verdict h = Quarantine \<Longrightarrow> \<exists>p\<in>set current. quarantine_required p"
proof -
  obtain p where p: "p \<in> set current" and hp: "hit_disposition h \<in> set (pd_findings p)"
    using assms(2) by (auto simp: project_hits_def make_hit_def)
  obtain sc j where j: "p = evaluate_project project sc j profile upcoming" "j_kev_lookup j = kev" "j_disable_quarantine j = opted_out"
    using assms(1) p unfolding judged_with_def list_all2_conv_all_nth in_set_conv_nth by metis
  let ?j = "j\<lparr>j_penalty := calculate_hardening_penalty profile\<rparr>"
  have d: "hit_disposition h \<in> set (judge_all ?j upcoming (findings sc))"
    using hp by (simp add: j(1) evaluate_project_def Let_def)
  have "hit_verdict h = disposition (evaluate_finding (fd_finding (hit_disposition h)) ?j)"
    using set_judge_all_disposition [OF d] by simp
  then show "\<exists>j. j_kev_lookup j = kev \<and> j_disable_quarantine j = opted_out
      \<and> hit_verdict h = disposition (evaluate_finding (fd_finding (hit_disposition h)) j)"
    using j(2,3) by (intro exI [of _ ?j]) simp
  have k: "j_kev_lookup ?j = kev" using j(2) by simp
  show "kev (cve_id (fd_finding (hit_disposition h))) \<Longrightarrow> kev_listed (hit_disposition h)"
    using d kev_of_evaluated [of ?j] by (auto simp: judge_all_def Let_def k split: option.splits)
  show "\<exists>p\<in>set current. quarantine_required p" if "hit_verdict h = Quarantine"
  proof -
    have "quarantine_required p" using d that by (auto simp: j(1) evaluate_project_def Let_def list_ex_iff)
    then show ?thesis using p by blast
  qed
qed

lemma judged_finding_hit:
  assumes "judged_with project profile upcoming kev opted_out scans current" "sc \<in> set scans" "f \<in> set (findings sc)"
  shows "\<exists>h\<in>set (project_hits current). hit_key h = (cve_id f, package f)"
proof -
  obtain p j where p: "p \<in> set current" "p = evaluate_project project sc j profile upcoming"
    using assms(1,2) unfolding judged_with_def list_all2_conv_all_nth in_set_conv_nth by metis
  let ?j = "j\<lparr>j_penalty := calculate_hardening_penalty profile\<rparr>"
  have "f \<in> fd_finding ` set (judge_all ?j upcoming (findings sc))"
    using assms(3) map_judge_all(2) [of ?j upcoming "findings sc"] by (metis list.set_map)
  then have "f \<in> fd_finding ` set (pd_findings p)" by (simp add: p(2) evaluate_project_def Let_def)
  then obtain d where d: "d \<in> set (pd_findings p)" "fd_finding d = f" by blast
  then show ?thesis using p(1) by (force simp: project_hits_def make_hit_def finding_key_of_def)
qed

lemma in_hits_in:
  assumes "map_of (findings_by_key current) k = Some g"
    and "bucket_of (map_of (findings_by_key prior) k) (hit_disposition g) = Some b"
  shows "hits_in b (findings_by_key prior) (findings_by_key current) \<noteq> []"
  using map_of_SomeD [OF assms(1)] assms(2) by (auto simp: hits_in_def filter_empty_conv)

lemma tagged_alert:
  assumes "map alert_tag (tr_alerts t) = tags" "(k, p) \<in> set tags"
  shows "\<exists>a\<in>set (tr_alerts t). al_kind a = k \<and> al_priority a = p"
  using assms by (force simp: alert_tag_def)

lemma expected_kinds:
  "(K_kev_at_risk, 1) \<in> set (expected_tags prior current xs) \<longleftrightarrow>
     hits_in B_kev_at_risk (findings_by_key prior) (findings_by_key current) \<noteq> []"
  "(K_kev_fix_pending, 1) \<in> set (expected_tags prior current xs) \<longleftrightarrow>
     hits_in B_kev_fix_pending (findings_by_key prior) (findings_by_key current) \<noteq> []"
  by (auto simp: expected_tags_def tag_if_def Let_def)

lemma detected_tags:
  assumes "detect_transitions project current prior sups = Inr t"
  shows "\<exists>pd cd. scan_date prior = Inr pd \<and> scan_date current = Inr cd
    \<and> tr_host_expired t = filter (\<lambda>s. scope s = scope_host) (expired_between pd cd sups)
    \<and> map alert_tag (tr_alerts t) = expected_tags prior current
        (filter (\<lambda>s. scope s \<noteq> scope_host) (expired_between pd cd sups))"
proof -
  obtain pd cd where "scan_date prior = Inr pd" "scan_date current = Inr cd"
    using detect_Inr_dates [OF assms] by metis
  with detect_tags [OF this, of project sups] assms show ?thesis by auto
qed

text \<open>An exploited CVE that a scan finds is announced, or quarantines the project.\<close>

lemma kev_announced:
  assumes judged: "judged_with project profile upcoming kev opted_out scans current"
    and f: "sc \<in> set scans" "f \<in> set (findings sc)" "kev (cve_id f)"
    and t: "detect_transitions project current prior sups = Inr t"
  shows "if opted_out
    then \<exists>a\<in>set (tr_alerts t). al_kind a = K_kev_at_risk \<and> al_priority a = 1
    else (\<exists>p\<in>set current. quarantine_required p)
       \<or> (\<exists>a\<in>set (tr_alerts t). al_kind a = K_kev_fix_pending \<and> al_priority a = 1)"
proof -
  let ?k = "(cve_id f, package f)"
  obtain h where "h \<in> set (project_hits current)" "hit_key h = ?k"
    using judged_finding_hit [OF judged f(1,2)] by metis
  then obtain g where g: "map_of (findings_by_key current) ?k = Some g"
    using findings_get_None [of current ?k] by fastforce
  then have m: "g \<in> set (project_hits current)" and k: "hit_key g = ?k"
    using findings_get_Some by blast+
  have kev: "kev (cve_id (fd_finding (hit_disposition g)))"
    using k f(3) by (simp add: finding_key_of_def)
  obtain j where j: "j_kev_lookup j = kev" "j_disable_quarantine j = opted_out"
    "hit_verdict g = disposition (evaluate_finding (fd_finding (hit_disposition g)) j)"
    using judged_hits(1) [OF judged m] by blast
  note facts = j(3) judged_hits(2) [OF judged m kev] judged_hits(3) [OF judged m]
  obtain xs where tags: "map alert_tag (tr_alerts t) = expected_tags prior current xs"
    using detected_tags [OF t] by blast
  show ?thesis
  proof (cases opted_out)
    case True
    then have "bucket_of old (hit_disposition g) = Some B_kev_at_risk" for old
      using facts kev j(1,2) by (simp add: bucket_of_def Let_def disposition_cases)
    from in_hits_in [OF g this [of "map_of (findings_by_key prior) ?k"]]
    have "(K_kev_at_risk, 1) \<in> set (expected_tags prior current xs)" using expected_kinds by blast
    from tagged_alert [OF tags this] True show ?thesis by simp
  next
    case False
    have pending: "bucket_of old (hit_disposition g) = Some B_kev_fix_pending"
      if "hit_verdict g \<noteq> Quarantine" for old
      using that facts(1,2) kev False j(1,2) by (simp add: bucket_of_def Let_def disposition_cases split: if_splits)
    show ?thesis
    proof (cases "hit_verdict g = Quarantine")
      case True
      with facts(3) False show ?thesis by simp
    next
      case F: False
      from in_hits_in [OF g pending [OF F, of "map_of (findings_by_key prior) ?k"]]
      have "(K_kev_fix_pending, 1) \<in> set (expected_tags prior current xs)" using expected_kinds by blast
      from tagged_alert [OF tags this] False show ?thesis by simp
    qed
  qed
qed

definition example_scan :: "finding list \<Rightarrow> scan_result" where
  "example_scan fs = \<lparr> image_ref = ''shop-web:1'', findings = fs, scanned_at = noon,
     db_version = None, lang_types = {} \<rparr>"

lemma example_scan_noon: "list_all (\<lambda>sc. scanned_at sc = noon) [example_scan fs]"
  by (simp add: example_scan_def)

lemma example_detect:
  assumes "list_all (\<lambda>sc. scanned_at sc = noon) scans"
  shows "\<exists>t. detect_transitions project (judged_scans project j profile upcoming scans) [] sups = Inr t"
proof -
  have "all_aware (judged_scans project j profile upcoming scans)"
    using assms by (auto simp: all_aware_def judged_scans_def evaluate_project_def Let_def list_all_iff noon_def)
  then show ?thesis using scan_date_aware [of "[]"] scan_date_aware detect_tags
    by (metis all_aware_def list.pred_inject(1))
qed

text \<open>Each kind of alert is sent at most once per project and scan, in the documented order, with its
  fixed priority, and exactly when something falls under it.\<close>

theorem alerts_once_in_order:
  assumes "detect_transitions project current prior sups = Inr t"
  shows "subseq (map alert_tag (tr_alerts t))
    [(K_kev_at_risk, 1), (K_kev_fix_pending, 1), (K_still_running, 1), (K_suppression_expired, 1),
     (K_fix_available, 0), (K_hardening_upcoming, 0), (K_informational, 0)]"
proof -
  obtain xs where tags: "map alert_tag (tr_alerts t) = expected_tags prior current xs"
    using detected_tags [OF assms] by blast
  show ?thesis
    unfolding tags expected_tags_def Let_def
    by (auto simp: tag_if_def)
qed

theorem alerts_once_in_order_witness:
  "\<exists>t. detect_transitions ''shop'' (judged_scans ''shop'' (example_judging Balanced) hardened None
        [example_scan [example_finding]]) [] [] = Inr t
    \<and> length (tr_alerts t) \<le> 7"
proof -
  let ?cur = "judged_scans ''shop'' (example_judging Balanced) hardened None [example_scan [example_finding]]"
  obtain t where t: "detect_transitions ''shop'' ?cur [] [] = Inr t"
    using example_detect [of "[example_scan [example_finding]]"] by (metis example_scan_noon)
  from list_emb_length [OF alerts_once_in_order [OF t]] t show ?thesis by auto
qed

section \<open>A scan that found the same\<close>








text \<open>Image names and dates aside, the decisions read back from a scan's file look like the scan's.\<close>

lemma project_hits_simps [simp]:
  "project_hits [] = []"
  "project_hits (p # ps) = map (make_hit (pd_image_ref p)) (pd_findings p) @ project_hits ps"
  by (simp_all add: project_hits_def)





section \<open>Expiry\<close>

text \<open>An exemption's expiry is announced exactly once: by the scan between whose date and the one
  before it the exemption ran out, with the project if it is the project's and with the
  fleet if it is the host's, and never by a project's first scan.\<close>

theorem expiry_exact:
  assumes "scan_date prior = Inr pd" "scan_date current = Inr cd"
    and "detect_transitions project current prior sups = Inr t"
  defines "ran_out \<equiv> \<lambda>s. \<exists>p c. pd = Some p \<and> cd = Some c \<and> p < until s \<and> until s \<le> c"
  shows "set (tr_host_expired t) = {s \<in> set sups. scope s = scope_host \<and> ran_out s}
    \<and> ((K_suppression_expired, 1) \<in> alert_tag ` set (tr_alerts t)
        \<longleftrightarrow> (\<exists>s\<in>set sups. scope s \<noteq> scope_host \<and> ran_out s))"
proof -
  have e: "set (expired_between pd cd sups) = {s \<in> set sups. ran_out s}"
    by (auto simp: expired_between_def is_active_def ran_out_def split: option.splits)
  have t: "tr_host_expired t = filter (\<lambda>s. scope s = scope_host) (expired_between pd cd sups)"
    "map alert_tag (tr_alerts t) = expected_tags prior current
        (filter (\<lambda>s. scope s \<noteq> scope_host) (expired_between pd cd sups))"
    using detected_tags [OF assms(3)] assms(1,2) by auto
  have "(K_suppression_expired, 1) \<in> set (expected_tags prior current xs) \<longleftrightarrow> xs \<noteq> []" for xs
    by (auto simp: expected_tags_def Let_def tag_if_def)
  then have "(K_suppression_expired, 1) \<in> alert_tag ` set (tr_alerts t)
      \<longleftrightarrow> filter (\<lambda>s. scope s \<noteq> scope_host) (expired_between pd cd sups) \<noteq> []"
    by (metis t(2) list.set_map)
  with e t(1) show ?thesis by (auto simp: filter_empty_conv)
qed

definition example_exemption :: suppression where
  "example_exemption = \<lparr> sup_cve = ''CVE-2024-0001'', until = Date 2026 7 1, reason = ''reviewed'',
     reviewed_by = ''ops'', added = Date 2026 6 1, scope = ''host'' \<rparr>"

theorem expiry_exact_witness:
  "\<exists>t. detect_transitions ''shop'' [example_decision]
      [example_decision\<lparr>pd_scanned_at := scan_night\<lparr>dt_date := Date 2026 6 30\<rparr>\<rparr>] [example_exemption] = Inr t
    \<and> set (tr_host_expired t) = {example_exemption}"
proof -
  let ?p = "[example_decision\<lparr>pd_scanned_at := scan_night\<lparr>dt_date := Date 2026 6 30\<rparr>\<rparr>]"
  have d: "scan_date ?p = Inr (Some (Date 2026 6 30))"
    "scan_date [example_decision] = Inr (Some (Date 2026 7 1))"
    by (simp_all add: scan_date_def example_decision_def scan_night_def)
  from detect_tags [OF d] obtain t
    where t: "detect_transitions ''shop'' [example_decision] ?p [example_exemption] = Inr t"
    by blast
  have "Date 2026 6 30 < until example_exemption" "until example_exemption \<le> Date 2026 7 1"
    "scope example_exemption = scope_host"
    by (simp_all add: example_exemption_def scope_host_def less_date_def less_eq_date_def)
  then have "set (tr_host_expired t) = {example_exemption}"
    using expiry_exact [OF d t] by auto
  with t show ?thesis by blast
qed

section \<open>A fix that is shadowed\<close>

text \<open>
  Two images of a project carry the same CVE in the same package, both with a fix:
  one distribution rates it low, the other high, above the gate of the posture.
  Both are ignored as fixed, with the same rank, so the first image's finding
  stands for the pair, and its flag, not the second's, decides the alert.
\<close>

definition low_fixed :: finding where
  "low_fixed = example_finding\<lparr>fixed_version := Some ''2'', severity := Sev_Low,
     vendor_severities := [(''debian'', Sev_Low)]\<rparr>"

definition high_fixed :: finding where
  "high_fixed = example_finding\<lparr>fixed_version := Some ''2''\<rparr>"

definition shadowed_project :: "project_decision list" where
  "shadowed_project = judged_scans ''shop'' (example_judging Balanced) hardened None
     [example_scan [low_fixed], example_scan [high_fixed]]"

lemma fixed_flag:
  assumes "fix_available f" "\<not> j_kev_lookup j (cve_id f)"
  shows "disposition (evaluate_finding f j) = Ignored_Fixed"
    and "kev_listed (evaluate_finding f j) = False"
    and "fix_would_quarantine (evaluate_finding f j) =
      (disposition (evaluate_finding (f\<lparr>fixed_version := None\<rparr>) j) \<in> {Quarantine, Still_Running_At_Risk})"
    and "hardening_would_quarantine (evaluate_finding f j) = False"
  using assms
  by (subst evaluate_finding.simps, simp add: fixed_disposition_def Let_def split: prod.splits)+

lemma hardened_judging [simp]:
  "example_judging p\<lparr>j_penalty := calculate_hardening_penalty hardened\<rparr> = example_judging p"
  by (simp add: example_judging_def calculate_hardening_penalty_def hardened_def)

lemma shadowed_flags:
  "\<not> fix_would_quarantine (evaluate_finding low_fixed (example_judging Balanced))"
  "fix_would_quarantine (evaluate_finding high_fixed (example_judging Balanced))"
proof -
  have fixed: "fix_available low_fixed" "fix_available high_fixed"
    by (simp_all add: fix_available_def low_fixed_def high_fixed_def)
  have kev: "\<not> j_kev_lookup (example_judging Balanced) c" for c
    by (simp add: example_judging_def kev_never_def)
  have "\<not> meets_gate (low_fixed\<lparr>fixed_version := None\<rparr>) (example_judging Balanced)"
    by (simp add: meets_gate_def low_fixed_def example_finding_def example_judging_def
        deprioritized_status_def distro_severity_def distro_sources_def List.map_filter_def
        less_eq_severity_def)
  then show "\<not> fix_would_quarantine (evaluate_finding low_fixed (example_judging Balanced))"
    using fixed_flag(3) [OF fixed(1) kev] kev by (simp add: disposition_cases fix_available_def)
  have "high_fixed\<lparr>fixed_version := None\<rparr> = example_finding"
    by (simp add: high_fixed_def example_finding_def)
  moreover have "disposition (evaluate_finding example_finding (example_judging Balanced)) = Quarantine"
    using example_gate kev
    by (simp add: disposition_cases example_judging_def fix_available_def exempted_def)
      (simp add: example_finding_def)
  ultimately show "fix_would_quarantine (evaluate_finding high_fixed (example_judging Balanced))"
    using fixed_flag(3) [OF fixed(2) kev] by simp
qed

text \<open>A finding over the quarantine gate whose fix is not running can go unannounced: where another
  image has the same CVE and package below the gate, the first of the two stands for both, and
  the scan sends the digest of new findings and no fixable-finding alert, although one of its
  findings is flagged.\<close>

theorem fixable_alert_shadowed:
  "(\<exists>p\<in>set shadowed_project. \<exists>d\<in>set (pd_findings p). fix_would_quarantine d)
   \<and> (\<exists>t. detect_transitions ''shop'' shadowed_project [] [] = Inr t
        \<and> al_kind ` set (tr_alerts t) = {K_informational})"
proof -
  let ?j = "example_judging Balanced"
  let ?l = "evaluate_finding low_fixed ?j" and ?h = "evaluate_finding high_fixed ?j"
  have p: "map pd_findings shadowed_project = [[?l], [?h]]"
    by (simp add: shadowed_project_def judged_scans_def evaluate_project_def example_scan_def
        judge_all_def Let_def)
  obtain a b where hits: "project_hits shadowed_project = [make_hit a ?l, make_hit b ?h]"
    by (simp add: project_hits_def shadowed_project_def judged_scans_def evaluate_project_def
        example_scan_def judge_all_def Let_def)
  have fixed: "fix_available low_fixed" "fix_available high_fixed"
    by (simp_all add: fix_available_def low_fixed_def high_fixed_def)
  have kev: "\<not> j_kev_lookup ?j c" for c by (simp add: example_judging_def kev_never_def)
  note flags = fixed_flag [OF fixed(1) kev] fixed_flag [OF fixed(2) kev] shadowed_flags
  have key: "finding_key_of ?h = finding_key_of ?l"
    by (simp add: finding_key_of_def low_fixed_def high_fixed_def)
  have now: "findings_by_key shadowed_project = [(finding_key_of ?l, make_hit a ?l)]"
    using key flags(1,5) by (simp add: findings_by_key_def hits keep_worst_def make_hit_def)
  have before: "findings_by_key [] = []" by (simp add: findings_by_key_def)
  have buckets: "hits_in x [] (findings_by_key shadowed_project) = (if x = B_info then [make_hit a ?l] else [])" for x
    using flags(1,2,4,9) by (auto simp: hits_in_def now bucket_of_def Let_def make_hit_def)
  have up: "newly_upcoming [] shadowed_project = []"
    using flags(4,8) by (simp add: newly_upcoming_def hardening_upcoming_by_key_def hits make_hit_def)
  have "all_aware shadowed_project"
    by (simp add: all_aware_def shadowed_project_def judged_scans_def evaluate_project_def
        example_scan_def Let_def noon_def)
  then obtain cd where "scan_date shadowed_project = Inr cd" using scan_date_aware by metis
  moreover have "scan_date [] = Inr None" by (simp add: scan_date_def)
  ultimately obtain t where t: "detect_transitions ''shop'' shadowed_project [] [] = Inr t"
    "map alert_tag (tr_alerts t) = expected_tags [] shadowed_project []"
    using detect_tags [of "[]" None shadowed_project cd "''shop''" "[]"] by (auto simp: expired_between_def)
  have "expected_tags [] shadowed_project [] = [(K_informational, 0)]"
    by (simp add: expected_tags_def Let_def tag_if_def before buckets up)
  with t have "fst ` set (map alert_tag (tr_alerts t)) = {K_informational}" by simp
  then have "al_kind ` set (tr_alerts t) = {K_informational}" by (simp add: alert_tag_def image_image)
  moreover have "\<exists>p\<in>set shadowed_project. \<exists>d\<in>set (pd_findings p). fix_would_quarantine d"
  proof -
    have "[?h] \<in> pd_findings ` set shadowed_project" using arg_cong [OF p, of set] by simp
    then obtain p where "p \<in> set shadowed_project" "[?h] = pd_findings p" by blast
    then show ?thesis using shadowed_flags(2) by (metis list.set_intros(1))
  qed
  ultimately show ?thesis using t(1) by blast
qed

end
