(* ===== verification/Scan_Core.thy ===== *)
theory Scan_Core
  imports Scan_Inputs Cve_Alerting Cve_Kev
begin

text \<open>
  \<^verbatim>\<open>src/boxmunge/commands/security_scan_core.py\<close>, \<^verbatim>\<open>security_scan_relevance.py\<close> and the rest of
  \<^verbatim>\<open>security_enforce.py\<close>: the scan of one project, from its inputs to its record, its
  quarantine and its alerts.  The clock, Trivy, Docker and the disk are given; log
  lines are left out, and a warning is a value instead of its text.
\<close>

section \<open>What a scan learned\<close>

datatype scan_warning =
    W_Unidentified string unidentified_why
  | W_Not_Started string
  | W_Budget nat
  | W_Failed string scanner_error

record project_scan =
  ps_project :: string
  ps_posture :: pyval
  ps_dangerously :: bool
  ps_decisions :: "project_decision list"
  ps_warnings :: "scan_warning list"
  ps_failed_images :: "string list"
  ps_skipped_images :: "string list"
  ps_unidentified :: "(string \<times> unidentified_why) list"
  ps_basis :: string
  ps_stopped_reason :: "string option"
  ps_headline :: "(project_decision \<times> finding_disposition) option"
  ps_host_expired :: "suppression list"
  ps_record_error :: bool

definition unidentified_services :: "project_scan \<Rightarrow> string list" where
  "unidentified_services p = map fst (ps_unidentified p)"

definition scan_complete :: "project_scan \<Rightarrow> bool" where
  "scan_complete p \<longleftrightarrow> ps_failed_images p = [] \<and> ps_skipped_images p = [] \<and> unidentified_services p = []"

text \<open>Why an image cannot be identified, in the source's words.\<close>

definition why_text :: "unidentified_why \<Rightarrow> string" where
  "why_text w = (case w of
     No_Container \<Rightarrow> ''should be running but has no container, so the image it ''
       @ ''runs cannot be identified; redeploy the project so it can be scanned''
   | Not_In_Model \<Rightarrow> ''is in the manifest but not in the resolved compose model, so ''
       @ ''no image would be started for it''
   | Not_In_Store ref \<Rightarrow> ''the image `compose up` would start ('' @ ref @ '') is not in the ''
       @ ''local image store; pull or build it, then scan again''
   | No_Image_Ref \<Rightarrow> ''has no image reference, so the image it would start is unknown''
   | Not_After_Build ref \<Rightarrow> ''its image '' @ ref @ '' is not in the local image ''
       @ ''store after the build and pull'')"

definition unscanned_lines :: "string list \<Rightarrow> string list \<Rightarrow> (string \<times> unidentified_why) list \<Rightarrow> string list" where
  "unscanned_lines failed skipped unidentified =
     map (\<lambda>r. ''image '' @ r @ '': scan failed'') failed
     @ map (\<lambda>r. ''image '' @ r @ '': skipped (scan budget exhausted)'') skipped
     @ map (\<lambda>(svc, w). ''service '' @ quoted svc @ '': '' @ why_text w) unidentified"

definition incomplete_reasons :: "project_scan \<Rightarrow> string list" where
  "incomplete_reasons p = unscanned_lines (ps_failed_images p) (ps_skipped_images p) (ps_unidentified p)"

section \<open>Scanning within the budget\<close>

definition project_budget_seconds :: rat where "project_budget_seconds = 600"
definition default_timeout :: int where "default_timeout = 300"

text \<open>
  The seconds since the start when the turn of the i-th image comes, what Trivy
  does with it, and the time of its result.
\<close>

record trivy_env =
  te_elapsed :: "nat \<Rightarrow> rat"
  te_run :: "nat \<Rightarrow> trivy_run"
  te_now :: "nat \<Rightarrow> datetime"

record scanned =
  sd_results :: "scan_result list"
  sd_failed :: "string list"
  sd_skipped :: "string list"
  sd_warnings :: "scan_warning list"

definition image_timeout :: "rat \<Rightarrow> nat" where
  "image_timeout remaining = nat (min default_timeout (max 1 \<lfloor>remaining\<rfloor>))"

fun scan_from :: "trivy_env \<Rightarrow> nat \<Rightarrow> scan_target list \<Rightarrow> scanned \<Rightarrow> scanner_error raised + scanned" where
  "scan_from env i [] acc = Inr acc"
| "scan_from env i (t # ts) acc =
     (let remaining = project_budget_seconds - te_elapsed env i in
      if remaining \<le> 0 then
        Inr (acc\<lparr>sd_skipped := map st_image_ref (t # ts),
                 sd_warnings := sd_warnings acc @ [W_Budget (length (t # ts))]\<rparr>)
      else case scan_image (te_run env i) (st_image_ref t) (image_timeout remaining) (te_now env i) of
        Inr r \<Rightarrow> scan_from env (Suc i) ts (acc\<lparr>sd_results := sd_results acc @ [r]\<rparr>)
      | Inl (Crash x) \<Rightarrow> Inl (Crash x)
      | Inl (Raised e) \<Rightarrow>
          if e = Trivy_Not_Installed then Inl (Raised e)
          else scan_from env (Suc i) ts (acc\<lparr>sd_failed := sd_failed acc @ [st_image_ref t],
                 sd_warnings := sd_warnings acc @ [W_Failed (st_image_ref t) e]\<rparr>))"

definition scan_targets :: "trivy_env \<Rightarrow> scan_target list \<Rightarrow> scanner_error raised + scanned" where
  "scan_targets env targets =
     scan_from env 0 targets \<lparr> sd_results = [], sd_failed = [], sd_skipped = [], sd_warnings = [] \<rparr>"

section \<open>Deciding\<close>

datatype scan_error =
    Input_Error scan_input_error
  | Invalid_Runtimes
  | Trivy_Missing_Error
  | All_Images_Failed "enforce_error option"
  | Enforcement_Failed enforce_error bool
  | Box_Error box_error

definition from_input :: "'a input \<Rightarrow> scan_error raised + 'a" where
  "from_input r = (case r of Inr x \<Rightarrow> Inr x
     | Inl (Raised e) \<Rightarrow> Inl (Raised (Input_Error e)) | Inl (Crash x) \<Rightarrow> Inl (Crash x))"

definition from_scanner :: "scanner_error raised + 'a \<Rightarrow> scan_error raised + 'a" where
  "from_scanner r = (case r of Inr x \<Rightarrow> Inr x
     | Inl (Raised _) \<Rightarrow> Inl (Raised Trivy_Missing_Error) | Inl (Crash x) \<Rightarrow> Inl (Crash x))"

lemma from_input_Inr [simp]: "from_input r = Inr x \<longleftrightarrow> r = Inr x"
  by (auto simp: from_input_def split: sum.splits raised.splits)

lemma from_scanner_Inr [simp]: "from_scanner r = Inr x \<longleftrightarrow> r = Inr x"
  by (auto simp: from_scanner_def split: sum.splits raised.splits)

text \<open>\<open>except (ValueError, TypeError)\<close> around the check of the declared runtimes.\<close>

definition check_declared_runtimes :: "project_meta \<Rightarrow> scan_error raised + unit" where
  "check_declared_runtimes m = (if pm_declared_runtimes m = PNone then Inr ()
     else case effective_runtimes {} (pm_declared_runtimes m) of
       Inr _ \<Rightarrow> Inr () | Inl _ \<Rightarrow> Inl (Raised Invalid_Runtimes))"

definition judging_of :: "project_meta \<Rightarrow> suppression list \<Rightarrow> date \<Rightarrow> kev_catalog \<Rightarrow> string set \<Rightarrow> judging" where
  "judging_of m supps today kev runtimes =
     \<lparr> j_posture = pm_posture m, j_penalty = 0, j_disable_quarantine = pm_dangerously m,
       j_suppressions = supps, j_today = today,
       j_kev_lookup = (\<lambda>cid. is_known_exploited kev cid today), j_runtimes = Some runtimes \<rparr>"

definition evaluate_image :: "string \<Rightarrow> project_meta \<Rightarrow> project_hardening \<Rightarrow> suppression list \<Rightarrow> date
    \<Rightarrow> kev_catalog \<Rightarrow> scan_result \<Rightarrow> scan_error raised + project_decision" where
  "evaluate_image project m profile supps today kev sr =
     (case effective_runtimes (lang_types sr) (pm_declared_runtimes m) of
        Inr runtimes \<Rightarrow> Inr (evaluate_project project sr (judging_of m supps today kev runtimes)
                             (ph_applied profile) (ph_upcoming profile))
      | Inl (Crash x) \<Rightarrow> Inl (Crash x)
      | Inl (Raised _) \<Rightarrow> Inl (Crash ValueError))"

definition evaluate_results :: "string \<Rightarrow> project_meta \<Rightarrow> project_hardening \<Rightarrow> suppression list \<Rightarrow> date
    \<Rightarrow> kev_catalog \<Rightarrow> scan_result list \<Rightarrow> scan_error raised + project_decision list" where
  "evaluate_results project m profile supps today kev results =
     rmap (evaluate_image project m profile supps today kev) results"

definition headline_of :: "project_decision list \<Rightarrow> (project_decision \<times> finding_disposition) option" where
  "headline_of decisions = List.find (\<lambda>(p, d). disposition d = Quarantine)
     (concat (map (\<lambda>p. map (Pair p) (pd_findings p)) decisions))"

text \<open>\<open>gate_exempted_packages\<close>: the packages the relevance gate alone let go.\<close>

definition gate_exempted_packages :: "project_decision \<Rightarrow> judging \<Rightarrow> string list" where
  "gate_exempted_packages p j =
     map (\<lambda>d. package (fd_finding d))
       (filter (\<lambda>d. let f = fd_finding d in
          disposition d = Informational \<and> pkg_class f = PC_Os \<and> ecosystem_for_package (package f) \<noteq> None
          \<and> disposition (evaluate_finding f (j\<lparr>j_penalty := hardening_penalty d, j_runtimes := None\<rparr>))
              \<noteq> disposition d) (pd_findings p))"

section \<open>The audit\<close>

definition audit_targets :: "string \<Rightarrow> project_meta \<Rightarrow> project_hardening \<Rightarrow> suppression list
    \<Rightarrow> scan_target list \<Rightarrow> (string \<times> unidentified_why) list \<Rightarrow> kev_catalog \<Rightarrow> string
    \<Rightarrow> date \<Rightarrow> trivy_env \<Rightarrow> scan_error raised + project_scan" where
  "audit_targets project m profile supps targets unidentified kev basis today env =
     rbind (check_declared_runtimes m) (\<lambda>_.
     rbind (from_scanner (scan_targets env targets)) (\<lambda>sd.
     rbind (evaluate_results project m profile supps today kev (sd_results sd)) (\<lambda>decisions.
     Inr \<lparr> ps_project = project, ps_posture = pm_posture_str m, ps_dangerously = pm_dangerously m,
           ps_decisions = decisions,
           ps_warnings = map (\<lambda>(s, w). W_Unidentified s w) unidentified @ sd_warnings sd,
           ps_failed_images = sd_failed sd, ps_skipped_images = sd_skipped sd,
           ps_unidentified = unidentified, ps_basis = basis, ps_stopped_reason = None,
           ps_headline = headline_of decisions, ps_host_expired = [], ps_record_error = False \<rparr>)))"

section \<open>The scan of one project\<close>

text \<open>What the scan changes: the box, the record of the scan, and the alerts handed over.\<close>

record scan_world =
  sw_box :: box
  sw_scan_file :: json_file
  sw_alerts :: "alert list"

record scan_inputs =
  si_project :: string
  si_manifest :: "pydict input"
  si_overlay_exists :: bool
  si_user_model :: "pydict option"
  si_project_suppressions :: json_file
  si_host_suppressions :: json_file
  si_health_file :: json_file
  si_deploy_file :: json_file
  si_active_model :: "pydict option"
  si_every_model :: "pydict option"
  si_containers :: "project_container list option"
  si_images :: image_store
  si_trivy :: trivy_env
  si_kev :: kev_catalog
  si_today :: date
  si_now :: datetime
  si_legacy :: legacy_check
  si_can_record :: bool

definition run_box :: "'a act \<Rightarrow> scan_world \<Rightarrow> (scan_error raised + 'a) \<times> scan_world" where
  "run_box m w = (case m (sw_box w) of (r, b) \<Rightarrow>
     ((case r of Inr x \<Rightarrow> Inr x | Inl (Raised e) \<Rightarrow> Inl (Raised (Box_Error e))
       | Inl (Crash x) \<Rightarrow> Inl (Crash x)), w\<lparr>sw_box := b\<rparr>))"

text \<open>\<open>_record\<close>: the file, or the note that it could not be written.\<close>

definition record_scan :: "scan_inputs \<Rightarrow> project_decision list \<Rightarrow> string list \<Rightarrow> image_inventory
    \<Rightarrow> scan_world \<Rightarrow> bool \<times> scan_world" where
  "record_scan si decisions unscanned acc w =
     (case write_scan_state (si_can_record si) decisions (si_now si) unscanned (ii_basis acc)
             (ii_stopped_reason acc) of
        Inl _ \<Rightarrow> (True, w)
      | Inr file \<Rightarrow> (False, w\<lparr>sw_scan_file := file\<rparr>))"

text \<open>Delivery never fails the scan: what is formatted is handed over.\<close>

definition send :: "alert list \<Rightarrow> scan_world \<Rightarrow> scan_world" where
  "send alerts w = w\<lparr>sw_alerts := sw_alerts w @ alerts\<rparr>"

definition announce_quarantine :: "string \<Rightarrow> project_decision list \<Rightarrow> scan_world \<Rightarrow> scan_world" where
  "announce_quarantine project decisions w =
     (let hits = filter (\<lambda>h. hit_verdict h = Quarantine) (map snd (findings_by_key decisions)) in
      if hits = [] then w
      else case format_quarantine_alert project hits of Inl _ \<Rightarrow> w | Inr a \<Rightarrow> send [a] w)"

definition emit_transition_alerts :: "string \<Rightarrow> project_decision list \<Rightarrow> project_decision list
    \<Rightarrow> suppression list \<Rightarrow> scan_world \<Rightarrow> suppression list \<times> scan_world" where
  "emit_transition_alerts project decisions prior supps w =
     (case detect_transitions project decisions prior supps of
        Inl _ \<Rightarrow> ([], w)
      | Inr t \<Rightarrow> (tr_host_expired t, send (tr_alerts t) w))"

definition raise_enforcement_error :: "enforcement \<Rightarrow> bool \<Rightarrow> scan_error raised + unit" where
  "raise_enforcement_error outcome record_error = (case enf_error outcome of
     None \<Rightarrow> Inr () | Some e \<Rightarrow> Inl (Raised (Enforcement_Failed e record_error)))"

text \<open>\<open>_enforce\<close>; \<open>meta.policy()\<close> is computed first.\<close>

definition scan_enforce :: "scan_inputs \<Rightarrow> project_meta \<Rightarrow> (project_decision \<times> finding_disposition) option
    \<Rightarrow> bool \<Rightarrow> scan_world \<Rightarrow> (scan_error raised + enforcement) \<times> scan_world" where
  "scan_enforce si m headline in_grace w =
     (case meta_policy m of
        Inl x \<Rightarrow> (Inl (Crash x), w)
      | Inr policy \<Rightarrow> run_box (enforce (pm_hosts m) policy
          (map_option (\<lambda>(p, d). (pd_image_ref p, d)) headline) in_grace (si_legacy si) (si_now si)) w)"

text \<open>Everything read before the first image is scanned.\<close>

record prepared =
  pr_meta :: project_meta
  pr_profile :: project_hardening
  pr_supps :: "suppression list"
  pr_prior :: "project_decision list"
  pr_inventory :: image_inventory

definition prepare_scan :: "scan_inputs \<Rightarrow> scan_world \<Rightarrow> scan_error raised + prepared" where
  "prepare_scan si w =
     rbind (from_input (si_manifest si)) (\<lambda>manifest.
     rbind (from_input (project_meta manifest (project_compose_files (si_overlay_exists si)))) (\<lambda>m.
     rbind (check_declared_runtimes m) (\<lambda>_.
     rbind (case si_user_model si of None \<Rightarrow> Inl (Raised (Input_Error Inventory_Failed)) | Some um \<Rightarrow> Inr um)
       (\<lambda>user_model.
     rbind (from_py (hardening_profile_of m user_model)) (\<lambda>profile.
     rbind (from_input (load_all_suppressions (si_project_suppressions si) (si_host_suppressions si))) (\<lambda>supps.
     rbind (from_py (load_prior_decisions (si_project si) (sw_scan_file w))) (\<lambda>prior.
     rbind (from_input (identify (si_images si) manifest
       (load_deployed_inventory (si_project si) (si_active_model si) (si_every_model si) (si_containers si))
       (stopped_reason (si_project si) (si_health_file si) (si_deploy_file si) (sw_box w)))) (\<lambda>inventory.
     Inr \<lparr> pr_meta = m, pr_profile = profile, pr_supps = supps, pr_prior = prior,
           pr_inventory = inventory \<rparr>))))))))"

definition scan_of :: "scan_inputs \<Rightarrow> prepared \<Rightarrow> scanned \<Rightarrow> project_decision list \<Rightarrow> suppression list
    \<Rightarrow> bool \<Rightarrow> project_scan" where
  "scan_of si pr sd decisions host_expired record_error =
     (let acc = pr_inventory pr in
      \<lparr> ps_project = si_project si, ps_posture = pm_posture_str (pr_meta pr),
        ps_dangerously = pm_dangerously (pr_meta pr), ps_decisions = decisions,
        ps_warnings = map (\<lambda>(s, y). W_Unidentified s y) (ii_unidentified acc)
          @ map W_Not_Started (ii_not_started acc) @ sd_warnings sd,
        ps_failed_images = sd_failed sd, ps_skipped_images = sd_skipped sd,
        ps_unidentified = ii_unidentified acc, ps_basis = ii_basis acc,
        ps_stopped_reason = ii_stopped_reason acc, ps_headline = headline_of decisions,
        ps_host_expired = host_expired, ps_record_error = record_error \<rparr>)"

definition nothing_scanned :: scanned where
  "nothing_scanned = \<lparr> sd_results = [], sd_failed = [], sd_skipped = [], sd_warnings = [] \<rparr>"

text \<open>A project with no image to scan.\<close>

definition scan_nothing :: "scan_inputs \<Rightarrow> prepared \<Rightarrow> bool \<Rightarrow> bool \<Rightarrow> scan_world
    \<Rightarrow> (scan_error raised + project_scan) \<times> scan_world" where
  "scan_nothing si pr in_grace audit_only w =
     (if audit_only then (Inr (scan_of si pr nothing_scanned [] [] False), w)
      else case scan_enforce si (pr_meta pr) None in_grace w of
        (Inl e, w1) \<Rightarrow> (Inl e, w1)
      | (Inr outcome, w1) \<Rightarrow>
          (case record_scan si [] (unscanned_lines [] [] (ii_unidentified (pr_inventory pr)))
                  (pr_inventory pr) w1 of
             (record_error, w2) \<Rightarrow>
               (rbind (raise_enforcement_error outcome record_error) (\<lambda>_.
                  Inr (scan_of si pr nothing_scanned [] [] record_error)), w2)))"

text \<open>What follows the decisions: the action, the record, the alerts.\<close>

definition act_on_decisions :: "scan_inputs \<Rightarrow> prepared \<Rightarrow> scanned \<Rightarrow> project_decision list
    \<Rightarrow> bool \<Rightarrow> bool \<Rightarrow> scan_world \<Rightarrow> (scan_error raised + project_scan) \<times> scan_world" where
  "act_on_decisions si pr sd decisions in_grace defer_new w =
     (case scan_enforce si (pr_meta pr) (headline_of decisions) (in_grace \<or> defer_new) w of
        (Inl e, w1) \<Rightarrow> (Inl e, w1)
      | (Inr outcome, w1) \<Rightarrow>
        if sd_failed sd \<noteq> [] \<and> decisions = [] then (Inl (Raised (All_Images_Failed (enf_error outcome))), w1)
        else (case record_scan si decisions
            (unscanned_lines (sd_failed sd) (sd_skipped sd) (ii_unidentified (pr_inventory pr)))
            (pr_inventory pr) w1 of (record_error, w2) \<Rightarrow>
          (case (if in_grace then ([], w2)
             else emit_transition_alerts (si_project si) decisions (pr_prior pr) (pr_supps pr)
                 (if enf_landed outcome then announce_quarantine (si_project si) decisions w2 else w2)) of
             (host_expired, w3) \<Rightarrow>
               (rbind (raise_enforcement_error outcome record_error) (\<lambda>_.
                  Inr (scan_of si pr sd decisions host_expired record_error)), w3))))"

definition scan_one_project_locked :: "scan_inputs \<Rightarrow> bool \<Rightarrow> bool \<Rightarrow> bool \<Rightarrow> scan_world
    \<Rightarrow> (scan_error raised + project_scan) \<times> scan_world" where
  "scan_one_project_locked si in_grace audit_only defer_new w =
     (case prepare_scan si w of
        Inl e \<Rightarrow> (Inl e, w)
      | Inr pr \<Rightarrow>
        if ii_targets (pr_inventory pr) = [] then scan_nothing si pr in_grace audit_only w
        else case from_scanner (scan_targets (si_trivy si) (ii_targets (pr_inventory pr))) of
          Inl e \<Rightarrow> (Inl e, w)
        | Inr sd \<Rightarrow>
          (case evaluate_results (si_project si) (pr_meta pr) (pr_profile pr) (pr_supps pr)
                  (si_today si) (si_kev si) (sd_results sd) of
             Inl e \<Rightarrow> (Inl e, w)
           | Inr decisions \<Rightarrow>
             if audit_only then
               (if sd_failed sd \<noteq> [] \<and> decisions = [] then (Inl (Raised (All_Images_Failed None)), w)
                else (Inr (scan_of si pr sd decisions [] False), w))
             else act_on_decisions si pr sd decisions in_grace defer_new w))"

end
