(* ===== verification/Scan_Laws.thy ===== *)
theory Scan_Laws
  imports Scan_Core Cve_Quarantine_Laws
begin

text \<open>
  What a project's scan guarantees: it accounts for every image, a complete and clear
  one speaks for every container, an audit changes nothing, and a scan takes a
  project down exactly when it must, whether or not its record can be written.
\<close>

section \<open>Every image is accounted for\<close>

lemma scan_image_ref: "scan_image run ref timeout now = Inr r \<Longrightarrow> image_ref r = ref"
  by (auto simp: scan_image_def split: trivy_run.splits option.splits sum.splits)

lemma scan_from_partition:
  assumes "scan_from env i ts acc = Inr sd" "sd_skipped acc = []"
  shows "mset (map image_ref (sd_results sd)) + mset (sd_failed sd) + mset (sd_skipped sd)
    = mset (map image_ref (sd_results acc)) + mset (sd_failed acc) + mset (map st_image_ref ts)"
  using assms
proof (induction env i ts acc rule: scan_from.induct)
  case (2 env i t ts acc)
  let ?rem = "project_budget_seconds - te_elapsed env i"
  let ?run = "scan_image (te_run env i) (st_image_ref t) (image_timeout ?rem) (te_now env i)"
  show ?case
  proof (cases "?rem \<le> 0")
    case True
    then show ?thesis using "2.prems" by (auto simp: Let_def)
  next
    case False
    show ?thesis
    proof (cases ?run)
      case (Inr r)
      with "2.IH"(2) [OF refl False Inr] "2.prems" False scan_image_ref [OF Inr] show ?thesis
        by (simp add: Let_def)
    next
      case (Inl e)
      show ?thesis
      proof (cases e)
        case (Crash x)
        with Inl False "2.prems" show ?thesis by (simp add: Let_def)
      next
        case (Raised x)
        then have x: "x \<noteq> Trivy_Not_Installed" using Inl False "2.prems" by (auto simp: Let_def)
        with "2.IH"(1) [OF refl False Inl Raised x] "2.prems" False Inl Raised show ?thesis
          by (simp add: Let_def)
      qed
    qed
  qed
qed simp

text \<open>C32. A scan within its budget loses no image: each of its targets has a result, or failed, or was
  skipped, each exactly as often as it was asked for.\<close>

theorem scan_targets_partition:
  assumes "scan_targets env targets = Inr sd"
  shows "mset (map image_ref (sd_results sd)) + mset (sd_failed sd) + mset (sd_skipped sd)
    = mset (map st_image_ref targets)"
  using scan_from_partition [OF assms [unfolded scan_targets_def]] by simp

definition late_trivy :: trivy_env where
  "late_trivy = \<lparr> te_elapsed = (\<lambda>i. 400 * of_nat i), te_run = (\<lambda>_. Trivy_Timeout), te_now = (\<lambda>_. noon) \<rparr>"

theorem scan_targets_partition_witness:
  "\<exists>sd. scan_targets late_trivy [\<lparr> st_service = ''a'', st_image_ref = ''a:1'' \<rparr>,
       \<lparr> st_service = ''b'', st_image_ref = ''b:1'' \<rparr>, \<lparr> st_service = ''c'', st_image_ref = ''c:1'' \<rparr>] = Inr sd
     \<and> mset (map image_ref (sd_results sd)) + mset (sd_failed sd) + mset (sd_skipped sd)
       = {#''a:1'', ''b:1'', ''c:1''#}"
proof -
  let ?ts = "[\<lparr> st_service = ''a'', st_image_ref = ''a:1'' \<rparr>,
       \<lparr> st_service = ''b'', st_image_ref = ''b:1'' \<rparr>, \<lparr> st_service = ''c'', st_image_ref = ''c:1'' \<rparr>]"
  have "\<exists>sd. scan_targets late_trivy ?ts = Inr sd"
    by (simp add: scan_targets_def late_trivy_def project_budget_seconds_def scan_image_def)
  then obtain sd where sd: "scan_targets late_trivy ?ts = Inr sd" by blast
  from scan_targets_partition [OF sd] sd show ?thesis by simp
qed

lemma evaluate_results_refs:
  assumes "evaluate_results project m profile supps today kev srs = Inr ps"
  shows "map pd_image_ref ps = map image_ref srs"
proof -
  have "evaluate_image project m profile supps today kev sr = Inr p \<Longrightarrow> pd_image_ref p = image_ref sr"
    for sr p
    by (auto simp: evaluate_image_def evaluate_project_def Let_def split: sum.splits raised.splits)
  with assms show ?thesis
    unfolding evaluate_results_def by (induction srs arbitrary: ps) (auto simp: rbind_eq_Inr)
qed

lemma headline_None:
  "headline_of ps = None \<longleftrightarrow> (\<forall>p\<in>set ps. \<forall>d\<in>set (pd_findings p). disposition d \<noteq> Quarantine)"
  by (auto simp: headline_of_def find_None_iff)

lemma scan_of_simps [simp]:
  "ps_decisions (scan_of si pr sd ds he re) = ds"
  "ps_headline (scan_of si pr sd ds he re) = headline_of ds"
  "ps_record_error (scan_of si pr sd ds he re) = re"
  "scan_complete (scan_of si pr sd ds he re) \<longleftrightarrow>
     sd_failed sd = [] \<and> sd_skipped sd = [] \<and> ii_unidentified (pr_inventory pr) = []"
  by (simp_all add: scan_of_def Let_def scan_complete_def unidentified_services_def)

text \<open>How a scan that returns came about.\<close>

lemma prepared_inventory:
  assumes "prepare_scan si w = Inr pr" "si_containers si = Some cs"
  shows "\<exists>manifest dep. load_deployed_inventory (si_project si) (si_active_model si) (si_every_model si)
      (Some cs) = Inr dep
    \<and> identify (si_images si) manifest (Inr dep)
        (stopped_reason (si_project si) (si_health_file si) (si_deploy_file si) (sw_box w))
      = Inr (pr_inventory pr)"
proof -
  obtain manifest where i: "identify (si_images si) manifest
      (load_deployed_inventory (si_project si) (si_active_model si) (si_every_model si) (Some cs))
      (stopped_reason (si_project si) (si_health_file si) (si_deploy_file si) (sw_box w))
      = Inr (pr_inventory pr)"
    using assms by (auto simp: prepare_scan_def rbind_eq_Inr)
  then obtain dep where "load_deployed_inventory (si_project si) (si_active_model si) (si_every_model si)
      (Some cs) = Inr dep"
    by (auto simp: identify_def rbind_eq_Inr)
  with i show ?thesis by auto
qed

lemma act_on_decisions_Inr:
  assumes "act_on_decisions si pr sd ds g dn w = (Inr p, w')"
  shows "\<exists>he re. p = scan_of si pr sd ds he re"
  using assms by (auto simp: act_on_decisions_def rbind_eq_Inr split: prod.splits sum.splits if_splits)

lemma scan_nothing_Inr:
  assumes "scan_nothing si pr g a w = (Inr p, w')"
  shows "\<exists>re. p = scan_of si pr nothing_scanned [] [] re"
  using assms by (auto simp: scan_nothing_def rbind_eq_Inr split: prod.splits sum.splits if_splits)

lemma scan_Inr:
  assumes "scan_one_project_locked si g audit dn w = (Inr p, w')"
  shows "\<exists>pr sd ds he re. prepare_scan si w = Inr pr \<and> p = scan_of si pr sd ds he re
    \<and> (ii_targets (pr_inventory pr) = [] \<and> sd = nothing_scanned \<and> ds = []
       \<or> scan_targets (si_trivy si) (ii_targets (pr_inventory pr)) = Inr sd
         \<and> evaluate_results (si_project si) (pr_meta pr) (pr_profile pr) (pr_supps pr)
             (si_today si) (si_kev si) (sd_results sd) = Inr ds)"
proof -
  obtain pr where pr: "prepare_scan si w = Inr pr"
    using assms by (auto simp: scan_one_project_locked_def split: sum.splits)
  show ?thesis
  proof (cases "ii_targets (pr_inventory pr) = []")
    case True
    then have "scan_nothing si pr g audit w = (Inr p, w')"
      using assms pr by (simp add: scan_one_project_locked_def)
    with scan_nothing_Inr pr True show ?thesis by blast
  next
    case False
    then obtain sd where sd: "scan_targets (si_trivy si) (ii_targets (pr_inventory pr)) = Inr sd"
      using assms pr by (auto simp: scan_one_project_locked_def split: sum.splits)
    then obtain ds where ds: "evaluate_results (si_project si) (pr_meta pr) (pr_profile pr) (pr_supps pr)
             (si_today si) (si_kev si) (sd_results sd) = Inr ds"
      using assms pr False by (auto simp: scan_one_project_locked_def from_scanner_def split: sum.splits)
    have run: "scan_one_project_locked si g audit dn w =
      (if audit then (if sd_failed sd \<noteq> [] \<and> ds = [] then (Inl (Raised (All_Images_Failed None)), w)
          else (Inr (scan_of si pr sd ds [] False), w))
        else act_on_decisions si pr sd ds g dn w)"
      by (simp only: scan_one_project_locked_def pr sd ds False from_scanner_def sum.case if_False)
    have "\<exists>he re. p = scan_of si pr sd ds he re"
    proof (cases audit)
      case True
      have "p = scan_of si pr sd ds [] False"
        using assms [unfolded run] True by (cases "sd_failed sd \<noteq> [] \<and> ds = []") simp_all
      then show ?thesis by blast
    next
      case False
      with assms [unfolded run] have "act_on_decisions si pr sd ds g dn w = (Inr p, w')" by simp
      then show ?thesis by (rule act_on_decisions_Inr)
    qed
    with pr sd ds show ?thesis by blast
  qed
qed

text \<open>The lemma without its claim: the containers are among the targets.\<close>

lemma container_targets:
  assumes "load_deployed_inventory project am em (Some cs) = Inr dep"
    and "identify images manifest (Inr dep) why = Inr acc" and "c \<in> set cs"
  shows "\<lparr> st_service = pc_service c, st_image_ref = container_ref c \<rparr> \<in> set (ii_targets acc)"
proof -
  obtain active every where j: "di_services dep = join_inventory active every cs"
    by (rule inventory_join [OF assms(1)])
  have n: "pc_service c \<in> fst ` set (di_services dep)"
    using join_names [OF assms(3), of active every] j by (metis list.set_map)
  then obtain svc where svc: "map_of (di_services dep) (pc_service c) = Some svc"
    by (metis map_of_eq_None_iff not_None_eq)
  have "ds_containers svc = containers_of cs (pc_service c)"
    using join_containers map_of_SomeD [OF svc] j by metis
  then have "c \<in> set (ds_containers svc)" using assms(3) by (simp add: containers_of_def)
  then show ?thesis using identify_covers [OF assms(2) n] svc by (auto simp: covered_def)
qed

text \<open>C31. A complete scan speaks for everything that runs: whatever the project's state and whichever way
  the scan was asked for, every container Docker lists has a decision for exactly the image it
  was created from; and when no headline asks for a quarantine, no finding in any of them is at
  quarantine level.\<close>

theorem complete_scan_covers_containers:
  assumes "scan_one_project_locked si in_grace audit_only defer_new w = (Inr p, w')"
    and "scan_complete p" and "si_containers si = Some cs" and "c \<in> set cs"
  shows "\<exists>d\<in>set (ps_decisions p). pd_image_ref d = container_ref c
    \<and> (ps_headline p = None \<longrightarrow> (\<forall>f\<in>set (pd_findings d). disposition f \<noteq> Quarantine))"
proof -
  obtain pr sd ds he re where pr: "prepare_scan si w = Inr pr" and p: "p = scan_of si pr sd ds he re"
    and how: "ii_targets (pr_inventory pr) = [] \<and> sd = nothing_scanned \<and> ds = []
       \<or> scan_targets (si_trivy si) (ii_targets (pr_inventory pr)) = Inr sd
         \<and> evaluate_results (si_project si) (pr_meta pr) (pr_profile pr) (pr_supps pr)
             (si_today si) (si_kev si) (sd_results sd) = Inr ds"
    using scan_Inr [OF assms(1)] by blast
  obtain manifest dep where "load_deployed_inventory (si_project si) (si_active_model si)
      (si_every_model si) (Some cs) = Inr dep"
    and "identify (si_images si) manifest (Inr dep) (stopped_reason (si_project si)
      (si_health_file si) (si_deploy_file si) (sw_box w)) = Inr (pr_inventory pr)"
    using prepared_inventory [OF pr assms(3)] by blast
  then have t: "\<lparr> st_service = pc_service c, st_image_ref = container_ref c \<rparr> \<in> set (ii_targets (pr_inventory pr))"
    using assms(4) by (rule container_targets)
  then have s: "scan_targets (si_trivy si) (ii_targets (pr_inventory pr)) = Inr sd"
    and e: "evaluate_results (si_project si) (pr_meta pr) (pr_profile pr) (pr_supps pr)
             (si_today si) (si_kev si) (sd_results sd) = Inr ds"
    using how by auto
  have "mset (map image_ref (sd_results sd)) = mset (map st_image_ref (ii_targets (pr_inventory pr)))"
    using scan_from_partition [OF s [unfolded scan_targets_def]] assms(2) p by simp
  then have "set (map image_ref (sd_results sd)) = set (map st_image_ref (ii_targets (pr_inventory pr)))"
    by (rule mset_eq_setD)
  then have "pd_image_ref ` set ds = st_image_ref ` set (ii_targets (pr_inventory pr))"
    using arg_cong [OF evaluate_results_refs [OF e], of set] by simp
  then have "container_ref c \<in> pd_image_ref ` set ds"
    using imageI [OF t, of st_image_ref] by simp
  then obtain d where d: "d \<in> set ds" "pd_image_ref d = container_ref c" by force
  have "ps_headline p = None \<longrightarrow> (\<forall>f\<in>set (pd_findings d). disposition f \<noteq> Quarantine)"
    using headline_None [of ds] p d(1) by simp
  then show ?thesis using d by (intro bexI [of _ d]) (simp_all add: p)
qed

text \<open>A project with one stopped container, left over from a service no model names.\<close>

definition example_inputs :: scan_inputs where
  "example_inputs = \<lparr> si_project = ''shop'', si_manifest = Inr [], si_overlay_exists = False,
     si_user_model = Some [], si_project_suppressions = Absent, si_host_suppressions = Absent,
     si_health_file = Absent, si_deploy_file = Absent, si_active_model = Some [],
     si_every_model = Some [], si_containers = Some [stray_container], si_images = (\<lambda>_. None),
     si_trivy = \<lparr> te_elapsed = (\<lambda>_. 0), te_run = (\<lambda>_. Trivy_Output (Some (PDict []))),
                  te_now = (\<lambda>_. noon) \<rparr>,
     si_kev = empty_catalog, si_today = Date 2026 7 1, si_now = noon, si_legacy = No_Legacy,
     si_can_record = True \<rparr>"

definition example_world :: scan_world where
  "example_world = \<lparr> sw_box = web_box, sw_scan_file = Absent, sw_alerts = [] \<rparr>"

lemma posture_word: "parse_posture (PStr ''balanced'') = Inr Balanced"
  by (simp add: parse_posture_def py_strip_def py_isspace_def code_def all_postures_def py_lower_def
      lower_char_def is_upper_az_def)

lemma example_prepared:
  "\<exists>pr. prepare_scan example_inputs example_world = Inr pr
     \<and> ii_targets (pr_inventory pr) = [\<lparr> st_service = ''old'', st_image_ref = ''sha256:1'' \<rparr>]
     \<and> ii_unidentified (pr_inventory pr) = [] \<and> pm_declared_runtimes (pr_meta pr) = PNone"
proof -
  obtain m where m: "project_meta [] (project_compose_files False) = Inr m"
    "pm_declared_runtimes m = PNone" "pm_manifest m = []"
    by (simp add: project_meta_def dget_or_def dget_def py_or_def posture_word)
  have prof: "\<exists>x. hardening_profile_of m [] = Inr x"
    using m(3) by (simp add: hardening_profile_of_def strict_profile_def overlay_view_def sec_block_def
        declared_services_def dget_or_def dget_def py_or_def compose_services_def
        strict_hardening_penalty_enforced_def legacy_profile_def effective_hardening_profile_def
        hardening_profile_from_compose_def)
  have why: "stopped_reason ''shop'' Absent Absent web_box = Inr None"
    by (simp add: stopped_reason_def is_blocked_def migration_in_progress_def web_box_def
        lifecycle_block_def is_quarantined_def is_paused_def is_monitor_stopped_def read_state_def
        stop_stands_def dget_or_def dget_def)
  have dep: "load_deployed_inventory ''shop'' (Some []) (Some []) (Some [stray_container])
      = Inr \<lparr> di_project = ''shop'', di_services = [leftover_service [stray_container] ''old''] \<rparr>"
    by (simp add: load_deployed_inventory_def model_services_def dget_or_def dget_def py_or_def
        join_inventory_def first_keys_def stray_container_def)
  have inv: "identify (\<lambda>_. None) [] (Inr \<lparr> di_project = ''shop'',
        di_services = [leftover_service [stray_container] ''old''] \<rparr>) (Inr None) =
      Inr \<lparr> ii_basis = basis_containers, ii_stopped_reason = None,
        ii_targets = [\<lparr> st_service = ''old'', st_image_ref = ''sha256:1'' \<rparr>],
        ii_unidentified = [], ii_not_started = [] \<rparr>"
    by (simp add: identify_def from_box_def identify_images_def manifest_first_def dget_or_def
        dget_def py_or_def leftover_service_def identify_service_def containers_of_def
        stray_container_def first_keys_def container_ref_def exact_ref_def targets_of_def)
  have supps: "load_all_suppressions Absent Absent = Inr []"
    by (simp add: load_all_suppressions_def load_suppressions_def)
  show ?thesis
    using prof by (auto simp: prepare_scan_def example_inputs_def example_world_def from_input_def m
        check_declared_runtimes_def load_prior_decisions_def read_scan_state_def dep inv why supps)
qed

lemma example_scan_runs:
  "\<exists>p. scan_one_project_locked example_inputs False True False example_world = (Inr p, example_world)
     \<and> scan_complete p"
proof -
  obtain pr where pr: "prepare_scan example_inputs example_world = Inr pr"
    "ii_targets (pr_inventory pr) = [\<lparr> st_service = ''old'', st_image_ref = ''sha256:1'' \<rparr>]"
    "ii_unidentified (pr_inventory pr) = []" "pm_declared_runtimes (pr_meta pr) = PNone"
    using example_prepared by blast
  let ?r = "\<lparr> image_ref = ''sha256:1'', findings = [], scanned_at = noon, db_version = None, lang_types = {} \<rparr>"
  have run: "scan_image (Trivy_Output (Some (PDict []))) ref n noon = Inr (?r\<lparr>image_ref := ref\<rparr>)" for ref n
    by (simp add: scan_image_def parse_findings_def parse_lang_types_def extract_db_version_def
        dget_or_def dget_def py_or_def)
  have sd: "scan_targets (si_trivy example_inputs) (ii_targets (pr_inventory pr))
      = Inr \<lparr> sd_results = [?r], sd_failed = [], sd_skipped = [], sd_warnings = [] \<rparr>"
    by (simp add: scan_targets_def example_inputs_def pr(2) project_budget_seconds_def run)
  obtain ds where ds: "evaluate_results (si_project example_inputs) (pr_meta pr) (pr_profile pr) (pr_supps pr)
      (si_today example_inputs) (si_kev example_inputs) [?r] = Inr ds"
    by (simp add: evaluate_results_def evaluate_image_def effective_runtimes_def pr(4))
  show ?thesis
    by (simp add: scan_one_project_locked_def pr(1,2) sd [unfolded pr(2)] from_scanner_def ds pr(3))
qed

theorem complete_scan_covers_containers_witness:
  "\<exists>p. scan_one_project_locked example_inputs False True False example_world = (Inr p, example_world)
     \<and> (\<exists>d\<in>set (ps_decisions p). pd_image_ref d = ''sha256:1'')"
proof -
  obtain p where p: "scan_one_project_locked example_inputs False True False example_world = (Inr p, example_world)"
    and c: "scan_complete p" using example_scan_runs by blast
  have "si_containers example_inputs = Some [stray_container]" "stray_container \<in> set [stray_container]"
    by (simp_all add: example_inputs_def)
  from complete_scan_covers_containers [OF p c this] p show ?thesis
    by (auto simp: stray_container_def container_ref_def exact_ref_def)
qed

text \<open>An audit is only a question: the scan a resume or a deploy asks for changes no container, no
  file and no record, and sends no alert, whatever it finds and however it ends.\<close>

theorem audit_changes_nothing:
  "snd (scan_one_project_locked si in_grace True defer_new w) = w"
  by (auto simp: scan_one_project_locked_def scan_nothing_def split: sum.splits)

section \<open>The action, the record and the alerts\<close>

text \<open>Enforcement, seen from the world of a scan.\<close>

lemma enforce_result:
  assumes "enforce hosts p headline g legacy now b = (Inr e, b')" "distinct (map fst (containers b))"
  shows "(not_due legacy g headline b \<longrightarrow> b' = b)
    \<and> (legacy = No_Legacy \<longrightarrow> is_quarantined b \<or> headline \<noteq> None \<and> \<not> g \<longrightarrow> enf_error e = None \<longrightarrow> landed_well b')
    \<and> (is_quarantined b \<longrightarrow> is_quarantined b')"
proof -
  obtain r1 b1 where s: "enforce_steps hosts p headline g legacy now b = (r1, b1)" by fastforce
  have r: "b' = b1" "r1 = Inr e \<or> (\<exists>x. r1 = Inl x) \<and> e = enforced\<lparr>enf_error := Some Action_Failed\<rparr>"
    using assms(1) s by (auto simp: enforce_def acatch_def aret_def split: sum.splits if_splits)
  have "landed_well b1"
    if L: "legacy = No_Legacy" and D: "is_quarantined b \<or> headline \<noteq> None \<and> \<not> g" and R: "r1 = Inr e"
  proof (cases "is_quarantined b")
    case True
    then obtain c where "quarantine_action_complete b = (Inr c, b)" "reassert_quarantine hosts b = (Inr (), b1)"
      using s L R quarantine_complete_same
      by (fastforce simp: enforce_steps_def abind_Inr)
    then show ?thesis using reassert_effect assms(2) True by blast
  next
    case False
    then obtain ref d where "headline = Some (ref, d)" "\<not> g" using D by auto
    then have "quarantine_project hosts d ref p now b = (Inr (), b1)"
      using s L R False by (auto simp: enforce_steps_def abind_Inr)
    then show ?thesis by (rule quarantine_landed) (rule assms(2))
  qed
  with enforce_steps_result [OF s assms(2)] r show ?thesis by (auto simp: enforced_def)
qed

lemma run_box_Inr:
  "run_box m w = (Inr x, w') \<longleftrightarrow> (\<exists>b'. m (sw_box w) = (Inr x, b') \<and> w' = w\<lparr>sw_box := b'\<rparr>)"
  by (auto simp: run_box_def split: prod.splits sum.splits raised.splits)

lemma scan_enforce_Inr:
  assumes "scan_enforce si m headline g w = (Inr e, w')" "distinct (map fst (containers (sw_box w)))"
  shows "sw_scan_file w' = sw_scan_file w \<and> sw_alerts w' = sw_alerts w
    \<and> (not_due (si_legacy si) g headline (sw_box w) \<longrightarrow> sw_box w' = sw_box w)
    \<and> (si_legacy si = No_Legacy \<longrightarrow> is_quarantined (sw_box w) \<or> headline \<noteq> None \<and> \<not> g \<longrightarrow>
         enf_error e = None \<longrightarrow> landed_well (sw_box w'))
    \<and> (is_quarantined (sw_box w) \<longrightarrow> is_quarantined (sw_box w'))"
proof -
  obtain policy b' where run: "enforce (pm_hosts m) policy (map_option (\<lambda>(p, d). (pd_image_ref p, d)) headline)
      g (si_legacy si) (si_now si) (sw_box w) = (Inr e, b')" and w': "w' = w\<lparr>sw_box := b'\<rparr>"
    using assms(1) by (auto simp: scan_enforce_def run_box_Inr split: sum.splits)
  show ?thesis using enforce_result [OF run assms(2)] w' by (auto simp: not_due_def)
qed

lemma announce_keeps [simp]:
  "sw_box (announce_quarantine project ds w) = sw_box w"
  "sw_scan_file (announce_quarantine project ds w) = sw_scan_file w"
  by (auto simp: announce_quarantine_def send_def Let_def split: sum.splits)

lemma emit_keeps:
  "emit_transition_alerts project ds prior supps w = (he, w') \<Longrightarrow>
   sw_box w' = sw_box w \<and> sw_scan_file w' = sw_scan_file w"
  by (auto simp: emit_transition_alerts_def send_def split: sum.splits)

lemma record_keeps:
  "record_scan si ds us acc w = (re, w') \<Longrightarrow> sw_box w' = sw_box w \<and> sw_alerts w' = sw_alerts w"
  by (auto simp: record_scan_def split: sum.splits)

text \<open>The box a scan leaves is the one its enforcement left.\<close>

lemma scan_box:
  assumes "scan_one_project_locked si g False dn w = (Inr p, w')"
  shows "\<exists>pr e w1. prepare_scan si w = Inr pr \<and> enf_error e = None \<and> sw_box w' = sw_box w1
    \<and> (scan_enforce si (pr_meta pr) (ps_headline p) (g \<or> dn) w = (Inr e, w1)
       \<or> ps_headline p = None \<and> scan_enforce si (pr_meta pr) None g w = (Inr e, w1))"
proof -
  obtain pr where pr: "prepare_scan si w = Inr pr"
    using assms by (auto simp: scan_one_project_locked_def split: sum.splits)
  show ?thesis
  proof (cases "ii_targets (pr_inventory pr) = []")
    case True
    then have "scan_nothing si pr g False w = (Inr p, w')"
      using assms pr by (simp add: scan_one_project_locked_def)
    then obtain e w1 re w2 where "scan_enforce si (pr_meta pr) None g w = (Inr e, w1)"
      and "record_scan si [] (unscanned_lines [] [] (ii_unidentified (pr_inventory pr))) (pr_inventory pr) w1 = (re, w2)"
      and "enf_error e = None" "w' = w2" "p = scan_of si pr nothing_scanned [] [] re"
      by (auto simp: scan_nothing_def rbind_eq_Inr raise_enforcement_error_def
          split: prod.splits sum.splits option.splits)
    then show ?thesis using pr record_keeps by (fastforce simp: headline_of_def)
  next
    case False
    then obtain sd ds where run: "act_on_decisions si pr sd ds g dn w = (Inr p, w')"
      using assms pr by (auto simp: scan_one_project_locked_def from_scanner_def split: sum.splits)
    then obtain e w1 where e: "scan_enforce si (pr_meta pr) (headline_of ds) (g \<or> dn) w = (Inr e, w1)"
      by (auto simp: act_on_decisions_def split: prod.splits sum.splits)
    obtain re w2 where re: "record_scan si ds (unscanned_lines (sd_failed sd) (sd_skipped sd)
        (ii_unidentified (pr_inventory pr))) (pr_inventory pr) w1 = (re, w2)" by fastforce
    have "enf_error e = None \<and> sw_box w' = sw_box w2 \<and> ps_headline p = headline_of ds"
      using run e re emit_keeps
      by (auto simp: act_on_decisions_def rbind_eq_Inr raise_enforcement_error_def
          split: prod.splits if_splits option.splits)
    then show ?thesis using pr e record_keeps [OF re] by auto
  qed
qed

text \<open>Where it is not known whether an old release is staged, an action that is due ends the scan with an error.\<close>

lemma unknown_not_due:
  assumes "scan_enforce si m headline g w = (Inr e, w')" "si_legacy si = Legacy_Unknown" "enf_error e = None"
  shows "\<not> (is_quarantined (sw_box w) \<or> headline \<noteq> None \<and> \<not> g)"
proof -
  obtain policy b' where run: "enforce (pm_hosts m) policy (map_option (\<lambda>(p, d). (pd_image_ref p, d)) headline)
      g Legacy_Unknown (si_now si) (sw_box w) = (Inr e, b')"
    using assms(1,2) by (auto simp: scan_enforce_def run_box_Inr split: sum.splits)
  then show ?thesis using assms(3) by (auto simp: enforce_def acatch_def enforce_steps_def aret_def split: if_splits)
qed

text \<open>C30. What a scan that returns has done to the project.  An audit has changed nothing.  Any other scan of a
  box with no stage of the old release has taken the project down, stopped and with its action
  complete, if it was quarantined already or a finding asks for it outside grace and outside a run that weighs
  new quarantines together; and otherwise it left the project as it was.  With such a
  stage, and where it is not known whether there is one, the scan left the project as it was, in the second case only
  when nothing was due.  Containers are told apart by their names.\<close>

theorem scan_acts_exactly:
  assumes "scan_one_project_locked si in_grace audit_only defer_new w = (Inr p, w')"
    and "distinct (map fst (containers (sw_box w)))"
  defines "due \<equiv> is_quarantined (sw_box w) \<or> ps_headline p \<noteq> None \<and> \<not> in_grace \<and> \<not> defer_new"
  shows "if audit_only then w' = w
    else if si_legacy si \<noteq> No_Legacy then sw_box w' = sw_box w \<and> (si_legacy si = Legacy_Unknown \<longrightarrow> \<not> due)
    else if due then is_quarantined (sw_box w') \<and> all_stopped (sw_box w')
      \<and> quarantine_action_complete (sw_box w') = (Inr True, sw_box w')
    else sw_box w' = sw_box w"
proof (cases audit_only)
  case True
  then show ?thesis using assms(1)
    by (auto simp: scan_one_project_locked_def scan_nothing_def split: sum.splits if_splits)
next
  case False
  then have ran: "scan_one_project_locked si in_grace False defer_new w = (Inr p, w')" using assms(1) by simp
  obtain pr :: prepared and e w1 where e: "enf_error e = None" and w1: "sw_box w' = sw_box w1"
    and run: "scan_enforce si (pr_meta pr) (ps_headline p) (in_grace \<or> defer_new) w = (Inr e, w1)
       \<or> ps_headline p = None \<and> scan_enforce si (pr_meta pr) None in_grace w = (Inr e, w1)"
    using scan_box [OF ran] by blast
  have unknown: "\<not> due" if "si_legacy si = Legacy_Unknown"
    using run unknown_not_due [OF _ that e, of "pr_meta pr" "ps_headline p" "in_grace \<or> defer_new" w w1]
      unknown_not_due [OF _ that e, of "pr_meta pr" None in_grace w w1] by (auto simp: due_def)
  show ?thesis
    using False unknown run scan_enforce_Inr [OF _ assms(2), of si "pr_meta pr" "ps_headline p" "in_grace \<or> defer_new" e w1]
      scan_enforce_Inr [OF _ assms(2), of si "pr_meta pr" None in_grace e w1] e w1
    by (auto simp: not_due_def landed_well_def due_def)
qed

lemma example_scan_acts:
  "\<exists>p w'. scan_one_project_locked example_inputs False False False example_world = (Inr p, w')
     \<and> ps_headline p = None"
proof -
  obtain pr where pr: "prepare_scan example_inputs example_world = Inr pr"
    "ii_targets (pr_inventory pr) = [\<lparr> st_service = ''old'', st_image_ref = ''sha256:1'' \<rparr>]"
    "ii_unidentified (pr_inventory pr) = []" "pm_declared_runtimes (pr_meta pr) = PNone"
    using example_prepared by blast
  let ?r = "\<lparr> image_ref = ''sha256:1'', findings = [], scanned_at = noon, db_version = None, lang_types = {} \<rparr>"
  let ?sd = "\<lparr> sd_results = [?r], sd_failed = [], sd_skipped = [], sd_warnings = [] \<rparr>"
  have run: "scan_image (Trivy_Output (Some (PDict []))) ref n noon = Inr (?r\<lparr>image_ref := ref\<rparr>)" for ref n
    by (simp add: scan_image_def parse_findings_def parse_lang_types_def extract_db_version_def
        dget_or_def dget_def py_or_def)
  have sd: "scan_targets (si_trivy example_inputs) (ii_targets (pr_inventory pr)) = Inr ?sd"
    by (simp add: scan_targets_def example_inputs_def pr(2) project_budget_seconds_def run)
  obtain ds where ds: "evaluate_results (si_project example_inputs) (pr_meta pr) (pr_profile pr) (pr_supps pr)
      (si_today example_inputs) (si_kev example_inputs) [?r] = Inr ds" and none: "headline_of ds = None"
    by (simp add: evaluate_results_def evaluate_image_def effective_runtimes_def pr(4)
        headline_of_def evaluate_project_def judge_all_def Let_def split: option.splits)
  have pol: "\<exists>policy. meta_policy (pr_meta pr) = Inr policy"
    by (simp add: meta_policy_def declared_names_def pr(4))
  have enf: "scan_enforce example_inputs (pr_meta pr) None False example_world = (Inr enforced, example_world)"
    using pol by (auto simp: scan_enforce_def run_box_def example_world_def example_inputs_def enforce_def
        acatch_def enforce_steps_def is_quarantined_def web_box_def aret_def)
  have "\<exists>p w'. act_on_decisions example_inputs pr ?sd ds False False example_world = (Inr p, w')
      \<and> ps_headline p = None"
    by (auto simp: act_on_decisions_def none enf enforced_def raise_enforcement_error_def
        split: prod.splits)
  then show ?thesis
    by (simp add: scan_one_project_locked_def pr(1,2) sd [unfolded pr(2)] from_scanner_def ds)
qed

theorem scan_acts_exactly_witness:
  "\<exists>p w'. scan_one_project_locked example_inputs False False False example_world = (Inr p, w')
     \<and> sw_box w' = web_box"
proof -
  obtain p w' where run: "scan_one_project_locked example_inputs False False False example_world = (Inr p, w')"
    and h: "ps_headline p = None" using example_scan_acts by blast
  have "si_legacy example_inputs = No_Legacy" and names: "distinct (map fst (containers (sw_box example_world)))"
    and "\<not> is_quarantined (sw_box example_world)"
    by (simp_all add: example_inputs_def example_world_def web_box_def is_quarantined_def)
  with scan_acts_exactly [OF run names] h run show ?thesis by (auto simp: example_world_def)
qed

section \<open>A full disk\<close>

text \<open>Runs that differ at most in the record they leave.\<close>

definition same_but_record :: "scan_world \<Rightarrow> scan_world \<Rightarrow> scan_world \<Rightarrow> bool" where
  "same_but_record w u v \<longleftrightarrow> sw_box u = sw_box v \<and> sw_alerts u = sw_alerts v
     \<and> sw_scan_file u = sw_scan_file w"

lemma unrecorded_enforce [simp]:
  "scan_enforce (si\<lparr>si_can_record := c\<rparr>) m h g w = scan_enforce si m h g w"
  by (simp add: scan_enforce_def cong: sum.case_cong)

lemma unrecorded_prepare [simp]: "prepare_scan (si\<lparr>si_can_record := c\<rparr>) w = prepare_scan si w"
  by (simp add: prepare_scan_def)

lemma record_unwritable [simp]:
  "record_scan (si\<lparr>si_can_record := False\<rparr>) ds us acc v = (True, v)"
  by (simp add: record_scan_def write_scan_state_def atomic_write_def)

lemma record_writable:
  "\<exists>file. record_scan (si\<lparr>si_can_record := True\<rparr>) ds us acc v = (False, v\<lparr>sw_scan_file := file\<rparr>)"
  by (rule exI [of _ "Doc (PDict (scan_state_doc ds (si_now si) us (ii_basis acc) (ii_stopped_reason acc)))"])
    (simp add: record_scan_def write_scan_state_def atomic_write_def)

lemma scan_enforce_file: "scan_enforce si m h g v = (r, v1) \<Longrightarrow> sw_scan_file v1 = sw_scan_file v"
  by (auto simp: scan_enforce_def run_box_def split: sum.splits prod.splits)

lemma announce_file:
  "announce_quarantine project ds (v\<lparr>sw_scan_file := f\<rparr>) = (announce_quarantine project ds v)\<lparr>sw_scan_file := f\<rparr>"
  by (auto simp: announce_quarantine_def send_def Let_def split: sum.splits)

lemma emit_file:
  "emit_transition_alerts project ds prior ss (v\<lparr>sw_scan_file := f\<rparr>)
     = (case emit_transition_alerts project ds prior ss v of (he, v') \<Rightarrow> (he, v'\<lparr>sw_scan_file := f\<rparr>))"
  by (auto simp: emit_transition_alerts_def send_def split: sum.splits)

lemma scan_nothing_unrecorded:
  "same_but_record v (snd (scan_nothing (si\<lparr>si_can_record := False\<rparr>) pr g a v))
     (snd (scan_nothing (si\<lparr>si_can_record := True\<rparr>) pr g a v))"
proof -
  obtain r v1 where e: "scan_enforce si (pr_meta pr) None g v = (r, v1)" by fastforce
  obtain f where "record_scan (si\<lparr>si_can_record := True\<rparr>) []
      (unscanned_lines [] [] (ii_unidentified (pr_inventory pr))) (pr_inventory pr) v1
      = (False, v1\<lparr>sw_scan_file := f\<rparr>)" using record_writable by blast
  then show ?thesis using e scan_enforce_file [OF e]
    by (cases r) (simp_all add: scan_nothing_def same_but_record_def)
qed

lemma act_unrecorded:
  "same_but_record v (snd (act_on_decisions (si\<lparr>si_can_record := False\<rparr>) pr sd ds g dn v))
     (snd (act_on_decisions (si\<lparr>si_can_record := True\<rparr>) pr sd ds g dn v))"
proof -
  obtain r v1 where e: "scan_enforce si (pr_meta pr) (headline_of ds) (g \<or> dn) v = (r, v1)" by fastforce
  show ?thesis
  proof (cases r)
    case (Inl x)
    then show ?thesis using e scan_enforce_file [OF e]
      by (simp add: act_on_decisions_def same_but_record_def)
  next
    case (Inr outcome)
    show ?thesis
    proof (cases "sd_failed sd \<noteq> [] \<and> ds = []")
      case True
      then show ?thesis using e Inr scan_enforce_file [OF e]
        by (simp add: act_on_decisions_def same_but_record_def)
    next
      case decided: False
      define us where "us = unscanned_lines (sd_failed sd) (sd_skipped sd) (ii_unidentified (pr_inventory pr))"
      obtain f where f: "record_scan (si\<lparr>si_can_record := True\<rparr>) ds us (pr_inventory pr) v1
          = (False, v1\<lparr>sw_scan_file := f\<rparr>)" using record_writable by blast
      define v2 where "v2 = (if enf_landed outcome then announce_quarantine (si_project si) ds v1 else v1)"
      obtain he v3 where em: "emit_transition_alerts (si_project si) ds (pr_prior pr) (pr_supps pr) v2 = (he, v3)"
        by fastforce
      have v3: "sw_scan_file v3 = sw_scan_file v"
        using emit_keeps [OF em] scan_enforce_file [OF e] by (simp add: v2_def)
      have act: "act_on_decisions si' pr sd ds g dn v = (case record_scan si' ds us (pr_inventory pr) v1 of
          (record_error, w2) \<Rightarrow>
          (case (if g then ([], w2) else emit_transition_alerts (si_project si') ds (pr_prior pr) (pr_supps pr)
                 (if enf_landed outcome then announce_quarantine (si_project si') ds w2 else w2)) of
             (host_expired, w3) \<Rightarrow>
               (rbind (raise_enforcement_error outcome record_error) (\<lambda>_.
                  Inr (scan_of si' pr sd ds host_expired record_error)), w3)))"
        if "scan_enforce si' (pr_meta pr) (headline_of ds) (g \<or> dn) v = (Inr outcome, v1)" for si'
        using that unfolding act_on_decisions_def us_def by (simp only: if_not_P [OF decided] prod.case sum.case)
      show ?thesis using em e f v3 scan_enforce_file [OF e] Inr
        by (cases "enf_landed outcome")
          (simp_all add: act same_but_record_def emit_file announce_file v2_def)
    qed
  qed
qed

text \<open>The record of a scan that returns says whether it could be written.\<close>

lemma unrecorded_says_so:
  assumes "scan_one_project_locked (si\<lparr>si_can_record := False\<rparr>) in_grace False defer_new w = (Inr p, w')"
  shows "ps_record_error p"
  using assms
  by (auto simp: scan_one_project_locked_def scan_nothing_def act_on_decisions_def rbind_eq_Inr scan_of_def Let_def
      raise_enforcement_error_def split: sum.splits if_splits prod.splits option.splits)

text \<open>C33. A result that cannot be written is not a scan that did not happen: where the record of the scan, and only
  that, cannot be written, the same scan takes the same action on the project and sends the same alerts as where
  it can, the earlier record stays, and a scan that returns, an audit apart, says that its record is missing.\<close>

theorem unrecorded_scan_acts_the_same:
  "sw_box (snd (scan_one_project_locked (si\<lparr>si_can_record := False\<rparr>) in_grace audit_only defer_new w))
     = sw_box (snd (scan_one_project_locked (si\<lparr>si_can_record := True\<rparr>) in_grace audit_only defer_new w))
   \<and> sw_alerts (snd (scan_one_project_locked (si\<lparr>si_can_record := False\<rparr>) in_grace audit_only defer_new w))
     = sw_alerts (snd (scan_one_project_locked (si\<lparr>si_can_record := True\<rparr>) in_grace audit_only defer_new w))
   \<and> sw_scan_file (snd (scan_one_project_locked (si\<lparr>si_can_record := False\<rparr>) in_grace audit_only defer_new w))
     = sw_scan_file w
   \<and> (case fst (scan_one_project_locked (si\<lparr>si_can_record := False\<rparr>) in_grace False defer_new w) of
        Inr p \<Rightarrow> ps_record_error p | Inl _ \<Rightarrow> True)"
proof -
  have scan_of: "scan_of (si\<lparr>si_can_record := c\<rparr>) = scan_of si" for c
    by (simp add: scan_of_def fun_eq_iff)
  have "same_but_record w
    (snd (scan_one_project_locked (si\<lparr>si_can_record := False\<rparr>) in_grace audit_only defer_new w))
    (snd (scan_one_project_locked (si\<lparr>si_can_record := True\<rparr>) in_grace audit_only defer_new w))"
  proof (cases "prepare_scan si w")
    case (Inl e)
    then show ?thesis by (simp add: scan_one_project_locked_def same_but_record_def)
  next
    case pr: (Inr pr)
    show ?thesis
    proof (cases "ii_targets (pr_inventory pr) = []")
      case True
      then show ?thesis using pr scan_nothing_unrecorded by (simp add: scan_one_project_locked_def)
    next
      case False
      then show ?thesis using pr act_unrecorded [of w si pr]
        by (cases "from_scanner (scan_targets (si_trivy si) (ii_targets (pr_inventory pr)))")
          (auto simp: scan_one_project_locked_def same_but_record_def scan_of simp del: from_scanner_Inr
            split: sum.splits)
    qed
  qed
  moreover have "case fst (scan_one_project_locked (si\<lparr>si_can_record := False\<rparr>) in_grace False defer_new w) of
      Inr p \<Rightarrow> ps_record_error p | Inl _ \<Rightarrow> True"
    using unrecorded_says_so [of si in_grace defer_new w] by (auto split: sum.split) (metis prod.collapse)
  ultimately show ?thesis by (simp add: same_but_record_def)
qed

end
