(* ===== verification/Scan_Alerts.thy ===== *)
theory Scan_Alerts
  imports Scan_Core Cve_Alerting_Laws
begin







end
