(* ===== verification/Disk_Files.thy ===== *)
theory Disk_Files
  imports Py_State
begin

text \<open>
  A project's directory and its \<^verbatim>\<open>.releases/\<close> on a disk that may fail or die at
  every step, and from \<^verbatim>\<open>src/boxmunge/fileutil.py\<close> the operations made of such
  steps.  Each system call that changes the disk takes its outcome from a list that
  stands for the environment's choices (an empty list is a run without failures): it
  goes through, it raises OSError, or the process dies there.  A rename is synced
  before the next step, so a power loss takes back at most the last step and leaves
  what dying before that step leaves.
\<close>

section \<open>The disk\<close>

datatype node = File string | Link string | Dir "(string \<times> node) list"

definition is_dir :: "node \<Rightarrow> bool" where
  "is_dir n = (case n of Dir _ \<Rightarrow> True | _ \<Rightarrow> False)"

definition is_regular :: "node \<Rightarrow> bool" where
  "is_regular n = (case n of File _ \<Rightarrow> True | _ \<Rightarrow> False)"

lemma is_dir_simps [simp]: "is_dir (Dir es)" "\<not> is_dir (File t)" "\<not> is_dir (Link l)"
    "is_regular (File t)" "\<not> is_regular (Dir es)" "\<not> is_regular (Link l)"
  by (simp_all add: is_dir_def is_regular_def)

text \<open>The names of \<open>.releases/\<close> the release cores use; \<open>Gone p\<close> is \<open>p\<close> with \<open>.discarded\<close> after it.\<close>

datatype place = Building | Previous | Superseded | Incoming
  | Previous_Json | Superseded_Json | Live_Json | Gone place

datatype outcome = Goes | Fails nat | Dies nat

text \<open>\<open>Off_Model\<close> marks a value of a type the source's annotations rule out.\<close>

datatype disk_error = OS_Error | Release_State_Error | Bundle_Error | Docker_Failed | Git_Failed | Killed | Off_Model

text \<open>The checkout of a git project's \<open>repo/\<close>, which a bundle project does not have.\<close>

datatype git_head = No_Repo | Head string | Unreadable_Head

record disk =
  d_names :: "place \<Rightarrow> node option"
  d_code :: "(string \<times> node) list"
  d_record :: json_file
  d_retained :: "(string \<times> (string \<times> node) list) list"
  d_txn :: json_file
  d_head :: git_head
  d_steps :: "outcome list"

type_synonym 'a dio = "(disk, disk_error, 'a) st"

definition lexists :: "place \<Rightarrow> disk \<Rightarrow> bool" where
  "lexists p s \<longleftrightarrow> d_names s p \<noteq> None"

definition dir_at :: "place \<Rightarrow> disk \<Rightarrow> bool" where
  "dir_at p s \<longleftrightarrow> (case d_names s p of Some (Dir _) \<Rightarrow> True | _ \<Rightarrow> False)"

definition set_name :: "place \<Rightarrow> node option \<Rightarrow> disk \<Rightarrow> disk" where
  "set_name p v s = s\<lparr>d_names := (d_names s)(p := v)\<rparr>"

lemma set_name_simps [simp]:
  "d_names (set_name p v s) = (d_names s)(p := v)" "d_code (set_name p v s) = d_code s"
  "d_record (set_name p v s) = d_record s" "d_retained (set_name p v s) = d_retained s"
  "d_txn (set_name p v s) = d_txn s" "d_head (set_name p v s) = d_head s"
  "d_steps (set_name p v s) = d_steps s"
  by (simp_all add: set_name_def)

section \<open>Steps\<close>

text \<open>\<open>part n\<close> is what a failure or a death leaves; \<open>n\<close> is how far it came.\<close>

definition disk_step :: "(disk \<Rightarrow> disk) \<Rightarrow> (nat \<Rightarrow> disk \<Rightarrow> disk) \<Rightarrow> unit dio" where
  "disk_step go part s = (case d_steps s of
     [] \<Rightarrow> (Inr (), go s)
   | Goes # rest \<Rightarrow> (Inr (), go (s\<lparr>d_steps := rest\<rparr>))
   | Fails n # rest \<Rightarrow> (Inl OS_Error, part n (s\<lparr>d_steps := rest\<rparr>))
   | Dies n # rest \<Rightarrow> (Inl Killed, part n (s\<lparr>d_steps := rest\<rparr>)))"

definition whole_step :: "(disk \<Rightarrow> disk) \<Rightarrow> unit dio" where
  "whole_step go = disk_step go (\<lambda>_ s. s)"

definition fsync_dir :: "unit dio" where
  "fsync_dir = whole_step (\<lambda>s. s)"

text \<open>What \<open>rename(2)\<close> accepts at the destination.\<close>

definition rename_allowed :: "node \<Rightarrow> node option \<Rightarrow> bool" where
  "rename_allowed n dest = (case dest of None \<Rightarrow> True
     | Some (Dir es) \<Rightarrow> es = [] \<and> is_dir n | Some _ \<Rightarrow> \<not> is_dir n)"

definition os_rename :: "place \<Rightarrow> place \<Rightarrow> unit dio" where
  "os_rename src dest s = (case d_names s src of
     None \<Rightarrow> sraise OS_Error s
   | Some n \<Rightarrow> if rename_allowed n (d_names s dest)
       then whole_step (\<lambda>t. set_name src None (set_name dest (Some n) t)) s
       else sraise OS_Error s)"

definition unlink :: "place \<Rightarrow> unit dio" where
  "unlink p s = (case d_names s p of
     None \<Rightarrow> sraise OS_Error s
   | Some n \<Rightarrow> if is_dir n then sraise OS_Error s else whole_step (set_name p None) s)"

section \<open>\<open>fileutil\<close>\<close>

definition durable_rename_dir :: "place \<Rightarrow> place \<Rightarrow> unit dio" where
  "durable_rename_dir src dest = sbind (sget (lexists dest)) (\<lambda>there.
     if there then sraise OS_Error else sthen (os_rename src dest) fsync_dir)"

text \<open>The data of the source is synced first; that it is a regular file is checked on its descriptor.\<close>

definition durable_rename :: "place \<Rightarrow> place \<Rightarrow> unit dio" where
  "durable_rename src dest = sbind (sget (\<lambda>s. d_names s src)) (\<lambda>n.
     case n of
       Some (File _) \<Rightarrow> sthen (whole_step (\<lambda>s. s)) (sthen (os_rename src dest) fsync_dir)
     | _ \<Rightarrow> sraise OS_Error)"

text \<open>\<open>_rmtree_real_dir\<close>: a failure leaves what it had not come to.\<close>

definition rmtree_real_dir :: "place \<Rightarrow> unit dio" where
  "rmtree_real_dir p s = (case d_names s p of
     Some (Dir es) \<Rightarrow> disk_step (set_name p None) (\<lambda>n. set_name p (Some (Dir (drop n es)))) s
   | _ \<Rightarrow> sraise OS_Error s)"

fun is_gone :: "place \<Rightarrow> bool" where
  "is_gone (Gone _) = True"
| "is_gone _ = False"

definition discard_steps :: "place \<Rightarrow> unit dio" where
  "discard_steps p =
     sbind (sget (lexists (Gone p))) (\<lambda>debris.
     sthen (swhen debris (rmtree_real_dir (Gone p)))
     (sthen (os_rename p (Gone p))
     (sthen fsync_dir
     (sthen (rmtree_real_dir (Gone p)) fsync_dir))))"

definition discard_dir :: "place \<Rightarrow> unit dio" where
  "discard_dir p = sbind (sget (lexists p)) (\<lambda>there.
     if \<not> there then sret ()
     else if is_gone p then sthen (rmtree_real_dir p) fsync_dir
     else sbind (sget (dir_at p)) (\<lambda>d. if \<not> d then sraise OS_Error else discard_steps p))"

text \<open>The debris of \<open>.releases/\<close>, in the order of its names.\<close>

definition sweep_discarded :: "unit dio" where
  "sweep_discarded = sfor discard_dir [Gone Incoming, Gone Building, Gone Previous, Gone Superseded]"

text \<open>
  \<open>atomic_write_text\<close>: the temporary file is renamed over the name, which cannot be a
  directory; the sync that follows may fail on its own.
\<close>

definition atomic_write_text :: "place \<Rightarrow> string \<Rightarrow> unit dio" where
  "atomic_write_text p text s = (if rename_allowed (File text) (d_names s p)
     then sthen (whole_step (set_name p (Some (File text)))) fsync_dir s
     else sraise OS_Error s)"

definition mkdir_p_deploy :: "place \<Rightarrow> unit dio" where
  "mkdir_p_deploy p s = (case d_names s p of
     None \<Rightarrow> whole_step (set_name p (Some (Dir []))) s
   | Some (Dir _) \<Rightarrow> sret () s
   | _ \<Rightarrow> sraise OS_Error s)"

section \<open>Triples of the steps\<close>

text \<open>
  A condition that looks neither at the choices to come nor at debris, and debris
  that is as \<open>discard_dir\<close> leaves it.
\<close>

definition blind :: "(disk \<Rightarrow> bool) \<Rightarrow> bool" where
  "blind P \<longleftrightarrow> (\<forall>s ss. P (s\<lparr>d_steps := ss\<rparr>) = P s)"

definition plain :: "(disk \<Rightarrow> bool) \<Rightarrow> bool" where
  "plain P \<longleftrightarrow> blind P \<and> (\<forall>s p v. P (set_name (Gone p) v s) = P s)"

definition dir_or_none :: "node option \<Rightarrow> bool" where
  "dir_or_none v = (case v of None \<Rightarrow> True | Some n \<Rightarrow> is_dir n)"

definition tidy :: "disk \<Rightarrow> bool" where
  "tidy s \<longleftrightarrow> (\<forall>p. dir_or_none (d_names s (Gone p)))"

text \<open>
  With \<open>live\<close> no step fails any more, and a triple with these conditions says that
  the code ends well; without it, that \<open>E\<close> holds wherever it is cut off.
\<close>

definition runs :: "bool \<Rightarrow> (disk \<Rightarrow> bool) \<Rightarrow> disk \<Rightarrow> bool" where
  "runs live P s \<longleftrightarrow> P s \<and> tidy s \<and> (live \<longrightarrow> d_steps s = [])"

definition cut_off :: "bool \<Rightarrow> (disk \<Rightarrow> bool) \<Rightarrow> disk_error \<Rightarrow> disk \<Rightarrow> bool" where
  "cut_off live E e s \<longleftrightarrow> \<not> live \<and> E s \<and> tidy s"

lemma plainD: "plain P \<Longrightarrow> blind P" "plain P \<Longrightarrow> P (set_name (Gone p) v s) = P s"
  by (simp_all add: plain_def)

lemma blindD: "blind P \<Longrightarrow> P (s\<lparr>d_steps := ss\<rparr>) = P s"
  by (simp add: blind_def)

lemma tidy_steps [simp]: "tidy (s\<lparr>d_steps := ss\<rparr>) = tidy s"
  by (simp add: tidy_def)

lemma tidy_set_name: "tidy s \<Longrightarrow> is_gone p \<longrightarrow> dir_or_none v \<Longrightarrow> tidy (set_name p v s)"
  by (auto simp: tidy_def)

lemma triple_disk_step:
  assumes "\<And>s. P s \<Longrightarrow> tidy s \<Longrightarrow> Q (go s) \<and> tidy (go s)"
    and "\<And>s n. P s \<Longrightarrow> tidy s \<Longrightarrow> E (part n s) \<and> tidy (part n s)"
    and "\<And>s. d_steps (go s) = d_steps s" "blind P"
  shows "triple (runs live P) (disk_step go part) (\<lambda>_. runs live Q) (cut_off live E)"
proof (rule tripleI)
  fix s x t assume s: "runs live P s" and m: "disk_step go part s = (Inr x, t)"
  from s have P: "P (s\<lparr>d_steps := ss\<rparr>) \<and> tidy (s\<lparr>d_steps := ss\<rparr>)" for ss
    by (simp add: runs_def blindD [OF assms(4)])
  show "runs live Q t"
    using m s P [of "tl (d_steps s)"] P [of "[]"] assms(1,3)
    by (cases "d_steps s") (auto simp: disk_step_def runs_def split: outcome.splits)
next
  fix s e t assume s: "runs live P s" and m: "disk_step go part s = (Inl e, t)"
  from s have P: "P (s\<lparr>d_steps := ss\<rparr>) \<and> tidy (s\<lparr>d_steps := ss\<rparr>)" for ss
    by (simp add: runs_def blindD [OF assms(4)])
  show "cut_off live E e t"
    using m s P [of "tl (d_steps s)"] assms(2)
    by (cases "d_steps s") (auto simp: disk_step_def runs_def cut_off_def split: outcome.splits)
qed

lemma triple_fsync_dir:
  "blind P \<Longrightarrow> (\<And>s. P s \<Longrightarrow> E s) \<Longrightarrow> triple (runs live P) fsync_dir (\<lambda>_. runs live P) (cut_off live E)"
  unfolding fsync_dir_def whole_step_def by (rule triple_disk_step) auto

lemma triple_unfold:
  "(\<And>s. P s \<Longrightarrow> m s = m' s) \<Longrightarrow> triple P m' Q E \<Longrightarrow> triple P m Q E"
  by (auto simp: triple_def)

lemma triple_pointwise:
  assumes "\<And>s. P s \<Longrightarrow> triple (\<lambda>t. t = s) m Q E"
  shows "triple P m Q E"
  using assms by (auto simp: triple_def)

lemma triple_os_rename:
  assumes "\<And>s. P s \<Longrightarrow> \<exists>n. d_names s src = Some n \<and> rename_allowed n (d_names s dest)"
    and "\<And>s n. P s \<Longrightarrow> tidy s \<Longrightarrow> d_names s src = Some n \<Longrightarrow>
      Q (set_name src None (set_name dest (Some n) s)) \<and> tidy (set_name src None (set_name dest (Some n) s))"
    and "\<And>s. P s \<Longrightarrow> E s" "blind P"
  shows "triple (runs live P) (os_rename src dest) (\<lambda>_. runs live Q) (cut_off live E)"
proof -
  have "triple (runs live P) (\<lambda>s. whole_step (\<lambda>t. set_name src None (set_name dest (d_names t src) t)) s)
      (\<lambda>_. runs live Q) (cut_off live E)"
    unfolding whole_step_def
  proof (rule triple_disk_step)
    fix s assume s: "P s" "tidy s"
    then obtain n where "d_names s src = Some n" using assms(1) by blast
    with assms(2) s show "Q (set_name src None (set_name dest (d_names s src) s))
        \<and> tidy (set_name src None (set_name dest (d_names s src) s))" by simp
  qed (use assms in auto)
  moreover have "os_rename src dest s = whole_step (\<lambda>t. set_name src None (set_name dest (d_names t src) t)) s"
    if r: "runs live P s" for s
  proof -
    obtain n where n: "d_names s src = Some n" "rename_allowed n (d_names s dest)"
      using assms(1) [of s] r by (auto simp: runs_def)
    then show ?thesis
      by (simp add: os_rename_def whole_step_def disk_step_def split: list.splits outcome.splits)
  qed
  ultimately show ?thesis using triple_unfold by blast
qed

lemma tidy_gone: "tidy s \<Longrightarrow> lexists (Gone p) s \<Longrightarrow> \<exists>es. d_names s (Gone p) = Some (Dir es)"
  unfolding tidy_def lexists_def dir_or_none_def is_dir_def
  by (drule spec [of _ p]) (auto split: option.splits node.splits)

lemma triple_rmtree_gone:
  assumes "plain Q"
  shows "triple (runs live (\<lambda>s. Q s \<and> lexists (Gone p) s)) (rmtree_real_dir (Gone p))
    (\<lambda>_. runs live (\<lambda>s. Q s \<and> d_names s (Gone p) = None)) (cut_off live Q)"
    (is "triple (runs live ?P) _ (\<lambda>_. runs live ?R) _")
proof -
  define left where "left n s = (case d_names s (Gone p) of Some (Dir es) \<Rightarrow> Dir (drop n es) | _ \<Rightarrow> Dir [])" for n and s :: disk
  let ?m = "disk_step (set_name (Gone p) None) (\<lambda>n s. set_name (Gone p) (Some (left n s)) s)"
  have "triple (runs live ?P) ?m (\<lambda>_. runs live ?R) (cut_off live Q)"
    by (rule triple_disk_step)
      (auto simp: left_def blind_def lexists_def plainD(2) [OF assms] blindD [OF plainD(1) [OF assms]]
        dir_or_none_def intro!: tidy_set_name split: option.splits node.splits)
  moreover have "rmtree_real_dir (Gone p) s = ?m s" if s: "runs live ?P s" for s
  proof -
    obtain es where "d_names s (Gone p) = Some (Dir es)" using s tidy_gone by (auto simp: runs_def)
    then show ?thesis
      by (simp add: rmtree_real_dir_def disk_step_def left_def split: list.splits outcome.splits)
  qed
  ultimately show ?thesis using triple_unfold by blast
qed

lemma blind_names: "blind (\<lambda>s. R (d_names s))"
  by (simp add: blind_def)

lemma blind_conj: "blind P \<Longrightarrow> blind Q \<Longrightarrow> blind (\<lambda>s. P s \<and> Q s)"
  by (simp add: blind_def)

lemma blind_lexists [simp]: "blind (lexists p)" "blind (dir_at p)" "blind (\<lambda>s. \<not> lexists p s)"
    "blind (\<lambda>s. \<not> dir_at p s)"
  by (simp_all add: blind_def lexists_def dir_at_def)

lemma triple_discard_steps:
  assumes "\<not> is_gone p" "plain P" "plain Q"
    and post: "\<And>s. P s \<Longrightarrow> dir_at p s \<Longrightarrow> Q (set_name p None s)"
    and "\<And>s. P s \<Longrightarrow> E s" "\<And>s. Q s \<Longrightarrow> E s"
  shows "triple (runs live (\<lambda>s. P s \<and> dir_at p s)) (discard_steps p) (\<lambda>_. runs live Q) (cut_off live E)"
proof -
  let ?A = "\<lambda>s. P s \<and> dir_at p s"
  let ?N = "\<lambda>s. ?A s \<and> d_names s (Gone p) = None"
  let ?L = "\<lambda>s. Q s \<and> lexists (Gone p) s"
  have plain: "plain ?A" using assms(1,2)
    by (cases p) (auto simp: plain_def blind_def dir_at_def)
  have cut: "cut_off live ?A e s \<Longrightarrow> cut_off live E e s" "cut_off live Q e s \<Longrightarrow> cut_off live E e s" for e s
    using assms(5,6) by (auto simp: cut_off_def)
  have debris: "triple (\<lambda>s. runs live ?A s \<and> x = lexists (Gone p) s)
      (swhen x (rmtree_real_dir (Gone p))) (\<lambda>_. runs live ?N) (cut_off live E)" for x
    by (rule triple_when; (rule triple_post [OF triple_pre [OF triple_rmtree_gone [OF plain]]])?)
      (auto simp: runs_def lexists_def cut)
  have rename: "triple (runs live ?N) (os_rename p (Gone p)) (\<lambda>_. runs live ?L) (cut_off live E)"
  proof (rule triple_os_rename)
    fix s assume s: "?N s"
    then show "\<exists>n. d_names s p = Some n \<and> rename_allowed n (d_names s (Gone p))"
      by (auto simp: dir_at_def rename_allowed_def split: option.splits)
    show "E s" using s assms(5) by simp
  next
    fix s n assume s: "?N s" "tidy s" "d_names s p = Some n"
    let ?t = "set_name p None (set_name (Gone p) (Some n) s)"
    have swap: "?t = set_name (Gone p) (Some n) (set_name p None s)"
      using assms(1) by (cases p) (auto simp: set_name_def fun_upd_twist)
    have "is_dir n" using s by (auto simp: dir_at_def split: node.splits)
    then show "(Q ?t \<and> lexists (Gone p) ?t) \<and> tidy ?t"
      using s post [of s] plainD(2) [OF assms(3)] assms(1)
      by (auto simp: swap lexists_def dir_or_none_def intro!: tidy_set_name)
  next
    show "blind ?N" using assms(2) by (simp add: plain_def blind_def dir_at_def)
  qed
  have blind: "blind ?L" "blind Q" using assms(3) by (simp_all add: plain_def blind_def lexists_def)
  have sync: "triple (runs live ?L) fsync_dir (\<lambda>_. runs live ?L) (cut_off live E)"
    "triple (runs live Q) fsync_dir (\<lambda>_. runs live Q) (cut_off live E)"
    by (rule triple_fsync_dir; use assms(6) blind in auto)+
  have remove: "triple (runs live ?L) (rmtree_real_dir (Gone p)) (\<lambda>_. runs live Q) (cut_off live E)"
    by (rule triple_post [OF triple_rmtree_gone [OF assms(3)]]) (auto simp: runs_def cut)
  show ?thesis unfolding discard_steps_def
    by (rule triple_bind [where R = "\<lambda>x s. runs live ?A s \<and> x = lexists (Gone p) s"])
      (auto intro!: triple_get triple_then [OF debris] triple_then [OF rename] triple_then [OF sync(1)]
        triple_then [OF remove] sync(2))
qed

lemma dir_at_there: "dir_or_none (d_names s p) \<Longrightarrow> lexists p s \<Longrightarrow> dir_at p s"
  by (auto simp: lexists_def dir_at_def dir_or_none_def split: node.splits)

lemma triple_discard_dir:
  assumes "\<not> is_gone p" "plain P" "plain Q"
    and "\<And>s. P s \<Longrightarrow> dir_or_none (d_names s p)"
    and post: "\<And>s. P s \<Longrightarrow> dir_at p s \<Longrightarrow> Q (set_name p None s)" "\<And>s. P s \<Longrightarrow> \<not> lexists p s \<Longrightarrow> Q s"
    and "\<And>s. P s \<Longrightarrow> E s" "\<And>s. Q s \<Longrightarrow> E s"
  shows "triple (runs live P) (discard_dir p) (\<lambda>_. runs live Q) (cut_off live E)"
proof -
  have dir: "dir_at p s" if "P s" "lexists p s" for s
    using assms(4) [OF that(1)] that(2) by (rule dir_at_there)
  show ?thesis unfolding discard_dir_def
  proof (rule triple_bind [where R = "\<lambda>x s. runs live P s \<and> x = lexists p s"])
    show "triple (runs live P) (sget (lexists p)) (\<lambda>x s. runs live P s \<and> x = lexists p s) (cut_off live E)"
      by (rule triple_get) simp
  next
    fix x
    show "triple (\<lambda>s. runs live P s \<and> x = lexists p s)
        (if \<not> x then sret () else if is_gone p then sthen (rmtree_real_dir p) fsync_dir
         else sbind (sget (dir_at p)) (\<lambda>d. if \<not> d then sraise OS_Error else discard_steps p))
        (\<lambda>_. runs live Q) (cut_off live E)"
    proof (cases x)
      case False
      then show ?thesis using post(2) by (auto simp: runs_def intro!: triple_ret)
    next
      case True
      have "triple (\<lambda>s. runs live P s \<and> lexists p s)
          (sbind (sget (dir_at p)) (\<lambda>d. if \<not> d then sraise OS_Error else discard_steps p))
          (\<lambda>_. runs live Q) (cut_off live E)"
      proof (rule triple_bind [where R = "\<lambda>d s. d \<and> runs live (\<lambda>s. P s \<and> dir_at p s) s"])
        show "triple (\<lambda>s. runs live P s \<and> lexists p s) (sget (dir_at p))
            (\<lambda>d s. d \<and> runs live (\<lambda>s. P s \<and> dir_at p s) s) (cut_off live E)"
          using dir by (auto simp: runs_def intro!: triple_get)
      next
        fix d
        show "triple (\<lambda>s. d \<and> runs live (\<lambda>s. P s \<and> dir_at p s) s)
            (if \<not> d then sraise OS_Error else discard_steps p) (\<lambda>_. runs live Q) (cut_off live E)"
          using triple_discard_steps [OF assms(1-3) post(1) assms(7,8), where live = live]
          by (cases d) (auto simp: triple_def)
      qed
      with True assms(1) show ?thesis by simp
    qed
  qed
qed

section \<open>Triples of the file operations\<close>

lemma triple_whole_step:
  assumes "\<And>s. P s \<Longrightarrow> Q (go s)" "\<And>s. P s \<Longrightarrow> E s" "\<And>s. P s \<Longrightarrow> tidy s \<Longrightarrow> tidy (go s)"
    "\<And>s. d_steps (go s) = d_steps s" "blind P"
  shows "triple (runs live P) (whole_step go) (\<lambda>_. runs live Q) (cut_off live E)"
  unfolding whole_step_def by (rule triple_disk_step) (use assms in auto)

lemma triple_rename:
  assumes "\<not> is_gone src" "\<not> is_gone dest" "blind P" "blind Q"
    and "\<And>s. P s \<Longrightarrow> \<exists>n. d_names s src = Some n \<and> rename_allowed n (d_names s dest)"
    and "\<And>s n. P s \<Longrightarrow> d_names s src = Some n \<Longrightarrow> Q (set_name src None (set_name dest (Some n) s))"
    and "\<And>s. P s \<Longrightarrow> E s" "\<And>s. Q s \<Longrightarrow> E s"
  shows "triple (runs live P) (sthen (os_rename src dest) fsync_dir) (\<lambda>_. runs live Q) (cut_off live E)"
  by (rule triple_then [OF triple_os_rename triple_fsync_dir])
    (use assms in \<open>auto intro!: tidy_set_name\<close>)

lemma triple_durable_rename_dir:
  assumes "\<not> is_gone src" "\<not> is_gone dest" "blind P" "blind Q"
    and there: "\<And>s. P s \<Longrightarrow> lexists src s \<and> \<not> lexists dest s"
    and "\<And>s n. P s \<Longrightarrow> d_names s src = Some n \<Longrightarrow> Q (set_name src None (set_name dest (Some n) s))"
    and "\<And>s. P s \<Longrightarrow> E s" "\<And>s. Q s \<Longrightarrow> E s"
  shows "triple (runs live P) (durable_rename_dir src dest) (\<lambda>_. runs live Q) (cut_off live E)"
proof -
  have "\<exists>n. d_names s src = Some n \<and> rename_allowed n (d_names s dest)" if "P s" for s
    using there [OF that] by (auto simp: lexists_def rename_allowed_def)
  then have "triple (runs live P) (sthen (os_rename src dest) fsync_dir) (\<lambda>_. runs live Q) (cut_off live E)"
    by (intro triple_rename) (use assms in auto)
  moreover have "durable_rename_dir src dest s = sthen (os_rename src dest) fsync_dir s"
    if "runs live P s" for s
    using there [of s] that by (simp add: durable_rename_dir_def runs_def sbind_def)
  ultimately show ?thesis using triple_unfold by blast
qed

lemma triple_durable_rename:
  assumes "\<not> is_gone src" "\<not> is_gone dest" "blind P" "blind Q"
    and reg: "\<And>s. P s \<Longrightarrow> \<exists>t. d_names s src = Some (File t)" "\<And>s. P s \<Longrightarrow> \<not> dir_at dest s"
    and "\<And>s t. P s \<Longrightarrow> d_names s src = Some (File t) \<Longrightarrow> Q (set_name src None (set_name dest (Some (File t)) s))"
    and "\<And>s. P s \<Longrightarrow> E s" "\<And>s. Q s \<Longrightarrow> E s"
  shows "triple (runs live P) (durable_rename src dest) (\<lambda>_. runs live Q) (cut_off live E)"
proof -
  have allowed: "\<exists>n. d_names s src = Some n \<and> rename_allowed n (d_names s dest)" if "P s" for s
    using reg [OF that] by (auto simp: rename_allowed_def dir_at_def split: option.splits node.splits)
  have post: "Q (set_name src None (set_name dest (Some n) s))" if "P s" "d_names s src = Some n" for s n
    using reg(1) [OF that(1)] assms(7) that by fastforce
  have "triple (runs live P) (sthen (whole_step (\<lambda>s. s)) (sthen (os_rename src dest) fsync_dir))
      (\<lambda>_. runs live Q) (cut_off live E)"
    by (rule triple_then [where R = "runs live P", OF triple_whole_step triple_rename])
      (use assms(1-4,8,9) allowed post in auto)
  moreover have "durable_rename src dest s = sthen (whole_step (\<lambda>s. s)) (sthen (os_rename src dest) fsync_dir) s"
    if "runs live P s" for s
    using reg(1) [of s] that by (auto simp: durable_rename_def runs_def sbind_def)
  ultimately show ?thesis using triple_unfold by blast
qed

lemma triple_atomic_write_text:
  assumes "\<not> is_gone p" "blind P" "blind Q"
    and nodir: "\<And>s. P s \<Longrightarrow> \<not> dir_at p s"
    and "\<And>s. P s \<Longrightarrow> Q (set_name p (Some (File text)) s)"
    and "\<And>s. P s \<Longrightarrow> E s" "\<And>s. Q s \<Longrightarrow> E s"
  shows "triple (runs live P) (atomic_write_text p text) (\<lambda>_. runs live Q) (cut_off live E)"
proof -
  have "triple (runs live P) (sthen (whole_step (set_name p (Some (File text)))) fsync_dir)
      (\<lambda>_. runs live Q) (cut_off live E)"
    by (rule triple_then [OF triple_whole_step triple_fsync_dir])
      (use assms in \<open>auto intro!: tidy_set_name\<close>)
  moreover have "atomic_write_text p text s = sthen (whole_step (set_name p (Some (File text)))) fsync_dir s"
    if "runs live P s" for s
    using nodir [of s] that
    by (auto simp: atomic_write_text_def rename_allowed_def runs_def dir_at_def split: option.splits node.splits)
  ultimately show ?thesis using triple_unfold by blast
qed

lemma triple_unlink:
  assumes "\<not> is_gone p" "blind P"
    and there: "\<And>s. P s \<Longrightarrow> lexists p s \<and> \<not> dir_at p s"
    and "\<And>s. P s \<Longrightarrow> Q (set_name p None s)" "\<And>s. P s \<Longrightarrow> E s"
  shows "triple (runs live P) (unlink p) (\<lambda>_. runs live Q) (cut_off live E)"
proof -
  have "triple (runs live P) (whole_step (set_name p None)) (\<lambda>_. runs live Q) (cut_off live E)"
    by (rule triple_whole_step) (use assms in \<open>auto intro!: tidy_set_name\<close>)
  moreover have "unlink p s = whole_step (set_name p None) s" if "runs live P s" for s
    using there [of s] that
    by (auto simp: unlink_def runs_def lexists_def dir_at_def is_dir_def split: node.splits)
  ultimately show ?thesis using triple_unfold by blast
qed

lemma triple_mkdir:
  assumes "\<not> is_gone p" "blind P" "\<And>s. P s \<Longrightarrow> dir_or_none (d_names s p)"
    and "\<And>s. P s \<Longrightarrow> \<not> lexists p s \<Longrightarrow> Q (set_name p (Some (Dir [])) s)" "\<And>s. P s \<Longrightarrow> dir_at p s \<Longrightarrow> Q s"
    and "\<And>s. P s \<Longrightarrow> E s"
  shows "triple (runs live P) (mkdir_p_deploy p) (\<lambda>_. runs live Q) (cut_off live E)"
proof (rule triple_cases [where b = "lexists p"])
  show "triple (\<lambda>s. runs live P s \<and> lexists p s) (sret ()) (\<lambda>_. runs live Q) (cut_off live E)"
    using assms(3,5) dir_at_there by (auto simp: runs_def intro!: triple_ret)
  have "triple (runs live (\<lambda>s. P s \<and> \<not> lexists p s)) (whole_step (set_name p (Some (Dir []))))
      (\<lambda>_. runs live Q) (cut_off live E)"
    by (rule triple_whole_step) (use assms in \<open>auto intro!: tidy_set_name blind_conj\<close>)
  then show "triple (\<lambda>s. runs live P s \<and> \<not> lexists p s) (whole_step (set_name p (Some (Dir []))))
      (\<lambda>_. runs live Q) (cut_off live E)"
    by (simp add: triple_def runs_def)
  show "mkdir_p_deploy p s = sret () s" if "runs live P s" "lexists p s" for s
    using assms(3) [of s] that
    by (auto simp: mkdir_p_deploy_def runs_def lexists_def dir_or_none_def is_dir_def split: node.splits)
  show "mkdir_p_deploy p s = whole_step (set_name p (Some (Dir []))) s" if "runs live P s" "\<not> lexists p s" for s
    using that by (simp add: mkdir_p_deploy_def lexists_def)
qed

section \<open>What the file operations leave as it is\<close>

lemma skeeps_disk_step [skeeps_rules]:
  assumes "\<And>s. g (go s) = g s" "\<And>n s. g (part n s) = g s" "\<And>s ss. g (s\<lparr>d_steps := ss\<rparr>) = g s"
  shows "skeeps g (disk_step go part)"
  using assms by (auto simp: skeeps_def disk_step_def split: list.split outcome.split)

lemma skeeps_whole_step [skeeps_rules]:
  assumes "\<And>s. g (go s) = g s" "\<And>s ss. g (s\<lparr>d_steps := ss\<rparr>) = g s"
  shows "skeeps g (whole_step go)"
  unfolding whole_step_def by (rule skeeps_disk_step) (simp_all add: assms)

text \<open>A view of the disk that looks at none of the names in \<open>A\<close> and at no choice.\<close>

definition off_at :: "place set \<Rightarrow> (disk \<Rightarrow> 'v) \<Rightarrow> bool" where
  "off_at A g \<longleftrightarrow> (\<forall>s p v. p \<in> A \<longrightarrow> g (set_name p v s) = g s) \<and> (\<forall>s ss. g (s\<lparr>d_steps := ss\<rparr>) = g s)"

lemma skeeps_at_names:
  assumes "off_at A g"
  shows "skeeps g fsync_dir" "a \<in> A \<Longrightarrow> b \<in> A \<Longrightarrow> skeeps g (os_rename a b)" "p \<in> A \<Longrightarrow> skeeps g (unlink p)"
    "p \<in> A \<Longrightarrow> skeeps g (rmtree_real_dir p)" "p \<in> A \<Longrightarrow> skeeps g (atomic_write_text p t)"
    "p \<in> A \<Longrightarrow> skeeps g (mkdir_p_deploy p)"
proof -
  have g: "p \<in> A \<Longrightarrow> g (set_name p v s) = g s" "g (s\<lparr>d_steps := ss\<rparr>) = g s" for p v s ss
    using assms by (simp_all add: off_at_def)
  have step: "skeeps g (whole_step (\<lambda>s. s))" "p \<in> A \<Longrightarrow> skeeps g (whole_step (set_name p v))"
    "p \<in> A \<Longrightarrow> q \<in> A \<Longrightarrow> skeeps g (whole_step (\<lambda>t. set_name p v (set_name q w t)))" for p v q w
    by (rule skeeps_whole_step; simp add: g)+
  show sync: "skeeps g fsync_dir" unfolding fsync_dir_def by (rule step)
  show "skeeps g (os_rename a b)" if "a \<in> A" "b \<in> A"
    by (rule skeepsI) (simp add: os_rename_def step(3) [unfolded skeeps_def] that split: option.split)
  show "skeeps g (unlink p)" "skeeps g (mkdir_p_deploy p)" if "p \<in> A"
    by (rule skeepsI, simp add: unlink_def mkdir_p_deploy_def step(2) [unfolded skeeps_def] that
        split: option.split node.split)+
  show "skeeps g (rmtree_real_dir p)" if p: "p \<in> A"
  proof -
    have "skeeps g (disk_step (set_name p None) (\<lambda>n. set_name p (Some (Dir (drop n es)))))" for es
      by (rule skeeps_disk_step) (simp_all add: g p)
    then show ?thesis
      by (intro skeepsI) (simp add: rmtree_real_dir_def skeeps_def split: option.split node.split)
  qed
  show "skeeps g (atomic_write_text p t)" if p: "p \<in> A"
  proof -
    have "skeeps g (sthen (whole_step (set_name p (Some (File t)))) fsync_dir)"
      by (intro skeeps_then step sync p)
    then show ?thesis by (intro skeepsI) (simp add: atomic_write_text_def skeeps_def)
  qed
qed

lemma skeeps_at_dirs:
  assumes "off_at A g"
  shows "a \<in> A \<Longrightarrow> b \<in> A \<Longrightarrow> skeeps g (durable_rename_dir a b)"
    "a \<in> A \<Longrightarrow> b \<in> A \<Longrightarrow> skeeps g (durable_rename a b)"
    "p \<in> A \<Longrightarrow> Gone p \<in> A \<Longrightarrow> skeeps g (discard_dir p)"
proof -
  have id: "skeeps g (whole_step (\<lambda>s. s))"
    using assms by (intro skeeps_whole_step) (simp_all add: off_at_def)
  note ops = skeeps_at_names [OF assms]
  show "skeeps g (durable_rename_dir a b)" if "a \<in> A" "b \<in> A" unfolding durable_rename_dir_def
    by (intro skeeps_rules ops that)
  show "skeeps g (durable_rename a b)" if "a \<in> A" "b \<in> A" unfolding durable_rename_def
    by (rule skeeps_bind [OF skeeps_basic(3)])
      (simp add: skeeps_basic skeeps_then id ops that split: option.split node.split)
  show "skeeps g (discard_dir p)" if "p \<in> A" "Gone p \<in> A" for p unfolding discard_dir_def discard_steps_def
    by (intro skeeps_rules ops that)
qed

text \<open>A view that looks at no name of \<open>.releases/\<close>.\<close>

definition off_names :: "(disk \<Rightarrow> 'v) \<Rightarrow> bool" where
  "off_names g \<longleftrightarrow> off_at UNIV g"

lemma off_namesI: "(\<And>s p v. g (set_name p v s) = g s) \<Longrightarrow> (\<And>s ss. g (s\<lparr>d_steps := ss\<rparr>) = g s) \<Longrightarrow> off_names g"
  by (simp add: off_names_def off_at_def)

lemma skeeps_names [skeeps_rules]:
  assumes "off_names g"
  shows "skeeps g fsync_dir" "skeeps g (os_rename a b)" "skeeps g (unlink p)" "skeeps g (rmtree_real_dir p)"
    "skeeps g (atomic_write_text p t)" "skeeps g (mkdir_p_deploy p)"
  by (rule skeeps_at_names [OF assms [unfolded off_names_def]] UNIV_I)+

lemma skeeps_names_dirs [skeeps_rules]:
  assumes "off_names g"
  shows "skeeps g (durable_rename_dir a b)" "skeeps g (durable_rename a b)" "skeeps g (discard_dir p)"
    "skeeps g sweep_discarded"
proof -
  note ops = skeeps_at_dirs [OF assms [unfolded off_names_def], OF UNIV_I UNIV_I]
  show "skeeps g (durable_rename_dir a b)" "skeeps g (durable_rename a b)" "skeeps g (discard_dir p)"
    by (rule ops)+
  show "skeeps g sweep_discarded" unfolding sweep_discarded_def
    by (rule skeeps_for) (rule ops(3))
qed

end
