(* ===== verification/Compose_Mounts.thy ===== *)
theory Compose_Mounts
  imports Posix_Path "HOL-Library.Sublist"
begin

text \<open>
  \<^verbatim>\<open>src/boxmunge/compose_mounts.py\<close>: the rules for the volumes of a user's compose
  file.  The host's links (\<open>os.path.realpath\<close>) and home directories
  (\<open>os.path.expanduser\<close>) are given; an advice is a value instead of its text.
\<close>

section \<open>Entries\<close>

record host_fs =
  h_realpath :: "string \<Rightarrow> string"
  h_expanduser :: "string \<Rightarrow> string"

text \<open>The boxmunge root and its \<open>projects/\<close>, of \<open>BoxPaths\<close>.\<close>

record box_paths =
  bp_root :: string
  bp_projects :: string

definition system_denied_paths :: "string list" where
  "system_denied_paths =
     [''/var/run/docker.sock'', ''/run/docker.sock'', ''/var/run/containerd'', ''/run/containerd'',
      ''/var/lib/docker'', ''/var/lib/containerd'', ''/proc'', ''/sys'', ''/dev'', ''/etc'', ''/boot'',
      ''/root'', ''/home'', ''/usr'', ''/bin'', ''/sbin'', ''/lib'', ''/lib64'']"

definition mount_types :: "string list" where
  "mount_types = [''bind'', ''volume'', ''tmpfs'', ''image'']"

definition smoke_source :: string where "smoke_source = ''./boxmunge-scripts''"

definition is_path_like :: "string \<Rightarrow> bool" where
  "is_path_like src \<longleftrightarrow> starts_with ''.'' src \<or> starts_with ''/'' src \<or> starts_with ''~'' src"

text \<open>\<open>entry.split(":", 1)[0]\<close>.\<close>

definition before_colon :: "string \<Rightarrow> string" where
  "before_colon s = takeWhile (\<lambda>c. c \<noteq> CHR 0x3A) s"

fun volume_source :: "pyval \<Rightarrow> string option" where
  "volume_source (PStr s) = (if CHR 0x3A \<in> set s then Some (before_colon s) else None)"
| "volume_source (PDict d) =
     (if dget d ''type'' = Some (PStr ''bind'') then
        (case dget d ''source'' of Some (PStr s) \<Rightarrow> Some s | _ \<Rightarrow> None)
      else None)"
| "volume_source _ = None"

fun is_bind_entry :: "pyval \<Rightarrow> bool" where
  "is_bind_entry (PDict d) \<longleftrightarrow> dget d ''type'' = Some (PStr ''bind'')"
| "is_bind_entry v \<longleftrightarrow> (case volume_source v of Some s \<Rightarrow> is_path_like s | None \<Rightarrow> False)"

text \<open>\<open>\w\<close> of Python's \<open>re\<close> up to U+00FF.\<close>

definition is_word_char :: "char \<Rightarrow> bool" where
  "is_word_char c \<longleftrightarrow> is_lower_az c \<or> is_upper_az c \<or> is_digit c \<or> c = CHR 0x5F
     \<or> code c \<in> {170, 178, 179, 181, 185, 186, 188, 189, 190}
     \<or> 192 \<le> code c \<and> code c \<noteq> 215 \<and> code c \<noteq> 247"

fun has_env_substitution :: "string \<Rightarrow> bool" where
  "has_env_substitution (c # d # s) =
     (c = CHR 0x24 \<and> (is_word_char d \<or> d = CHR 0x7B) \<or> has_env_substitution (d # s))"
| "has_env_substitution _ = False"

section \<open>Host paths\<close>

definition normalise :: "string \<Rightarrow> string" where
  "normalise p = (let n = normpath p in
     if starts_with [slash, slash] n then slash # dropWhile (\<lambda>c. c = slash) n else n)"

definition host_path_forms :: "host_fs \<Rightarrow> string \<Rightarrow> string \<Rightarrow> string \<times> string" where
  "host_path_forms h src base =
     (let expanded = (if starts_with ''~'' src then h_expanduser h src
            else if starts_with [slash] src then src else path_join base src);
          n = normalise expanded
      in (n, normalise (h_realpath h n)))"

definition inside :: "string \<Rightarrow> string \<Rightarrow> bool" where
  "inside path rt \<longleftrightarrow> rt = [slash] \<or> path = rt \<or> starts_with (rt @ [slash]) path"

definition both_spellings :: "host_fs \<Rightarrow> string \<Rightarrow> string list" where
  "both_spellings h p = remdups [normalise p, normalise (h_realpath h p)]"

text \<open>Form to denied path; a form two of them share names the later one.\<close>

definition system_forms :: "host_fs \<Rightarrow> (string \<times> string) list" where
  "system_forms h = foldl (\<lambda>d (form, raw). dset d form raw) []
     (concat (map (\<lambda>raw. map (\<lambda>form. (form, raw)) (both_spellings h raw)) system_denied_paths))"

definition denied_candidate :: "host_fs \<Rightarrow> box_paths \<Rightarrow> string \<Rightarrow> string option" where
  "denied_candidate h bp cand =
     (case List.find (\<lambda>(form, raw). inside cand form \<or> inside form cand) (system_forms h) of
        Some (_, raw) \<Rightarrow> Some raw
      | None \<Rightarrow>
          if list_ex (\<lambda>rt. inside rt cand
               \<or> inside cand rt \<and> \<not> list_ex (\<lambda>p. starts_with (p @ [slash]) cand)
                    (both_spellings h (bp_projects bp))) (both_spellings h (bp_root bp))
          then Some (bp_root bp) else None)"

fun first_some :: "('a \<Rightarrow> 'b option) \<Rightarrow> 'a list \<Rightarrow> 'b option" where
  "first_some f [] = None"
| "first_some f (x # xs) = (case f x of None \<Rightarrow> first_some f xs | r \<Rightarrow> r)"

definition denied_host_path :: "host_fs \<Rightarrow> box_paths \<Rightarrow> string \<Rightarrow> string \<Rightarrow> string option" where
  "denied_host_path h bp src base = (case host_path_forms h src base of (n, r) \<Rightarrow>
     first_some (denied_candidate h bp) (sort (remdups [n, r])))"

definition outside_roots :: "host_fs \<Rightarrow> string \<Rightarrow> string \<Rightarrow> string list \<Rightarrow> bool" where
  "outside_roots h src base roots = (case host_path_forms h src base of (n, r) \<Rightarrow>
     \<not> list_all (\<lambda>cand. list_ex (inside cand) (concat (map (both_spellings h) roots))) [n, r])"

section \<open>The check of a service\<close>

datatype volume_advice =
    Unchecked_Type pyval
  | Env_Substitution
  | Denied_Path string string
  | Outside_Project string

record volume_hit =
  vh_entry :: pyval
  vh_advice :: volume_advice
  vh_relaxable :: bool

definition check_source :: "host_fs \<Rightarrow> box_paths \<Rightarrow> string \<Rightarrow> string list \<Rightarrow> pyval \<Rightarrow> volume_hit list" where
  "check_source h bp base roots entry = (case volume_source entry of
     None \<Rightarrow> []
   | Some src \<Rightarrow>
       if has_env_substitution src then
         [\<lparr> vh_entry = entry, vh_advice = Env_Substitution, vh_relaxable = True \<rparr>]
       else if \<not> is_bind_entry entry then []
       else (case denied_host_path h bp src base of
           Some d \<Rightarrow> [\<lparr> vh_entry = entry, vh_advice = Denied_Path (fst (host_path_forms h src base)) d,
                        vh_relaxable = False \<rparr>]
         | None \<Rightarrow> if outside_roots h src base roots then
             [\<lparr> vh_entry = entry, vh_advice = Outside_Project (fst (host_path_forms h src base)),
                vh_relaxable = False \<rparr>] else []))"

definition check_volume :: "host_fs \<Rightarrow> box_paths \<Rightarrow> string \<Rightarrow> string list \<Rightarrow> pyval
    \<Rightarrow> py_exc + volume_hit list" where
  "check_volume h bp base roots entry = (case entry of
     PDict d \<Rightarrow>
       (let t = dget_or d ''type'' PNone in
        if \<not> py_hashable t then Inl TypeError
        else if t \<notin> PStr ` set mount_types then
          Inr [\<lparr> vh_entry = entry, vh_advice = Unchecked_Type t, vh_relaxable = True \<rparr>]
        else Inr (check_source h bp base roots entry))
   | _ \<Rightarrow> Inr (check_source h bp base roots entry))"

definition check_volumes :: "host_fs \<Rightarrow> box_paths \<Rightarrow> pydict \<Rightarrow> string \<Rightarrow> string list
    \<Rightarrow> py_exc + volume_hit list" where
  "check_volumes h bp svc base roots = (case dget svc ''volumes'' of
     Some (PList es) \<Rightarrow> rbind (rmap (check_volume h bp base roots) es) (\<lambda>hs. Inr (concat hs))
   | _ \<Rightarrow> Inr [])"

definition writable_volume :: "pyval \<Rightarrow> bool" where
  "writable_volume entry = (case entry of
     PStr s \<Rightarrow> CHR 0x3A \<notin> set s \<or> before_colon s \<noteq> smoke_source \<and> \<not> is_path_like (before_colon s)
   | PDict d \<Rightarrow> dget_or d ''type'' (PStr ''volume'') = PStr ''volume''
   | _ \<Rightarrow> False)"

definition has_named_volume :: "pyval \<Rightarrow> bool" where
  "has_named_volume volumes = (case volumes of PList es \<Rightarrow> list_ex writable_volume es | _ \<Rightarrow> False)"

section \<open>What is inside what\<close>

lemma starts_with_prefix: "starts_with p s \<longleftrightarrow> prefix p s"
  by (auto simp: starts_with_iff prefix_def)

text \<open>An absolute path written from its components.\<close>

definition abs_path :: "string list \<Rightarrow> string" where
  "abs_path cs = slash # join [slash] cs"

lemma join_prefix:
  assumes "\<forall>x\<in>set xs. component x" "\<forall>y\<in>set ys. component y" "xs \<noteq> []"
  shows "prefix (join [slash] xs @ [slash]) (join [slash] ys @ [slash]) \<longleftrightarrow> prefix xs ys"
  using assms
proof (induction xs arbitrary: ys)
  case (Cons x xs)
  have head: "join [slash] (z # zs) @ [slash] = z @ [slash] @ (if zs = [] then [] else join [slash] zs @ [slash])" for z zs
    by (cases zs) auto
  have x: "slash \<notin> set x" "x \<noteq> []" using Cons.prems by (auto simp: component_def)
  show ?case
  proof (cases ys)
    case Nil
    obtain c cs where "x = c # cs" "c \<noteq> slash" using x by (cases x) auto
    then show ?thesis using Nil by (simp add: head)
  next
    case (Cons y ys')
    have y: "slash \<notin> set y" using Cons.prems Cons by (auto simp: component_def)
    have same: "prefix (x @ slash # s) (y @ slash # t) \<longleftrightarrow> x = y \<and> prefix s t" for s t
    proof
      assume "prefix (x @ slash # s) (y @ slash # t)"
      then obtain u where u: "y @ slash # t = x @ slash # s @ u" by (auto simp: prefix_def)
      then have "takeWhile (\<lambda>c. c \<noteq> slash) (y @ slash # t) = takeWhile (\<lambda>c. c \<noteq> slash) (x @ slash # s @ u)" by simp
      moreover have "takeWhile (\<lambda>c. c \<noteq> slash) y = y" "takeWhile (\<lambda>c. c \<noteq> slash) x = x"
        using x(1) y by (auto simp: takeWhile_eq_all_conv)
      ultimately have "y = x" by (simp add: takeWhile_tail)
      with u show "x = y \<and> prefix s t" by auto
    qed auto
    show ?thesis
    proof (cases xs)
      case Nil
      then show ?thesis using same [of "[]"] Cons by (simp add: head)
    next
      case (Cons x' xs')
      then have IH: "prefix (join [slash] xs @ [slash]) (join [slash] ys' @ [slash]) \<longleftrightarrow> prefix xs ys'"
        using Cons.IH [of ys'] Cons.prems \<open>ys = y # ys'\<close> by auto
      show ?thesis
      proof (cases "ys' = []")
        case True
        then show ?thesis using \<open>ys = y # ys'\<close> Cons same [of "join [slash] xs @ [slash]" "[]"]
          by (simp add: head)
      next
        case False
        then show ?thesis using \<open>ys = y # ys'\<close> Cons same [of "join [slash] xs @ [slash]" "join [slash] ys' @ [slash]"] IH
          by (simp add: head)
      qed
    qed
  qed
qed simp

lemma join_nonempty: "xs \<noteq> [] \<Longrightarrow> \<forall>x\<in>set xs. component x \<Longrightarrow> join [slash] xs \<noteq> []"
  by (cases xs rule: list.exhaust; cases "tl xs") (auto simp: component_def)

lemma inside_abs:
  assumes "\<forall>x\<in>set xs. component x" "\<forall>y\<in>set ys. component y"
  shows "inside (abs_path ys) (abs_path xs) \<longleftrightarrow> prefix xs ys"
proof (cases "xs = []")
  case True
  then show ?thesis by (simp add: inside_def abs_path_def)
next
  case False
  then have "abs_path xs \<noteq> [slash]" using assms(1) join_nonempty [of xs]
    by (auto simp: abs_path_def)
  moreover have "prefix (join [slash] xs @ [slash]) (join [slash] ys) \<or> join [slash] ys = join [slash] xs
      \<longleftrightarrow> prefix (join [slash] xs @ [slash]) (join [slash] ys @ [slash])"
    by auto
  ultimately show ?thesis using join_prefix [OF assms False]
    by (auto simp: inside_def abs_path_def starts_with_prefix)
qed

section \<open>Accepted binds\<close>

lemma starts_with_two: "starts_with [a, b] s \<longleftrightarrow> (\<exists>t. s = a # b # t)"
  by (simp add: starts_with_iff)

lemma normalise_abs:
  assumes "isabs p"
  shows "\<exists>ns. normalise p = abs_path ns \<and> (\<forall>x\<in>set ns. plain_component x)"
proof -
  define ns where "ns = norm_comps True (split_on slash p)"
  have plain: "\<forall>x\<in>set ns. plain_component x"
    unfolding ns_def by (rule norm_comps_plain) (auto dest: split_on_free)
  have no: "p \<noteq> []" using assms by (auto simp: isabs_def)
  have body: "dropWhile (\<lambda>c. c = slash) (join [slash] ns) = join [slash] ns"
    using plain by (cases ns rule: list.exhaust; cases "tl ns"; cases "hd ns")
      (auto simp: plain_component_def component_def)
  have head: "starts_with [slash] (join [slash] ns) \<longleftrightarrow> False"
    using body by (auto simp: dropWhile_eq_self_iff starts_with_iff)
  have "leading_slashes p = [slash] \<or> leading_slashes p = [slash, slash]"
    using assms by (simp add: leading_slashes_def)
  then show ?thesis
  proof
    assume "leading_slashes p = [slash]"
    then have "normpath p = slash # join [slash] ns"
      using no assms by (simp add: normpath_def ns_def Let_def)
    then show ?thesis using plain head by (auto simp: normalise_def Let_def abs_path_def)
  next
    assume "leading_slashes p = [slash, slash]"
    then have "normpath p = slash # slash # join [slash] ns"
      using no assms by (simp add: normpath_def ns_def Let_def)
    then show ?thesis using plain body by (auto simp: normalise_def Let_def abs_path_def)
  qed
qed

text \<open>A relative path stays one.\<close>

lemma norm_comps_relative:
  assumes "\<forall>c\<in>set cs. slash \<notin> set c" "x \<in> set (norm_comps r cs)"
  shows "x \<noteq> [] \<and> slash \<notin> set x"
proof -
  have "\<forall>x\<in>set (foldl (norm_step r) acc cs). x \<noteq> [] \<and> slash \<notin> set x" if "\<forall>x\<in>set acc. x \<noteq> [] \<and> slash \<notin> set x" for acc
    using assms(1) that
  proof (induction cs arbitrary: acc)
    case (Cons c cs)
    have step: "\<forall>x\<in>set (norm_step r acc c). x \<noteq> [] \<and> slash \<notin> set x"
    proof
      fix x assume "x \<in> set (norm_step r acc c)"
      then have "x \<in> set acc \<or> x = c \<and> c \<noteq> []" by (cases acc) (auto simp: norm_step_def split: if_splits)
      then show "x \<noteq> [] \<and> slash \<notin> set x" using Cons.prems by auto
    qed
    moreover have "\<forall>c\<in>set cs. slash \<notin> set c" using Cons.prems(1) by simp
    ultimately show ?case unfolding foldl_Cons by (intro Cons.IH)
  qed simp
  from this [of "[]"] show ?thesis using assms(2) by (simp add: norm_comps_def)
qed

lemma normalise_relative: "\<not> isabs p \<Longrightarrow> \<not> isabs (normalise p)"
proof -
  assume p: "\<not> isabs p"
  let ?ns = "norm_comps False (split_on slash p)"
  have ns: "\<forall>x\<in>set ?ns. x \<noteq> [] \<and> slash \<notin> set x" using norm_comps_relative by (auto dest: split_on_free)
  have "\<not> isabs (join [slash] ?ns)"
  proof (cases ?ns)
    case (Cons x xs)
    then have "x \<noteq> [] \<and> slash \<notin> set x" using ns by simp
    then obtain c cs where "x = c # cs" "c \<noteq> slash" by (cases x) auto
    then show ?thesis unfolding Cons by (cases xs) (simp_all add: isabs_def)
  qed (simp add: isabs_def)
  moreover have "\<not> isabs dot" by code_simp
  ultimately have "\<not> isabs (normpath p)" using p by (auto simp: normpath_def Let_def leading_slashes_def)
  then show ?thesis by (auto simp: normalise_def Let_def isabs_def starts_with_iff)
qed

lemma first_some_None [simp]: "first_some f xs = None \<longleftrightarrow> (\<forall>x\<in>set xs. f x = None)"
  by (induction xs) (auto split: option.splits)

lemma forms_fold: "fst ` set (foldl (\<lambda>d (form, raw). dset d form raw) d ps) = fst ` set d \<union> fst ` set ps"
proof (induction ps arbitrary: d)
  case (Cons p ps)
  obtain a b where p: "p = (a, b)" by (cases p)
  show ?case unfolding p foldl.simps prod.case Cons.IH set_map_fst_dset by simp
qed simp

lemma fst_system_forms:
  "fst ` set (system_forms h) = (\<Union>raw\<in>set system_denied_paths. set (both_spellings h raw))"
  by (force simp: system_forms_def forms_fold)

lemma accepted_source:
  assumes "check_source h bp base roots e = []" "volume_source e = Some src" "is_bind_entry e"
    and "cand = fst (host_path_forms h src base) \<or> cand = snd (host_path_forms h src base)"
  shows "\<not> has_env_substitution src \<and> (\<exists>rt\<in>set roots. \<exists>f\<in>set (both_spellings h rt). inside cand f)
    \<and> (\<forall>raw\<in>set system_denied_paths. \<forall>f\<in>set (both_spellings h raw). \<not> inside cand f \<and> \<not> inside f cand)
    \<and> (\<forall>f\<in>set (both_spellings h (bp_root bp)). \<not> inside f cand
        \<and> (inside cand f \<longrightarrow> (\<exists>p\<in>set (both_spellings h (bp_projects bp)). starts_with (p @ [slash]) cand)))"
proof -
  have ok: "\<not> has_env_substitution src" "denied_host_path h bp src base = None" "\<not> outside_roots h src base roots"
    using assms(1-3) by (auto simp: check_source_def split: if_splits option.splits)
  have "denied_candidate h bp cand = None"
    using ok(2) assms(4) by (auto simp: denied_host_path_def split: prod.splits)
  then have find: "List.find (\<lambda>(form, raw). inside cand form \<or> inside form cand) (system_forms h) = None"
    and box: "\<forall>f\<in>set (both_spellings h (bp_root bp)). \<not> inside f cand
        \<and> (inside cand f \<longrightarrow> (\<exists>p\<in>set (both_spellings h (bp_projects bp)). starts_with (p @ [slash]) cand))"
    by (auto simp: denied_candidate_def list_ex_iff split: option.splits if_splits)
  then have none: "\<not> inside cand form \<and> \<not> inside form cand" if "(form, raw) \<in> set (system_forms h)" for form raw
    using that find by (auto simp: find_None_iff)
  have denied: "\<not> inside cand f \<and> \<not> inside f cand"
    if "raw \<in> set system_denied_paths" "f \<in> set (both_spellings h raw)" for raw f
  proof -
    have "f \<in> fst ` set (system_forms h)" unfolding fst_system_forms using that by blast
    then show ?thesis using none by auto
  qed
  have "\<exists>rt\<in>set roots. \<exists>f\<in>set (both_spellings h rt). inside cand f"
    using ok(3) assms(4) by (auto simp: outside_roots_def list_ex_iff split: prod.splits)
  then show ?thesis using ok(1) denied box by blast
qed

lemma check_volumes_each:
  assumes "check_volumes h bp svc base roots = Inr []" "dget svc ''volumes'' = Some (PList es)" "e \<in> set es"
  shows "check_source h bp base roots e = []"
proof -
  obtain hs where hs: "rmap (check_volume h bp base roots) es = Inr hs" "concat hs = []"
    using assms(1,2) by (auto simp: check_volumes_def res_simps)
  then have "list_all2 (\<lambda>x y. check_volume h bp base roots x = Inr y) es hs"
    by (simp add: rmap_eq_Inr_iff)
  moreover obtain i where "i < length es" "e = es ! i" using assms(3) by (auto simp: in_set_conv_nth)
  ultimately obtain x where "check_volume h bp base roots e = Inr x" "x \<in> set hs"
    by (auto simp: list_all2_conv_all_nth)
  moreover from this have "x = []" using hs(2) by auto
  ultimately show ?thesis
    by (auto simp: check_volume_def Let_def split: pyval.splits if_splits)
qed

text \<open>
  A path confined to the allowed roots: normalised, with no \<open>.\<close> or \<open>..\<close> left; component by
  component below one of the roots; neither in nor around a denied host path; not around
  the boxmunge root, and in it only strictly below \<open>projects/\<close>.
\<close>

definition confined :: "host_fs \<Rightarrow> box_paths \<Rightarrow> string list \<Rightarrow> string \<Rightarrow> bool" where
  "confined h bp roots cand \<longleftrightarrow>
     (\<exists>rs more. cand = abs_path (rs @ more) \<and> (\<forall>x\<in>set (rs @ more). plain_component x)
        \<and> (\<exists>rt\<in>set roots. abs_path rs \<in> set (both_spellings h rt)))
   \<and> (\<forall>raw\<in>set system_denied_paths. \<forall>f\<in>set (both_spellings h raw). \<not> inside cand f \<and> \<not> inside f cand)
   \<and> (\<forall>f\<in>set (both_spellings h (bp_root bp)). \<not> inside f cand
        \<and> (inside cand f \<longrightarrow> (\<exists>p\<in>set (both_spellings h (bp_projects bp)). starts_with (p @ [slash]) cand)))"

text \<open>C20. A bind mount the volume rules accept stays in the project, when the allowed roots are directories
  other than the root of the file system: its source names no variable, and both its path (joined to the
  directory of the compose file, or expanded where it begins with \<open>~\<close>) and what that path's links
  lead to are normalised, with no \<open>.\<close> or \<open>..\<close> left, and lie, component by component, below one of
  the allowed roots; neither lies in, or contains, a denied host path in either spelling, neither contains the boxmunge root,
  and what lies in the boxmunge root lies strictly below its \<open>projects/\<close>.\<close>

theorem accepted_binds_confined:
  assumes "check_volumes h bp svc base roots = Inr []" "dget svc ''volumes'' = Some (PList es)"
    and "e \<in> set es" "is_bind_entry e" "volume_source e = Some src"
    and "\<forall>rt\<in>set roots. isabs rt \<and> ''/'' \<notin> set (both_spellings h rt)" "\<forall>p. isabs (h_realpath h p)"
  shows "\<not> has_env_substitution src \<and> confined h bp roots (fst (host_path_forms h src base))
    \<and> confined h bp roots (snd (host_path_forms h src base))"
proof -
  note src = check_volumes_each [OF assms(1-3)]
  have slash: "''/'' = [slash]" by code_simp
  have root_form: "\<exists>rs. f = abs_path rs \<and> (\<forall>x\<in>set rs. plain_component x)"
    if "rt \<in> set roots" "f \<in> set (both_spellings h rt)" for rt f
  proof -
    have "isabs rt" "isabs (h_realpath h rt)" using that(1) assms(6,7) by blast+
    moreover have "f = normalise rt \<or> f = normalise (h_realpath h rt)" using that(2) by (auto simp: both_spellings_def split: if_splits)
    ultimately show ?thesis using normalise_abs by blast
  qed
  have form: "\<exists>ns. cand = abs_path ns \<and> (\<forall>x\<in>set ns. plain_component x)"
    if c: "cand = normalise p" "rt \<in> set roots" "f \<in> set (both_spellings h rt)" "inside cand f" for cand p rt f
  proof -
    obtain rs where "f = abs_path rs" using root_form [OF c(2,3)] by blast
    moreover have "f \<noteq> [slash]" using c(2,3) assms(6) unfolding slash by blast
    ultimately have "isabs cand" using c(4) by (auto simp: inside_def isabs_def starts_with_iff abs_path_def)
    then have "isabs p" using c(1) normalise_relative by blast
    then show ?thesis using normalise_abs c(1) by blast
  qed
  have "confined h bp roots cand" if c: "cand = normalise p" "cand = fst (host_path_forms h src base) \<or> cand = snd (host_path_forms h src base)" for cand p
  proof -
    note facts = accepted_source [OF src assms(5,4) c(2)]
    obtain rt f where f: "rt \<in> set roots" "f \<in> set (both_spellings h rt)" "inside cand f" using facts by blast
    obtain ns where ns: "cand = abs_path ns" "\<forall>x\<in>set ns. plain_component x" using form [OF c(1) f] by blast
    obtain rs where rs: "f = abs_path rs" "\<forall>x\<in>set rs. plain_component x" using root_form [OF f(1,2)] by blast
    have "prefix rs ns" using f(3) ns rs inside_abs [of rs ns] by (auto simp: plain_component_def)
    then obtain more where "ns = rs @ more" by (auto simp: prefix_def)
    then have "\<exists>rs more. cand = abs_path (rs @ more) \<and> (\<forall>x\<in>set (rs @ more). plain_component x)
        \<and> (\<exists>rt\<in>set roots. abs_path rs \<in> set (both_spellings h rt))"
      using ns f(1,2) rs(1) by blast
    then show ?thesis using facts by (simp add: confined_def)
  qed
  moreover obtain p q where "fst (host_path_forms h src base) = normalise p" "snd (host_path_forms h src base) = normalise q"
    by (simp add: host_path_forms_def Let_def)
  ultimately show ?thesis using accepted_source [OF src assms(5,4), of "fst (host_path_forms h src base)"] by blast
qed

definition no_links :: host_fs where
  "no_links = \<lparr> h_realpath = (\<lambda>p. if isabs p then p else [slash]), h_expanduser = (\<lambda>p. p) \<rparr>"

definition example_paths :: box_paths where
  "example_paths = \<lparr> bp_root = ''/opt/boxmunge'', bp_projects = ''/opt/boxmunge/projects'' \<rparr>"

definition example_base :: string where "example_base = ''/opt/boxmunge/projects/web''"

lemma example_volumes_accepted:
  "check_volumes no_links example_paths
     [(PStr ''volumes'', PList [PStr ''./data:/data'', PStr ''db:/var/lib''])] example_base [example_base] = Inr []"
  by code_simp

theorem accepted_binds_confined_witness:
  "confined no_links example_paths [example_base] (fst (host_path_forms no_links ''./data'' example_base))"
proof -
  have "isabs example_base" "''/'' \<notin> set (both_spellings no_links example_base)" by code_simp+
  then have "\<forall>rt\<in>set [example_base]. isabs rt \<and> ''/'' \<notin> set (both_spellings no_links rt)" by simp
  moreover have "\<forall>p. isabs (h_realpath no_links p)" by (simp add: no_links_def isabs_def)
  moreover have "volume_source (PStr ''./data:/data'') = Some ''./data''" "is_bind_entry (PStr ''./data:/data'')"
    by code_simp+
  ultimately show ?thesis
    using accepted_binds_confined [OF example_volumes_accepted, of
        "[PStr ''./data:/data'', PStr ''db:/var/lib'']" "PStr ''./data:/data''" "''./data''"]
    by (simp add: dget_def)
qed

text \<open>What the rules refuse: a climb out of the project, the Docker socket, the parent of a denied path.\<close>

lemma refused_examples:
  "map (\<lambda>v. map vh_relaxable (case check_volumes no_links example_paths
       [(PStr ''volumes'', PList [PStr v])] example_base [example_base] of Inr hs \<Rightarrow> hs | Inl _ \<Rightarrow> []))
     [''./data/../../other:/x'', ''//run/./docker.sock:/s'', ''/:/host'', ''$HOME:/h''] =
   [[False], [False], [False], [True]]"
  by code_simp

end
