(* ===== verification/Data_Dirs.thy ===== *)
theory Data_Dirs
  imports Disk_Files Compose_Mounts
begin

text \<open>
  \<^verbatim>\<open>src/boxmunge/bind_mounts.py\<close> and \<^verbatim>\<open>src/boxmunge/data_dirs.py\<close>: which top-level
  entries of a project hold data the app writes.  The YAML parser, what a link leads
  to, the host's path resolution and the ownership of an entry are given.
\<close>

section \<open>What is given\<close>

record release_env =
  re_project :: string
  re_host :: host_fs
  re_yaml :: "string \<Rightarrow> pyval option"
  re_follow :: "string \<Rightarrow> node option"
  re_unlistable :: "string \<Rightarrow> bool"
  re_remapped :: "bool option"
  re_owned :: "string \<Rightarrow> bool"
  re_stamp :: string

type_synonym entries = "(string \<times> node) list"

section \<open>Bind mounts of a compose file\<close>

text \<open>The third field of a short entry, split at its commas.\<close>

definition is_read_only :: "pyval \<Rightarrow> bool" where
  "is_read_only entry = (case entry of
     PDict d \<Rightarrow> dget d ''read_only'' = Some (PBool True)
   | PStr s \<Rightarrow> (case split_on (CHR 0x3A) s of
         _ # _ # opts # _ \<Rightarrow> ''ro'' \<in> set (split_on (CHR 0x2C) opts)
       | _ \<Rightarrow> False)
   | _ \<Rightarrow> False)"

text \<open>The first candidate that lies inside decides; the directory itself only stands last.\<close>

fun first_inside :: "(string \<times> string) list \<Rightarrow> string option \<Rightarrow> string option" where
  "first_inside [] found = found"
| "first_inside ((base, path) # rest) found =
     (let rel = relpath path base in
      if rel = dotdot \<or> starts_with (dotdot @ [slash]) rel then first_inside rest found
      else if rel \<noteq> dot then Some rel
      else first_inside rest (Some rel))"

definition project_relative :: "host_fs \<Rightarrow> string \<Rightarrow> string \<Rightarrow> bool \<Rightarrow> string option" where
  "project_relative h source project literal =
     (if starts_with ''~'' source then None
      else first_inside
        (concat (map (\<lambda>base. map (Pair base) (remdups
             ([normpath (path_join base source)]
              @ (if isabs source \<and> \<not> literal then [h_realpath h source] else []))))
           (remdups [normpath project, h_realpath h project]))) None)"

definition top_dir :: "host_fs \<Rightarrow> string \<Rightarrow> string \<Rightarrow> string option" where
  "top_dir h source project = (case project_relative h source project False of
     Some rel \<Rightarrow> if rel = dot then None else Some (hd (split_on slash rel))
   | None \<Rightarrow> None)"

definition service_volumes :: "pyval \<Rightarrow> disk_error + pyval list" where
  "service_volumes svc = (case svc of
     PDict d \<Rightarrow> (case py_or (dget_or d ''volumes'' PNone) (PList []) of
        PList es \<Rightarrow> if list_all (\<lambda>e. is_pstr e \<or> is_pdict e) es then Inr es else Inl Release_State_Error
      | _ \<Rightarrow> Inl Release_State_Error)
   | _ \<Rightarrow> Inl Release_State_Error)"

definition compose_entries :: "pyval option \<Rightarrow> disk_error + pyval list" where
  "compose_entries doc = (case doc of
     Some (PDict d) \<Rightarrow> (case py_or (dget_or d ''services'' PNone) (PDict []) of
        PDict svcs \<Rightarrow> rbind (rmap (\<lambda>(n, svc). service_volumes svc) svcs) (\<lambda>es. Inr (concat es))
      | _ \<Rightarrow> Inl Release_State_Error)
   | _ \<Rightarrow> Inl Release_State_Error)"

definition bind_top :: "host_fs \<Rightarrow> string \<Rightarrow> pyval \<Rightarrow> string option" where
  "bind_top h project entry = (case volume_source entry of
     None \<Rightarrow> None
   | Some source \<Rightarrow> if is_pstr entry \<and> \<not> is_path_like source then None else top_dir h source project)"

definition add_bind :: "host_fs \<Rightarrow> string \<Rightarrow> (string \<times> bool) list \<Rightarrow> pyval \<Rightarrow> (string \<times> bool) list" where
  "add_bind h project dirs entry = (case bind_top h project entry of
     None \<Rightarrow> dirs
   | Some t \<Rightarrow> dset dirs t ((case map_of dirs t of Some rw \<Rightarrow> rw | None \<Rightarrow> False)
                               \<or> \<not> is_read_only entry))"

text \<open>
  The compose file in a directory: absent, its text, or not to be read.  Without
  \<open>nofollow\<close> a link is followed, and one that leads nowhere does not exist.
\<close>

definition compose_text :: "release_env \<Rightarrow> entries \<Rightarrow> bool \<Rightarrow> disk_error + string option" where
  "compose_text env dir nofollow = (case map_of dir ''compose.yml'' of
     None \<Rightarrow> Inr None
   | Some (File t) \<Rightarrow> Inr (Some t)
   | Some (Dir _) \<Rightarrow> Inl Release_State_Error
   | Some (Link l) \<Rightarrow> if nofollow then Inl Release_State_Error
       else (case re_follow env l of
          None \<Rightarrow> Inr None | Some (File t) \<Rightarrow> Inr (Some t) | Some _ \<Rightarrow> Inl Release_State_Error))"

definition bind_dirs :: "release_env \<Rightarrow> entries \<Rightarrow> bool \<Rightarrow> disk_error + (string \<times> bool) list" where
  "bind_dirs env dir nofollow =
     rbind (compose_text env dir nofollow) (\<lambda>text. case text of
       None \<Rightarrow> Inr []
     | Some t \<Rightarrow> rbind (compose_entries (re_yaml env t)) (\<lambda>es.
         Inr (foldl (add_bind (re_host env) (re_project env)) [] es)))"

definition read_write :: "(string \<times> bool) list \<Rightarrow> string set" where
  "read_write binds = fst ` set (filter snd binds)"

section \<open>Entries that hold data\<close>

definition holds_data :: "release_env \<Rightarrow> entries \<Rightarrow> string \<Rightarrow> bool" where
  "holds_data env dir name = (case map_of dir name of
     None \<Rightarrow> False
   | Some (Dir es) \<Rightarrow> re_unlistable env name \<or> es \<noteq> []
   | Some _ \<Rightarrow> True)"

definition valid_name :: "pyval \<Rightarrow> bool" where
  "valid_name v = (case v of
     PStr s \<Rightarrow> s \<notin> {[], dot, dotdot} \<and> slash \<notin> set s \<and> CHR 0x00 \<notin> set s
   | _ \<Rightarrow> False)"

definition has_record :: "disk \<Rightarrow> bool" where
  "has_record s \<longleftrightarrow> d_record s \<noteq> Absent"

definition names_of :: "pyval list \<Rightarrow> string list" where
  "names_of vs = concat (map (\<lambda>v. case v of PStr s \<Rightarrow> [s] | _ \<Rightarrow> []) vs)"

text \<open>\<open>1 == True\<close>, so a version of \<open>true\<close> is excluded; \<open>1.0\<close> is not.\<close>

definition load_record :: "json_file \<Rightarrow> disk_error + string set option" where
  "load_record f = (case f of
     Absent \<Rightarrow> Inr None
   | Doc (PDict d) \<Rightarrow>
       if dget d ''version'' \<notin> {Some (PInt 1), Some (PFloat 1)} then Inl Release_State_Error
       else (case dget d ''data_dirs'' of
          Some (PList ns) \<Rightarrow> if list_all valid_name ns then Inr (Some (set (names_of ns)))
                             else Inl Release_State_Error
        | _ \<Rightarrow> Inl Release_State_Error)
   | _ \<Rightarrow> Inl Release_State_Error)"

definition staging_copy :: "string \<Rightarrow> string" where
  "staging_copy name = name @ ''-staging''"

definition box_owned_entries :: "string list" where
  "box_owned_entries = [''secrets.env'', ''security'', ''data'', ''backups'', ''caddy.override.conf'']"

definition boxmunge_entries :: "string list" where
  "boxmunge_entries = [''repo'', ''.releases'', ''compose.boxmunge.yml'',
     ''compose.boxmunge-staging.yml'', ''compose.staging-base.yml'']"

definition reserved_entries :: "string set" where
  "reserved_entries = set box_owned_entries \<union> set boxmunge_entries"

record data_dirs =
  dd_release :: "string set"
  dd_recorded :: "string set"
  dd_mounted :: "string set"
  dd_seeded :: "string set"
  dd_adopted :: "string set"
  dd_staged :: "string set"
  dd_staged_rw :: "string set"

definition box_state :: "data_dirs \<Rightarrow> string set" where
  "box_state dirs = reserved_entries \<union> dd_recorded dirs
     \<union> staging_copy ` (dd_mounted dirs \<union> dd_recorded dirs \<union> dd_staged dirs)"

definition occupied :: "release_env \<Rightarrow> entries \<Rightarrow> string \<Rightarrow> bool" where
  "occupied env dir name \<longleftrightarrow> holds_data env dir name \<or> holds_data env dir (staging_copy name)"

definition after_install :: "release_env \<Rightarrow> entries \<Rightarrow> string set \<Rightarrow> data_dirs \<Rightarrow> data_dirs" where
  "after_install env dir shipped dirs =
     dirs\<lparr>dd_recorded := dd_recorded dirs
        - {n \<in> shipped \<inter> dd_recorded dirs. n \<notin> dd_release dirs \<and> \<not> occupied env dir n}\<rparr>"

definition retained_names :: "release_env \<Rightarrow> entries \<Rightarrow> data_dirs \<Rightarrow> string list" where
  "retained_names env dir dirs =
     filter (holds_data env dir) (sorted_list_of_set (dd_recorded dirs - dd_release dirs))"

text \<open>\<open>bundle.is_placeholder\<close>: a directory of directories and empty keep files.\<close>

fun only_placeholders :: "string \<times> node \<Rightarrow> bool" where
  "only_placeholders (name, File t) \<longleftrightarrow> name \<in> {''.gitkeep'', ''.keep''} \<and> t = []"
| "only_placeholders (name, Link l) \<longleftrightarrow> False"
| "only_placeholders (name, Dir es) \<longleftrightarrow> list_all only_placeholders es"

definition is_placeholder :: "node \<Rightarrow> bool" where
  "is_placeholder n = (case n of Dir es \<Rightarrow> list_all only_placeholders es | _ \<Rightarrow> False)"

section \<open>Classification\<close>

definition shipped_content :: "entries \<Rightarrow> string set" where
  "shipped_content tree = fst ` set (filter (\<lambda>(n, e). \<not> is_placeholder e) tree)"

definition kept_mounts :: "release_env \<Rightarrow> string set option \<Rightarrow> entries list \<Rightarrow> disk_error + string set" where
  "kept_mounts env stored kept_trees = (if stored \<noteq> None then Inr {}
     else rbind (rmap (\<lambda>tree. bind_dirs env tree False) kept_trees) (\<lambda>bs.
       Inr (\<Union>b\<in>set bs. read_write b)))"

definition classified :: "release_env \<Rightarrow> entries \<Rightarrow> (string \<times> bool) list \<Rightarrow> (string \<times> bool) list
    \<Rightarrow> string set \<Rightarrow> string set option \<Rightarrow> string set \<Rightarrow> (string \<times> bool) list \<Rightarrow> data_dirs" where
  "classified env dir live_binds release_binds shipped stored kept staged_binds =
     (let release = read_write release_binds;
          live_rw = read_write live_binds;
          known = (case stored of Some ns \<Rightarrow> ns | None \<Rightarrow> {});
          adopted = kept \<inter> (fst ` set live_binds - live_rw) \<inter> shipped;
          candidates = known \<union> live_rw \<union> (kept - adopted);
          mounted = fst ` set live_binds \<union> fst ` set release_binds;
          recorded = (release \<union> (mounted \<inter> candidates) \<union> {n \<in> candidates. occupied env dir n})
                       - reserved_entries
      in \<lparr> dd_release = release, dd_recorded = recorded, dd_mounted = mounted,
           dd_seeded = recorded - release - live_rw - known, dd_adopted = adopted - recorded,
           dd_staged = fst ` set staged_binds, dd_staged_rw = read_write staged_binds \<rparr>)"

definition classify :: "release_env \<Rightarrow> disk \<Rightarrow> entries option \<Rightarrow> entries list \<Rightarrow> entries option
    \<Rightarrow> disk_error + data_dirs" where
  "classify env s release_tree kept_trees staged =
     rbind (bind_dirs env (d_code s) False) (\<lambda>live_binds.
     rbind (case release_tree of None \<Rightarrow> Inr [] | Some t \<Rightarrow> bind_dirs env t False) (\<lambda>release_binds.
     rbind (load_record (d_record s)) (\<lambda>stored.
     rbind (kept_mounts env stored kept_trees) (\<lambda>kept.
     rbind (case staged of None \<Rightarrow> Inr [] | Some t \<Rightarrow> bind_dirs env t True) (\<lambda>staged_binds.
     Inr (classified env (d_code s) live_binds release_binds
       (case release_tree of None \<Rightarrow> {} | Some t \<Rightarrow> shipped_content t) stored kept staged_binds))))))"

text \<open>An entry an installed release writes, and one that holds recorded data, is recorded.\<close>

lemma classify_records_data:
  assumes "classify env s tree kept staged = Inr dirs"
    and "bind_dirs env (d_code s) False = Inr live" "load_record (d_record s) = Inr stored"
    and "n \<in> read_write live \<union> (case stored of Some ns \<Rightarrow> ns | None \<Rightarrow> {})"
    and "occupied env (d_code s) n" "n \<notin> reserved_entries"
  shows "n \<in> dd_recorded dirs"
  using assms by (auto simp: classify_def classified_def Let_def res_simps)

lemma classify_records_release:
  assumes "classify env s (Some tree) kept staged = Inr dirs" "bind_dirs env tree False = Inr binds"
    and "n \<in> read_write binds" "n \<notin> reserved_entries"
  shows "n \<in> dd_recorded dirs"
  using assms by (auto simp: classify_def classified_def Let_def res_simps)

lemma adopted_not_recorded:
  "classify env s tree kept staged = Inr dirs \<Longrightarrow> dd_adopted dirs \<inter> dd_recorded dirs = {}"
  by (auto simp: classify_def classified_def Let_def res_simps)

lemma recorded_not_reserved:
  "classify env s tree kept staged = Inr dirs \<Longrightarrow> dd_recorded dirs \<inter> reserved_entries = {}"
  by (auto simp: classify_def classified_def Let_def res_simps)

end
