(* ===== verification/Release_Install.thy ===== *)
theory Release_Install
  imports Data_Dirs
begin

text \<open>
  Installing a release over a live project: the set-aside and the record of
  \<^verbatim>\<open>src/boxmunge/data_dirs.py\<close>, and \<open>check_install\<close>, \<open>live_code_entries\<close> and
  \<open>install_release\<close> of \<^verbatim>\<open>src/boxmunge/release.py\<close>, one disk step at a time.
  Modes, owners and printing are left out.
\<close>

section \<open>Steps on the project's entries\<close>

definition set_entry :: "string \<Rightarrow> node \<Rightarrow> disk \<Rightarrow> disk" where
  "set_entry name n s = s\<lparr>d_code := dset (d_code s) name n\<rparr>"

definition del_entry :: "string \<Rightarrow> disk \<Rightarrow> disk" where
  "del_entry name s = s\<lparr>d_code := filter (\<lambda>(k, _). k \<noteq> name) (d_code s)\<rparr>"

text \<open>\<open>_remove\<close>: a directory may be removed in part.\<close>

definition remove_entry :: "string \<Rightarrow> unit dio" where
  "remove_entry name s = (case map_of (d_code s) name of
     None \<Rightarrow> sret () s
   | Some (Dir es) \<Rightarrow> disk_step (del_entry name) (\<lambda>n. set_entry name (Dir (drop n es))) s
   | Some _ \<Rightarrow> whole_step (del_entry name) s)"

text \<open>\<open>_copy_entry\<close>: a directory may be copied in part.\<close>

definition copy_entry :: "string \<Rightarrow> node \<Rightarrow> unit dio" where
  "copy_entry name item = (case item of
     Dir es \<Rightarrow> disk_step (set_entry name item) (\<lambda>n. if n = 0 then (\<lambda>s. s) else set_entry name (Dir (take (n - 1) es)))
   | _ \<Rightarrow> whole_step (set_entry name item))"

text \<open>\<open>_refresh_dir_in_place\<close>: the directory stays, its entries go and come one by one.\<close>

definition children :: "string \<Rightarrow> disk \<Rightarrow> entries" where
  "children name s = (case map_of (d_code s) name of Some (Dir es) \<Rightarrow> es | _ \<Rightarrow> [])"

definition remove_child :: "string \<Rightarrow> string \<Rightarrow> unit dio" where
  "remove_child name child = disk_step
     (\<lambda>s. set_entry name (Dir (filter (\<lambda>(k, _). k \<noteq> child) (children name s))) s)
     (\<lambda>n s. case map_of (children name s) child of
        Some (Dir es) \<Rightarrow> set_entry name (Dir (dset (children name s) child (Dir (drop n es)))) s
      | _ \<Rightarrow> s)"

definition copy_child :: "string \<Rightarrow> string \<times> node \<Rightarrow> unit dio" where
  "copy_child name item = (case item of (child, e) \<Rightarrow> disk_step
     (\<lambda>s. set_entry name (Dir (dset (children name s) child e)) s)
     (\<lambda>n s. case e of
        Dir es \<Rightarrow> if n = 0 then s
          else set_entry name (Dir (dset (children name s) child (Dir (take (n - 1) es)))) s
      | _ \<Rightarrow> s))"

definition refresh_dir_in_place :: "string \<Rightarrow> entries \<Rightarrow> unit dio" where
  "refresh_dir_in_place name src = sbind (sget (children name)) (\<lambda>old.
     sthen (sfor (\<lambda>(c, _). remove_child name c) old) (sfor (copy_child name) src))"

definition is_dir_entry :: "string \<Rightarrow> disk \<Rightarrow> bool" where
  "is_dir_entry name s \<longleftrightarrow> (case map_of (d_code s) name of Some (Dir _) \<Rightarrow> True | _ \<Rightarrow> False)"

definition install_entry :: "string \<times> node \<Rightarrow> unit dio" where
  "install_entry item = (case item of (name, e) \<Rightarrow>
     sbind (sget (is_dir_entry name)) (\<lambda>there.
     case e of
       Dir es \<Rightarrow> if there then refresh_dir_in_place name es
                 else sthen (remove_entry name) (copy_entry name e)
     | _ \<Rightarrow> sthen (remove_entry name) (copy_entry name e)))"

section \<open>The record\<close>

definition record_doc :: "data_dirs \<Rightarrow> pyval" where
  "record_doc dirs = PDict [(PStr ''version'', PInt 1),
     (PStr ''data_dirs'', PList (map PStr (sorted_list_of_set (dd_recorded dirs))))]"

definition save_record :: "data_dirs \<Rightarrow> unit dio" where
  "save_record dirs = sthen (whole_step (\<lambda>s. s\<lparr>d_record := Doc (record_doc dirs)\<rparr>)) fsync_dir"

text \<open>One child of an entry moved to \<open>.releases/retained/<name>-<stamp>\<close>.\<close>

definition move_child :: "string \<Rightarrow> string \<Rightarrow> string \<times> node \<Rightarrow> unit dio" where
  "move_child name dest item = (case item of (child, e) \<Rightarrow> whole_step (\<lambda>s.
     (set_entry name (Dir (filter (\<lambda>(k, _). k \<noteq> child) (children name s))) s)
       \<lparr>d_retained := dset (d_retained s) dest
          ((case map_of (d_retained s) dest of Some es \<Rightarrow> es | None \<Rightarrow> []) @ [(child, e)])\<rparr>))"

definition move_contents :: "string \<Rightarrow> string \<Rightarrow> unit dio" where
  "move_contents name dest = sbind (sget (\<lambda>s. (map_of (d_retained s) dest, map_of (d_code s) name)))
     (\<lambda>(there, e). if there \<noteq> None then sraise OS_Error
      else sthen (whole_step (\<lambda>s. s\<lparr>d_retained := dset (d_retained s) dest []\<rparr>))
        (case e of
           Some (Dir es) \<Rightarrow> sfor (move_child name dest) (sort_key fst es)
         | Some n \<Rightarrow> whole_step (\<lambda>s. (del_entry name s)\<lparr>d_retained := dset (d_retained s) dest [(name, n)]\<rparr>)
         | None \<Rightarrow> sraise OS_Error))"

definition refuse_container_owned :: "release_env \<Rightarrow> data_dirs \<Rightarrow> unit dio" where
  "refuse_container_owned env dirs = (if dd_adopted dirs = {} then sret ()
     else case re_remapped env of
       None \<Rightarrow> sraise Release_State_Error
     | Some False \<Rightarrow> sret ()
     | Some True \<Rightarrow> sbind (sget (\<lambda>s. \<exists>n\<in>dd_adopted dirs. holds_data env (d_code s) n \<and> \<not> re_owned env n))
         (\<lambda>owned. if owned then sraise Release_State_Error else sret ()))"

text \<open>A failure once something has moved is an OSError, as every failure of these steps is.\<close>

definition set_aside :: "release_env \<Rightarrow> string \<Rightarrow> unit dio" where
  "set_aside env name = sbind (sget (\<lambda>s. holds_data env (d_code s) name)) (\<lambda>holds.
     if holds then move_contents name (name @ ''-'' @ re_stamp env) else sret ())"

definition start_record :: "release_env \<Rightarrow> data_dirs \<Rightarrow> unit dio" where
  "start_record env dirs = sthen (refuse_container_owned env dirs)
     (sthen (sfor (set_aside env) (sorted_list_of_set (dd_adopted dirs))) (save_record dirs))"

section \<open>The check\<close>

definition check_tree :: "release_env \<Rightarrow> entries \<Rightarrow> entries \<Rightarrow> data_dirs \<Rightarrow> disk_error + unit" where
  "check_tree env tree dir dirs =
     (let shipped = map fst (filter (\<lambda>(n, e). \<not> is_placeholder e) tree) in
      if list_ex (\<lambda>(n, _). n \<in> reserved_entries) tree then Inl Bundle_Error
      else if list_ex (\<lambda>n. n \<in> dd_release dirs) shipped then Inl Bundle_Error
      else if list_ex (\<lambda>n. n \<in> dd_recorded dirs \<and> occupied env dir n) shipped then Inl Bundle_Error
      else Inr ())"

section \<open>Installing\<close>

text \<open>
  What \<open>_classify\<close> reads beside the project's entries: the kept release (the
  rollback target) and the staged release.
\<close>

definition kept_trees :: "disk \<Rightarrow> entries list" where
  "kept_trees s = [case d_names s Previous of Some (Dir es) \<Rightarrow> es | _ \<Rightarrow> []]"

definition classify_for :: "release_env \<Rightarrow> entries option \<Rightarrow> entries option \<Rightarrow> disk \<Rightarrow> disk_error + data_dirs" where
  "classify_for env staged release_tree s = classify env s release_tree (kept_trees s) staged"

definition live_code_entries :: "data_dirs \<Rightarrow> disk \<Rightarrow> entries" where
  "live_code_entries dirs s = sort_key fst (filter (\<lambda>(n, _). n \<notin> box_state dirs) (d_code s))"

definition stale_entries :: "data_dirs \<Rightarrow> entries \<Rightarrow> disk \<Rightarrow> string list" where
  "stale_entries dirs tree s =
     filter (\<lambda>n. n \<notin> box_state dirs \<and> n \<notin> fst ` set tree) (sort (map fst (d_code s)))"

definition install_item :: "release_env \<Rightarrow> data_dirs \<Rightarrow> string \<times> node \<Rightarrow> unit dio" where
  "install_item env dirs item = sbind (sget (\<lambda>s. holds_data env (d_code s) (fst item))) (\<lambda>holds.
     if fst item \<in> dd_recorded dirs \<and> holds then sret () else install_entry item)"

definition ensure_dir :: "string \<Rightarrow> unit dio" where
  "ensure_dir name s = (case map_of (d_code s) name of
     None \<Rightarrow> whole_step (set_entry name (Dir [])) s
   | Some (Dir _) \<Rightarrow> sret () s
   | Some _ \<Rightarrow> sraise OS_Error s)"

definition put_release :: "release_env \<Rightarrow> data_dirs \<Rightarrow> entries \<Rightarrow> unit dio" where
  "put_release env dirs tree = sbind (sget (stale_entries dirs tree)) (\<lambda>stale.
     sthen (save_record dirs)
     (sthen (sfor remove_entry stale)
     (sthen (sfor (install_item env dirs) tree)
     (sthen (ensure_dir ''backups'') (ensure_dir ''data'')))))"

definition install_release :: "release_env \<Rightarrow> entries option \<Rightarrow> entries \<Rightarrow> unit dio" where
  "install_release env staged tree =
     sbind (sbind (sget (classify_for env staged (Some tree))) slift) (\<lambda>dirs.
     sthen (sbind (sget (\<lambda>s. check_tree env tree (d_code s) dirs)) slift)
     (sthen (sbind (sget has_record) (\<lambda>r. if r then sret () else start_record env dirs))
     (sbind (sget (\<lambda>s. after_install env (d_code s) (fst ` set tree) dirs)) (\<lambda>dirs'.
     put_release env dirs' tree))))"

section \<open>Data is never lost\<close>

abbreviation entry :: "string \<Rightarrow> disk \<Rightarrow> node option" where
  "entry n s \<equiv> map_of (d_code s) n"

lemma entry_set_entry [simp]: "entry n (set_entry k e s) = (if n = k then Some e else entry n s)"
  by (simp add: set_entry_def)

lemma map_of_filter_other:
  "map_of (filter (\<lambda>(k', _). k' \<noteq> k) xs) n = (if n = k then None else map_of xs n)"
  by (induction xs) auto

lemma entry_del_entry [simp]: "entry n (del_entry k s) = (if n = k then None else entry n s)"
  by (simp add: del_entry_def map_of_filter_other)

lemma entry_off_names: "off_names (entry n)"
  by (rule off_namesI) simp_all

lemma entry_fields [simp]: "entry n (s\<lparr>d_steps := ss\<rparr>) = entry n s"
    "entry n (s\<lparr>d_record := x\<rparr>) = entry n s" "entry n (s\<lparr>d_retained := y\<rparr>) = entry n s"
  by simp_all

lemma keeps_other_entries [skeeps_rules]:
  assumes "k \<noteq> n"
  shows "skeeps (entry n) (remove_entry k)" "skeeps (entry n) (copy_entry k e)"
    "skeeps (entry n) (remove_child k c)" "skeeps (entry n) (copy_child k i)"
    "skeeps (entry n) (move_child k d i)" "skeeps (entry n) (ensure_dir k)"
proof -
  have step: "skeeps (entry n) (disk_step (del_entry k) (\<lambda>n. set_entry k (f n)))"
    "skeeps (entry n) (whole_step (del_entry k))" "skeeps (entry n) (whole_step (set_entry k e))"
    "skeeps (entry n) (disk_step (set_entry k e) (\<lambda>n. if n = 0 then (\<lambda>s. s) else set_entry k (f n)))"
    for f e using assms by (intro skeeps_rules; simp)+
  show "skeeps (entry n) (remove_entry k)" "skeeps (entry n) (ensure_dir k)"
    by (rule skeepsI, simp add: remove_entry_def ensure_dir_def step [unfolded skeeps_def]
        split: option.split node.split)+
  show "skeeps (entry n) (copy_entry k e)"
    unfolding copy_entry_def by (simp add: step split: node.split)
  show "skeeps (entry n) (remove_child k c)" "skeeps (entry n) (copy_child k i)"
    unfolding remove_child_def copy_child_def using assms
    by (auto intro!: skeeps_rules split: prod.split option.split node.split)
  show "skeeps (entry n) (move_child k d i)"
    unfolding move_child_def using assms by (auto intro!: skeeps_rules split: prod.split)
qed

lemma keeps_entry_install [skeeps_rules]:
  assumes "fst i \<noteq> n" shows "skeeps (entry n) (install_entry i)"
proof -
  have "skeeps (entry n) (refresh_dir_in_place (fst i) es)" for es
    unfolding refresh_dir_in_place_def using assms
    by (auto intro!: skeeps_rules)
  then show ?thesis using assms
    by (cases i) (auto simp: install_entry_def intro!: skeeps_rules split: node.split)
qed

lemma keeps_entry_record [skeeps_rules]: "skeeps (entry n) (save_record dirs)"
  unfolding save_record_def by (intro skeeps_then skeeps_names(1) entry_off_names skeeps_whole_step) simp_all

lemma keeps_entry_move [skeeps_rules]:
  assumes "k \<noteq> n" shows "skeeps (entry n) (move_contents k dest)"
proof -
  have one: "skeeps (entry n) (whole_step (\<lambda>s. s\<lparr>d_retained := dset (d_retained s) dest []\<rparr>))"
    by (rule skeeps_whole_step) simp_all
  have "skeeps (entry n) (whole_step (\<lambda>s. (del_entry k s)\<lparr>d_retained := dset (d_retained s) dest [(k, m)]\<rparr>))" for m
    using assms by (intro skeeps_whole_step) simp_all
  then show ?thesis unfolding move_contents_def using one assms
    by (auto intro!: skeeps_rules split: option.split node.split)
qed

lemma keeps_entry_start [skeeps_rules]:
  assumes "finite (dd_adopted dirs)" "n \<notin> dd_adopted dirs"
  shows "skeeps (entry n) (start_record env dirs)"
proof -
  have "skeeps (entry n) (refuse_container_owned env dirs)"
    unfolding refuse_container_owned_def by (auto intro!: skeeps_rules split: option.split bool.split)
  moreover have "skeeps (entry n) (set_aside env k)" if "k \<noteq> n" for k
    unfolding set_aside_def using that by (intro skeeps_rules)
  ultimately have "skeeps (entry n) (sfor (set_aside env) (sorted_list_of_set (dd_adopted dirs)))"
    by (intro skeeps_for) (metis assms set_sorted_list_of_set)
  with \<open>skeeps (entry n) (refuse_container_owned env dirs)\<close> show ?thesis unfolding start_record_def
    by (intro skeeps_then keeps_entry_record)
qed

lemma triple_keeps: "skeeps g m \<Longrightarrow> triple (\<lambda>s. g s = v) m (\<lambda>_ s. g s = v) (\<lambda>_ s. g s = v)"
  by (rule tripleI) (auto dest: skeepsD)

lemma holds_data_entry: "entry n s = Some v \<Longrightarrow> entry n t = Some v \<Longrightarrow>
    holds_data env (d_code t) n = holds_data env (d_code s) n"
  by (simp add: holds_data_def)

text \<open>An entry an install never touches: reserved, or recorded and holding data.\<close>

definition protected :: "release_env \<Rightarrow> data_dirs \<Rightarrow> string \<Rightarrow> node \<Rightarrow> bool" where
  "protected env dirs n v \<longleftrightarrow> n \<in> reserved_entries \<or> n \<in> dd_recorded dirs \<and> holds_data env [(n, v)] n"

lemma holds_data_single: "entry n s = Some v \<Longrightarrow> holds_data env (d_code s) n = holds_data env [(n, v)] n"
  by (simp add: holds_data_def)

lemma put_release_keeps:
  assumes "protected env dirs n v" "\<forall>i\<in>set tree. fst i \<notin> reserved_entries"
  shows "triple (\<lambda>s. entry n s = Some v) (put_release env dirs tree)
    (\<lambda>_ s. entry n s = Some v) (\<lambda>_ s. entry n s = Some v)" (is "triple ?P _ (\<lambda>_. ?P) (\<lambda>_. ?P)")
proof -
  have "n \<in> box_state dirs" using assms(1) by (auto simp: protected_def box_state_def)
  then have stale: "n \<notin> set (stale_entries dirs tree s)" for s by (simp add: stale_entries_def)
  have removes: "triple ?P (sfor remove_entry (stale_entries dirs tree s)) (\<lambda>_. ?P) (\<lambda>_. ?P)" for s
    using stale [of s] by (intro triple_keeps skeeps_for keeps_other_entries) auto
  have item: "triple ?P (install_item env dirs i) (\<lambda>_. ?P) (\<lambda>_. ?P)" if "i \<in> set tree" for i
  proof (cases "fst i = n")
    case False
    then show ?thesis by (intro triple_keeps) (simp add: install_item_def skeeps_rules)
  next
    case True
    then have "n \<in> dd_recorded dirs" "holds_data env [(n, v)] n"
      using assms that by (auto simp: protected_def)
    then have "install_item env dirs i s = (Inr (), s)" if "?P s" for s
      using True that holds_data_single [OF that] by (simp add: install_item_def sbind_def)
    then show ?thesis by (simp add: triple_def)
  qed
  have dirs: "triple ?P (ensure_dir k) (\<lambda>_. ?P) (\<lambda>_. ?P)" for k
  proof (cases "k = n")
    case True
    then have "snd (ensure_dir k s) = s" if "?P s" for s
      using that by (auto simp: ensure_dir_def split: node.split)
    then show ?thesis by (intro tripleI) (metis snd_conv)+
  qed (intro triple_keeps skeeps_rules)
  have stale_of: "triple ?P (sget (stale_entries dirs tree)) (\<lambda>x s. ?P s \<and> x \<in> range (stale_entries dirs tree)) (\<lambda>_. ?P)"
    by (rule triple_get) simp
  show ?thesis unfolding put_release_def
  proof (rule triple_bind [OF stale_of])
    fix x
    have "triple ?P (sthen (save_record dirs) (sthen (sfor remove_entry x) (sthen (sfor (install_item env dirs) tree)
        (sthen (ensure_dir ''backups'') (ensure_dir ''data''))))) (\<lambda>_. ?P) (\<lambda>_. ?P)"
      if "x \<in> range (stale_entries dirs tree)"
    proof -
      from that obtain t where x: "x = stale_entries dirs tree t" by blast
      show ?thesis unfolding x
        by (rule triple_then [OF triple_keeps [OF keeps_entry_record]], rule triple_then [OF removes],
          rule triple_then [OF triple_for_inv], rule item, assumption, rule triple_then [OF dirs dirs])
    qed
    then show "triple (\<lambda>s. ?P s \<and> x \<in> range (stale_entries dirs tree))
        (sthen (save_record dirs) (sthen (sfor remove_entry x) (sthen (sfor (install_item env dirs) tree)
        (sthen (ensure_dir ''backups'') (ensure_dir ''data''))))) (\<lambda>_. ?P) (\<lambda>_. ?P)"
      by (auto simp: triple_def)
  qed
qed

lemma adopted_shipped:
  "classify env s (Some tree) kept staged = Inr dirs \<Longrightarrow> dd_adopted dirs \<subseteq> fst ` set tree"
  by (auto simp: classify_def classified_def Let_def res_simps shipped_content_def)

lemma check_tree_Inr:
  "check_tree env tree dir dirs = Inr () \<Longrightarrow> \<forall>i\<in>set tree. fst i \<notin> reserved_entries"
  by (auto simp: check_tree_def Let_def list_ex_iff split: if_splits)

lemma after_install_protected:
  assumes "entry n s = Some v"
    and "n \<in> reserved_entries \<or> n \<in> dd_recorded dirs \<and> holds_data env [(n, v)] n"
  shows "protected env (after_install env (d_code s) shipped dirs) n v"
  using assms holds_data_single [OF assms(1), of env]
  by (auto simp: protected_def after_install_def occupied_def)

text \<open>The entries a compose file mounts read-write, and the entries the record names.\<close>

definition mounts_rw :: "release_env \<Rightarrow> entries \<Rightarrow> string \<Rightarrow> bool" where
  "mounts_rw env dir n \<longleftrightarrow> (case bind_dirs env dir False of Inr binds \<Rightarrow> n \<in> read_write binds | Inl _ \<Rightarrow> False)"

definition record_names :: "disk \<Rightarrow> string \<Rightarrow> bool" where
  "record_names s n \<longleftrightarrow> (case load_record (d_record s) of Inr (Some ns) \<Rightarrow> n \<in> ns | _ \<Rightarrow> False)"

lemma classify_records:
  assumes "classify_for env staged (Some tree) s = Inr dirs" "holds_data env (d_code s) n"
    and "mounts_rw env (d_code s) n \<or> mounts_rw env tree n \<or> record_names s n" "n \<notin> reserved_entries"
  shows "n \<in> dd_recorded dirs"
proof -
  have c: "classify env s (Some tree) (kept_trees s) staged = Inr dirs" using assms(1) by (simp add: classify_for_def)
  obtain live release stored where read: "bind_dirs env (d_code s) False = Inr live" "bind_dirs env tree False = Inr release"
    "load_record (d_record s) = Inr stored" using c by (auto simp: classify_def res_simps)
  have occ: "occupied env (d_code s) n" using assms(2) by (simp add: occupied_def)
  have "n \<in> read_write live \<union> (case stored of Some ns \<Rightarrow> ns | None \<Rightarrow> {}) \<or> n \<in> read_write release"
    using assms(3) read by (auto simp: mounts_rw_def record_names_def split: option.splits)
  then show ?thesis
    using classify_records_data [OF c read(1,3) _ occ assms(4)] classify_records_release [OF c read(2) _ assms(4)] by blast
qed

text \<open>Data that an install finds recorded is the same after it.\<close>

lemma recorded_kept:
  assumes "classify_for env staged (Some tree) s = Inr dirs" "entry n s = Some v"
    and "n \<in> reserved_entries \<or> n \<in> dd_recorded dirs \<and> holds_data env (d_code s) n"
    and "install_release env staged tree s = (r, s')"
  shows "entry n s' = Some v"
proof (cases "check_tree env tree (d_code s) dirs")
  case (Inl e)
  then show ?thesis using assms by (simp add: install_release_def sbind_def sthen_def)
next
  case (Inr u)
  then have tree: "\<forall>i\<in>set tree. fst i \<notin> reserved_entries" by (simp add: check_tree_Inr)
  have shipped: "dd_adopted dirs \<subseteq> fst ` set tree"
    using assms(1) adopted_shipped by (simp add: classify_for_def)
  have held: "n \<in> reserved_entries \<or> n \<in> dd_recorded dirs \<and> holds_data env [(n, v)] n"
    using assms(2,3) holds_data_single by blast
  have "n \<notin> dd_adopted dirs"
    using held tree shipped adopted_not_recorded [OF assms(1) [unfolded classify_for_def]] by auto
  moreover have "finite (dd_adopted dirs)" using shipped finite_subset by blast
  ultimately have start: "skeeps (entry n) (start_record env dirs)" by (rule keeps_entry_start [rotated])
  let ?P = "\<lambda>s. entry n s = Some v"
  let ?rest = "sthen (sbind (sget has_record) (\<lambda>r. if r then sret () else start_record env dirs))
     (sbind (sget (\<lambda>s. after_install env (d_code s) (fst ` set tree) dirs)) (\<lambda>dirs'.
     put_release env dirs' tree))"
  have "triple ?P ?rest (\<lambda>_. ?P) (\<lambda>_. ?P)"
  proof (rule triple_then)
    show "triple ?P (sbind (sget has_record) (\<lambda>r. if r then sret () else start_record env dirs)) (\<lambda>_. ?P) (\<lambda>_. ?P)"
      by (rule triple_keeps) (intro skeeps_rules start)
    show "triple ?P (sbind (sget (\<lambda>s. after_install env (d_code s) (fst ` set tree) dirs))
        (\<lambda>dirs'. put_release env dirs' tree)) (\<lambda>_. ?P) (\<lambda>_. ?P)"
    proof (rule triple_bind)
      show "triple ?P (sget (\<lambda>s. after_install env (d_code s) (fst ` set tree) dirs))
          (\<lambda>dirs' s. ?P s \<and> protected env dirs' n v) (\<lambda>_. ?P)"
        by (rule triple_get) (simp add: after_install_protected [OF _ held])
      show "triple (\<lambda>s. ?P s \<and> protected env dirs' n v) (put_release env dirs' tree) (\<lambda>_. ?P) (\<lambda>_. ?P)" for dirs'
        using put_release_keeps [OF _ tree] by (cases "protected env dirs' n v") (auto simp: triple_def)
    qed
  qed
  moreover have "install_release env staged tree s = ?rest s"
    using Inr assms(1) by (simp add: install_release_def sbind_def sthen_def)
  ultimately show ?thesis using assms(2,4) by (cases r) (auto simp: triple_def)
qed

text \<open>C4. Data an app writes survives every install: an entry that holds data and that the compose file
  of the live release mounts read-write, or that of the incoming release does, or the record of data directories
  names, and every box-owned entry (secrets, backups, suppressions), is the same after an install as before,
  whether the install succeeds, is refused, fails at any step or dies at any step.\<close>

theorem install_keeps_data:
  assumes "entry n s = Some v"
    and "n \<in> reserved_entries
      \<or> holds_data env (d_code s) n \<and> (mounts_rw env (d_code s) n \<or> mounts_rw env tree n \<or> record_names s n)"
    and "install_release env staged tree s = (r, s')"
  shows "entry n s' = Some v"
proof (cases "classify_for env staged (Some tree) s")
  case (Inl e)
  then show ?thesis using assms by (simp add: install_release_def sbind_def)
next
  case (Inr dirs)
  have "n \<in> reserved_entries \<or> n \<in> dd_recorded dirs \<and> holds_data env (d_code s) n"
    using assms(2) classify_records [OF Inr] by blast
  then show ?thesis using recorded_kept [OF Inr assms(1) _ assms(3)] by blast
qed

definition example_yaml :: "string \<Rightarrow> pyval option" where
  "example_yaml t = Some (PDict (if t = ''live'' then
     [(PStr ''services'', PDict [(PStr ''web'', PDict [(PStr ''volumes'', PList [PStr ''./uploads:/u''])])])]
     else []))"

definition example_env :: release_env where
  "example_env = \<lparr> re_project = ''/p'', re_host = no_links, re_yaml = example_yaml,
     re_follow = (\<lambda>_. None), re_unlistable = (\<lambda>_. False), re_remapped = Some False,
     re_owned = (\<lambda>_. True), re_stamp = ''now'' \<rparr>"

definition example_uploads :: node where "example_uploads = Dir [(''a.png'', File ''x'')]"

definition example_disk :: disk where
  "example_disk = \<lparr> d_names = (\<lambda>_. None),
     d_code = [(''compose.yml'', File ''live''), (''old.py'', File ''1''), (''uploads'', example_uploads)],
     d_record = Absent, d_retained = [], d_txn = Absent, d_head = No_Repo, d_steps = [Goes, Goes, Goes, Dies 0] \<rparr>"

definition example_tree :: entries where
  "example_tree = [(''compose.yml'', File ''new''), (''app.py'', File ''2'')]"

theorem install_keeps_data_witness:
  "entry ''uploads'' (snd (install_release example_env None example_tree example_disk)) = Some example_uploads"
proof -
  have "entry ''uploads'' example_disk = Some example_uploads" "holds_data example_env (d_code example_disk) ''uploads''"
    "mounts_rw example_env (d_code example_disk) ''uploads''" by code_simp+
  then show ?thesis using install_keeps_data [where n = "''uploads''" and s = example_disk and v = example_uploads and env = example_env] by (metis surjective_pairing)
qed

section \<open>The code is the release\<close>

lemma triple_disk_step_post:
  assumes "\<And>s. P s \<Longrightarrow> Q () (go s)" "blind P"
  shows "triple P (disk_step go part) Q (\<lambda>_ _. True)"
  using assms unfolding triple_def disk_step_def blind_def
  by (auto split: list.split outcome.split)

lemma refresh_result:
  assumes "distinct (map fst es)"
  shows "triple (is_dir_entry name) (refresh_dir_in_place name es)
    (\<lambda>_ s. entry name s = Some (Dir es)) (\<lambda>_ _. True)"
  unfolding refresh_dir_in_place_def
proof (rule triple_bind)
  show "triple (is_dir_entry name) (sget (children name)) (\<lambda>old s. entry name s = Some (Dir old)) (\<lambda>_ _. True)"
    by (rule triple_get) (auto simp: is_dir_entry_def children_def split: option.splits node.splits)
  fix old :: entries
  define K where "K n \<longleftrightarrow> n \<in> fst ` set old" for n
  let ?I = "\<lambda>(ys :: entries) s. \<exists>zs. entry name s = Some (Dir zs) \<and> (\<forall>p\<in>set zs. fst p \<notin> fst ` set ys \<and> K (fst p))"
  have "triple (?I []) (sfor (\<lambda>(c, _). remove_child name c) old) (\<lambda>_. ?I old) (\<lambda>_ _. True)"
    by (rule triple_for [where I = ?I])
      (auto simp: remove_child_def children_def blind_def intro!: triple_disk_step_post split: prod.split)
  then have emptied: "triple (\<lambda>s. entry name s = Some (Dir old)) (sfor (\<lambda>(c, _). remove_child name c) old)
      (\<lambda>_ s. entry name s = Some (Dir [])) (\<lambda>_ _. True)"
    proof (rule triple_post [OF triple_pre])
      fix s assume "?I old s"
      then obtain zs where zs: "entry name s = Some (Dir zs)" "\<forall>p\<in>set zs. p \<notin> set zs" by (auto simp: K_def)
      from zs(2) have "zs = []" by (cases zs) auto
      with zs(1) show "entry name s = Some (Dir [])" by simp
    qed (auto simp: K_def)
  have "triple (\<lambda>s. entry name s = Some (Dir [])) (sfor (copy_child name) es)
      (\<lambda>_ s. entry name s = Some (Dir es)) (\<lambda>_ _. True)"
  proof (rule triple_for [where I = "\<lambda>ys s. entry name s = Some (Dir ys)"])
    fix ys x zs assume es: "es = ys @ x # zs"
    obtain c e where x: "x = (c, e)" by (cases x)
    have "c \<notin> fst ` set ys" using assms es x by auto
    then show "triple (\<lambda>s. entry name s = Some (Dir ys)) (copy_child name x)
        (\<lambda>_ s. entry name s = Some (Dir (ys @ [x]))) (\<lambda>_ _. True)"
      unfolding x copy_child_def prod.case
      by (intro triple_disk_step_post) (simp_all add: children_def dset_new blind_def)
  qed
  with emptied show "triple (\<lambda>s. entry name s = Some (Dir old))
      (sthen (sfor (\<lambda>(c, _). remove_child name c) old) (sfor (copy_child name) es))
      (\<lambda>_ s. entry name s = Some (Dir es)) (\<lambda>_ _. True)"
    by (rule triple_then)
qed

lemma copy_result: "triple (\<lambda>_. True) (copy_entry name e) (\<lambda>_ s. entry name s = Some e) (\<lambda>_ _. True)"
  by (cases e) (auto simp: copy_entry_def whole_step_def blind_def intro!: triple_disk_step_post)

lemma remove_result: "triple (\<lambda>_. True) (remove_entry name) (\<lambda>_ s. entry name s = None) (\<lambda>_ _. True)"
proof -
  have "triple (\<lambda>_. True) (disk_step (del_entry name) part) (\<lambda>_ s. entry name s = None) (\<lambda>_ _. True)" for part
    by (rule triple_disk_step_post) (simp_all add: blind_def)
  then show ?thesis
    by (auto simp: triple_def remove_entry_def whole_step_def split: option.split node.split)
qed

text \<open>Every directory of a release lists each name once.\<close>

definition listed_once :: "entries \<Rightarrow> bool" where
  "listed_once tree \<longleftrightarrow> distinct (map fst tree)
     \<and> (\<forall>(n, e)\<in>set tree. case e of Dir es \<Rightarrow> distinct (map fst es) | _ \<Rightarrow> True)"

lemma install_entry_result:
  assumes "case e of Dir es \<Rightarrow> distinct (map fst es) | _ \<Rightarrow> True"
  shows "triple (\<lambda>_. True) (install_entry (name, e)) (\<lambda>_ s. entry name s = Some e) (\<lambda>_ _. True)"
  unfolding install_entry_def prod.case
proof (rule triple_bind)
  show "triple (\<lambda>_. True) (sget (is_dir_entry name)) (\<lambda>d s. d = is_dir_entry name s) (\<lambda>_ _. True)"
    by (rule triple_get) simp
  have replaced: "triple (\<lambda>s. d = is_dir_entry name s) (sthen (remove_entry name) (copy_entry name e))
      (\<lambda>_ s. entry name s = Some e) (\<lambda>_ _. True)" for d
    by (rule triple_then [OF triple_pre [OF remove_result] triple_pre [OF copy_result]]) simp_all
  fix d
  have refreshed: "triple (\<lambda>s. d = is_dir_entry name s) (refresh_dir_in_place name es)
      (\<lambda>_ s. entry name s = Some (Dir es)) (\<lambda>_ _. True)" if "d" "distinct (map fst es)" for es
    by (rule triple_pre [OF refresh_result [OF that(2)]]) (use that(1) in auto)
  show "triple (\<lambda>s. d = is_dir_entry name s)
      (case e of Dir es \<Rightarrow> if d then refresh_dir_in_place name es else sthen (remove_entry name) (copy_entry name e)
       | _ \<Rightarrow> sthen (remove_entry name) (copy_entry name e)) (\<lambda>_ s. entry name s = Some e) (\<lambda>_ _. True)"
  proof (cases "d \<and> is_dir e")
    case True
    then show ?thesis using assms refreshed by (cases e) auto
  next
    case False
    then show ?thesis using replaced [of d] by (cases e) auto
  qed
qed

lemma triple_and_keeps:
  assumes "triple P m Q E" "skeeps g m"
  shows "triple (\<lambda>s. P s \<and> g s = v) m (\<lambda>x s. Q x s \<and> g s = v) E"
  using assms skeepsD [OF assms(2)] by (auto simp: triple_def split: prod.splits sum.splits)

lemma install_items:
  assumes "listed_once tree"
  shows "triple (\<lambda>_. True) (sfor (install_item env dirs) tree)
    (\<lambda>_ s. \<forall>(n, e)\<in>set tree. n \<notin> dd_recorded dirs \<longrightarrow> entry n s = Some e) (\<lambda>_ _. True)"
proof -
  let ?I = "\<lambda>ys s. \<forall>(n, e)\<in>set ys. n \<notin> dd_recorded dirs \<longrightarrow> entry n s = Some e"
  have "triple (?I []) (sfor (install_item env dirs) tree) (\<lambda>_. ?I tree) (\<lambda>_ _. True)"
  proof (rule triple_for [where I = ?I])
    fix ys x zs assume tree: "tree = ys @ x # zs"
    obtain k e where x: "x = (k, e)" by (cases x)
    have sub: "case e of Dir es \<Rightarrow> distinct (map fst es) | _ \<Rightarrow> True"
      using assms tree x by (auto simp: listed_once_def)
    have new: "n \<noteq> k" if "(n, e') \<in> set ys" for n e'
    proof -
      have "distinct (map fst ys @ [k])" using assms tree x by (simp add: listed_once_def)
      then show ?thesis using that by (auto simp: rev_image_eqI)
    qed
    have item: "triple (\<lambda>_. True) (install_item env dirs x)
        (\<lambda>_ s. k \<notin> dd_recorded dirs \<longrightarrow> entry k s = Some e) (\<lambda>_ _. True)"
    proof (cases "k \<in> dd_recorded dirs")
      case True
      then show ?thesis by (simp add: triple_def split: prod.split sum.split)
    next
      case False
      then show ?thesis using install_entry_result [OF sub]
        by (simp add: install_item_def x triple_def sbind_def)
    qed
    have old: "skeeps (entry n) (install_item env dirs x)" if "(n, e') \<in> set ys" for n e'
      using new [OF that] x unfolding install_item_def by (intro skeeps_rules) auto
    show "triple (?I ys) (install_item env dirs x) (\<lambda>_. ?I (ys @ [x])) (\<lambda>_ _. True)"
    proof (rule tripleI)
      fix s u t assume s: "?I ys s" and run: "install_item env dirs x s = (Inr u, t)"
      have "k \<notin> dd_recorded dirs \<longrightarrow> entry k t = Some e" using tripleD_Inr [OF item _ run] by simp
      moreover have "entry n t = entry n s" if "(n, e') \<in> set ys" for n e'
        using skeepsD [OF old [OF that] run] .
      ultimately show "?I (ys @ [x]) t" using s x by auto
    qed simp
  qed
  then show ?thesis by simp
qed

lemma stale_gone:
  "triple (\<lambda>_. True) (sfor remove_entry ns) (\<lambda>_ s. \<forall>n\<in>set ns. entry n s = None) (\<lambda>_ _. True)"
proof -
  let ?I = "\<lambda>ys s. \<forall>n\<in>set ys. entry n s = None"
  have "triple (?I []) (sfor remove_entry ns) (\<lambda>_. ?I ns) (\<lambda>_ _. True)"
  proof (rule triple_for [where I = ?I])
    fix ys x zs
    show "triple (?I ys) (remove_entry x) (\<lambda>_. ?I (ys @ [x])) (\<lambda>_ _. True)"
    proof (rule tripleI)
      fix s u t assume s: "?I ys s" and run: "remove_entry x s = (Inr u, t)"
      have "entry x t = None" using tripleD_Inr [OF remove_result _ run] by simp
      moreover have "entry n t = entry n s" if "n \<noteq> x" for n
        by (rule skeepsD [OF keeps_other_entries(1) run]) (use that in simp)
      ultimately show "?I (ys @ [x]) t" using s by (metis (no_types) rotate1.simps(2) set_ConsD set_rotate1)
    qed simp
  qed
  then show ?thesis by simp
qed

text \<open>C21. An install that succeeds makes the project's code exactly the release: every entry the release
  ships that is not recorded data is the release's, and every entry it does not ship that is not
  box state is gone.\<close>

theorem installed_code_is_release:
  assumes "put_release env dirs tree s = (Inr u, s')" "listed_once tree"
    and "\<forall>i\<in>set tree. fst i \<notin> reserved_entries"
  shows "(\<forall>(n, e)\<in>set tree. n \<notin> dd_recorded dirs \<longrightarrow> entry n s' = Some e)
    \<and> (\<forall>n. n \<notin> box_state dirs \<and> n \<notin> fst ` set tree \<longrightarrow> entry n s' = None)"
proof -
  let ?stale = "stale_entries dirs tree s"
  obtain s1 where s1: "save_record dirs s = (Inr (), s1)" 
    and rest1: "sthen (sfor remove_entry ?stale) (sthen (sfor (install_item env dirs) tree)
     (sthen (ensure_dir ''backups'') (ensure_dir ''data''))) s1 = (Inr u, s')"
    using assms(1) by (auto simp: put_release_def sbind_Inr sthen_def)
  obtain s2 where s2: "sfor remove_entry ?stale s1 = (Inr (), s2)"
    and rest2: "sthen (sfor (install_item env dirs) tree)
     (sthen (ensure_dir ''backups'') (ensure_dir ''data'')) s2 = (Inr u, s')"
    using rest1 by (auto simp: sbind_Inr sthen_def)
  obtain s3 where s3: "sfor (install_item env dirs) tree s2 = (Inr (), s3)"
    and rest3: "sthen (ensure_dir ''backups'') (ensure_dir ''data'') s3 = (Inr u, s')"
    using rest2 by (auto simp: sbind_Inr sthen_def)
  have last: "entry n s' = entry n s3" if "n \<notin> reserved_entries" for n
  proof -
    have "''backups'' \<noteq> n" "''data'' \<noteq> n" using that by (auto simp: reserved_entries_def box_owned_entries_def)
    then have "skeeps (entry n) (sthen (ensure_dir ''backups'') (ensure_dir ''data''))"
      by (intro skeeps_then keeps_other_entries)
    then show ?thesis by (rule skeepsD) (rule rest3)
  qed
  have items: "\<forall>(n, e)\<in>set tree. n \<notin> dd_recorded dirs \<longrightarrow> entry n s3 = Some e"
    using tripleD_Inr [OF install_items [OF assms(2)] _ s3] by simp
  have gone: "entry n s' = None" if n: "n \<notin> box_state dirs" "n \<notin> fst ` set tree" for n
  proof -
    have kept: "entry n s1 = entry n s" using skeepsD [OF keeps_entry_record s1] .
    have "entry n s2 = None"
    proof (cases "entry n s")
      case None
      have "entry n s2 = entry n s1" if "n \<notin> set ?stale"
        using that by (intro skeepsD [OF skeeps_for s2] keeps_other_entries) auto
      moreover have "n \<notin> set ?stale" using None by (auto simp: stale_entries_def map_of_eq_None_iff)
      ultimately show ?thesis using None kept by simp
    next
      case (Some v)
      then have "n \<in> set ?stale" using n by (force simp: stale_entries_def dest: map_of_SomeD)
      then show ?thesis using tripleD_Inr [OF stale_gone _ s2] by simp
    qed
    moreover have "skeeps (entry n) (sfor (install_item env dirs) tree)"
      using n(2) by (intro skeeps_for) (auto simp: install_item_def intro!: skeeps_rules)
    then have "entry n s3 = entry n s2" by (rule skeepsD) (rule s3)
    moreover have "n \<notin> reserved_entries" using n(1) by (simp add: box_state_def)
    ultimately show ?thesis using last by simp
  qed
  show ?thesis using items last gone assms(3) by fastforce
qed

definition example_dirs :: data_dirs where
  "example_dirs = \<lparr> dd_release = {}, dd_recorded = {''uploads''}, dd_mounted = {''uploads''}, dd_seeded = {},
     dd_adopted = {}, dd_staged = {}, dd_staged_rw = {} \<rparr>"

theorem installed_code_is_release_witness:
  "\<exists>s'. put_release example_env example_dirs example_tree (example_disk\<lparr>d_steps := []\<rparr>) = (Inr (), s')
     \<and> entry ''app.py'' s' = Some (File ''2'') \<and> entry ''old.py'' s' = None"
proof -
  have "fst (put_release example_env example_dirs example_tree (example_disk\<lparr>d_steps := []\<rparr>)) = Inr ()"
    by code_simp
  then obtain s' where run: "put_release example_env example_dirs example_tree (example_disk\<lparr>d_steps := []\<rparr>) = (Inr (), s')"
    by (metis prod.collapse)
  have tree: "listed_once example_tree" "\<forall>i\<in>set example_tree. fst i \<notin> reserved_entries" by code_simp+
  have "''old.py'' \<notin> box_state example_dirs" "''old.py'' \<notin> fst ` set example_tree"
    "(''app.py'', File ''2'') \<in> set example_tree" "''app.py'' \<notin> dd_recorded example_dirs" by code_simp+
  then show ?thesis using installed_code_is_release [OF run tree] run by blast
qed

end
