(* ===== verification/Release_Keep.thy ===== *)
theory Release_Keep
  imports Release_Install Py_Json
begin

text \<open>
  \<^verbatim>\<open>src/boxmunge/release_keep.py\<close>: the previous release an install keeps, put
  aside and put back, with the transaction record of \<^verbatim>\<open>release_txn.py\<close> it reads and
  the texts of \<^verbatim>\<open>release.py\<close> it writes.
\<close>

section \<open>The texts\<close>

definition newline :: string where "newline = [CHR 0x0A]"

definition live_meta_text :: "string \<Rightarrow> string" where
  "live_meta_text ref = ''{'' @ json_member (''ref'', ref) @ ''}'' @ newline"

definition previous_meta_text :: "string \<Rightarrow> string \<Rightarrow> string \<Rightarrow> string \<Rightarrow> string" where
  "previous_meta_text ref data_snapshot replaced_at replaced_by =
     ''{'' @ newline @ join ('','' @ newline) (map (\<lambda>m. ''  '' @ json_member m)
       [(''ref'', ref), (''data_snapshot'', data_snapshot), (''replaced_at'', replaced_at),
        (''replaced_by'', replaced_by)]) @ newline @ ''}'' @ newline"

section \<open>The transaction record\<close>

datatype source = From_Bundle | From_Staged | From_Rollback | From_Git

datatype phase = Committed | Previous_Kept | Installed | Data_Restored | Hook_Started | Switching
  | Abandoning | Code_Restored

datatype touched = Untouched | Touched_Hook | Touched_Switching

record expected =
  ex_live :: "string option"
  ex_previous :: "string option"
  ex_head :: "string option"

record install_txn =
  tx_id :: string
  tx_source :: source
  tx_ref :: string
  tx_replaced :: "string option"
  tx_staged :: "string option"
  tx_snapshot :: string
  tx_phase :: phase
  tx_expect :: expected
  tx_previous_before :: "string option"
  tx_had_previous :: bool
  tx_touched :: touched
  tx_started :: string

definition phases_order :: "phase list" where
  "phases_order = [Committed, Previous_Kept, Installed, Data_Restored, Hook_Started, Switching]"

definition abandon_phases :: "phase list" where
  "abandon_phases = [Abandoning, Code_Restored]"

fun rank :: "phase \<Rightarrow> nat" where
  "rank Committed = 0" | "rank Previous_Kept = 1" | "rank Installed = 2" | "rank Data_Restored = 3"
| "rank Hook_Started = 4" | "rank Switching = 5" | "rank Abandoning = 6" | "rank Code_Restored = 7"

definition reached :: "install_txn \<Rightarrow> phase \<Rightarrow> bool" where
  "reached t p = (if tx_phase t \<in> set abandon_phases then p = Committed else rank p \<le> rank (tx_phase t))"

definition abandoning :: "install_txn \<Rightarrow> bool" where
  "abandoning t \<longleftrightarrow> tx_phase t \<in> set abandon_phases"

definition data_may_have_changed :: "install_txn \<Rightarrow> bool" where
  "data_may_have_changed t \<longleftrightarrow> tx_source t = From_Rollback \<or> tx_touched t \<noteq> Untouched \<or> reached t Hook_Started"

definition containers_may_run_other :: "install_txn \<Rightarrow> bool" where
  "containers_may_run_other t \<longleftrightarrow> tx_touched t = Touched_Switching \<or> reached t Switching"

definition txn_phases :: "install_txn \<Rightarrow> phase list" where
  "txn_phases t = (if tx_source t = From_Rollback
     then [Committed, Installed, Data_Restored, Hook_Started, Switching]
     else [Committed, Previous_Kept, Installed, Hook_Started, Switching])"

section \<open>Keeping and putting back\<close>

definition kept_previous_text :: "install_txn \<Rightarrow> string" where
  "kept_previous_text t = previous_meta_text (case tx_replaced t of Some r \<Rightarrow> r | None \<Rightarrow> [])
     (tx_snapshot t) (tx_started t) (tx_ref t)"

text \<open>One entry copied into the directory being built.\<close>

definition copy_into_building :: "string \<times> node \<Rightarrow> unit dio" where
  "copy_into_building i = disk_step
     (\<lambda>s. case d_names s Building of
        Some (Dir es) \<Rightarrow> set_name Building (Some (Dir (es @ [i]))) s | _ \<Rightarrow> s)
     (\<lambda>n s. case (d_names s Building, snd i) of
        (Some (Dir es), Dir sub) \<Rightarrow>
          if n = 0 then s else set_name Building (Some (Dir (es @ [(fst i, Dir (take (n - 1) sub))]))) s
      | _ \<Rightarrow> s)"

definition ensure_record :: "release_env \<Rightarrow> entries option \<Rightarrow> entries option \<Rightarrow> unit dio" where
  "ensure_record env staged tree = sbind (sget has_record) (\<lambda>r. if r then sret ()
     else sbind (sbind (sget (classify_for env staged tree)) slift) (start_record env))"

text \<open>The files of \<open>building\<close> are synced before it is renamed.\<close>

definition sync_tree :: "unit dio" where
  "sync_tree = fsync_dir"

definition rename_if_there :: "(place \<Rightarrow> place \<Rightarrow> unit dio) \<Rightarrow> place \<Rightarrow> place \<Rightarrow> unit dio" where
  "rename_if_there ren a b = sbind (sget (lexists a)) (\<lambda>x. swhen x (ren a b))"

definition swap_previous :: "install_txn \<Rightarrow> unit dio" where
  "swap_previous t =
     sthen sync_tree
     (sthen (rename_if_there durable_rename_dir Previous Superseded)
     (sthen (rename_if_there durable_rename Previous_Json Superseded_Json)
     (sthen (durable_rename_dir Building Previous)
     (atomic_write_text Previous_Json (kept_previous_text t)))))"

definition build_copy :: "release_env \<Rightarrow> entries option \<Rightarrow> entries option \<Rightarrow> unit dio" where
  "build_copy env staged tree =
     sthen (discard_dir Building)
     (sthen (mkdir_p_deploy Building)
     (sbind (sbind (sget (\<lambda>s. rbind (classify_for env staged tree s) (\<lambda>dirs. Inr (live_code_entries dirs s)))) slift)
        (sfor copy_into_building)))"

definition keep_previous_release_txn :: "release_env \<Rightarrow> entries option \<Rightarrow> install_txn
    \<Rightarrow> entries option \<Rightarrow> unit dio" where
  "keep_previous_release_txn env staged t tree =
     sthen (build_copy env staged tree)
     (sthen (ensure_record env staged tree) (swap_previous t))"

definition put_back_dir :: "install_txn \<Rightarrow> unit dio" where
  "put_back_dir t = sbind (sget (lexists Superseded)) (\<lambda>x.
     if x then sthen (discard_dir Previous) (durable_rename_dir Superseded Previous)
     else if \<not> tx_had_previous t then discard_dir Previous else sret ())"

definition put_back_json :: "install_txn \<Rightarrow> unit dio" where
  "put_back_json t = sbind (sget (\<lambda>s. (lexists Superseded_Json s, lexists Previous_Json s))) (\<lambda>(x, y).
     if x then sthen (swhen y (unlink Previous_Json)) (durable_rename Superseded_Json Previous_Json)
     else if tx_previous_before t = None \<and> y then sthen (unlink Previous_Json) fsync_dir
     else sret ())"

definition restore_superseded :: "install_txn \<Rightarrow> unit dio" where
  "restore_superseded t = sthen (discard_dir Building) (sthen (put_back_dir t) (put_back_json t))"

definition rescue_superseded :: "unit dio" where
  "rescue_superseded =
     sthen (sbind (sget (\<lambda>s. lexists Superseded s \<and> \<not> lexists Previous s)) (\<lambda>x.
        swhen x (durable_rename_dir Superseded Previous)))
     (sbind (sget (\<lambda>s. lexists Superseded_Json s \<and> \<not> lexists Previous_Json s)) (\<lambda>x.
        swhen x (durable_rename Superseded_Json Previous_Json)))"

definition discard_superseded :: "unit dio" where
  "discard_superseded = sthen (discard_dir Superseded)
     (sbind (sget (lexists Superseded_Json)) (\<lambda>x. swhen x (sthen (unlink Superseded_Json) fsync_dir)))"

definition ensure_kept_pairing :: "install_txn \<Rightarrow> unit dio" where
  "ensure_kept_pairing t = (if tx_source t = From_Rollback \<or> tx_replaced t = None \<or> abandoning t
       \<or> \<not> reached t Previous_Kept then sret ()
     else sbind (sget (\<lambda>s. (dir_at Previous s, d_names s Previous_Json))) (\<lambda>(d, j).
       if \<not> d \<or> j = Some (File (kept_previous_text t)) then sret ()
       else atomic_write_text Previous_Json (kept_previous_text t)))"

end
