(* ===== verification/Release_Keep_Laws.thy ===== *)
theory Release_Keep_Laws
  imports Release_Keep
begin

text \<open>
  The keep is undone whatever cuts it off: an abstract rollback target that every step
  of the keep and of the undoing leaves alone, and the proof that undoing brings it back.
\<close>

section \<open>What an undo gives back\<close>

type_synonym target = "node option \<times> node option"

definition rollback_target :: "disk \<Rightarrow> target" where
  "rollback_target s = (d_names s Previous, d_names s Previous_Json)"

definition undo_target :: "install_txn \<Rightarrow> disk \<Rightarrow> target" where
  "undo_target t s =
     (if lexists Superseded s then d_names s Superseded
        else if tx_had_previous t then d_names s Previous else None,
      if lexists Superseded_Json s then d_names s Superseded_Json
        else if tx_previous_before t \<noteq> None then d_names s Previous_Json else None)"

definition file_or_none :: "node option \<Rightarrow> bool" where
  "file_or_none v = (case v of None \<Rightarrow> True | Some n \<Rightarrow> is_regular n)"

definition shaped :: "disk \<Rightarrow> bool" where
  "shaped s \<longleftrightarrow> dir_or_none (d_names s Building) \<and> dir_or_none (d_names s Previous)
     \<and> dir_or_none (d_names s Superseded) \<and> dir_or_none (d_names s Incoming)
     \<and> file_or_none (d_names s Previous_Json) \<and> file_or_none (d_names s Superseded_Json)"

definition nothing_aside :: "disk \<Rightarrow> bool" where
  "nothing_aside s \<longleftrightarrow> \<not> lexists Superseded s \<and> \<not> lexists Superseded_Json s"

text \<open>What the record says of the target the install found.\<close>

definition records_target :: "install_txn \<Rightarrow> target \<Rightarrow> bool" where
  "records_target t T \<longleftrightarrow> (tx_had_previous t \<longleftrightarrow> fst T \<noteq> None) \<and> (tx_previous_before t = None \<longleftrightarrow> snd T = None)"

definition clean :: "target \<Rightarrow> disk \<Rightarrow> bool" where
  "clean T s \<longleftrightarrow> shaped s \<and> nothing_aside s \<and> rollback_target s = T"

text \<open>The metadata in place is the old one, the keep's own, or aside as a whole.\<close>

definition explained :: "install_txn \<Rightarrow> target \<Rightarrow> disk \<Rightarrow> bool" where
  "explained t T s \<longleftrightarrow> d_names s Previous_Json = snd T
     \<or> d_names s Previous_Json = Some (File (kept_previous_text t))
     \<or> d_names s Previous_Json = None \<and> d_names s Superseded_Json = snd T"

definition undoable :: "install_txn \<Rightarrow> target \<Rightarrow> disk \<Rightarrow> bool" where
  "undoable t T s \<longleftrightarrow> shaped s \<and> undo_target t s = T \<and> explained t T s"

lemmas keep_defs = rollback_target_def undo_target_def shaped_def nothing_aside_def clean_def undoable_def
  records_target_def lexists_def dir_at_def

lemma file_there: "file_or_none v \<Longrightarrow> v \<noteq> None \<Longrightarrow> \<exists>t. v = Some (File t)"
  by (auto simp: file_or_none_def is_regular_def split: node.splits)

lemma dir_or_none_simps [simp]: "dir_or_none None" "dir_or_none (Some (Dir es))"
  by (simp_all add: dir_or_none_def)

lemma file_or_none_simps [simp]: "file_or_none None" "file_or_none (Some (File t))"
  by (simp_all add: file_or_none_def)

lemma explained_other [simp]:
  "p \<notin> {Previous_Json, Superseded_Json} \<Longrightarrow> explained t T (set_name p v s) = explained t T s"
  "explained t T (s\<lparr>d_steps := ss\<rparr>) = explained t T s"
  by (auto simp: explained_def)

lemma plain_keep [simp]:
  "plain (clean T)" "plain (undoable t T)" "plain shaped" "blind (clean T)" "blind (undoable t T)"
  by (simp_all add: plain_def blind_def keep_defs)

lemma keep_steps [simp]: "clean T (s\<lparr>d_steps := os\<rparr>) = clean T s" "undoable t T (s\<lparr>d_steps := os\<rparr>) = undoable t T s"
  by (simp_all add: keep_defs)

lemma clean_undoable: "records_target t T \<Longrightarrow> clean T s \<Longrightarrow> undoable t T s"
  by (auto simp: keep_defs explained_def)

section \<open>Undoing\<close>

lemma runs_split: "(runs live P s \<and> b s) = runs live (\<lambda>s. P s \<and> b s) s"
  by (auto simp: runs_def)

text \<open>A test of the disk that decides which steps follow.\<close>

lemma triple_test:
  assumes "triple (runs live (\<lambda>s. P s \<and> b s)) m Q E" "triple (runs live (\<lambda>s. P s \<and> \<not> b s)) n Q E"
  shows "triple (runs live P) (sbind (sget b) (\<lambda>x. if x then m else n)) Q E"
proof (rule triple_cases [where b = b])
  show "triple (\<lambda>s. runs live P s \<and> b s) m Q E" "triple (\<lambda>s. runs live P s \<and> \<not> b s) n Q E"
    using assms by (auto simp: triple_def runs_def)
qed (simp_all add: sbind_def)

lemma triple_test_when:
  assumes "triple (runs live (\<lambda>s. P s \<and> b s)) m (\<lambda>_. runs live Q) E" "\<And>s. P s \<Longrightarrow> \<not> b s \<Longrightarrow> Q s"
  shows "triple (runs live P) (sbind (sget b) (\<lambda>x. swhen x m)) (\<lambda>_. runs live Q) E"
  unfolding swhen_def
  by (rule triple_test [OF assms(1)]) (use assms(2) in \<open>auto simp: runs_def intro!: triple_ret\<close>)

lemma triple_skip: "(\<And>s. P s \<Longrightarrow> Q s) \<Longrightarrow> triple (runs live P) (sret ()) (\<lambda>_. runs live Q) E"
  by (rule triple_ret) (auto simp: runs_def)

text \<open>The directory is back.\<close>

definition dir_back :: "install_txn \<Rightarrow> target \<Rightarrow> disk \<Rightarrow> bool" where
  "dir_back t T s \<longleftrightarrow> undoable t T s \<and> \<not> lexists Superseded s \<and> d_names s Previous = fst T"

lemma discard_building_undoable:
  "triple (runs live (undoable t T)) (discard_dir Building) (\<lambda>_. runs live (undoable t T)) (cut_off live (undoable t T))"
  by (rule triple_discard_dir) (auto simp: keep_defs dir_or_none_def)

lemma plain_dir_back [simp]: "plain (dir_back t T)" "blind (dir_back t T)"
  by (simp_all add: dir_back_def plain_def blind_def keep_defs)

lemma put_back_dir_undo:
  assumes "records_target t T"
  shows "triple (runs live (undoable t T)) (put_back_dir t) (\<lambda>_. runs live (dir_back t T)) (cut_off live (undoable t T))"
  unfolding put_back_dir_def
proof (rule triple_test)
  let ?S = "\<lambda>s. undoable t T s \<and> lexists Superseded s"
  let ?N = "\<lambda>s. undoable t T s \<and> lexists Superseded s \<and> \<not> lexists Previous s"
  show "triple (runs live ?S) (sthen (discard_dir Previous) (durable_rename_dir Superseded Previous))
      (\<lambda>_. runs live (dir_back t T)) (cut_off live (undoable t T))"
  proof (rule triple_then)
    show "triple (runs live ?S) (discard_dir Previous) (\<lambda>_. runs live ?N) (cut_off live (undoable t T))"
      by (rule triple_discard_dir) (auto simp: keep_defs plain_def blind_def dir_or_none_def)
    show "triple (runs live ?N) (durable_rename_dir Superseded Previous)
        (\<lambda>_. runs live (dir_back t T)) (cut_off live (undoable t T))"
    proof (rule triple_durable_rename_dir)
      fix s n assume s: "?N s" "d_names s Superseded = Some n"
      have "fst T = Some n" using s by (auto simp: keep_defs)
      then have "tx_had_previous t" using assms by (simp add: records_target_def)
      then show "dir_back t T (set_name Superseded None (set_name Previous (Some n) s))"
        using s \<open>fst T = Some n\<close> by (auto simp: dir_back_def keep_defs dir_or_none_def)
    qed (auto simp: dir_back_def keep_defs blind_def)
  qed
next
  let ?O = "\<lambda>s. undoable t T s \<and> \<not> lexists Superseded s"
  show "triple (runs live ?O) (if \<not> tx_had_previous t then discard_dir Previous else sret ())
      (\<lambda>_. runs live (dir_back t T)) (cut_off live (undoable t T))"
  proof (cases "tx_had_previous t")
    case True
    then show ?thesis by (auto simp: dir_back_def keep_defs intro!: triple_skip)
  next
    case False
    then have "triple (runs live ?O) (discard_dir Previous) (\<lambda>_. runs live (dir_back t T)) (cut_off live (undoable t T))"
      by (intro triple_discard_dir) (auto simp: dir_back_def keep_defs plain_def blind_def dir_or_none_def)
    then show ?thesis using False by simp
  qed
qed

lemma put_back_json_undo:
  assumes "records_target t T"
  shows "triple (runs live (dir_back t T)) (put_back_json t) (\<lambda>_. runs live (clean T)) (cut_off live (undoable t T))"
proof -
  let ?J = "\<lambda>s. dir_back t T s \<and> lexists Superseded_Json s"
  let ?K = "\<lambda>s. dir_back t T s \<and> lexists Superseded_Json s \<and> \<not> lexists Previous_Json s"
  let ?U = "cut_off live (undoable t T)"
  have unlinked: "triple (runs live (\<lambda>s. ?J s \<and> lexists Previous_Json s)) (unlink Previous_Json) (\<lambda>_. runs live ?K) ?U"
    by (rule triple_unlink) (auto simp: dir_back_def keep_defs explained_def file_or_none_def is_regular_def blind_def split: node.splits)
  have first: "triple (runs live ?J) (sbind (sget (lexists Previous_Json)) (\<lambda>y. swhen y (unlink Previous_Json)))
      (\<lambda>_. runs live ?K) ?U"
    by (rule triple_test_when [OF unlinked]) auto
  have second: "triple (runs live ?K) (durable_rename Superseded_Json Previous_Json) (\<lambda>_. runs live (clean T)) ?U"
  proof (rule triple_durable_rename)
    fix s x assume s: "?K s" "d_names s Superseded_Json = Some (File x)"
    have "snd T = Some (File x)" using s by (auto simp: dir_back_def keep_defs explained_def)
    then show "clean T (set_name Superseded_Json None (set_name Previous_Json (Some (File x)) s))"
      using s by (auto simp: dir_back_def keep_defs explained_def file_or_none_def prod_eq_iff)
  next
    fix s assume "clean T s" then show "undoable t T s" using assms by (rule clean_undoable [rotated])
  qed (auto simp: dir_back_def keep_defs explained_def blind_def file_or_none_def is_regular_def split: node.splits)
  have there: "triple (runs live ?J) (sbind (sget (lexists Previous_Json)) (\<lambda>y.
      sthen (swhen y (unlink Previous_Json)) (durable_rename Superseded_Json Previous_Json)))
      (\<lambda>_. runs live (clean T)) ?U"
  proof -
    have "sbind (sget (lexists Previous_Json)) (\<lambda>y. sthen (swhen y m) n)
        = sthen (sbind (sget (lexists Previous_Json)) (\<lambda>y. swhen y m)) n" for m n :: "unit dio"
      by (rule ext) (simp add: sbind_def sthen_def)
    then show ?thesis using triple_then [OF first second] by simp
  qed
  let ?A = "\<lambda>s. dir_back t T s \<and> \<not> lexists Superseded_Json s"
  have undo: "clean T s" if "undoable t T s \<and> ?A s" "tx_previous_before t \<noteq> None \<or> \<not> lexists Previous_Json s" for s
    using that assms by (auto simp: dir_back_def keep_defs explained_def prod_eq_iff)
  have gone: "triple (runs live (\<lambda>s. ?A s \<and> lexists Previous_Json s)) (sthen (unlink Previous_Json) fsync_dir)
      (\<lambda>_. runs live (clean T)) ?U" if "tx_previous_before t = None"
  proof (rule triple_then)
    show "triple (runs live (\<lambda>s. ?A s \<and> lexists Previous_Json s)) (unlink Previous_Json) (\<lambda>_. runs live (clean T)) ?U"
      by (rule triple_unlink)
        (use that in \<open>auto simp: dir_back_def keep_defs explained_def file_or_none_def is_regular_def blind_def prod_eq_iff split: node.splits\<close>)
    show "triple (runs live (clean T)) fsync_dir (\<lambda>_. runs live (clean T)) ?U"
      by (rule triple_fsync_dir) (use clean_undoable [OF assms] in auto)
  qed
  have absent: "triple (runs live ?A) (sbind (sget (lexists Previous_Json)) (\<lambda>y.
      if tx_previous_before t = None \<and> y then sthen (unlink Previous_Json) fsync_dir else sret ()))
      (\<lambda>_. runs live (clean T)) ?U"
  proof (cases "tx_previous_before t")
    case None
    then show ?thesis using gone
      by simp (rule triple_test; auto simp: dir_back_def intro!: triple_skip undo)
  next
    case (Some y)
    then have "triple (runs live ?A) (sret ()) (\<lambda>_. runs live (clean T)) ?U"
      by (auto simp: dir_back_def intro!: triple_skip undo)
    with Some show ?thesis by (simp add: triple_def sbind_def)
  qed
  show ?thesis
  proof (rule triple_unfold)
    show "triple (runs live (dir_back t T)) (sbind (sget (lexists Superseded_Json)) (\<lambda>x.
        if x then sbind (sget (lexists Previous_Json)) (\<lambda>y.
            sthen (swhen y (unlink Previous_Json)) (durable_rename Superseded_Json Previous_Json))
        else sbind (sget (lexists Previous_Json)) (\<lambda>y.
          if tx_previous_before t = None \<and> y then sthen (unlink Previous_Json) fsync_dir else sret ())))
        (\<lambda>_. runs live (clean T)) ?U"
      by (rule triple_test [OF there absent])
  qed (simp add: put_back_json_def sbind_def)
qed

lemma restore_undo:
  assumes "records_target t T"
  shows "triple (runs live (undoable t T)) (restore_superseded t) (\<lambda>_. runs live (clean T)) (cut_off live (undoable t T))"
  unfolding restore_superseded_def
  by (rule triple_then [OF discard_building_undoable
        triple_then [OF put_back_dir_undo [OF assms] put_back_json_undo [OF assms]]])

section \<open>Keeping\<close>

text \<open>The stages of the keep after the copy: each is as far as a cut-off can find it.\<close>

definition moved_dir :: "target \<Rightarrow> disk \<Rightarrow> bool" where
  "moved_dir T s \<longleftrightarrow> shaped s \<and> dir_at Building s \<and> d_names s Previous = None
     \<and> d_names s Superseded = fst T \<and> d_names s Previous_Json = snd T \<and> d_names s Superseded_Json = None"

definition moved_both :: "target \<Rightarrow> disk \<Rightarrow> bool" where
  "moved_both T s \<longleftrightarrow> shaped s \<and> dir_at Building s \<and> d_names s Previous = None
     \<and> d_names s Superseded = fst T \<and> d_names s Previous_Json = None \<and> d_names s Superseded_Json = snd T"

definition copy_in_place :: "target \<Rightarrow> disk \<Rightarrow> bool" where
  "copy_in_place T s \<longleftrightarrow> shaped s \<and> dir_at Previous s
     \<and> d_names s Superseded = fst T \<and> d_names s Previous_Json = None \<and> d_names s Superseded_Json = snd T"

definition kept :: "install_txn \<Rightarrow> target \<Rightarrow> disk \<Rightarrow> bool" where
  "kept t T s \<longleftrightarrow> shaped s \<and> dir_at Previous s \<and> d_names s Superseded = fst T
     \<and> d_names s Superseded_Json = snd T \<and> d_names s Previous_Json = Some (File (kept_previous_text t))"

lemmas stage_defs = moved_dir_def moved_both_def copy_in_place_def kept_def keep_defs

lemma stages_undoable:
  assumes "records_target t T"
  shows "moved_dir T s \<Longrightarrow> undoable t T s" "moved_both T s \<Longrightarrow> undoable t T s"
    "copy_in_place T s \<Longrightarrow> undoable t T s" "kept t T s \<Longrightarrow> undoable t T s"
  using assms by (cases T; auto simp: stage_defs explained_def)+

lemma swap_previous_keeps:
  assumes "records_target t T"
  shows "triple (runs live (\<lambda>s. clean T s \<and> dir_at Building s)) (swap_previous t)
    (\<lambda>_. runs live (kept t T)) (cut_off live (undoable t T))"
proof -
  let ?U = "cut_off live (undoable t T)"
  let ?C = "\<lambda>s. clean T s \<and> dir_at Building s"
  have C: "undoable t T s" if "?C s" for s using that clean_undoable [OF assms] by blast
  have blind: "blind ?C" "blind (moved_dir T)" "blind (moved_both T)" "blind (copy_in_place T)" "blind (kept t T)"
    by (simp_all add: blind_def stage_defs)
  have sync: "triple (runs live ?C) sync_tree (\<lambda>_. runs live ?C) ?U"
    unfolding sync_tree_def by (rule triple_fsync_dir [OF blind(1)]) (rule C)
  have dir: "triple (runs live ?C) (rename_if_there durable_rename_dir Previous Superseded) (\<lambda>_. runs live (moved_dir T)) ?U"
    unfolding rename_if_there_def
  proof (rule triple_test_when)
    show "triple (runs live (\<lambda>s. ?C s \<and> lexists Previous s)) (durable_rename_dir Previous Superseded)
        (\<lambda>_. runs live (moved_dir T)) ?U"
    proof (rule triple_durable_rename_dir)
      show "undoable t T s" if "?C s \<and> lexists Previous s" for s using C that by blast
      show "undoable t T s" if "moved_dir T s" for s using stages_undoable [OF assms] that by blast
    qed (auto simp: stage_defs blind_def dir_or_none_def)
  qed (auto simp: stage_defs)
  have json: "triple (runs live (moved_dir T)) (rename_if_there durable_rename Previous_Json Superseded_Json)
      (\<lambda>_. runs live (moved_both T)) ?U"
    unfolding rename_if_there_def
  proof (rule triple_test_when)
    show "triple (runs live (\<lambda>s. moved_dir T s \<and> lexists Previous_Json s)) (durable_rename Previous_Json Superseded_Json)
        (\<lambda>_. runs live (moved_both T)) ?U"
    proof (rule triple_durable_rename)
      show "undoable t T s" if "moved_dir T s \<and> lexists Previous_Json s" for s
        using stages_undoable [OF assms] that by blast
      show "undoable t T s" if "moved_both T s" for s using stages_undoable [OF assms] that by blast
      show "\<exists>x. d_names s Previous_Json = Some (File x)" if "moved_dir T s \<and> lexists Previous_Json s" for s
      proof -
        from that have "shaped s" "lexists Previous_Json s" by (simp_all add: moved_dir_def)
        then show ?thesis by (intro file_there) (simp_all add: shaped_def lexists_def)
      qed
      fix s x assume s: "moved_dir T s \<and> lexists Previous_Json s" "d_names s Previous_Json = Some (File x)"
      then have "snd T = Some (File x)" by (simp add: moved_dir_def)
      then show "moved_both T (set_name Previous_Json None (set_name Superseded_Json (Some (File x)) s))"
        using s by (auto simp: stage_defs)
    qed (auto simp: stage_defs blind_def)
  qed (auto simp: stage_defs)
  have place: "triple (runs live (moved_both T)) (durable_rename_dir Building Previous) (\<lambda>_. runs live (copy_in_place T)) ?U"
  proof (rule triple_durable_rename_dir)
    show "undoable t T s" if "moved_both T s" for s using stages_undoable [OF assms] that by blast
    show "undoable t T s" if "copy_in_place T s" for s using stages_undoable [OF assms] that by blast
  qed (use blind in \<open>auto simp: stage_defs dir_or_none_def split: option.splits node.splits\<close>)
  have wrote: "triple (runs live (copy_in_place T)) (atomic_write_text Previous_Json (kept_previous_text t))
      (\<lambda>_. runs live (kept t T)) ?U"
  proof (rule triple_atomic_write_text)
    show "undoable t T s" if "copy_in_place T s" for s using stages_undoable [OF assms] that by blast
    show "undoable t T s" if "kept t T s" for s using stages_undoable [OF assms] that by blast
  qed (use blind in \<open>auto simp: stage_defs file_or_none_def split: option.splits node.splits\<close>)
  show ?thesis unfolding swap_previous_def
    by (intro triple_then [OF sync] triple_then [OF dir] triple_then [OF json] triple_then [OF place] wrote)
qed

text \<open>Starting the record of the data directories touches nothing but the live code, the record itself
  and what is set aside.\<close>

definition off_code :: "(disk \<Rightarrow> 'v) \<Rightarrow> bool" where
  "off_code g \<longleftrightarrow> (\<forall>s c r k ss. g (s\<lparr>d_code := c\<rparr>) = g s \<and> g (s\<lparr>d_record := r\<rparr>) = g s
     \<and> g (s\<lparr>d_retained := k\<rparr>) = g s \<and> g (s\<lparr>d_steps := ss\<rparr>) = g s)"

lemma start_record_off_code:
  assumes "off_code g"
  shows "skeeps g (start_record env dirs)"
proof -
  have g: "g (s\<lparr>d_code := c\<rparr>) = g s" "g (s\<lparr>d_record := r\<rparr>) = g s" "g (s\<lparr>d_retained := k\<rparr>) = g s"
    "g (s\<lparr>d_steps := ss\<rparr>) = g s" for s c r k ss
    using assms by (simp_all add: off_code_def)
  have steps: "skeeps g (whole_step (\<lambda>s. s\<lparr>d_record := x\<rparr>))"
    "skeeps g (whole_step (\<lambda>s. s\<lparr>d_retained := dset (d_retained s) dest []\<rparr>))"
    "skeeps g (whole_step (\<lambda>s. (del_entry k s)\<lparr>d_retained := dset (d_retained s) dest [(k, m)]\<rparr>))"
    "skeeps g fsync_dir" "skeeps g (move_child k dest i)" for x dest k m i
    by (auto simp: fsync_dir_def move_child_def del_entry_def set_entry_def g intro!: skeeps_whole_step split: prod.split)
  have "skeeps g (refuse_container_owned env dirs)"
    unfolding refuse_container_owned_def by (auto intro!: skeeps_rules split: option.split bool.split)
  moreover have "skeeps g (move_contents k dest)" for k dest
    unfolding move_contents_def by (auto intro!: skeeps_rules steps split: option.split node.split)
  then have "skeeps g (set_aside env k)" for k unfolding set_aside_def by (intro skeeps_rules)
  moreover have "skeeps g (save_record dirs)" unfolding save_record_def by (intro skeeps_then steps)
  ultimately show ?thesis unfolding start_record_def by (intro skeeps_then skeeps_for)
qed

lemma ensure_record_off_code: "off_code g \<Longrightarrow> skeeps g (ensure_record env staged tree)"
  unfolding ensure_record_def by (intro skeeps_rules start_record_off_code)

lemma ensure_record_names: "skeeps d_names (ensure_record env staged tree)"
  by (rule ensure_record_off_code) (simp add: off_code_def)

lemma triple_names:
  assumes "skeeps d_names m" "\<And>s s'. d_names s' = d_names s \<Longrightarrow> P s \<Longrightarrow> P s'"
  shows "triple (runs False P) m (\<lambda>_. runs False P) (cut_off False P)"
  using assms skeepsD [OF assms(1)]
  by (intro tripleI) (auto simp: runs_def cut_off_def tidy_def)

lemma build_copy_keeps:
  assumes "records_target t T"
  shows "triple (runs False (clean T)) (build_copy env staged tree)
    (\<lambda>_. runs False (\<lambda>s. clean T s \<and> dir_at Building s)) (cut_off False (undoable t T))"
proof -
  let ?C = "\<lambda>s. clean T s \<and> dir_at Building s"
  let ?U = "cut_off False (undoable t T)"
  note C = clean_undoable [OF assms]
  have blind: "blind ?C" by (simp add: blind_def keep_defs)
  have gone: "triple (runs False (clean T)) (discard_dir Building) (\<lambda>_. runs False (clean T)) ?U"
  proof (rule triple_discard_dir)
    show "undoable t T s" "undoable t T s" if "clean T s" for s using C that by blast+
  qed (auto simp: keep_defs dir_or_none_def)
  have made: "triple (runs False (clean T)) (mkdir_p_deploy Building) (\<lambda>_. runs False ?C) ?U"
  proof (rule triple_mkdir)
    show "undoable t T s" if "clean T s" for s using C that by blast
  qed (auto simp: keep_defs dir_or_none_def)
  have copied: "triple (runs False ?C) (copy_into_building i) (\<lambda>_. runs False ?C) ?U" for i
  proof -
    have "triple (runs False ?C) (copy_into_building i) (\<lambda>_. runs False ?C) (cut_off False ?C)"
      unfolding copy_into_building_def
    proof (rule triple_disk_step)
      show "blind ?C" by (rule blind)
    qed (auto simp: keep_defs dir_or_none_def intro!: tidy_set_name split: option.splits node.splits)
    then show ?thesis by (rule triple_post) (use C in \<open>auto simp: cut_off_def\<close>)
  qed
  have all: "triple (runs False ?C) (sfor copy_into_building es) (\<lambda>_. runs False ?C) ?U" for es
    by (rule triple_for_inv) (rule copied)
  have listed: "triple (runs False ?C) (sbind (sget f) slift) (\<lambda>_. runs False ?C) ?U" for f :: "disk \<Rightarrow> disk_error + entries"
    using C by (auto simp: triple_def sbind_def runs_def cut_off_def split: sum.split)
  show ?thesis unfolding build_copy_def
    by (rule triple_then [OF gone], rule triple_then [OF made], rule triple_bind [OF listed all])
qed

lemma keep_safe:
  assumes "records_target t T"
  shows "triple (runs False (clean T)) (keep_previous_release_txn env staged t tree)
    (\<lambda>_. runs False (kept t T)) (cut_off False (undoable t T))"
  unfolding keep_previous_release_txn_def
proof (rule triple_then [OF build_copy_keeps [OF assms]], rule triple_then [OF _ swap_previous_keeps [OF assms]])
  let ?C = "\<lambda>s. clean T s \<and> dir_at Building s"
  have "triple (runs False ?C) (ensure_record env staged tree) (\<lambda>_. runs False ?C) (cut_off False ?C)"
    by (rule triple_names [OF ensure_record_names]) (auto simp: keep_defs)
  then show "triple (runs False ?C) (ensure_record env staged tree) (\<lambda>_. runs False ?C) (cut_off False (undoable t T))"
    by (rule triple_post) (use clean_undoable [OF assms] in \<open>auto simp: cut_off_def\<close>)
qed

section \<open>The keep is atomic for the rollback target\<close>

definition attempt :: "'a dio \<Rightarrow> outcome list \<Rightarrow> disk \<Rightarrow> disk" where
  "attempt m os s = snd (m (s\<lparr>d_steps := os\<rparr>))"

lemma attempt_keeps:
  assumes "records_target t T" "undoable t T s" "tidy s"
  shows "undoable t T (attempt (restore_superseded t) os s) \<and> tidy (attempt (restore_superseded t) os s)"
proof -
  obtain r s' where run: "restore_superseded t (s\<lparr>d_steps := os\<rparr>) = (r, s')" by fastforce
  have "runs False (undoable t T) (s\<lparr>d_steps := os\<rparr>)"
    using assms(2,3) by (simp add: runs_def)
  then show ?thesis
    using restore_undo [OF assms(1), of False] run clean_undoable [OF assms(1)]
    by (cases r) (auto simp: triple_def attempt_def runs_def cut_off_def dest!: spec [of _ "s\<lparr>d_steps := os\<rparr>"])
qed

lemma attempts_keep:
  assumes "records_target t T" "undoable t T k \<and> tidy k"
  shows "undoable t T (fold (attempt (restore_superseded t)) oss k) \<and> tidy (fold (attempt (restore_superseded t)) oss k)"
  using assms(2) attempt_keeps [OF assms(1)] by (induction oss arbitrary: k) simp_all

lemma attempt_keep:
  assumes "clean T s" "tidy s" "records_target t T"
  shows "undoable t T (attempt (keep_previous_release_txn env staged t tree) os s)
    \<and> tidy (attempt (keep_previous_release_txn env staged t tree) os s)"
proof -
  obtain r k where run: "keep_previous_release_txn env staged t tree (s\<lparr>d_steps := os\<rparr>) = (r, k)" by fastforce
  have "runs False (clean T) (s\<lparr>d_steps := os\<rparr>)" using assms(1,2) by (simp add: runs_def)
  then show ?thesis
    using keep_safe [OF assms(3), of env staged tree] run stages_undoable(4) [OF assms(3)]
    by (cases r) (auto simp: triple_def attempt_def runs_def cut_off_def dest!: spec [of _ "s\<lparr>d_steps := os\<rparr>"])
qed

text \<open>C3. Keeping the previous release can always be undone: whatever cuts the keep off, at any of its
  steps or after all of them, and however many attempts to undo it are cut off in turn, the next
  undo that meets no failure ends well and gives back exactly the rollback target, code and
  metadata, that stood before the install.\<close>

theorem keep_can_be_undone:
  assumes "clean T s" "tidy s" "records_target t T"
  shows "\<exists>s'. restore_superseded t ((fold (attempt (restore_superseded t)) oss
      (attempt (keep_previous_release_txn env staged t tree) os s))\<lparr>d_steps := []\<rparr>) = (Inr (), s')
    \<and> rollback_target s' = T \<and> nothing_aside s'"
proof -
  define k where "k = attempt (keep_previous_release_txn env staged t tree) os s"
  have last: "undoable t T (fold (attempt (restore_superseded t)) oss k)"
    "tidy (fold (attempt (restore_superseded t)) oss k)"
    using attempts_keep [OF assms(3) attempt_keep [OF assms], of oss] unfolding k_def by blast+
  define d where "d = (fold (attempt (restore_superseded t)) oss k)\<lparr>d_steps := []\<rparr>"
  have total: "triple (runs True (undoable t T)) (restore_superseded t) (\<lambda>_. runs True (clean T)) (\<lambda>_ _. False)"
    by (rule triple_post [OF restore_undo [OF assms(3)]]) (auto simp: cut_off_def)
  have "runs True (undoable t T) d" using last by (simp add: d_def runs_def)
  from triple_total [OF total this] obtain s' where
    s': "restore_superseded t d = (Inr (), s')" "runs True (clean T) s'" by auto
  then show ?thesis by (intro exI [of _ s']) (simp add: d_def k_def runs_def clean_def)
qed

definition example_kept_disk :: disk where
  "example_kept_disk = \<lparr> d_names = (\<lambda>p. if p = Previous then Some (Dir [(''app.py'', File ''0'')])
       else if p = Previous_Json then Some (File ''meta'') else None),
     d_code = [(''app.py'', File ''1'')], d_record = Doc (PDict [(PStr ''version'', PInt 1), (PStr ''data_dirs'', PList [])]),
     d_retained = [], d_txn = Absent, d_head = No_Repo, d_steps = [] \<rparr>"

definition example_txn :: install_txn where
  "example_txn = \<lparr> tx_id = ''t1'', tx_source = From_Bundle, tx_ref = ''r2'', tx_replaced = Some ''r1'',
     tx_staged = None, tx_snapshot = ''snap'', tx_phase = Committed,
     tx_expect = \<lparr> ex_live = None, ex_previous = Some ''h'', ex_head = None \<rparr>,
     tx_previous_before = Some ''h'', tx_had_previous = True, tx_touched = Untouched, tx_started = ''now'' \<rparr>"

theorem keep_can_be_undone_witness:
  "\<exists>s'. restore_superseded example_txn ((fold (attempt (restore_superseded example_txn)) [[Fails 0], [Goes, Dies 1]]
      (attempt (keep_previous_release_txn example_env None example_txn None)
        [Goes, Goes, Goes, Goes, Goes, Goes, Goes, Dies 0] example_kept_disk))\<lparr>d_steps := []\<rparr>) = (Inr (), s')
    \<and> rollback_target s' = (Some (Dir [(''app.py'', File ''0'')]), Some (File ''meta'')) \<and> nothing_aside s'"
proof (rule keep_can_be_undone)
  show "clean (Some (Dir [(''app.py'', File ''0'')]), Some (File ''meta'')) example_kept_disk"
    by (simp add: keep_defs example_kept_disk_def)
  show "tidy example_kept_disk" by (simp add: tidy_def example_kept_disk_def)
  show "records_target example_txn (Some (Dir [(''app.py'', File ''0'')]), Some (File ''meta''))"
    by (simp add: records_target_def example_txn_def)
qed

section \<open>What a keep that ends well has kept\<close>

text \<open>What the listing of the live code depends on.\<close>

definition listing_view :: "disk \<Rightarrow> (entries \<times> json_file) \<times> node option" where
  "listing_view s = ((d_code s, d_record s), d_names s Previous)"

lemma listing_view_decides:
  assumes "listing_view s = listing_view s'"
  shows "classify_for env staged tree s = classify_for env staged tree s'"
    "live_code_entries dirs s = live_code_entries dirs s'"
  using assms
  by (simp_all add: listing_view_def classify_for_def classify_def kept_trees_def live_code_entries_def)

lemma listing_view_steps [simp]: "listing_view (s\<lparr>d_steps := ss\<rparr>) = listing_view s"
  "p \<noteq> Previous \<Longrightarrow> listing_view (set_name p v s) = listing_view s"
  by (simp_all add: listing_view_def)

lemma build_copy_view: "skeeps listing_view (discard_dir Building)" "skeeps listing_view (mkdir_p_deploy Building)"
proof -
  have "off_at {Building, Gone Building} listing_view" by (auto simp: off_at_def)
  then show "skeeps listing_view (discard_dir Building)" "skeeps listing_view (mkdir_p_deploy Building)"
    by (simp_all add: skeeps_at_names skeeps_at_dirs)
qed

lemma emptied_building:
  "triple (runs False (clean T)) (sthen (discard_dir Building) (mkdir_p_deploy Building))
    (\<lambda>_ s. d_names s Building = Some (Dir [])) (\<lambda>_ _. True)"
proof (rule triple_then [where R = "runs False (\<lambda>s. \<not> lexists Building s)"])
  have "triple (runs False (clean T)) (discard_dir Building) (\<lambda>_. runs False (\<lambda>s. \<not> lexists Building s)) (cut_off False (\<lambda>_. True))"
    by (rule triple_discard_dir) (auto simp: keep_defs plain_def blind_def)
  then show "triple (runs False (clean T)) (discard_dir Building) (\<lambda>_. runs False (\<lambda>s. \<not> lexists Building s)) (\<lambda>_ _. True)"
    by (rule triple_post) auto
  have "triple (runs False (\<lambda>s. \<not> lexists Building s)) (mkdir_p_deploy Building)
      (\<lambda>_. runs False (\<lambda>s. d_names s Building = Some (Dir []))) (cut_off False (\<lambda>_. True))"
    by (rule triple_mkdir) (auto simp: lexists_def dir_at_def blind_def)
  then show "triple (runs False (\<lambda>s. \<not> lexists Building s)) (mkdir_p_deploy Building)
      (\<lambda>_ s. d_names s Building = Some (Dir [])) (\<lambda>_ _. True)"
    by (rule triple_post) (auto simp: runs_def)
qed

lemma copied_building:
  "triple (\<lambda>s. d_names s Building = Some (Dir [])) (sfor copy_into_building es)
    (\<lambda>_ s. d_names s Building = Some (Dir es)) (\<lambda>_ _. True)"
  by (rule triple_for [where I = "\<lambda>ys s. d_names s Building = Some (Dir ys)"])
    (auto simp: copy_into_building_def blind_def intro!: triple_disk_step_post)

lemma build_copy_result:
  assumes "clean T s" "tidy s" "build_copy env staged tree s = (Inr u, s')"
  shows "\<exists>dirs. classify_for env staged tree s = Inr dirs
    \<and> d_names s' Building = Some (Dir (live_code_entries dirs s))"
proof -
  obtain a where a: "discard_dir Building s = (Inr (), a)" 
    and rest: "sthen (mkdir_p_deploy Building) (sbind (sbind (sget (\<lambda>s. rbind (classify_for env staged tree s)
        (\<lambda>dirs. Inr (live_code_entries dirs s)))) slift) (sfor copy_into_building)) a = (Inr u, s')"
    using assms(3) by (auto simp: build_copy_def sthen_def sbind_Inr)
  obtain b where b: "mkdir_p_deploy Building a = (Inr (), b)"
    and rest2: "sbind (sbind (sget (\<lambda>s. rbind (classify_for env staged tree s)
        (\<lambda>dirs. Inr (live_code_entries dirs s)))) slift) (sfor copy_into_building) b = (Inr u, s')"
    using rest by (auto simp: sthen_def sbind_Inr)
  have view: "listing_view b = listing_view s"
    using skeepsD [OF build_copy_view(1) a] skeepsD [OF build_copy_view(2) b] by simp
  obtain dirs where dirs: "classify_for env staged tree b = Inr dirs"
    and copy: "sfor copy_into_building (live_code_entries dirs b) b = (Inr u, s')"
    using rest2 by (auto simp: sbind_Inr res_simps)
  have "sthen (discard_dir Building) (mkdir_p_deploy Building) s = (Inr (), b)" using a b by simp
  then have "d_names b Building = Some (Dir [])"
    using tripleD_Inr [OF emptied_building] assms(1,2) by (simp add: runs_def)
  then have "d_names s' Building = Some (Dir (live_code_entries dirs b))"
    using tripleD_Inr [OF copied_building _ copy] by simp
  then show ?thesis using dirs listing_view_decides [OF view] by auto
qed

lemma off_at_name: "q \<notin> A \<Longrightarrow> off_at A (\<lambda>s. d_names s q)"
  by (auto simp: off_at_def)

lemma keeps_name:
  assumes "q \<noteq> a" "q \<noteq> b"
  shows "skeeps (\<lambda>s. d_names s q) (durable_rename_dir a b)" "skeeps (\<lambda>s. d_names s q) (durable_rename a b)"
    "skeeps (\<lambda>s. d_names s q) (rename_if_there durable_rename_dir a b)"
    "skeeps (\<lambda>s. d_names s q) (rename_if_there durable_rename a b)"
    "skeeps (\<lambda>s. d_names s q) fsync_dir" "skeeps (\<lambda>s. d_names s q) (atomic_write_text a txt)"
proof -
  have off: "off_at {a, b} (\<lambda>s. d_names s q)" using assms by (simp add: off_at_name)
  show "skeeps (\<lambda>s. d_names s q) (durable_rename_dir a b)" "skeeps (\<lambda>s. d_names s q) (durable_rename a b)"
    "skeeps (\<lambda>s. d_names s q) (rename_if_there durable_rename_dir a b)"
    "skeeps (\<lambda>s. d_names s q) (rename_if_there durable_rename a b)"
    "skeeps (\<lambda>s. d_names s q) fsync_dir" "skeeps (\<lambda>s. d_names s q) (atomic_write_text a txt)"
    unfolding rename_if_there_def
    by (intro skeeps_rules skeeps_at_dirs [OF off] skeeps_at_names [OF off] insertI1 insertI2)+
qed

lemma durable_rename_dir_result:
  assumes "durable_rename_dir a b s = (Inr u, s')" "d_names s a = Some n" "a \<noteq> b"
  shows "d_names s' b = Some n"
proof -
  obtain m where ren: "os_rename a b s = (Inr (), m)" and sync: "fsync_dir m = (Inr u, s')"
    using assms(1) by (auto simp: durable_rename_dir_def sthen_def sbind_Inr split: if_splits)
  have "d_names m b = Some n"
    using ren assms(2,3) by (auto simp: os_rename_def whole_step_def disk_step_def
        split: if_splits list.splits outcome.splits)
  moreover have "skeeps (\<lambda>s. d_names s b) fsync_dir" using keeps_name(5) [of b a a] assms(3) by simp
  then have "d_names s' b = d_names m b" by (rule skeepsD) (rule sync)
  ultimately show ?thesis by simp
qed

lemma swap_previous_result:
  assumes "swap_previous t s = (Inr u, s')" "d_names s Building = Some n"
  shows "d_names s' Previous = Some n"
proof -
  let ?g = "\<lambda>s. d_names s Building"
  obtain s1 s2 s3 s4 where run: "sync_tree s = (Inr (), s1)"
    "rename_if_there durable_rename_dir Previous Superseded s1 = (Inr (), s2)"
    "rename_if_there durable_rename Previous_Json Superseded_Json s2 = (Inr (), s3)"
    "durable_rename_dir Building Previous s3 = (Inr (), s4)"
    "atomic_write_text Previous_Json (kept_previous_text t) s4 = (Inr u, s')"
    using assms(1) by (auto simp: swap_previous_def sthen_def sbind_Inr)
  have keeps: "skeeps ?g sync_tree" "skeeps ?g (rename_if_there durable_rename_dir Previous Superseded)"
    "skeeps ?g (rename_if_there durable_rename Previous_Json Superseded_Json)"
    "skeeps (\<lambda>s. d_names s Previous) (atomic_write_text Previous_Json (kept_previous_text t))"
    using keeps_name(3,4) keeps_name(5) [of Building Previous Previous] keeps_name(6) [of Previous Previous_Json Building]
    by (simp_all add: sync_tree_def)
  have "?g s3 = ?g s"
    using skeepsD [OF keeps(1) run(1)] skeepsD [OF keeps(2) run(2)] skeepsD [OF keeps(3) run(3)] by simp
  then have "d_names s4 Previous = Some n"
    using durable_rename_dir_result [OF run(4)] assms(2) by simp
  moreover have "d_names s' Previous = d_names s4 Previous" using skeepsD [OF keeps(4) run(5)] .
  ultimately show ?thesis by simp
qed

text \<open>C19. A keep that ends well commits exactly what it promises: \<open>previous/\<close> is a copy of the live
  code the classification lists, \<open>previous.json\<close> is the text that pairs it with the
  transaction's snapshot, and the target that stood before is aside, whole.\<close>

theorem keep_commits:
  assumes "clean T s" "tidy s" "records_target t T"
    and "keep_previous_release_txn env staged t tree s = (Inr u, s')"
  shows "\<exists>dirs. classify_for env staged tree s = Inr dirs
    \<and> rollback_target s' = (Some (Dir (live_code_entries dirs s)), Some (File (kept_previous_text t)))
    \<and> (d_names s' Superseded, d_names s' Superseded_Json) = T"
proof -
  obtain a b where build: "build_copy env staged tree s = (Inr (), a)"
    and recorded: "ensure_record env staged tree a = (Inr (), b)" and swap: "swap_previous t b = (Inr u, s')"
    using assms(4) by (auto simp: keep_previous_release_txn_def sthen_def sbind_Inr)
  obtain dirs where dirs: "classify_for env staged tree s = Inr dirs"
    "d_names a Building = Some (Dir (live_code_entries dirs s))"
    using build_copy_result [OF assms(1,2) build] by blast
  have "d_names b Building = d_names a Building" using skeepsD [OF ensure_record_names recorded] by simp
  then have "d_names s' Previous = Some (Dir (live_code_entries dirs s))"
    using swap_previous_result [OF swap] dirs(2) by simp
  moreover have "runs False (kept t T) s'"
    using tripleD_Inr [OF keep_safe [OF assms(3)] _ assms(4)] assms(1,2) by (simp add: runs_def)
  then have "kept t T s'" by (simp add: runs_def)
  ultimately show ?thesis using dirs(1) by (auto simp: kept_def rollback_target_def prod_eq_iff)
qed

theorem keep_commits_witness:
  "\<exists>s'. keep_previous_release_txn example_env None example_txn None example_kept_disk = (Inr (), s')
    \<and> rollback_target s' = (Some (Dir [(''app.py'', File ''1'')]), Some (File (kept_previous_text example_txn)))"
proof -
  let ?T = "(Some (Dir [(''app.py'', File ''0'')]), Some (File ''meta''))"
  have clean: "clean ?T example_kept_disk" "tidy example_kept_disk" "records_target example_txn ?T"
    by (simp_all add: keep_defs example_kept_disk_def tidy_def example_txn_def)
  have "fst (keep_previous_release_txn example_env None example_txn None example_kept_disk) = Inr ()" by code_simp
  then obtain s' where run: "keep_previous_release_txn example_env None example_txn None example_kept_disk = (Inr (), s')"
    by (metis prod.collapse)
  obtain dirs where dirs: "classify_for example_env None None example_kept_disk = Inr dirs"
    and target: "rollback_target s' = (Some (Dir (live_code_entries dirs example_kept_disk)), Some (File (kept_previous_text example_txn)))"
    using keep_commits [OF clean run] by blast
  have "(case classify_for example_env None None example_kept_disk of Inr d \<Rightarrow> live_code_entries d example_kept_disk | Inl _ \<Rightarrow> [])
      = [(''app.py'', File ''1'')]" by code_simp
  then show ?thesis using run target dirs by simp
qed

end
