(* ===== verification/Release_Txn.thy ===== *)
theory Release_Txn
  imports Release_Keep_Laws
begin

text \<open>
  \<^verbatim>\<open>src/boxmunge/release_txn.py\<close>: the record \<open>.releases/install.json\<close> of an open install,
  its phases, and whether the files are as it left them; with the abandon core of
  \<^verbatim>\<open>commands/install_abandon.py\<close>, the drop core of \<^verbatim>\<open>commands/install_txn_cmd.py\<close> and the
  refusal of \<^verbatim>\<open>compose_guard.py\<close>.  SHA-256 of a text is a parameter; identifiers and
  times are given.
\<close>

section \<open>The record as a document\<close>

fun source_text :: "source \<Rightarrow> string" where
  "source_text From_Bundle = ''bundle''" | "source_text From_Staged = ''staged''"
| "source_text From_Rollback = ''rollback''" | "source_text From_Git = ''git''"

fun phase_text :: "phase \<Rightarrow> string" where
  "phase_text Committed = ''committed''" | "phase_text Previous_Kept = ''previous_kept''"
| "phase_text Installed = ''installed''" | "phase_text Data_Restored = ''data_restored''"
| "phase_text Hook_Started = ''hook_started''" | "phase_text Switching = ''switching''"
| "phase_text Abandoning = ''abandoning''" | "phase_text Code_Restored = ''abandoned_code''"

fun touched_text :: "touched \<Rightarrow> string" where
  "touched_text Untouched = ''''" | "touched_text Touched_Hook = ''hook_started''"
| "touched_text Touched_Switching = ''switching''"

definition sources :: "source list" where "sources = [From_Bundle, From_Staged, From_Rollback, From_Git]"
definition all_touched :: "touched list" where "all_touched = [Untouched, Touched_Hook, Touched_Switching]"

definition named :: "('a \<Rightarrow> string) \<Rightarrow> 'a list \<Rightarrow> pyval \<Rightarrow> 'a option" where
  "named name xs v = List.find (\<lambda>x. v = PStr (name x)) xs"

definition opt_text :: "string option \<Rightarrow> pyval" where
  "opt_text v = (case v of None \<Rightarrow> PNone | Some s \<Rightarrow> PStr s)"

definition expect_doc :: "expected \<Rightarrow> pyval" where
  "expect_doc e = PDict ([(PStr ''live_json_sha256'', opt_text (ex_live e)),
      (PStr ''previous_json_sha256'', opt_text (ex_previous e))]
    @ (case ex_head e of None \<Rightarrow> [] | Some h \<Rightarrow> [(PStr ''repo_head'', PStr h)]))"

definition txn_doc :: "install_txn \<Rightarrow> pyval" where
  "txn_doc t = PDict [(PStr ''version'', PInt 1), (PStr ''id'', PStr (tx_id t)),
     (PStr ''source'', PStr (source_text (tx_source t))), (PStr ''ref'', PStr (tx_ref t)),
     (PStr ''replaced_ref'', opt_text (tx_replaced t)), (PStr ''staged_id'', opt_text (tx_staged t)),
     (PStr ''snapshot'', PStr (tx_snapshot t)), (PStr ''phase'', PStr (phase_text (tx_phase t))),
     (PStr ''expect'', expect_doc (tx_expect t)), (PStr ''previous_before'', opt_text (tx_previous_before t)),
     (PStr ''had_previous'', PBool (tx_had_previous t)), (PStr ''touched'', PStr (touched_text (tx_touched t))),
     (PStr ''started_at'', PStr (tx_started t))]"

definition read_text :: "pydict \<Rightarrow> string \<Rightarrow> disk_error + string" where
  "read_text d k = (case dget d k of None \<Rightarrow> Inl Release_State_Error | Some (PStr s) \<Rightarrow> Inr s | Some _ \<Rightarrow> Inl Off_Model)"

definition opt_of :: "pyval \<Rightarrow> disk_error + string option" where
  "opt_of v = (case v of PNone \<Rightarrow> Inr None | PStr s \<Rightarrow> Inr (Some s) | _ \<Rightarrow> Inl Off_Model)"

definition read_opt :: "pydict \<Rightarrow> string \<Rightarrow> disk_error + string option" where
  "read_opt d k = (case dget d k of None \<Rightarrow> Inl Release_State_Error | Some v \<Rightarrow> opt_of v)"

text \<open>The keys of \<open>expect\<close> are read where they are used.\<close>

definition read_expect :: "pydict \<Rightarrow> disk_error + expected" where
  "read_expect d = (case dget d ''expect'' of
     None \<Rightarrow> Inl Release_State_Error
   | Some (PDict e) \<Rightarrow> (case (dget e ''live_json_sha256'', dget e ''previous_json_sha256'') of
        (Some l, Some p) \<Rightarrow> rbind (opt_of l) (\<lambda>l. rbind (opt_of p) (\<lambda>p.
          rbind (opt_of (dget_or e ''repo_head'' PNone)) (\<lambda>h. Inr \<lparr> ex_live = l, ex_previous = p, ex_head = h \<rparr>)))
      | _ \<Rightarrow> Inl Off_Model)
   | Some _ \<Rightarrow> Inl Off_Model)"

definition read_bool :: "pydict \<Rightarrow> string \<Rightarrow> disk_error + bool" where
  "read_bool d k = (case dget d k of None \<Rightarrow> Inl Release_State_Error | Some (PBool b) \<Rightarrow> Inr b | Some _ \<Rightarrow> Inl Off_Model)"

definition read_named :: "('a \<Rightarrow> string) \<Rightarrow> 'a list \<Rightarrow> pydict \<Rightarrow> string \<Rightarrow> disk_error + 'a" where
  "read_named name xs d k = (case dget d k of None \<Rightarrow> Inl Release_State_Error
     | Some v \<Rightarrow> (case named name xs v of None \<Rightarrow> Inl Release_State_Error | Some x \<Rightarrow> Inr x))"

definition valid_phase :: "install_txn \<Rightarrow> bool" where
  "valid_phase t \<longleftrightarrow> tx_phase t \<in> set (txn_phases t)
     \<or> tx_phase t \<in> set abandon_phases \<and> tx_source t \<noteq> From_Rollback"

definition txn_of_doc :: "pydict \<Rightarrow> disk_error + install_txn" where
  "txn_of_doc d =
     rbind (read_text d ''id'') (\<lambda>i.
     rbind (read_named source_text sources d ''source'') (\<lambda>src.
     rbind (read_text d ''ref'') (\<lambda>ref.
     rbind (read_opt d ''replaced_ref'') (\<lambda>replaced.
     rbind (read_opt d ''staged_id'') (\<lambda>staged.
     rbind (read_text d ''snapshot'') (\<lambda>snapshot.
     rbind (read_named phase_text (phases_order @ abandon_phases) d ''phase'') (\<lambda>phase.
     rbind (read_expect d) (\<lambda>expect.
     rbind (read_opt d ''previous_before'') (\<lambda>before.
     rbind (read_bool d ''had_previous'') (\<lambda>had.
     rbind (read_named touched_text all_touched d ''touched'') (\<lambda>tch.
     rbind (read_text d ''started_at'') (\<lambda>started.
     Inr \<lparr> tx_id = i, tx_source = src, tx_ref = ref, tx_replaced = replaced, tx_staged = staged,
       tx_snapshot = snapshot, tx_phase = phase, tx_expect = expect, tx_previous_before = before,
       tx_had_previous = had, tx_touched = tch, tx_started = started \<rparr>))))))))))))"

definition load_txn :: "json_file \<Rightarrow> disk_error + install_txn option" where
  "load_txn f = (case f of
     Absent \<Rightarrow> Inr None
   | Doc (PDict d) \<Rightarrow>
       if dget d ''version'' \<notin> {Some (PInt 1), Some (PBool True), Some (PFloat 1)} then Inl Release_State_Error
       else rbind (txn_of_doc d) (\<lambda>t. if valid_phase t then Inr (Some t) else Inl Release_State_Error)
   | _ \<Rightarrow> Inl Release_State_Error)"

section \<open>The steps of a transaction\<close>

definition write_txn :: "install_txn \<Rightarrow> unit dio" where
  "write_txn t = sthen (whole_step (\<lambda>s. s\<lparr>d_txn := Doc (txn_doc t)\<rparr>)) fsync_dir"

text \<open>The hash of a file's text; a directory or a link at the name is not followed here.\<close>

definition sha_of :: "(string \<Rightarrow> string) \<Rightarrow> node option \<Rightarrow> disk_error + string option" where
  "sha_of sha v = (case v of None \<Rightarrow> Inr None | Some (File txt) \<Rightarrow> Inr (Some (sha txt)) | Some (Dir _) \<Rightarrow> Inl OS_Error
     | Some (Link _) \<Rightarrow> Inl Off_Model)"

definition head_of :: "git_head \<Rightarrow> disk_error + string option" where
  "head_of h = (case h of No_Repo \<Rightarrow> Inr None | Head c \<Rightarrow> Inr (Some c) | Unreadable_Head \<Rightarrow> Inl Git_Failed)"

definition current_expect :: "(string \<Rightarrow> string) \<Rightarrow> disk \<Rightarrow> disk_error + expected" where
  "current_expect sha s =
     rbind (sha_of sha (d_names s Live_Json)) (\<lambda>l.
     rbind (sha_of sha (d_names s Previous_Json)) (\<lambda>p.
     rbind (head_of (d_head s)) (\<lambda>h. Inr \<lparr> ex_live = l, ex_previous = p, ex_head = h \<rparr>)))"

definition rewrite_txn :: "(string \<Rightarrow> string) \<Rightarrow> (expected \<Rightarrow> install_txn) \<Rightarrow> install_txn dio" where
  "rewrite_txn sha mk = sbind (sbind (sget (current_expect sha)) slift) (\<lambda>e.
     sbind (write_txn (mk e)) (\<lambda>_. sret (mk e)))"

text \<open>What a deploy asks of a new transaction.\<close>

record txn_request =
  rq_id :: string
  rq_source :: source
  rq_ref :: string
  rq_replaced :: "string option"
  rq_staged :: "string option"
  rq_snapshot :: string
  rq_now :: string

definition new_txn :: "txn_request \<Rightarrow> phase \<Rightarrow> string option \<Rightarrow> bool \<Rightarrow> touched \<Rightarrow> expected \<Rightarrow> install_txn" where
  "new_txn rq p before had tch e =
     \<lparr> tx_id = rq_id rq, tx_source = rq_source rq, tx_ref = rq_ref rq, tx_replaced = rq_replaced rq,
       tx_staged = rq_staged rq, tx_snapshot = rq_snapshot rq, tx_phase = p, tx_expect = e,
       tx_previous_before = before, tx_had_previous = had, tx_touched = tch, tx_started = rq_now rq \<rparr>"

definition open_txn :: "(string \<Rightarrow> string) \<Rightarrow> txn_request \<Rightarrow> install_txn dio" where
  "open_txn sha rq = sbind (sget d_txn) (\<lambda>f.
     if f \<noteq> Absent then sraise Release_State_Error
     else sbind (sbind (sget (current_expect sha)) slift) (\<lambda>e.
       sbind (sget (dir_at Previous)) (\<lambda>had.
       rewrite_txn sha (new_txn rq Committed (ex_previous e) had Untouched))))"

definition touched_by :: "install_txn \<Rightarrow> touched" where
  "touched_by old = (if tx_source old = From_Rollback \<or> containers_may_run_other old then Touched_Switching
     else if data_may_have_changed old then Touched_Hook else Untouched)"

definition supersede_txn :: "(string \<Rightarrow> string) \<Rightarrow> install_txn \<Rightarrow> txn_request \<Rightarrow> phase \<Rightarrow> install_txn dio" where
  "supersede_txn sha old rq p = sbind (sbind (sget (\<lambda>s. load_txn (d_txn s))) slift) (\<lambda>on_disk.
     if (case on_disk of None \<Rightarrow> True | Some t \<Rightarrow> tx_id t \<noteq> tx_id old) then sraise Release_State_Error
     else if abandoning old then sraise Release_State_Error
     else rewrite_txn sha (new_txn rq p (tx_previous_before old) (tx_had_previous old) (touched_by old)))"

text \<open>A later phase of the transaction's own order.\<close>

definition may_advance :: "install_txn \<Rightarrow> phase \<Rightarrow> bool" where
  "may_advance t p \<longleftrightarrow> p \<in> set (txn_phases t) \<and> tx_phase t \<in> set (txn_phases t) \<and> rank (tx_phase t) < rank p"

definition advance :: "(string \<Rightarrow> string) \<Rightarrow> install_txn \<Rightarrow> phase \<Rightarrow> install_txn dio" where
  "advance sha t p = (if \<not> may_advance t p then sraise Release_State_Error
     else rewrite_txn sha (\<lambda>e. t\<lparr>tx_phase := p, tx_expect := e\<rparr>))"

definition mark_abandon :: "(string \<Rightarrow> string) \<Rightarrow> install_txn \<Rightarrow> phase \<Rightarrow> install_txn dio" where
  "mark_abandon sha t p = (if p \<notin> set abandon_phases \<or> data_may_have_changed t then sraise Release_State_Error
     else rewrite_txn sha (\<lambda>e. t\<lparr>tx_phase := p, tx_expect := e\<rparr>))"

definition drop_record :: "unit dio" where
  "drop_record = sthen (sbind (sget (\<lambda>s. d_txn s \<noteq> Absent)) (\<lambda>x. swhen x (whole_step (\<lambda>s. s\<lparr>d_txn := Absent\<rparr>)))) fsync_dir"

definition close_txn :: "unit dio" where
  "close_txn = sthen discard_superseded drop_record"

section \<open>Staleness\<close>

datatype stale_problem = Live_Changed | Previous_Changed | Head_Unreadable | Head_Moved string

definition head_problems :: "install_txn \<Rightarrow> disk \<Rightarrow> stale_problem list" where
  "head_problems t s = (case head_of (d_head s) of
     Inl _ \<Rightarrow> [Head_Unreadable]
   | Inr None \<Rightarrow> []
   | Inr (Some h) \<Rightarrow>
       if Some h \<in> {Some (tx_ref t), tx_replaced t, ex_head (tx_expect t)} then [] else [Head_Moved h])"

definition live_accepted :: "(string \<Rightarrow> string) \<Rightarrow> install_txn \<Rightarrow> string option set" where
  "live_accepted sha t = {ex_live (tx_expect t), Some (sha (live_meta_text (tx_ref t))),
     (case tx_replaced t of Some r \<Rightarrow> if r = [] then None else Some (sha (live_meta_text r)) | None \<Rightarrow> None)}"

definition previous_accepted :: "(string \<Rightarrow> string) \<Rightarrow> install_txn \<Rightarrow> string option set" where
  "previous_accepted sha t = {ex_previous (tx_expect t), tx_previous_before t, Some (sha (kept_previous_text t))}
     \<union> (if tx_source t = From_Rollback then {None} else {})"

definition stale_problems :: "(string \<Rightarrow> string) \<Rightarrow> install_txn \<Rightarrow> disk \<Rightarrow> disk_error + stale_problem list" where
  "stale_problems sha t s =
     rbind (sha_of sha (d_names s Live_Json)) (\<lambda>live.
     rbind (sha_of sha (d_names s Previous_Json)) (\<lambda>previous.
     rbind (if tx_phase t \<in> set (Committed # abandon_phases) \<and> previous = None
            then sha_of sha (d_names s Superseded_Json) else Inr None) (\<lambda>aside.
     let keeping = tx_phase t \<in> set (Committed # abandon_phases) \<and> previous = None \<and> aside = tx_previous_before t
     in Inr ((if live \<notin> live_accepted sha t then [Live_Changed] else [])
       @ (if previous \<notin> previous_accepted sha t \<and> \<not> keeping then [Previous_Changed] else [])
       @ head_problems t s))))"

section \<open>Who may start production\<close>

datatype start_verdict = May_Start | Refused_Open install_txn bool | Refused_Unreadable

text \<open>\<open>compose_guard._refuse_if_install_open\<close>; the flag says whether the record is stale.\<close>

definition install_open_verdict :: "(string \<Rightarrow> string) \<Rightarrow> string option \<Rightarrow> disk \<Rightarrow> disk_error + start_verdict" where
  "install_open_verdict sha txn s = (case load_txn (d_txn s) of
     Inl Release_State_Error \<Rightarrow> Inr Refused_Unreadable
   | Inl e \<Rightarrow> Inl e
   | Inr None \<Rightarrow> Inr May_Start
   | Inr (Some t) \<Rightarrow> if Some (tx_id t) = txn then Inr May_Start
       else rbind (stale_problems sha t s) (\<lambda>ps. Inr (Refused_Open t (ps \<noteq> []))))"

section \<open>Abandoning\<close>

definition remove_all :: "string list \<Rightarrow> unit dio" where
  "remove_all names = sfor remove_entry names"

definition checkout_detached :: "string \<Rightarrow> unit dio" where
  "checkout_detached ref = whole_step (\<lambda>s. s\<lparr>d_head := Head ref\<rparr>)"

definition mark_live :: "string \<Rightarrow> unit dio" where
  "mark_live ref = atomic_write_text Live_Json (live_meta_text ref)"

definition put_code_back :: "release_env \<Rightarrow> entries option \<Rightarrow> install_txn \<Rightarrow> unit dio" where
  "put_code_back env staged t = sbind (sget d_head) (\<lambda>h.
     if h \<noteq> No_Repo then (case tx_replaced t of None \<Rightarrow> sret () | Some r \<Rightarrow> checkout_detached r)
     else case tx_replaced t of
       None \<Rightarrow>
         sbind (sbind (sget (\<lambda>s. rbind (classify_for env staged None s) (\<lambda>dirs.
             Inr (map fst (live_code_entries dirs s))))) slift) (\<lambda>names.
         sthen (remove_all names)
         (sthen (sbind (sget (lexists Live_Json)) (\<lambda>x. swhen x (unlink Live_Json))) (sthen fsync_dir fsync_dir)))
     | Some r \<Rightarrow> sbind (sget (\<lambda>s. d_names s Previous)) (\<lambda>p.
         case p of Some (Dir tree) \<Rightarrow>
           sthen (install_release env staged tree) (sthen (mark_live r) fsync_dir)
         | _ \<Rightarrow> sraise OS_Error))"

datatype abandon_outcome = No_Install | Stale | Not_Abandonable | Abandoned | Abandon_Failed disk_error

definition refuses_abandon :: "install_txn \<Rightarrow> bool" where
  "refuses_abandon t \<longleftrightarrow> tx_source t = From_Rollback \<or> data_may_have_changed t"

text \<open>The checkpointed part: an OSError, a ValueError or a DockerError leaves the install open.\<close>

definition abandon_steps :: "(string \<Rightarrow> string) \<Rightarrow> release_env \<Rightarrow> entries option \<Rightarrow> install_txn \<Rightarrow> unit dio" where
  "abandon_steps sha env staged t =
     sbind (if tx_phase t \<in> {Previous_Kept, Installed} then mark_abandon sha t Abandoning else sret t) (\<lambda>t1.
     sthen (swhen (tx_phase t1 = Abandoning) (put_code_back env staged t1))
     (sbind (if tx_phase t1 \<noteq> Code_Restored then mark_abandon sha t1 Code_Restored else sret t1) (\<lambda>t2.
     sthen (restore_superseded t2) (sthen (discard_dir Incoming) sweep_discarded))))"

definition survivable :: "disk_error \<Rightarrow> bool" where
  "survivable e \<longleftrightarrow> e \<in> {OS_Error, Release_State_Error, Bundle_Error, Docker_Failed, Git_Failed}"

definition abandon_locked :: "(string \<Rightarrow> string) \<Rightarrow> release_env \<Rightarrow> entries option \<Rightarrow> abandon_outcome dio" where
  "abandon_locked sha env staged = sbind (sget (\<lambda>s. load_txn (d_txn s))) (\<lambda>loaded.
     case loaded of
       Inl e \<Rightarrow> if e = Release_State_Error then sret (Abandon_Failed e) else sraise e
     | Inr None \<Rightarrow> sret No_Install
     | Inr (Some t) \<Rightarrow>
         sbind (sbind (sget (stale_problems sha t)) slift) (\<lambda>stale.
         if stale \<noteq> [] then sret Stale
         else if refuses_abandon t then sret Not_Abandonable
         else sbind (scatch survivable (sbind (abandon_steps sha env staged t) (\<lambda>_. sret None))
                (\<lambda>e. sret (Some e))) (\<lambda>failed.
           case failed of Some e \<Rightarrow> sret (Abandon_Failed e)
           | None \<Rightarrow> sbind close_txn (\<lambda>_. sret Abandoned))))"

section \<open>Dropping a stale record\<close>

datatype drop_outcome = Nothing_To_Drop | Dropped_Unreadable | Not_Stale | Dropped

definition drop_locked :: "(string \<Rightarrow> string) \<Rightarrow> drop_outcome dio" where
  "drop_locked sha = sbind (sget d_txn) (\<lambda>f.
     if f = Absent then sret Nothing_To_Drop
     else case load_txn f of
       Inl e \<Rightarrow> if e = Release_State_Error
         then sthen rescue_superseded (sthen discard_superseded (sbind drop_record (\<lambda>_. sret Dropped_Unreadable)))
         else sraise e
     | Inr None \<Rightarrow> sret Nothing_To_Drop
     | Inr (Some t) \<Rightarrow> sbind (sbind (sget (stale_problems sha t)) slift) (\<lambda>stale.
         if stale = [] then sret Not_Stale
         else sthen rescue_superseded (sbind close_txn (\<lambda>_. sret Dropped))))"

end
