(* ===== verification/Release_Txn_Laws.thy ===== *)
theory Release_Txn_Laws
  imports Release_Txn
begin

text \<open>
  Properties of the install transaction: its record is read back, its phases only go
  forward and end, what an install may have done is never forgotten, a crash is never
  called stale, abandoning gives the rollback target back, and where dropping a record
  does not.
\<close>

section \<open>The record\<close>

lemma named_source [simp]: "named source_text sources (PStr (source_text x)) = Some x"
  by (cases x) (simp_all add: named_def sources_def)

lemma named_phase [simp]: "named phase_text (phases_order @ abandon_phases) (PStr (phase_text x)) = Some x"
  by (cases x) (simp_all add: named_def phases_order_def abandon_phases_def)

lemma named_touched [simp]: "named touched_text all_touched (PStr (touched_text x)) = Some x"
  by (cases x) (simp_all add: named_def all_touched_def)

lemma opt_of_text [simp]: "opt_of (opt_text v) = Inr v" "opt_of PNone = Inr None" "opt_of (PStr x) = Inr (Some x)"
  by (cases v) (simp_all add: opt_of_def opt_text_def)

lemma read_expect_doc: "dget d ''expect'' = Some (expect_doc e) \<Longrightarrow> read_expect d = Inr e"
  by (cases "ex_head e")
    (simp_all add: read_expect_def expect_doc_def dget_def dget_or_def res_simps)

lemma txn_fields:
  assumes "txn_doc t = PDict d"
  shows "dget d ''version'' = Some (PInt 1)" "read_text d ''id'' = Inr (tx_id t)"
    "read_named source_text sources d ''source'' = Inr (tx_source t)" "read_text d ''ref'' = Inr (tx_ref t)"
    "read_opt d ''replaced_ref'' = Inr (tx_replaced t)" "read_opt d ''staged_id'' = Inr (tx_staged t)"
    "read_text d ''snapshot'' = Inr (tx_snapshot t)"
    "read_named phase_text (phases_order @ abandon_phases) d ''phase'' = Inr (tx_phase t)"
    "read_expect d = Inr (tx_expect t)" "read_opt d ''previous_before'' = Inr (tx_previous_before t)"
    "read_bool d ''had_previous'' = Inr (tx_had_previous t)"
    "read_named touched_text all_touched d ''touched'' = Inr (tx_touched t)" "read_text d ''started_at'' = Inr (tx_started t)"
  using assms read_expect_doc [of d "tx_expect t"]
  by (auto simp: txn_doc_def dget_def read_text_def read_opt_def read_named_def read_bool_def)

text \<open>C23. An install transaction written is read back whole: every field, with the phases of its own
  source or, for anything but a rollback, an abandon checkpoint.\<close>

theorem txn_roundtrip:
  assumes "valid_phase t"
  shows "load_txn (Doc (txn_doc t)) = Inr (Some t)"
proof -
  obtain d where d: "txn_doc t = PDict d" by (simp add: txn_doc_def)
  have "txn_of_doc d = Inr t" unfolding txn_of_doc_def by (simp add: txn_fields [OF d])
  then show ?thesis using assms by (simp add: load_txn_def d txn_fields(1) [OF d])
qed

theorem txn_roundtrip_witness: "load_txn (Doc (txn_doc example_txn)) = Inr (Some example_txn)"
  by (rule txn_roundtrip) (simp add: valid_phase_def txn_phases_def example_txn_def)

section \<open>The phases end\<close>

fun advance_all :: "(string \<Rightarrow> string) \<Rightarrow> install_txn \<Rightarrow> phase list \<Rightarrow> install_txn dio" where
  "advance_all sha t [] = sret t"
| "advance_all sha t (p # ps) = sbind (advance sha t p) (\<lambda>t'. advance_all sha t' ps)"

lemma write_txn_doc:
  assumes "write_txn t s = (Inr u, s')"
  shows "d_txn s' = Doc (txn_doc t)"
proof -
  obtain m where w: "whole_step (\<lambda>s. s\<lparr>d_txn := Doc (txn_doc t)\<rparr>) s = (Inr (), m)" and sync: "fsync_dir m = (Inr u, s')"
    using assms by (auto simp: write_txn_def sthen_def sbind_Inr)
  have "d_txn m = Doc (txn_doc t)"
    using w by (auto simp: whole_step_def disk_step_def split: list.splits outcome.splits)
  moreover have "skeeps d_txn fsync_dir" unfolding fsync_dir_def by (rule skeeps_whole_step) simp_all
  then have "d_txn s' = d_txn m" by (rule skeepsD) (rule sync)
  ultimately show ?thesis by simp
qed

lemma rewrite_txn_Inr:
  assumes "rewrite_txn sha mk s = (Inr t, s')"
  shows "\<exists>e. t = mk e \<and> d_txn s' = Doc (txn_doc t)"
  using assms by (auto simp: rewrite_txn_def sbind_Inr dest: write_txn_doc)

lemma advance_Inr:
  assumes "advance sha t p s = (Inr t', s')"
  shows "may_advance t p \<and> (\<exists>e. t' = t\<lparr>tx_phase := p, tx_expect := e\<rparr>) \<and> d_txn s' = Doc (txn_doc t')"
  using assms rewrite_txn_Inr [of sha "\<lambda>e. t\<lparr>tx_phase := p, tx_expect := e\<rparr>" s t' s']
  by (auto simp: advance_def split: if_splits)

definition phases_left :: "install_txn \<Rightarrow> nat" where
  "phases_left t = length (filter (\<lambda>p. rank (tx_phase t) < rank p) (txn_phases t))"

lemma txn_phases_upd [simp]: "txn_phases (t\<lparr>tx_phase := p, tx_expect := e\<rparr>) = txn_phases t"
  by (simp add: txn_phases_def)

lemma rank_inj: "rank p = rank q \<Longrightarrow> p = q"
  by (cases p; cases q) simp_all

lemma advance_uses_phase:
  assumes "may_advance t p"
  shows "phases_left (t\<lparr>tx_phase := p, tx_expect := e\<rparr>) < phases_left t"
proof -
  let ?later = "\<lambda>q. filter (\<lambda>x. rank q < rank x) (txn_phases t)"
  have "?later p = filter (\<lambda>x. rank p < rank x) (?later (tx_phase t))"
    using assms by (auto simp: may_advance_def intro!: filter_cong)
  moreover have "p \<in> set (?later (tx_phase t))" using assms by (simp add: may_advance_def)
  then have "length (filter (\<lambda>x. rank p < rank x) (?later (tx_phase t))) < length (?later (tx_phase t))"
    by (rule length_filter_less) simp
  ultimately show ?thesis by (simp add: phases_left_def)
qed

text \<open>C22. A transaction's phases end: every advance uses up one of the phases still ahead, so however
  the cores call it a transaction advances at most four times, and the phase it reaches is the
  last one asked for.\<close>

theorem advances_end:
  assumes "advance_all sha t ps s = (Inr t', s')"
  shows "length ps + phases_left t' \<le> phases_left t \<and> length ps \<le> 4
    \<and> tx_phase t' = last (tx_phase t # ps)"
proof -
  have "length ps + phases_left t' \<le> phases_left t \<and> tx_phase t' = last (tx_phase t # ps)"
    using assms
  proof (induction ps arbitrary: t s)
    case (Cons p ps)
    then obtain t1 s1 where t1: "advance sha t p s = (Inr t1, s1)" and run: "advance_all sha t1 ps s1 = (Inr t', s')"
      by (auto simp: sbind_Inr)
    then obtain e where e: "may_advance t p" "t1 = t\<lparr>tx_phase := p, tx_expect := e\<rparr>" using advance_Inr by blast
    show ?case using Cons.IH [OF run] advance_uses_phase [OF e(1), of e] e(2) by simp
  qed simp
  moreover have "phases_left t \<le> 4 \<or> ps = []"
  proof (cases ps)
    case (Cons p qs)
    then have "tx_phase t \<in> set (txn_phases t)"
      using assms advance_Inr by (auto simp: sbind_Inr may_advance_def)
    then have "phases_left t < length (txn_phases t)" unfolding phases_left_def by (rule length_filter_less) simp
    then show ?thesis by (simp add: txn_phases_def split: if_splits)
  qed simp
  ultimately show ?thesis by auto
qed

theorem advances_end_witness:
  "\<exists>t' s'. advance_all (\<lambda>x. x) example_txn [Previous_Kept, Installed, Hook_Started, Switching] example_kept_disk = (Inr t', s')
     \<and> tx_phase t' = Switching \<and> phases_left t' = 0"
proof -
  let ?run = "advance_all (\<lambda>x. x) example_txn [Previous_Kept, Installed, Hook_Started, Switching] example_kept_disk"
  have "(case fst ?run of Inr _ \<Rightarrow> True | Inl _ \<Rightarrow> False)" by code_simp
  then obtain t' s' where run: "?run = (Inr t', s')" by (cases ?run) (auto split: sum.splits)
  have "phases_left example_txn = 4" by code_simp
  then show ?thesis using advances_end [OF run] run by auto
qed

section \<open>What an install may have done is never forgotten\<close>

text \<open>
  The installs of one project that take over from one another, and whether any of them
  may have run a hook or restored data.
\<close>

inductive lineage :: "install_txn \<Rightarrow> bool \<Rightarrow> bool" where
  opened: "lineage (new_txn rq Committed before had Untouched e) (rq_source rq = From_Rollback)"
| advanced: "lineage t h \<Longrightarrow> may_advance t p \<Longrightarrow>
    lineage (t\<lparr>tx_phase := p, tx_expect := e\<rparr>) (h \<or> rank Hook_Started \<le> rank p)"
| superseded: "lineage old h \<Longrightarrow> \<not> abandoning old \<Longrightarrow>
    lineage (new_txn rq p (tx_previous_before old) (tx_had_previous old) (touched_by old) e)
      (h \<or> rq_source rq = From_Rollback \<or> p \<notin> set abandon_phases \<and> rank Hook_Started \<le> rank p)"

inductive_cases lineageE: "lineage t h"

text \<open>C18. Once any install of a chain of fix-forwards may have run its pre-deploy hook, restored data or
  switched containers, no later install of the chain can be abandoned: the code refuses both
  the checkpoint and the whole abandon.\<close>

theorem hook_never_forgotten:
  assumes "lineage t True"
  shows "data_may_have_changed t \<and> refuses_abandon t
    \<and> mark_abandon sha t p s = (Inl Release_State_Error, s)"
proof -
  have "data_may_have_changed t" if "lineage t h" "h" for h
    using that
  proof (induction rule: lineage.induct)
    case (opened rq before had e)
    then show ?case by (simp add: data_may_have_changed_def new_txn_def)
  next
    case (advanced t h p e)
    have order: "p \<in> set phases_order" "tx_phase t \<in> set phases_order" "rank (tx_phase t) < rank p"
      using advanced.hyps(2) by (auto simp: may_advance_def txn_phases_def phases_order_def split: if_splits)
    then show ?case using advanced
      by (auto simp: data_may_have_changed_def reached_def phases_order_def abandon_phases_def)
  next
    case (superseded old h rq p e)
    then show ?case
      by (auto simp: data_may_have_changed_def new_txn_def touched_by_def reached_def)
  qed
  then have "data_may_have_changed t" using assms by blast
  then show ?thesis by (simp add: refuses_abandon_def mark_abandon_def)
qed

theorem hook_never_forgotten_witness:
  "let old = example_txn\<lparr>tx_phase := Hook_Started\<rparr>;
     rq = \<lparr> rq_id = ''t2'', rq_source = From_Git, rq_ref = ''r3'', rq_replaced = Some ''r2'', rq_staged = None,
       rq_snapshot = ''snap'', rq_now = ''later'' \<rparr>;
     t = new_txn rq Committed (tx_previous_before old) (tx_had_previous old) (touched_by old) (tx_expect old)
   in refuses_abandon t \<and> mark_abandon (\<lambda>x. x) t Abandoning example_kept_disk = (Inl Release_State_Error, example_kept_disk)"
proof -
  define rq :: txn_request where "rq = \<lparr> rq_id = ''t1'', rq_source = From_Bundle, rq_ref = ''r2'', rq_replaced = Some ''r1'',
     rq_staged = None, rq_snapshot = ''snap'', rq_now = ''now'' \<rparr>"
  define rq2 :: txn_request where "rq2 = \<lparr> rq_id = ''t2'', rq_source = From_Git, rq_ref = ''r3'', rq_replaced = Some ''r2'', rq_staged = None,
       rq_snapshot = ''snap'', rq_now = ''later'' \<rparr>"
  define e where "e = tx_expect example_txn"
  have "example_txn = new_txn rq Committed (Some ''h'') True Untouched e"
    by (simp add: example_txn_def new_txn_def rq_def e_def)
  then have "lineage example_txn False" using lineage.opened [of rq "Some ''h''" True e] by (simp add: rq_def)
  then have "lineage (example_txn\<lparr>tx_phase := Hook_Started, tx_expect := e\<rparr>) (False \<or> rank Hook_Started \<le> rank Hook_Started)"
    by (rule lineage.advanced) (simp add: may_advance_def txn_phases_def example_txn_def)
  moreover have "example_txn\<lparr>tx_phase := Hook_Started, tx_expect := e\<rparr> = example_txn\<lparr>tx_phase := Hook_Started\<rparr>" (is "_ = ?old")
    by (simp add: e_def example_txn_def)
  ultimately have old: "lineage ?old True" by simp
  have "lineage (new_txn rq2 Committed (tx_previous_before ?old) (tx_had_previous ?old) (touched_by ?old) (tx_expect ?old)) True"
    using lineage.superseded [OF old, of rq2 Committed "tx_expect ?old"] by (simp add: abandoning_def abandon_phases_def)
  from hook_never_forgotten [OF this] show ?thesis by (simp add: Let_def rq2_def)
qed

section \<open>A crash is never called stale\<close>

text \<open>What the staleness check looks at beside the kept release.\<close>

definition outside_view :: "disk \<Rightarrow> node option \<times> git_head" where
  "outside_view s = (d_names s Live_Json, d_head s)"

lemma off_outside: "off_at (- {Live_Json}) outside_view" "off_code outside_view"
  by (auto simp: off_at_def off_code_def outside_view_def)

lemmas outside_rules = skeeps_at_names [OF off_outside(1)] skeeps_at_dirs [OF off_outside(1)]

lemma copy_outside: "skeeps outside_view (copy_into_building i)"
  unfolding copy_into_building_def
  by (rule skeeps_disk_step) (auto simp: outside_view_def split: option.split node.split)

lemma keep_outside: "skeeps outside_view (keep_previous_release_txn env staged t tree)"
  unfolding keep_previous_release_txn_def build_copy_def swap_previous_def rename_if_there_def sync_tree_def
  by (intro skeeps_rules copy_outside outside_rules ensure_record_off_code off_outside(2)) simp_all

lemma restore_outside: "skeeps outside_view (restore_superseded t)"
  unfolding restore_superseded_def put_back_dir_def put_back_json_def
  by (intro skeeps_basic skeeps_bind skeeps_then skeeps_if skeeps_when outside_rules)
    (auto intro!: skeeps_basic skeeps_bind skeeps_then skeeps_if skeeps_when outside_rules split: prod.split)

lemma explained_never_stale:
  assumes d: "explained t T d" "outside_view d = outside_view s"
    and s: "current_expect sha s = Inr (tx_expect t)" "d_names s Previous_Json = snd T"
    and aside: "d_names d Previous_Json = None \<Longrightarrow> \<exists>x. sha_of sha (d_names d Superseded_Json) = Inr x"
    and t: "tx_previous_before t = ex_previous (tx_expect t)" "tx_phase t \<in> set (Committed # abandon_phases)"
  shows "stale_problems sha t d = Inr []"
proof -
  obtain l p h where parts: "sha_of sha (d_names s Live_Json) = Inr l" "sha_of sha (snd T) = Inr p"
      "head_of (d_head s) = Inr h" and e: "tx_expect t = \<lparr>ex_live = l, ex_previous = p, ex_head = h\<rparr>"
    using s by (auto simp: current_expect_def rbind_eq_Inr dest: sym)
  then have live: "sha_of sha (d_names d Live_Json) = Inr (ex_live (tx_expect t))"
    and prev: "sha_of sha (snd T) = Inr (ex_previous (tx_expect t))"
    and head: "head_of (d_head d) = Inr (ex_head (tx_expect t))"
    using d(2) by (simp_all add: outside_view_def)
  have heads: "head_problems t d = []" using head by (simp add: head_problems_def split: option.split)
  from d(1) consider "d_names d Previous_Json = snd T" | "d_names d Previous_Json = Some (File (kept_previous_text t))"
    | "d_names d Previous_Json = None" "d_names d Superseded_Json = snd T"
    unfolding explained_def by auto
  then show ?thesis
  proof cases
    case 1
    then have now: "sha_of sha (d_names d Previous_Json) = Inr (ex_previous (tx_expect t))" using prev by simp
    have "\<exists>a. (if tx_phase t \<in> set (Committed # abandon_phases) \<and> ex_previous (tx_expect t) = None
        then sha_of sha (d_names d Superseded_Json) else Inr None) = (Inr a :: disk_error + string option)"
    proof (cases "ex_previous (tx_expect t) = None")
      case True
      then have "d_names d Previous_Json = None" using now by (auto simp: sha_of_def split: option.splits node.splits)
      then show ?thesis using aside by auto
    qed auto
    then obtain a where "(if tx_phase t \<in> set (Committed # abandon_phases) \<and> ex_previous (tx_expect t) = None
        then sha_of sha (d_names d Superseded_Json) else Inr None) = (Inr a :: disk_error + string option)" by blast
    then show ?thesis using now live heads by (simp add: stale_problems_def live_accepted_def previous_accepted_def)
  next
    case 2
    then show ?thesis using live heads t
      by (simp add: stale_problems_def live_accepted_def previous_accepted_def res_simps sha_of_def)
  next
    case 3
    then show ?thesis using live heads t prev
      by (simp add: stale_problems_def live_accepted_def res_simps sha_of_def)
  qed
qed

lemma undoable_never_stale:
  assumes "undoable t T d" "outside_view d = outside_view s" "clean T s"
    and "current_expect sha s = Inr (tx_expect t)" "tx_previous_before t = ex_previous (tx_expect t)"
    "tx_phase t \<in> set (Committed # abandon_phases)"
  shows "stale_problems sha t d = Inr []"
proof (rule explained_never_stale [OF _ assms(2,4)])
  show "explained t T d" using assms(1) by (simp add: undoable_def)
  show "d_names s Previous_Json = snd T" using assms(3) by (auto simp: clean_def rollback_target_def)
  have "file_or_none (d_names d Superseded_Json)" using assms(1) by (simp add: undoable_def shaped_def)
  then show "\<exists>x. sha_of sha (d_names d Superseded_Json) = Inr x"
    by (auto simp: sha_of_def file_or_none_def is_regular_def split: option.splits node.splits)
qed (rule assms)+

text \<open>C17. A crash of an install is never called stale: however keeping the replaced release is cut off, and
  however often undoing it is cut off after that, the files still match the record.\<close>

theorem crash_is_never_stale:
  assumes "clean T s" "tidy s" "records_target t T" "current_expect sha s = Inr (tx_expect t)"
    and "tx_previous_before t = ex_previous (tx_expect t)" "tx_phase t \<in> set (Committed # abandon_phases)"
  shows "stale_problems sha t (fold (attempt (restore_superseded t)) oss
    (attempt (keep_previous_release_txn env staged t tree) os s)) = Inr []"
proof -
  have look: "outside_view (attempt m os u) = outside_view u" if "skeeps outside_view m" for m :: "unit dio" and os u
    using that by (simp add: attempt_def skeeps_def outside_view_def)
  let ?k = "attempt (keep_previous_release_txn env staged t tree) os s"
  have "undoable t T ?k \<and> tidy ?k" by (rule attempt_keep [OF assms(1-3)])
  moreover have "outside_view ?k = outside_view s" by (rule look [OF keep_outside])
  moreover have "outside_view (fold (attempt (restore_superseded t)) oss u) = outside_view u" for u
    using look [OF restore_outside] by (induction oss arbitrary: u) simp_all
  ultimately have "undoable t T (fold (attempt (restore_superseded t)) oss ?k)"
      "outside_view (fold (attempt (restore_superseded t)) oss ?k) = outside_view s"
    using attempts_keep [OF assms(3), of ?k oss] by simp_all
  then show ?thesis using undoable_never_stale assms by blast
qed

theorem crash_is_never_stale_witness:
  "stale_problems (\<lambda>x. if x = ''meta'' then ''h'' else x) example_txn (fold (attempt (restore_superseded example_txn)) [[Goes, Dies 0]]
    (attempt (keep_previous_release_txn example_env None example_txn None) [Goes, Goes, Goes, Goes, Goes, Dies 0] example_kept_disk)) = Inr []"
proof (rule crash_is_never_stale)
  show "clean (Some (Dir [(''app.py'', File ''0'')]), Some (File ''meta'')) example_kept_disk" "tidy example_kept_disk"
    "records_target example_txn (Some (Dir [(''app.py'', File ''0'')]), Some (File ''meta''))"
    by (simp_all add: keep_defs example_kept_disk_def tidy_def example_txn_def)
  show "current_expect (\<lambda>x. if x = ''meta'' then ''h'' else x) example_kept_disk = Inr (tx_expect example_txn)"
    by (simp add: current_expect_def sha_of_def head_of_def example_kept_disk_def example_txn_def)
qed (simp_all add: example_txn_def)

section \<open>Where dropping a record pairs the wrong metadata\<close>

text \<open>
  A keep that dies just before writing \<open>previous.json\<close> leaves the copy of the live code in
  place and the old metadata aside.  When the record cannot be read, dropping it puts the
  two together: the rollback target is then the live code with the older release's
  reference and snapshot, and the older release is gone.
\<close>

definition keep_cut_before_json :: disk where
  "keep_cut_before_json = (attempt (keep_previous_release_txn example_env None example_txn None)
     [Goes, Goes, Goes, Goes, Goes, Goes, Goes, Goes, Goes, Goes, Dies 0] example_kept_disk)\<lparr>d_txn := Doc PNone\<rparr>"

lemma drop_pairs_wrong_metadata:
  "rollback_target example_kept_disk = (Some (Dir [(''app.py'', File ''0'')]), Some (File ''meta''))"
  "fst (drop_locked (\<lambda>x. x) keep_cut_before_json) = Inr Dropped_Unreadable"
  "rollback_target (snd (drop_locked (\<lambda>x. x) keep_cut_before_json)) = (Some (Dir [(''app.py'', File ''1'')]), Some (File ''meta''))"
  "nothing_aside (snd (drop_locked (\<lambda>x. x) keep_cut_before_json))"
  by code_simp+

end
