(* ===== verification/Release_Selection.thy ===== *)
theory Release_Selection
  imports Py_Prelude
begin

text \<open>
  \<^verbatim>\<open>src/boxmunge/release_selection.py\<close>: which release automatic updates may
  install, on the releases read from GitHub.
\<close>

section \<open>Versions\<close>

text \<open>
  \<open>int(text)\<close>: white space around, a sign, digits with single underscores between
  them, at most 4300 digits; \<open>None\<close> is its ValueError.
\<close>

fun int_digits :: "string \<Rightarrow> string option" where
  "int_digits [] = None"
| "int_digits (c # cs) =
    (if \<not> is_digit c then None
     else case cs of
       [] \<Rightarrow> Some [c]
     | d # ds \<Rightarrow> map_option ((#) c) (if d = CHR ''_'' then int_digits ds else int_digits (d # ds)))"

definition py_int :: "string \<Rightarrow> int option" where
  "py_int s = (let t = py_strip s;
       sign = (case t of c # _ \<Rightarrow> if c = CHR ''-'' then -1 else 1 | [] \<Rightarrow> 1);
       ds = (case t of c # cs \<Rightarrow> if c = CHR ''-'' \<or> c = CHR ''+'' then cs else t | [] \<Rightarrow> t) in
     case int_digits ds of
       None \<Rightarrow> None
     | Some w \<Rightarrow> if int (length w) > 4300 then None else Some (sign * int (dec_val w)))"

fun all_some :: "'a option list \<Rightarrow> 'a list option" where
  "all_some [] = Some []"
| "all_some (None # xs) = None"
| "all_some (Some x # xs) = map_option ((#) x) (all_some xs)"

definition version_tuple :: "string \<Rightarrow> int list option" where
  "version_tuple v = all_some (map py_int (split_on (CHR ''.'') v))"

definition zero_pad :: "nat \<Rightarrow> int list \<Rightarrow> int list" where
  "zero_pad n c = c @ replicate (n - length c) 0"

definition tuple_less :: "int list \<Rightarrow> int list \<Rightarrow> bool" where
  "tuple_less c d = (let n = max (length c) (length d) in zero_pad n c < zero_pad n d)"

definition newer :: "string \<Rightarrow> string \<Rightarrow> bool" where
  "newer candidate current = (case (version_tuple candidate, version_tuple current) of
     (Some c, Some d) \<Rightarrow> tuple_less d c | _ \<Rightarrow> False)"

section \<open>Releases\<close>

datatype release_class = Feature | Breakfix | Security

record release =
  rl_version :: string
  rl_url :: string
  rl_class :: release_class
  rl_breaking :: bool

datatype update_mode = Mode_Security | Mode_Breakfix | Mode_Latest

definition auto_classes :: "release_class list" where
  "auto_classes = [Breakfix, Security]"

fun mode_classes :: "update_mode \<Rightarrow> release_class list" where
  "mode_classes Mode_Security = [Security]"
| "mode_classes Mode_Breakfix = auto_classes"
| "mode_classes Mode_Latest = [Feature, Breakfix, Security]"

definition version_re :: "string \<Rightarrow> bool" where
  "version_re s = (case split_on (CHR ''.'') (if s \<noteq> [] \<and> last s = CHR 0x0A then butlast s else s) of
     [a, b, c] \<Rightarrow> list_all (\<lambda>w. w \<noteq> [] \<and> list_all is_digit w) [a, b, c] | _ \<Rightarrow> False)"

text \<open>\<open>_TAG_RE\<close>: the version of a \<open>vX.Y.Z\<close> tag, without the newline \<open>$\<close> lets through.\<close>

definition tag_version :: "string \<Rightarrow> string option" where
  "tag_version tag = (case tag of
     c # v \<Rightarrow> if c = CHR ''v'' \<and> version_re v
       then Some (if last v = CHR 0x0A then butlast v else v) else None
   | [] \<Rightarrow> None)"

definition release_page_prefix :: string where
  "release_page_prefix = ''https://github.com/boxmunge/boxmunge/releases/''"

text \<open>An item of the GitHub list; \<open>get(key) or ''\<close> and its text in an f-string.\<close>

definition text_member :: "pydict \<Rightarrow> string \<Rightarrow> py_exc + string" where
  "text_member d k = (let v = py_or (dget_or d k PNone) (PStr []) in
     case py_str v of None \<Rightarrow> Inl Unmodelled | Some s \<Rightarrow> Inr s)"

definition release_text :: "pydict \<Rightarrow> py_exc + string" where
  "release_text d = rbind (text_member d ''name'') (\<lambda>n. rbind (text_member d ''body'') (\<lambda>b.
     Inr (py_lower (n @ [CHR 0x0A] @ b))))"

definition class_of_text :: "string \<Rightarrow> release_class" where
  "class_of_text t = (if contains_sub ''[security]'' t then Security
     else if contains_sub ''[breakfix]'' t then Breakfix else Feature)"

definition tag_of :: "pydict \<Rightarrow> py_exc + string" where
  "tag_of d = (case py_or (dget_or d ''tag_name'' PNone) (PStr []) of PStr s \<Rightarrow> Inr s | _ \<Rightarrow> Inl TypeError)"

definition url_of :: "pydict \<Rightarrow> py_exc + string" where
  "url_of d = (case py_or (dget_or d ''html_url'' PNone) (PStr []) of PStr s \<Rightarrow> Inr s | _ \<Rightarrow> Inl AttributeError)"

definition github_release :: "pyval \<Rightarrow> py_exc + release option" where
  "github_release r = (case r of
     PDict d \<Rightarrow>
       if py_truthy (dget_or d ''draft'' PNone) \<or> py_truthy (dget_or d ''prerelease'' PNone) then Inr None
       else rbind (tag_of d) (\<lambda>tag. case tag_version tag of
           None \<Rightarrow> Inr None
         | Some v \<Rightarrow> rbind (url_of d) (\<lambda>url.
             if \<not> starts_with release_page_prefix url then Inr None
             else rbind (release_text d) (\<lambda>t.
               Inr (Some \<lparr> rl_version = v, rl_url = url, rl_class = class_of_text t,
                 rl_breaking = contains_sub ''[breaking]'' t \<rparr>))))
   | _ \<Rightarrow> Inl AttributeError)"

definition parse_github_releases :: "pyval list \<Rightarrow> py_exc + release list" where
  "parse_github_releases raw = rbind (rmap github_release raw) (\<lambda>rs. Inr (List.map_filter id rs))"

section \<open>Selection\<close>

definition pick_newer :: "(release \<Rightarrow> bool) \<Rightarrow> release option \<Rightarrow> release \<Rightarrow> release option" where
  "pick_newer keep best r = (if keep r \<and> (case best of None \<Rightarrow> True | Some b \<Rightarrow> newer (rl_version r) (rl_version b))
     then Some r else best)"

definition newest :: "release list \<Rightarrow> (release \<Rightarrow> bool) \<Rightarrow> release option" where
  "newest releases keep = foldl (pick_newer keep) None releases"

datatype reason = Major int | Breaking_Release string

definition breaking_on_path :: "release list \<Rightarrow> string \<Rightarrow> string \<Rightarrow> release list" where
  "breaking_on_path releases current target = filter (\<lambda>r. rl_breaking r \<and> newer (rl_version r) current
     \<and> \<not> newer (rl_version r) target) releases"

text \<open>\<open>min\<close> with a key takes the first of the least ones.\<close>

definition first_min :: "('a \<Rightarrow> 'k::linorder) \<Rightarrow> 'a \<Rightarrow> 'a list \<Rightarrow> 'a" where
  "first_min key = foldl (\<lambda>best x. if key x < key best then x else best)"

definition oldest :: "release list \<Rightarrow> reason option" where
  "oldest rs = (case rs of [] \<Rightarrow> None
     | r # others \<Rightarrow> Some (Breaking_Release (rl_version
         (first_min (\<lambda>x. the (version_tuple (rl_version x))) r others))))"

definition block_reason :: "release list \<Rightarrow> string \<Rightarrow> string \<Rightarrow> py_exc + reason option" where
  "block_reason releases current target = (case (version_tuple current, version_tuple target) of
     (Some pc, Some pt) \<Rightarrow>
       if hd pt \<noteq> hd pc then Inr (Some (Major (hd pt)))
       else Inr (oldest (breaking_on_path releases current target))
   | _ \<Rightarrow> Inl ValueError)"

definition may_install :: "release list \<Rightarrow> string \<Rightarrow> update_mode \<Rightarrow> release \<Rightarrow> bool" where
  "may_install releases current mode r \<longleftrightarrow> rl_class r \<in> set (mode_classes mode) \<and> newer (rl_version r) current
     \<and> (mode = Mode_Latest \<or> block_reason releases current (rl_version r) = Inr None)"

record offer =
  of_version :: string
  of_url :: string
  of_class :: release_class

definition offer_of :: "release \<Rightarrow> offer" where
  "offer_of r = \<lparr> of_version = rl_version r, of_url = rl_url r, of_class = rl_class r \<rparr>"

definition select :: "release list \<Rightarrow> string \<Rightarrow> update_mode \<Rightarrow> offer option" where
  "select releases current mode = map_option offer_of (newest releases (may_install releases current mode))"

record blocked_release =
  bl_offer :: offer
  bl_reason :: reason

definition find_blocked :: "release list \<Rightarrow> string \<Rightarrow> py_exc + blocked_release option" where
  "find_blocked releases current =
     (case newest releases (\<lambda>r. rl_class r \<in> set auto_classes \<and> newer (rl_version r) current) of
        None \<Rightarrow> Inr None
      | Some r \<Rightarrow> rbind (block_reason releases current (rl_version r)) (\<lambda>reason. case reason of
            None \<Rightarrow> Inr None
          | Some why \<Rightarrow> Inr (Some \<lparr> bl_offer = offer_of r, bl_reason = why \<rparr>)))"

end
