(* ===== verification/Version_Catalog.thy ===== *)
theory Version_Catalog
  imports Release_Selection
begin

text \<open>
  \<^verbatim>\<open>services/version-check/release_catalog.py\<close>: the version-check service's own
  catalogue, its selection and its answer to \<open>/v1/check\<close>.  It cannot share code with
  \<open>release_selection\<close>, so it repeats it.
\<close>

section \<open>The catalogue\<close>

datatype catalog_error =
    Top_Level | No_Releases | Not_An_Entry nat | Old_Security_Key nat | Missing_Keys nat | Unknown_Keys nat
  | Bad_Version nat | Bad_Class nat | Bad_Breaking nat | Bad_Url nat | Duplicate_Version nat

definition entry_keys :: "string list" where
  "entry_keys = [''version'', ''class'', ''breaking'', ''url'']"

definition release_url_prefix :: string where
  "release_url_prefix = ''https://github.com/boxmunge/boxmunge/releases/tag/v''"

text \<open>\<open>VERSION_RE\<close>: three groups of one to five digits, and no newline after them.\<close>

definition catalog_version_re :: "string \<Rightarrow> bool" where
  "catalog_version_re s = (case split_on (CHR ''.'') s of
     [a, b, c] \<Rightarrow> list_all (\<lambda>w. w \<noteq> [] \<and> length w \<le> 5 \<and> list_all is_digit w) [a, b, c] | _ \<Rightarrow> False)"

fun class_named :: "pyval \<Rightarrow> release_class option" where
  "class_named (PStr s) = (if s = ''feature'' then Some Feature else if s = ''breakfix'' then Some Breakfix
     else if s = ''security'' then Some Security else None)"
| "class_named _ = None"

definition entry_release :: "nat \<Rightarrow> pydict \<Rightarrow> catalog_error + release" where
  "entry_release i d = (case dget d ''version'' of
     Some (PStr v) \<Rightarrow>
       if \<not> catalog_version_re v then Inl (Bad_Version i)
       else (case class_named (dget_or d ''class'' PNone) of
         None \<Rightarrow> Inl (Bad_Class i)
       | Some c \<Rightarrow> (case dget d ''breaking'' of
           Some (PBool b) \<Rightarrow>
             if dget d ''url'' \<noteq> Some (PStr (release_url_prefix @ v)) then Inl (Bad_Url i)
             else Inr \<lparr> rl_version = v, rl_url = release_url_prefix @ v, rl_class = c, rl_breaking = b \<rparr>
         | _ \<Rightarrow> Inl (Bad_Breaking i)))
   | _ \<Rightarrow> Inl (Bad_Version i))"

definition validate_entry :: "nat \<Rightarrow> pyval \<Rightarrow> catalog_error + release" where
  "validate_entry i entry = (case entry of
     PDict d \<Rightarrow>
       if dhas d ''security'' then Inl (Old_Security_Key i)
       else if \<not> list_all (dhas d) entry_keys then Inl (Missing_Keys i)
       else if unknown_keys d entry_keys \<noteq> [] then Inl (Unknown_Keys i)
       else entry_release i d
   | _ \<Rightarrow> Inl (Not_An_Entry i))"

text \<open>The loop over the entries, with the versions seen so far; the releases are what is read of them.\<close>

fun validate_entries :: "nat \<Rightarrow> string list \<Rightarrow> pyval list \<Rightarrow> catalog_error + release list" where
  "validate_entries i seen [] = Inr []"
| "validate_entries i seen (e # es) = rbind (validate_entry i e) (\<lambda>r.
     if rl_version r \<in> set seen then Inl (Duplicate_Version i)
     else rbind (validate_entries (Suc i) (rl_version r # seen) es) (\<lambda>rs. Inr (r # rs)))"

definition load_releases :: "pyval \<Rightarrow> catalog_error + release list" where
  "load_releases data = (case data of
     PDict d \<Rightarrow>
       if set (map fst d) \<noteq> {PStr ''releases''} then Inl Top_Level
       else (case dget d ''releases'' of
         Some (PList es) \<Rightarrow> if es = [] then Inl No_Releases else validate_entries 0 [] es
       | _ \<Rightarrow> Inl No_Releases)
   | _ \<Rightarrow> Inl Top_Level)"

section \<open>Selection\<close>

definition parse_version :: "string \<Rightarrow> int list option" where
  "parse_version v = all_some (map py_int (split_on (CHR ''.'') v))"

definition version_gt :: "string \<Rightarrow> string \<Rightarrow> bool" where
  "version_gt a b = (case (parse_version a, parse_version b) of
     (Some pa, Some pb) \<Rightarrow> (let n = max (length pa) (length pb) in zero_pad n pb < zero_pad n pa)
   | _ \<Rightarrow> False)"

definition catalog_newest :: "release list \<Rightarrow> (release \<Rightarrow> bool) \<Rightarrow> release option" where
  "catalog_newest releases keep = foldl (\<lambda>best r. if keep r
     \<and> (case best of None \<Rightarrow> True | Some b \<Rightarrow> version_gt (rl_version r) (rl_version b)) then Some r else best) None releases"

definition catalog_block_reason :: "release list \<Rightarrow> string \<Rightarrow> string \<Rightarrow> py_exc + reason option" where
  "catalog_block_reason releases caller target = (case (parse_version caller, parse_version target) of
     (Some pc, Some pt) \<Rightarrow>
       if hd pt \<noteq> hd pc then Inr (Some (Major (hd pt)))
       else (case filter (\<lambda>r. rl_breaking r \<and> version_gt (rl_version r) caller
                \<and> \<not> version_gt (rl_version r) target) releases of
           [] \<Rightarrow> Inr None
         | r # others \<Rightarrow> Inr (Some (Breaking_Release (rl_version
             (first_min (\<lambda>x. the (parse_version (rl_version x))) r others)))))
   | _ \<Rightarrow> Inl ValueError)"

definition reachable :: "release list \<Rightarrow> string \<Rightarrow> release \<Rightarrow> bool" where
  "reachable releases caller r \<longleftrightarrow> version_gt (rl_version r) caller
     \<and> catalog_block_reason releases caller (rl_version r) = Inr None"

record offers =
  os_security :: "release option"
  os_breakfix :: "release option"
  os_latest :: "release option"

definition select_offers :: "release list \<Rightarrow> string \<Rightarrow> offers" where
  "select_offers releases caller =
     \<lparr> os_security = catalog_newest releases (\<lambda>r. rl_class r = Security \<and> reachable releases caller r),
       os_breakfix = catalog_newest releases (\<lambda>r. rl_class r \<in> {Breakfix, Security} \<and> reachable releases caller r),
       os_latest = (case catalog_newest releases (\<lambda>r. True) of
          Some l \<Rightarrow> if version_gt (rl_version l) caller then Some l else None | None \<Rightarrow> None) \<rparr>"

definition catalog_find_blocked :: "release list \<Rightarrow> string \<Rightarrow> py_exc + blocked_release option" where
  "catalog_find_blocked releases caller =
     (case catalog_newest releases (\<lambda>r. rl_class r \<in> {Breakfix, Security} \<and> version_gt (rl_version r) caller) of
        None \<Rightarrow> Inr None
      | Some r \<Rightarrow> rbind (catalog_block_reason releases caller (rl_version r)) (\<lambda>reason. case reason of
            None \<Rightarrow> Inr None
          | Some why \<Rightarrow> Inr (Some \<lparr> bl_offer = offer_of r, bl_reason = why \<rparr>)))"

section \<open>Holds\<close>

text \<open>The release a hold withholds is named once; the third component lists them.\<close>

definition apply_holds :: "offers \<Rightarrow> (string \<Rightarrow> bool) \<Rightarrow> offers \<times> string list" where
  "apply_holds f is_held =
     (let hit = (case os_security f of Some s \<Rightarrow> is_held (rl_version s) | None \<Rightarrow> False);
          held = (case os_security f of Some s \<Rightarrow> if hit then [rl_version s] else [] | None \<Rightarrow> []);
          security = (if hit then None else os_security f) in
      case os_breakfix f of
        Some b \<Rightarrow> if rl_version b \<in> set held \<or> is_held (rl_version b)
          then (f\<lparr>os_security := security, os_breakfix := security\<rparr>,
                if rl_version b \<in> set held then held else held @ [rl_version b])
          else (f\<lparr>os_security := security\<rparr>, held)
      | None \<Rightarrow> (f\<lparr>os_security := security\<rparr>, held))"

section \<open>The answer\<close>

fun class_text :: "release_class \<Rightarrow> string" where
  "class_text Feature = ''feature''" | "class_text Breakfix = ''breakfix''" | "class_text Security = ''security''"

definition offer_members :: "offer \<Rightarrow> pydict" where
  "offer_members f = [(PStr ''version'', PStr (of_version f)), (PStr ''url'', PStr (of_url f)),
     (PStr ''class'', PStr (class_text (of_class f)))]"

definition offer_doc :: "release option \<Rightarrow> pyval" where
  "offer_doc r = (case r of None \<Rightarrow> PNone | Some x \<Rightarrow> PDict (offer_members (offer_of x)))"

fun reason_doc :: "reason \<Rightarrow> pyval" where
  "reason_doc (Major n) = PDict [(PStr ''major'', PInt n)]"
| "reason_doc (Breaking_Release v) = PDict [(PStr ''breaking_release'', PStr v)]"

definition blocked_doc :: "blocked_release option \<Rightarrow> pyval" where
  "blocked_doc b = (case b of None \<Rightarrow> PNone
     | Some x \<Rightarrow> PDict (offer_members (bl_offer x) @ [(PStr ''reason'', reason_doc (bl_reason x))]))"

definition held_doc :: "string \<Rightarrow> pyval" where
  "held_doc v = PDict [(PStr ''version'', PStr v), (PStr ''reason'', PStr ''circuit_breaker'')]"

definition check_response :: "offers \<Rightarrow> string list \<Rightarrow> blocked_release option \<Rightarrow> pyval" where
  "check_response f held blocked = PDict
     ([(PStr ''status'', PStr (if os_security f \<noteq> None then ''security_update_available''
          else if os_breakfix f \<noteq> None then ''breakfix_update_available''
          else if os_latest f \<noteq> None then ''update_available'' else ''up_to_date'')),
       (PStr ''security'', offer_doc (os_security f)), (PStr ''breakfix'', offer_doc (os_breakfix f)),
       (PStr ''latest'', offer_doc (os_latest f)), (PStr ''blocked'', blocked_doc blocked)]
      @ (if held = [] then [] else [(PStr ''held'', PList (map held_doc held))]))"

text \<open>\<open>/v1/check\<close> of a loaded catalogue, for a version that has passed \<open>VERSION_RE\<close>.\<close>

definition check_route :: "release list \<Rightarrow> (string \<Rightarrow> bool) \<Rightarrow> string \<Rightarrow> py_exc + pyval" where
  "check_route releases is_held version =
     (case apply_holds (select_offers releases version) is_held of (f, held) \<Rightarrow>
       rbind (catalog_find_blocked releases version) (\<lambda>b. Inr (check_response f held b)))"

end
