(* ===== verification/Upgrade_Discovery.thy ===== *)
theory Upgrade_Discovery
  imports Version_Catalog Py_Datetime
begin

text \<open>
  \<^verbatim>\<open>src/boxmunge/upgrade_discovery.py\<close>: the next version to install, from the
  version-check service or, when its answer cannot be used, from GitHub; and of
  \<^verbatim>\<open>upgrade_state.py\<close> the blocklist and probation files it and its callers read.
  What the two requests returned are parameters.
\<close>

section \<open>State files\<close>

definition read_state_json :: "json_file \<Rightarrow> unit + pydict" where
  "read_state_json f = (case f of Absent \<Rightarrow> Inr [] | Doc (PDict d) \<Rightarrow> Inr d | _ \<Rightarrow> Inl ())"

definition is_blocklisted :: "json_file \<Rightarrow> string \<Rightarrow> unit + bool" where
  "is_blocklisted f version = rbind (read_state_json f) (\<lambda>d. Inr (dhas d version))"

datatype state_error = Upgrade_State_Error | Write_Failed

definition write_state_json :: "bool \<Rightarrow> pydict \<Rightarrow> state_error + json_file" where
  "write_state_json can_write d = (if can_write then Inr (Doc (PDict d)) else Inl Write_Failed)"

fun state_error_of :: "unit + 'a \<Rightarrow> state_error + 'a" where
  "state_error_of (Inl _) = Inl Upgrade_State_Error" | "state_error_of (Inr x) = Inr x"

definition add_to_blocklist :: "bool \<Rightarrow> json_file \<Rightarrow> string \<Rightarrow> string \<Rightarrow> datetime \<Rightarrow> state_error + json_file" where
  "add_to_blocklist can_write f version why now = rbind (state_error_of (read_state_json f)) (\<lambda>d.
     write_state_json can_write (dset d (PStr version)
       (PDict [(PStr ''reason'', PStr why), (PStr ''failed_at'', PStr (datetime_iso now))])))"

definition remove_from_blocklist :: "bool \<Rightarrow> json_file \<Rightarrow> string \<Rightarrow> state_error + json_file" where
  "remove_from_blocklist can_write f version = rbind (state_error_of (read_state_json f)) (\<lambda>d.
     write_state_json can_write (filter (\<lambda>(k, _). k \<noteq> PStr version) d))"

definition read_probation :: "json_file \<Rightarrow> unit + pydict option" where
  "read_probation f = rbind (read_state_json f) (\<lambda>d. Inr (if d = [] then None else Some d))"

text \<open>\<open>clear_probation_if_active\<close>: what it leaves of the file; the unlink tolerates its absence.\<close>

definition clear_probation_if_active :: "bool \<Rightarrow> json_file \<Rightarrow> state_error + json_file" where
  "clear_probation_if_active can_unlink f = rbind (state_error_of (read_probation f)) (\<lambda>p.
     case p of None \<Rightarrow> Inr f | Some _ \<Rightarrow> if can_unlink then Inr Absent else Inl Write_Failed)"

section \<open>The endpoint's answer\<close>

datatype contract_error =
    Not_An_Object string | Lacks_Version_Or_Url | Lacks_Version | Lacks_Url | Wrong_Class | Reason_Not_One
  | Cause_Not_Version | Major_Not_Int | Unknown_Reason | No_Field string | Not_A_List

fun mode_text :: "update_mode \<Rightarrow> string" where
  "mode_text Mode_Security = ''security''" | "mode_text Mode_Breakfix = ''breakfix''" | "mode_text Mode_Latest = ''latest''"

text \<open>\<open>cls not in classes\<close> on a frozenset: a list or an object has no hash.\<close>

definition class_in :: "release_class list \<Rightarrow> pyval \<Rightarrow> contract_error raised + release_class" where
  "class_in classes cls =
     (if \<not> py_hashable cls then Inl (Crash TypeError)
      else case class_named cls of
        None \<Rightarrow> Inl (Raised Wrong_Class)
      | Some c \<Rightarrow> if c \<in> set classes then Inr c else Inl (Raised Wrong_Class))"

definition endpoint_candidate :: "pyval \<Rightarrow> update_mode \<Rightarrow> contract_error raised + offer option" where
  "endpoint_candidate v mode = (case v of
     PNone \<Rightarrow> Inr None
   | PDict d \<Rightarrow> (case (dget_or d ''version'' PNone, dget_or d ''url'' PNone) of
        (PStr version, PStr url) \<Rightarrow> rbind (class_in (mode_classes mode) (dget_or d ''class'' PNone)) (\<lambda>c.
           Inr (Some \<lparr> of_version = version, of_url = url, of_class = c \<rparr>))
      | _ \<Rightarrow> Inl (Raised Lacks_Version_Or_Url))
   | _ \<Rightarrow> Inl (Raised (Not_An_Object (mode_text mode))))"

definition endpoint_reason :: "pyval \<Rightarrow> contract_error raised + reason" where
  "endpoint_reason v = (case v of
     PDict d \<Rightarrow>
       if length d \<noteq> 1 then Inl (Raised Reason_Not_One)
       else (case dget d ''breaking_release'' of
         Some (PStr s) \<Rightarrow> if version_re s then Inr (Breaking_Release s) else Inl (Raised Cause_Not_Version)
       | Some _ \<Rightarrow> Inl (Raised Cause_Not_Version)
       | None \<Rightarrow> (case dget d ''major'' of
            Some (PInt n) \<Rightarrow> Inr (Major n) | Some _ \<Rightarrow> Inl (Raised Major_Not_Int) | None \<Rightarrow> Inl (Raised Unknown_Reason)))
   | _ \<Rightarrow> Inl (Raised Reason_Not_One))"

definition endpoint_blocked :: "pyval \<Rightarrow> contract_error raised + blocked_release option" where
  "endpoint_blocked v = (case v of
     PNone \<Rightarrow> Inr None
   | PDict d \<Rightarrow> (case dget_or d ''version'' PNone of
        PStr version \<Rightarrow>
          if \<not> version_re version then Inl (Raised Lacks_Version)
          else (case dget_or d ''url'' PNone of
            PStr url \<Rightarrow> rbind (class_in auto_classes (dget_or d ''class'' PNone)) (\<lambda>c.
              rbind (endpoint_reason (dget_or d ''reason'' PNone)) (\<lambda>why.
              Inr (Some \<lparr> bl_offer = \<lparr> of_version = version, of_url = url, of_class = c \<rparr>, bl_reason = why \<rparr>)))
          | _ \<Rightarrow> Inl (Raised Lacks_Url))
      | _ \<Rightarrow> Inl (Raised Lacks_Version))
   | _ \<Rightarrow> Inl (Raised (Not_An_Object ''blocked'')))"

definition read_endpoint :: "pyval \<Rightarrow> update_mode \<Rightarrow> contract_error raised + offer option \<times> blocked_release option" where
  "read_endpoint v mode = (case v of
     PDict d \<Rightarrow> (case List.find (\<lambda>f. \<not> dhas d f) [''security'', ''breakfix'', ''latest'', ''blocked''] of
        Some f \<Rightarrow> Inl (Raised (No_Field f))
      | None \<Rightarrow> rbind (endpoint_candidate (dget_or d (mode_text mode) PNone) mode) (\<lambda>c.
          rbind (endpoint_blocked (dget_or d ''blocked'' PNone)) (\<lambda>b. Inr (c, b))))
   | _ \<Rightarrow> Inl (Raised (Not_An_Object ''response'')))"

section \<open>Discovery\<close>

text \<open>A request: the parsed body, or a failure the source catches (network, decoding).\<close>

datatype fetched = Fetched pyval | Unavailable

datatype source_failure = Not_Reached | Broken_Contract contract_error

fun usable :: "(contract_error raised + 'a) \<Rightarrow> py_exc + (source_failure + 'a)" where
  "usable (Inr x) = Inr (Inr x)"
| "usable (Inl (Raised e)) = Inr (Inl (Broken_Contract e))"
| "usable (Inl (Crash x)) = Inl x"

definition from_endpoint :: "fetched \<Rightarrow> update_mode \<Rightarrow> py_exc + (source_failure + offer option \<times> blocked_release option)" where
  "from_endpoint f mode = (case f of Unavailable \<Rightarrow> Inr (Inl Not_Reached) | Fetched v \<Rightarrow> usable (read_endpoint v mode))"

definition check_github :: "fetched \<Rightarrow> string \<Rightarrow> update_mode \<Rightarrow> py_exc + (source_failure + offer option \<times> blocked_release option)" where
  "check_github f current mode = (case f of
     Unavailable \<Rightarrow> Inr (Inl Not_Reached)
   | Fetched (PList raw) \<Rightarrow> rbind (parse_github_releases raw) (\<lambda>rs.
       rbind (find_blocked rs current) (\<lambda>b. Inr (Inr (select rs current mode, b))))
   | Fetched _ \<Rightarrow> Inr (Inl (Broken_Contract Not_A_List)))"

datatype discovery_source = Endpoint | Github source_failure

record discovery_meta =
  dm_current :: string
  dm_blocked :: "blocked_release option"
  dm_source :: discovery_source

datatype discovery =
    Upgrade offer discovery_meta
  | Up_To_Date discovery_meta
  | Blocklisted offer discovery_meta
  | No_Source source_failure source_failure
  | Blocklist_Unreadable

definition decide_upgrade :: "json_file \<Rightarrow> offer option \<Rightarrow> discovery_meta \<Rightarrow> discovery" where
  "decide_upgrade blocklist candidate meta = (case candidate of
     None \<Rightarrow> Up_To_Date meta
   | Some c \<Rightarrow> if \<not> newer (of_version c) (dm_current meta) then Up_To_Date meta
       else (case is_blocklisted blocklist (of_version c) of
         Inl _ \<Rightarrow> Blocklist_Unreadable
       | Inr True \<Rightarrow> Blocklisted c meta
       | Inr False \<Rightarrow> Upgrade c meta))"

definition parse_version_string :: "string \<Rightarrow> string" where
  "parse_version_string v = (if py_strip v = [] then ''0.0.0''
     else if CHR ''+'' \<in> set v then takeWhile (\<lambda>c. c \<noteq> CHR ''+'') v else py_strip v)"

definition discover_update :: "fetched \<Rightarrow> fetched \<Rightarrow> json_file \<Rightarrow> string \<Rightarrow> update_mode \<Rightarrow> py_exc + discovery" where
  "discover_update endpoint github blocklist installed mode =
     (let current = parse_version_string installed in
      rbind (from_endpoint endpoint mode) (\<lambda>first. case first of
        Inr (c, b) \<Rightarrow> Inr (decide_upgrade blocklist c \<lparr> dm_current = current, dm_blocked = b, dm_source = Endpoint \<rparr>)
      | Inl e \<Rightarrow> rbind (check_github github current mode) (\<lambda>second. case second of
          Inr (c, b) \<Rightarrow> Inr (decide_upgrade blocklist c \<lparr> dm_current = current, dm_blocked = b, dm_source = Github e \<rparr>)
        | Inl g \<Rightarrow> Inr (No_Source e g))))"

end
