(* ===== verification/Release_Selection_Laws.thy ===== *)
theory Release_Selection_Laws
  imports Upgrade_Discovery
begin

text \<open>
  What automatic updates may install: never across a breaking release or a major
  version, the same from either source, and nothing the box or the service withholds.
\<close>

section \<open>The order of versions\<close>

lemma append_same_less:
  "length u = length v \<Longrightarrow> (u @ z < v @ z) = (u < (v :: 'a::linorder list))"
  by (induction u v rule: list_induct2) auto

lemma zero_pad_longer: "length c \<le> n \<Longrightarrow> n \<le> m \<Longrightarrow> zero_pad m c = zero_pad n c @ replicate (m - n) 0"
  by (simp add: zero_pad_def replicate_add [symmetric])

lemma length_zero_pad: "length c \<le> n \<Longrightarrow> length (zero_pad n c) = n"
  by (simp add: zero_pad_def)

lemma tuple_less_padded:
  assumes "length c \<le> m" "length d \<le> m"
  shows "tuple_less c d = (zero_pad m c < zero_pad m d)"
proof -
  let ?n = "max (length c) (length d)"
  have "zero_pad m c = zero_pad ?n c @ replicate (m - ?n) 0" "zero_pad m d = zero_pad ?n d @ replicate (m - ?n) 0"
    by (rule zero_pad_longer; use assms in simp)+
  moreover have "length (zero_pad ?n c) = length (zero_pad ?n d)" by (simp add: length_zero_pad)
  ultimately show ?thesis by (simp add: tuple_less_def Let_def append_same_less)
qed

lemma tuple_less_order:
  "\<not> tuple_less a a"
  "tuple_less a b \<Longrightarrow> tuple_less b c \<Longrightarrow> tuple_less a c"
  "tuple_less a c \<Longrightarrow> tuple_less a b \<or> tuple_less b c"
proof -
  define m where "m = max (length a) (max (length b) (length c))"
  then have "length a \<le> m" "length b \<le> m" "length c \<le> m" by simp_all
  note less = tuple_less_padded [OF this(1) this(2)] tuple_less_padded [OF this(2) this(3)]
    tuple_less_padded [OF this(1) this(3)]
  show "\<not> tuple_less a a" by (simp add: tuple_less_def Let_def)
  show "tuple_less a b \<Longrightarrow> tuple_less b c \<Longrightarrow> tuple_less a c" unfolding less by (rule less_trans)
  show "tuple_less a c \<Longrightarrow> tuple_less a b \<or> tuple_less b c" unfolding less by (meson le_less_trans not_le)
qed

lemma hd_zero_pad: "c \<noteq> [] \<Longrightarrow> hd (zero_pad n c) = hd c"
  by (cases c) (simp_all add: zero_pad_def)

lemma list_less_hd: "(xs :: 'a::linorder list) < ys \<Longrightarrow> xs \<noteq> [] \<Longrightarrow> ys \<noteq> [] \<Longrightarrow> hd xs \<le> hd ys"
  by (cases xs; cases ys) auto

lemma tuple_less_hd:
  assumes "tuple_less c d" "c \<noteq> []" "d \<noteq> []"
  shows "hd c \<le> hd d"
  using list_less_hd [of "zero_pad (max (length c) (length d)) c" "zero_pad (max (length c) (length d)) d"] assms
  by (simp add: tuple_less_def Let_def hd_zero_pad) (simp add: zero_pad_def)

lemma all_some_length: "all_some xs = Some ys \<Longrightarrow> length ys = length xs"
  by (induction xs arbitrary: ys rule: all_some.induct) auto

lemma version_tuple_nonempty: "version_tuple v = Some t \<Longrightarrow> t \<noteq> []"
proof -
  have "split_on c s \<noteq> []" for c s by (induction s) (auto split: list.splits)
  then show "version_tuple v = Some t \<Longrightarrow> t \<noteq> []"
    unfolding version_tuple_def by (drule_tac all_some_length) auto
qed

lemma newer_tuples: "newer a b \<Longrightarrow> \<exists>c d. version_tuple a = Some c \<and> version_tuple b = Some d \<and> tuple_less d c"
  by (auto simp: newer_def split: option.splits)

lemma newer_order:
  "\<not> newer a a"
  "newer a b \<Longrightarrow> newer b c \<Longrightarrow> newer a c"
  "newer a c \<Longrightarrow> version_tuple b \<noteq> None \<Longrightarrow> newer a b \<or> newer b c"
proof -
  show "\<not> newer a a" using tuple_less_order(1) by (auto simp: newer_def split: option.splits)
  show "newer a b \<Longrightarrow> newer b c \<Longrightarrow> newer a c"
    using tuple_less_order(2) by (auto simp: newer_def split: option.splits)
  show "newer a b \<or> newer b c" if ac: "newer a c" and b: "version_tuple b \<noteq> None"
  proof -
    obtain x y z where "version_tuple a = Some x" "version_tuple b = Some y" "version_tuple c = Some z" "tuple_less z x"
      using newer_tuples [OF ac] b by auto
    then show ?thesis using tuple_less_order(3) [of z x y] by (auto simp: newer_def)
  qed
qed

section \<open>The newest release\<close>

lemma newest_None: "newest rs keep = None \<longleftrightarrow> (\<forall>r\<in>set rs. \<not> keep r)"
proof -
  have "foldl (pick_newer keep) best rs = None \<longleftrightarrow> best = None \<and> (\<forall>r\<in>set rs. \<not> keep r)" for best
    by (induction rs arbitrary: best) (auto simp: pick_newer_def split: if_splits option.splits)
  then show ?thesis by (simp add: newest_def)
qed

lemma newest_Some:
  assumes "newest rs keep = Some b" "\<And>r. keep r \<Longrightarrow> version_tuple (rl_version r) \<noteq> None"
  shows "b \<in> set rs" "keep b" "\<And>r. r \<in> set rs \<Longrightarrow> keep r \<Longrightarrow> \<not> newer (rl_version r) (rl_version b)"
proof -
  have fold: "keep b \<and> (b \<in> set rs \<or> best = Some b) \<and> (\<forall>x. best = Some x \<longrightarrow> \<not> newer (rl_version x) (rl_version b))
      \<and> (\<forall>r\<in>set rs. keep r \<longrightarrow> \<not> newer (rl_version r) (rl_version b))"
    if "foldl (pick_newer keep) best rs = Some b" "\<forall>x. best = Some x \<longrightarrow> keep x" for best
    using that
  proof (induction rs arbitrary: best)
    case Nil
    then show ?case using newer_order(1) by simp
  next
    case (Cons r rs)
    let ?next = "pick_newer keep best r"
    have IH: "keep b \<and> (b \<in> set rs \<or> ?next = Some b) \<and> (\<forall>x. ?next = Some x \<longrightarrow> \<not> newer (rl_version x) (rl_version b))
        \<and> (\<forall>r\<in>set rs. keep r \<longrightarrow> \<not> newer (rl_version r) (rl_version b))"
      using Cons.prems by (intro Cons.IH) (auto simp: pick_newer_def split: if_splits option.splits)
    show ?case
    proof (cases "?next = best")
      case True
      have "\<not> newer (rl_version r) (rl_version b)" if "keep r"
      proof (cases best)
        case None
        then show ?thesis using True that by (simp add: pick_newer_def)
      next
        case (Some x)
        then have x: "keep x" "\<not> newer (rl_version x) (rl_version b)" using Cons.prems(2) IH True by simp_all
        have "r = x \<or> \<not> newer (rl_version r) (rl_version x)" using True Some that by (auto simp: pick_newer_def split: if_splits)
        then show ?thesis using x newer_order(3) [of "rl_version r" "rl_version b" "rl_version x"] assms(2) by blast
      qed
      then show ?thesis using IH True by auto
    next
      case False
      then have r: "?next = Some r" "\<forall>x. best = Some x \<longrightarrow> newer (rl_version r) (rl_version x)"
        by (auto simp: pick_newer_def split: if_splits option.splits)
      then have "\<not> newer (rl_version r) (rl_version b)" using IH by simp
      then show ?thesis using IH r newer_order(2) by auto
    qed
  qed
  from fold [of None] assms(1) show "b \<in> set rs" "keep b"
    "\<And>r. r \<in> set rs \<Longrightarrow> keep r \<Longrightarrow> \<not> newer (rl_version r) (rl_version b)"
    by (auto simp: newest_def)
qed

section \<open>Never across a breaking release or a major version\<close>

lemma block_reason_None:
  assumes "block_reason rs current target = Inr None"
  shows "\<exists>pc pt. version_tuple current = Some pc \<and> version_tuple target = Some pt \<and> hd pt = hd pc"
    "breaking_on_path rs current target = []"
  using assms by (auto simp: block_reason_def oldest_def split: option.splits if_splits list.splits)

definition same_major :: "string \<Rightarrow> string \<Rightarrow> bool" where
  "same_major v w \<longleftrightarrow> map_option hd (version_tuple v) = map_option hd (version_tuple w)"

text \<open>Automatic updates never cross a breaking release or a major version: what a security or
  break-fix mode selects is a listed release of an accepted class, newer than the box, of its
  major version, no release after the box's up to and including it is breaking, and no listed
  release the mode may install is newer.\<close>

theorem select_never_crosses:
  assumes "select rs current mode = Some f" "mode \<noteq> Mode_Latest"
  shows "\<exists>r\<in>set rs. f = offer_of r \<and> rl_class r \<in> set (mode_classes mode) \<and> newer (rl_version r) current
    \<and> same_major (rl_version r) current
    \<and> (\<forall>b\<in>set rs. rl_breaking b \<and> newer (rl_version b) current \<longrightarrow> newer (rl_version b) (rl_version r))
    \<and> (\<forall>x\<in>set rs. may_install rs current mode x \<longrightarrow> \<not> newer (rl_version x) (rl_version r))"
proof -
  obtain r where n: "newest rs (may_install rs current mode) = Some r" and f: "f = offer_of r"
    using assms(1) by (auto simp: select_def)
  have parses: "version_tuple (rl_version x) \<noteq> None" if "may_install rs current mode x" for x
    using that newer_tuples by (auto simp: may_install_def)
  note r = newest_Some [OF n parses]
  have free: "block_reason rs current (rl_version r) = Inr None" using r(2) assms(2) by (simp add: may_install_def)
  have "same_major (rl_version r) current" using block_reason_None(1) [OF free] by (auto simp: same_major_def)
  moreover have "newer (rl_version b) (rl_version r)" if "b \<in> set rs" "rl_breaking b" "newer (rl_version b) current" for b
    using block_reason_None(2) [OF free] that by (auto simp: breaking_on_path_def filter_empty_conv)
  ultimately show ?thesis using r f by (auto simp: may_install_def)
qed

definition example_releases :: "release list" where
  "example_releases = [\<lparr> rl_version = ''0.11.2'', rl_url = ''u'', rl_class = Security, rl_breaking = False \<rparr>,
     \<lparr> rl_version = ''0.12.0'', rl_url = ''v'', rl_class = Feature, rl_breaking = True \<rparr>,
     \<lparr> rl_version = ''0.12.1'', rl_url = ''w'', rl_class = Security, rl_breaking = False \<rparr>]"

theorem select_never_crosses_witness:
  "select example_releases ''0.10.3'' Mode_Security = Some \<lparr> of_version = ''0.11.2'', of_url = ''u'', of_class = Security \<rparr>
   \<and> (\<exists>r\<in>set example_releases. rl_version r = ''0.11.2'')"
proof -
  have s: "select example_releases ''0.10.3'' Mode_Security = Some \<lparr> of_version = ''0.11.2'', of_url = ''u'', of_class = Security \<rparr>"
    by code_simp
  show ?thesis using s select_never_crosses [OF s] by (auto simp: offer_of_def)
qed

section \<open>What is reported as blocked\<close>

text \<open>C27. A blocked release is reported exactly when automatic updates would miss a fix: nothing is
  reported if and only if every listed security or break-fix release newer than the box may be
  installed automatically.\<close>

theorem find_blocked_exact:
  assumes "version_tuple current \<noteq> None"
  shows "find_blocked rs current = Inr None \<longleftrightarrow>
    (\<forall>r\<in>set rs. rl_class r \<in> set auto_classes \<and> newer (rl_version r) current
       \<longrightarrow> may_install rs current Mode_Breakfix r)"
proof -
  let ?auto = "\<lambda>r. rl_class r \<in> set auto_classes \<and> newer (rl_version r) current"
  have parses: "version_tuple (rl_version r) \<noteq> None" if "?auto r" for r using that newer_tuples by auto
  show ?thesis
  proof (cases "newest rs ?auto")
    case None
    then show ?thesis using newest_None [of rs ?auto] by (auto simp: find_blocked_def)
  next
    case (Some b)
    note b = newest_Some [OF Some parses]
    obtain pc pb where pc: "version_tuple current = Some pc" and pb: "version_tuple (rl_version b) = Some pb"
        "tuple_less pc pb" using newer_tuples b(2) by fastforce
    have blocked: "find_blocked rs current = Inr None \<longleftrightarrow> block_reason rs current (rl_version b) = Inr None"
      using Some pc pb(1) by (auto simp: find_blocked_def block_reason_def oldest_def split: list.splits)
    have "block_reason rs current (rl_version r) = Inr None"
      if free: "block_reason rs current (rl_version b) = Inr None" and r: "r \<in> set rs" "?auto r" for r
    proof -
      obtain pr where pr: "version_tuple (rl_version r) = Some pr" "tuple_less pc pr" using newer_tuples r(2) pc by fastforce
      have le: "\<not> newer (rl_version r) (rl_version b)" using b(3) r by blast
      then have "\<not> tuple_less pb pr" using pb(1) pr(1) by (simp add: newer_def)
      have nonempty: "pc \<noteq> []" "pb \<noteq> []" "pr \<noteq> []" using version_tuple_nonempty pc pb(1) pr(1) by blast+
      have "hd pc \<le> hd pr" using tuple_less_hd [OF pr(2)] nonempty by simp
      moreover have "hd pr \<le> hd pb"
      proof -
        let ?n = "max (length pb) (length pr)"
        have "zero_pad ?n pr \<le> zero_pad ?n pb"
          using \<open>\<not> tuple_less pb pr\<close> by (simp add: tuple_less_def Let_def not_less)
        then consider "zero_pad ?n pr < zero_pad ?n pb" | "zero_pad ?n pr = zero_pad ?n pb" by fastforce
        then show ?thesis
        proof cases
          case 1
          have "zero_pad ?n pr \<noteq> []" "zero_pad ?n pb \<noteq> []" using nonempty by (simp_all add: zero_pad_def)
          then show ?thesis using list_less_hd [OF 1] nonempty by (simp add: hd_zero_pad)
        next
          case 2
          then show ?thesis using nonempty hd_zero_pad by (metis order_refl)
        qed
      qed
      moreover have "hd pb = hd pc" using block_reason_None(1) [OF free] pc pb(1) by auto
      ultimately have major: "hd pr = hd pc" by simp
      have "newer (rl_version x) (rl_version r)" if x: "x \<in> set rs" "rl_breaking x" "newer (rl_version x) current" for x
      proof -
        have "newer (rl_version x) (rl_version b)"
          using block_reason_None(2) [OF free] x by (auto simp: breaking_on_path_def filter_empty_conv)
        then show ?thesis using newer_order(3) [of "rl_version x" "rl_version b" "rl_version r"] pr(1) le by simp
      qed
      then have "breaking_on_path rs current (rl_version r) = []" by (auto simp: breaking_on_path_def filter_empty_conv)
      then show ?thesis using pc pr(1) major by (simp add: block_reason_def oldest_def)
    qed
    then show ?thesis using blocked b(1,2) by (auto simp: may_install_def)
  qed
qed

theorem find_blocked_exact_witness:
  "find_blocked example_releases ''0.10.3'' \<noteq> Inr None
   \<and> may_install example_releases ''0.12.0'' Mode_Breakfix (example_releases ! 2)"
proof -
  have "version_tuple ''0.12.0'' \<noteq> None" "find_blocked example_releases ''0.12.0'' = Inr None"
    "find_blocked example_releases ''0.10.3'' \<noteq> Inr None"
    "rl_class (example_releases ! 2) \<in> set auto_classes \<and> newer (rl_version (example_releases ! 2)) ''0.12.0''"
    "example_releases ! 2 \<in> set example_releases" by (code_simp, code_simp, code_simp, code_simp, simp add: example_releases_def)
  then show ?thesis using find_blocked_exact [of "''0.12.0''" example_releases] by simp
qed

end
