(* ===== verification/Discovery_Laws.thy ===== *)
theory Discovery_Laws
  imports Release_Selection_Laws
begin

text \<open>
  The two sources of a discovery agree, the service's holds are honoured without
  offering less, and what the box is told to install is never withheld.
\<close>

section \<open>The two implementations\<close>

lemma twin_functions:
  "parse_version = version_tuple" "version_gt = newer" "catalog_newest = newest"
  "catalog_block_reason = block_reason" "catalog_find_blocked = find_blocked"
proof -
  show parse: "parse_version = version_tuple" by (rule ext) (simp add: parse_version_def version_tuple_def)
  show gt: "version_gt = newer"
    by (rule ext)+ (auto simp: version_gt_def newer_def parse tuple_less_def Let_def max.commute split: option.split)
  show new: "catalog_newest = newest"
    unfolding catalog_newest_def [abs_def] newest_def [abs_def] pick_newer_def [abs_def] gt ..
  show why: "catalog_block_reason = block_reason"
    by (rule ext)+ (auto simp: catalog_block_reason_def block_reason_def oldest_def breaking_on_path_def parse gt
        split: option.split list.split)
  show "catalog_find_blocked = find_blocked"
    unfolding catalog_find_blocked_def [abs_def] find_blocked_def [abs_def] new gt why by (simp add: auto_classes_def)
qed

text \<open>Every version of a loaded catalogue parses.\<close>

lemma int_digits_digits: "w \<noteq> [] \<Longrightarrow> list_all is_digit w \<Longrightarrow> int_digits w = Some w"
proof (induction w)
  case (Cons c cs)
  then show ?case by (cases cs) (auto simp: is_digit_def code_def)
qed simp

lemma digit_not_space: "is_digit c \<Longrightarrow> \<not> py_isspace c"
  by (auto simp: is_digit_def py_isspace_def)

lemma py_strip_digits: "list_all is_digit w \<Longrightarrow> py_strip w = w"
proof -
  have id: "dropWhile py_isspace u = u" if "list_all is_digit u" for u
    using that digit_not_space by (cases u) auto
  then show "list_all is_digit w \<Longrightarrow> py_strip w = w" by (simp add: py_strip_def id)
qed

lemma py_int_digits:
  assumes "w \<noteq> []" "list_all is_digit w" "length w \<le> 4300"
  shows "py_int w \<noteq> None"
proof (cases w)
  case (Cons c cs)
  have "c \<noteq> CHR ''-''" "c \<noteq> CHR ''+''" using assms(2) by (auto simp: Cons is_digit_def code_def)
  then show ?thesis using assms int_digits_digits [OF assms(1,2)]
    by (simp add: py_int_def py_strip_digits Let_def Cons)
qed (use assms in simp)

lemma all_some_total: "\<forall>x\<in>set xs. x \<noteq> None \<Longrightarrow> all_some xs \<noteq> None"
  by (induction xs rule: all_some.induct) auto

lemma set_split_on: "set s \<subseteq> insert c (\<Union> (set ` set (split_on c s)))"
proof (induction s)
  case (Cons d s)
  show ?case
  proof (cases "split_on c s")
    case Nil
    then show ?thesis using Cons.IH by (simp, blast)
  next
    case (Cons w ws)
    then show ?thesis using Cons.IH by (simp, blast)
  qed
qed simp

lemma catalog_version:
  assumes "catalog_version_re v"
  shows "version_tuple v \<noteq> None" "version_re v"
proof -
  obtain a b c where parts: "split_on (CHR ''.'') v = [a, b, c]"
    and digits: "list_all (\<lambda>w. w \<noteq> [] \<and> length w \<le> 5 \<and> list_all is_digit w) [a, b, c]"
    using assms by (auto simp: catalog_version_re_def split: list.splits)
  have "py_int w \<noteq> None" if "w \<in> {a, b, c}" for w
    using that digits by (intro py_int_digits) (auto simp: list_all_iff)
  then show "version_tuple v \<noteq> None" unfolding version_tuple_def parts by (intro all_some_total) simp
  have "is_digit x \<or> x = CHR ''.''" if "x \<in> set v" for x
    using that set_split_on [of v "CHR ''.''"] digits unfolding parts list_all_iff by auto
  then have "CHR 0x0A \<notin> set v" by (fastforce simp: is_digit_def code_def)
  then have "\<not> (v \<noteq> [] \<and> last v = CHR 0x0A)" using last_in_set by metis
  then show "version_re v" using digits by (auto simp: version_re_def parts)
qed

lemma validated_versions: "validate_entries i seen es = Inr rs \<Longrightarrow> r \<in> set rs \<Longrightarrow> catalog_version_re (rl_version r)"
proof (induction es arbitrary: i seen rs)
  case (Cons e es)
  then obtain x xs where x: "validate_entry i e = Inr x" and rs: "rs = x # xs"
    "validate_entries (Suc i) (rl_version x # seen) es = Inr xs"
    by (auto simp: rbind_eq_Inr split: if_splits)
  have "catalog_version_re (rl_version x)"
    using x by (auto simp: validate_entry_def entry_release_def split: pyval.splits option.splits if_splits)
  then show ?case using Cons.IH [OF rs(2)] Cons.prems(2) rs(1) by auto
qed simp

lemma loaded_versions:
  assumes "load_releases data = Inr rs" "r \<in> set rs"
  shows "catalog_version_re (rl_version r)"
  using assms validated_versions by (auto simp: load_releases_def split: pyval.splits option.splits if_splits)

lemma newest_cong: "(\<And>r. r \<in> set rs \<Longrightarrow> f r = g r) \<Longrightarrow> newest rs f = newest rs g"
proof -
  have "foldl (pick_newer f) best rs = foldl (pick_newer g) best rs" if "\<And>r. r \<in> set rs \<Longrightarrow> f r = g r" for best
    using that by (induction rs arbitrary: best) (simp_all add: pick_newer_def)
  then show "(\<And>r. r \<in> set rs \<Longrightarrow> f r = g r) \<Longrightarrow> newest rs f = newest rs g" by (simp add: newest_def)
qed

text \<open>The newest of all releases, if it is newer than the caller, is the newest of the newer ones.\<close>

lemma newest_newer:
  assumes "\<And>r. r \<in> set rs \<Longrightarrow> version_tuple (rl_version r) \<noteq> None"
  shows "newest rs (\<lambda>r. newer (rl_version r) v)
    = (case newest rs (\<lambda>_. True) of Some l \<Rightarrow> if newer (rl_version l) v then Some l else None | None \<Rightarrow> None)"
proof -
  let ?cut = "\<lambda>best. case best of Some l \<Rightarrow> if newer (rl_version l) v then Some l else None | None \<Rightarrow> None"
  have "foldl (pick_newer (\<lambda>r. newer (rl_version r) v)) (?cut best) rs = ?cut (foldl (pick_newer (\<lambda>_. True)) best rs)"
    if "\<forall>x. best = Some x \<longrightarrow> version_tuple (rl_version x) \<noteq> None" for best
    using assms that
  proof (induction rs arbitrary: best)
    case (Cons r rs)
    have "pick_newer (\<lambda>r. newer (rl_version r) v) (?cut best) r = ?cut (pick_newer (\<lambda>_. True) best r)"
    proof (cases best)
      case (Some x)
      show ?thesis
      proof (cases "newer (rl_version r) v")
        case True
        then have "newer (rl_version r) (rl_version x)" if "\<not> newer (rl_version x) v"
          using that newer_order(3) [of "rl_version r" v "rl_version x"] Cons.prems(2) Some by blast
        then show ?thesis using True by (simp add: pick_newer_def Some)
      next
        case False
        then have "\<not> newer (rl_version r) (rl_version x)" if "newer (rl_version x) v"
          using that newer_order(2) by blast
        then show ?thesis using False by (simp add: pick_newer_def Some)
      qed
    qed (auto simp: pick_newer_def)
    moreover have "\<forall>x. pick_newer (\<lambda>_. True) best r = Some x \<longrightarrow> version_tuple (rl_version x) \<noteq> None"
      using Cons.prems by (auto simp: pick_newer_def)
    ultimately show ?case using Cons.IH [of "pick_newer (\<lambda>_. True) best r"] Cons.prems(1) by simp
  qed simp
  from this [of None] show ?thesis by (simp add: newest_def)
qed

lemma offers_select:
  assumes "load_releases data = Inr rs"
  shows "map_option offer_of (os_security (select_offers rs v)) = select rs v Mode_Security"
    "map_option offer_of (os_breakfix (select_offers rs v)) = select rs v Mode_Breakfix"
    "map_option offer_of (os_latest (select_offers rs v)) = select rs v Mode_Latest"
proof -
  have sets: "set (mode_classes Mode_Latest) = UNIV" using release_class.exhaust by auto
  show "map_option offer_of (os_security (select_offers rs v)) = select rs v Mode_Security"
    "map_option offer_of (os_breakfix (select_offers rs v)) = select rs v Mode_Breakfix"
    by (simp_all add: select_def select_offers_def twin_functions may_install_def [abs_def] reachable_def
        auto_classes_def conj_ac)
  have "newest rs (\<lambda>r. newer (rl_version r) v) = os_latest (select_offers rs v)"
    unfolding select_offers_def twin_functions
    using newest_newer loaded_versions [OF assms] catalog_version(1) by simp
  then show "map_option offer_of (os_latest (select_offers rs v)) = select rs v Mode_Latest"
    unfolding select_def may_install_def [abs_def] sets by simp
qed

section \<open>The answer is read back\<close>

lemma class_named_text [simp]: "class_named (PStr (class_text c)) = Some c"
  by (cases c) simp_all

declare class_named.simps [simp del]

lemma offer_members_get [simp]:
  "dget (offer_members f @ more') ''version'' = Some (PStr (of_version f))"
  "dget (offer_members f @ more') ''url'' = Some (PStr (of_url f))"
  "dget (offer_members f @ more') ''class'' = Some (PStr (class_text (of_class f)))"
  "dget (offer_members f @ more') ''reason'' = dget more' ''reason''"
  by (simp_all add: offer_members_def dget_def)

lemmas offer_members_get' [simp] = offer_members_get [where more' = "[]", simplified]

lemma candidate_read:
  assumes "\<forall>x. r = Some x \<longrightarrow> rl_class x \<in> set (mode_classes mode)"
  shows "endpoint_candidate (offer_doc r) mode = Inr (map_option offer_of r)"
proof (cases r)
  case (Some x)
  then have "class_in (mode_classes mode) (PStr (class_text (of_class (offer_of x)))) = Inr (of_class (offer_of x))"
    using assms by (simp add: class_in_def offer_of_def)
  then show ?thesis by (simp add: Some offer_doc_def endpoint_candidate_def dget_or_def)
qed (simp add: offer_doc_def endpoint_candidate_def)

definition reason_ok :: "reason \<Rightarrow> bool" where
  "reason_ok why = (case why of Major n \<Rightarrow> True | Breaking_Release v \<Rightarrow> version_re v)"

lemma reason_read: "reason_ok why \<Longrightarrow> endpoint_reason (reason_doc why) = Inr why"
  by (cases why) (simp_all add: endpoint_reason_def reason_ok_def dget_def)

lemma blocked_read:
  assumes "\<forall>x. b = Some x \<longrightarrow> version_re (of_version (bl_offer x)) \<and> of_class (bl_offer x) \<in> set auto_classes
      \<and> reason_ok (bl_reason x)"
  shows "endpoint_blocked (blocked_doc b) = Inr b"
proof (cases b)
  case (Some x)
  then have "class_in auto_classes (PStr (class_text (of_class (bl_offer x)))) = Inr (of_class (bl_offer x))"
    "endpoint_reason (reason_doc (bl_reason x)) = Inr (bl_reason x)"
    using assms reason_read by (simp_all add: class_in_def)
  then show ?thesis using assms
    by (simp add: Some blocked_doc_def endpoint_blocked_def dget_or_def) (simp add: dget_def)
qed (simp add: blocked_doc_def endpoint_blocked_def)

lemma response_get:
  assumes "check_response f held b = PDict d"
  shows "dget d ''security'' = Some (offer_doc (os_security f))" "dget d ''breakfix'' = Some (offer_doc (os_breakfix f))"
    "dget d ''latest'' = Some (offer_doc (os_latest f))" "dget d ''blocked'' = Some (blocked_doc b)"
  using assms by (auto simp: check_response_def dget_def)

lemma response_read:
  assumes "endpoint_candidate (offer_doc (case mode of Mode_Security \<Rightarrow> os_security f | Mode_Breakfix \<Rightarrow> os_breakfix f
      | Mode_Latest \<Rightarrow> os_latest f)) mode = Inr c" "endpoint_blocked (blocked_doc b) = Inr b"
  shows "read_endpoint (check_response f held b) mode = Inr (c, b)"
proof -
  obtain d where d: "check_response f held b = PDict d" by (simp add: check_response_def)
  show ?thesis using assms unfolding read_endpoint_def d
    by (cases mode) (simp_all add: dhas_def dget_or_def response_get [OF d])
qed

lemma first_min_in: "first_min key x xs \<in> set (x # xs)"
  unfolding first_min_def by (induction xs arbitrary: x) auto

lemma found_blocked:
  assumes "find_blocked rs v = Inr (Some x)" "\<And>r. r \<in> set rs \<Longrightarrow> version_re (rl_version r)"
  shows "version_re (of_version (bl_offer x)) \<and> of_class (bl_offer x) \<in> set auto_classes \<and> reason_ok (bl_reason x)"
proof -
  let ?auto = "\<lambda>r. rl_class r \<in> set auto_classes \<and> newer (rl_version r) v"
  obtain r why where r: "newest rs ?auto = Some r" and why: "block_reason rs v (rl_version r) = Inr (Some why)"
    and x: "x = \<lparr> bl_offer = offer_of r, bl_reason = why \<rparr>"
    using assms(1) by (auto simp: find_blocked_def rbind_eq_Inr split: option.splits)
  have "version_tuple (rl_version r) \<noteq> None" if "?auto r" for r using that newer_tuples by auto
  then have in_rs: "r \<in> set rs" "?auto r" using newest_Some [OF r] by blast+
  have "reason_ok why"
  proof (cases why)
    case (Breaking_Release w)
    then obtain y ys where ys: "breaking_on_path rs v (rl_version r) = y # ys"
      "w = rl_version (first_min (\<lambda>x. the (version_tuple (rl_version x))) y ys)"
      using why by (auto simp: block_reason_def oldest_def split: option.splits if_splits list.splits)
    have "first_min (\<lambda>x. the (version_tuple (rl_version x))) y ys \<in> set (breaking_on_path rs v (rl_version r))"
      unfolding ys(1) by (rule first_min_in)
    then show ?thesis using assms(2) ys(2) Breaking_Release by (simp add: reason_ok_def breaking_on_path_def)
  qed (simp add: reason_ok_def)
  then show ?thesis using x in_rs assms(2) by (simp add: offer_of_def)
qed

lemma find_blocked_total: "\<exists>b. find_blocked rs v = Inr b"
proof (cases "newest rs (\<lambda>r. rl_class r \<in> set auto_classes \<and> newer (rl_version r) v)")
  case (Some r)
  have "version_tuple (rl_version x) \<noteq> None" if "rl_class x \<in> set auto_classes \<and> newer (rl_version x) v" for x
    using that newer_tuples by auto
  then have "newer (rl_version r) v" using newest_Some(2) [OF Some] by blast
  then show ?thesis using newer_tuples Some
    by (auto simp: find_blocked_def block_reason_def dest!: newer_tuples split: option.split)
qed (simp add: find_blocked_def)

section \<open>The two sources agree\<close>

text \<open>C24. The version-check service and the GitHub fallback agree: for a catalogue the service accepts and
  no hold, the box reads out of the service's answer exactly the candidate and the blocked
  release its own selection finds in the same releases, in every mode, so the two paths of a
  discovery decide alike.\<close>

theorem sources_agree:
  assumes "load_releases data = Inr rs" "parse_github_releases raw = Inr rs"
  shows "\<exists>answer b. check_route rs (\<lambda>_. False) (parse_version_string installed) = Inr answer
    \<and> find_blocked rs (parse_version_string installed) = Inr b
    \<and> (let v = parse_version_string installed; c = select rs v mode in
       discover_update (Fetched answer) other blocklist installed mode
         = Inr (decide_upgrade blocklist c \<lparr> dm_current = v, dm_blocked = b, dm_source = Endpoint \<rparr>)
       \<and> discover_update Unavailable (Fetched (PList raw)) blocklist installed mode
         = Inr (decide_upgrade blocklist c \<lparr> dm_current = v, dm_blocked = b, dm_source = Github Not_Reached \<rparr>))"
proof -
  let ?v = "parse_version_string installed"
  let ?f = "select_offers rs ?v"
  obtain b where b: "find_blocked rs ?v = Inr b" using find_blocked_total by blast
  have holds: "apply_holds ?f (\<lambda>_. False) = (?f, [])" by (simp add: apply_holds_def split: option.split)
  have route: "check_route rs (\<lambda>_. False) ?v = Inr (check_response ?f [] b)"
    by (simp add: check_route_def holds twin_functions b)
  have versions: "version_re (rl_version r)" if "r \<in> set rs" for r
    using catalog_version(2) [OF loaded_versions [OF assms(1) that]] .
  have blocked: "endpoint_blocked (blocked_doc b) = Inr b"
    using found_blocked b versions by (intro blocked_read) blast
  have offered: "\<forall>x. os_security ?f = Some x \<longrightarrow> rl_class x \<in> set (mode_classes Mode_Security)"
    "\<forall>x. os_breakfix ?f = Some x \<longrightarrow> rl_class x \<in> set (mode_classes Mode_Breakfix)"
  proof -
    have parses: "version_tuple (rl_version x) \<noteq> None" if "reachable rs ?v x" for x
      using that newer_tuples by (auto simp: reachable_def twin_functions)
    have "rl_class x = Security" if "newest rs (\<lambda>r. rl_class r = Security \<and> reachable rs ?v r) = Some x" for x
      using newest_Some(2) [OF that] parses by blast
    moreover have "rl_class x \<in> {Breakfix, Security}"
      if "newest rs (\<lambda>r. rl_class r \<in> {Breakfix, Security} \<and> reachable rs ?v r) = Some x" for x
      using newest_Some(2) [OF that] parses by blast
    ultimately show "\<forall>x. os_security ?f = Some x \<longrightarrow> rl_class x \<in> set (mode_classes Mode_Security)"
      "\<forall>x. os_breakfix ?f = Some x \<longrightarrow> rl_class x \<in> set (mode_classes Mode_Breakfix)"
      by (simp_all add: select_offers_def twin_functions auto_classes_def)
  qed
  have latest: "\<forall>x. os_latest ?f = Some x \<longrightarrow> rl_class x \<in> set (mode_classes Mode_Latest)"
    using release_class.exhaust by auto
  have "read_endpoint (check_response ?f [] b) mode = Inr (select rs ?v mode, b)"
  proof (rule response_read [OF _ blocked])
    show "endpoint_candidate (offer_doc (case mode of Mode_Security \<Rightarrow> os_security ?f | Mode_Breakfix \<Rightarrow> os_breakfix ?f
        | Mode_Latest \<Rightarrow> os_latest ?f)) mode = Inr (select rs ?v mode)"
      using candidate_read [OF offered(1)] candidate_read [OF offered(2)] candidate_read [OF latest]
      by (cases mode) (simp_all only: update_mode.case offers_select [OF assms(1)])
  qed
  then have "discover_update (Fetched (check_response ?f [] b)) other blocklist installed mode
      = Inr (decide_upgrade blocklist (select rs ?v mode) \<lparr> dm_current = ?v, dm_blocked = b, dm_source = Endpoint \<rparr>)"
    by (simp add: discover_update_def from_endpoint_def Let_def)
  moreover have "discover_update Unavailable (Fetched (PList raw)) blocklist installed mode
      = Inr (decide_upgrade blocklist (select rs ?v mode) \<lparr> dm_current = ?v, dm_blocked = b, dm_source = Github Not_Reached \<rparr>)"
    using assms(2) b by (simp add: discover_update_def from_endpoint_def check_github_def Let_def)
  ultimately show ?thesis using route b by (auto simp: Let_def)
qed

definition example_entry :: "string \<Rightarrow> string \<Rightarrow> bool \<Rightarrow> pyval" where
  "example_entry v c b = PDict [(PStr ''version'', PStr v), (PStr ''class'', PStr c), (PStr ''breaking'', PBool b),
     (PStr ''url'', PStr (release_url_prefix @ v))]"

definition example_tag :: "string \<Rightarrow> string \<Rightarrow> pyval" where
  "example_tag v title = PDict [(PStr ''tag_name'', PStr (''v'' @ v)), (PStr ''html_url'', PStr (release_url_prefix @ v)),
     (PStr ''name'', PStr title)]"

definition example_catalog :: pyval where
  "example_catalog = PDict [(PStr ''releases'', PList [example_entry ''0.11.2'' ''security'' False, example_entry ''0.12.0'' ''feature'' True])]"

definition example_tags :: "pyval list" where
  "example_tags = [example_tag ''0.11.2'' ''[security]'', example_tag ''0.12.0'' ''[Breaking]'']"

definition example_listed :: "release list" where
  "example_listed = [\<lparr> rl_version = ''0.11.2'', rl_url = release_url_prefix @ ''0.11.2'', rl_class = Security, rl_breaking = False \<rparr>,
     \<lparr> rl_version = ''0.12.0'', rl_url = release_url_prefix @ ''0.12.0'', rl_class = Feature, rl_breaking = True \<rparr>]"

lemma example_loaded: "load_releases example_catalog = Inr example_listed" "parse_github_releases example_tags = Inr example_listed"
  by code_simp+

theorem sources_agree_witness:
  "\<exists>answer b. check_route example_listed (\<lambda>_. False) ''0.10.3'' = Inr answer
     \<and> discover_update (Fetched answer) Unavailable Absent ''0.10.3+abc'' Mode_Security
       = Inr (Upgrade \<lparr> of_version = ''0.11.2'', of_url = release_url_prefix @ ''0.11.2'', of_class = Security \<rparr>
           \<lparr> dm_current = ''0.10.3'', dm_blocked = b, dm_source = Endpoint \<rparr>)"
proof -
  have v: "parse_version_string ''0.10.3+abc'' = ''0.10.3''" by code_simp
  have "decide_upgrade Absent (select example_listed ''0.10.3'' Mode_Security) m
      = Upgrade \<lparr> of_version = ''0.11.2'', of_url = release_url_prefix @ ''0.11.2'', of_class = Security \<rparr> m"
    if "dm_current m = ''0.10.3''" for m
  proof -
    have "select example_listed ''0.10.3'' Mode_Security
        = Some \<lparr> of_version = ''0.11.2'', of_url = release_url_prefix @ ''0.11.2'', of_class = Security \<rparr>"
      "newer ''0.11.2'' ''0.10.3''" by code_simp+
    then show ?thesis using that by (simp add: decide_upgrade_def is_blocklisted_def read_state_json_def dhas_def dget_def)
  qed
  then show ?thesis
    using sources_agree [OF example_loaded, of "''0.10.3+abc''" Mode_Security Unavailable Absent] unfolding v Let_def by auto
qed

section \<open>Holds\<close>

text \<open>The service's circuit breaker never makes a box worse off: after the holds no withheld version is
  offered to automatic updates, and a box that accepts break-fixes is never offered less than a
  security-only box, whatever is held.\<close>

theorem holds_never_offer_less:
  assumes "apply_holds (select_offers rs v) is_held = (f, held)"
  shows "(\<forall>r. os_security f = Some r \<or> os_breakfix f = Some r \<longrightarrow> \<not> is_held (rl_version r))
    \<and> (\<forall>s. os_security f = Some s \<longrightarrow> (\<exists>b. os_breakfix f = Some b \<and> \<not> newer (rl_version s) (rl_version b)))"
proof -
  let ?sec = "\<lambda>r. rl_class r = Security \<and> reachable rs v r"
  let ?fix = "\<lambda>r. rl_class r \<in> {Breakfix, Security} \<and> reachable rs v r"
  have parses: "version_tuple (rl_version x) \<noteq> None" if "reachable rs v x" for x
    using that newer_tuples by (auto simp: reachable_def twin_functions)
  have better: "\<exists>b. newest rs ?fix = Some b \<and> \<not> newer (rl_version s) (rl_version b)" if s: "newest rs ?sec = Some s" for s
  proof -
    have "s \<in> set rs" "?sec s" using newest_Some [OF s] parses by blast+
    then have "newest rs ?fix \<noteq> None" using newest_None [of rs ?fix] by auto
    then obtain b where b: "newest rs ?fix = Some b" by auto
    moreover have "\<not> newer (rl_version s) (rl_version b)"
      using newest_Some(3) [OF b] parses \<open>s \<in> set rs\<close> \<open>?sec s\<close> by blast
    ultimately show ?thesis by blast
  qed
  have sec: "os_security (select_offers rs v) = newest rs ?sec" "os_breakfix (select_offers rs v) = newest rs ?fix"
    by (simp_all add: select_offers_def twin_functions)
  show ?thesis
  proof (cases "newest rs ?sec")
    case None
    then show ?thesis using assms by (auto simp: apply_holds_def sec Let_def split: option.splits if_splits)
  next
    case (Some s)
    then obtain b where "newest rs ?fix = Some b" "\<not> newer (rl_version s) (rl_version b)" using better by blast
    then show ?thesis using assms Some newer_order(1)
      by (auto simp: apply_holds_def sec Let_def split: if_splits)
  qed
qed

theorem holds_never_offer_less_witness:
  "(case apply_holds (select_offers example_listed ''0.10.3'') (\<lambda>w. w = ''0.11.2'') of (f, held) \<Rightarrow>
     held = [''0.11.2''] \<and> os_security f \<noteq> Some (hd example_listed) \<and> os_breakfix f \<noteq> Some (hd example_listed))"
proof -
  obtain f held where f: "apply_holds (select_offers example_listed ''0.10.3'') (\<lambda>w. w = ''0.11.2'') = (f, held)" by fastforce
  have "snd (apply_holds (select_offers example_listed ''0.10.3'') (\<lambda>w. w = ''0.11.2'')) = [''0.11.2'']" by code_simp
  moreover have "rl_version (hd example_listed) = ''0.11.2''" by (simp add: example_listed_def)
  ultimately show ?thesis using f holds_never_offer_less [OF f] by auto
qed

section \<open>What is installed\<close>

lemma decided_upgrade:
  assumes "decide_upgrade blocklist c m' = Upgrade f m"
  shows "c = Some f" "m' = m" "newer (of_version f) (dm_current m)" "is_blocklisted blocklist (of_version f) = Inr False"
  using assms by (auto simp: decide_upgrade_def split: option.splits if_splits sum.splits bool.splits)

lemma discovered_upgrade:
  assumes "discover_update endpoint github blocklist installed mode = Inr (Upgrade f m)"
  shows "\<exists>b from. m = \<lparr> dm_current = parse_version_string installed, dm_blocked = b, dm_source = from \<rparr>
    \<and> newer (of_version f) (dm_current m) \<and> is_blocklisted blocklist (of_version f) = Inr False
    \<and> (\<forall>e. from = Github e \<longrightarrow> check_github github (parse_version_string installed) mode = Inr (Inr (Some f, b)))"
proof -
  let ?v = "parse_version_string installed"
  obtain first where first: "from_endpoint endpoint mode = Inr first"
    using assms by (auto simp: discover_update_def Let_def rbind_eq_Inr)
  show ?thesis
  proof (cases first)
    case (Inr p)
    obtain c b where p: "p = (c, b)" by fastforce
    then have "decide_upgrade blocklist c \<lparr> dm_current = ?v, dm_blocked = b, dm_source = Endpoint \<rparr> = Upgrade f m"
      using assms first Inr by (simp add: discover_update_def Let_def)
    from decided_upgrade [OF this] show ?thesis by blast
  next
    case (Inl e)
    obtain second where second: "check_github github ?v mode = Inr second"
      using assms first Inl by (auto simp: discover_update_def Let_def rbind_eq_Inr)
    then obtain c b where s: "second = Inr (c, b)"
      using assms first Inl by (cases second) (auto simp: discover_update_def Let_def)
    then have "decide_upgrade blocklist c \<lparr> dm_current = ?v, dm_blocked = b, dm_source = Github e \<rparr> = Upgrade f m"
      using assms first Inl second by (simp add: discover_update_def Let_def)
    from decided_upgrade [OF this] show ?thesis using second s by blast
  qed
qed

text \<open>C25. A discovery tells the box to install a version only if it is newer than the box and a readable
  blocklist does not name it; and if the list came from GitHub in an automatic mode, it is of
  the box's major version with no breaking release on the way.\<close>

theorem upgrade_is_allowed:
  assumes "discover_update endpoint github blocklist installed mode = Inr (Upgrade f m)"
  shows "dm_current m = parse_version_string installed \<and> newer (of_version f) (dm_current m)
    \<and> is_blocklisted blocklist (of_version f) = Inr False
    \<and> (\<forall>e. dm_source m = Github e \<and> mode \<noteq> Mode_Latest \<longrightarrow>
         (\<exists>raw rs. github = Fetched (PList raw) \<and> parse_github_releases raw = Inr rs
            \<and> of_class f \<in> set (mode_classes mode) \<and> same_major (of_version f) (dm_current m)
            \<and> (\<forall>b\<in>set rs. rl_breaking b \<and> newer (rl_version b) (dm_current m) \<longrightarrow> newer (rl_version b) (of_version f))))"
proof -
  let ?v = "parse_version_string installed"
  obtain b from' where m: "m = \<lparr> dm_current = ?v, dm_blocked = b, dm_source = from' \<rparr>"
    and ok: "newer (of_version f) (dm_current m)" "is_blocklisted blocklist (of_version f) = Inr False"
    and fallback: "\<forall>e. from' = Github e \<longrightarrow> check_github github ?v mode = Inr (Inr (Some f, b))"
    using discovered_upgrade [OF assms] by blast
  have "\<exists>raw rs. github = Fetched (PList raw) \<and> parse_github_releases raw = Inr rs
      \<and> of_class f \<in> set (mode_classes mode) \<and> same_major (of_version f) ?v
      \<and> (\<forall>b\<in>set rs. rl_breaking b \<and> newer (rl_version b) ?v \<longrightarrow> newer (rl_version b) (of_version f))"
    if e: "from' = Github e" and auto_mode: "mode \<noteq> Mode_Latest" for e
  proof -
    obtain raw rs where raw: "github = Fetched (PList raw)" "parse_github_releases raw = Inr rs" "select rs ?v mode = Some f"
      using fallback e by (auto simp: check_github_def rbind_eq_Inr split: fetched.splits pyval.splits)
    have parses: "version_tuple (rl_version x) \<noteq> None" if "may_install rs ?v mode x" for x
      using that newer_tuples by (auto simp: may_install_def)
    obtain r where r: "newest rs (may_install rs ?v mode) = Some r" "f = offer_of r" using raw(3) by (auto simp: select_def)
    have may: "may_install rs ?v mode r" using newest_Some(2) [OF r(1) parses] .
    then have free: "block_reason rs ?v (rl_version r) = Inr None" using auto_mode by (simp add: may_install_def)
    have "of_class f \<in> set (mode_classes mode) \<and> same_major (of_version f) ?v
        \<and> (\<forall>b\<in>set rs. rl_breaking b \<and> newer (rl_version b) ?v \<longrightarrow> newer (rl_version b) (of_version f))"
      using may r(2) block_reason_None [OF free]
      by (auto simp: may_install_def offer_of_def same_major_def breaking_on_path_def filter_empty_conv)
    then show ?thesis using raw(1,2) by blast
  qed
  then show ?thesis using m ok by simp
qed

theorem upgrade_is_allowed_witness:
  "\<exists>f m. discover_update Unavailable (Fetched (PList example_tags)) (Doc (PDict [(PStr ''0.11.1'', PNone)])) ''0.10.3'' Mode_Breakfix
     = Inr (Upgrade f m) \<and> same_major (of_version f) ''0.10.3''"
proof -
  let ?d = "discover_update Unavailable (Fetched (PList example_tags)) (Doc (PDict [(PStr ''0.11.1'', PNone)])) ''0.10.3'' Mode_Breakfix"
  have v: "parse_version_string ''0.10.3'' = ''0.10.3''" by code_simp
  have sel: "select example_listed ''0.10.3'' Mode_Breakfix
      = Some \<lparr> of_version = ''0.11.2'', of_url = release_url_prefix @ ''0.11.2'', of_class = Security \<rparr>"
    "newer ''0.11.2'' ''0.10.3''" by code_simp+
  obtain w where w: "find_blocked example_listed ''0.10.3'' = Inr w" using find_blocked_total by blast
  obtain f m where d: "?d = Inr (Upgrade f m)" "dm_source m = Github Not_Reached"
    using w by (simp add: discover_update_def from_endpoint_def check_github_def example_loaded(2) v Let_def
        decide_upgrade_def sel is_blocklisted_def read_state_json_def dhas_def dget_def)
  show ?thesis using upgrade_is_allowed [OF d(1)] d unfolding v by auto
qed

text \<open>C26. A version that failed is never tried again: once it is on the blocklist, and whatever other
  versions are added after it, no discovery offers it for installation, not even when the
  blocklist can no longer be read.\<close>

theorem failed_version_stays_blocked:
  assumes "add_to_blocklist True file v why now = Inr file1" "rfold (\<lambda>f (w, y, t). add_to_blocklist True f w y t) file1 others = Inr file2"
    and "blocklist \<in> {file2, Unreadable, Unparseable}"
  shows "discover_update endpoint github blocklist installed mode \<noteq> Inr (Upgrade f m) \<or> of_version f \<noteq> v"
proof -
  have added: "is_blocklisted f2 v = Inr True"
    if add: "add_to_blocklist True f1 w y t = Inr f2" and before: "w = v \<or> is_blocklisted f1 v = Inr True" for f1 f2 w y t
  proof -
    obtain d where d: "read_state_json f1 = Inr d" using add
      by (cases "read_state_json f1") (auto simp: add_to_blocklist_def)
    then have "f2 = Doc (PDict (dset d (PStr w) (PDict [(PStr ''reason'', PStr y), (PStr ''failed_at'', PStr (datetime_iso t))])))"
      using add by (auto simp: add_to_blocklist_def write_state_json_def)
    then show ?thesis using before d
      by (auto simp: is_blocklisted_def read_state_json_def dhas_def dget_def)
  qed
  have "is_blocklisted file2 v = Inr True"
  proof (rule rfold_invariant [OF assms(2), where P = "\<lambda>f. is_blocklisted f v = Inr True"])
    show "is_blocklisted file1 v = Inr True" using added [OF assms(1)] by simp
  qed (use added in auto)
  then have "is_blocklisted blocklist v \<noteq> Inr False"
    using assms(3) by (auto simp: is_blocklisted_def read_state_json_def)
  moreover have "is_blocklisted blocklist (of_version f) = Inr False"
    if "discover_update endpoint github blocklist installed mode = Inr (Upgrade f m)"
    using discovered_upgrade [OF that] by blast
  ultimately show ?thesis by auto
qed

theorem failed_version_stays_blocked_witness:
  "let now = \<lparr> dt_date = Date 2026 1 1, dt_hour = 0, dt_minute = 0, dt_second = 0, dt_micro = 0, dt_offset = Some 0 \<rparr> in
   \<exists>file1. add_to_blocklist True Absent ''0.11.2'' ''health'' now = Inr file1
     \<and> \<not> (\<exists>f m. discover_update Unavailable (Fetched (PList example_tags)) file1 ''0.10.3'' Mode_Security = Inr (Upgrade f m)
          \<and> of_version f = ''0.11.2'')"
proof -
  let ?now = "\<lparr> dt_date = Date 2026 1 1, dt_hour = 0, dt_minute = 0, dt_second = 0, dt_micro = 0, dt_offset = Some 0 \<rparr>"
  obtain file1 where a: "add_to_blocklist True Absent ''0.11.2'' ''health'' ?now = Inr file1"
    by (simp add: add_to_blocklist_def read_state_json_def write_state_json_def)
  show ?thesis using failed_version_stays_blocked [OF a, of "[]" file1 file1] a by (auto simp: Let_def)
qed

section \<open>Answers that break the contract\<close>

text \<open>A class that is a list or an object raises TypeError, which is not one of the errors a discovery
  falls back to GitHub on.\<close>

lemma unhashable_class_crashes:
  "discover_update (Fetched (PDict [(PStr ''security'', PDict [(PStr ''version'', PStr ''1.0.0''), (PStr ''url'', PStr ''u''),
       (PStr ''class'', PList [])]), (PStr ''breakfix'', PNone), (PStr ''latest'', PNone), (PStr ''blocked'', PNone)]))
     github Absent ''0.10.3'' Mode_Security = Inl TypeError"
proof -
  have "read_endpoint (PDict [(PStr ''security'', PDict [(PStr ''version'', PStr ''1.0.0''), (PStr ''url'', PStr ''u''),
       (PStr ''class'', PList [])]), (PStr ''breakfix'', PNone), (PStr ''latest'', PNone), (PStr ''blocked'', PNone)]) Mode_Security
       = Inl (Crash TypeError)" by code_simp
  then show ?thesis by (simp add: discover_update_def from_endpoint_def Let_def)
qed

end
