(* ===== verification/Blocked_Update.thy ===== *)
theory Blocked_Update
  imports Upgrade_Discovery Cve_Grace
begin

text \<open>
  \<^verbatim>\<open>src/boxmunge/blocked_update.py\<close>: the alert for a release automatic updates may
  not install, and the file that remembers it.  Whether the alert is delivered and
  whether the file can be written are the environment's choices; log lines are left out.
\<close>

section \<open>The file\<close>

datatype blocked_state_error = State_Unreadable | Wrong_Keys | Not_A_Blocked_Release | Alerted_Keys
  | Alerted_Not_A_Time | Alerted_No_Zone

definition state_keys :: "string list" where
  "state_keys = [''checked_at'', ''current_version'', ''blocked'', ''alerted'']"

record alerted_mark =
  am_version :: pyval
  am_text :: string
  am_at :: datetime

definition keys_are :: "pydict \<Rightarrow> string list \<Rightarrow> bool" where
  "keys_are d ks \<longleftrightarrow> set (map fst d) = PStr ` set ks"

definition check_blocked :: "pyval \<Rightarrow> blocked_state_error + unit" where
  "check_blocked v = (case v of
     PNone \<Rightarrow> Inr ()
   | PDict d \<Rightarrow> if list_all (dhas d) [''version'', ''url'', ''class'', ''reason''] then Inr () else Inl Not_A_Blocked_Release
   | _ \<Rightarrow> Inl Not_A_Blocked_Release)"

definition read_alerted :: "pyval \<Rightarrow> blocked_state_error + alerted_mark option" where
  "read_alerted v = (case v of
     PNone \<Rightarrow> Inr None
   | PDict d \<Rightarrow>
       if \<not> keys_are d [''version'', ''at''] then Inl Alerted_Keys
       else (case dget_or d ''at'' PNone of
         PStr s \<Rightarrow> (case datetime_from_iso s of
             None \<Rightarrow> Inl Alerted_Not_A_Time
           | Some t \<Rightarrow> if dt_offset t = None then Inl Alerted_No_Zone
               else Inr (Some \<lparr> am_version = dget_or d ''version'' PNone, am_text = s, am_at = t \<rparr>))
       | _ \<Rightarrow> Inl Alerted_Not_A_Time)
   | _ \<Rightarrow> Inl Alerted_Keys)"

definition read_blocked_state :: "json_file \<Rightarrow> blocked_state_error + alerted_mark option" where
  "read_blocked_state f = (case f of
     Absent \<Rightarrow> Inr None
   | Doc (PDict d) \<Rightarrow>
       if \<not> keys_are d state_keys then Inl Wrong_Keys
       else rbind (check_blocked (dget_or d ''blocked'' PNone)) (\<lambda>_. read_alerted (dget_or d ''alerted'' PNone))
   | Doc _ \<Rightarrow> Inl Wrong_Keys
   | _ \<Rightarrow> Inl State_Unreadable)"

text \<open>The mark read is written back as its own text.  A state that cannot be read is replaced.\<close>

definition previous_alert :: "json_file \<Rightarrow> alerted_mark option" where
  "previous_alert f = (case read_blocked_state f of Inl _ \<Rightarrow> None | Inr a \<Rightarrow> a)"

section \<open>The text\<close>

fun class_word :: "release_class \<Rightarrow> string" where
  "class_word Security = ''Security''" | "class_word Breakfix = ''Break-fix''" | "class_word Feature = []"

definition describe_reason :: "blocked_release \<Rightarrow> string \<Rightarrow> string" where
  "describe_reason b current = (case bl_reason b of
     Major n \<Rightarrow> ''it is in major version '' @ show_int n @ '' and this box runs '' @ current
       @ ''; automatic updates never cross a major version''
   | Breaking_Release v \<Rightarrow>
       if v = of_version (bl_offer b) then ''it is a breaking release, and this box runs '' @ current
       else v @ '' between this box ('' @ current @ '') and it is a breaking release'')"

text \<open>\<open>CLASS_WORD\<close> has no word for a feature release, which is never blocked.\<close>

definition alert_text :: "blocked_release \<Rightarrow> string \<Rightarrow> py_exc + string \<times> string" where
  "alert_text b current = (if of_class (bl_offer b) = Feature then Inl KeyError
     else let word = class_word (of_class (bl_offer b)); v = of_version (bl_offer b) in
       Inr (word @ '' release '' @ v @ '' needs a manual upgrade'',
            word @ '' release '' @ v @ '' cannot be installed automatically: '' @ describe_reason b current
              @ ''. Read the release notes, then run `upgrade`.'' @ [CHR 0x0A] @ of_url (bl_offer b)))"

section \<open>Recording\<close>

definition remind_after :: int where "remind_after = 24 * 3600 * 1000000"

definition alert_due :: "alerted_mark option \<Rightarrow> string \<Rightarrow> datetime \<Rightarrow> bool" where
  "alert_due a version now = (case a of
     None \<Rightarrow> True
   | Some m \<Rightarrow> am_version m \<noteq> PStr version \<or> instant now - instant (am_at m) \<ge> remind_after)"

definition alerted_doc :: "alerted_mark option \<Rightarrow> pyval" where
  "alerted_doc a = (case a of None \<Rightarrow> PNone
     | Some m \<Rightarrow> PDict [(PStr ''version'', am_version m), (PStr ''at'', PStr (am_text m))])"

definition blocked_state_doc :: "datetime \<Rightarrow> string \<Rightarrow> blocked_release option \<Rightarrow> alerted_mark option \<Rightarrow> pyval" where
  "blocked_state_doc now current b a = PDict [(PStr ''checked_at'', PStr (datetime_iso now)),
     (PStr ''current_version'', PStr current), (PStr ''blocked'', blocked_doc b), (PStr ''alerted'', alerted_doc a)]"

text \<open>What a run did: the alert it tried to send, if any, and the file it left or the error it ended in.\<close>

record alert_run =
  ar_tried :: "(string \<times> string) option"
  ar_left :: "py_exc + json_file"

definition next_mark :: "bool \<Rightarrow> alerted_mark option \<Rightarrow> string \<Rightarrow> datetime \<Rightarrow> alerted_mark option" where
  "next_mark delivered a version now =
     (if alert_due a version now \<and> delivered then Some \<lparr> am_version = PStr version, am_text = datetime_iso now, am_at = now \<rparr> else a)"

definition record_blocked ::
    "bool \<Rightarrow> bool \<Rightarrow> string \<Rightarrow> blocked_release option \<Rightarrow> datetime \<Rightarrow> json_file \<Rightarrow> alert_run" where
  "record_blocked delivered can_write current blocked now f =
     (let a = previous_alert f in
      case blocked of
        None \<Rightarrow> \<lparr> ar_tried = None, ar_left = atomic_write can_write (blocked_state_doc now current None None) \<rparr>
      | Some b \<Rightarrow> (case alert_text b current of
          Inl x \<Rightarrow> \<lparr> ar_tried = None, ar_left = Inl x \<rparr>
        | Inr txt \<Rightarrow> \<lparr> ar_tried = (if alert_due a (of_version (bl_offer b)) now then Some txt else None),
            ar_left = atomic_write can_write (blocked_state_doc now current (Some b)
              (next_mark delivered a (of_version (bl_offer b)) now)) \<rparr>))"

section \<open>The reminders\<close>

lemma blocked_doc_checks: "check_blocked (blocked_doc b) = Inr ()"
  by (cases b) (simp_all add: blocked_doc_def check_blocked_def offer_members_def dhas_def dget_def)

definition mark_ok :: "alerted_mark option \<Rightarrow> bool" where
  "mark_ok a \<longleftrightarrow> (\<forall>m. a = Some m \<longrightarrow> datetime_from_iso (am_text m) = Some (am_at m) \<and> dt_offset (am_at m) \<noteq> None)"

lemma alerted_read: "mark_ok a \<Longrightarrow> read_alerted (alerted_doc a) = Inr a"
  by (cases a) (auto simp: alerted_doc_def read_alerted_def keys_are_def dget_or_def dget_def mark_ok_def)

lemma written_alert:
  assumes "mark_ok a"
  shows "previous_alert (Doc (blocked_state_doc now current b a)) = a"
  using alerted_read [OF assms] blocked_doc_checks
  by (simp add: previous_alert_def read_blocked_state_def blocked_state_doc_def keys_are_def state_keys_def dget_or_def dget_def
      insert_commute)

lemma previous_mark_ok: "mark_ok (previous_alert f)"
  by (auto simp: mark_ok_def previous_alert_def read_blocked_state_def read_alerted_def rbind_eq_Inr
      split: sum.splits json_file.splits pyval.splits if_splits option.splits)

lemma next_mark_ok: "aware now \<Longrightarrow> mark_ok a \<Longrightarrow> mark_ok (next_mark delivered a v now)"
  by (auto simp: next_mark_def mark_ok_def aware_def datetime_iso_roundtrip)

lemma runs_written:
  assumes "of_class (bl_offer b) \<noteq> Feature"
  shows "ar_left (record_blocked delivered True current (Some b) now f)
    = Inr (Doc (blocked_state_doc now current (Some b) (next_mark delivered (previous_alert f) (of_version (bl_offer b)) now)))"
  using assms by (simp add: record_blocked_def alert_text_def Let_def atomic_write_def)

definition tries :: "string \<Rightarrow> blocked_release \<Rightarrow> datetime \<Rightarrow> json_file \<Rightarrow> bool" where
  "tries current b now f \<longleftrightarrow> ar_tried (record_blocked True True current (Some b) now f) \<noteq> None"

lemma tries_due: "of_class (bl_offer b) \<noteq> Feature \<Longrightarrow> tries current b now f = alert_due (previous_alert f) (of_version (bl_offer b)) now"
  by (simp add: tries_def record_blocked_def alert_text_def Let_def)

text \<open>The operator hears of a blocked fix until the alert arrives, and is not flooded: a run whose alert was
  not delivered is followed by one that tries again, whenever it is; once delivered, no run within
  24 hours tries again for that version and every run from 24 hours on does; a run that found
  nothing blocked forgets the alert, so that the release is announced at once if it is blocked again.\<close>

theorem blocked_alert_schedule:
  assumes "aware now" "of_class (bl_offer b) \<noteq> Feature" "tries current b now f" "instant now \<le> instant later"
    and "ar_left (record_blocked delivered True current (Some b) now f) = Inr f'"
    and "ar_left (record_blocked d True current' None between f') = Inr f''"
  shows "(tries current' b later f' \<longleftrightarrow> \<not> delivered \<or> instant later - instant now \<ge> remind_after)
    \<and> tries current' b later f''"
proof -
  let ?v = "of_version (bl_offer b)"
  let ?a = "previous_alert f"
  have due: "alert_due ?a ?v now" using assms(2,3) tries_due by simp
  have f': "f' = Doc (blocked_state_doc now current (Some b) (next_mark delivered ?a ?v now))"
    using assms(5) runs_written [OF assms(2)] by simp
  have "previous_alert f' = next_mark delivered ?a ?v now"
    unfolding f' by (intro written_alert next_mark_ok assms(1) previous_mark_ok)
  moreover have "alert_due ?a ?v later" using due assms(4) by (auto simp: alert_due_def split: option.splits)
  ultimately have "tries current' b later f' \<longleftrightarrow> \<not> delivered \<or> instant later - instant now \<ge> remind_after"
    using due tries_due [OF assms(2)] by (simp add: next_mark_def alert_due_def)
  moreover have "tries current' b later f''"
    using assms(6) tries_due [OF assms(2)] written_alert [of None]
    by (auto simp: record_blocked_def Let_def atomic_write_def alert_due_def mark_ok_def)
  ultimately show ?thesis by blast
qed

definition example_blocked :: blocked_release where
  "example_blocked = \<lparr> bl_offer = \<lparr> of_version = ''1.0.1'', of_url = ''u'', of_class = Security \<rparr>, bl_reason = Major 1 \<rparr>"

definition example_noon :: "nat \<Rightarrow> datetime" where
  "example_noon day = \<lparr> dt_date = Date 2026 1 day, dt_hour = 12, dt_minute = 0, dt_second = 0, dt_micro = 0, dt_offset = Some 0 \<rparr>"

theorem blocked_alert_schedule_witness:
  "\<exists>f'. ar_left (record_blocked True True ''0.12.2'' (Some example_blocked) (example_noon 5) Absent) = Inr f'
     \<and> \<not> tries ''0.12.2'' example_blocked (example_noon 5) f' \<and> tries ''0.12.2'' example_blocked (example_noon 6) f'"
proof -
  have facts: "aware (example_noon 5)" "of_class (bl_offer example_blocked) \<noteq> Feature"
    "instant (example_noon 6) - instant (example_noon 5) = remind_after"
    by (simp_all add: aware_def valid_datetime_def valid_date_def days_in_month_def example_noon_def example_blocked_def
        instant_def toordinal_def Let_def remind_after_def)
  have tries: "tries ''0.12.2'' example_blocked (example_noon 5) Absent"
    by (simp add: tries_due [OF facts(2)] previous_alert_def read_blocked_state_def alert_due_def)
  obtain f' where f': "ar_left (record_blocked True True ''0.12.2'' (Some example_blocked) (example_noon 5) Absent) = Inr f'"
    using runs_written [OF facts(2)] by blast
  obtain f'' where f'': "ar_left (record_blocked True True ''0.12.2'' None (example_noon 6) f') = Inr f''"
    by (simp add: record_blocked_def atomic_write_def)
  note sched = blocked_alert_schedule [OF facts(1,2) tries _ f' f'']
  have pos: "0 < remind_after" by (simp add: remind_after_def)
  have "\<not> tries ''0.12.2'' example_blocked (example_noon 5) f'" using sched [of "example_noon 5"] pos by simp
  moreover have "tries ''0.12.2'' example_blocked (example_noon 6) f'" using sched [of "example_noon 6"] facts(3) pos by simp
  ultimately show ?thesis using f' by blast
qed

end
