(* ===== verification/Userns_Shift.thy ===== *)
theory Userns_Shift
  imports Py_State "HOL-Library.Word"
begin

text \<open>
  \<^verbatim>\<open>src/boxmunge/userns/shift.py\<close> and \<open>shift_journalled\<close> of \<^verbatim>\<open>userns/engine.py\<close>: the
  owners of a data tree are moved into, or back out of, a range of ids.  A file system
  is a function from inodes to what \<open>stat\<close> says of them, and the walk of a tree the
  list of its names with their inodes, so that two names may share an inode.  The
  calls of a shift are explicit: a run that is killed has made a first part of them.
\<close>

unbundle bit_operations_syntax

section \<open>Inodes\<close>

datatype inode_kind = Directory | Regular | Fifo | Symlink | Socket | Char_Device | Block_Device

type_synonym perms = "12 word"
type_synonym inode_key = "nat \<times> nat"

record inode =
  in_kind :: inode_kind
  in_uid :: nat
  in_gid :: nat
  in_mode :: perms
  in_nlink :: nat
  in_xattrs :: "string list"
  in_immutable :: bool
  in_append :: bool

type_synonym inodes = "inode_key \<Rightarrow> inode"
type_synonym walked = "(string \<times> inode_key) list"

definition s_isuid :: perms where "s_isuid = 0x800"
definition s_isgid :: perms where "s_isgid = 0x400"
definition s_ixgrp :: perms where "s_ixgrp = 0x008"

text \<open>\<open>walk\<close> opens a directory, a regular file or a FIFO, never anything else.\<close>

definition opened :: "inode_kind \<Rightarrow> bool" where
  "opened k \<longleftrightarrow> k \<in> {Directory, Regular, Fifo}"

section \<open>Ids\<close>

definition id_range :: nat where "id_range = 65536"
definition max_setid :: nat where "max_setid = 1000"

datatype direction = Forward | Inverse

definition check_offset :: "nat \<Rightarrow> bool" where
  "check_offset offset \<longleftrightarrow> offset \<noteq> 0 \<and> offset mod id_range = 0"

definition new_id :: "nat \<Rightarrow> nat \<Rightarrow> direction \<Rightarrow> bool \<Rightarrow> nat option" where
  "new_id v offset dir resumed =
     (let in_range = (offset \<le> v \<and> v < offset + id_range) in
      case dir of
        Forward \<Rightarrow> if v < id_range then Some (v + offset) else if in_range \<and> resumed then Some v else None
      | Inverse \<Rightarrow> if in_range then Some (v - offset) else if v < id_range then Some v else None)"

section \<open>The scan\<close>

datatype shift_problem =
    Unreachable
  | Mount_Inside string
  | Device_Node string
  | Other_Filesystem string
  | Unmappable string bool nat
  | Has_Xattr string string
  | Immutable_Entry string
  | Append_Only string
  | Linked_Outside string nat nat
  | Too_Many_Setid nat

definition refused_xattrs :: "string list" where
  "refused_xattrs = [''system.posix_acl_access'', ''system.posix_acl_default'', ''security.capability'']"

definition if_problem :: "bool \<Rightarrow> shift_problem \<Rightarrow> shift_problem list" where
  "if_problem b p = (if b then [p] else [])"

definition entry_problems :: "nat \<Rightarrow> direction \<Rightarrow> bool \<Rightarrow> nat \<Rightarrow> inodes \<Rightarrow> string \<times> inode_key \<Rightarrow> shift_problem list" where
  "entry_problems offset dir resumed root_dev fs entry = (case entry of (rel, key) \<Rightarrow>
     let st = fs key in
     if_problem (in_kind st \<in> {Char_Device, Block_Device}) (Device_Node rel)
     @ if_problem (fst key \<noteq> root_dev) (Other_Filesystem rel)
     @ (if dir = Forward
        then if_problem (new_id (in_uid st) offset dir resumed = None) (Unmappable rel True (in_uid st))
          @ if_problem (new_id (in_gid st) offset dir resumed = None) (Unmappable rel False (in_gid st))
        else [])
     @ (if opened (in_kind st)
        then map (Has_Xattr rel) (filter (\<lambda>n. n \<in> set (in_xattrs st)) refused_xattrs)
          @ if_problem (in_immutable st) (Immutable_Entry rel) @ if_problem (in_append st) (Append_Only rel)
        else []))"

definition cleared :: "perms \<Rightarrow> perms" where
  "cleared m = (let m = m AND NOT s_isuid in if m AND s_ixgrp \<noteq> 0 then m AND NOT s_isgid else m)"

definition loses_mode :: "inode \<Rightarrow> bool" where
  "loses_mode st \<longleftrightarrow> in_kind st \<notin> {Directory, Symlink}
     \<and> (in_mode st AND s_isuid \<noteq> 0 \<or> in_mode st AND (s_isgid OR s_ixgrp) = s_isgid OR s_ixgrp)"

text \<open>The inodes of several names, with the first name, the number of names and how many the walk has met.\<close>

type_synonym links = "(inode_key \<times> string \<times> nat \<times> nat) list"

definition is_linked :: "inodes \<Rightarrow> inode_key \<Rightarrow> bool" where
  "is_linked fs key \<longleftrightarrow> in_kind (fs key) \<noteq> Directory \<and> 1 < in_nlink (fs key)"

definition count_link :: "inodes \<Rightarrow> links \<Rightarrow> string \<times> inode_key \<Rightarrow> links" where
  "count_link fs links entry = (case entry of (rel, key) \<Rightarrow>
     if is_linked fs key
     then (case (case map_of links key of Some l \<Rightarrow> l | None \<Rightarrow> (rel, in_nlink (fs key), 0)) of
         (first, nlink, seen) \<Rightarrow> dset links key (first, nlink, seen + 1))
     else links)"

definition link_problems :: "links \<Rightarrow> shift_problem list" where
  "link_problems links = concat (map (\<lambda>(_, first, nlink, seen). if_problem (seen < nlink) (Linked_Outside first nlink seen)) links)"

record tree_scan =
  sc_problems :: "shift_problem list"
  sc_entries :: nat
  sc_setid :: "(string \<times> perms) list"
  sc_linked :: "inode_key list"

definition scan_setid :: "inodes \<Rightarrow> walked \<Rightarrow> (string \<times> perms) list" where
  "scan_setid fs tree = map (\<lambda>(rel, key). (rel, in_mode (fs key))) (filter (\<lambda>(rel, key). loses_mode (fs key)) tree)"

text \<open>\<open>reachable\<close> is \<open>reach_problem\<close>'s answer, \<open>mounts\<close> the mount points below the tree.\<close>

record shift_tree_env =
  se_reachable :: bool
  se_mounts :: "string list"
  se_walk :: walked

definition root_dev :: "walked \<Rightarrow> nat" where
  "root_dev tree = (case tree of [] \<Rightarrow> 0 | (_, key) # _ \<Rightarrow> fst key)"

definition scan_tree :: "shift_tree_env \<Rightarrow> nat \<Rightarrow> direction \<Rightarrow> bool \<Rightarrow> inodes \<Rightarrow> py_exc + tree_scan" where
  "scan_tree env offset dir resumed fs =
     (if \<not> check_offset offset then Inl ValueError
      else if \<not> se_reachable env then Inr \<lparr> sc_problems = [Unreachable], sc_entries = 0, sc_setid = [], sc_linked = [] \<rparr>
      else let tree = se_walk env; setid = scan_setid fs tree in
        Inr \<lparr> sc_problems = map Mount_Inside (se_mounts env)
             @ concat (map (entry_problems offset dir resumed (root_dev tree) fs) tree)
             @ link_problems (foldl (count_link fs) [] tree)
             @ if_problem (max_setid < length setid) (Too_Many_Setid (length setid)),
           sc_entries = length tree, sc_setid = setid,
           sc_linked = map snd (filter (\<lambda>(rel, key). is_linked fs key) tree) \<rparr>)"

section \<open>The shift\<close>

datatype fs_call = Chown inode_key nat nat | Chmod inode_key perms

text \<open>
  \<open>chown_mode\<close> is what a chown leaves of the mode of an inode; the kernel clears
  setuid, and setgid where the group may execute, or nothing.
\<close>

fun apply_call :: "(inode_kind \<Rightarrow> perms \<Rightarrow> perms) \<Rightarrow> inodes \<Rightarrow> fs_call \<Rightarrow> inodes" where
  "apply_call chown_mode fs (Chown key uid gid) =
     fs(key := (fs key)\<lparr>in_uid := uid, in_gid := gid, in_mode := chown_mode (in_kind (fs key)) (in_mode (fs key))\<rparr>)"
| "apply_call chown_mode fs (Chmod key mode) = fs(key := (fs key)\<lparr>in_mode := mode\<rparr>)"

definition apply_calls :: "(inode_kind \<Rightarrow> perms \<Rightarrow> perms) \<Rightarrow> inodes \<Rightarrow> fs_call list \<Rightarrow> inodes" where
  "apply_calls chown_mode fs calls = foldl (apply_call chown_mode) fs calls"

definition chmod_calls :: "(string \<Rightarrow> perms option) \<Rightarrow> string \<Rightarrow> inode_key \<Rightarrow> inode \<Rightarrow> fs_call list" where
  "chmod_calls modes rel key st = (case modes rel of
     Some m \<Rightarrow> if in_kind st = Regular \<and> in_mode st \<in> {m, cleared m} then [Chmod key m] else []
   | None \<Rightarrow> [])"

definition shifted_id :: "nat \<Rightarrow> direction \<Rightarrow> bool \<Rightarrow> nat \<Rightarrow> nat" where
  "shifted_id offset dir resumed v = (case new_id v offset dir resumed of Some w \<Rightarrow> w | None \<Rightarrow> v)"

definition visit_calls :: "nat \<Rightarrow> direction \<Rightarrow> bool \<Rightarrow> (string \<Rightarrow> perms option) \<Rightarrow> string \<times> inode_key \<Rightarrow> inodes \<Rightarrow> fs_call list" where
  "visit_calls offset dir resumed modes entry fs = (case entry of (rel, key) \<Rightarrow>
     let st = fs key; uid = shifted_id offset dir resumed (in_uid st); gid = shifted_id offset dir resumed (in_gid st) in
     (if (uid, gid) \<noteq> (in_uid st, in_gid st) then [Chown key uid gid] else []) @ chmod_calls modes rel key st)"

text \<open>The calls of the walk, and the entry at which it refuses: one that became a hard link since the scan.\<close>

fun walk_calls :: "(inode_kind \<Rightarrow> perms \<Rightarrow> perms) \<Rightarrow> nat \<Rightarrow> direction \<Rightarrow> bool \<Rightarrow> (string \<Rightarrow> perms option) \<Rightarrow> inode_key list
    \<Rightarrow> walked \<Rightarrow> inodes \<Rightarrow> fs_call list \<times> string option" where
  "walk_calls chown_mode offset dir resumed modes linked [] fs = ([], None)"
| "walk_calls chown_mode offset dir resumed modes linked (e # es) fs =
     (if is_linked fs (snd e) \<and> snd e \<notin> set linked then ([], Some (fst e))
      else let calls = visit_calls offset dir resumed modes e fs in
        case walk_calls chown_mode offset dir resumed modes linked es (apply_calls chown_mode fs calls) of
          (rest, refused) \<Rightarrow> (calls @ rest, refused))"

text \<open>\<open>{**a, **b}\<close>: the entries of \<open>a\<close> keep their place, the values of \<open>b\<close> win.\<close>

definition dict_merge :: "('k \<times> 'v) list \<Rightarrow> ('k \<times> 'v) list \<Rightarrow> ('k \<times> 'v) list" where
  "dict_merge a b = map (\<lambda>(k, v). (k, case map_of b k of Some w \<Rightarrow> w | None \<Rightarrow> v)) a @ filter (\<lambda>(k, _). k \<notin> fst ` set a) b"

datatype shift_error = Shift_Refused "shift_problem list" | Not_Saved

definition shift_tree :: "(inode_kind \<Rightarrow> perms \<Rightarrow> perms) \<Rightarrow> shift_tree_env \<Rightarrow> nat \<Rightarrow> direction \<Rightarrow> (string \<times> perms) list \<Rightarrow> bool
    \<Rightarrow> inodes \<Rightarrow> shift_error raised + fs_call list \<times> string option" where
  "shift_tree chown_mode env offset dir setid resumed fs =
     (case scan_tree env offset dir resumed fs of
        Inl x \<Rightarrow> Inl (Crash x)
      | Inr scan \<Rightarrow>
          if sc_problems scan \<noteq> [] then Inl (Raised (Shift_Refused (sc_problems scan)))
          else Inr (walk_calls chown_mode offset dir resumed (map_of (dict_merge (sc_setid scan) setid)) (sc_linked scan)
            (se_walk env) fs))"

text \<open>
  \<open>shift_journalled\<close>: the journal's lists of setuid entries by tree; \<open>save_ok\<close> says
  whether a save goes through.  The result: the lists as journalled, and the calls.
  Where nothing is unsaved, the merged list and the journalled one are the same dict.
\<close>

type_synonym setid_journal = "string \<Rightarrow> (string \<times> perms) list option"

definition journalled :: "setid_journal \<Rightarrow> string \<Rightarrow> (string \<times> perms) list" where
  "journalled j key = (case j key of Some d \<Rightarrow> d | None \<Rightarrow> [])"

definition seeded :: "setid_journal \<Rightarrow> string option \<Rightarrow> (string \<times> perms) list" where
  "seeded j seed = (case seed of Some s \<Rightarrow> journalled j s | None \<Rightarrow> [])"

definition shift_journalled :: "(inode_kind \<Rightarrow> perms \<Rightarrow> perms) \<Rightarrow> shift_tree_env \<Rightarrow> nat \<Rightarrow> direction \<Rightarrow> string \<Rightarrow> string option
    \<Rightarrow> bool \<Rightarrow> setid_journal \<Rightarrow> inodes \<Rightarrow> setid_journal \<times> (shift_error raised + fs_call list \<times> string option)" where
  "shift_journalled chown_mode env offset dir key seed save_ok j fs =
     (case scan_tree env offset dir False fs of
        Inl x \<Rightarrow> (j, Inl (Crash x))
      | Inr scan \<Rightarrow>
          (let resumed = (j key \<noteq> None);
               setid = dict_merge (dict_merge (seeded j seed) (sc_setid scan)) (journalled j key);
               unsaved = (\<not> resumed \<or> set setid \<noteq> set (journalled j key)) in
           if unsaved \<and> \<not> save_ok then (j, Inl (Raised Not_Saved))
           else (j(key \<mapsto> setid), shift_tree chown_mode env offset dir setid resumed fs)))"

section \<open>Ids are shifted once\<close>

lemma shifted_id_simps:
  assumes "check_offset offset"
  shows "shifted_id offset dir resumed v = (case dir of
      Forward \<Rightarrow> if v < id_range then v + offset else v
    | Inverse \<Rightarrow> if offset \<le> v \<and> v < offset + id_range then v - offset else v)"
  by (cases dir) (auto simp: shifted_id_def new_id_def Let_def)

lemma offset_large: "check_offset offset \<Longrightarrow> id_range \<le> offset"
  by (auto simp: check_offset_def id_range_def dest: dvd_imp_le)

lemma shifted_id_done:
  "check_offset offset \<Longrightarrow> shifted_id offset dir r (shifted_id offset dir r' v) = shifted_id offset dir r' v"
  using offset_large [of offset] by (cases dir) (auto simp: shifted_id_simps)

lemma shifted_id_resumed: "check_offset offset \<Longrightarrow> shifted_id offset dir r v = shifted_id offset dir False v"
  by (simp add: shifted_id_simps)

end
