(* ===== verification/Userns_Shift_Laws.thy ===== *)
theory Userns_Shift_Laws
  imports Userns_Shift
begin

text \<open>
  What the calls of a shift do: the stages an inode is in while a shift is under way, that
  a walk from any stage ends in the same state, and that the scan of a tree at a stage
  finds no problem and no other modes.
\<close>

unbundle bit_operations_syntax

section \<open>Modes\<close>

lemma perms_bits: "s_isuid = 2 ^ 11" "s_isgid = 2 ^ 10" "s_ixgrp = 2 ^ 3"
  by (simp_all add: s_isuid_def s_isgid_def s_ixgrp_def)

lemma and_not_none: "m AND b = 0 \<Longrightarrow> m AND NOT b = m" for m b :: perms
proof (rule bit_eqI)
  fix n assume "m AND b = 0"
  then have "\<not> (bit m n \<and> bit b n)" by (metis bit_0_eq bit_and_iff bot_apply bot_bool_def)
  then show "bit (m AND NOT b) n \<longleftrightarrow> bit m n" by (auto simp: bit_and_iff bit_not_iff dest: bit_imp_le_length)
qed

lemma both_bits: "bit m 10 \<Longrightarrow> bit m 3 \<Longrightarrow> m AND (2 ^ 10 OR 2 ^ 3) = (2 ^ 10 OR 2 ^ 3 :: perms)"
proof (rule bit_eqI)
  fix n assume m: "bit m 10" "bit m 3"
  have "n = 10 \<or> n = 3" if "bit (2 ^ 10 OR 2 ^ 3 :: perms) n" using that by (simp only: bit_or_iff bit_exp_iff) blast
  then show "bit (m AND (2 ^ 10 OR 2 ^ 3)) n = bit (2 ^ 10 OR 2 ^ 3 :: perms) n" using m unfolding bit_and_iff by blast
qed

lemma cleared_same:
  assumes "\<not> loses_mode st" "in_kind st \<notin> {Directory, Symlink}"
  shows "cleared (in_mode st) = in_mode st"
proof -
  let ?m = "in_mode st"
  have u: "?m AND NOT s_isuid = ?m" using assms by (intro and_not_none) (auto simp: loses_mode_def)
  have "?m AND s_isgid = 0" if "?m AND s_ixgrp \<noteq> 0"
  proof (rule ccontr)
    assume "?m AND s_isgid \<noteq> 0"
    then have "bit ?m 10" "bit ?m 3" using that unfolding perms_bits and_exp_eq_0_iff_not_bit by simp_all
    then have "?m AND (s_isgid OR s_ixgrp) = s_isgid OR s_ixgrp" unfolding perms_bits by (rule both_bits)
    then show False using assms by (simp add: loses_mode_def)
  qed
  then show ?thesis unfolding cleared_def Let_def u using and_not_none by simp
qed

lemma cleared_twice: "cleared (cleared m) = cleared m"
  unfolding cleared_def Let_def perms_bits
  by (auto intro!: bit_eqI simp: bit_and_iff bit_not_iff bit_exp_iff and_exp_eq_0_iff_not_bit)

section \<open>What the calls of a shift do to an inode\<close>

text \<open>What the kernel leaves of a mode.\<close>

definition chown_clears :: "(inode_kind \<Rightarrow> perms \<Rightarrow> perms) \<Rightarrow> bool" where
  "chown_clears chown_mode \<longleftrightarrow> (\<forall>k m. chown_mode k m = m \<or> chown_mode k m = cleared m)"

definition moves :: "nat \<Rightarrow> direction \<Rightarrow> inode \<Rightarrow> bool" where
  "moves offset dir st \<longleftrightarrow> (shifted_id offset dir False (in_uid st), shifted_id offset dir False (in_gid st)) \<noteq> (in_uid st, in_gid st)"

definition moved :: "nat \<Rightarrow> direction \<Rightarrow> inode \<Rightarrow> perms \<Rightarrow> inode" where
  "moved offset dir st m = st\<lparr>in_uid := shifted_id offset dir False (in_uid st),
     in_gid := shifted_id offset dir False (in_gid st), in_mode := m\<rparr>"

text \<open>An inode as a finished shift leaves it.\<close>

definition shifted :: "(inode_kind \<Rightarrow> perms \<Rightarrow> perms) \<Rightarrow> nat \<Rightarrow> direction \<Rightarrow> inode \<Rightarrow> inode" where
  "shifted chown_mode offset dir st =
     (if moves offset dir st
      then moved offset dir st (if in_kind st = Regular then in_mode st else chown_mode (in_kind st) (in_mode st))
      else st)"

text \<open>An inode as a shift that was killed may leave it.\<close>

definition stage :: "(inode_kind \<Rightarrow> perms \<Rightarrow> perms) \<Rightarrow> nat \<Rightarrow> direction \<Rightarrow> inode \<Rightarrow> inode \<Rightarrow> bool" where
  "stage chown_mode offset dir st now \<longleftrightarrow>
     (if in_kind st = Regular
      then (\<exists>m\<in>{in_mode st, cleared (in_mode st)}. now = st\<lparr>in_mode := m\<rparr> \<or> moves offset dir st \<and> now = moved offset dir st m)
      else now = st \<or> moves offset dir st \<and> now = moved offset dir st (chown_mode (in_kind st) (in_mode st)))"

definition between :: "(inode_kind \<Rightarrow> perms \<Rightarrow> perms) \<Rightarrow> nat \<Rightarrow> direction \<Rightarrow> walked \<Rightarrow> inodes \<Rightarrow> inodes \<Rightarrow> bool" where
  "between chown_mode offset dir tree fs0 fs \<longleftrightarrow>
     (\<forall>k. if k \<in> snd ` set tree then stage chown_mode offset dir (fs0 k) (fs k) else fs k = fs0 k)"

text \<open>The modes a shift puts back, and a list that has no other.\<close>

definition modes_of :: "walked \<Rightarrow> inodes \<Rightarrow> (string \<Rightarrow> perms option) \<Rightarrow> bool" where
  "modes_of tree fs0 modes \<longleftrightarrow>
     (\<forall>(rel, k)\<in>set tree. in_kind (fs0 k) = Regular \<longrightarrow> modes rel = (if loses_mode (fs0 k) then Some (in_mode (fs0 k)) else None))"

definition seed_ok :: "walked \<Rightarrow> inodes \<Rightarrow> (string \<times> perms) list \<Rightarrow> bool" where
  "seed_ok tree fs0 s \<longleftrightarrow> (\<forall>(rel, k)\<in>set tree. in_kind (fs0 k) = Regular \<longrightarrow>
     map_of s rel = None \<or> loses_mode (fs0 k) \<and> map_of s rel = Some (in_mode (fs0 k)))"

lemma modes_ofD: "modes_of tree fs0 modes \<Longrightarrow> (rel, k) \<in> set tree \<Longrightarrow> in_kind (fs0 k) = Regular
    \<Longrightarrow> modes rel = (if loses_mode (fs0 k) then Some (in_mode (fs0 k)) else None)"
  unfolding modes_of_def by blast

lemma seed_okD: "seed_ok tree fs0 s \<Longrightarrow> (rel, k) \<in> set tree \<Longrightarrow> in_kind (fs0 k) = Regular
    \<Longrightarrow> map_of s rel = None \<or> loses_mode (fs0 k) \<and> map_of s rel = Some (in_mode (fs0 k))"
  unfolding seed_ok_def by blast

lemma seed_empty: "seed_ok tree fs0 []"
  by (auto simp: seed_ok_def)

lemma stage_shifted: "stage chown_mode offset dir st (shifted chown_mode offset dir st)"
  by (auto simp: stage_def shifted_def moves_def)

lemma stage_fields: "stage chown_mode offset dir st now \<Longrightarrow> in_kind now = in_kind st \<and> in_nlink now = in_nlink st
    \<and> in_xattrs now = in_xattrs st \<and> in_immutable now = in_immutable st \<and> in_append now = in_append st"
  by (auto simp: stage_def moved_def split: if_split_asm)

lemma stage_ids:
  assumes "check_offset offset" "stage chown_mode offset dir st now"
  shows "shifted_id offset dir r (in_uid now) = shifted_id offset dir False (in_uid st)"
    "shifted_id offset dir r (in_gid now) = shifted_id offset dir False (in_gid st)"
  using assms shifted_id_done [OF assms(1)] shifted_id_resumed [OF assms(1)]
  by (auto simp: stage_def moved_def split: if_split_asm)

lemma stage_mode:
  assumes "stage chown_mode offset dir st now" "in_kind st = Regular"
  shows "in_mode now = in_mode st \<or> in_mode now = cleared (in_mode st)"
  using assms by (auto simp: stage_def moved_def)

lemma stage_any_mode:
  assumes "chown_clears chown_mode" "stage chown_mode offset dir st now"
  shows "in_mode now = in_mode st \<or> in_mode now = cleared (in_mode st)"
proof (cases "in_kind st = Regular")
  case True
  then show ?thesis by (rule stage_mode [OF assms(2)])
next
  case False
  then have "in_mode now = in_mode st \<or> in_mode now = chown_mode (in_kind st) (in_mode st)"
    using assms(2) by (auto simp: stage_def moved_def)
  then show ?thesis using assms(1) unfolding chown_clears_def by metis
qed

lemma stage_refl: "stage chown_mode offset dir st st"
  by (simp add: stage_def)

text \<open>The calls for one name: any first part of them leaves a stage, and all of them the shifted inode.\<close>

lemma visit_stage:
  assumes "check_offset offset" "chown_clears chown_mode" "stage chown_mode offset dir st (fs key)"
    and "in_kind st = Regular \<Longrightarrow> modes rel = (if loses_mode st then Some (in_mode st) else None)"
  shows "\<exists>now. apply_calls chown_mode fs (take n (visit_calls offset dir r modes (rel, key) fs)) = fs(key := now)
      \<and> stage chown_mode offset dir st now"
    and "apply_calls chown_mode fs (visit_calls offset dir r modes (rel, key) fs) = fs(key := shifted chown_mode offset dir st)"
proof -
  let ?now = "fs key" and ?u = "shifted_id offset dir False (in_uid st)" and ?g = "shifted_id offset dir False (in_gid st)"
  let ?chmod = "chmod_calls modes rel key ?now"
  note ids = stage_ids [OF assms(1,3)] and fields = stage_fields [OF assms(3)]
  have chown: "visit_calls offset dir r modes (rel, key) fs
      = (if moves offset dir ?now then [Chown key ?u ?g] else []) @ ?chmod"
    using ids by (simp add: visit_calls_def Let_def moves_def)
  have chmod: "?chmod = (if in_kind st = Regular \<and> loses_mode st then [Chmod key (in_mode st)] else [])"
  proof (cases "in_kind st = Regular")
    case True
    then show ?thesis using assms(4) [OF True] fields stage_mode [OF assms(3) True] by (auto simp: chmod_calls_def)
  next
    case False
    then show ?thesis using fields by (cases "modes rel") (simp_all add: chmod_calls_def)
  qed
  have same: "chown_mode Regular (in_mode st) = in_mode st" if "in_kind st = Regular" "\<not> loses_mode st"
  proof -
    have "cleared (in_mode st) = in_mode st" by (rule cleared_same) (use that in auto)
    then show ?thesis using assms(2) unfolding chown_clears_def by metis
  qed
  have unmoved: "(in_uid ?now, in_gid ?now) = (in_uid st, in_gid st) \<and> moves offset dir st" if "moves offset dir ?now"
    using that assms(3) shifted_id_done [OF assms(1)] by (auto simp: stage_def moves_def moved_def split: if_splits)
  have settled: "?now = shifted chown_mode offset dir st \<or> in_kind st = Regular \<and> ?now = (shifted chown_mode offset dir st)\<lparr>in_mode := cleared (in_mode st)\<rparr>"
    if "\<not> moves offset dir ?now"
    using that assms(3) by (auto simp: stage_def shifted_def moves_def moved_def split: if_splits)
  have regular: "chown_mode Regular (in_mode ?now) \<in> {in_mode st, cleared (in_mode st)}" if "in_kind st = Regular"
    using stage_mode [OF assms(3) that] assms(2) cleared_twice unfolding chown_clears_def by (metis insertCI)
  have odd: "?now = st" if "moves offset dir ?now" "in_kind st \<noteq> Regular"
    using that assms(3) unmoved [OF that(1)] shifted_id_done [OF assms(1)] by (auto simp: stage_def moves_def moved_def)
  have chowned: "?now\<lparr>in_uid := ?u, in_gid := ?g, in_mode := m\<rparr> = moved offset dir st m" for m
    using fields by (intro inode.equality) (simp_all add: moved_def)
  show "apply_calls chown_mode fs (visit_calls offset dir r modes (rel, key) fs) = fs(key := shifted chown_mode offset dir st)"
  proof (cases "moves offset dir ?now")
    case True
    have "apply_calls chown_mode fs (visit_calls offset dir r modes (rel, key) fs)
        = apply_calls chown_mode (fs(key := moved offset dir st (chown_mode (in_kind st) (in_mode ?now)))) ?chmod"
      unfolding chown using True fields chowned by (simp add: apply_calls_def)
    then show ?thesis using chmod unmoved [OF True] odd [OF True] regular same
      by (cases "in_kind st = Regular"; cases "loses_mode st") (auto simp: apply_calls_def shifted_def moved_def cleared_same)
  next
    case False
    then show ?thesis using chown chmod settled [OF False] same cleared_same [of st]
      by (auto simp: apply_calls_def fun_upd_idem_iff shifted_def moved_def)
  qed
  then have all: "\<exists>now. apply_calls chown_mode fs (visit_calls offset dir r modes (rel, key) fs) = fs(key := now)
      \<and> stage chown_mode offset dir st now" using stage_shifted by blast
  have none: "\<exists>now. apply_calls chown_mode fs [] = fs(key := now) \<and> stage chown_mode offset dir st now"
    using assms(3) by (intro exI [of _ "fs key"]) (simp add: apply_calls_def)
  have one: "\<exists>now. apply_calls chown_mode fs [Chown key ?u ?g] = fs(key := now) \<and> stage chown_mode offset dir st now"
    if "moves offset dir ?now"
  proof -
    have "stage chown_mode offset dir st (moved offset dir st (chown_mode (in_kind st) (in_mode ?now)))"
      using unmoved [OF that] regular odd [OF that] by (cases "in_kind st = Regular") (auto simp: stage_def)
    moreover have "apply_calls chown_mode fs [Chown key ?u ?g] = fs(key := moved offset dir st (chown_mode (in_kind st) (in_mode ?now)))"
      using chowned fields by (simp add: apply_calls_def)
    ultimately show ?thesis by blast
  qed
  show "\<exists>now. apply_calls chown_mode fs (take n (visit_calls offset dir r modes (rel, key) fs)) = fs(key := now)
      \<and> stage chown_mode offset dir st now"
  proof (cases "n < length (visit_calls offset dir r modes (rel, key) fs)")
    case False
    then show ?thesis using all by simp
  next
    case True
    then show ?thesis using none one unfolding chown chmod
      by (cases n) (auto split: if_splits simp: take_Cons')
  qed
qed

section \<open>The walk\<close>

lemma between_stage: "between chown_mode offset dir tree fs0 fs \<Longrightarrow> k \<in> snd ` set tree \<Longrightarrow> stage chown_mode offset dir (fs0 k) (fs k)"
  unfolding between_def by (drule spec [of _ k]) simp

lemma between_outside: "between chown_mode offset dir tree fs0 fs \<Longrightarrow> k \<notin> snd ` set tree \<Longrightarrow> fs k = fs0 k"
  unfolding between_def by (drule spec [of _ k]) simp

lemma betweenI: "(\<And>k. k \<in> snd ` set tree \<Longrightarrow> stage chown_mode offset dir (fs0 k) (fs k)) \<Longrightarrow> (\<And>k. k \<notin> snd ` set tree \<Longrightarrow> fs k = fs0 k)
    \<Longrightarrow> between chown_mode offset dir tree fs0 fs"
  unfolding between_def by metis

lemma apply_append: "apply_calls chown_mode fs (a @ b) = apply_calls chown_mode (apply_calls chown_mode fs a) b"
  by (simp add: apply_calls_def)

lemma between_upd:
  assumes "between chown_mode offset dir tree fs0 fs" "k \<in> snd ` set tree" "stage chown_mode offset dir (fs0 k) now"
  shows "between chown_mode offset dir tree fs0 (fs(k := now))"
  using assms by (auto simp: between_def)

lemma between_linked: "between chown_mode offset dir tree fs0 fs \<Longrightarrow> is_linked fs k \<longleftrightarrow> is_linked fs0 k"
proof -
  assume b: "between chown_mode offset dir tree fs0 fs"
  have "in_kind (fs k) = in_kind (fs0 k) \<and> in_nlink (fs k) = in_nlink (fs0 k)"
  proof (cases "k \<in> snd ` set tree")
    case True
    then have "stage chown_mode offset dir (fs0 k) (fs k)" by (rule between_stage [OF b])
    then show ?thesis using stage_fields by blast
  next
    case False
    then show ?thesis using between_outside [OF b] by simp
  qed
  then show ?thesis by (simp add: is_linked_def)
qed

lemma walked_key: "(rel, k) \<in> set tree \<Longrightarrow> k \<in> snd ` set tree"
  by (metis image_eqI snd_conv)

lemma walk_between:
  assumes "check_offset offset" "chown_clears chown_mode" "modes_of tree fs0 modes"
    and "between chown_mode offset dir tree fs0 fs" "set es \<subseteq> set tree" "\<And>k. k \<in> snd ` set tree \<Longrightarrow> is_linked fs0 k \<Longrightarrow> k \<in> set linked"
  shows "\<exists>calls. walk_calls chown_mode offset dir r modes linked es fs = (calls, None)
    \<and> (\<forall>n. between chown_mode offset dir tree fs0 (apply_calls chown_mode fs (take n calls)))
    \<and> apply_calls chown_mode fs calls = (\<lambda>k. if k \<in> snd ` set es then shifted chown_mode offset dir (fs0 k) else fs k)"
  using assms(4,5)
proof (induction es arbitrary: fs)
  case Nil
  then show ?case by (simp add: apply_calls_def)
next
  case (Cons e es)
  obtain rel k where e: "e = (rel, k)" by (rule prod.exhaust)
  let ?calls = "visit_calls offset dir r modes (rel, k) fs" and ?fs = "fs(k := shifted chown_mode offset dir (fs0 k))"
  have "(rel, k) \<in> set tree" using Cons.prems(2) e by simp
  then have k: "k \<in> snd ` set tree" by (rule walked_key)
  have m: "in_kind (fs0 k) = Regular \<Longrightarrow> modes rel = (if loses_mode (fs0 k) then Some (in_mode (fs0 k)) else None)"
    by (rule modes_ofD [OF assms(3) \<open>(rel, k) \<in> set tree\<close>])
  have st: "stage chown_mode offset dir (fs0 k) (fs k)" by (rule between_stage [OF Cons.prems(1) k])
  note v = visit_stage [where fs = fs and key = k and modes = modes and rel = rel, OF assms(1,2) st m]
  have es: "set es \<subseteq> set tree" using Cons.prems(2) by simp
  have fs: "between chown_mode offset dir tree fs0 ?fs" by (rule between_upd [OF Cons.prems(1) k stage_shifted])
  obtain rest where rest: "walk_calls chown_mode offset dir r modes linked es ?fs = (rest, None)"
    "\<And>n. between chown_mode offset dir tree fs0 (apply_calls chown_mode ?fs (take n rest))"
    "apply_calls chown_mode ?fs rest = (\<lambda>k. if k \<in> snd ` set es then shifted chown_mode offset dir (fs0 k) else ?fs k)"
    using Cons.IH [OF fs es] by blast
  have w: "walk_calls chown_mode offset dir r modes linked (e # es) fs = (?calls @ rest, None)"
    using assms(6) [OF k] between_linked [OF Cons.prems(1)] v(2) rest(1) by (simp add: e Let_def)
  have "between chown_mode offset dir tree fs0 (apply_calls chown_mode fs (take n (?calls @ rest)))" for n
  proof (cases "n < length ?calls")
    case True
    obtain now where "apply_calls chown_mode fs (take n ?calls) = fs(k := now)" "stage chown_mode offset dir (fs0 k) now"
      using v(1) by blast
    then show ?thesis using True between_upd [OF Cons.prems(1) k] by simp
  next
    case False
    then show ?thesis using rest(2) v(2) by (simp add: apply_append)
  qed
  moreover have "apply_calls chown_mode fs (?calls @ rest) = (\<lambda>k'. if k' \<in> snd ` set (e # es) then shifted chown_mode offset dir (fs0 k') else fs k')"
    using rest(3) v(2) by (auto simp: apply_append e)
  ultimately show ?case using w by blast
qed

section \<open>The scan of a tree that is part-way\<close>

lemma loses_stage: "chown_clears chown_mode \<Longrightarrow> stage chown_mode offset dir st now \<Longrightarrow> loses_mode now \<Longrightarrow> loses_mode st"
proof (rule ccontr)
  assume c: "chown_clears chown_mode" and s: "stage chown_mode offset dir st now" and l: "loses_mode now" and n: "\<not> loses_mode st"
  have k: "in_kind now = in_kind st" using stage_fields [OF s] by simp
  then have "cleared (in_mode st) = in_mode st" using l n by (intro cleared_same) (auto simp: loses_mode_def)
  then have "in_mode now = in_mode st" using stage_any_mode [OF c s] by auto
  then show False using l n k by (simp add: loses_mode_def)
qed

lemma map_of_scan:
  assumes "distinct (map fst tree)" "(rel, k) \<in> set tree"
  shows "map_of (scan_setid fs tree) rel = (if loses_mode (fs k) then Some (in_mode (fs k)) else None)"
  using assms
proof (induction tree)
  case (Cons e tree)
  show ?case
  proof (cases "e = (rel, k)")
    case True
    have "rel \<notin> fst ` set (scan_setid fs tree)" using Cons.prems(1) True by (force simp: scan_setid_def)
    then show ?thesis using True by (simp add: scan_setid_def map_of_eq_None_iff)
  next
    case False
    then have t: "(rel, k) \<in> set tree" using Cons.prems by simp
    then have "rel \<in> fst ` set tree" by (metis fst_conv image_eqI)
    then have "fst e \<noteq> rel" using Cons.prems(1) by auto
    then show ?thesis using Cons.IH [OF _ t] Cons.prems(1) by (cases e) (simp add: scan_setid_def)
  qed
qed simp

lemma map_of_merge: "map_of (dict_merge a b) = map_of a ++ map_of b"
proof
  fix k
  have f: "map_of (filter (\<lambda>(k, _). k \<notin> S) b) k = (if k \<in> S then None else map_of b k)" for S
    by (induction b) auto
  have m: "map_of (map (\<lambda>(k, v). (k, case map_of b k of Some w \<Rightarrow> w | None \<Rightarrow> v)) xs) k
      = (case map_of xs k of None \<Rightarrow> None | Some v \<Rightarrow> Some (case map_of b k of Some w \<Rightarrow> w | None \<Rightarrow> v))" for xs
    by (induction xs) (auto split: option.splits)
  have in_dom: "k \<in> fst ` set a \<longleftrightarrow> map_of a k \<noteq> None" by (metis map_of_eq_None_iff)
  show "map_of (dict_merge a b) k = (map_of a ++ map_of b) k"
    unfolding dict_merge_def map_of_append map_add_def f m
    unfolding in_dom by (cases "map_of a k"; cases "map_of b k") simp_all
qed

text \<open>What the scan of a part-way tree adds to the list it began with: nothing.\<close>

lemma merged_modes:
  assumes "distinct (map fst tree)" "chown_clears chown_mode" "between chown_mode offset dir tree fs0 fs"
    and "seed_ok tree fs0 s" "modes_of tree fs0 (map_of d)"
  shows "modes_of tree fs0 (map_of (dict_merge (dict_merge s (scan_setid fs tree)) d))"
  unfolding modes_of_def
proof (intro ballI, clarify)
  fix rel and k :: inode_key
  assume m: "(rel, k) \<in> set tree" and reg: "in_kind (fs0 k) = Regular"
  then have st: "stage chown_mode offset dir (fs0 k) (fs k)" by (intro between_stage [OF assms(3)] walked_key)
  show "map_of (dict_merge (dict_merge s (scan_setid fs tree)) d) rel = (if loses_mode (fs0 k) then Some (in_mode (fs0 k)) else None)"
    using map_of_scan [OF assms(1) m, of fs] loses_stage [OF assms(2) st] modes_ofD [OF assms(5) m reg] seed_okD [OF assms(4) m reg]
    by (auto simp: map_of_merge map_add_def)
qed

lemma first_modes:
  assumes "distinct (map fst tree)" "seed_ok tree fs0 s"
  shows "modes_of tree fs0 (map_of (dict_merge s (scan_setid fs0 tree)))"
  unfolding modes_of_def
proof (intro ballI, clarify)
  fix rel and k :: inode_key
  assume m: "(rel, k) \<in> set tree" and reg: "in_kind (fs0 k) = Regular"
  show "map_of (dict_merge s (scan_setid fs0 tree)) rel = (if loses_mode (fs0 k) then Some (in_mode (fs0 k)) else None)"
    using map_of_scan [OF assms(1) m, of fs0] seed_okD [OF assms(2) m reg] by (auto simp: map_of_merge map_add_def)
qed

lemma cleared_keeps: "loses_mode st \<Longrightarrow> in_mode st \<noteq> cleared m"
proof
  assume l: "loses_mode st" and e: "in_mode st = cleared m"
  have "in_mode st AND s_isuid \<noteq> 0 \<or> in_mode st AND (s_isgid OR s_ixgrp) = s_isgid OR s_ixgrp" using l by (simp add: loses_mode_def)
  moreover have "\<not> bit (cleared m) 11"
    unfolding cleared_def Let_def perms_bits by (auto simp: bit_and_iff bit_not_iff bit_exp_iff)
  moreover have "\<not> (bit (cleared m) 10 \<and> bit (cleared m) 3)"
  proof (cases "(m AND NOT s_isuid) AND s_ixgrp = 0")
    case True
    then have "\<not> bit (m AND NOT s_isuid) 3" unfolding perms_bits and_exp_eq_0_iff_not_bit .
    then show ?thesis using True by (simp add: cleared_def Let_def)
  next
    case False
    then have "\<not> bit (cleared m) 10" unfolding cleared_def Let_def perms_bits by (simp add: bit_and_iff bit_not_iff bit_exp_iff)
    then show ?thesis by simp
  qed
  moreover have "bit x 10 \<and> bit x 3" if "x AND (s_isgid OR s_ixgrp) = s_isgid OR s_ixgrp" for x
  proof -
    have "bit (s_isgid OR s_ixgrp) n" if "n = 10 \<or> n = 3" for n
      using that unfolding perms_bits bit_or_iff bit_exp_iff by auto
    then show ?thesis using that by (metis bit_and_iff)
  qed
  ultimately show False using e unfolding perms_bits(1) and_exp_eq_0_iff_not_bit by auto
qed

text \<open>A list that has every mode keeps them through the scan of a part-way tree.\<close>

lemma seeded_modes:
  assumes "distinct (map fst tree)" "chown_clears chown_mode" "between chown_mode offset dir tree fs0 fs" "modes_of tree fs0 (map_of s)"
  shows "modes_of tree fs0 (map_of (dict_merge s (scan_setid fs tree)))"
  unfolding modes_of_def
proof (intro ballI, clarify)
  fix rel and k :: inode_key
  assume m: "(rel, k) \<in> set tree" and reg: "in_kind (fs0 k) = Regular"
  then have st: "stage chown_mode offset dir (fs0 k) (fs k)" by (intro between_stage [OF assms(3)] walked_key)
  have "in_mode (fs k) = in_mode (fs0 k)" if "loses_mode (fs k)"
    using stage_mode [OF st reg] cleared_keeps [OF that] by blast
  then show "map_of (dict_merge s (scan_setid fs tree)) rel = (if loses_mode (fs0 k) then Some (in_mode (fs0 k)) else None)"
    using map_of_scan [OF assms(1) m, of fs] loses_stage [OF assms(2) st] modes_ofD [OF assms(4) m reg]
    by (auto simp: map_of_merge map_add_def)
qed

lemma entry_ok_stage:
  assumes "check_offset offset" "entry_problems offset dir False rd fs0 (rel, k) = []" "stage chown_mode offset dir (fs0 k) (fs k)"
    and "dir' = dir \<and> r \<or> dir' = Inverse"
  shows "entry_problems offset dir' r rd fs (rel, k) = []"
proof -
  note fields = stage_fields [OF assms(3)]
  have id: "new_id w offset Forward True \<noteq> None"
    if "new_id v offset Forward False \<noteq> None" "w = v \<or> w = shifted_id offset Forward False v" for v w
    using that assms(1) by (auto simp: new_id_def Let_def shifted_id_simps split: if_splits)
  have ids: "(in_uid (fs k) = in_uid (fs0 k) \<or> in_uid (fs k) = shifted_id offset dir False (in_uid (fs0 k)))
      \<and> (in_gid (fs k) = in_gid (fs0 k) \<or> in_gid (fs k) = shifted_id offset dir False (in_gid (fs0 k)))"
    using assms(3) by (auto simp: stage_def moved_def split: if_split_asm)
  have id: "new_id (in_uid (fs k)) offset Forward True \<noteq> None" "new_id (in_gid (fs k)) offset Forward True \<noteq> None"
    if "dir = Forward"
    using id [of "in_uid (fs0 k)" "in_uid (fs k)"] id [of "in_gid (fs0 k)" "in_gid (fs k)"] ids assms(2) that
    by (auto simp: entry_problems_def if_problem_def Let_def split: if_split_asm)
  show ?thesis using assms(2,4) fields id
    by (cases dir') (auto simp: entry_problems_def if_problem_def Let_def split: if_split_asm)
qed

lemma filter_shorter: "(\<And>x. x \<in> set xs \<Longrightarrow> P x \<Longrightarrow> Q x) \<Longrightarrow> length (filter P xs) \<le> length (filter Q xs)"
  by (induction xs) auto

lemma count_links_same:
  assumes "\<And>k. k \<in> snd ` set es \<Longrightarrow> is_linked fs k = is_linked fs0 k \<and> in_nlink (fs k) = in_nlink (fs0 k)"
  shows "foldl (count_link fs) links es = foldl (count_link fs0) links es"
  using assms
proof (induction es arbitrary: links)
  case (Cons e es)
  have e: "is_linked fs (snd e) = is_linked fs0 (snd e)" "in_nlink (fs (snd e)) = in_nlink (fs0 (snd e))"
    using Cons.prems [of "snd e"] by simp_all
  have "count_link fs links e = count_link fs0 links e"
    by (cases "map_of links (snd e)") (simp_all add: count_link_def split_def e)
  then show ?case using Cons by simp
qed simp

lemma scan_setid_between:
  assumes "scan_tree env offset dir False fs0 = Inr sc" "sc_problems sc = []"
  shows "\<exists>sc'. scan_tree env offset dir r fs = Inr sc' \<and> sc_setid sc' = scan_setid fs (se_walk env)
    \<and> sc_linked sc' = map snd (filter (\<lambda>(rel, key). is_linked fs key) (se_walk env))"
  using assms by (auto simp: scan_tree_def Let_def split: if_splits)

lemma scan_between:
  assumes "scan_tree env offset dir False fs0 = Inr sc" "sc_problems sc = []" "chown_clears chown_mode"
    and "between chown_mode offset dir (se_walk env) fs0 fs" "dir' = dir \<and> r \<or> dir' = Inverse"
  shows "\<exists>sc'. scan_tree env offset dir' r fs = Inr sc' \<and> sc_problems sc' = []"
proof -
  let ?tree = "se_walk env"
  have ok: "check_offset offset" "se_reachable env" "se_mounts env = []" using assms(1,2) by (auto simp: scan_tree_def Let_def split: if_splits)
  have parts: "\<forall>e\<in>set ?tree. entry_problems offset dir False (root_dev ?tree) fs0 e = []"
    "link_problems (foldl (count_link fs0) [] ?tree) = []" "length (scan_setid fs0 ?tree) \<le> max_setid"
    using assms(1,2) ok by (auto simp: scan_tree_def Let_def if_problem_def split: if_splits)
  have "entry_problems offset dir' r (root_dev ?tree) fs (rel, k) = []" if "(rel, k) \<in> set ?tree" for rel k
    by (rule entry_ok_stage [where chown_mode = chown_mode and dir = dir, OF ok(1)])
      (use assms(5) parts(1) that between_stage [OF assms(4) walked_key [OF that]] in blast)+
  then have entries: "\<forall>e\<in>set ?tree. entry_problems offset dir' r (root_dev ?tree) fs e = []" by (metis surj_pair)
  have links: "foldl (count_link fs) [] ?tree = foldl (count_link fs0) [] ?tree"
    by (rule count_links_same) (use between_linked [OF assms(4)] stage_fields [OF between_stage [OF assms(4)]] in blast)
  have "length (scan_setid fs ?tree) \<le> length (scan_setid fs0 ?tree)"
    unfolding scan_setid_def length_map
    by (rule filter_shorter) (use loses_stage [OF assms(3) between_stage [OF assms(4) walked_key]] in auto)
  then have "\<not> max_setid < length (scan_setid fs ?tree)" using parts(3) by simp
  then show ?thesis using ok entries links parts(2) by (simp add: scan_tree_def Let_def if_problem_def)
qed

end
