(* ===== verification/Userns_Resume.thy ===== *)
theory Userns_Resume
  imports Userns_Shift_Laws
begin

text \<open>
  Runs of \<open>shift_journalled\<close> that are killed, the runs that finish them, and the
  inverse shift of a rollback.
\<close>

section \<open>Any number of kills\<close>

text \<open>
  A run that is killed: its saves go through or not, and it has made the first \<open>n\<close> of
  its calls.
\<close>

definition killed_shift :: "(inode_kind \<Rightarrow> perms \<Rightarrow> perms) \<Rightarrow> shift_tree_env \<Rightarrow> nat \<Rightarrow> direction \<Rightarrow> string \<Rightarrow> string option
    \<Rightarrow> setid_journal \<times> inodes \<Rightarrow> bool \<times> nat \<Rightarrow> setid_journal \<times> inodes" where
  "killed_shift chown_mode env offset dir key seed state run = (case (state, run) of ((j, fs), (save_ok, n)) \<Rightarrow>
     (case shift_journalled chown_mode env offset dir key seed save_ok j fs of
        (j', Inl _) \<Rightarrow> (j', fs)
      | (j', Inr (calls, _)) \<Rightarrow> (j', apply_calls chown_mode fs (take n calls))))"

text \<open>
  The journal knows the modes once a run has begun, and the inodes are at a stage.  An
  inverse shift may begin at a stage too, when the list it is seeded with knows the modes.
\<close>

definition begun :: "(inode_kind \<Rightarrow> perms \<Rightarrow> perms) \<Rightarrow> nat \<Rightarrow> direction \<Rightarrow> walked \<Rightarrow> string \<Rightarrow> string option \<Rightarrow> inodes \<Rightarrow> setid_journal \<times> inodes \<Rightarrow> bool" where
  "begun chown_mode offset dir tree key seed fs0 state = (case state of (j, fs) \<Rightarrow> seed_ok tree fs0 (seeded j seed) \<and>
     (case j key of
        None \<Rightarrow> fs = fs0 \<or> dir = Inverse \<and> modes_of tree fs0 (map_of (seeded j seed)) \<and> between chown_mode offset dir tree fs0 fs
      | Some d \<Rightarrow> modes_of tree fs0 (map_of d) \<and> between chown_mode offset dir tree fs0 fs))"

lemma between_refl: "between chown_mode offset dir tree fs0 fs0"
  by (simp add: between_def stage_def)

lemma shift_run:
  assumes scan: "scan_tree env offset dir False fs0 = Inr sc" "sc_problems sc = []" and law: "chown_clears chown_mode"
    and names: "distinct (map fst (se_walk env))" and seed: "seed \<noteq> Some key" and state: "begun chown_mode offset dir (se_walk env) key seed fs0 (j, fs)"
  shows "shift_journalled chown_mode env offset dir key seed save_ok j fs = (j, Inl (Raised Not_Saved)) \<and> \<not> save_ok
    \<or> (\<exists>d calls. shift_journalled chown_mode env offset dir key seed save_ok j fs = (j(key \<mapsto> d), Inr (calls, None))
        \<and> (\<forall>n. begun chown_mode offset dir (se_walk env) key seed fs0 (j(key \<mapsto> d), apply_calls chown_mode fs (take n calls)))
        \<and> apply_calls chown_mode fs calls = (\<lambda>k. if k \<in> snd ` set (se_walk env) then shifted chown_mode offset dir (fs0 k) else fs0 k))"
proof -
  let ?tree = "se_walk env" and ?resumed = "j key \<noteq> None"
  let ?s = "seeded j seed"
  let ?d = "dict_merge (dict_merge ?s (scan_setid fs ?tree)) (journalled j key)"
  have ok: "check_offset offset" using scan by (auto simp: scan_tree_def split: if_splits)
  have b: "between chown_mode offset dir ?tree fs0 fs" using state between_refl by (auto simp: begun_def split: option.splits)
  have s: "seed_ok ?tree fs0 ?s" "\<And>d. seeded (j(key \<mapsto> d)) seed = ?s"
    using state seed by (auto simp: begun_def seeded_def journalled_def split: option.splits)
  have nil: "dict_merge [] x = x" "dict_merge x [] = x" for x :: "(string \<times> perms) list"
    by (simp_all add: dict_merge_def case_prod_beta)
  have good: "modes_of ?tree fs0 (map_of ?d)"
  proof (cases "j key")
    case None
    then have "fs = fs0 \<or> modes_of ?tree fs0 (map_of ?s)" using state by (auto simp: begun_def)
    then show ?thesis using None first_modes [OF names s(1)] seeded_modes [OF names law b] by (auto simp: journalled_def nil)
  next
    case (Some d)
    then show ?thesis using merged_modes [OF names law b s(1)] state by (simp add: begun_def journalled_def)
  qed
  obtain sc1 where sc1: "scan_tree env offset dir False fs = Inr sc1" "sc_setid sc1 = scan_setid fs ?tree"
    using scan_setid_between [OF scan] by blast
  obtain sc2 where sc2: "scan_tree env offset dir ?resumed fs = Inr sc2" "sc_problems sc2 = []"
  proof (cases "j key")
    case None
    then have "fs = fs0 \<or> dir = Inverse" using state by (auto simp: begun_def)
    then show ?thesis using that scan None scan_between [OF scan law b, of Inverse False] by auto
  next
    case (Some d)
    then show ?thesis using that scan_between [OF scan law b, of dir True] by auto
  qed
  have sc2': "sc_setid sc2 = scan_setid fs ?tree" "sc_linked sc2 = map snd (filter (\<lambda>(rel, key). is_linked fs key) ?tree)"
    using scan_setid_between [OF scan, of ?resumed fs] sc2(1) by auto
  let ?modes = "map_of (dict_merge (scan_setid fs ?tree) ?d)"
  have modes: "modes_of ?tree fs0 ?modes" using merged_modes [OF names law b seed_empty good] by (simp add: nil)
  have linked: "k \<in> set (sc_linked sc2)" if "k \<in> snd ` set ?tree" "is_linked fs0 k" for k
    using that between_linked [OF b] sc2'(2) by force
  obtain calls where calls: "walk_calls chown_mode offset dir ?resumed ?modes (sc_linked sc2) ?tree fs = (calls, None)"
    "\<And>n. between chown_mode offset dir ?tree fs0 (apply_calls chown_mode fs (take n calls))"
    "apply_calls chown_mode fs calls = (\<lambda>k. if k \<in> snd ` set ?tree then shifted chown_mode offset dir (fs0 k) else fs k)"
    using walk_between [OF ok law modes b subset_refl linked] by blast
  have st: "shift_tree chown_mode env offset dir ?d ?resumed fs = Inr (calls, None)"
    using sc2 sc2'(1) calls(1) by (simp add: shift_tree_def)
  have run: "shift_journalled chown_mode env offset dir key seed save_ok j fs
      = (if (\<not> ?resumed \<or> set ?d \<noteq> set (journalled j key)) \<and> \<not> save_ok then (j, Inl (Raised Not_Saved))
         else (j(key \<mapsto> ?d), Inr (calls, None)))"
    using sc1 st by (cases "j key") (simp_all add: shift_journalled_def Let_def nil journalled_def)
  have "apply_calls chown_mode fs calls = (\<lambda>k. if k \<in> snd ` set ?tree then shifted chown_mode offset dir (fs0 k) else fs0 k)"
    using calls(3) between_outside [OF b] by (auto simp: fun_eq_iff)
  moreover have "begun chown_mode offset dir ?tree key seed fs0 (j(key \<mapsto> ?d), apply_calls chown_mode fs (take n calls))" for n
    using calls(2) good s by (simp add: begun_def)
  ultimately show ?thesis using run by (auto split: if_splits)
qed

lemma shift_finishes:
  assumes scan: "scan_tree env offset dir False fs0 = Inr sc" "sc_problems sc = []" and law: "chown_clears chown_mode"
    and names: "distinct (map fst (se_walk env))" and seed: "seed \<noteq> Some key"
    and state: "begun chown_mode offset dir (se_walk env) key seed fs0 state"
    and killed: "foldl (killed_shift chown_mode env offset dir key seed) state runs = (j, fs)"
  shows "begun chown_mode offset dir (se_walk env) key seed fs0 (j, fs)"
    "\<exists>d calls. shift_journalled chown_mode env offset dir key seed True j fs = (j(key \<mapsto> d), Inr (calls, None))
      \<and> apply_calls chown_mode fs calls = (\<lambda>k. if k \<in> snd ` set (se_walk env) then shifted chown_mode offset dir (fs0 k) else fs0 k)"
proof -
  have step: "begun chown_mode offset dir (se_walk env) key seed fs0 (killed_shift chown_mode env offset dir key seed st run)"
    if "begun chown_mode offset dir (se_walk env) key seed fs0 st" for st run
  proof -
    obtain j1 fs1 save_ok n where e: "st = (j1, fs1)" "run = (save_ok, n)" by (metis surj_pair)
    show ?thesis using shift_run [OF scan law names seed that [unfolded e], of save_ok] that
      by (auto simp: killed_shift_def e)
  qed
  have "begun chown_mode offset dir (se_walk env) key seed fs0 (foldl (killed_shift chown_mode env offset dir key seed) st runs)"
    if "begun chown_mode offset dir (se_walk env) key seed fs0 st" for st
    using that by (induction runs arbitrary: st) (simp_all add: step)
  then show "begun chown_mode offset dir (se_walk env) key seed fs0 (j, fs)" using state killed by metis
  then show "\<exists>d calls. shift_journalled chown_mode env offset dir key seed True j fs = (j(key \<mapsto> d), Inr (calls, None))
      \<and> apply_calls chown_mode fs calls = (\<lambda>k. if k \<in> snd ` set (se_walk env) then shifted chown_mode offset dir (fs0 k) else fs0 k)"
    using shift_run [OF scan law names seed, of j fs True] by blast
qed

lemma killed_other: "k \<noteq> key \<Longrightarrow> fst (foldl (killed_shift chown_mode env offset dir key seed) (j, fs) runs) k = j k"
proof (induction runs arbitrary: j fs)
  case (Cons run runs)
  obtain save_ok n where run: "run = (save_ok, n)" by (metis surj_pair)
  obtain j' fs' where st: "killed_shift chown_mode env offset dir key seed (j, fs) run = (j', fs')" by (metis surj_pair)
  have "j' k = j k" using st Cons.prems
    by (auto simp: killed_shift_def shift_journalled_def run Let_def split: sum.splits if_splits)
  then show ?case using Cons st by simp
qed simp

lemma scan_ids:
  assumes "scan_tree env offset Forward False fs0 = Inr sc" "sc_problems sc = []" "k \<in> snd ` set (se_walk env)"
  shows "in_uid (fs0 k) < id_range \<and> in_gid (fs0 k) < id_range"
proof -
  obtain rel where rel: "(rel, k) \<in> set (se_walk env)" using assms(3) by (metis imageE prod.collapse)
  have "\<forall>e\<in>set (se_walk env). entry_problems offset Forward False (root_dev (se_walk env)) fs0 e = []"
    using assms(1,2) by (auto simp: scan_tree_def Let_def split: if_splits)
  then have "entry_problems offset Forward False (root_dev (se_walk env)) fs0 (rel, k) = []" using rel by blast
  then show ?thesis by (auto simp: entry_problems_def if_problem_def Let_def new_id_def split: if_splits)
qed

text \<open>What an inverse shift begins from: the tree as a forward shift left it, but with the modes of the regular files.\<close>

definition rebased :: "inodes \<Rightarrow> inodes \<Rightarrow> inodes" where
  "rebased fs0 fs k = (if in_kind (fs0 k) = Regular then (fs k)\<lparr>in_mode := in_mode (fs0 k)\<rparr> else fs k)"

lemma rebased_stage:
  assumes "stage chown_mode offset Forward (fs0 k) (fs k)"
  shows "stage chown_mode offset Forward (fs0 k) (rebased fs0 fs k)" "stage chown_mode offset Inverse (rebased fs0 fs k) (fs k)"
    "in_kind (rebased fs0 fs k) = in_kind (fs0 k)"
    "in_kind (fs0 k) = Regular \<Longrightarrow> in_mode (rebased fs0 fs k) = in_mode (fs0 k)"
proof -
  show "stage chown_mode offset Forward (fs0 k) (rebased fs0 fs k)" "stage chown_mode offset Inverse (rebased fs0 fs k) (fs k)"
    using assms by (auto simp: stage_def rebased_def moved_def)
  show "in_kind (rebased fs0 fs k) = in_kind (fs0 k)" "in_kind (fs0 k) = Regular \<Longrightarrow> in_mode (rebased fs0 fs k) = in_mode (fs0 k)"
    using stage_fields [OF assms] by (simp_all add: rebased_def)
qed

lemma rebased_shifted: "rebased fs0 (\<lambda>k. if k \<in> K then shifted chown_mode offset dir (fs0 k) else fs0 k)
    = (\<lambda>k. if k \<in> K then shifted chown_mode offset dir (fs0 k) else fs0 k)"
  unfolding fun_eq_iff rebased_def by (simp add: shifted_def moved_def)

lemma shifted_back:
  assumes "check_offset offset" "in_uid (fs0 k) < id_range" "in_gid (fs0 k) < id_range" "stage chown_mode offset Forward (fs0 k) (fs k)"
  shows "in_uid (shifted chown_mode offset Inverse (rebased fs0 fs k)) = in_uid (fs0 k)
    \<and> in_gid (shifted chown_mode offset Inverse (rebased fs0 fs k)) = in_gid (fs0 k)
    \<and> (in_kind (fs0 k) = Regular \<longrightarrow> shifted chown_mode offset Inverse (rebased fs0 fs k) = fs0 k)"
proof -
  have big: "id_range \<le> offset" "0 < id_range" using offset_large [OF assms(1)] by (simp_all add: id_range_def)
  then have f: "moves offset Forward (fs0 k)" using assms by (simp add: moves_def shifted_id_simps)
  show ?thesis using assms(4) f assms(1,2,3) big
    by (auto simp: stage_def rebased_def shifted_def moved_def moves_def shifted_id_simps split: if_splits)
qed

lemma rebased_outside: "fs k = fs0 k \<Longrightarrow> rebased fs0 fs k = fs0 k"
  by (simp add: rebased_def)

text \<open>Where a forward shift has been killed, an inverse one can begin.\<close>

lemma inverse_begins:
  assumes state: "begun chown_mode offset Forward tree key None fs0 (j, fs)" and j: "j key' = None"
    and seed: "seed = Some key \<or> seed = None \<and> fs = (\<lambda>k. if k \<in> snd ` set tree then shifted chown_mode offset Forward (fs0 k) else fs0 k)"
  shows "begun chown_mode offset Inverse tree key' seed (rebased fs0 fs) (j, fs)"
proof -
  have b: "between chown_mode offset Forward tree fs0 fs" using state between_refl by (auto simp: begun_def split: option.splits)
  have stage_at: "stage chown_mode offset Forward (fs0 k) (fs k)" if "k \<in> snd ` set tree" for k by (rule between_stage [OF b that])
  have inverse: "between chown_mode offset Inverse tree (rebased fs0 fs) fs"
  proof (rule betweenI)
    show "stage chown_mode offset Inverse (rebased fs0 fs k) (fs k)" if "k \<in> snd ` set tree" for k
      using stage_at [OF that] by (rule rebased_stage(2))
    show "fs k = rebased fs0 fs k" if "k \<notin> snd ` set tree" for k
      using between_outside [OF b that] by (simp add: rebased_outside)
  qed
  have modes: "modes_of tree (rebased fs0 fs) (map_of d)" if "modes_of tree fs0 (map_of d)" for d
    unfolding modes_of_def
  proof (intro ballI, clarify)
    fix rel and k :: inode_key
    assume k: "(rel, k) \<in> set tree" "in_kind (rebased fs0 fs k) = Regular"
    have st: "stage chown_mode offset Forward (fs0 k) (fs k)" by (rule stage_at [OF walked_key [OF k(1)]])
    have r: "in_kind (rebased fs0 fs k) = in_kind (fs0 k)" "in_kind (fs0 k) = Regular \<Longrightarrow> in_mode (rebased fs0 fs k) = in_mode (fs0 k)"
      by (simp_all add: rebased_def stage_fields [OF st])
    show "map_of d rel = (if loses_mode (rebased fs0 fs k) then Some (in_mode (rebased fs0 fs k)) else None)"
      using modes_ofD [OF that k(1)] k(2) r by (simp add: loses_mode_def)
  qed
  have seed_ok: "seed_ok tree fs1 s" if "modes_of tree fs1 (map_of s)" for fs1 s
    unfolding seed_ok_def
  proof (rule ballI, clarify)
    fix rel and k :: inode_key
    assume k: "(rel, k) \<in> set tree" "in_kind (fs1 k) = Regular" "\<not> (loses_mode (fs1 k) \<and> map_of s rel = Some (in_mode (fs1 k)))"
    then show "map_of s rel = None" using modes_ofD [OF that k(1,2)] by (simp split: if_splits)
  qed
  consider "j key = None" "fs = fs0" "seeded j seed = []" | d where "j key = Some d" "seed = Some key" "modes_of tree fs0 (map_of d)" | "seed = None" "rebased fs0 fs = fs"
    using state seed by (cases "j key") (auto simp: begun_def seeded_def journalled_def rebased_shifted)
  then show ?thesis
  proof cases
    case 1
    then have "rebased fs0 fs = fs" by (auto simp: rebased_outside)
    then show ?thesis using 1 j by (simp add: begun_def seed_empty)
  next
    case 2
    then show ?thesis using j modes [OF 2(3)] seed_ok [OF modes [OF 2(3)]] inverse by (simp add: begun_def seeded_def journalled_def)
  next
    case 3
    then show ?thesis using j by (simp add: begun_def seeded_def seed_empty)
  qed
qed

text \<open>A tree with a setuid file, and a run of its shift that is killed after the chown of that file.\<close>

definition demo_env :: shift_tree_env where
  "demo_env = \<lparr> se_reachable = True, se_mounts = [], se_walk = [(''.'', (8, 1)), (''ping'', (8, 2))] \<rparr>"

definition demo_fs :: inodes where
  "demo_fs k = (if k = (8, 1)
     then \<lparr> in_kind = Directory, in_uid = 0, in_gid = 0, in_mode = 0x1ED, in_nlink = 2, in_xattrs = [], in_immutable = False, in_append = False \<rparr>
     else \<lparr> in_kind = Regular, in_uid = 33, in_gid = 33, in_mode = 0x9ED, in_nlink = 1, in_xattrs = [], in_immutable = False, in_append = False \<rparr>)"

definition demo_killed :: "setid_journal \<times> inodes" where
  "demo_killed = foldl (killed_shift (\<lambda>_. cleared) demo_env 65536 Forward ''t'' None) (\<lambda>_. None, demo_fs) [(False, 0), (True, 2)]"

lemma demo_clears: "chown_clears (\<lambda>_. cleared)"
  by (simp add: chown_clears_def)

lemma demo_scan: "\<exists>sc. scan_tree demo_env 65536 Forward False demo_fs = Inr sc \<and> sc_problems sc = []"
  by (simp add: scan_tree_def demo_env_def demo_fs_def check_offset_def id_range_def Let_def entry_problems_def if_problem_def
      new_id_def opened_def refused_xattrs_def root_dev_def count_link_def is_linked_def link_problems_def scan_setid_def loses_mode_def max_setid_def)

lemma demo_killed_mode: "in_uid (snd demo_killed (8, 2)) = 65569 \<and> in_mode (snd demo_killed (8, 2)) = 0x1ED"
  by (simp add: demo_killed_def killed_shift_def shift_journalled_def shift_tree_def scan_tree_def demo_env_def demo_fs_def
      check_offset_def id_range_def Let_def entry_problems_def if_problem_def new_id_def opened_def refused_xattrs_def root_dev_def
      count_link_def is_linked_def link_problems_def scan_setid_def loses_mode_def max_setid_def seeded_def journalled_def dict_merge_def
      visit_calls_def shifted_id_def chmod_calls_def apply_calls_def cleared_def s_isuid_def s_isgid_def s_ixgrp_def)

text \<open>A shift survives any number of kills: when the scan of a tree has no problem and
  the kernel's chown leaves the mode or clears setuid and setgid as \<open>_cleared\<close> does, then
  after any runs of \<open>shift_journalled\<close> for that tree, each killed after some of its calls or
  stopped by a save that failed, the next run whose save goes through is not refused, and it
  ends with every owner in the tree moved exactly once, every regular file with the
  mode it had before the first run, and nothing outside the tree touched.\<close>

theorem shift_crash_safe:
  assumes scan: "scan_tree env offset dir False fs0 = Inr sc" "sc_problems sc = []" and law: "chown_clears chown_mode"
    and names: "distinct (map fst (se_walk env))" and fresh: "j0 key = None"
    and killed: "foldl (killed_shift chown_mode env offset dir key None) (j0, fs0) runs = (j, fs)"
  shows "\<exists>d calls. shift_journalled chown_mode env offset dir key None True j fs = (j(key \<mapsto> d), Inr (calls, None))
    \<and> apply_calls chown_mode fs calls = (\<lambda>k. if k \<in> snd ` set (se_walk env) then shifted chown_mode offset dir (fs0 k) else fs0 k)"
proof -
  have "begun chown_mode offset dir (se_walk env) key None fs0 (j0, fs0)" using fresh by (simp add: begun_def seeded_def seed_empty)
  then show ?thesis using shift_finishes(2) [OF scan law names _ _ killed] by blast
qed

theorem shift_crash_safe_example:
  "in_mode (snd demo_killed (8, 2)) = 0x1ED \<and>
   (\<exists>d calls. shift_journalled (\<lambda>_. cleared) demo_env 65536 Forward ''t'' None True (fst demo_killed) (snd demo_killed)
        = ((fst demo_killed)(''t'' \<mapsto> d), Inr (calls, None))
      \<and> apply_calls (\<lambda>_. cleared) (snd demo_killed) calls (8, 2) = (demo_fs (8, 2))\<lparr>in_uid := 65569, in_gid := 65569\<rparr>)"
proof -
  obtain sc where sc: "scan_tree demo_env 65536 Forward False demo_fs = Inr sc" "sc_problems sc = []" using demo_scan by blast
  have st: "foldl (killed_shift (\<lambda>_. cleared) demo_env 65536 Forward ''t'' None) (\<lambda>_. None, demo_fs) [(False, 0), (True, 2)]
      = (fst demo_killed, snd demo_killed)" by (simp only: demo_killed_def prod.collapse)
  have final: "shifted (\<lambda>_. cleared) 65536 Forward (demo_fs (8, 2)) = (demo_fs (8, 2))\<lparr>in_uid := 65569, in_gid := 65569\<rparr>"
    by (simp add: shifted_def moves_def moved_def shifted_id_def new_id_def id_range_def demo_fs_def)
  have names: "distinct (map fst (se_walk demo_env))" "(8, 2) \<in> snd ` set (se_walk demo_env)" by (simp_all add: demo_env_def)
  obtain d calls where run: "shift_journalled (\<lambda>_. cleared) demo_env 65536 Forward ''t'' None True (fst demo_killed) (snd demo_killed)
      = ((fst demo_killed)(''t'' \<mapsto> d), Inr (calls, None))"
    "apply_calls (\<lambda>_. cleared) (snd demo_killed) calls
      = (\<lambda>k. if k \<in> snd ` set (se_walk demo_env) then shifted (\<lambda>_. cleared) 65536 Forward (demo_fs k) else demo_fs k)"
    using shift_crash_safe [OF sc demo_clears names(1) _ st] by auto
  have "apply_calls (\<lambda>_. cleared) (snd demo_killed) calls (8, 2) = shifted (\<lambda>_. cleared) 65536 Forward (demo_fs (8, 2))"
    unfolding run(2) if_P [OF names(2)] ..
  then show ?thesis using demo_killed_mode final run(1) by auto
qed

text \<open>A rollback's inverse shift undoes the forward one, finished or not: after any killed runs
  of the forward \<open>shift_journalled\<close> over a tree whose scan had no problem, the inverse, seeded with
  the forward list, and after any killed runs of its own, finishes, and then every
  entry has its first owner and group again, every regular file is exactly as it was, its
  mode included, and nothing outside the tree has changed.  Without the seed the same
  holds once the forward shift has finished, which is when \<open>_unfinished\<close> passes none.\<close>

theorem shift_round_trip:
  assumes scan: "scan_tree env offset Forward False fs0 = Inr sc" "sc_problems sc = []" and law: "chown_clears chown_mode"
    and names: "distinct (map fst (se_walk env))" and fresh: "j0 key = None" "j0 key' = None" "key' \<noteq> key"
    and forward: "foldl (killed_shift chown_mode env offset Forward key None) (j0, fs0) runs = (j1, fs1)"
    and seed: "seed = Some key
      \<or> seed = None \<and> fs1 = (\<lambda>k. if k \<in> snd ` set (se_walk env) then shifted chown_mode offset Forward (fs0 k) else fs0 k)"
    and inverse: "foldl (killed_shift chown_mode env offset Inverse key' seed) (j1, fs1) runs' = (j2, fs2)"
  shows "\<exists>d calls fs3. shift_journalled chown_mode env offset Inverse key' seed True j2 fs2 = (j2(key' \<mapsto> d), Inr (calls, None))
    \<and> apply_calls chown_mode fs2 calls = fs3
    \<and> in_uid (fs3 k) = in_uid (fs0 k) \<and> in_gid (fs3 k) = in_gid (fs0 k)
    \<and> (in_kind (fs0 k) = Regular \<or> k \<notin> snd ` set (se_walk env) \<longrightarrow> fs3 k = fs0 k)"
proof -
  let ?tree = "se_walk env" and ?base = "rebased fs0 fs1"
  have ok: "check_offset offset" using scan by (auto simp: scan_tree_def split: if_splits)
  have "begun chown_mode offset Forward ?tree key None fs0 (j0, fs0)" using fresh by (simp add: begun_def seeded_def seed_empty)
  then have state: "begun chown_mode offset Forward ?tree key None fs0 (j1, fs1)"
    using shift_finishes(1) [OF scan law names _ _ forward] by blast
  then have b: "between chown_mode offset Forward ?tree fs0 fs1" using between_refl by (auto simp: begun_def split: option.splits)
  have stage_at: "stage chown_mode offset Forward (fs0 k) (fs1 k)" if "k \<in> snd ` set ?tree" for k by (rule between_stage [OF b that])
  have base: "between chown_mode offset Forward ?tree fs0 ?base"
  proof (rule betweenI)
    show "stage chown_mode offset Forward (fs0 k) (?base k)" if "k \<in> snd ` set ?tree" for k
      using stage_at [OF that] by (rule rebased_stage(1))
    show "?base k = fs0 k" if "k \<notin> snd ` set ?tree" for k using between_outside [OF b that] by (rule rebased_outside)
  qed
  obtain sc1 where scan1: "scan_tree env offset Inverse False ?base = Inr sc1" "sc_problems sc1 = []"
    using scan_between [OF scan law base, of Inverse False] by blast
  have "j1 key' = None" using killed_other [OF fresh(3), of chown_mode env offset Forward None j0 fs0 runs] forward fresh(2) by simp
  then have "begun chown_mode offset Inverse ?tree key' seed ?base (j1, fs1)" using inverse_begins [OF state _ seed] by blast
  then obtain d calls where run: "shift_journalled chown_mode env offset Inverse key' seed True j2 fs2 = (j2(key' \<mapsto> d), Inr (calls, None))"
    "apply_calls chown_mode fs2 calls = (\<lambda>k. if k \<in> snd ` set ?tree then shifted chown_mode offset Inverse (?base k) else ?base k)"
    using shift_finishes(2) [OF scan1 law names _ _ inverse] seed fresh(3) by blast
  show ?thesis
  proof (cases "k \<in> snd ` set ?tree")
    case True
    have ids: "in_uid (fs0 k) < id_range" "in_gid (fs0 k) < id_range" using scan_ids [OF scan True] by auto
    have "in_uid (shifted chown_mode offset Inverse (?base k)) = in_uid (fs0 k)
        \<and> in_gid (shifted chown_mode offset Inverse (?base k)) = in_gid (fs0 k)
        \<and> (in_kind (fs0 k) = Regular \<longrightarrow> shifted chown_mode offset Inverse (?base k) = fs0 k)"
      using ok ids stage_at [OF True] by (rule shifted_back)
    then show ?thesis using run True by auto
  next
    case False
    then have "apply_calls chown_mode fs2 calls k = fs0 k" using run(2) between_outside [OF b False] by (simp add: rebased_outside)
    then show ?thesis using run(1) by auto
  qed
qed

text \<open>The forward shift is killed after the chown of the setuid file, then the inverse after its own.\<close>

definition demo_inverse :: "setid_journal \<times> inodes" where
  "demo_inverse = foldl (killed_shift (\<lambda>_. cleared) demo_env 65536 Inverse ''u'' (Some ''t'')) (fst demo_killed, snd demo_killed) [(True, 2)]"

theorem shift_round_trip_example:
  "\<exists>d calls. shift_journalled (\<lambda>_. cleared) demo_env 65536 Inverse ''u'' (Some ''t'') True (fst demo_inverse) (snd demo_inverse)
      = ((fst demo_inverse)(''u'' \<mapsto> d), Inr (calls, None))
    \<and> apply_calls (\<lambda>_. cleared) (snd demo_inverse) calls (8, 2) = demo_fs (8, 2)"
proof -
  obtain sc where sc: "scan_tree demo_env 65536 Forward False demo_fs = Inr sc" "sc_problems sc = []" using demo_scan by blast
  have names: "distinct (map fst (se_walk demo_env))" by (simp add: demo_env_def)
  have forward: "foldl (killed_shift (\<lambda>_. cleared) demo_env 65536 Forward ''t'' None) (\<lambda>_. None, demo_fs) [(False, 0), (True, 2)]
      = (fst demo_killed, snd demo_killed)" by (simp only: demo_killed_def prod.collapse)
  have inverse: "foldl (killed_shift (\<lambda>_. cleared) demo_env 65536 Inverse ''u'' (Some ''t'')) (fst demo_killed, snd demo_killed) [(True, 2)]
      = (fst demo_inverse, snd demo_inverse)" by (simp only: demo_inverse_def prod.collapse)
  have "in_kind (demo_fs (8, 2)) = Regular" by (simp add: demo_fs_def)
  then show ?thesis
    using shift_round_trip [OF sc demo_clears names _ _ _ forward _ inverse, of "(8, 2)"] by auto
qed

text \<open>A shift that is refused for an id of the target range has been journalled as begun: the next run takes that id for shifted.\<close>

lemma refused_then_accepted:
  assumes "scan_tree env offset Forward False fs = Inr sc" "sc_problems sc \<noteq> []"
    and "scan_tree env offset Forward True fs = Inr sc'" "sc_problems sc' = []" "j key = None"
  shows "\<exists>d calls. shift_journalled chown_mode env offset Forward key None True j fs = (j(key \<mapsto> d), Inl (Raised (Shift_Refused (sc_problems sc))))
    \<and> snd (shift_journalled chown_mode env offset Forward key None True (j(key \<mapsto> d)) fs) = Inr calls"
  using assms by (auto simp: shift_journalled_def shift_tree_def Let_def)

end
