(* ===== verification/Spec2Isabelle.thy ===== *)
theory Spec2Isabelle
  imports
    Py_Datetime
    Writable
    Manifest_Fields
    Manifest_Schema
    Manifest
    Caddy_Site
    Manifest_Laws
    Site_Journal
    Run_As
    Update_Targets
    Container_Update
    Update_Laws
    Update_Guard
    Update_Run
    Cve_Scanner
    Cve_Suppressions
    Cve_Relevance
    Capabilities
    Security_Overlay
    Security_Resolve
    Cve_Hardening
    Cve_Policy_Explain
    Cve_Policy
    Cve_Policy_Laws
    Cve_Security_Policy
    Cve_Breaker
    Cve_Grace
    Cve_Kev
    Box_State
    Restart_Hold
    Pause
    Cve_Quarantine
    Cve_Quarantine_Laws
    Cve_Scan_State
    Cve_Alert_Texts
    Cve_Alerting
    Cve_Alerting_Laws
    Lifecycle
    Scan_Inputs
    Scan_Core
    Scan_Laws
    Scan_Alerts
    Py_State
    Py_Json
    Disk_Files
    Posix_Path
    Compose_Mounts
    Data_Dirs
    Release_Install
    Release_Keep
    Release_Keep_Laws
    Release_Txn
    Release_Txn_Laws
    Release_Selection
    Version_Catalog
    Upgrade_Discovery
    Release_Selection_Laws
    Discovery_Laws
    Blocked_Update
    Userns_Shift
    Userns_Shift_Laws
    Userns_Resume
begin

text \<open>
  A verification development for \<^bold>\<open>boxmunge\<close>, a tool that runs small web projects on one
  host: it deploys a project's release as Docker Compose services behind a shared Caddy,
  keeps the previous release, watches the images for known vulnerabilities and takes a
  project down when it must, and upgrades itself.  The sources are Python, under
  \<^verbatim>\<open>src/src/boxmunge/\<close>; the service that answers which version to install is under
  \<^verbatim>\<open>src/services/version-check/\<close>.  File names below are relative to the first.

  \<^bold>\<open>How the program is put together.\<close>  A project is a directory with a manifest
  (\<^verbatim>\<open>manifest.yml\<close>) and a compose file.  An install validates them, puts the release's code
  over the live project and keeps the old code under \<^verbatim>\<open>.releases/\<close>, with a journal record
  that lets any interruption be finished or abandoned.  The compose overlay and the Caddy
  site are generated from the manifest.  A scheduled scan runs Trivy on every image, decides
  for each finding what it means for the project (exempt, allowed, alert, quarantine),
  records the decisions, alerts about what changed and quarantines.  A quarantine or a pause
  stops the containers and holds their restart policies, and gives them back afterwards.
  The box asks the version-check service, or GitHub, which version it may upgrade to.

  \<^bold>\<open>Values, errors and effects.\<close>  \<open>Py_Prelude\<close> has the Python values a parsed document is
  made of (\<open>pyval\<close>), errors as \<open>'e + 'a\<close> (a raise of the source's own exception is
  \<open>Raised e\<close>, a built-in exception \<open>Crash x\<close>), strings, dates and the iterations that stop
  at the first error; \<open>Py_Datetime\<close> the datetimes, \<open>Py_Json\<close> the text of a string in JSON, \<open>Posix_Path\<close> paths as text, \<open>Py_State\<close>
  code that changes a state and may fail, with triples over it.  \<open>Box_State\<close> and
  \<open>Disk_Files\<close> are the host and the disk: each effect takes its outcome from a list the
  environment chooses, and the disk's outcomes include dying at that step, so a theorem
  about every list of outcomes is about every failure and every kill.  Text is read as
  U+0000 to U+00FF.  Messages are constructors that name what they are about, unless the
  text itself is the result (alerts, explanations, the Caddy site).

  \<^bold>\<open>Manifest, compose and Caddy.\<close>
  \<open>Manifest_Schema\<close> (\<^verbatim>\<open>migration.py\<close>, \<^verbatim>\<open>user_entries.py\<close>, loading of \<^verbatim>\<open>manifest.py\<close>),
  \<open>Manifest_Fields\<close> (\<^verbatim>\<open>manifest_fields.py\<close>, \<^verbatim>\<open>backup_command_warnings.py\<close>), \<open>Writable\<close>
  (\<^verbatim>\<open>writable.py\<close>), \<open>Security_Overlay\<close> and \<open>Security_Resolve\<close> (\<^verbatim>\<open>security_overlay.py\<close>,
  \<^verbatim>\<open>capabilities.py\<close>, \<^verbatim>\<open>published_ports.py\<close>), \<open>Manifest\<close> (\<open>validate_manifest\<close> and
  \<open>get_all_routes\<close>), \<open>Compose_Mounts\<close> (\<^verbatim>\<open>compose_mounts.py\<close>), \<open>Caddy_Site\<close> (\<^verbatim>\<open>caddy.py\<close>) and
  \<open>Site_Journal\<close> (\<^verbatim>\<open>caddy_journal.py\<close> and the reload).  The laws: an accepted manifest's
  Caddy site exists and says only what was declared (\<open>Manifest_Laws\<close>), accepted writable
  blocks, mounts and security blocks are safe, loading keeps every service's entry, and the
  site journal refines the machine that keeps the accepted configuration apart, for
  entries within their size limit (texts of a quarter of a site's limit always are).
  \<open>Run_As\<close> (\<^verbatim>\<open>run_as.py\<close>, \<open>decide_users\<close> of \<^verbatim>\<open>commands/deploy_images.py\<close>) decides which
  user a service runs as: root is never implicit, and what a deploy decided is what the
  record gives back.

  \<^bold>\<open>Releases.\<close>  \<open>Data_Dirs\<close> (what is data and what is code), \<open>Release_Install\<close>,
  \<open>Release_Keep\<close> with \<open>Release_Keep_Laws\<close>, \<open>Release_Txn\<close> with \<open>Release_Txn_Laws\<close>
  (\<^verbatim>\<open>data_dirs.py\<close>, \<^verbatim>\<open>release.py\<close>, \<^verbatim>\<open>release_keep.py\<close>, \<^verbatim>\<open>release_txn.py\<close> and the commands that
  abandon or drop an install).  The laws: an install keeps all data and puts exactly the
  release's code in place, the keep commits or is undone wherever it is cut off, a crash is
  never taken for a stale record, the record's phases only go forward.

  \<^bold>\<open>Vulnerability scanning.\<close>  \<open>Cve_Scanner\<close>, \<open>Cve_Relevance\<close>, \<open>Cve_Suppressions\<close>,
  \<open>Cve_Hardening\<close>, \<open>Cve_Kev\<close>, \<open>Cve_Grace\<close>, \<open>Cve_Policy\<close> (the decision engine) with
  \<open>Cve_Policy_Laws\<close>, \<open>Cve_Policy_Explain\<close>, \<open>Cve_Security_Policy\<close>, \<open>Cve_Breaker\<close>,
  \<open>Cve_Scan_State\<close>, \<open>Cve_Alert_Texts\<close> and \<open>Cve_Alerting\<close> with \<open>Cve_Alerting_Laws\<close> are the
  modules of \<^verbatim>\<open>cve/\<close>; \<open>Scan_Inputs\<close>, \<open>Scan_Core\<close>, \<open>Scan_Laws\<close> and \<open>Scan_Alerts\<close> the scan of one
  project that composes them (\<^verbatim>\<open>commands/security_scan_*.py\<close>).  The laws: an exploited CVE is never
  hidden, a stricter posture never decides more mildly, a scan acts exactly when it must and
  says so, and a scan that found nothing new is quiet.

  \<^bold>\<open>Stopping and starting.\<close>  \<open>Restart_Hold\<close>, \<open>Pause\<close>, \<open>Cve_Quarantine\<close> with
  \<open>Cve_Quarantine_Laws\<close>, and \<open>Lifecycle\<close> (\<^verbatim>\<open>restart_hold.py\<close>, \<^verbatim>\<open>pause.py\<close>,
  \<^verbatim>\<open>cve/quarantine.py\<close>, \<^verbatim>\<open>lifecycle.py\<close>).  The laws: no project is taken down without a
  record, a lift gives every restart policy back, and a command is refused exactly when the
  project's state forbids it.

  \<^bold>\<open>Upgrades.\<close>  \<open>Release_Selection\<close>, \<open>Version_Catalog\<close>, \<open>Upgrade_Discovery\<close> and
  \<open>Blocked_Update\<close>, with \<open>Release_Selection_Laws\<close> and \<open>Discovery_Laws\<close>.  The laws: the service
  and GitHub lead to the same answer, a breaking release or a new major version is never
  crossed, a version that failed stays blocked, and a blocked update is reported.

  \<^bold>\<open>Bounds.\<close>  No loop of the model uses fuel: iterations are over lists, and the recursions
  that are not structural have a measure.  Floats of the source appear as the exact double
  (the breaker's share, \<open>double_mult\<close>) or as the rational a document's number denotes.
  Sizes and counts that the source bounds (file sizes, ports, ids, timeouts) keep its
  constants.

  \<^bold>\<open>Container updates.\<close>  \<open>Update_Targets\<close> (\<^verbatim>\<open>container_update_targets.py\<close>),
  \<open>Container_Update\<close> (\<^verbatim>\<open>container_update.py\<close>, \<^verbatim>\<open>user_drift.py\<close>) and \<open>Update_Run\<close>
  (\<^verbatim>\<open>commands/container_update_cmd.py\<close>).  The state holds what the local image references
  name and the list of the calls that change something; Docker's answers are functions of
  the calls before them, and so is what an \<open>up\<close> pulls by the services' own policies.  \<open>Update_Laws\<close> and \<open>Update_Guard\<close>: a recreate comes only after
  every guard and a good backup, taken back images are taken back for every service, no
  update changes who writes a service's data, success means a healthy look and a state
  file that says so, and waiting ends (31 looks: 90 seconds, 3 apart).

  \<^bold>\<open>User-namespace migration.\<close>  \<open>Userns_Shift\<close> (\<^verbatim>\<open>userns/shift.py\<close>, \<open>shift_journalled\<close> of
  \<^verbatim>\<open>userns/engine.py\<close>): the owners of a data tree move into a range of ids and back, as
  an explicit list of chowns and chmods that a kill cuts anywhere.  \<open>Userns_Shift_Laws\<close> has
  what every prefix of the calls leaves, \<open>Userns_Resume\<close> that any number of killed runs is
  finished by the next (\<open>shift_crash_safe\<close>) and that the inverse shift of a rollback, begun
  at any point, gives back every owner and mode (\<open>shift_round_trip\<close>).

  \<^bold>\<open>Not modelled.\<close>  Processes, network and terminal: the bodies of the Docker, Trivy, git and
  HTTP calls (their results are parameters), the command line, the API server, the TUI and
  the MCP tools.  Log lines and most printing.  Locks (each core is modelled as it runs
  under its lock), file modes and owners where no decision depends on them.  The text of
  YAML and JSON: a file is the value its parser returns, or one of the ways it cannot be
  read.  Backups, staging copies and secrets are copying and removing of files whose logic
  is in the calls they make.
\<close>

end
